(* ===== verification/GoErrors.thy ===== *)
theory GoErrors
  imports Main
begin

text \<open>
  The error values of the server. A Go error is a value that callers compare with
  \<open>errors.Is\<close>: every package-level sentinel (\<open>var ErrX = errors.New(...)\<close>) is a
  constructor of its package's datatype, an anonymous \<open>errors.New\<close> or an error text made
  by \<open>fmt.Errorf\<close> without \<open>%w\<close> is \<open>Anon\<close>, \<open>fmt.Errorf("...: %w", err)\<close> is \<open>Wrap\<close>,
  an error of a library outside the repository (MongoDB, NATS, the JSON Schema
  compiler) is \<open>External\<close>, and \<open>projection.RetryError\<close> is the constructor of its name. Where two packages declare a sentinel of the same name the
  constructor carries the package's name.
\<close>

datatype identity_error =
    ErrUnauthenticated
  | ErrForbidden
  | ErrMembershipGone
  | ErrRotationNotFound
  | ErrRotationConflict
  | ErrRotationInvalidScope
  | ErrRotationInvalidInput
  | ErrRotationInvalidState
  | ErrRotationInFlight
  | ErrRotationAudit
  | ErrRotationUnknownOwner

datatype schema_error =
    ErrCanonicalJSON
  | ErrInvalidSchema
  | ErrInvalidDocument
  | ErrSchemaNotFound
  | ErrSchemaImmutable
  | ErrSchemaDuplicate
  | ErrSchemaRevisionConflict
  | schema_ErrIdempotencyKeyRequired
  | schema_ErrIdempotencyConflict
  | schema_ErrReceiptNotFound
  | ErrInvalidSemanticType
  | ErrMigrationPlanNotFound
  | ErrMigrationPlanExists
  | ErrMigrationPlanConflict
  | ErrMigrationPlanTerminal
  | ErrMigrationPlanInvalid

datatype records_error =
    ErrInvalidTagID
  | ErrForbiddenTagPrefix
  | ErrInvalidTagScope
  | ErrTagDictionaryScope
  | ErrUnknownTag
  | ErrDuplicateTag
  | ErrTagGroupConflict
  | ErrTagDictionaryNotFound
  | ErrTagDictionaryExists
  | ErrTagDictionaryVersionConflict
  | ErrFeedCursorExpired
  | ErrFeedCursorInvalid
  | ErrFeedSlowConsumer
  | ErrFeedScopeRequired
  | ErrWorkspaceExists
  | ErrTableNotFound
  | ErrTableExists
  | ErrSchemaUnavailable
  | ErrProjectionReadOnly
  | ErrRecordExists
  | ErrRecordNotFound
  | ErrRecordVersionConflict
  | ErrReceiptNotFound
  | records_ErrIdempotencyKeyRequired
  | records_ErrIdempotencyConflict
  | ErrIndexExists
  | ErrIndexLimit
  | ErrIndexFieldNotAllowed
  | ErrIndexNotFound
  | ErrInvalidCursor
  | ErrWorkspaceNotFound
  | ErrViewExists
  | ErrViewNotFound
  | ErrViewVersionConflict
  | ErrExportViewRequired
  | ErrExportFormat
  | ErrExportTooLarge

datatype commands_error =
    ErrCommandUnavailable
  | ErrCommandPolicyDenied
  | ErrCommandPolicyNotFound
  | ErrCommandNotFound
  | ErrCommandExists
  | ErrCommandIdempotency
  | ErrCommandInvalidRequest
  | ErrCommandExpectedVersion
  | ErrCommandPayloadTooLarge
  | ErrCommandPublicationFailed
  | ErrCommandResultConflict
  | ErrCommandResultInvalid
  | ErrCommandInboxClaimed
  | ErrCommandInboxConflict

datatype binding_error =
    ErrInvalidSnapshot
  | ErrInvalidSnapshotRequest
  | ErrSnapshotNotFound
  | ErrSnapshotExists
  | binding_ErrIdempotencyKeyRequired
  | binding_ErrIdempotencyConflict
  | binding_ErrRecordNotFound
  | binding_ErrRecordVersionConflict
  | ErrSourceVersionConflict
  | ErrSchemaMismatch
  | ErrMachinePolicyDenied
  | ErrBindingUnavailable
  | ErrInvalidRecordReference

datatype connector_error =
    ErrInvalidManifest
  | ErrConnectorExists
  | ErrConnectorNotFound
  | ErrConnectorUnavailable
  | ErrSDKIncompatible
  | ErrRevisionConflict
  | ErrOnboardingNotFound
  | ErrOnboardingExists
  | ErrOnboardingState
  | ErrOnboardingEvidence

datatype projection_error =
    ErrInvalidHandlerKey
  | ErrHandlerExists
  | ErrHandlerNotFound
  | ErrInboxNotFound
  | ErrInboxPayloadConflict
  | ErrInboxStateConflict
  | ErrProjectionRecordRequired
  | ErrProjectionAlreadyApplied
  | ErrProjectionVersionGap
  | ErrProjectionReadPointerUnavailable
  | ErrInvalidConsumerConfig
  | ErrRuntimeMappingNotFound
  | ErrRuntimeMappingAmbiguous
  | ErrMappingGenerationInvalid
  | ErrRebuildUnavailable
  | ErrRebuildInvalid
  | ErrRebuildNotFound
  | ErrRebuildExists
  | ErrRebuildRevisionConflict
  | ErrRebuildNotCancellable
  | ErrRebuildReceiptNotFound
  | ErrRebuildIdempotencyConflict
  | ErrRequestIDMissing
  | ErrIdempotencyKeyMissing
  | ErrCatalogUnavailable
  | ErrCatalogInvalid
  | ErrCatalogReceiptNotFound
  | ErrCatalogIdempotencyConflict
  | ErrSourceNotFound
  | ErrSourceExists
  | ErrSourceImmutable
  | ErrSourceRevisionConflict
  | ErrSourceNotPublished
  | ErrMappingNotFound
  | ErrMappingExists
  | ErrMappingImmutable
  | ErrMappingRevisionConflict
  | ErrTargetSchemaNotPublished
  | ErrTargetFieldNotAllowed
  | ErrCanonicalHashMismatch
  | ErrFixtureHashMismatch
  | ErrFixtureInvalid
  | ErrFixtureNotFound
  | ErrEventArchiveInvalid
  | ErrEventArchivePayloadConflict
  | ErrEventArchiveUnavailable
  | ErrBuiltInMappingReserved
  | ErrMappingSourceUnsupported
  | ErrRebuildImmutable
  | ErrRebuildCancellation
  | ErrSummaryRejected
  | ErrSummaryKindUnknown
  | ErrSummaryKindMismatch
  | ErrSummarySourceMismatch
  | ErrSummaryTypeMismatch
  | ErrSummaryVersionMismatch
  | ErrAssociationInvalid
  | ErrAssociationUnavailable
  | ErrAssociationConflict
  | ErrAssociationQueryInvalid
  | ErrOperationsQueryInvalid
  | ErrOperationsUnavailable

datatype envelope_error = ErrInvalid | ErrTooLarge | ErrUnsupportedVersion | ErrInvalidTime

datatype web_error = ErrInvalidSession | ErrInvalidState | ErrCSRF

text \<open>\<open>projection.ErrorClass\<close>, the class a \<open>RetryError\<close> carries.\<close>

datatype ErrorClass = ErrorTransient | ErrorDeterministic

datatype goerr =
    IdentityErr identity_error
  | SchemaErr schema_error
  | RecordsErr records_error
  | CommandsErr commands_error
  | BindingErr binding_error
  | ConnectorErr connector_error
  | ProjectionErr projection_error
  | WebErr web_error
  | EnvelopeErr envelope_error
  | QueryBudgetExceeded
  | Anon string
  | Wrap string goerr
  | RetryError ErrorClass string goerr
  | External string

text \<open>\<open>errors.Is\<close>: the error itself or any error it wraps.\<close>

fun errors_is :: "goerr \<Rightarrow> goerr \<Rightarrow> bool" where
  "errors_is e target = (e = target \<or> (case e of Wrap _ e' \<Rightarrow> errors_is e' target
     | RetryError _ _ e' \<Rightarrow> errors_is e' target | _ \<Rightarrow> False))"

declare errors_is.simps [simp del]

lemma errors_is_refl [simp]: "errors_is e e"
  by (simp add: errors_is.simps)

lemma errors_is_leaf [simp]:
  "errors_is (IdentityErr i) t \<longleftrightarrow> IdentityErr i = t"
  "errors_is (SchemaErr s) t \<longleftrightarrow> SchemaErr s = t"
  "errors_is (RecordsErr r) t \<longleftrightarrow> RecordsErr r = t"
  "errors_is (CommandsErr c) t \<longleftrightarrow> CommandsErr c = t"
  "errors_is (BindingErr b) t \<longleftrightarrow> BindingErr b = t"
  "errors_is (ConnectorErr n) t \<longleftrightarrow> ConnectorErr n = t"
  "errors_is (ProjectionErr p) t \<longleftrightarrow> ProjectionErr p = t"
  "errors_is (WebErr x) t \<longleftrightarrow> WebErr x = t"
  "errors_is (EnvelopeErr v) t \<longleftrightarrow> EnvelopeErr v = t"
  "errors_is QueryBudgetExceeded t \<longleftrightarrow> QueryBudgetExceeded = t"
  "errors_is (Anon m) t \<longleftrightarrow> Anon m = t"
  "errors_is (External m) t \<longleftrightarrow> External m = t"
  by (simp_all add: errors_is.simps)

lemma errors_is_RetryError [simp]:
  "errors_is (RetryError c m e) t \<longleftrightarrow> RetryError c m e = t \<or> errors_is e t"
  by (simp add: errors_is.simps)

lemma errors_is_Wrap [simp]: "errors_is (Wrap m e) t \<longleftrightarrow> Wrap m e = t \<or> errors_is e t"
  by (simp add: errors_is.simps)

end
