(* ===== verification/GoPrelude.thy ===== *)
theory GoPrelude
  imports GoErrors "HOL-Library.Word" "HOL-Library.Char_ord" "HOL-Library.List_Lexorder"
begin

text \<open>
  What the model uses of the Go language and its standard library: the functions of package
  \<open>strings\<close> on byte strings, \<open>int64\<close> arithmetic, instants of time, calls that may fail and
  change state, and the lemmas on them that the components share.

  A Go string is its bytes, so it is an Isabelle \<open>string\<close> (a list of 8-bit characters) and
  \<open>len\<close> is \<open>length\<close>. An \<open>int64\<close> is an \<open>int\<close>, with the wrap-around of \<open>++\<close> written out by
  \<open>incr64\<close>; an \<open>uint64\<close> is a \<open>64 word\<close>. An instant is an \<open>int\<close>, the nanoseconds since
  year 1, so that \<open>time.Time{}\<close>, whose \<open>IsZero\<close> is true, is 0; \<open>UTC()\<close> keeps the instant.
\<close>

named_theorems go_simps \<open>how calls and checks run\<close>
named_theorems trim_simps \<open>facts about trimming\<close>

section \<open>Package strings\<close>

fun strip_prefix :: "'a list \<Rightarrow> 'a list \<Rightarrow> 'a list option" where
  "strip_prefix [] s = Some s"
| "strip_prefix (p # ps) [] = None"
| "strip_prefix (p # ps) (c # cs) = (if p = c then strip_prefix ps cs else None)"

lemma strip_prefix_Some: "strip_prefix p s = Some r \<longleftrightarrow> s = p @ r"
  by (induction p s rule: strip_prefix.induct) auto

lemma strip_prefix_None: "strip_prefix p s = None \<longleftrightarrow> (\<nexists>r. s = p @ r)"
  by (metis not_None_eq strip_prefix_Some)

definition HasPrefix :: "string \<Rightarrow> string \<Rightarrow> bool" where
  "HasPrefix s p = (strip_prefix p s \<noteq> None)"

definition HasSuffix :: "string \<Rightarrow> string \<Rightarrow> bool" where
  "HasSuffix s p = (strip_prefix (rev p) (rev s) \<noteq> None)"

definition TrimPrefix :: "string \<Rightarrow> string \<Rightarrow> string" where
  "TrimPrefix s p = (case strip_prefix p s of None \<Rightarrow> s | Some r \<Rightarrow> r)"

definition TrimSuffix :: "string \<Rightarrow> string \<Rightarrow> string" where
  "TrimSuffix s p = (case strip_prefix (rev p) (rev s) of None \<Rightarrow> s | Some r \<Rightarrow> rev r)"

lemma HasPrefix_iff: "HasPrefix s p \<longleftrightarrow> (\<exists>r. s = p @ r)"
  by (auto simp: HasPrefix_def strip_prefix_Some)

lemma TrimPrefix_append [simp]: "TrimPrefix (p @ r) p = r"
proof -
  have "strip_prefix p (p @ r) = Some r" by (simp add: strip_prefix_Some)
  then show ?thesis by (simp add: TrimPrefix_def)
qed

definition ContainsAny :: "string \<Rightarrow> char list \<Rightarrow> bool" where
  "ContainsAny s cs = list_ex (\<lambda>c. c \<in> set cs) s"

lemma ContainsAny_iff: "ContainsAny s cs \<longleftrightarrow> set s \<inter> set cs \<noteq> {}"
  by (auto simp: ContainsAny_def list_ex_iff)

text \<open>\<open>strings.Split(s, sep)\<close> for a separator of one byte: never an empty list.\<close>

fun SplitOn :: "char \<Rightarrow> string \<Rightarrow> string list" where
  "SplitOn sep [] = [[]]"
| "SplitOn sep (c # cs) =
     (if c = sep then [] # SplitOn sep cs
      else (case SplitOn sep cs of [] \<Rightarrow> [[c]] | p # ps \<Rightarrow> (c # p) # ps))"

fun JoinWith :: "string \<Rightarrow> string list \<Rightarrow> string" where
  "JoinWith sep [] = []"
| "JoinWith sep [p] = p"
| "JoinWith sep (p # q # ps) = p @ sep @ JoinWith sep (q # ps)"

lemma SplitOn_nonempty [simp]: "SplitOn sep s \<noteq> []"
  by (induction s) (auto split: list.splits)

lemma JoinWith_Cons: "ps \<noteq> [] \<Longrightarrow> JoinWith sep (p # ps) = p @ sep @ JoinWith sep ps"
  by (cases ps) auto

lemma JoinWith_Cons_head: "JoinWith sep ((c # p) # ps) = c # JoinWith sep (p # ps)"
  by (cases ps) auto

lemma JoinWith_SplitOn [simp]: "JoinWith [sep] (SplitOn sep s) = s"
proof (induction s)
  case Nil
  then show ?case by simp
next
  case (Cons c s)
  then show ?case
    by (cases "SplitOn sep s")
       (auto simp: JoinWith_Cons JoinWith_Cons_head simp del: SplitOn_nonempty dest: SplitOn_nonempty [THEN notE])
qed

lemma SplitOn_no_sep: "p \<in> set (SplitOn sep s) \<Longrightarrow> sep \<notin> set p"
  by (induction s arbitrary: p) (auto split: if_splits list.splits)

lemma SplitOn_append:
  "sep \<notin> set p \<Longrightarrow> SplitOn sep (p @ sep # s) = p # SplitOn sep s"
  by (induction p) auto

lemma SplitOn_single: "sep \<notin> set p \<Longrightarrow> SplitOn sep p = [p]"
  by (induction p) auto

text \<open>
  \<open>strings.TrimSpace\<close> removes from both ends the code points of \<open>unicode.IsSpace\<close>; these
  are their UTF-8 encodings. Decoding the last code point of a string, as the trim at the
  right does, finds one of them exactly when the string ends with its encoding.
\<close>

definition space_runes :: "string list" where
  "space_runes =
     [[CHR '' ''], [CHR 0x09], [CHR 0x0A], [CHR 0x0B], [CHR 0x0C], [CHR 0x0D],
      [CHR 0xC2, CHR 0x85], [CHR 0xC2, CHR 0xA0], [CHR 0xE1, CHR 0x9A, CHR 0x80],
      [CHR 0xE2, CHR 0x80, CHR 0x80], [CHR 0xE2, CHR 0x80, CHR 0x81], [CHR 0xE2, CHR 0x80, CHR 0x82],
      [CHR 0xE2, CHR 0x80, CHR 0x83], [CHR 0xE2, CHR 0x80, CHR 0x84], [CHR 0xE2, CHR 0x80, CHR 0x85],
      [CHR 0xE2, CHR 0x80, CHR 0x86], [CHR 0xE2, CHR 0x80, CHR 0x87], [CHR 0xE2, CHR 0x80, CHR 0x88],
      [CHR 0xE2, CHR 0x80, CHR 0x89], [CHR 0xE2, CHR 0x80, CHR 0x8A], [CHR 0xE2, CHR 0x80, CHR 0xA8],
      [CHR 0xE2, CHR 0x80, CHR 0xA9], [CHR 0xE2, CHR 0x80, CHR 0xAF], [CHR 0xE2, CHR 0x81, CHR 0x9F],
      [CHR 0xE3, CHR 0x80, CHR 0x80]]"

fun strip_any :: "string list \<Rightarrow> string \<Rightarrow> string option" where
  "strip_any [] s = None"
| "strip_any (w # ws) s =
     (case strip_prefix w s of Some r \<Rightarrow> Some r | None \<Rightarrow> strip_any ws s)"

lemma strip_any_Some: "strip_any ws s = Some r \<Longrightarrow> \<exists>w \<in> set ws. s = w @ r"
  by (induction ws) (auto simp: strip_prefix_Some split: option.splits)

lemma strip_any_None: "strip_any ws s = None \<longleftrightarrow> (\<forall>w \<in> set ws. \<nexists>r. s = w @ r)"
  by (induction ws) (auto simp: strip_prefix_None strip_prefix_Some split: option.splits)

function trim_front :: "string list \<Rightarrow> string \<Rightarrow> string" where
  "trim_front ws s =
     (case strip_any ws s of
        None \<Rightarrow> s
      | Some r \<Rightarrow> if length r < length s then trim_front ws r else s)"
  by pat_completeness auto
termination
  by (relation "measure (\<lambda>(ws, s). length s)") auto

declare trim_front.simps [simp del]

definition trim_back :: "string list \<Rightarrow> string \<Rightarrow> string" where
  "trim_back ws s = rev (trim_front (map rev ws) (rev s))"

definition TrimSpace :: "string \<Rightarrow> string" where
  "TrimSpace s = trim_back space_runes (trim_front space_runes s)"


lemma trim_front_suffix: "\<exists>p. s = p @ trim_front ws s"
proof (induction ws s rule: trim_front.induct)
  case (1 ws s)
  show ?case
  proof (cases "strip_any ws s")
    case None
    then show ?thesis by (simp add: trim_front.simps [of ws s])
  next
    case (Some r)
    show ?thesis
    proof (cases "length r < length s")
      case True
      with 1 Some obtain p where "r = p @ trim_front ws r" by blast
      moreover from Some obtain w where "s = w @ r" using strip_any_Some by blast
      ultimately have "s = (w @ p) @ trim_front ws r" by simp
      moreover from True Some have "trim_front ws s = trim_front ws r"
        by (simp add: trim_front.simps [of ws s])
      ultimately show ?thesis by metis
    next
      case False
      with Some show ?thesis by (simp add: trim_front.simps [of ws s])
    qed
  qed
qed

lemma trim_front_done: "[] \<notin> set ws \<Longrightarrow> strip_any ws (trim_front ws s) = None"
proof (induction ws s rule: trim_front.induct)
  case (1 ws s)
  show ?case
  proof (cases "strip_any ws s")
    case None
    then show ?thesis by (simp add: trim_front.simps [of ws s])
  next
    case (Some r)
    then obtain w where "w \<in> set ws" "s = w @ r" using strip_any_Some by blast
    with "1.prems" have "length r < length s" by (cases w) auto
    with 1 Some show ?thesis by (simp add: trim_front.simps [of ws s])
  qed
qed

lemma trim_front_id: "strip_any ws s = None \<Longrightarrow> trim_front ws s = s"
  by (simp add: trim_front.simps [of ws s])

lemma strip_any_prefix: "strip_any ws (s @ t) = None \<Longrightarrow> strip_any ws s = None"
  by (auto simp: strip_any_None)

lemma trim_back_prefix: "\<exists>p. s = trim_back ws s @ p"
proof -
  obtain p where "rev s = p @ trim_front (map rev ws) (rev s)" using trim_front_suffix by blast
  then have "s = trim_back ws s @ rev p"
    unfolding trim_back_def by (metis rev_append rev_rev_ident)
  then show ?thesis ..
qed

lemma space_runes_nonempty: "[] \<notin> set space_runes" "[] \<notin> set (map rev space_runes)"
  by (simp_all add: space_runes_def)

text \<open>A string is trimmed when it neither starts nor ends with a white-space code point.\<close>

definition trimmed :: "string \<Rightarrow> bool" where
  "trimmed s \<longleftrightarrow> strip_any space_runes s = None \<and> strip_any (map rev space_runes) (rev s) = None"

lemma trimmed_TrimSpace [simp]: "trimmed (TrimSpace s)"
proof -
  let ?t = "trim_front space_runes s"
  obtain p where p: "?t = trim_back space_runes ?t @ p" using trim_back_prefix by blast
  have "strip_any space_runes ?t = None"
    by (rule trim_front_done) (rule space_runes_nonempty)
  with p have "strip_any space_runes (trim_back space_runes ?t) = None"
    by (metis strip_any_prefix)
  moreover have "strip_any (map rev space_runes) (rev (trim_back space_runes ?t)) = None"
    unfolding trim_back_def rev_rev_ident by (rule trim_front_done) (rule space_runes_nonempty)
  ultimately show ?thesis by (simp add: trimmed_def TrimSpace_def)
qed

lemma TrimSpace_trimmed: "trimmed s \<Longrightarrow> TrimSpace s = s"
  by (simp add: trimmed_def TrimSpace_def trim_back_def trim_front_id)

lemma TrimSpace_idem [simp]: "TrimSpace (TrimSpace s) = TrimSpace s"
  by (rule TrimSpace_trimmed) simp

lemma trimmed_iff: "trimmed s \<longleftrightarrow> TrimSpace s = s"
  by (metis TrimSpace_trimmed trimmed_TrimSpace)

lemma TrimSpace_middle: "\<exists>p q. s = p @ TrimSpace s @ q"
proof -
  obtain p where "s = p @ trim_front space_runes s" using trim_front_suffix by blast
  moreover obtain q where "trim_front space_runes s = TrimSpace s @ q"
    unfolding TrimSpace_def using trim_back_prefix by blast
  ultimately show ?thesis by metis
qed

lemma length_TrimSpace: "length (TrimSpace s) \<le> length s"
  using TrimSpace_middle [of s] by (metis le_add1 le_add2 length_append order_trans)

lemma set_TrimSpace: "set (TrimSpace s) \<subseteq> set s"
  using TrimSpace_middle [of s] by (metis Un_iff set_append subsetI)

lemma TrimSpace_Nil [simp]: "TrimSpace [] = []"
  by (simp add: TrimSpace_def trim_back_def trim_front.simps space_runes_def)

text \<open>No white-space code point starts or ends with one of these characters.\<close>

definition edge_char :: "char \<Rightarrow> bool" where
  "edge_char c = (c \<notin> set (map hd space_runes @ map last space_runes))"

lemma trimmed_edge: "edge_char (hd s) \<Longrightarrow> edge_char (last s) \<Longrightarrow> trimmed s"
proof (cases "s = []")
  case True
  then show ?thesis by (simp add: trimmed_def space_runes_def)
next
  case False
  assume e: "edge_char (hd s)" "edge_char (last s)"
  have "strip_any space_runes s = None"
  proof (rule ccontr)
    assume "strip_any space_runes s \<noteq> None"
    then obtain w r where "w \<in> set space_runes" "s = w @ r" using strip_any_Some by blast
    with space_runes_nonempty(1) e(1) show False
      by (metis edge_char_def hd_append image_eqI list.set_map set_append UnI1)
  qed
  moreover have "strip_any (map rev space_runes) (rev s) = None"
  proof (rule ccontr)
    assume "strip_any (map rev space_runes) (rev s) \<noteq> None"
    then obtain w r where w: "w \<in> set space_runes" and "rev s = rev w @ r"
      using strip_any_Some by fastforce
    then have "s = rev r @ w" by (metis rev_append rev_rev_ident)
    with w space_runes_nonempty(1) e(2) show False
      by (metis edge_char_def last_appendR image_eqI list.set_map set_append UnI2)
  qed
  ultimately show ?thesis by (simp add: trimmed_def)
qed

lemma edge_char_code [simp]:
  "edge_char c \<longleftrightarrow> c \<notin> {CHR '' '', CHR 0x09, CHR 0x0A, CHR 0x0B, CHR 0x0C, CHR 0x0D,
     CHR 0xC2, CHR 0xE1, CHR 0xE2, CHR 0xE3, CHR 0x80, CHR 0x81, CHR 0x82, CHR 0x83, CHR 0x84,
     CHR 0x85, CHR 0x86, CHR 0x87, CHR 0x88, CHR 0x89, CHR 0x8A, CHR 0x9F, CHR 0xA0, CHR 0xA8,
     CHR 0xA9, CHR 0xAF}"
  by (auto simp: edge_char_def space_runes_def)

lemma TrimSpace_edge: "edge_char (hd s) \<Longrightarrow> edge_char (last s) \<Longrightarrow> TrimSpace s = s"
  by (rule TrimSpace_trimmed) (rule trimmed_edge)

text \<open>The test for a blank string that the validators repeat.\<close>

definition blank :: "string \<Rightarrow> bool" where
  "blank s = (TrimSpace s = [])"

lemma blank_Nil [simp]: "blank []"
  by (simp add: blank_def)

lemma blank_TrimSpace [simp]: "blank (TrimSpace s) \<longleftrightarrow> blank s"
  by (simp add: blank_def)

lemma not_blank_edge: "s \<noteq> [] \<Longrightarrow> edge_char (hd s) \<Longrightarrow> edge_char (last s) \<Longrightarrow> \<not> blank s"
  by (simp add: blank_def TrimSpace_edge)

declare TrimSpace_edge [trim_simps] not_blank_edge [trim_simps]

text \<open>
  \<open>strings.ToLower\<close>: ASCII letters, and the two code points outside ASCII whose lower case
  is an ASCII letter (U+0130 and U+212A). Every other code point outside ASCII keeps its
  bytes here; Go maps some of them to other code points outside ASCII.
\<close>

definition lower_char :: "char \<Rightarrow> char" where
  "lower_char c = (if CHR ''A'' \<le> c \<and> c \<le> CHR ''Z'' then char_of (of_char c + 32 :: nat) else c)"

fun ToLower :: "string \<Rightarrow> string" where
  "ToLower [] = []"
| "ToLower (c # cs) =
     (case strip_prefix [CHR 0xC4, CHR 0xB0] (c # cs) of
        Some _ \<Rightarrow> CHR ''i'' # ToLower (drop 1 cs)
      | None \<Rightarrow> (case strip_prefix [CHR 0xE2, CHR 0x84, CHR 0xAA] (c # cs) of
           Some _ \<Rightarrow> CHR ''k'' # ToLower (drop 2 cs)
         | None \<Rightarrow> lower_char c # ToLower cs))"

text \<open>\<open>strings.Fields\<close>: the words between runs of white space; \<open>cur\<close> is the word read so far.\<close>

function fields_from :: "string \<Rightarrow> string \<Rightarrow> string list" where
  "fields_from cur [] = (if cur = [] then [] else [rev cur])"
| "fields_from cur (c # cs) =
     (case strip_any space_runes (c # cs) of
        None \<Rightarrow> fields_from (c # cur) cs
      | Some r \<Rightarrow>
          (if length r \<le> length cs
           then (if cur = [] then [] else [rev cur]) @ fields_from [] r else []))"
  by pat_completeness auto
termination
  by (relation "measure (\<lambda>(cur, s). length s)") auto

definition Fields :: "string \<Rightarrow> string list" where
  "Fields s = fields_from [] s"

text \<open>
  \<open>strings.EqualFold(s, t)\<close> for a \<open>t\<close> of ASCII letters other than \<open>k\<close> and \<open>s\<close>, the two that
  code points outside ASCII fold to.
\<close>

definition EqualFold :: "string \<Rightarrow> string \<Rightarrow> bool" where
  "EqualFold s t = (map lower_char s = map lower_char t)"

section \<open>Integers and time\<close>

text \<open>The decimal form that \<open>strconv\<close> and the verb \<open>%d\<close> write.\<close>

definition digit_char :: "nat \<Rightarrow> char" where
  "digit_char n = ''0123456789'' ! n"

fun nat_dec :: "nat \<Rightarrow> string" where
  "nat_dec n = (if n < 10 then [digit_char n] else nat_dec (n div 10) @ [digit_char (n mod 10)])"

declare nat_dec.simps [simp del]

definition itoa :: "int \<Rightarrow> string" where
  "itoa i = (if i < 0 then CHR ''-'' # nat_dec (nat (- i)) else nat_dec (nat i))"

lemma digit_char_inj: "m < 10 \<Longrightarrow> n < 10 \<Longrightarrow> digit_char m = digit_char n \<longleftrightarrow> m = n"
  unfolding digit_char_def by (rule nth_eq_iff_index_eq) simp_all

lemma digit_char_in: "n < 10 \<Longrightarrow> digit_char n \<in> set ''0123456789''"
  unfolding digit_char_def by (rule nth_mem) simp

lemma digit_char_not_minus: "n < 10 \<Longrightarrow> digit_char n \<noteq> CHR ''-''"
  using digit_char_in [of n] by auto

lemma nat_dec_nonempty [simp]: "nat_dec n \<noteq> []"
  by (simp add: nat_dec.simps [of n])

lemma set_nat_dec: "c \<in> set (nat_dec n) \<Longrightarrow> \<exists>d < 10. c = digit_char d"
proof (induction n rule: nat_dec.induct)
  case (1 n)
  show ?case
  proof (cases "n < 10")
    case True
    with 1 have "c = digit_char n" by (simp add: nat_dec.simps [of n])
    with True show ?thesis by blast
  next
    case False
    with "1.prems" have "c \<in> set (nat_dec (n div 10)) \<or> c = digit_char (n mod 10)"
      by (auto simp: nat_dec.simps [of n])
    moreover have "n mod 10 < 10" by simp
    ultimately show ?thesis using "1.IH" False by blast
  qed
qed

lemma nat_dec_inj [simp]: "nat_dec m = nat_dec n \<longleftrightarrow> m = n"
proof (induction m arbitrary: n rule: nat_dec.induct)
  case (1 m)
  show ?case
  proof (cases "m < 10 \<or> n < 10")
    case True
    then show ?thesis
      using nat_dec_nonempty [of "m div 10"] nat_dec_nonempty [of "n div 10"]
      by (auto simp: nat_dec.simps [of m] nat_dec.simps [of n] digit_char_inj append_eq_Cons_conv
          Cons_eq_append_conv simp del: nat_dec_nonempty)
  next
    case False
    then have "nat_dec m = nat_dec n \<longleftrightarrow>
        nat_dec (m div 10) = nat_dec (n div 10) \<and> digit_char (m mod 10) = digit_char (n mod 10)"
      by (simp add: nat_dec.simps [of m] nat_dec.simps [of n])
    also have "\<dots> \<longleftrightarrow> m div 10 = n div 10 \<and> m mod 10 = n mod 10"
      using 1 False by (simp add: digit_char_inj)
    also have "\<dots> \<longleftrightarrow> m = n"
      by (metis mult_div_mod_eq)
    finally show ?thesis .
  qed
qed

lemma hd_nat_dec_not_minus: "nat_dec n \<noteq> CHR ''-'' # s"
  using set_nat_dec [of "CHR ''-''" n] digit_char_not_minus by (metis list.set_intros(1))

lemma itoa_inj [simp]: "itoa i = itoa j \<longleftrightarrow> i = j"
  by (auto simp: itoa_def hd_nat_dec_not_minus hd_nat_dec_not_minus [symmetric] split: if_splits)

definition incr64 :: "int \<Rightarrow> int" where
  "incr64 x = (if x = 2 ^ 63 - 1 then - (2 ^ 63) else x + 1)"

lemma incr64_small: "x < 2 ^ 63 - 1 \<Longrightarrow> incr64 x = x + 1"
  by (simp add: incr64_def)

lemma incr64_neq: "incr64 x \<noteq> x"
  by (simp add: incr64_def)

type_synonym time = int

definition IsZero :: "time \<Rightarrow> bool" where
  "IsZero t = (t = 0)"

section \<open>Calls that may fail\<close>

text \<open>
  A call reads and changes a state \<open>'w\<close> (what the collaborators of a component keep) and
  returns an error or a value; the state is the one the call left, also when it failed.
  A Go function that only returns \<open>error\<close> and changes nothing is a \<open>goerr option\<close>, with
  \<open>None\<close> for \<open>nil\<close>.
\<close>

type_synonym ('w, 'a) go = "'w \<Rightarrow> (goerr + 'a) \<times> 'w"

definition ret :: "'a \<Rightarrow> ('w, 'a) go" where
  "ret a = (\<lambda>w. (Inr a, w))"

definition fail :: "goerr \<Rightarrow> ('w, 'a) go" where
  "fail e = (\<lambda>w. (Inl e, w))"

definition bindG :: "('w, 'a) go \<Rightarrow> ('a \<Rightarrow> ('w, 'b) go) \<Rightarrow> ('w, 'b) go" where
  "bindG m f = (\<lambda>w. case m w of (Inl e, w') \<Rightarrow> (Inl e, w') | (Inr a, w') \<Rightarrow> f a w')"

text \<open>\<open>x, err := m()\<close> where the code handles \<open>err\<close> itself: \<open>h\<close> on an error, \<open>f\<close> on a value.\<close>

definition catchG :: "('w, 'a) go \<Rightarrow> (goerr \<Rightarrow> ('w, 'b) go) \<Rightarrow> ('a \<Rightarrow> ('w, 'b) go) \<Rightarrow> ('w, 'b) go" where
  "catchG m h f = (\<lambda>w. case m w of (Inl e, w') \<Rightarrow> h e w' | (Inr a, w') \<Rightarrow> f a w')"

text \<open>\<open>if err := v; err != nil { return err }\<close> for a check that changes nothing.\<close>

definition checkG :: "goerr option \<Rightarrow> ('w, unit) go" where
  "checkG v = (case v of None \<Rightarrow> ret () | Some e \<Rightarrow> fail e)"

definition pureG :: "goerr + 'a \<Rightarrow> ('w, 'a) go" where
  "pureG r = (\<lambda>w. (r, w))"

text \<open>A validator that returns its first error accepts when no check fails.\<close>

lemma if_error_None: "((if c then Some e else r) = None) \<longleftrightarrow> \<not> c \<and> r = None"
  by simp

lemma ret_run [go_simps]: "ret a w = (Inr a, w)"
  by (simp add: ret_def)

lemma fail_run [go_simps]: "fail e w = (Inl e, w)"
  by (simp add: fail_def)

lemma bindG_run [go_simps]:
  "bindG m f w = (case m w of (Inl e, w') \<Rightarrow> (Inl e, w') | (Inr a, w') \<Rightarrow> f a w')"
  by (simp add: bindG_def)

lemma catchG_run [go_simps]:
  "catchG m h f w = (case m w of (Inl e, w') \<Rightarrow> h e w' | (Inr a, w') \<Rightarrow> f a w')"
  by (simp add: catchG_def)

lemma checkG_run [go_simps]:
  "checkG v w = (case v of None \<Rightarrow> (Inr (), w) | Some e \<Rightarrow> (Inl e, w))"
  by (simp add: checkG_def ret_def fail_def split: option.split)

lemma pureG_run [go_simps]: "pureG r w = (r, w)"
  by (simp add: pureG_def)

lemma bindG_InrD:
  "bindG m f w = (Inr b, w'') \<Longrightarrow> \<exists>a w'. m w = (Inr a, w') \<and> f a w' = (Inr b, w'')"
  by (auto simp: bindG_def split: prod.splits sum.splits)

lemma bindG_Inr:
  "bindG m f w = (Inr b, w'') \<longleftrightarrow> (\<exists>a w'. m w = (Inr a, w') \<and> f a w' = (Inr b, w''))"
  by (auto simp: bindG_def split: prod.splits sum.splits)

lemma catchG_Inr:
  "catchG m h f w = (Inr b, w'') \<longleftrightarrow>
     (\<exists>e w'. m w = (Inl e, w') \<and> h e w' = (Inr b, w'')) \<or> (\<exists>a w'. m w = (Inr a, w') \<and> f a w' = (Inr b, w''))"
  by (auto simp: catchG_def split: prod.splits sum.splits)

lemma if_fail_Inr: "(if c then fail e else m) w = (Inr b, w') \<longleftrightarrow> \<not> c \<and> m w = (Inr b, w')"
  by (simp add: fail_def)

lemma checkG_Inr: "checkG v w = (Inr u, w') \<longleftrightarrow> v = None \<and> w' = w"
  by (auto simp: checkG_def ret_def fail_def split: option.splits)

lemma pureG_Inr: "pureG r w = (Inr a, w') \<longleftrightarrow> r = Inr a \<and> w' = w"
  by (auto simp: pureG_def)

lemma ret_Inr: "ret a w = (Inr b, w') \<longleftrightarrow> b = a \<and> w' = w"
  by (auto simp: ret_def)

lemma fail_Inr: "fail e w \<noteq> (Inr b, w')"
  by (simp add: fail_def)

lemmas go_success = bindG_Inr catchG_Inr if_fail_Inr checkG_Inr pureG_Inr ret_Inr fail_Inr

text \<open>\<open>fmt.Errorf("label: %w", err)\<close> around the error of a call.\<close>

definition wrapG :: "string \<Rightarrow> ('w, 'a) go \<Rightarrow> ('w, 'a) go" where
  "wrapG label m = catchG m (\<lambda>err. fail (Wrap label err)) ret"

lemma wrapG_Inr: "wrapG l m w = (Inr a, w') \<longleftrightarrow> m w = (Inr a, w')"
  by (auto simp: wrapG_def go_success)

end
