(* ===== verification/Identity.thy ===== *)
theory Identity
  imports GoPrelude
begin

text \<open>
  Package \<open>identity\<close>: principals and roles (\<open>principal.go\<close>, \<open>authorization.go\<close>), the OIDC
  verifier and the bearer middleware (\<open>verifier.go\<close>, \<open>bearer.go\<close>) and the membership reader
  on MongoDB (\<open>mongo_membership.go\<close>). The OIDC library's \<open>Verify\<close> and MongoDB's \<open>FindOne\<close>
  are arguments. A string enumeration is a datatype with one more constructor for the
  strings that are none of its constants.
\<close>

section \<open>Principals\<close>

datatype PrincipalKind = PrincipalUser | PrincipalService | OtherPrincipalKind string

record IdentityKey =
  ik_Issuer :: string
  ik_Subject :: string

record Principal =
  p_Kind :: PrincipalKind
  p_Issuer :: string
  p_Subject :: string
  p_Audience :: "string list"
  p_Email :: string
  p_EmailVerified :: bool
  p_Name :: string
  p_PreferredUsername :: string
  p_Groups :: "string list"
  p_Scopes :: "string list"

definition identityKey :: "Principal \<Rightarrow> IdentityKey" where
  "identityKey p = \<lparr>ik_Issuer = p_Issuer p, ik_Subject = p_Subject p\<rparr>"

section \<open>Roles and actions\<close>

datatype Role = RoleOwner | RoleEditor | RoleViewer | RoleOperator | OtherRole string

datatype MembershipStatus = MembershipActive | MembershipRevoked | OtherMembershipStatus string

datatype Action =
    ActionWorkspaceRead
  | ActionWorkspaceManage
  | ActionMembershipManage
  | ActionSchemaRead
  | ActionSchemaManage
  | ActionRecordRead
  | ActionRecordWrite
  | ActionViewRead
  | ActionViewWrite
  | ActionOperationsRead
  | ActionProjectionManage
  | ActionTagRead
  | ActionTagAssign
  | ActionTagDictionaryWrite
  | ActionRelationRead
  | ActionRelationWrite
  | ActionExportRead
  | ActionAuditRead
  | ActionConnectorOnboard
  | ActionConnectorReview
  | ActionConnectorApprove
  | ActionProjectionWrite
  | OtherAction string

definition knownAction :: "Action \<Rightarrow> bool" where
  "knownAction action =
     (action \<in> {ActionWorkspaceRead, ActionWorkspaceManage, ActionMembershipManage, ActionSchemaRead,
        ActionSchemaManage, ActionRecordRead, ActionRecordWrite, ActionViewRead, ActionViewWrite,
        ActionOperationsRead, ActionProjectionManage, ActionProjectionWrite, ActionTagRead,
        ActionTagAssign, ActionTagDictionaryWrite, ActionRelationRead, ActionRelationWrite,
        ActionExportRead, ActionAuditRead, ActionConnectorOnboard, ActionConnectorReview,
        ActionConnectorApprove})"

fun roleAllows :: "Role \<Rightarrow> Action \<Rightarrow> bool" where
  "roleAllows RoleOwner action = (action \<noteq> ActionProjectionWrite \<and> knownAction action)"
| "roleAllows RoleOperator action =
     (action \<in> {ActionWorkspaceRead, ActionSchemaRead, ActionRecordRead, ActionViewRead,
        ActionOperationsRead, ActionProjectionManage, ActionTagRead, ActionRelationRead,
        ActionExportRead, ActionAuditRead, ActionConnectorReview})"
| "roleAllows RoleEditor action =
     (action \<in> {ActionWorkspaceRead, ActionSchemaRead, ActionRecordRead, ActionRecordWrite,
        ActionViewRead, ActionViewWrite, ActionTagRead, ActionTagAssign, ActionRelationRead,
        ActionRelationWrite, ActionExportRead})"
| "roleAllows RoleViewer action =
     (action \<in> {ActionWorkspaceRead, ActionSchemaRead, ActionRecordRead, ActionViewRead,
        ActionTagRead, ActionRelationRead, ActionExportRead})"
| "roleAllows (OtherRole _) action = False"

record WorkspaceMembership =
  wm_TenantID :: string
  wm_WorkspaceID :: string
  wm_Identity :: IdentityKey
  wm_Role :: Role
  wm_Status :: MembershipStatus

section \<open>The authorizer\<close>

text \<open>
  \<open>Authorizer\<close> holds a \<open>MembershipReader\<close>, an interface of one method; \<open>None\<close> is a nil
  interface, or a nil authorizer. Reading may change the state \<open>'w\<close> the reader stands for.
\<close>

type_synonym 'w MembershipReader = "IdentityKey \<Rightarrow> string \<Rightarrow> string \<Rightarrow> ('w, WorkspaceMembership) go"

definition Authorize ::
  "'w MembershipReader option \<Rightarrow> Principal \<Rightarrow> string \<Rightarrow> string \<Rightarrow> Action \<Rightarrow> ('w, WorkspaceMembership) go" where
  "Authorize a prin tenantID workspaceID action =
     (if p_Kind prin \<noteq> PrincipalUser \<or> p_Issuer prin = [] \<or> p_Subject prin = []
      then fail (IdentityErr ErrUnauthenticated)
      else case a of
        None \<Rightarrow> fail (IdentityErr ErrForbidden)
      | Some findMembership \<Rightarrow>
          if tenantID = [] \<or> workspaceID = [] \<or> \<not> knownAction action
          then fail (IdentityErr ErrForbidden)
          else catchG (findMembership (identityKey prin) tenantID workspaceID)
            (\<lambda>err. fail (IdentityErr ErrForbidden))
            (\<lambda>membership.
                if wm_Status membership \<noteq> MembershipActive
                   \<or> wm_Identity membership \<noteq> identityKey prin
                   \<or> wm_TenantID membership \<noteq> tenantID
                   \<or> wm_WorkspaceID membership \<noteq> workspaceID
                then fail (IdentityErr ErrForbidden)
                else if \<not> roleAllows (wm_Role membership) action
                then fail (IdentityErr ErrForbidden)
                else ret membership))"

section \<open>The membership reader on MongoDB\<close>

text \<open>
  \<open>FindOne\<close> on the collection \<open>workspace_memberships\<close>, decoded: no document, a driver or
  decoding error, or a membership. The filter's four fields are its arguments.
\<close>

datatype 'a find_result = NoDocuments | FindError string | Found 'a

type_synonym 'w membership_find =
  "string \<Rightarrow> string \<Rightarrow> string \<Rightarrow> string \<Rightarrow> 'w \<Rightarrow> WorkspaceMembership find_result \<times> 'w"

definition mongo_FindMembership :: "'w membership_find option \<Rightarrow> 'w MembershipReader" where
  "mongo_FindMembership collection key tenant workspace =
     (case collection of
        None \<Rightarrow> fail (Anon ''membership repository is not configured'')
      | Some findOne \<Rightarrow>
          let tenantID = TrimSpace tenant; workspaceID = TrimSpace workspace in
          if tenantID = [] \<or> workspaceID = [] \<or> blank (ik_Issuer key) \<or> blank (ik_Subject key)
          then fail (IdentityErr ErrMembershipGone)
          else (\<lambda>w. case findOne tenantID workspaceID (ik_Issuer key) (ik_Subject key) w of
                  (NoDocuments, w') \<Rightarrow> (Inl (IdentityErr ErrMembershipGone), w')
                | (FindError m, w') \<Rightarrow> (Inl (Wrap ''find workspace membership'' (External m)), w')
                | (Found membership, w') \<Rightarrow> (Inr membership, w')))"

section \<open>The OIDC verifier and the bearer middleware\<close>

text \<open>
  \<open>verify\<close> calls the OIDC library, which checks the signature, issuer, audience and expiry of
  a token and gives the token's issuer, subject and audience and, when they decode, the
  claims the code asks for.
\<close>

record oidc_claims =
  oc_Email :: string
  oc_EmailVerified :: bool
  oc_Name :: string
  oc_PreferredUsername :: string
  oc_Groups :: "string list"
  oc_Nonce :: string
  oc_Scope :: string

record id_token =
  it_Issuer :: string
  it_Subject :: string
  it_Audience :: "string list"
  it_Claims :: "oidc_claims option"

definition errInvalidToken :: goerr where
  "errInvalidToken = Anon ''invalid identity token''"

definition verifyToken ::
  "(string \<Rightarrow> string + id_token) \<Rightarrow> PrincipalKind \<Rightarrow> string \<Rightarrow> string \<Rightarrow> goerr + Principal" where
  "verifyToken oidc kind rawToken expectedNonce =
     (if blank rawToken then Inl errInvalidToken
      else case oidc rawToken of
        Inl err \<Rightarrow> Inl (Wrap err errInvalidToken)
      | Inr verified \<Rightarrow>
          if it_Subject verified = [] then Inl (Wrap ''subject is empty'' errInvalidToken)
          else (case it_Claims verified of
            None \<Rightarrow> Inl (Wrap ''decode claims'' errInvalidToken)
          | Some claims \<Rightarrow>
              if expectedNonce \<noteq> [] \<and> oc_Nonce claims \<noteq> expectedNonce
              then Inl (Wrap ''nonce mismatch'' errInvalidToken)
              else Inr \<lparr>p_Kind = kind, p_Issuer = it_Issuer verified, p_Subject = it_Subject verified,
                    p_Audience = it_Audience verified, p_Email = oc_Email claims,
                    p_EmailVerified = oc_EmailVerified claims, p_Name = oc_Name claims,
                    p_PreferredUsername = oc_PreferredUsername claims, p_Groups = oc_Groups claims,
                    p_Scopes = Fields (oc_Scope claims)\<rparr>))"

definition Verify :: "(string \<Rightarrow> string + id_token) \<Rightarrow> PrincipalKind \<Rightarrow> string \<Rightarrow> goerr + Principal" where
  "Verify oidc kind rawToken = verifyToken oidc kind rawToken []"

definition VerifyNonce ::
  "(string \<Rightarrow> string + id_token) \<Rightarrow> PrincipalKind \<Rightarrow> string \<Rightarrow> string \<Rightarrow> goerr + Principal" where
  "VerifyNonce oidc kind rawToken expectedNonce =
     (if blank expectedNonce then Inl (Wrap ''nonce is required'' errInvalidToken)
      else verifyToken oidc kind rawToken expectedNonce)"

text \<open>
  What the middleware does with a request: answer 401, or call the next handler with the
  principal of the request's context, when there is one.
\<close>

datatype bearer_outcome = BearerUnauthorized | BearerNext "Principal option"

definition BearerMiddleware ::
  "(string \<Rightarrow> goerr + Principal) option \<Rightarrow> Principal option \<Rightarrow> string \<Rightarrow> bearer_outcome" where
  "BearerMiddleware verifier session authorization =
     (case session of
        Some p \<Rightarrow> BearerNext (Some p)
      | None \<Rightarrow>
          let raw = TrimSpace authorization in
          if raw = [] then BearerNext None
          else let parts = Fields raw in
            if length parts \<noteq> 2 \<or> \<not> EqualFold (parts ! 0) ''bearer'' then BearerUnauthorized
            else case verifier of
              None \<Rightarrow> BearerUnauthorized
            | Some verify \<Rightarrow>
                (case verify (parts ! 1) of
                   Inl err \<Rightarrow> BearerUnauthorized
                 | Inr prin \<Rightarrow>
                     if (p_Kind prin \<noteq> PrincipalUser \<and> p_Kind prin \<noteq> PrincipalService)
                        \<or> p_Issuer prin = [] \<or> p_Subject prin = []
                     then BearerUnauthorized else BearerNext (Some prin)))"

section \<open>Lemmas\<close>

lemma roleAllows_known: "roleAllows role action \<Longrightarrow> knownAction action"
  by (cases role) (auto simp: knownAction_def)

lemma roleAllows_never_projection [simp]: "\<not> roleAllows role ActionProjectionWrite"
  by (cases role) auto

lemma roleAllows_below_owner: "roleAllows role action \<Longrightarrow> roleAllows RoleOwner action"
  using roleAllows_known [of role action] by (cases "action = ActionProjectionWrite") auto

lemma roleAllows_viewer: "roleAllows RoleViewer action \<Longrightarrow>
    roleAllows RoleEditor action \<and> roleAllows RoleOperator action"
  by auto

lemma Authorize_Inr:
  "Authorize a prin tenantID workspaceID action w = (Inr m, w') \<longleftrightarrow>
     (\<exists>find. a = Some find \<and> find (identityKey prin) tenantID workspaceID w = (Inr m, w'))
     \<and> p_Kind prin = PrincipalUser \<and> p_Issuer prin \<noteq> [] \<and> p_Subject prin \<noteq> []
     \<and> tenantID \<noteq> [] \<and> workspaceID \<noteq> []
     \<and> wm_Status m = MembershipActive \<and> wm_Identity m = identityKey prin
     \<and> wm_TenantID m = tenantID \<and> wm_WorkspaceID m = workspaceID
     \<and> roleAllows (wm_Role m) action"
  unfolding Authorize_def
  by (auto simp: go_simps split: option.splits prod.splits sum.splits dest: roleAllows_known)

lemma Authorize_errors:
  "Authorize a prin tenantID workspaceID action w = (Inl e, w') \<Longrightarrow>
     e = (if p_Kind prin = PrincipalUser \<and> p_Issuer prin \<noteq> [] \<and> p_Subject prin \<noteq> []
          then IdentityErr ErrForbidden else IdentityErr ErrUnauthenticated)"
  unfolding Authorize_def
  by (auto simp: go_simps split: option.splits prod.splits sum.splits if_splits)

lemma mongo_FindMembership_Inr:
  "mongo_FindMembership c key t ws w = (Inr m, w') \<longleftrightarrow>
     (\<exists>find. c = Some find \<and> find (TrimSpace t) (TrimSpace ws) (ik_Issuer key) (ik_Subject key) w = (Found m, w'))
     \<and> \<not> blank t \<and> \<not> blank ws \<and> \<not> blank (ik_Issuer key) \<and> \<not> blank (ik_Subject key)"
  unfolding mongo_FindMembership_def blank_def Let_def
  by (auto simp: go_simps split: option.splits prod.splits find_result.splits)

lemma verifyToken_Inr:
  "verifyToken oidc kind raw nonce = Inr p \<Longrightarrow>
     \<exists>t claims. oidc raw = Inr t \<and> it_Claims t = Some claims \<and> p_Kind p = kind
       \<and> p_Issuer p = it_Issuer t \<and> p_Subject p = it_Subject t \<and> p_Subject p \<noteq> []
       \<and> (nonce = [] \<or> oc_Nonce claims = nonce)"
  unfolding verifyToken_def
  by (auto split: if_splits sum.splits option.splits)

section \<open>Properties\<close>

text \<open>
  C1: what \<open>Authorize\<close> decides over the membership reader on MongoDB. It returns a membership
  only for a user with an issuer and a subject; the membership is the stored document for
  exactly this identity, tenant and workspace, is active, and its role allows the action,
  which is never \<open>projection.write\<close>. Every refusal is one of two errors that tell nothing of
  the store: \<open>ErrUnauthenticated\<close> exactly for those who are not such a user, else \<open>ErrForbidden\<close>.
\<close>

theorem Authorize_decides:
  "case Authorize (Some (mongo_FindMembership coll)) prin tenantID workspaceID action w of
     (Inr m, w') \<Rightarrow>
       p_Kind prin = PrincipalUser \<and> p_Issuer prin \<noteq> [] \<and> p_Subject prin \<noteq> []
       \<and> (\<exists>find. coll = Some find
            \<and> find (TrimSpace tenantID) (TrimSpace workspaceID) (p_Issuer prin) (p_Subject prin) w = (Found m, w'))
       \<and> wm_Identity m = identityKey prin \<and> wm_TenantID m = tenantID \<and> wm_WorkspaceID m = workspaceID
       \<and> wm_Status m = MembershipActive \<and> roleAllows (wm_Role m) action \<and> action \<noteq> ActionProjectionWrite
   | (Inl e, w') \<Rightarrow>
       e = (if p_Kind prin = PrincipalUser \<and> p_Issuer prin \<noteq> [] \<and> p_Subject prin \<noteq> []
            then IdentityErr ErrForbidden else IdentityErr ErrUnauthenticated)"
proof (cases "Authorize (Some (mongo_FindMembership coll)) prin tenantID workspaceID action w")
  case (Pair r w')
  show ?thesis
  proof (cases r)
    case (Inl e)
    with Pair have "Authorize (Some (mongo_FindMembership coll)) prin tenantID workspaceID action w = (Inl e, w')"
      by simp
    from Authorize_errors [OF this] Pair Inl show ?thesis by simp
  next
    case (Inr m)
    with Pair have a: "Authorize (Some (mongo_FindMembership coll)) prin tenantID workspaceID action w = (Inr m, w')"
      by simp
    then have "roleAllows (wm_Role m) action" by (simp add: Authorize_Inr)
    then have "action \<noteq> ActionProjectionWrite" by auto
    with a Pair Inr show ?thesis
      unfolding Authorize_Inr by (auto simp: mongo_FindMembership_Inr identityKey_def)
  qed
qed



end
