(* ===== verification/Sha256.thy ===== *)
theory Sha256
  imports GoPrelude
begin

text \<open>
  \<open>crypto/sha256\<close> and \<open>encoding/hex\<close>, the two library packages the server identifies content,
  requests and principals with. \<open>sha256\<close> is the function of FIPS 180-4 on 32-bit words, so a
  digest here is the digest the program computes; \<open>hex_encode\<close> writes it as 64 lower-case
  digits. The lemmas give the length and the alphabet of a digest, which is what the format
  checks of the components look at.
\<close>

unbundle bit_operations_syntax

section \<open>SHA-256\<close>

definition rotr :: "nat \<Rightarrow> 32 word \<Rightarrow> 32 word" where
  "rotr n x = (drop_bit n x OR push_bit (32 - n) x)"

definition sha_ch :: "32 word \<Rightarrow> 32 word \<Rightarrow> 32 word \<Rightarrow> 32 word" where
  "sha_ch x y z = ((x AND y) XOR (NOT x AND z))"

definition sha_maj :: "32 word \<Rightarrow> 32 word \<Rightarrow> 32 word \<Rightarrow> 32 word" where
  "sha_maj x y z = ((x AND y) XOR (x AND z) XOR (y AND z))"

definition sha_S0 :: "32 word \<Rightarrow> 32 word" where
  "sha_S0 x = (rotr 2 x XOR rotr 13 x XOR rotr 22 x)"

definition sha_S1 :: "32 word \<Rightarrow> 32 word" where
  "sha_S1 x = (rotr 6 x XOR rotr 11 x XOR rotr 25 x)"

definition sha_s0 :: "32 word \<Rightarrow> 32 word" where
  "sha_s0 x = (rotr 7 x XOR rotr 18 x XOR drop_bit 3 x)"

definition sha_s1 :: "32 word \<Rightarrow> 32 word" where
  "sha_s1 x = (rotr 17 x XOR rotr 19 x XOR drop_bit 10 x)"

text \<open>The constants of FIPS 180-4, in decimal.\<close>

definition sha_K :: "32 word list" where
  "sha_K =
     [1116352408, 1899447441, 3049323471, 3921009573, 961987163, 1508970993, 2453635748, 2870763221,
      3624381080, 310598401, 607225278, 1426881987, 1925078388, 2162078206, 2614888103, 3248222580,
      3835390401, 4022224774, 264347078, 604807628, 770255983, 1249150122, 1555081692, 1996064986,
      2554220882, 2821834349, 2952996808, 3210313671, 3336571891, 3584528711, 113926993, 338241895,
      666307205, 773529912, 1294757372, 1396182291, 1695183700, 1986661051, 2177026350, 2456956037,
      2730485921, 2820302411, 3259730800, 3345764771, 3516065817, 3600352804, 4094571909, 275423344,
      430227734, 506948616, 659060556, 883997877, 958139571, 1322822218, 1537002063, 1747873779,
      1955562222, 2024104815, 2227730452, 2361852424, 2428436474, 2756734187, 3204031479, 3329325298]"

definition sha_init :: "32 word list" where
  "sha_init =
     [1779033703, 3144134277, 1013904242, 2773480762, 1359893119, 2600822924, 528734635, 1541459225]"

text \<open>The eight bytes of a 64-bit length, and the four bytes of a word, most significant first.\<close>

fun be_bytes :: "nat \<Rightarrow> nat \<Rightarrow> char list" where
  "be_bytes 0 n = []"
| "be_bytes (Suc k) n = be_bytes k (n div 256) @ [char_of (n mod 256)]"

fun be_words :: "char list \<Rightarrow> 32 word list" where
  "be_words (a # b # c # d # r) =
     word_of_nat (((of_char a * 256 + of_char b) * 256 + of_char c) * 256 + of_char d) # be_words r"
| "be_words _ = []"

definition sha_pad :: "string \<Rightarrow> char list" where
  "sha_pad s = s @ CHR 0x80 # replicate ((119 - length s mod 64) mod 64) (CHR 0x00) @ be_bytes 8 (8 * length s)"

fun sha_blocks :: "nat \<Rightarrow> 'a list \<Rightarrow> 'a list list" where
  "sha_blocks 0 ws = []"
| "sha_blocks (Suc k) ws = take 16 ws # sha_blocks k (drop 16 ws)"

text \<open>The message schedule, kept in reverse order; \<open>n\<close> words are added.\<close>

fun sha_schedule :: "nat \<Rightarrow> 32 word list \<Rightarrow> 32 word list" where
  "sha_schedule 0 w = w"
| "sha_schedule (Suc n) w =
     sha_schedule n ((sha_s1 (w ! 1) + w ! 6 + sha_s0 (w ! 14) + w ! 15) # w)"

fun sha_rounds :: "(32 word \<times> 32 word) list \<Rightarrow> 32 word list \<Rightarrow> 32 word list" where
  "sha_rounds [] v = v"
| "sha_rounds ((k, w) # r) [a, b, c, d, e, f, g, h] =
     (let t1 = h + sha_S1 e + sha_ch e f g + k + w; t2 = sha_S0 a + sha_maj a b c
      in sha_rounds r [t1 + t2, a, b, c, d + t1, e, f, g])"
| "sha_rounds (x # r) v = v"

definition sha_compress :: "32 word list \<Rightarrow> 32 word list \<Rightarrow> 32 word list" where
  "sha_compress hs block =
     map2 (+) hs (sha_rounds (zip sha_K (rev (sha_schedule 48 (rev block)))) hs)"

definition sha256 :: "string \<Rightarrow> char list" where
  "sha256 s =
     (let p = sha_pad s
      in concat (map (\<lambda>w. be_bytes 4 (unat w))
                   (fold (\<lambda>b hs. sha_compress hs b) (sha_blocks (length p div 64) (be_words p)) sha_init)))"

section \<open>Hexadecimal\<close>

definition hex_table :: string where
  "hex_table = ''0123456789abcdef''"

definition hex_digit :: "nat \<Rightarrow> char" where
  "hex_digit n = hex_table ! n"

definition hex_encode :: "char list \<Rightarrow> string" where
  "hex_encode bs = concat (map (\<lambda>c. [hex_digit (of_char c div 16), hex_digit (of_char c mod 16)]) bs)"

definition is_hex :: "char \<Rightarrow> bool" where
  "is_hex c = ((CHR ''0'' \<le> c \<and> c \<le> CHR ''9'') \<or> (CHR ''a'' \<le> c \<and> c \<le> CHR ''f'') \<or> (CHR ''A'' \<le> c \<and> c \<le> CHR ''F''))"

text \<open>Whether \<open>hex.DecodeString\<close> returns no error.\<close>

definition hex_decodes :: "string \<Rightarrow> bool" where
  "hex_decodes s = (even (length s) \<and> list_all is_hex s)"

lemma length_be_bytes [simp]: "length (be_bytes k n) = k"
  by (induction k n rule: be_bytes.induct) auto

lemma length_sha_rounds: "length v = 8 \<Longrightarrow> length (sha_rounds ks v) = 8"
  by (induction ks v rule: sha_rounds.induct) (auto simp: Let_def)

lemma length_sha_compress: "length hs = 8 \<Longrightarrow> length (sha_compress hs b) = 8"
  by (simp add: sha_compress_def length_sha_rounds)

lemma length_sha_fold: "length hs = 8 \<Longrightarrow> length (fold (\<lambda>b hs. sha_compress hs b) bs hs) = 8"
  by (induction bs arbitrary: hs) (auto simp: length_sha_compress)

lemma length_sha256 [simp]: "length (sha256 s) = 32"
proof -
  have "length (concat (map (\<lambda>w. be_bytes 4 (unat w)) ws)) = 4 * length ws" for ws :: "32 word list"
    by (induction ws) auto
  moreover have "length sha_init = 8" by (simp add: sha_init_def)
  ultimately show ?thesis
    by (simp only: sha256_def Let_def length_sha_fold)
qed

lemma hex_table_props: "c \<in> set hex_table \<Longrightarrow> is_hex c \<and> edge_char c"
  unfolding hex_table_def is_hex_def by (simp, elim disjE) simp_all

lemma hex_digit_table: "n < 16 \<Longrightarrow> hex_digit n \<in> set hex_table"
  unfolding hex_digit_def by (rule nth_mem) (simp add: hex_table_def)

lemma hex_digit_hex: "n < 16 \<Longrightarrow> is_hex (hex_digit n)"
  using hex_digit_table hex_table_props by blast

lemma hex_digit_edge: "n < 16 \<Longrightarrow> edge_char (hex_digit n)"
  using hex_digit_table hex_table_props by blast

lemma of_char_less [simp]: "of_char c < (256 :: nat)"
  using nat_of_char_less_256 [of c] by simp

lemma set_hex_encode: "c \<in> set (hex_encode bs) \<Longrightarrow> \<exists>n < 16. c = hex_digit n"
proof -
  assume "c \<in> set (hex_encode bs)"
  then obtain b where "c = hex_digit (of_char b div 16) \<or> c = hex_digit (of_char b mod 16)"
    by (auto simp: hex_encode_def)
  moreover have "(of_char b :: nat) div 16 < 16" "(of_char b :: nat) mod 16 < 16"
    using of_char_less [of b] by (simp_all add: less_mult_imp_div_less)
  ultimately show ?thesis by blast
qed

lemma length_hex_encode [simp]: "length (hex_encode bs) = 2 * length bs"
  by (induction bs) (auto simp: hex_encode_def)

lemma hex_decodes_encode [simp]: "hex_decodes (hex_encode bs)"
  by (auto simp: hex_decodes_def list_all_iff dest: set_hex_encode intro: hex_digit_hex)

text \<open>The form in which the program stores a digest.\<close>

definition sha256_hex :: "string \<Rightarrow> string" where
  "sha256_hex s = hex_encode (sha256 s)"

definition sha256_ref :: "string \<Rightarrow> string" where
  "sha256_ref s = ''sha256:'' @ sha256_hex s"

lemma length_sha256_hex [simp]: "length (sha256_hex s) = 64"
  by (simp add: sha256_hex_def)

lemma sha256_hex_nonempty [simp]: "sha256_hex s \<noteq> []"
  using length_sha256_hex [of s] by (metis list.size(3) zero_neq_numeral)

lemma TrimSpace_hex: "bs \<noteq> [] \<Longrightarrow> TrimSpace (hex_encode bs) = hex_encode bs"
proof -
  assume "bs \<noteq> []"
  then have "hex_encode bs \<noteq> []" using length_hex_encode [of bs] by fastforce
  then have "hd (hex_encode bs) \<in> set (hex_encode bs)" "last (hex_encode bs) \<in> set (hex_encode bs)"
    by auto
  then show ?thesis
    using set_hex_encode [of _ bs] hex_digit_edge by (metis TrimSpace_edge)
qed

lemma TrimSpace_sha256_hex [simp]: "TrimSpace (sha256_hex s) = sha256_hex s"
  unfolding sha256_hex_def by (rule TrimSpace_hex) (use length_sha256 [of s] in force)

lemma TrimSpace_sha256_ref [simp]: "TrimSpace (sha256_ref s) = sha256_ref s"
proof -
  have "last (sha256_ref s) \<in> set (sha256_hex s)"
    unfolding sha256_ref_def by (metis sha256_hex_nonempty last_appendR last_in_set)
  then have "edge_char (last (sha256_ref s))"
    unfolding sha256_hex_def using set_hex_encode hex_digit_edge by metis
  moreover have "edge_char (hd (sha256_ref s))" by (simp add: sha256_ref_def)
  ultimately show ?thesis by (metis TrimSpace_edge)
qed

lemma sha256_ref_not_blank [simp]: "sha256_ref s \<noteq> []" "[] \<noteq> sha256_ref s" "\<not> blank (sha256_ref s)"
  by (simp_all add: blank_def) (simp_all add: sha256_ref_def)

lemma length_sha256_ref [simp]: "length (sha256_ref s) = 71"
  by (simp add: sha256_ref_def)

end
