(* ===== verification/Rotation.thy ===== *)
theory Rotation
  imports Sha256
begin

text \<open>
  \<open>identity/rotation.go\<close>: the rotation of a workload's principal, one rotation per owner:
  create a candidate, accept both, drain the old one, revoke it, or revoke it at once in an
  emergency. Every method runs under the service's mutex, so a method is one step. The
  receiver is not nil. The reading of the service's clock is the argument \<open>now\<close>.

  The audit writer is an interface of the code and a locale here, \<open>rotation_audit\<close>, with
  the law that an append which returns nil has added its entry and one which fails has added
  nothing; it is interpreted on the code's \<open>MemoryRotationAudit\<close>.
\<close>

section \<open>Data\<close>

datatype WorkloadPrincipalState =
    WorkloadPrincipalActive
  | WorkloadPrincipalCandidate
  | WorkloadPrincipalDraining
  | WorkloadPrincipalRevoked

fun state_string :: "WorkloadPrincipalState \<Rightarrow> string" where
  "state_string WorkloadPrincipalActive = ''ACTIVE''"
| "state_string WorkloadPrincipalCandidate = ''CANDIDATE''"
| "state_string WorkloadPrincipalDraining = ''DRAINING''"
| "state_string WorkloadPrincipalRevoked = ''REVOKED''"

definition RotationCreateCandidate :: string where "RotationCreateCandidate = ''CREATE_CANDIDATE''"
definition RotationDualAccept :: string where "RotationDualAccept = ''DUAL_ACCEPT''"
definition RotationDrainOld :: string where "RotationDrainOld = ''DRAIN_OLD''"
definition RotationRevokeOld :: string where "RotationRevokeOld = ''REVOKE_OLD''"
definition RotationEmergencyRevoke :: string where "RotationEmergencyRevoke = ''EMERGENCY_REVOKE''"

record WorkloadScope =
  ws_TenantID :: string
  ws_WorkspaceID :: string
  ws_OwnerSystem :: string
  ws_ResourceType :: string

record RotationAuditEntry =
  ra_EventID :: string
  ra_Owner :: string
  ra_OldPrincipalHash :: string
  ra_NewPrincipalHash :: string
  ra_State :: string
  ra_Actor :: string
  ra_Reason :: string
  ra_OccurredAt :: time

record PrincipalRotation =
  pr_Owner :: string
  pr_Scope :: WorkloadScope
  pr_Audience :: string
  pr_OldPrincipalHash :: string
  pr_NewPrincipalHash :: string
  pr_OldState :: WorkloadPrincipalState
  pr_NewState :: WorkloadPrincipalState
  pr_DualAccepted :: bool
  pr_InFlight :: int
  pr_Revision :: int
  pr_UpdatedAt :: time

record CreateCandidateRequest =
  cc_Owner :: string
  cc_Scope :: WorkloadScope
  cc_Audience :: string
  cc_OldPrincipalHash :: string
  cc_NewPrincipalHash :: string
  cc_Actor :: string
  cc_Reason :: string

section \<open>Validation\<close>

definition HashPrincipal :: "string \<Rightarrow> string \<Rightarrow> string" where
  "HashPrincipal issuer subject = sha256_ref (TrimSpace issuer @ [CHR 0x00] @ TrimSpace subject)"

definition workloadOwners :: "string list" where
  "workloadOwners = [''approver'', ''fluxion'', ''bids'', ''settlement'']"

definition validScope :: "WorkloadScope \<Rightarrow> bool" where
  "validScope scope =
     (list_all (\<lambda>value. TrimSpace value \<noteq> [] \<and> \<not> ContainsAny (TrimSpace value) ''*?'')
        [ws_TenantID scope, ws_WorkspaceID scope, ws_OwnerSystem scope, ws_ResourceType scope]
      \<and> ws_OwnerSystem scope \<in> {''approver'', ''fluxion'', ''bids'', ''settlement''})"

definition validPrincipalHash :: "string \<Rightarrow> bool" where
  "validPrincipalHash v =
     (let value = TrimSpace v in
      if length value \<noteq> length ''sha256:'' + 64 \<or> \<not> HasPrefix value ''sha256:'' then False
      else hex_decodes (TrimPrefix value ''sha256:''))"

definition validateCreateCandidate :: "CreateCandidateRequest \<Rightarrow> goerr option" where
  "validateCreateCandidate request =
     (if TrimSpace (cc_Owner request) \<notin> set workloadOwners
      then Some (IdentityErr ErrRotationUnknownOwner)
      else if \<not> validScope (cc_Scope request) then Some (IdentityErr ErrRotationInvalidScope)
      else if blank (cc_Audience request) \<or> \<not> validPrincipalHash (cc_OldPrincipalHash request)
        \<or> \<not> validPrincipalHash (cc_NewPrincipalHash request)
        \<or> cc_OldPrincipalHash request = cc_NewPrincipalHash request
        \<or> blank (cc_Actor request) \<or> blank (cc_Reason request)
      then Some (IdentityErr ErrRotationInvalidInput)
      else None)"

section \<open>The service\<close>

text \<open>The map \<open>values\<close> and the state of the audit writer.\<close>

record 'a rotation_world =
  rw_values :: "string \<rightharpoonup> PrincipalRotation"
  rw_audit :: 'a

type_synonym 'a RotationAuditWriter = "RotationAuditEntry \<Rightarrow> 'a \<Rightarrow> goerr option \<times> 'a"

definition auditEntry :: "PrincipalRotation \<Rightarrow> string \<Rightarrow> string \<Rightarrow> string \<Rightarrow> RotationAuditEntry" where
  "auditEntry rotation action actor reason =
     \<lparr>ra_EventID = pr_Owner rotation @ ''-'' @ itoa (pr_Revision rotation), ra_Owner = pr_Owner rotation,
      ra_OldPrincipalHash = pr_OldPrincipalHash rotation, ra_NewPrincipalHash = pr_NewPrincipalHash rotation,
      ra_State = action @ '':'' @ state_string (pr_OldState rotation) @ '':'' @ state_string (pr_NewState rotation),
      ra_Actor = actor, ra_Reason = reason, ra_OccurredAt = pr_UpdatedAt rotation\<rparr>"

definition auditLocked ::
  "'a RotationAuditWriter option \<Rightarrow> PrincipalRotation \<Rightarrow> string \<Rightarrow> string \<Rightarrow> string
     \<Rightarrow> ('a rotation_world, unit) go" where
  "auditLocked audit rotation action actor reason =
     (case audit of
        None \<Rightarrow> fail (IdentityErr ErrRotationAudit)
      | Some appendRotation \<Rightarrow>
          if blank actor \<or> blank reason then fail (IdentityErr ErrRotationInvalidInput)
          else (\<lambda>w. case appendRotation (auditEntry rotation action actor reason) (rw_audit w) of
                  (None, a) \<Rightarrow> (Inr (), w\<lparr>rw_audit := a\<rparr>)
                | (Some err, a) \<Rightarrow> (Inl (Wrap ''audit'' (IdentityErr ErrRotationAudit)), w\<lparr>rw_audit := a\<rparr>)))"

definition put_rotation :: "string \<Rightarrow> PrincipalRotation \<Rightarrow> ('a rotation_world, PrincipalRotation) go" where
  "put_rotation owner rotation = (\<lambda>w. (Inr rotation, w\<lparr>rw_values := (rw_values w)(owner \<mapsto> rotation)\<rparr>))"

definition CreateCandidate ::
  "'a RotationAuditWriter option \<Rightarrow> time \<Rightarrow> CreateCandidateRequest \<Rightarrow> ('a rotation_world, PrincipalRotation) go" where
  "CreateCandidate audit now request =
     bindG (checkG (validateCreateCandidate request)) (\<lambda>_ w.
       if rw_values w (cc_Owner request) \<noteq> None then fail (IdentityErr ErrRotationConflict) w
       else let rotation = \<lparr>pr_Owner = cc_Owner request, pr_Scope = cc_Scope request,
              pr_Audience = cc_Audience request, pr_OldPrincipalHash = cc_OldPrincipalHash request,
              pr_NewPrincipalHash = cc_NewPrincipalHash request, pr_OldState = WorkloadPrincipalActive,
              pr_NewState = WorkloadPrincipalCandidate, pr_DualAccepted = False, pr_InFlight = 0,
              pr_Revision = 1, pr_UpdatedAt = now\<rparr>
            in bindG (auditLocked audit rotation RotationCreateCandidate (cc_Actor request) (cc_Reason request))
                 (\<lambda>_. put_rotation (cc_Owner request) rotation) w)"

definition rotation_transition ::
  "'a RotationAuditWriter option \<Rightarrow> time \<Rightarrow> string \<Rightarrow> string \<Rightarrow> string \<Rightarrow> string
     \<Rightarrow> (PrincipalRotation \<Rightarrow> goerr + PrincipalRotation) \<Rightarrow> ('a rotation_world, PrincipalRotation) go" where
  "rotation_transition audit now owner action actor reason mutate =
     (if blank owner \<or> blank actor \<or> blank reason then fail (IdentityErr ErrRotationInvalidInput)
      else (\<lambda>w. case rw_values w owner of
          None \<Rightarrow> fail (IdentityErr ErrRotationNotFound) w
        | Some rotation \<Rightarrow>
            bindG (pureG (mutate rotation)) (\<lambda>mutated.
              let updated = mutated\<lparr>pr_Revision := incr64 (pr_Revision mutated), pr_UpdatedAt := now\<rparr>
              in bindG (auditLocked audit updated action actor reason) (\<lambda>_. put_rotation owner updated)) w))"

definition dual_accept :: "PrincipalRotation \<Rightarrow> goerr + PrincipalRotation" where
  "dual_accept rotation =
     (if pr_OldState rotation \<noteq> WorkloadPrincipalActive \<or> pr_NewState rotation \<noteq> WorkloadPrincipalCandidate
      then Inl (IdentityErr ErrRotationInvalidState)
      else Inr (rotation\<lparr>pr_DualAccepted := True\<rparr>))"

definition drain_old :: "PrincipalRotation \<Rightarrow> goerr + PrincipalRotation" where
  "drain_old rotation =
     (if \<not> pr_DualAccepted rotation \<or> pr_OldState rotation \<noteq> WorkloadPrincipalActive
         \<or> pr_NewState rotation \<noteq> WorkloadPrincipalCandidate
      then Inl (IdentityErr ErrRotationInvalidState)
      else Inr (rotation\<lparr>pr_OldState := WorkloadPrincipalDraining\<rparr>))"

definition revoke_old :: "PrincipalRotation \<Rightarrow> goerr + PrincipalRotation" where
  "revoke_old rotation =
     (if pr_OldState rotation \<noteq> WorkloadPrincipalDraining \<or> pr_NewState rotation \<noteq> WorkloadPrincipalCandidate
      then Inl (IdentityErr ErrRotationInvalidState)
      else if pr_InFlight rotation \<noteq> 0 then Inl (IdentityErr ErrRotationInFlight)
      else Inr (rotation\<lparr>pr_OldState := WorkloadPrincipalRevoked, pr_NewState := WorkloadPrincipalActive\<rparr>))"

definition emergency_revoke :: "PrincipalRotation \<Rightarrow> goerr + PrincipalRotation" where
  "emergency_revoke rotation =
     (if pr_OldState rotation = WorkloadPrincipalRevoked then Inl (IdentityErr ErrRotationInvalidState)
      else Inr (rotation\<lparr>pr_OldState := WorkloadPrincipalRevoked\<rparr>))"

definition DualAccept where
  "DualAccept audit now owner actor reason =
     rotation_transition audit now owner RotationDualAccept actor reason dual_accept"

definition DrainOld where
  "DrainOld audit now owner actor reason =
     rotation_transition audit now owner RotationDrainOld actor reason drain_old"

definition RevokeOld where
  "RevokeOld audit now owner actor reason =
     rotation_transition audit now owner RotationRevokeOld actor reason revoke_old"

definition EmergencyRevoke where
  "EmergencyRevoke audit now owner actor reason =
     rotation_transition audit now owner RotationEmergencyRevoke actor reason emergency_revoke"

definition SetInFlight :: "time \<Rightarrow> string \<Rightarrow> int \<Rightarrow> ('a rotation_world, PrincipalRotation) go" where
  "SetInFlight now owner count =
     (if count < 0 then fail (IdentityErr ErrRotationInvalidInput)
      else (\<lambda>w. case rw_values w owner of
          None \<Rightarrow> fail (IdentityErr ErrRotationNotFound) w
        | Some rotation \<Rightarrow>
            put_rotation owner (rotation\<lparr>pr_InFlight := count, pr_Revision := incr64 (pr_Revision rotation),
              pr_UpdatedAt := now\<rparr>) w))"

definition rotation_Get :: "string \<Rightarrow> ('a rotation_world, PrincipalRotation) go" where
  "rotation_Get owner =
     (\<lambda>w. case rw_values w owner of
        None \<Rightarrow> fail (IdentityErr ErrRotationNotFound) w
      | Some rotation \<Rightarrow> ret rotation w)"

section \<open>The audit writer in memory\<close>

record MemoryRotationAudit =
  ma_entries :: "RotationAuditEntry list"
  ma_err :: "goerr option"

definition AppendRotation :: "MemoryRotationAudit RotationAuditWriter" where
  "AppendRotation entry writer =
     (case ma_err writer of
        Some err \<Rightarrow> (Some err, writer)
      | None \<Rightarrow> (None, writer\<lparr>ma_entries := ma_entries writer @ [entry]\<rparr>))"

definition Entries :: "MemoryRotationAudit \<Rightarrow> RotationAuditEntry list" where
  "Entries writer = ma_entries writer"

definition SetError :: "goerr option \<Rightarrow> MemoryRotationAudit \<Rightarrow> MemoryRotationAudit" where
  "SetError err writer = writer\<lparr>ma_err := err\<rparr>"

section \<open>Operations as steps\<close>

datatype rotation_op =
    OpCreate CreateCandidateRequest
  | OpDualAccept string string string
  | OpDrainOld string string string
  | OpRevokeOld string string string
  | OpEmergencyRevoke string string string
  | OpSetInFlight string int
  | OpGet string

fun rotation_exec ::
  "'a RotationAuditWriter option \<Rightarrow> time \<Rightarrow> rotation_op \<Rightarrow> ('a rotation_world, PrincipalRotation) go" where
  "rotation_exec audit now (OpCreate request) = CreateCandidate audit now request"
| "rotation_exec audit now (OpDualAccept owner actor reason) = DualAccept audit now owner actor reason"
| "rotation_exec audit now (OpDrainOld owner actor reason) = DrainOld audit now owner actor reason"
| "rotation_exec audit now (OpRevokeOld owner actor reason) = RevokeOld audit now owner actor reason"
| "rotation_exec audit now (OpEmergencyRevoke owner actor reason) = EmergencyRevoke audit now owner actor reason"
| "rotation_exec audit now (OpSetInFlight owner count) = SetInFlight now owner count"
| "rotation_exec audit now (OpGet owner) = rotation_Get owner"

fun op_owner :: "rotation_op \<Rightarrow> string" where
  "op_owner (OpCreate request) = cc_Owner request"
| "op_owner (OpDualAccept owner _ _) = owner"
| "op_owner (OpDrainOld owner _ _) = owner"
| "op_owner (OpRevokeOld owner _ _) = owner"
| "op_owner (OpEmergencyRevoke owner _ _) = owner"
| "op_owner (OpSetInFlight owner _) = owner"
| "op_owner (OpGet owner) = owner"

text \<open>The states of a service that started empty, after any sequence of calls, failed or not.\<close>

inductive rotation_reach :: "'a RotationAuditWriter option \<Rightarrow> 'a \<Rightarrow> 'a rotation_world \<Rightarrow> bool"
  for audit a0 where
  start: "rotation_reach audit a0 \<lparr>rw_values = Map.empty, rw_audit = a0\<rparr>"
| step: "rotation_reach audit a0 w \<Longrightarrow> rotation_exec audit now op w = (res, w') \<Longrightarrow> rotation_reach audit a0 w'"

text \<open>The abstract machine of one owner, and the abstraction of a rotation.\<close>

datatype rotation_phase = Absent | Pending | DualAccepted | Draining | Rotated | Stopped

fun phase_of :: "PrincipalRotation option \<Rightarrow> rotation_phase" where
  "phase_of None = Absent"
| "phase_of (Some r) =
     (case pr_OldState r of
        WorkloadPrincipalRevoked \<Rightarrow> if pr_NewState r = WorkloadPrincipalActive then Rotated else Stopped
      | WorkloadPrincipalDraining \<Rightarrow> Draining
      | _ \<Rightarrow> if pr_DualAccepted r then DualAccepted else Pending)"

inductive phase_step :: "rotation_phase \<Rightarrow> rotation_op \<Rightarrow> rotation_phase \<Rightarrow> bool" where
  create: "phase_step Absent (OpCreate request) Pending"
| accept: "p \<in> {Pending, DualAccepted} \<Longrightarrow> phase_step p (OpDualAccept owner actor reason) DualAccepted"
| drain: "phase_step DualAccepted (OpDrainOld owner actor reason) Draining"
| revoke: "phase_step Draining (OpRevokeOld owner actor reason) Rotated"
| emergency: "p \<in> {Pending, DualAccepted, Draining} \<Longrightarrow>
    phase_step p (OpEmergencyRevoke owner actor reason) Stopped"
| in_flight: "p \<noteq> Absent \<Longrightarrow> phase_step p (OpSetInFlight owner count) p"
| get: "p \<noteq> Absent \<Longrightarrow> phase_step p (OpGet owner) p"

inductive_cases rotated_stepE: "phase_step Rotated op p"
inductive_cases stopped_stepE: "phase_step Stopped op p"
inductive_simps phase_step_simps: "phase_step p op q"

text \<open>The invariant of a stored rotation.\<close>

definition rotation_ok :: "string \<Rightarrow> PrincipalRotation \<Rightarrow> bool" where
  "rotation_ok owner r \<longleftrightarrow>
     pr_Owner r = owner \<and> TrimSpace owner \<in> set workloadOwners \<and> validScope (pr_Scope r)
     \<and> validPrincipalHash (pr_OldPrincipalHash r) \<and> validPrincipalHash (pr_NewPrincipalHash r)
     \<and> pr_OldPrincipalHash r \<noteq> pr_NewPrincipalHash r \<and> 0 \<le> pr_InFlight r
     \<and> (pr_OldState r, pr_NewState r) \<in>
         {(WorkloadPrincipalActive, WorkloadPrincipalCandidate),
          (WorkloadPrincipalDraining, WorkloadPrincipalCandidate),
          (WorkloadPrincipalRevoked, WorkloadPrincipalCandidate),
          (WorkloadPrincipalRevoked, WorkloadPrincipalActive)}
     \<and> (pr_OldState r = WorkloadPrincipalDraining \<or> pr_NewState r = WorkloadPrincipalActive
         \<longrightarrow> pr_DualAccepted r)"

definition rotations_ok :: "'a rotation_world \<Rightarrow> bool" where
  "rotations_ok w \<longleftrightarrow> (\<forall>owner r. rw_values w owner = Some r \<longrightarrow> rotation_ok owner r)"

section \<open>Lemmas on the operations\<close>

lemma validateCreateCandidate_None:
  "validateCreateCandidate q = None \<longleftrightarrow>
     TrimSpace (cc_Owner q) \<in> set workloadOwners \<and> validScope (cc_Scope q) \<and> \<not> blank (cc_Audience q)
     \<and> validPrincipalHash (cc_OldPrincipalHash q) \<and> validPrincipalHash (cc_NewPrincipalHash q)
     \<and> cc_OldPrincipalHash q \<noteq> cc_NewPrincipalHash q \<and> \<not> blank (cc_Actor q) \<and> \<not> blank (cc_Reason q)"
  by (simp add: validateCreateCandidate_def)

lemma auditLocked_Inr:
  "auditLocked audit r action actor reason w = (Inr u, w') \<longleftrightarrow>
     (\<exists>ap a. audit = Some ap \<and> \<not> blank actor \<and> \<not> blank reason
        \<and> ap (auditEntry r action actor reason) (rw_audit w) = (None, a) \<and> w' = w\<lparr>rw_audit := a\<rparr>)"
  unfolding auditLocked_def by (auto simp: go_simps split: option.splits prod.splits)

lemma auditLocked_Inl:
  "auditLocked audit r action actor reason w = (Inl e, w') \<Longrightarrow>
     w' = w \<or> (\<exists>ap err a. audit = Some ap \<and> ap (auditEntry r action actor reason) (rw_audit w) = (Some err, a)
        \<and> w' = w\<lparr>rw_audit := a\<rparr> \<and> errors_is e (IdentityErr ErrRotationAudit))"
  unfolding auditLocked_def by (auto simp: go_simps split: option.splits prod.splits if_splits)

lemma put_rotation_run [go_simps]:
  "put_rotation owner r w = (Inr r, w\<lparr>rw_values := (rw_values w)(owner \<mapsto> r)\<rparr>)"
  by (simp add: put_rotation_def)

lemma rotation_transition_Inr:
  "rotation_transition audit now owner action actor reason mutate w = (Inr r, w') \<longleftrightarrow>
     (\<exists>old new ap a. audit = Some ap \<and> rw_values w owner = Some old \<and> mutate old = Inr new
        \<and> \<not> blank owner \<and> \<not> blank actor \<and> \<not> blank reason
        \<and> r = new\<lparr>pr_Revision := incr64 (pr_Revision new), pr_UpdatedAt := now\<rparr>
        \<and> ap (auditEntry r action actor reason) (rw_audit w) = (None, a)
        \<and> w' = w\<lparr>rw_audit := a, rw_values := (rw_values w)(owner \<mapsto> r)\<rparr>)"
  unfolding rotation_transition_def Let_def
  by (auto simp: go_success put_rotation_def auditLocked_Inr fail_Inr split: option.splits)

lemma CreateCandidate_Inr:
  "CreateCandidate audit now q w = (Inr r, w') \<longleftrightarrow>
     (\<exists>ap a. audit = Some ap \<and> rw_values w (cc_Owner q) = None \<and> validateCreateCandidate q = None
        \<and> r = \<lparr>pr_Owner = cc_Owner q, pr_Scope = cc_Scope q,
              pr_Audience = cc_Audience q, pr_OldPrincipalHash = cc_OldPrincipalHash q,
              pr_NewPrincipalHash = cc_NewPrincipalHash q, pr_OldState = WorkloadPrincipalActive,
              pr_NewState = WorkloadPrincipalCandidate, pr_DualAccepted = False, pr_InFlight = 0,
              pr_Revision = 1, pr_UpdatedAt = now\<rparr>
        \<and> ap (auditEntry r RotationCreateCandidate (cc_Actor q) (cc_Reason q)) (rw_audit w) = (None, a)
        \<and> w' = w\<lparr>rw_audit := a, rw_values := (rw_values w)(cc_Owner q \<mapsto> r)\<rparr>)"
  unfolding CreateCandidate_def Let_def
  by (auto simp: go_success put_rotation_def auditLocked_Inr fail_Inr validateCreateCandidate_None)

lemma SetInFlight_Inr:
  "SetInFlight now owner count w = (Inr r, w') \<longleftrightarrow>
     (\<exists>old. rw_values w owner = Some old \<and> 0 \<le> count
        \<and> r = old\<lparr>pr_InFlight := count, pr_Revision := incr64 (pr_Revision old), pr_UpdatedAt := now\<rparr>
        \<and> w' = w\<lparr>rw_values := (rw_values w)(owner \<mapsto> r)\<rparr>)"
  unfolding SetInFlight_def
  by (auto simp: go_success put_rotation_def fail_Inr split: option.splits)

lemma rotation_Get_Inr: "rotation_Get owner w = (Inr r, w') \<longleftrightarrow> rw_values w owner = Some r \<and> w' = w"
  unfolding rotation_Get_def by (auto simp: go_success split: option.splits)

lemmas mutation_defs = dual_accept_def drain_old_def revoke_old_def emergency_revoke_def

lemmas rotation_op_defs = DualAccept_def DrainOld_def RevokeOld_def EmergencyRevoke_def

lemmas rotation_success = rotation_transition_Inr CreateCandidate_Inr SetInFlight_Inr rotation_Get_Inr

text \<open>A successful call stores the rotation it returns and touches no other owner.\<close>

lemma rotation_exec_Inr:
  "rotation_exec audit now op w = (Inr r, w') \<Longrightarrow>
     rw_values w' = (rw_values w)(op_owner op \<mapsto> r)"
  by (cases op) (auto simp: rotation_success rotation_op_defs)

text \<open>A failed call changes no rotation, whatever the audit writer did.\<close>

lemma rotation_transition_Inl:
  "rotation_transition audit now owner action actor reason mutate w = (Inl e, w') \<Longrightarrow>
     rw_values w' = rw_values w"
  unfolding rotation_transition_def Let_def
  by (auto simp: go_simps dest!: auditLocked_Inl split: option.splits prod.splits sum.splits if_splits)

lemma rotation_exec_Inl:
  "rotation_exec audit now op w = (Inl e, w') \<Longrightarrow> rw_values w' = rw_values w"
  by (cases op)
     (auto simp: rotation_op_defs CreateCandidate_def SetInFlight_def rotation_Get_def Let_def go_simps
       dest!: auditLocked_Inl rotation_transition_Inl split: option.splits prod.splits sum.splits if_splits)

text \<open>Each mutation keeps the invariant of the rotation, and the bookkeeping does not touch it.\<close>

lemma mutation_ok:
  assumes "rotation_ok owner old"
  shows "dual_accept old = Inr new \<Longrightarrow> rotation_ok owner new"
    and "drain_old old = Inr new \<Longrightarrow> rotation_ok owner new"
    and "revoke_old old = Inr new \<Longrightarrow> rotation_ok owner new"
    and "emergency_revoke old = Inr new \<Longrightarrow> rotation_ok owner new"
  using assms by (auto simp: mutation_defs rotation_ok_def split: if_splits)

lemma rotation_ok_stamp [simp]:
  "rotation_ok owner (r\<lparr>pr_Revision := n, pr_UpdatedAt := t\<rparr>) \<longleftrightarrow> rotation_ok owner r"
  "rotation_ok owner (r\<lparr>pr_InFlight := c, pr_Revision := n, pr_UpdatedAt := t\<rparr>)
     \<longleftrightarrow> rotation_ok owner (r\<lparr>pr_InFlight := c\<rparr>)"
  by (simp_all add: rotation_ok_def)

lemma rotation_ok_in_flight: "rotation_ok owner r \<Longrightarrow> 0 \<le> c \<Longrightarrow> rotation_ok owner (r\<lparr>pr_InFlight := c\<rparr>)"
  by (simp add: rotation_ok_def)

lemma transition_ok:
  assumes "rotations_ok w" "\<And>old new. rotation_ok owner old \<Longrightarrow> mutate old = Inr new \<Longrightarrow> rotation_ok owner new"
    "rotation_transition audit now owner action actor reason mutate w = (Inr r, w')"
  shows "rotation_ok owner r"
proof -
  from assms(3) obtain old new where "rw_values w owner = Some old" "mutate old = Inr new"
    "r = new\<lparr>pr_Revision := incr64 (pr_Revision new), pr_UpdatedAt := now\<rparr>"
    by (auto simp: rotation_transition_Inr)
  with assms(1,2) show ?thesis by (metis rotation_ok_stamp(1) rotations_ok_def)
qed

lemma rotation_exec_ok:
  assumes ok: "rotations_ok w" and x: "rotation_exec audit now op w = (Inr r, w')"
  shows "rotation_ok (op_owner op) r"
proof (cases op)
  case (OpCreate q)
  with x show ?thesis
    by (auto simp: CreateCandidate_Inr rotation_ok_def validateCreateCandidate_None)
next
  case (OpSetInFlight owner count)
  with x obtain old where "rw_values w owner = Some old" "0 \<le> count"
    "r = old\<lparr>pr_InFlight := count, pr_Revision := incr64 (pr_Revision old), pr_UpdatedAt := now\<rparr>"
    by (auto simp: SetInFlight_Inr)
  with ok OpSetInFlight show ?thesis
    by (metis op_owner.simps(6) rotation_ok_in_flight rotation_ok_stamp(2) rotations_ok_def)
next
  case (OpGet owner)
  with x ok show ?thesis by (auto simp: rotation_Get_Inr rotations_ok_def)
next
  case (OpDualAccept owner actor reason)
  with x have "rotation_transition audit now owner RotationDualAccept actor reason dual_accept w = (Inr r, w')"
    by (simp add: DualAccept_def)
  from transition_ok [OF ok mutation_ok(1) this] OpDualAccept show ?thesis by simp
next
  case (OpDrainOld owner actor reason)
  with x have "rotation_transition audit now owner RotationDrainOld actor reason drain_old w = (Inr r, w')"
    by (simp add: DrainOld_def)
  from transition_ok [OF ok mutation_ok(2) this] OpDrainOld show ?thesis by simp
next
  case (OpRevokeOld owner actor reason)
  with x have "rotation_transition audit now owner RotationRevokeOld actor reason revoke_old w = (Inr r, w')"
    by (simp add: RevokeOld_def)
  from transition_ok [OF ok mutation_ok(3) this] OpRevokeOld show ?thesis by simp
next
  case (OpEmergencyRevoke owner actor reason)
  with x have "rotation_transition audit now owner RotationEmergencyRevoke actor reason emergency_revoke w = (Inr r, w')"
    by (simp add: EmergencyRevoke_def)
  from transition_ok [OF ok mutation_ok(4) this] OpEmergencyRevoke show ?thesis by simp
qed

lemma rotations_ok_exec:
  assumes "rotations_ok w" "rotation_exec audit now op w = (res, w')"
  shows "rotations_ok w'"
proof (cases res)
  case (Inl e)
  with assms rotation_exec_Inl show ?thesis by (metis rotations_ok_def)
next
  case (Inr r)
  with assms have "rw_values w' = (rw_values w)(op_owner op \<mapsto> r)" "rotation_ok (op_owner op) r"
    using rotation_exec_Inr rotation_exec_ok by metis+
  with assms(1) show ?thesis by (auto simp: rotations_ok_def)
qed

lemma rotations_ok_reach: "rotation_reach audit a0 w \<Longrightarrow> rotations_ok w"
  by (induction rule: rotation_reach.induct) (auto simp: rotations_ok_def intro: rotations_ok_exec [unfolded rotations_ok_def, rule_format])

lemma rotation_exec_phase:
  assumes "rotations_ok w" and x: "rotation_exec audit now op w = (Inr r, w')"
  shows "phase_step (phase_of (rw_values w (op_owner op))) op (phase_of (Some r))"
proof (cases "rw_values w (op_owner op)")
  case None
  with x show ?thesis
    by (cases op) (auto simp: rotation_success rotation_op_defs phase_step_simps)
next
  case (Some old)
  with assms(1) have "rotation_ok (op_owner op) old" by (simp add: rotations_ok_def)
  with Some x show ?thesis
    by (cases op; cases "pr_OldState old"; cases "pr_NewState old")
       (auto simp: rotation_success rotation_op_defs rotation_ok_def mutation_defs phase_step_simps split: if_splits)
qed

section \<open>The audit writer's contract\<close>

text \<open>A list of entries, the last of which shows the states and principals of a rotation.\<close>

definition shows_rotation :: "RotationAuditEntry list \<Rightarrow> PrincipalRotation \<Rightarrow> bool" where
  "shows_rotation es r \<longleftrightarrow> es \<noteq> [] \<and> ra_OldPrincipalHash (last es) = pr_OldPrincipalHash r
     \<and> ra_NewPrincipalHash (last es) = pr_NewPrincipalHash r
     \<and> (\<exists>action. ra_State (last es) =
          action @ '':'' @ state_string (pr_OldState r) @ '':'' @ state_string (pr_NewState r))"

definition entries_of :: "string \<Rightarrow> RotationAuditEntry list \<Rightarrow> RotationAuditEntry list" where
  "entries_of owner es = filter (\<lambda>e. ra_Owner e = owner) es"

lemma shows_rotation_audit: "shows_rotation (es @ [auditEntry r action actor reason]) r"
  by (auto simp: shows_rotation_def auditEntry_def)

lemma shows_rotation_same:
  "shows_rotation es r \<Longrightarrow> pr_OldState r' = pr_OldState r \<Longrightarrow> pr_NewState r' = pr_NewState r
     \<Longrightarrow> pr_OldPrincipalHash r' = pr_OldPrincipalHash r \<Longrightarrow> pr_NewPrincipalHash r' = pr_NewPrincipalHash r
     \<Longrightarrow> shows_rotation es r'"
  by (simp add: shows_rotation_def)

lemma entries_of_audit:
  "entries_of owner (es @ [auditEntry r action actor reason]) =
     entries_of owner es @ (if pr_Owner r = owner then [auditEntry r action actor reason] else [])"
  by (simp add: entries_of_def auditEntry_def)

text \<open>A successful call either appends the entry of its result or keeps the states.\<close>

lemma rotation_exec_audited:
  "rotation_exec (Some ap) now op w = (Inr r, w') \<Longrightarrow>
     (\<exists>action actor reason. ap (auditEntry r action actor reason) (rw_audit w) = (None, rw_audit w'))
     \<or> rw_audit w' = rw_audit w
       \<and> (\<exists>old. rw_values w (op_owner op) = Some old \<and> pr_OldState r = pr_OldState old
            \<and> pr_NewState r = pr_NewState old \<and> pr_OldPrincipalHash r = pr_OldPrincipalHash old
            \<and> pr_NewPrincipalHash r = pr_NewPrincipalHash old)"
  by (cases op) (fastforce simp: rotation_success rotation_op_defs)+

locale rotation_audit =
  fixes appendEntry :: "RotationAuditEntry \<Rightarrow> 'a \<Rightarrow> goerr option \<times> 'a"
    and trail :: "'a \<Rightarrow> RotationAuditEntry list"
  assumes append_nil: "appendEntry e a = (None, a') \<Longrightarrow> trail a' = trail a @ [e]"
    and append_err: "appendEntry e a = (Some err, a') \<Longrightarrow> trail a' = trail a"
begin

text \<open>An owner's last entry shows its rotation; an owner without a rotation has no entry.\<close>

definition evidenced :: "'a rotation_world \<Rightarrow> bool" where
  "evidenced w \<longleftrightarrow>
     (\<forall>owner. rw_values w owner = None \<longrightarrow> entries_of owner (trail (rw_audit w)) = [])
     \<and> (\<forall>owner r. rw_values w owner = Some r \<longrightarrow> shows_rotation (entries_of owner (trail (rw_audit w))) r)"

lemma evidenced_exec_Inr:
  assumes ok: "rotations_ok w" "evidenced w" and x: "rotation_exec (Some appendEntry) now op w = (Inr r, w')"
  shows "evidenced w'"
proof -
  have r: "pr_Owner r = op_owner op" using rotation_exec_ok [OF ok(1) x] by (simp add: rotation_ok_def)
  have v: "rw_values w' = (rw_values w)(op_owner op \<mapsto> r)" by (rule rotation_exec_Inr [OF x])
  from rotation_exec_audited [OF x] show ?thesis
  proof (elim disjE exE conjE)
    fix action actor reason
    assume "appendEntry (auditEntry r action actor reason) (rw_audit w) = (None, rw_audit w')"
    then have "trail (rw_audit w') = trail (rw_audit w) @ [auditEntry r action actor reason]"
      by (rule append_nil)
    with ok(2) r v show ?thesis
      unfolding evidenced_def by (auto simp: entries_of_audit shows_rotation_audit)
  next
    fix old
    assume "rw_audit w' = rw_audit w" "rw_values w (op_owner op) = Some old"
      "pr_OldState r = pr_OldState old" "pr_NewState r = pr_NewState old"
      "pr_OldPrincipalHash r = pr_OldPrincipalHash old" "pr_NewPrincipalHash r = pr_NewPrincipalHash old"
    moreover from this ok(2) have "shows_rotation (entries_of (op_owner op) (trail (rw_audit w))) old"
      unfolding evidenced_def by blast
    ultimately show ?thesis
      using ok(2) v unfolding evidenced_def by (auto intro: shows_rotation_same)
  qed
qed

lemma trail_exec_Inl:
  "rotation_exec (Some appendEntry) now op w = (Inl e, w') \<Longrightarrow> trail (rw_audit w') = trail (rw_audit w)"
  by (cases op)
     (auto simp: rotation_op_defs rotation_transition_def CreateCandidate_def SetInFlight_def rotation_Get_def Let_def
       go_simps dest!: auditLocked_Inl append_err split: option.splits prod.splits sum.splits if_splits)

lemma evidenced_reach:
  "trail a0 = [] \<Longrightarrow> rotation_reach (Some appendEntry) a0 w \<Longrightarrow> evidenced w"
proof (rotate_tac, induction rule: rotation_reach.induct)
  case start
  then show ?case by (simp add: evidenced_def entries_of_def)
next
  case (step w now op res w')
  show ?case
  proof (cases res)
    case (Inl e)
    with step rotation_exec_Inl trail_exec_Inl have "rw_values w' = rw_values w" "trail (rw_audit w') = trail (rw_audit w)"
      by blast+
    with step show ?thesis by (simp add: evidenced_def)
  next
    case (Inr r)
    with step.hyps have x: "rotation_exec (Some appendEntry) now op w = (Inr r, w')" by simp
    have "rotations_ok w" using step.hyps(1) by (rule rotations_ok_reach)
    moreover have "evidenced w" by (rule step.IH) (rule step.prems)
    ultimately show ?thesis using x by (rule evidenced_exec_Inr)
  qed
qed

end

interpretation memory_audit: rotation_audit AppendRotation Entries
  by unfold_locales (auto simp: AppendRotation_def Entries_def split: option.splits)

section \<open>Properties\<close>

text \<open>
  C30: after any sequence of calls, failed or not, every stored rotation belongs to a known
  owner and a valid scope, has two different valid principal hashes and is in one of four
  pairs of states: the two principals are never both active, the old one is never revived and
  the new one is active only after the old one is revoked and both were accepted.
\<close>

theorem rotation_states:
  assumes "rotation_reach audit a0 w" "rw_values w owner = Some r"
  shows "pr_Owner r = owner \<and> TrimSpace owner \<in> set workloadOwners \<and> validScope (pr_Scope r)
    \<and> validPrincipalHash (pr_OldPrincipalHash r) \<and> validPrincipalHash (pr_NewPrincipalHash r)
    \<and> pr_OldPrincipalHash r \<noteq> pr_NewPrincipalHash r \<and> 0 \<le> pr_InFlight r
    \<and> \<not> (pr_OldState r = WorkloadPrincipalActive \<and> pr_NewState r = WorkloadPrincipalActive)
    \<and> (pr_NewState r = WorkloadPrincipalActive \<longrightarrow> pr_OldState r = WorkloadPrincipalRevoked \<and> pr_DualAccepted r)
    \<and> (pr_OldState r = WorkloadPrincipalDraining \<longrightarrow> pr_DualAccepted r)"
proof -
  have "rotation_ok owner r" using rotations_ok_reach [OF assms(1)] assms(2) by (simp add: rotations_ok_def)
  then show ?thesis by (auto simp: rotation_ok_def)
qed

definition sample_rotation :: CreateCandidateRequest where
  "sample_rotation = \<lparr>cc_Owner = ''bids'', cc_Scope = \<lparr>ws_TenantID = ''t'', ws_WorkspaceID = ''w'',
     ws_OwnerSystem = ''bids'', ws_ResourceType = ''tender''\<rparr>, cc_Audience = ''hub'',
     cc_OldPrincipalHash = ''sha256:'' @ replicate 64 (CHR ''a''),
     cc_NewPrincipalHash = ''sha256:'' @ replicate 64 (CHR ''b''), cc_Actor = ''ops'', cc_Reason = ''rotation''\<rparr>"

definition sample_start :: "MemoryRotationAudit rotation_world" where
  "sample_start = \<lparr>rw_values = Map.empty, rw_audit = \<lparr>ma_entries = [], ma_err = None\<rparr>\<rparr>"

lemma sample_hash: "is_hex c \<Longrightarrow> edge_char c \<Longrightarrow> validPrincipalHash (''sha256:'' @ replicate 64 c)"
proof -
  assume c: "is_hex c" "edge_char c"
  have "TrimSpace (''sha256:'' @ replicate 64 c) = ''sha256:'' @ replicate 64 c"
    by (rule TrimSpace_edge) (use c(2) in \<open>simp_all add: last_append\<close>)
  moreover have "HasPrefix (''sha256:'' @ replicate 64 c) ''sha256:''" by (auto simp only: HasPrefix_iff)
  moreover have "hex_decodes (replicate 64 c)" using c(1) by (simp add: hex_decodes_def list_all_iff)
  ultimately show ?thesis
    unfolding validPrincipalHash_def Let_def by (simp only: TrimPrefix_append) simp
qed

lemma sample_valid: "validateCreateCandidate sample_rotation = None"
proof -
  have "TrimSpace ''bids'' \<in> set workloadOwners" "validScope (cc_Scope sample_rotation)" "\<not> blank ''hub''"
    "\<not> blank ''ops''" "\<not> blank ''rotation''"
    by code_simp+
  moreover have "''sha256:'' @ replicate 64 (CHR ''a'') \<noteq> ''sha256:'' @ replicate 64 (CHR ''b'')"
    by (simp add: numeral_eq_Suc)
  ultimately show ?thesis
    using sample_hash [of "CHR ''a''"] sample_hash [of "CHR ''b''"]
    by (simp add: validateCreateCandidate_None sample_rotation_def is_hex_def)
qed

lemma sample_created:
  obtains r w where "rotation_exec (Some AppendRotation) 5 (OpCreate sample_rotation) sample_start = (Inr r, w)"
    "rw_values w ''bids'' = Some r" "pr_NewState r = WorkloadPrincipalCandidate" "pr_OldState r = WorkloadPrincipalActive"
    "rotation_reach (Some AppendRotation) \<lparr>ma_entries = [], ma_err = None\<rparr> w"
proof -
  obtain r w where x: "rotation_exec (Some AppendRotation) 5 (OpCreate sample_rotation) sample_start = (Inr r, w)"
    and r: "r = \<lparr>pr_Owner = cc_Owner sample_rotation, pr_Scope = cc_Scope sample_rotation,
              pr_Audience = cc_Audience sample_rotation, pr_OldPrincipalHash = cc_OldPrincipalHash sample_rotation,
              pr_NewPrincipalHash = cc_NewPrincipalHash sample_rotation, pr_OldState = WorkloadPrincipalActive,
              pr_NewState = WorkloadPrincipalCandidate, pr_DualAccepted = False, pr_InFlight = 0,
              pr_Revision = 1, pr_UpdatedAt = 5\<rparr>"
    by (simp add: CreateCandidate_Inr sample_valid AppendRotation_def sample_start_def)
  have "rotation_reach (Some AppendRotation) \<lparr>ma_entries = [], ma_err = None\<rparr> w"
    using rotation_reach.step [OF rotation_reach.start x [unfolded sample_start_def]] .
  with that x r rotation_exec_Inr [OF x] show thesis
    by (simp add: sample_rotation_def)
qed

theorem rotation_states_witness:
  "\<exists>w r. rw_values (w :: MemoryRotationAudit rotation_world) ''bids'' = Some r \<and> validPrincipalHash (pr_NewPrincipalHash r)
     \<and> pr_NewState r = WorkloadPrincipalCandidate"
proof -
  obtain r w where "rw_values w ''bids'' = Some r" "pr_NewState r = WorkloadPrincipalCandidate"
    "rotation_reach (Some AppendRotation) \<lparr>ma_entries = [], ma_err = None\<rparr> w"
    using sample_created by metis
  with rotation_states [of "Some AppendRotation" "\<lparr>ma_entries = [], ma_err = None\<rparr>" w "''bids''" r]
  show ?thesis by blast
qed

text \<open>
  C31: every call simulates the abstract machine of its owner. A call that succeeds makes one
  of its steps, from the phase of the rotation that was stored to the phase of the one it
  stores and returns; a call that fails leaves every rotation as it was, even when the audit
  writer did not.
\<close>

theorem rotation_refines:
  assumes "rotation_reach audit a0 w"
  shows "case rotation_exec audit now op w of
      (Inr r, w') \<Rightarrow> phase_step (phase_of (rw_values w (op_owner op))) op (phase_of (Some r))
         \<and> rw_values w' = (rw_values w)(op_owner op \<mapsto> r)
    | (Inl e, w') \<Rightarrow> rw_values w' = rw_values w"
proof (cases "rotation_exec audit now op w")
  case (Pair res w')
  then show ?thesis
    using rotation_exec_phase [OF rotations_ok_reach [OF assms]] rotation_exec_Inr rotation_exec_Inl
    by (cases res) (auto split: sum.splits)
qed

theorem rotation_refines_witness:
  "\<exists>r. fst (rotation_exec (Some AppendRotation) 5 (OpCreate sample_rotation) sample_start) = Inr r
     \<and> phase_step Absent (OpCreate sample_rotation) (phase_of (Some r))"
proof -
  obtain r w where x: "rotation_exec (Some AppendRotation) 5 (OpCreate sample_rotation) sample_start = (Inr r, w)"
    using sample_created by metis
  have "rotation_reach (Some AppendRotation) \<lparr>ma_entries = [], ma_err = None\<rparr> sample_start"
    unfolding sample_start_def by (rule rotation_reach.start)
  from rotation_refines [OF this, where now = 5 and op = "OpCreate sample_rotation"] x show ?thesis
    by (simp add: sample_start_def)
qed

text \<open>
  with the audit writer in memory, whatever calls were made and failed, an owner has a
  stored rotation exactly when it has an audit entry, and its last entry carries the
  principals and the states the rotation is in. No change of state escapes the audit.
\<close>

theorem rotation_audited:
  assumes "rotation_reach (Some AppendRotation) \<lparr>ma_entries = [], ma_err = err\<rparr> w"
  shows "case rw_values w owner of
      None \<Rightarrow> filter (\<lambda>e. ra_Owner e = owner) (Entries (rw_audit w)) = []
    | Some r \<Rightarrow> \<exists>earlier entry. filter (\<lambda>e. ra_Owner e = owner) (Entries (rw_audit w)) = earlier @ [entry]
        \<and> ra_OldPrincipalHash entry = pr_OldPrincipalHash r \<and> ra_NewPrincipalHash entry = pr_NewPrincipalHash r
        \<and> (\<exists>action. ra_State entry = action @ '':'' @ state_string (pr_OldState r) @ '':'' @ state_string (pr_NewState r))"
proof -
  have "memory_audit.evidenced w"
    by (rule memory_audit.evidenced_reach [OF _ assms]) (simp add: Entries_def)
  then show ?thesis
    unfolding memory_audit.evidenced_def entries_of_def shows_rotation_def
    by (cases "rw_values w owner") (auto, metis append_butlast_last_id)
qed

theorem rotation_audited_witness:
  "\<exists>w r entry. rw_values (w :: MemoryRotationAudit rotation_world) ''bids'' = Some r \<and> last (Entries (rw_audit w)) = entry
     \<and> ra_NewPrincipalHash entry = pr_NewPrincipalHash r"
proof -
  obtain r w where x: "rotation_exec (Some AppendRotation) 5 (OpCreate sample_rotation) sample_start = (Inr r, w)"
    and v: "rw_values w ''bids'' = Some r"
    and reach: "rotation_reach (Some AppendRotation) \<lparr>ma_entries = [], ma_err = None\<rparr> w"
    using sample_created by metis
  from rotation_audited [OF reach, of "''bids''"] v obtain earlier entry where
    f: "filter (\<lambda>e. ra_Owner e = ''bids'') (Entries (rw_audit w)) = earlier @ [entry]"
    and h: "ra_NewPrincipalHash entry = pr_NewPrincipalHash r" by auto
  from x have "length (Entries (rw_audit w)) = 1"
    by (auto simp: CreateCandidate_Inr AppendRotation_def sample_start_def Entries_def)
  then obtain e where "Entries (rw_audit w) = [e]" by (auto simp: length_Suc_conv)
  with f have "last (Entries (rw_audit w)) = entry" by (cases earlier) (auto split: if_splits)
  with v h show ?thesis by blast
qed

text \<open>What \<open>HashPrincipal\<close> makes is always accepted as a principal hash.\<close>

theorem HashPrincipal_valid: "validPrincipalHash (HashPrincipal issuer subject)"
proof -
  let ?s = "TrimSpace issuer @ [CHR 0x00] @ TrimSpace subject"
  have "HasPrefix (''sha256:'' @ sha256_hex ?s) ''sha256:''" by (auto simp only: HasPrefix_iff)
  moreover have "TrimSpace (''sha256:'' @ sha256_hex ?s) = ''sha256:'' @ sha256_hex ?s"
    using TrimSpace_sha256_ref [of ?s] by (simp only: sha256_ref_def)
  moreover have "hex_decodes (sha256_hex ?s)" by (simp add: sha256_hex_def)
  moreover have "length (''sha256:'' @ sha256_hex ?s) = length ''sha256:'' + 64" by (simp only: length_append length_sha256_hex)
  ultimately show ?thesis
    unfolding validPrincipalHash_def HashPrincipal_def sha256_ref_def Let_def
    by (simp only: TrimPrefix_append) simp
qed

end
