(* ===== verification/GoMap.thy ===== *)
theory GoMap
  imports GoPrelude
begin

text \<open>
  A Go map with string keys, where the program ranges over it, sorts its keys or writes it
  out: the association list of its entries in increasing order of the keys. Go leaves the
  order of \<open>range\<close> open; what the program computes from one either sorts or does not depend on
  it, which the lemmas of the components show where it matters. A map that is only looked up
  and updated is a function \<open>k \<rightharpoonup> v\<close> in the components.
\<close>

fun map_set :: "string \<Rightarrow> 'a \<Rightarrow> (string \<times> 'a) list \<Rightarrow> (string \<times> 'a) list" where
  "map_set k v [] = [(k, v)]"
| "map_set k v ((k', v') # kvs) =
     (if k < k' then (k, v) # (k', v') # kvs
      else if k = k' then (k, v) # kvs
      else (k', v') # map_set k v kvs)"

definition to_map :: "(string \<times> 'a) list \<Rightarrow> (string \<times> 'a) list" where
  "to_map kvs = fold (\<lambda>(k, v). map_set k v) kvs []"

text \<open>The keys of such a list increase strictly.\<close>

definition go_map :: "(string \<times> 'a) list \<Rightarrow> bool" where
  "go_map kvs = sorted_wrt (<) (map fst kvs)"

lemma go_map_Nil [simp]: "go_map []"
  by (simp add: go_map_def)

lemma go_map_Cons: "go_map ((k, v) # kvs) \<longleftrightarrow> (\<forall>k' \<in> fst ` set kvs. k < k') \<and> go_map kvs"
  by (auto simp: go_map_def)

lemma fst_set_map_set [simp]: "fst ` set (map_set k v kvs) = insert k (fst ` set kvs)"
  by (induction k v kvs rule: map_set.induct) auto

lemma set_map_set: "x \<in> set (map_set k v kvs) \<Longrightarrow> x = (k, v) \<or> x \<in> set kvs"
  by (induction k v kvs rule: map_set.induct) (auto split: if_splits)

lemma go_map_map_set [simp]: "go_map kvs \<Longrightarrow> go_map (map_set k v kvs)"
  by (induction k v kvs rule: map_set.induct) (auto simp: go_map_Cons)

lemma go_map_distinct: "go_map kvs \<Longrightarrow> distinct (map fst kvs)"
  by (auto simp: go_map_def strict_sorted_iff)

lemma map_of_map_set [simp]: "go_map kvs \<Longrightarrow> map_of (map_set k v kvs) = (map_of kvs)(k \<mapsto> v)"
proof (induction k v kvs rule: map_set.induct)
  case (2 k v k' v' kvs)
  then show ?case by (auto simp: go_map_Cons fun_upd_twist)
qed simp

lemma go_map_to_map [simp]: "go_map (to_map kvs)"
proof -
  have "go_map m \<Longrightarrow> go_map (fold (\<lambda>(k, v). map_set k v) kvs m)" for m :: "(string \<times> 'a) list"
    by (induction kvs arbitrary: m) auto
  then show ?thesis by (simp add: to_map_def)
qed

text \<open>Appending a larger key, which is what building a map from sorted entries does.\<close>

lemma map_set_append: "\<forall>k' \<in> fst ` set kvs. k' < k \<Longrightarrow> map_set k v kvs = kvs @ [(k, v)]"
  by (induction kvs) auto

lemma go_map_append:
  "go_map (xs @ ys) \<longleftrightarrow> go_map xs \<and> go_map ys \<and> (\<forall>k \<in> fst ` set xs. \<forall>k' \<in> fst ` set ys. k < k')"
  by (auto simp: go_map_def sorted_wrt_append)

lemma fold_map_set_sorted:
  "go_map (m @ kvs) \<Longrightarrow> fold (\<lambda>(k, v). map_set k v) kvs m = m @ kvs"
proof (induction kvs arbitrary: m)
  case (Cons kv kvs)
  obtain k v where kv: "kv = (k, v)" by (cases kv)
  from Cons.prems have "\<forall>k' \<in> fst ` set m. k' < k" by (auto simp: kv go_map_append go_map_Cons)
  then have "map_set k v m = m @ [kv]" by (simp add: kv map_set_append)
  with Cons show ?case by (simp add: kv)
qed simp

lemma to_map_go_map [simp]: "go_map kvs \<Longrightarrow> to_map kvs = kvs"
  by (simp add: to_map_def fold_map_set_sorted)

text \<open>Two sorted lists with the same entries are the same list.\<close>

lemma map_of_entries: "distinct (map fst xs) \<Longrightarrow> map (\<lambda>k. (k, the (map_of xs k))) (map fst xs) = xs"
  by (auto simp: comp_def intro!: map_idI)

lemma go_map_unique: "go_map xs \<Longrightarrow> go_map ys \<Longrightarrow> map_of xs = map_of ys \<Longrightarrow> xs = ys"
proof -
  assume g: "go_map xs" "go_map ys" and m: "map_of xs = map_of ys"
  have "set (map fst xs) = set (map fst ys)"
    using m by (metis dom_map_of_conv_image_fst list.set_map)
  then have "map fst xs = map fst ys"
    using g unfolding go_map_def by (metis strict_sorted_equal)
  then show "xs = ys"
    using g m by (metis go_map_distinct map_of_entries)
qed

end
