(* ===== verification/Json.thy ===== *)
theory Json
  imports GoMap
begin

text \<open>
  JSON as the server reads and writes it: \<open>unicode/utf8.Valid\<close>, the decoder of
  \<open>encoding/json\<close> with \<open>UseNumber\<close> (a number keeps its text), and \<open>json.Marshal\<close> of a decoded
  value. \<open>parse_value\<close> gives the members of an object in the order and with the repetitions
  of the text, since the two users of it differ there: \<open>schema/canonical.go\<close> rejects a
  repeated key and a decode into a Go map keeps the last one.

  The functions recurse on what is left of the input; a guard \<open>length r < length s\<close> makes that
  plain where the rest comes out of another call, and \<open>parse_value_shorter\<close> shows that the
  guard always holds.
\<close>

section \<open>UTF-8\<close>

definition byte_in :: "nat \<Rightarrow> nat \<Rightarrow> char \<Rightarrow> bool" where
  "byte_in lo hi c = (lo \<le> of_char c \<and> of_char c \<le> hi)"

text \<open>The number of bytes of the code point a string starts with, 0 when there is none.\<close>

fun rune_len :: "string \<Rightarrow> nat" where
  "rune_len (a # b # c # d # _) =
     (if byte_in 0x00 0x7F a then 1
      else if byte_in 0xC2 0xDF a \<and> byte_in 0x80 0xBF b then 2
      else if (byte_in 0xE0 0xE0 a \<and> byte_in 0xA0 0xBF b
               \<or> (byte_in 0xE1 0xEC a \<or> byte_in 0xEE 0xEF a) \<and> byte_in 0x80 0xBF b
               \<or> byte_in 0xED 0xED a \<and> byte_in 0x80 0x9F b) \<and> byte_in 0x80 0xBF c then 3
      else if (byte_in 0xF0 0xF0 a \<and> byte_in 0x90 0xBF b
               \<or> byte_in 0xF1 0xF3 a \<and> byte_in 0x80 0xBF b
               \<or> byte_in 0xF4 0xF4 a \<and> byte_in 0x80 0x8F b) \<and> byte_in 0x80 0xBF c \<and> byte_in 0x80 0xBF d then 4
      else 0)"
| "rune_len [a, b, c] =
     (if byte_in 0x00 0x7F a then 1
      else if byte_in 0xC2 0xDF a \<and> byte_in 0x80 0xBF b then 2
      else if (byte_in 0xE0 0xE0 a \<and> byte_in 0xA0 0xBF b
               \<or> (byte_in 0xE1 0xEC a \<or> byte_in 0xEE 0xEF a) \<and> byte_in 0x80 0xBF b
               \<or> byte_in 0xED 0xED a \<and> byte_in 0x80 0x9F b) \<and> byte_in 0x80 0xBF c then 3
      else 0)"
| "rune_len [a, b] =
     (if byte_in 0x00 0x7F a then 1
      else if byte_in 0xC2 0xDF a \<and> byte_in 0x80 0xBF b then 2
      else 0)"
| "rune_len [a] = (if byte_in 0x00 0x7F a then 1 else 0)"
| "rune_len [] = 0"

declare rune_len.simps [simp del]

function utf8_valid :: "string \<Rightarrow> bool" where
  "utf8_valid [] = True"
| "utf8_valid (c # cs) = (rune_len (c # cs) \<noteq> 0 \<and> utf8_valid (drop (rune_len (c # cs) - 1) cs))"
  by pat_completeness auto
termination
  by (relation "measure length") auto

text \<open>The bytes of a code point (\<open>utf8.EncodeRune\<close>).\<close>

definition utf8_encode :: "nat \<Rightarrow> string" where
  "utf8_encode n =
     (if n < 0x80 then [char_of n]
      else if n < 0x800 then [char_of (0xC0 + n div 64), char_of (0x80 + n mod 64)]
      else if n < 0x10000
        then [char_of (0xE0 + n div 4096), char_of (0x80 + n div 64 mod 64), char_of (0x80 + n mod 64)]
      else [char_of (0xF0 + n div 262144), char_of (0x80 + n div 4096 mod 64),
            char_of (0x80 + n div 64 mod 64), char_of (0x80 + n mod 64)])"

section \<open>Values and the decoder\<close>

datatype json =
    JNull
  | JBool bool
  | JNumber string
  | JString string
  | JArray "json list"
  | JObject "(string \<times> json) list"

definition is_json_space :: "char \<Rightarrow> bool" where
  "is_json_space c = (c \<in> {CHR '' '', CHR 0x09, CHR 0x0A, CHR 0x0D})"

definition skip_space :: "string \<Rightarrow> string" where
  "skip_space s = dropWhile is_json_space s"

definition is_digit :: "char \<Rightarrow> bool" where
  "is_digit c = byte_in 48 57 c"

definition hex_value :: "char \<Rightarrow> nat option" where
  "hex_value c =
     (if byte_in 48 57 c then Some (of_char c - 48)
      else if byte_in 97 102 c then Some (of_char c - 87)
      else if byte_in 65 70 c then Some (of_char c - 55)
      else None)"

definition hex4 :: "string \<Rightarrow> nat option" where
  "hex4 s =
     (case s of
        [a, b, c, d] \<Rightarrow>
          (case (hex_value a, hex_value b, hex_value c, hex_value d) of
             (Some w, Some x, Some y, Some z) \<Rightarrow> Some (((w * 16 + x) * 16 + y) * 16 + z)
           | _ \<Rightarrow> None)
      | _ \<Rightarrow> None)"

text \<open>The second half of a surrogate pair, \<open>\uDC00\<close> to \<open>\uDFFF\<close>, at the head of a string.\<close>

definition low_surrogate :: "string \<Rightarrow> nat option" where
  "low_surrogate s =
     (case strip_prefix [CHR 0x5C, CHR ''u''] s of
        None \<Rightarrow> None
      | Some r \<Rightarrow> (case hex4 (take 4 r) of
            Some n \<Rightarrow> if 0xDC00 \<le> n \<and> n < 0xE000 then Some n else None
          | None \<Rightarrow> None))"

definition simple_escape :: "char \<Rightarrow> char option" where
  "simple_escape c =
     (if c \<in> {CHR 0x22, CHR 0x5C, CHR ''/''} then Some c
      else if c = CHR ''b'' then Some (CHR 0x08) else if c = CHR ''f'' then Some (CHR 0x0C)
      else if c = CHR ''n'' then Some (CHR 0x0A) else if c = CHR ''r'' then Some (CHR 0x0D)
      else if c = CHR ''t'' then Some (CHR 0x09) else None)"

definition prepend :: "string \<Rightarrow> (string \<times> string) option \<Rightarrow> (string \<times> string) option" where
  "prepend p r = map_option (\<lambda>(s, rest). (p @ s, rest)) r"

text \<open>The text of a string after its opening quote; the result has what follows the closing one.\<close>

function parse_string :: "string \<Rightarrow> (string \<times> string) option" where
  "parse_string [] = None"
| "parse_string (c # r) =
     (if c = CHR 0x22 then Some ([], r)
      else if c = CHR 0x5C then
        (case r of
           [] \<Rightarrow> None
         | e # r' \<Rightarrow>
             if e = CHR ''u'' then
               (case hex4 (take 4 r') of
                  None \<Rightarrow> None
                | Some n \<Rightarrow>
                    if 0xD800 \<le> n \<and> n < 0xE000 then
                      (case low_surrogate (drop 4 r') of
                         Some m \<Rightarrow>
                           if n < 0xDC00
                           then prepend (utf8_encode ((n - 0xD800) * 1024 + (m - 0xDC00) + 0x10000))
                                  (parse_string (drop 10 r'))
                           else prepend (utf8_encode 0xFFFD) (parse_string (drop 4 r'))
                       | None \<Rightarrow> prepend (utf8_encode 0xFFFD) (parse_string (drop 4 r')))
                    else prepend (utf8_encode n) (parse_string (drop 4 r')))
             else (case simple_escape e of
                None \<Rightarrow> None
              | Some x \<Rightarrow> prepend [x] (parse_string r')))
      else if byte_in 0 31 c then None
      else prepend [c] (parse_string r))"
  by pat_completeness auto
termination
  by (relation "measure length") auto

declare parse_string.simps [simp del]

text \<open>A number: sign, integer part, fraction, exponent. A part that is absent is empty.\<close>

definition scan_int :: "string \<Rightarrow> (string \<times> string) option" where
  "scan_int s =
     (case s of
        [] \<Rightarrow> None
      | c # r \<Rightarrow>
          if c = CHR ''0'' then Some ([c], r)
          else if is_digit c then Some (takeWhile is_digit s, dropWhile is_digit s)
          else None)"

definition scan_frac :: "string \<Rightarrow> (string \<times> string) option" where
  "scan_frac s =
     (case s of
        c # r \<Rightarrow>
          if c = CHR ''.'' then
            (if takeWhile is_digit r = [] then None else Some (c # takeWhile is_digit r, dropWhile is_digit r))
          else Some ([], s)
      | [] \<Rightarrow> Some ([], []))"

definition scan_exp :: "string \<Rightarrow> (string \<times> string) option" where
  "scan_exp s =
     (case s of
        c # r \<Rightarrow>
          if c = CHR ''e'' \<or> c = CHR ''E'' then
            (let (sign, ds) = (case r of
                 d # r' \<Rightarrow> if d = CHR ''+'' \<or> d = CHR ''-'' then ([d], r') else ([], r)
               | [] \<Rightarrow> ([], []))
             in if takeWhile is_digit ds = [] then None
                else Some (c # sign @ takeWhile is_digit ds, dropWhile is_digit ds))
          else Some ([], s)
      | [] \<Rightarrow> Some ([], []))"

definition parse_number :: "string \<Rightarrow> (string \<times> string) option" where
  "parse_number s =
     (let (sign, s1) = (case s of c # r \<Rightarrow> if c = CHR ''-'' then ([c], r) else ([], s) | [] \<Rightarrow> ([], []))
      in case scan_int s1 of
           None \<Rightarrow> None
         | Some (i, s2) \<Rightarrow>
             (case scan_frac s2 of
                None \<Rightarrow> None
              | Some (f, s3) \<Rightarrow>
                  (case scan_exp s3 of
                     None \<Rightarrow> None
                   | Some (e, s4) \<Rightarrow> Some (sign @ i @ f @ e, s4))))"

text \<open>
  A value; the elements of an array after its bracket and the members of an object after its
  brace, \<open>first\<close> telling whether a closing bracket may stand here.
\<close>

function parse_value :: "string \<Rightarrow> (json \<times> string) option"
  and parse_elems :: "bool \<Rightarrow> string \<Rightarrow> (json list \<times> string) option"
  and parse_members :: "bool \<Rightarrow> string \<Rightarrow> ((string \<times> json) list \<times> string) option" where
  "parse_value s0 =
     (case skip_space s0 of
        [] \<Rightarrow> None
      | c # r \<Rightarrow>
          if length (c # r) \<le> length s0 then
            (if c = CHR ''{'' then map_option (\<lambda>(kvs, t). (JObject kvs, t)) (parse_members True r)
             else if c = CHR ''['' then map_option (\<lambda>(vs, t). (JArray vs, t)) (parse_elems True r)
             else if c = CHR 0x22 then map_option (\<lambda>(s, t). (JString s, t)) (parse_string r)
             else if c = CHR ''-'' \<or> is_digit c
               then map_option (\<lambda>(s, t). (JNumber s, t)) (parse_number (c # r))
             else (case strip_prefix ''true'' (c # r) of
                 Some t \<Rightarrow> Some (JBool True, t)
               | None \<Rightarrow> (case strip_prefix ''false'' (c # r) of
                     Some t \<Rightarrow> Some (JBool False, t)
                   | None \<Rightarrow> map_option (\<lambda>t. (JNull, t)) (strip_prefix ''null'' (c # r)))))
          else None)"
| "parse_elems first s0 =
     (case skip_space s0 of
        [] \<Rightarrow> None
      | c # r \<Rightarrow>
          if first \<and> c = CHR '']'' then Some ([], r)
          else (case parse_value s0 of
              None \<Rightarrow> None
            | Some (v, s1) \<Rightarrow>
                (case skip_space s1 of
                   [] \<Rightarrow> None
                 | d # s2 \<Rightarrow>
                     if d = CHR '']'' then Some ([v], s2)
                     else if d = CHR '','' \<and> length s2 < length s0
                       then map_option (\<lambda>(vs, t). (v # vs, t)) (parse_elems False s2)
                     else None)))"
| "parse_members first s0 =
     (case skip_space s0 of
        [] \<Rightarrow> None
      | c # r \<Rightarrow>
          if first \<and> c = CHR ''}'' then Some ([], r)
          else if c = CHR 0x22 then
            (case parse_string r of
               None \<Rightarrow> None
             | Some (k, s1) \<Rightarrow>
                 (case skip_space s1 of
                    [] \<Rightarrow> None
                  | d # s2 \<Rightarrow>
                      if d = CHR '':'' \<and> length s2 < length s0 then
                        (case parse_value s2 of
                           None \<Rightarrow> None
                         | Some (v, s3) \<Rightarrow>
                             (case skip_space s3 of
                                [] \<Rightarrow> None
                              | e # s4 \<Rightarrow>
                                  if e = CHR ''}'' then Some ([(k, v)], s4)
                                  else if e = CHR '','' \<and> length s4 < length s0
                                    then map_option (\<lambda>(kvs, t). ((k, v) # kvs, t)) (parse_members False s4)
                                  else None))
                      else None))
          else None)"
  by pat_completeness auto
termination
  by (relation "measure (\<lambda>x. case x of
        Inl s \<Rightarrow> 2 * length s
      | Inr (Inl (_, s)) \<Rightarrow> 2 * length s + 1
      | Inr (Inr (_, s)) \<Rightarrow> 2 * length s + 1)") auto

declare parse_value.simps [simp del] parse_elems.simps [simp del] parse_members.simps [simp del]

text \<open>A text that is one value, with white space around it.\<close>

definition parse_json :: "string \<Rightarrow> json option" where
  "parse_json s =
     (case parse_value s of
        None \<Rightarrow> None
      | Some (v, r) \<Rightarrow> if skip_space r = [] then Some v else None)"

text \<open>The nesting of a value; the decoder's scanner gives up above 10000.\<close>

fun json_depth :: "json \<Rightarrow> nat" where
  "json_depth (JArray vs) = Suc (fold max (map json_depth vs) 0)"
| "json_depth (JObject kvs) = Suc (fold max (map (\<lambda>kv. json_depth (snd kv)) kvs) 0)"
| "json_depth _ = 0"

section \<open>Go maps and \<open>json.Marshal\<close>\<close>

text \<open>A decode into \<open>any\<close>: objects become Go maps, where the last of two equal keys wins.\<close>

fun json_to_any :: "json \<Rightarrow> json" where
  "json_to_any (JArray vs) = JArray (map json_to_any vs)"
| "json_to_any (JObject kvs) = JObject (to_map (map (\<lambda>kv. (fst kv, json_to_any (snd kv))) kvs))"
| "json_to_any v = v"

text \<open>Decoding into \<open>map[string]json.RawMessage\<close> and finding the end of the input after it.\<close>

definition is_one_object :: "string \<Rightarrow> bool" where
  "is_one_object s =
     (case parse_json s of
        Some (JObject kvs) \<Rightarrow> json_depth (JObject kvs) \<le> 10000
      | _ \<Rightarrow> False)"

text \<open>
  A string as \<open>json.Marshal\<close> writes it: besides the quote, the backslash and the control
  characters it escapes the three characters of HTML and the code points U+2028 and U+2029.
\<close>

definition marshal_hex :: "nat \<Rightarrow> char" where
  "marshal_hex n = ''0123456789abcdef'' ! n"

definition u_escape :: "char \<Rightarrow> string" where
  "u_escape c = [CHR 0x5C] @ ''u00'' @ [marshal_hex (of_char c div 16), marshal_hex (of_char c mod 16)]"

definition marshal_char :: "char \<Rightarrow> string" where
  "marshal_char c =
     (if c = CHR 0x22 \<or> c = CHR 0x5C then [CHR 0x5C, c]
      else if c = CHR 0x08 then [CHR 0x5C, CHR ''b''] else if c = CHR 0x0C then [CHR 0x5C, CHR ''f'']
      else if c = CHR 0x0A then [CHR 0x5C, CHR ''n''] else if c = CHR 0x0D then [CHR 0x5C, CHR ''r'']
      else if c = CHR 0x09 then [CHR 0x5C, CHR ''t'']
      else if byte_in 0 31 c \<or> c \<in> {CHR ''<'', CHR ''>'', CHR ''&''} then u_escape c
      else [c])"

text \<open>A byte that starts no code point is written as the escape of U+FFFD.\<close>

function marshal_body :: "string \<Rightarrow> string" where
  "marshal_body [] = []"
| "marshal_body (c # cs) =
     (let n = rune_len (c # cs) in
      if n = 0 then [CHR 0x5C] @ ''ufffd'' @ marshal_body cs
      else if n = 1 then marshal_char c @ marshal_body cs
      else (let rune = take n (c # cs) in
            if rune = [CHR 0xE2, CHR 0x80, CHR 0xA8] then [CHR 0x5C] @ ''u2028''
            else if rune = [CHR 0xE2, CHR 0x80, CHR 0xA9] then [CHR 0x5C] @ ''u2029''
            else rune) @ marshal_body (drop (n - 1) cs))"
  by pat_completeness auto
termination
  by (relation "measure length") auto

declare marshal_body.simps [simp del]

fun marshal :: "json \<Rightarrow> string" where
  "marshal JNull = ''null''"
| "marshal (JBool b) = (if b then ''true'' else ''false'')"
| "marshal (JNumber n) = n"
| "marshal (JString s) = [CHR 0x22] @ marshal_body s @ [CHR 0x22]"
| "marshal (JArray vs) = ''['' @ JoinWith '','' (map marshal vs) @ '']''"
| "marshal (JObject kvs) =
     ''{'' @ JoinWith '','' (map (\<lambda>kv. [CHR 0x22] @ marshal_body (fst kv) @ [CHR 0x22] @ '':'' @ marshal (snd kv)) kvs)
     @ ''}''"

end
