(* ===== verification/Canonical.thy ===== *)
theory Canonical
  imports Json Sha256
begin

text \<open>
  \<open>schema/canonical.go\<close>: the canonical form of a JSON text, over which schema, document and
  request hashes are computed. \<open>decodeCanonicalValue\<close> reads the value token by token into Go
  maps and slices and rejects a repeated key; \<open>writeCanonicalValue\<close> writes keys in byte
  order, numbers in a plain decimal form and strings with the escapes JSON requires.
\<close>

definition canonicalErr :: "string \<Rightarrow> goerr" where
  "canonicalErr m = Wrap m (SchemaErr ErrCanonicalJSON)"

section \<open>Decoding\<close>

text \<open>The object is built by setting its members in turn; a key already present is an error.\<close>

fun decodeCanonicalValue :: "json \<Rightarrow> goerr + json"
  and decode_elems :: "json list \<Rightarrow> goerr + json list"
  and decode_members :: "(string \<times> json) list \<Rightarrow> (string \<times> json) list \<Rightarrow> goerr + (string \<times> json) list" where
  "decodeCanonicalValue (JArray vs) =
     (case decode_elems vs of Inl e \<Rightarrow> Inl e | Inr xs \<Rightarrow> Inr (JArray xs))"
| "decodeCanonicalValue (JObject kvs) =
     (case decode_members [] kvs of Inl e \<Rightarrow> Inl e | Inr m \<Rightarrow> Inr (JObject m))"
| "decodeCanonicalValue v = Inr v"
| "decode_elems [] = Inr []"
| "decode_elems (v # vs) =
     (case decodeCanonicalValue v of
        Inl e \<Rightarrow> Inl e
      | Inr x \<Rightarrow> (case decode_elems vs of Inl e \<Rightarrow> Inl e | Inr xs \<Rightarrow> Inr (x # xs)))"
| "decode_members object [] = Inr object"
| "decode_members object ((k, v) # kvs) =
     (if k \<in> fst ` set object then Inl (Anon ''duplicate object key'')
      else case decodeCanonicalValue v of
        Inl e \<Rightarrow> Inl e
      | Inr x \<Rightarrow> decode_members (map_set k x object) kvs)"

section \<open>Numbers\<close>

text \<open>\<open>strconv.Atoi\<close> of an exponent: an optional sign and digits.\<close>

definition digit_val :: "char \<Rightarrow> nat" where
  "digit_val c = of_char c - 48"

definition dec_value :: "string \<Rightarrow> nat" where
  "dec_value ds = foldl (\<lambda>n c. n * 10 + digit_val c) 0 ds"

definition Atoi :: "string \<Rightarrow> int option" where
  "Atoi s =
     (let (neg, ds) = (case s of
          c # r \<Rightarrow> if c = CHR ''-'' then (True, r) else if c = CHR ''+'' then (False, r) else (False, s)
        | [] \<Rightarrow> (False, []))
      in if ds = [] \<or> \<not> list_all is_digit ds then None
         else let n = (if neg then - int (dec_value ds) else int (dec_value ds))
         in if - (2 ^ 63) \<le> n \<and> n < 2 ^ 63 then Some n else None)"

text \<open>The loop that drops trailing zeros of the fraction, on the digits in reverse order.\<close>

fun drop_zeros :: "int \<Rightarrow> string \<Rightarrow> int \<times> string" where
  "drop_zeros scale [] = (scale, [])"
| "drop_zeros scale (c # cs) =
     (if 0 < scale \<and> c = CHR ''0'' then drop_zeros (scale - 1) cs else (scale, c # cs))"

definition place_point :: "int \<Rightarrow> string \<Rightarrow> string" where
  "place_point scale digits =
     (if scale \<le> 0 then digits @ replicate (nat (- scale)) (CHR ''0'')
      else if scale < int (length digits)
        then take (length digits - nat scale) digits @ ''.'' @ drop (length digits - nat scale) digits
      else ''0.'' @ replicate (nat scale - length digits) (CHR ''0'') @ digits)"

definition exponent_split :: "string \<Rightarrow> (goerr + (string \<times> int))" where
  "exponent_split value =
     (let mantissa = takeWhile (\<lambda>c. c \<noteq> CHR ''e'' \<and> c \<noteq> CHR ''E'') value;
          rest = dropWhile (\<lambda>c. c \<noteq> CHR ''e'' \<and> c \<noteq> CHR ''E'') value
      in case rest of
           [] \<Rightarrow> Inr (value, 0)
         | _ # e \<Rightarrow>
             (case Atoi e of
                None \<Rightarrow> Inl (Anon ''invalid number exponent'')
              | Some parsed \<Rightarrow>
                  if parsed > 10000 \<or> parsed < -10000
                  then Inl (Anon ''number exponent exceeds canonicalization limit'')
                  else Inr (mantissa, parsed)))"

definition normalizeJSONNumber :: "string \<Rightarrow> goerr + string" where
  "normalizeJSONNumber number =
     (let negative = HasPrefix number ''-'';
          value = (if negative then drop 1 number else number)
      in case exponent_split value of
           Inl e \<Rightarrow> Inl e
         | Inr (mantissa, exponent) \<Rightarrow>
             (let before = takeWhile (\<lambda>c. c \<noteq> CHR ''.'') mantissa;
                  after = drop 1 (dropWhile (\<lambda>c. c \<noteq> CHR ''.'') mantissa);
                  digits = dropWhile (\<lambda>c. c = CHR ''0'') (before @ after)
              in if digits = [] then Inr ''0''
                 else let (scale, rdigits) = drop_zeros (int (length after) - exponent) (rev digits);
                          plain = place_point scale (rev rdigits)
                      in Inr (if negative then ''-'' @ plain else plain)))"

section \<open>Writing\<close>

definition write_char :: "char \<Rightarrow> string" where
  "write_char c =
     (if c = CHR 0x22 \<or> c = CHR 0x5C then [CHR 0x5C, c]
      else if c = CHR 0x08 then [CHR 0x5C, CHR ''b''] else if c = CHR 0x0C then [CHR 0x5C, CHR ''f'']
      else if c = CHR 0x0A then [CHR 0x5C, CHR ''n''] else if c = CHR 0x0D then [CHR 0x5C, CHR ''r'']
      else if c = CHR 0x09 then [CHR 0x5C, CHR ''t'']
      else if byte_in 0 31 c then u_escape c
      else [c])"

definition writeJSONString :: "string \<Rightarrow> string" where
  "writeJSONString value = [CHR 0x22] @ concat (map write_char value) @ [CHR 0x22]"

fun writeCanonicalValue :: "json \<Rightarrow> goerr + string"
  and write_items :: "json list \<Rightarrow> goerr + string list"
  and write_entries :: "(string \<times> json) list \<Rightarrow> goerr + string list" where
  "writeCanonicalValue JNull = Inr ''null''"
| "writeCanonicalValue (JBool b) = Inr (if b then ''true'' else ''false'')"
| "writeCanonicalValue (JString s) = Inr (writeJSONString s)"
| "writeCanonicalValue (JNumber n) = normalizeJSONNumber n"
| "writeCanonicalValue (JArray vs) =
     (case write_items vs of Inl e \<Rightarrow> Inl e | Inr ps \<Rightarrow> Inr (''['' @ JoinWith '','' ps @ '']''))"
| "writeCanonicalValue (JObject kvs) =
     (case write_entries kvs of Inl e \<Rightarrow> Inl e | Inr ps \<Rightarrow> Inr (''{'' @ JoinWith '','' ps @ ''}''))"
| "write_items [] = Inr []"
| "write_items (v # vs) =
     (case writeCanonicalValue v of
        Inl e \<Rightarrow> Inl e
      | Inr p \<Rightarrow> (case write_items vs of Inl e \<Rightarrow> Inl e | Inr ps \<Rightarrow> Inr (p # ps)))"
| "write_entries [] = Inr []"
| "write_entries ((k, v) # kvs) =
     (case writeCanonicalValue v of
        Inl e \<Rightarrow> Inl e
      | Inr p \<Rightarrow> (case write_entries kvs of Inl e \<Rightarrow> Inl e | Inr ps \<Rightarrow> Inr ((writeJSONString k @ '':'' @ p) # ps)))"

definition CanonicalizeJSON :: "string \<Rightarrow> goerr + string" where
  "CanonicalizeJSON raw =
     (if \<not> utf8_valid raw then Inl (canonicalErr ''invalid UTF-8'')
      else case parse_json raw of
        None \<Rightarrow> Inl (canonicalErr ''not one JSON value'')
      | Some parsed \<Rightarrow>
          (case decodeCanonicalValue parsed of
             Inl e \<Rightarrow> Inl (canonicalErr ''decode'')
           | Inr v \<Rightarrow>
               (case writeCanonicalValue v of
                  Inl e \<Rightarrow> Inl (canonicalErr ''write'')
                | Inr output \<Rightarrow> Inr output)))"

end
