(* ===== verification/AuditLog.thy ===== *)
theory AuditLog
  imports Identity
begin

text \<open>
  Package \<open>audit\<close>: the entry of a security-relevant fact and the writer on MongoDB, whose
  \<open>InsertOne\<close> is an argument. The writer has no operation that changes or removes an entry.
\<close>

record AuditEntry =
  ae_TenantID :: string
  ae_WorkspaceID :: string
  ae_Action :: string
  ae_Actor :: IdentityKey
  ae_ResourceType :: string
  ae_ResourceID :: string
  ae_ResourceVersion :: int
  ae_RequestID :: string
  ae_IdempotencyKey :: string
  ae_BeforeHash :: string
  ae_AfterHash :: string
  ae_ViewID :: string
  ae_FieldSet :: "string list"
  ae_RedactedFields :: "string list"
  ae_CreatedAt :: time

definition empty_AuditEntry :: AuditEntry where
  "empty_AuditEntry =
     \<lparr>ae_TenantID = [], ae_WorkspaceID = [], ae_Action = [], ae_Actor = \<lparr>ik_Issuer = [], ik_Subject = []\<rparr>,
      ae_ResourceType = [], ae_ResourceID = [], ae_ResourceVersion = 0, ae_RequestID = [],
      ae_IdempotencyKey = [], ae_BeforeHash = [], ae_AfterHash = [], ae_ViewID = [], ae_FieldSet = [],
      ae_RedactedFields = [], ae_CreatedAt = 0\<rparr>"

text \<open>The interface \<open>Writer\<close>.\<close>

type_synonym 'w AuditWriter = "AuditEntry \<Rightarrow> ('w, unit) go"

definition complete_entry :: "AuditEntry \<Rightarrow> bool" where
  "complete_entry entry \<longleftrightarrow>
     ae_TenantID entry \<noteq> [] \<and> ae_WorkspaceID entry \<noteq> [] \<and> ae_Action entry \<noteq> []
     \<and> ik_Issuer (ae_Actor entry) \<noteq> [] \<and> ik_Subject (ae_Actor entry) \<noteq> []
     \<and> ae_ResourceType entry \<noteq> [] \<and> ae_ResourceID entry \<noteq> [] \<and> \<not> IsZero (ae_CreatedAt entry)"

definition mongo_audit_Append :: "(AuditEntry \<Rightarrow> 'w \<Rightarrow> string option \<times> 'w) \<Rightarrow> 'w AuditWriter" where
  "mongo_audit_Append insertOne entry =
     (if \<not> complete_entry entry then fail (Anon ''incomplete audit entry'')
      else (\<lambda>w. case insertOne entry w of
              (None, w') \<Rightarrow> (Inr (), w')
            | (Some m, w') \<Rightarrow> (Inl (Wrap ''insert audit entry'' (External m)), w')))"

lemma mongo_audit_Append_Inr:
  "mongo_audit_Append insertOne entry w = (Inr u, w') \<longleftrightarrow>
     complete_entry entry \<and> insertOne entry w = (None, w')"
  by (auto simp: mongo_audit_Append_def go_success split: prod.splits option.splits)

end
