(* ===== verification/Binding.thy ===== *)
theory Binding
  imports AuditLog Canonical
begin

text \<open>
  Package \<open>binding\<close>: immutable snapshots of a record for a workflow. \<open>model.go\<close>: requests,
  record references, source records and snapshots with their validation; \<open>service.go\<close>: the
  exact-match machine policies, \<open>CreateSnapshot\<close> and \<open>GetSnapshot\<close>. The record reader, the
  snapshot store and the authorizers are interfaces: records of functions over the state
  \<open>'w\<close> they keep, \<open>None\<close> for a nil interface. The clock's reading is \<open>now\<close>, the generator of
  identifiers is \<open>newID\<close>.
\<close>

definition maxIdentifierLength :: nat where "maxIdentifierLength = 256"
definition maxPurposeLength :: nat where "maxPurposeLength = 128"
definition maxRecordRefLength :: nat where "maxRecordRefLength = 512"

section \<open>Record references\<close>

record RecordRef =
  rr_System :: string
  rr_Type :: string
  rr_ID :: string

definition RecordRef_String :: "RecordRef \<Rightarrow> string" where
  "RecordRef_String reference = JoinWith '':'' [rr_System reference, rr_Type reference, rr_ID reference]"

definition ref_part_ok :: "string \<Rightarrow> bool" where
  "ref_part_ok part = (\<not> blank part \<and> \<not> ContainsAny part [CHR '' '', CHR 0x09, CHR 0x0D, CHR 0x0A])"

definition ParseRecordRef :: "string \<Rightarrow> goerr + RecordRef" where
  "ParseRecordRef raw =
     (let parts = SplitOn (CHR '':'') (TrimSpace raw) in
      if length parts \<noteq> 3 then Inl (BindingErr ErrInvalidRecordReference)
      else if \<not> list_all ref_part_ok parts then Inl (BindingErr ErrInvalidRecordReference)
      else Inr \<lparr>rr_System = parts ! 0, rr_Type = parts ! 1, rr_ID = parts ! 2\<rparr>)"

section \<open>Requests and source records\<close>

record SnapshotRequest =
  sr_TenantID :: string
  sr_WorkspaceID :: string
  sr_RecordRef :: string
  sr_SchemaID :: string
  sr_SchemaVersion :: int
  sr_ExpectedRecordVersion :: int
  sr_ExpectedSourceVersion :: int
  sr_Purpose :: string
  sr_OperationID :: string

definition invalidSnapshotRequest :: "string \<Rightarrow> goerr" where
  "invalidSnapshotRequest m = Wrap m (BindingErr ErrInvalidSnapshotRequest)"

fun check_fields :: "(string \<times> string \<times> nat) list \<Rightarrow> goerr option" where
  "check_fields [] = None"
| "check_fields ((name, value, limit) # items) =
     (if length value > limit then Some (invalidSnapshotRequest (name @ '' is too long''))
      else if ContainsAny value [CHR 0x09, CHR 0x0D, CHR 0x0A]
        then Some (invalidSnapshotRequest (name @ '' contains control characters''))
      else check_fields items)"

definition snapshot_normalized :: "SnapshotRequest \<Rightarrow> goerr + SnapshotRequest" where
  "snapshot_normalized r0 =
     (let request = r0\<lparr>sr_TenantID := TrimSpace (sr_TenantID r0), sr_WorkspaceID := TrimSpace (sr_WorkspaceID r0),
            sr_RecordRef := TrimSpace (sr_RecordRef r0), sr_SchemaID := TrimSpace (sr_SchemaID r0),
            sr_Purpose := TrimSpace (sr_Purpose r0), sr_OperationID := TrimSpace (sr_OperationID r0)\<rparr>
      in if sr_TenantID request = [] \<or> sr_WorkspaceID request = [] \<or> sr_RecordRef request = []
           \<or> sr_SchemaID request = [] \<or> sr_Purpose request = []
         then Inl (invalidSnapshotRequest ''fields are required'')
         else if sr_OperationID request = [] then Inl (BindingErr binding_ErrIdempotencyKeyRequired)
         else case check_fields
             [(''tenantId'', sr_TenantID request, maxIdentifierLength),
              (''workspaceId'', sr_WorkspaceID request, maxIdentifierLength),
              (''schemaId'', sr_SchemaID request, maxIdentifierLength),
              (''purpose'', sr_Purpose request, maxPurposeLength),
              (''operationId'', sr_OperationID request, maxIdentifierLength)] of
           Some e \<Rightarrow> Inl e
         | None \<Rightarrow>
             if length (sr_Purpose request) > maxPurposeLength
             then Inl (invalidSnapshotRequest ''purpose is too long'')
             else if length (sr_RecordRef request) > maxRecordRefLength
             then Inl (invalidSnapshotRequest ''recordRef is too long'')
             else if sr_SchemaVersion request < 1 \<or> sr_ExpectedRecordVersion request < 1
               \<or> sr_ExpectedSourceVersion request < 0
             then Inl (invalidSnapshotRequest ''versions'')
             else (case ParseRecordRef (sr_RecordRef request) of
                 Inl e \<Rightarrow> Inl (invalidSnapshotRequest ''recordRef'')
               | Inr _ \<Rightarrow> Inr request))"

record SourceRecord =
  src_RecordRef :: string
  src_SchemaID :: string
  src_SchemaVersion :: int
  src_RecordVersion :: int
  src_SourceVersion :: int
  src_Data :: string

definition SourceRecord_Validate :: "SourceRecord \<Rightarrow> goerr option" where
  "SourceRecord_Validate r =
     (if blank (src_RecordRef r) \<or> blank (src_SchemaID r) \<or> src_SchemaVersion r < 1
         \<or> src_RecordVersion r < 1 \<or> src_SourceVersion r < 0 \<or> src_Data r = []
      then Some (Wrap ''source record identity'' (BindingErr binding_ErrRecordNotFound))
      else case ParseRecordRef (src_RecordRef r) of
        Inl e \<Rightarrow> Some e
      | Inr parsed \<Rightarrow>
          if RecordRef_String parsed \<noteq> src_RecordRef r then Some (BindingErr ErrInvalidRecordReference)
          else if \<not> is_one_object (src_Data r)
          then Some (Wrap ''source record data'' (BindingErr ErrInvalidSnapshot))
          else None)"

section \<open>Snapshots\<close>

record Snapshot =
  sn_SnapshotID :: string
  sn_TenantID :: string
  sn_WorkspaceID :: string
  sn_OperationID :: string
  sn_RecordRef :: string
  sn_SchemaID :: string
  sn_SchemaVersion :: int
  sn_RecordVersion :: int
  sn_SourceVersion :: int
  sn_Purpose :: string
  sn_SnapshotHash :: string
  sn_Data :: string
  sn_RequestHash :: string
  sn_CreatedAt :: time

definition Snapshot_Validate :: "Snapshot \<Rightarrow> goerr option" where
  "Snapshot_Validate s =
     (if blank (sn_SnapshotID s) \<or> blank (sn_TenantID s) \<or> blank (sn_WorkspaceID s) \<or> blank (sn_OperationID s)
         \<or> blank (sn_RecordRef s) \<or> blank (sn_SchemaID s) \<or> blank (sn_Purpose s) \<or> blank (sn_SnapshotHash s)
         \<or> blank (sn_RequestHash s) \<or> sn_SchemaVersion s < 1 \<or> sn_RecordVersion s < 1 \<or> sn_SourceVersion s < 0
         \<or> IsZero (sn_CreatedAt s) \<or> sn_Data s = []
      then Some (BindingErr ErrInvalidSnapshot)
      else case ParseRecordRef (sn_RecordRef s) of
        Inl e \<Rightarrow> Some e
      | Inr _ \<Rightarrow>
          if length (sn_Purpose s) > maxPurposeLength \<or> length (sn_OperationID s) > maxIdentifierLength
             \<or> length (sn_TenantID s) > maxIdentifierLength \<or> length (sn_WorkspaceID s) > maxIdentifierLength
             \<or> length (sn_SchemaID s) > maxIdentifierLength
          then Some (BindingErr ErrInvalidSnapshot)
          else if \<not> is_one_object (sn_Data s) then Some (BindingErr ErrInvalidSnapshot)
          else None)"

section \<open>Machine policies\<close>

record BindingAuthorization =
  ba_TenantID :: string
  ba_WorkspaceID :: string
  ba_Purpose :: string
  ba_RecordRef :: string
  ba_ResourceSystem :: string
  ba_ResourceType :: string

record MachinePolicy =
  mp_Identity :: IdentityKey
  mp_Audience :: string
  mp_Scope :: string
  mp_TenantID :: string
  mp_WorkspaceID :: string
  mp_Purpose :: string
  mp_ResourceSystem :: string
  mp_ResourceType :: string

text \<open>The interface \<open>PolicyAuthorizer\<close>.\<close>

type_synonym 'w PolicyAuthorizer = "Principal \<Rightarrow> BindingAuthorization \<Rightarrow> ('w, unit) go"

text \<open>The test of the loop's body: neither \<open>continue\<close> is taken.\<close>

definition policy_matches :: "Principal \<Rightarrow> BindingAuthorization \<Rightarrow> MachinePolicy \<Rightarrow> bool" where
  "policy_matches prin request policy =
     (if mp_Identity policy \<noteq> identityKey prin \<or> mp_TenantID policy \<noteq> ba_TenantID request
         \<or> mp_WorkspaceID policy \<noteq> ba_WorkspaceID request \<or> mp_Purpose policy \<noteq> ba_Purpose request
         \<or> mp_ResourceSystem policy \<noteq> ba_ResourceSystem request \<or> mp_ResourceType policy \<noteq> ba_ResourceType request
      then False
      else if mp_Audience policy = [] \<or> mp_Audience policy \<notin> set (p_Audience prin)
         \<or> mp_Scope policy = [] \<or> mp_Scope policy \<notin> set (p_Scopes prin)
      then False else True)"

definition static_Authorize :: "MachinePolicy list \<Rightarrow> 'w PolicyAuthorizer" where
  "static_Authorize policies prin request =
     (if p_Kind prin \<noteq> PrincipalService \<or> p_Issuer prin = [] \<or> p_Subject prin = []
      then fail (BindingErr ErrMachinePolicyDenied)
      else if list_ex (policy_matches prin request) policies then ret ()
      else fail (BindingErr ErrMachinePolicyDenied))"

section \<open>The service\<close>

record 'w SnapshotStore =
  ss_FindByOperation :: "string \<Rightarrow> string \<Rightarrow> string \<Rightarrow> ('w, Snapshot) go"
  ss_Create :: "Snapshot \<Rightarrow> ('w, unit) go"
  ss_Get :: "string \<Rightarrow> string \<Rightarrow> string \<Rightarrow> ('w, Snapshot) go"

type_synonym 'w RecordReader = "string \<Rightarrow> string \<Rightarrow> string \<Rightarrow> ('w, SourceRecord) go"

record 'w binding_service =
  bs_records :: "'w RecordReader option"
  bs_snapshots :: "'w SnapshotStore option"
  bs_users :: "'w MembershipReader option option"
  bs_machines :: "'w PolicyAuthorizer option"

definition requirePrincipal :: "Principal \<Rightarrow> goerr option" where
  "requirePrincipal prin =
     (if (p_Kind prin \<noteq> PrincipalUser \<and> p_Kind prin \<noteq> PrincipalService) \<or> p_Issuer prin = [] \<or> p_Subject prin = []
      then Some (IdentityErr ErrUnauthenticated) else None)"

definition hash_content :: "string \<Rightarrow> goerr + string" where
  "hash_content payload =
     (case CanonicalizeJSON payload of
        Inl e \<Rightarrow> Inl (Wrap ''canonicalize'' e)
      | Inr canonical \<Rightarrow> Inr (sha256_ref canonical))"

definition snapshot_request_content :: "SnapshotRequest \<Rightarrow> string" where
  "snapshot_request_content request =
     marshal (JObject (to_map
       [(''tenantId'', JString (sr_TenantID request)), (''workspaceId'', JString (sr_WorkspaceID request)),
        (''recordRef'', JString (sr_RecordRef request)), (''schemaId'', JString (sr_SchemaID request)),
        (''schemaVersion'', JNumber (itoa (sr_SchemaVersion request))),
        (''expectedRecordVersion'', JNumber (itoa (sr_ExpectedRecordVersion request))),
        (''expectedSourceVersion'', JNumber (itoa (sr_ExpectedSourceVersion request))),
        (''purpose'', JString (sr_Purpose request))]))"

definition snapshotRequestHash :: "SnapshotRequest \<Rightarrow> goerr + string" where
  "snapshotRequestHash request = hash_content (snapshot_request_content request)"

definition computeSnapshotHash :: "string \<Rightarrow> int \<Rightarrow> int \<Rightarrow> int \<Rightarrow> string \<Rightarrow> goerr + string" where
  "computeSnapshotHash schemaID schemaVersion recordVersion sourceVersion canonicalData =
     (case parse_value canonicalData of
        None \<Rightarrow> Inl (Wrap ''decode canonical snapshot data'' (External ''syntax''))
      | Some (parsed, _) \<Rightarrow>
          if json_depth parsed > 10000
          then Inl (Wrap ''decode canonical snapshot data'' (External ''depth''))
          else hash_content (marshal (JObject (to_map
            [(''data'', json_to_any parsed), (''recordVersion'', JNumber (itoa recordVersion)),
             (''schemaId'', JString schemaID), (''schemaVersion'', JNumber (itoa schemaVersion)),
             (''sourceVersion'', JNumber (itoa sourceVersion))]))))"

text \<open>The authorization step: membership for a user, an exact policy for a service.\<close>

definition authorize_snapshot ::
  "'w binding_service \<Rightarrow> Principal \<Rightarrow> string \<Rightarrow> string \<Rightarrow> BindingAuthorization \<Rightarrow> ('w, unit) go" where
  "authorize_snapshot service prin tenantID workspaceID authorization =
     (if p_Kind prin = PrincipalUser then
        (case bs_users service of
           None \<Rightarrow> fail (IdentityErr ErrForbidden)
         | Some users \<Rightarrow> bindG (Authorize users prin tenantID workspaceID ActionRecordRead) (\<lambda>_. ret ()))
      else
        (case bs_machines service of
           None \<Rightarrow> fail (BindingErr ErrMachinePolicyDenied)
         | Some authorize \<Rightarrow> authorize prin authorization))"

definition binding_of :: "SnapshotRequest \<Rightarrow> RecordRef \<Rightarrow> BindingAuthorization" where
  "binding_of normalized reference =
     \<lparr>ba_TenantID = sr_TenantID normalized, ba_WorkspaceID = sr_WorkspaceID normalized,
      ba_Purpose = sr_Purpose normalized, ba_RecordRef = sr_RecordRef normalized,
      ba_ResourceSystem = rr_System reference, ba_ResourceType = rr_Type reference\<rparr>"

text \<open>The checks of the source record against the request.\<close>

definition check_source :: "SnapshotRequest \<Rightarrow> SourceRecord \<Rightarrow> goerr option" where
  "check_source normalized r =
     (case SourceRecord_Validate r of
        Some e \<Rightarrow> Some e
      | None \<Rightarrow>
          if src_RecordRef r \<noteq> sr_RecordRef normalized then Some (BindingErr binding_ErrRecordNotFound)
          else if src_SchemaID r \<noteq> sr_SchemaID normalized \<or> src_SchemaVersion r \<noteq> sr_SchemaVersion normalized
          then Some (BindingErr ErrSchemaMismatch)
          else if src_RecordVersion r \<noteq> sr_ExpectedRecordVersion normalized
          then Some (BindingErr binding_ErrRecordVersionConflict)
          else if sr_ExpectedSourceVersion normalized > 0 \<and> src_SourceVersion r \<noteq> sr_ExpectedSourceVersion normalized
          then Some (BindingErr ErrSourceVersionConflict)
          else None)"

definition build_snapshot ::
  "SnapshotRequest \<Rightarrow> SourceRecord \<Rightarrow> string \<Rightarrow> string \<Rightarrow> string \<Rightarrow> string \<Rightarrow> time \<Rightarrow> Snapshot" where
  "build_snapshot normalized r snapshotID snapshotHash data requestHash now =
     \<lparr>sn_SnapshotID = snapshotID, sn_TenantID = sr_TenantID normalized, sn_WorkspaceID = sr_WorkspaceID normalized,
      sn_OperationID = sr_OperationID normalized, sn_RecordRef = sr_RecordRef normalized,
      sn_SchemaID = sr_SchemaID normalized, sn_SchemaVersion = sr_SchemaVersion normalized,
      sn_RecordVersion = src_RecordVersion r, sn_SourceVersion = src_SourceVersion r,
      sn_Purpose = sr_Purpose normalized, sn_SnapshotHash = snapshotHash, sn_Data = data,
      sn_RequestHash = requestHash, sn_CreatedAt = now\<rparr>"

text \<open>What is left when no snapshot of the operation exists: read, check, hash, store.\<close>

definition create_fresh ::
  "'w SnapshotStore \<Rightarrow> 'w RecordReader \<Rightarrow> time \<Rightarrow> ('w, string) go \<Rightarrow> SnapshotRequest \<Rightarrow> string
     \<Rightarrow> ('w, Snapshot \<times> bool) go" where
  "create_fresh snapshots records now newID normalized requestHash =
     bindG (records (sr_TenantID normalized) (sr_WorkspaceID normalized) (sr_RecordRef normalized)) (\<lambda>r.
     bindG (checkG (check_source normalized r)) (\<lambda>_.
     catchG (pureG (CanonicalizeJSON (src_Data r)))
       (\<lambda>e. fail (Wrap ''canonicalize snapshot data'' e)) (\<lambda>canonicalData.
     bindG (pureG (computeSnapshotHash (sr_SchemaID normalized) (sr_SchemaVersion normalized)
               (src_RecordVersion r) (src_SourceVersion r) canonicalData)) (\<lambda>snapshotHash.
     catchG newID (\<lambda>e. fail (Wrap ''generate snapshot ID'' e)) (\<lambda>snapshotID.
     (let snapshot = build_snapshot normalized r snapshotID snapshotHash canonicalData requestHash now in
     bindG (checkG (Snapshot_Validate snapshot)) (\<lambda>_.
     catchG (ss_Create snapshots snapshot)
       (\<lambda>e. if errors_is e (BindingErr ErrSnapshotExists) then
             bindG (ss_FindByOperation snapshots (sr_TenantID normalized) (sr_WorkspaceID normalized)
                      (sr_OperationID normalized)) (\<lambda>existing.
               if sn_RequestHash existing \<noteq> requestHash then fail (BindingErr binding_ErrIdempotencyConflict)
               else ret (existing, True))
           else fail e)
       (\<lambda>_. ret (snapshot, False)))))))))"

definition CreateSnapshot ::
  "'w binding_service \<Rightarrow> time \<Rightarrow> ('w, string) go \<Rightarrow> Principal \<Rightarrow> SnapshotRequest \<Rightarrow> ('w, Snapshot \<times> bool) go" where
  "CreateSnapshot service now newID prin request =
     bindG (pureG (snapshot_normalized request)) (\<lambda>normalized.
     case (bs_records service, bs_snapshots service) of
       (Some records, Some snapshots) \<Rightarrow>
         bindG (checkG (requirePrincipal prin)) (\<lambda>_.
         bindG (pureG (ParseRecordRef (sr_RecordRef normalized))) (\<lambda>reference.
         bindG (authorize_snapshot service prin (sr_TenantID normalized) (sr_WorkspaceID normalized)
                  (binding_of normalized reference)) (\<lambda>_.
         bindG (pureG (snapshotRequestHash normalized)) (\<lambda>requestHash.
         catchG (ss_FindByOperation snapshots (sr_TenantID normalized) (sr_WorkspaceID normalized)
                   (sr_OperationID normalized))
           (\<lambda>e. if \<not> errors_is e (BindingErr ErrSnapshotNotFound) then fail e
                 else create_fresh snapshots records now newID normalized requestHash)
           (\<lambda>existing.
               if sn_RequestHash existing \<noteq> requestHash then fail (BindingErr binding_ErrIdempotencyConflict)
               else ret (existing, True))))))
     | _ \<Rightarrow> fail (BindingErr ErrBindingUnavailable))"

definition GetSnapshot ::
  "'w binding_service \<Rightarrow> Principal \<Rightarrow> string \<Rightarrow> string \<Rightarrow> string \<Rightarrow> ('w, Snapshot) go" where
  "GetSnapshot service prin tenant workspace snapshot =
     (let tenantID = TrimSpace tenant; workspaceID = TrimSpace workspace; snapshotID = TrimSpace snapshot in
      if tenantID = [] \<or> workspaceID = [] \<or> snapshotID = [] then fail (BindingErr ErrInvalidSnapshotRequest)
      else case bs_snapshots service of
        None \<Rightarrow> fail (BindingErr ErrBindingUnavailable)
      | Some snapshots \<Rightarrow>
          bindG (checkG (requirePrincipal prin)) (\<lambda>_.
          bindG (if p_Kind prin = PrincipalUser then
                   (case bs_users service of
                      None \<Rightarrow> fail (IdentityErr ErrForbidden)
                    | Some users \<Rightarrow> bindG (Authorize users prin tenantID workspaceID ActionRecordRead) (\<lambda>_. ret ()))
                 else ret ()) (\<lambda>_.
          bindG (ss_Get snapshots tenantID workspaceID snapshotID) (\<lambda>found.
          bindG (checkG (Snapshot_Validate found)) (\<lambda>_.
          if p_Kind prin = PrincipalService then
            (case ParseRecordRef (sn_RecordRef found) of
               Inl _ \<Rightarrow> fail (BindingErr ErrInvalidSnapshot)
             | Inr reference \<Rightarrow>
                 (case bs_machines service of
                    None \<Rightarrow> fail (BindingErr ErrMachinePolicyDenied)
                  | Some authorize \<Rightarrow>
                      bindG (authorize prin
                        \<lparr>ba_TenantID = sn_TenantID found, ba_WorkspaceID = sn_WorkspaceID found,
                         ba_Purpose = sn_Purpose found, ba_RecordRef = sn_RecordRef found,
                         ba_ResourceSystem = rr_System reference, ba_ResourceType = rr_Type reference\<rparr>)
                        (\<lambda>_. ret found)))
          else ret found)))))"

section \<open>Lemmas\<close>

lemma ref_part_okD:
  "ref_part_ok p \<Longrightarrow> p \<noteq> [] \<and> CHR '' '' \<notin> set p \<and> CHR 0x09 \<notin> set p \<and> CHR 0x0D \<notin> set p \<and> CHR 0x0A \<notin> set p"
  by (auto simp: ref_part_ok_def ContainsAny_iff)

lemma SplitOn_three:
  assumes "SplitOn sep s = [a, b, c]"
  shows "s = a @ [sep] @ b @ [sep] @ c" "sep \<notin> set a" "sep \<notin> set b" "sep \<notin> set c"
proof -
  have "JoinWith [sep] (SplitOn sep s) = s" by simp
  with assms show "s = a @ [sep] @ b @ [sep] @ c" by simp
  show "sep \<notin> set a" "sep \<notin> set b" "sep \<notin> set c"
    using SplitOn_no_sep [of _ sep s] assms by auto
qed

lemma list_of_three: "length xs = 3 \<Longrightarrow> \<exists>a b c. xs = [a, b, c]"
  by (auto simp: numeral_3_eq_3 length_Suc_conv)

lemma ParseRecordRef_Inr:
  "ParseRecordRef raw = Inr r \<longleftrightarrow>
     SplitOn (CHR '':'') (TrimSpace raw) = [rr_System r, rr_Type r, rr_ID r]
     \<and> ref_part_ok (rr_System r) \<and> ref_part_ok (rr_Type r) \<and> ref_part_ok (rr_ID r)"
proof -
  let ?p = "SplitOn (CHR '':'') (TrimSpace raw)"
  show ?thesis
  proof (cases "length ?p = 3")
    case True
    then obtain a b c where "?p = [a, b, c]" using list_of_three by blast
    then show ?thesis by (cases r) (auto simp: ParseRecordRef_def Let_def)
  next
    case False
    then show ?thesis by (auto simp: ParseRecordRef_def Let_def)
  qed
qed

lemma ParseRecordRef_String: "ParseRecordRef raw = Inr r \<Longrightarrow> RecordRef_String r = TrimSpace raw"
  using SplitOn_three(1) [of "CHR '':''" "TrimSpace raw"]
  by (simp add: ParseRecordRef_Inr RecordRef_String_def)

lemma ParseRecordRef_errors: "ParseRecordRef raw = Inl e \<Longrightarrow> e = BindingErr ErrInvalidRecordReference"
  by (auto simp: ParseRecordRef_def Let_def split: if_splits)

lemma static_Authorize_Inr:
  "static_Authorize policies prin request w = (Inr u, w') \<longleftrightarrow>
     p_Kind prin = PrincipalService \<and> p_Issuer prin \<noteq> [] \<and> p_Subject prin \<noteq> []
     \<and> (\<exists>policy \<in> set policies. policy_matches prin request policy) \<and> w' = w"
  by (auto simp: static_Authorize_def go_simps list_ex_iff)

lemma static_Authorize_denied:
  "static_Authorize policies prin request w = (Inl e, w') \<Longrightarrow> e = BindingErr ErrMachinePolicyDenied \<and> w' = w"
  by (auto simp: static_Authorize_def go_simps split: if_splits)

lemma policy_matches_iff:
  "policy_matches prin request policy \<longleftrightarrow>
     mp_Identity policy = identityKey prin \<and> mp_TenantID policy = ba_TenantID request
     \<and> mp_WorkspaceID policy = ba_WorkspaceID request \<and> mp_Purpose policy = ba_Purpose request
     \<and> mp_ResourceSystem policy = ba_ResourceSystem request \<and> mp_ResourceType policy = ba_ResourceType request
     \<and> mp_Audience policy \<in> set (p_Audience prin) \<and> mp_Audience policy \<noteq> []
     \<and> mp_Scope policy \<in> set (p_Scopes prin) \<and> mp_Scope policy \<noteq> []"
  by (auto simp: policy_matches_def)

lemma requirePrincipal_None:
  "requirePrincipal prin = None \<longleftrightarrow>
     (p_Kind prin = PrincipalUser \<or> p_Kind prin = PrincipalService) \<and> p_Issuer prin \<noteq> [] \<and> p_Subject prin \<noteq> []"
  by (auto simp: requirePrincipal_def)

lemma check_source_None:
  "check_source n r = None \<longleftrightarrow>
     SourceRecord_Validate r = None \<and> src_RecordRef r = sr_RecordRef n \<and> src_SchemaID r = sr_SchemaID n
     \<and> src_SchemaVersion r = sr_SchemaVersion n \<and> src_RecordVersion r = sr_ExpectedRecordVersion n
     \<and> (sr_ExpectedSourceVersion n > 0 \<longrightarrow> src_SourceVersion r = sr_ExpectedSourceVersion n)"
  by (auto simp: check_source_def split: option.splits)

lemma snapshot_normalized_Inr:
  "snapshot_normalized r0 = Inr n \<Longrightarrow>
     n = r0\<lparr>sr_TenantID := TrimSpace (sr_TenantID r0), sr_WorkspaceID := TrimSpace (sr_WorkspaceID r0),
            sr_RecordRef := TrimSpace (sr_RecordRef r0), sr_SchemaID := TrimSpace (sr_SchemaID r0),
            sr_Purpose := TrimSpace (sr_Purpose r0), sr_OperationID := TrimSpace (sr_OperationID r0)\<rparr>
     \<and> sr_TenantID n \<noteq> [] \<and> sr_WorkspaceID n \<noteq> [] \<and> sr_OperationID n \<noteq> []
     \<and> 1 \<le> sr_SchemaVersion n \<and> 1 \<le> sr_ExpectedRecordVersion n \<and> 0 \<le> sr_ExpectedSourceVersion n
     \<and> length (sr_OperationID n) \<le> maxIdentifierLength \<and> length (sr_Purpose n) \<le> maxPurposeLength"
  unfolding snapshot_normalized_def Let_def
  by (auto split: if_splits option.splits sum.splits)

lemma snapshot_normalized_idem: "snapshot_normalized r0 = Inr n \<Longrightarrow> snapshot_normalized n = Inr n"
  unfolding snapshot_normalized_def Let_def
  by (auto split: if_splits option.splits sum.splits)

lemma create_fresh_Inr:
  "create_fresh snapshots records now newID n h w = (Inr (s, replayed), w') \<Longrightarrow>
     (if replayed
      then sn_RequestHash s = h \<and> (\<exists>w1. ss_FindByOperation snapshots (sr_TenantID n) (sr_WorkspaceID n)
             (sr_OperationID n) w1 = (Inr s, w'))
      else Snapshot_Validate s = None
        \<and> (\<exists>r w1 canonical sid. records (sr_TenantID n) (sr_WorkspaceID n) (sr_RecordRef n) w = (Inr r, w1)
             \<and> check_source n r = None \<and> CanonicalizeJSON (src_Data r) = Inr canonical
             \<and> computeSnapshotHash (sr_SchemaID n) (sr_SchemaVersion n) (src_RecordVersion r) (src_SourceVersion r)
                  canonical = Inr (sn_SnapshotHash s)
             \<and> s = build_snapshot n r sid (sn_SnapshotHash s) canonical h now)
        \<and> (\<exists>w2. ss_Create snapshots s w2 = (Inr (), w')))"
  unfolding create_fresh_def Let_def
  by (auto simp: go_success build_snapshot_def split: sum.splits if_splits)

lemma CreateSnapshot_Inr:
  assumes "CreateSnapshot service now newID prin request w = (Inr (s, replayed), w')"
  obtains n reference h records snapshots w1 w2 where
    "snapshot_normalized request = Inr n" "ParseRecordRef (sr_RecordRef n) = Inr reference"
    "bs_records service = Some records" "bs_snapshots service = Some snapshots"
    "requirePrincipal prin = None"
    "authorize_snapshot service prin (sr_TenantID n) (sr_WorkspaceID n) (binding_of n reference) w = (Inr (), w1)"
    "snapshotRequestHash n = Inr h"
    "(ss_FindByOperation snapshots (sr_TenantID n) (sr_WorkspaceID n) (sr_OperationID n) w1 = (Inr s, w')
        \<and> replayed \<and> sn_RequestHash s = h)
     \<or> (\<exists>e. ss_FindByOperation snapshots (sr_TenantID n) (sr_WorkspaceID n) (sr_OperationID n) w1 = (Inl e, w2)
          \<and> errors_is e (BindingErr ErrSnapshotNotFound)
          \<and> create_fresh snapshots records now newID n h w2 = (Inr (s, replayed), w'))"
  using assms unfolding CreateSnapshot_def
  by (fastforce simp: go_success split: option.splits sum.splits if_splits)

section \<open>The authorizer's contract\<close>

text \<open>
  What the clients of \<open>PolicyAuthorizer\<close> rely on: an approval means that the policies grant the
  resource to this very identity, a refusal is \<open>ErrMachinePolicyDenied\<close>, and the call changes
  nothing. \<open>granted\<close> is the set of pairs the provider's policies stand for.
\<close>

locale policy_authorizer =
  fixes authorize :: "Principal \<Rightarrow> BindingAuthorization \<Rightarrow> ('w, unit) go"
    and granted :: "IdentityKey \<Rightarrow> BindingAuthorization \<Rightarrow> bool"
  assumes approval: "authorize prin request w = (Inr u, w') \<Longrightarrow>
      p_Kind prin = PrincipalService \<and> granted (identityKey prin) request \<and> w' = w"
    and refusal: "authorize prin request w = (Inl e, w') \<Longrightarrow> e = BindingErr ErrMachinePolicyDenied \<and> w' = w"
begin

lemma authorize_pure: "authorize prin request w = (res, w') \<Longrightarrow> w' = w"
  by (cases res) (auto dest: approval refusal)

lemma authorized_snapshot:
  assumes "bs_machines service = Some authorize"
    and "authorize_snapshot service prin tenantID workspaceID request w = (Inr u, w')"
    and "p_Kind prin \<noteq> PrincipalUser"
  shows "p_Kind prin = PrincipalService" "granted (identityKey prin) request" "w' = w"
  using assms by (auto simp: authorize_snapshot_def dest: approval)

end

text \<open>The grants of a list of policies: the fields of one of them, compared exactly.\<close>

definition static_granted :: "MachinePolicy list \<Rightarrow> IdentityKey \<Rightarrow> BindingAuthorization \<Rightarrow> bool" where
  "static_granted policies key request = list_ex (\<lambda>policy.
     mp_Identity policy = key \<and> mp_TenantID policy = ba_TenantID request
     \<and> mp_WorkspaceID policy = ba_WorkspaceID request \<and> mp_Purpose policy = ba_Purpose request
     \<and> mp_ResourceSystem policy = ba_ResourceSystem request \<and> mp_ResourceType policy = ba_ResourceType request)
     policies"

interpretation static_authorizer: policy_authorizer "static_Authorize policies" "static_granted policies"
  for policies
  by unfold_locales
     (auto simp: static_Authorize_Inr static_granted_def list_ex_iff policy_matches_iff dest: static_Authorize_denied)

section \<open>Properties\<close>

text \<open>
  Parsing a record reference and writing it back is the identity up to surrounding white
  space, and what is written parses to the same reference again.
\<close>

theorem record_ref_roundtrip:
  assumes "ParseRecordRef raw = Inr r"
  shows "RecordRef_String r = TrimSpace raw \<and> ParseRecordRef (RecordRef_String r) = Inr r"
  using assms ParseRecordRef_String [OF assms] by (simp add: ParseRecordRef_Inr)

theorem record_ref_roundtrip_witness:
  "RecordRef_String \<lparr>rr_System = ''bids'', rr_Type = ''tender'', rr_ID = ''t-1''\<rparr> = ''bids:tender:t-1''"
proof -
  have "ParseRecordRef '' bids:tender:t-1 '' = Inr \<lparr>rr_System = ''bids'', rr_Type = ''tender'', rr_ID = ''t-1''\<rparr>"
    by code_simp
  from record_ref_roundtrip [OF this] have "RecordRef_String \<lparr>rr_System = ''bids'', rr_Type = ''tender'', rr_ID = ''t-1''\<rparr>
      = TrimSpace '' bids:tender:t-1 ''" ..
  also have "\<dots> = ''bids:tender:t-1''" by code_simp
  finally show ?thesis .
qed

text \<open>
  C8: nobody gets a snapshot without authority. With fixed machine policies, a snapshot is
  returned only to a user whom the membership check lets read records of the workspace, or to
  a service that has a policy for exactly its identity and the request's tenant, workspace,
  purpose and kind of resource, and whose token has the policy's audience and scope.
\<close>

theorem snapshot_authorized:
  assumes "CreateSnapshot service now newID prin request w = (Inr (s, replayed), w')"
    and "bs_machines service = Some (static_Authorize policies)"
  shows "(p_Kind prin = PrincipalUser \<and> (\<exists>users m w1. bs_users service = Some users
        \<and> Authorize users prin (TrimSpace (sr_TenantID request)) (TrimSpace (sr_WorkspaceID request)) ActionRecordRead w
          = (Inr m, w1)))
    \<or> (p_Kind prin = PrincipalService \<and> (\<exists>policy \<in> set policies. \<exists>reference.
        ParseRecordRef (sr_RecordRef request) = Inr reference
        \<and> mp_Identity policy = identityKey prin
        \<and> mp_TenantID policy = TrimSpace (sr_TenantID request) \<and> mp_WorkspaceID policy = TrimSpace (sr_WorkspaceID request)
        \<and> mp_Purpose policy = TrimSpace (sr_Purpose request)
        \<and> mp_ResourceSystem policy = rr_System reference \<and> mp_ResourceType policy = rr_Type reference
        \<and> mp_Audience policy \<in> set (p_Audience prin) \<and> mp_Scope policy \<in> set (p_Scopes prin)))"
proof -
  from assms(1) obtain n reference w1 where n: "snapshot_normalized request = Inr n"
    and r: "ParseRecordRef (sr_RecordRef n) = Inr reference" and p: "requirePrincipal prin = None"
    and a: "authorize_snapshot service prin (sr_TenantID n) (sr_WorkspaceID n) (binding_of n reference) w = (Inr (), w1)"
    by (rule CreateSnapshot_Inr)
  note f = snapshot_normalized_Inr [OF n]
  show ?thesis
  proof (cases "p_Kind prin = PrincipalUser")
    case True
    with a f show ?thesis
      by (auto simp: authorize_snapshot_def go_success split: option.splits)
  next
    case False
    with p have k: "p_Kind prin = PrincipalService" by (auto simp: requirePrincipal_None)
    have "static_Authorize policies prin (binding_of n reference) w = (Inr (), w1)"
      using a k assms(2) by (simp add: authorize_snapshot_def)
    then obtain policy where "policy \<in> set policies" "policy_matches prin (binding_of n reference) policy"
      by (auto simp: static_Authorize_Inr)
    moreover have "ParseRecordRef (sr_RecordRef request) = Inr reference"
      using r f by (simp add: ParseRecordRef_Inr)
    ultimately show ?thesis using k f by (auto simp: policy_matches_iff binding_of_def)
  qed
qed


definition sample_request :: SnapshotRequest where
  "sample_request = \<lparr>sr_TenantID = ''t'', sr_WorkspaceID = ''w'', sr_RecordRef = ''bids:tender:1'', sr_SchemaID = ''s'',
     sr_SchemaVersion = 1, sr_ExpectedRecordVersion = 2, sr_ExpectedSourceVersion = 0, sr_Purpose = ''award'',
     sr_OperationID = ''op''\<rparr>"

definition sample_service :: "unit binding_service" where
  "sample_service = \<lparr>bs_records = Some (\<lambda>_ _ _. ret \<lparr>src_RecordRef = ''bids:tender:1'', src_SchemaID = ''s'',
       src_SchemaVersion = 1, src_RecordVersion = 2, src_SourceVersion = 0, src_Data = ''{}''\<rparr>),
     bs_snapshots = Some \<lparr>ss_FindByOperation = (\<lambda>_ _ _. fail (BindingErr ErrSnapshotNotFound)),
       ss_Create = (\<lambda>_. ret ()), ss_Get = (\<lambda>_ _ _. fail (BindingErr ErrSnapshotNotFound))\<rparr>,
     bs_users = None,
     bs_machines = Some (static_Authorize [\<lparr>mp_Identity = \<lparr>ik_Issuer = ''idp'', ik_Subject = ''svc''\<rparr>,
       mp_Audience = ''hub'', mp_Scope = ''snap'', mp_TenantID = ''t'', mp_WorkspaceID = ''w'', mp_Purpose = ''award'',
       mp_ResourceSystem = ''bids'', mp_ResourceType = ''tender''\<rparr>])\<rparr>"

definition sample_principal :: Principal where
  "sample_principal = \<lparr>p_Kind = PrincipalService, p_Issuer = ''idp'', p_Subject = ''svc'', p_Audience = [''hub''],
     p_Email = [], p_EmailVerified = False, p_Name = [], p_PreferredUsername = [], p_Groups = [], p_Scopes = [''snap'']\<rparr>"

lemma not_blank_sha256_ref [simp]: "\<not> blank (sha256_ref s)"
  unfolding blank_def TrimSpace_sha256_ref by (simp add: sha256_ref_def)

lemma hash_content_ref: "CanonicalizeJSON p = Inr c \<Longrightarrow> hash_content p = Inr (sha256_ref c)"
  by (simp add: hash_content_def)

lemma sample_created_snapshot:
  obtains s where "CreateSnapshot sample_service 5 (ret ''id'') sample_principal sample_request () = (Inr (s, False), ())"
proof -
  let ?m = "marshal (JObject (to_map [(''data'', json_to_any (JObject [])), (''recordVersion'', JNumber (itoa 2)),
             (''schemaId'', JString ''s''), (''schemaVersion'', JNumber (itoa 1)), (''sourceVersion'', JNumber (itoa 0))]))"
  let ?ref = "\<lparr>rr_System = ''bids'', rr_Type = ''tender'', rr_ID = ''1''\<rparr>"
  let ?r = "\<lparr>src_RecordRef = ''bids:tender:1'', src_SchemaID = ''s'', src_SchemaVersion = 1, src_RecordVersion = 2,
     src_SourceVersion = 0, src_Data = ''{}''\<rparr>"
  have all: "snapshot_normalized sample_request = Inr sample_request
    \<and> ParseRecordRef (sr_RecordRef sample_request) = Inr ?ref
    \<and> isl (CanonicalizeJSON (snapshot_request_content sample_request)) = False
    \<and> isl (CanonicalizeJSON ?m) = False
    \<and> CanonicalizeJSON ''{}'' = Inr ''{}'' \<and> parse_value ''{}'' = Some (JObject [], [])
    \<and> is_one_object ''{}'' \<and> check_source sample_request ?r = None"
    by code_simp
  then have n: "snapshot_normalized sample_request = Inr sample_request"
    and r: "ParseRecordRef (sr_RecordRef sample_request) = Inr ?ref"
    and d: "CanonicalizeJSON ''{}'' = Inr ''{}''" and p: "parse_value ''{}'' = Some (JObject [], [])"
    and one: "is_one_object ''{}''" and cs: "check_source sample_request ?r = None" by blast+
  have a: "authorize_snapshot sample_service sample_principal (sr_TenantID sample_request) (sr_WorkspaceID sample_request)
      (binding_of sample_request ?ref) () = (Inr (), ())"
    by (simp add: authorize_snapshot_def sample_principal_def sample_service_def static_Authorize_def policy_matches_iff
        binding_of_def sample_request_def identityKey_def go_simps)
  from all obtain c where "CanonicalizeJSON (snapshot_request_content sample_request) = Inr c"
    by (cases "CanonicalizeJSON (snapshot_request_content sample_request)") auto
  then have h: "snapshotRequestHash sample_request = Inr (sha256_ref c)"
    by (simp add: snapshotRequestHash_def hash_content_ref)
  from all obtain c2 where "CanonicalizeJSON ?m = Inr c2" by (cases "CanonicalizeJSON ?m") auto
  then have sh: "computeSnapshotHash ''s'' 1 2 0 ''{}'' = Inr (sha256_ref c2)"
    by (simp add: computeSnapshotHash_def p hash_content_ref)
  let ?s = "build_snapshot sample_request ?r ''id'' (sha256_ref c2) ''{}'' (sha256_ref c) 5"
  have b: "\<not> blank ''id''" "\<not> blank ''t''" "\<not> blank ''w''" "\<not> blank ''op''" "\<not> blank ''bids:tender:1''" "\<not> blank ''s''"
    "\<not> blank ''award''" by (simp_all add: trim_simps)
  have r': "ParseRecordRef ''bids:tender:1'' = Inr ?ref" using r by (simp add: sample_request_def)
  have v: "Snapshot_Validate ?s = None"
    by (simp add: Snapshot_Validate_def build_snapshot_def sample_request_def b one r' IsZero_def
        maxPurposeLength_def maxIdentifierLength_def)
  have "requirePrincipal sample_principal = None" by (simp add: requirePrincipal_def sample_principal_def)
  with n r a h d sh cs v have "CreateSnapshot sample_service 5 (ret ''id'') sample_principal sample_request ()
      = (Inr (?s, False), ())"
    by (simp add: CreateSnapshot_def create_fresh_def go_simps sample_service_def Let_def)
       (simp add: sample_request_def go_simps)
  with that show thesis by blast
qed

theorem snapshot_authorized_witness:
  "\<exists>s. fst (CreateSnapshot sample_service 5 (ret ''id'') sample_principal sample_request ()) = Inr (s, False)
     \<and> (\<exists>reference. ParseRecordRef (sr_RecordRef sample_request) = Inr reference \<and> rr_System reference = ''bids'')"
proof -
  obtain s where s: "CreateSnapshot sample_service 5 (ret ''id'') sample_principal sample_request () = (Inr (s, False), ())"
    by (rule sample_created_snapshot)
  from snapshot_authorized [OF s, of "[\<lparr>mp_Identity = \<lparr>ik_Issuer = ''idp'', ik_Subject = ''svc''\<rparr>,
       mp_Audience = ''hub'', mp_Scope = ''snap'', mp_TenantID = ''t'', mp_WorkspaceID = ''w'', mp_Purpose = ''award'',
       mp_ResourceSystem = ''bids'', mp_ResourceType = ''tender''\<rparr>]"] s show ?thesis
    by (auto simp: sample_service_def sample_principal_def)
qed


end
