(* ===== verification/Commands.thy ===== *)
theory Commands
  imports Binding
begin

text \<open>
  \<open>commands/model.go\<close> and the policy registry of \<open>commands/service.go\<close>: policies, requests,
  operations, command and result envelopes with their validation, and the normalisation of a
  request. A \<open>*int64\<close> is an \<open>int option\<close>; \<open>Status\<close> has one more constructor for strings that
  are none of its constants.
\<close>

datatype Status =
    StatusAccepted
  | StatusDispatched
  | StatusSucceeded
  | StatusRejected
  | StatusFailed
  | StatusExpired
  | OtherStatus string

definition command_MaxPayloadBytes :: nat where
  "command_MaxPayloadBytes = 256 * 1024"

abbreviation (input) invalidRequest :: goerr where
  "invalidRequest \<equiv> CommandsErr ErrCommandInvalidRequest"

section \<open>Policies\<close>

record Policy =
  po_ID :: string
  po_TenantID :: string
  po_WorkspaceID :: string
  po_Purpose :: string
  po_OwnerSystem :: string
  po_ResourceType :: string
  po_Action :: string
  po_ExpectedVersionRequired :: bool
  po_MaxPayloadBytes :: int

definition exact_name :: "string \<Rightarrow> bool" where
  "exact_name value =
     (\<not> blank value \<and> \<not> ContainsAny value [CHR ''*'', CHR ''>'', CHR '' '', CHR 0x09, CHR 0x0D, CHR 0x0A])"

definition Policy_Validate :: "Policy \<Rightarrow> goerr option" where
  "Policy_Validate policy =
     (if \<not> list_all exact_name [po_ID policy, po_TenantID policy, po_WorkspaceID policy, po_Purpose policy,
             po_OwnerSystem policy, po_ResourceType policy, po_Action policy]
      then Some (Wrap ''must be non-empty and exact'' invalidRequest)
      else if length (po_ID policy) > 128 \<or> length (po_Purpose policy) > 128 \<or> length (po_OwnerSystem policy) > 64
         \<or> length (po_ResourceType policy) > 128 \<or> length (po_Action policy) > 128
      then Some (Wrap ''policy identifier is too long'' invalidRequest)
      else let limit = (if po_MaxPayloadBytes policy \<le> 0 then int command_MaxPayloadBytes
                        else po_MaxPayloadBytes policy)
      in if limit > int command_MaxPayloadBytes
         then Some (Wrap ''maxPayloadBytes exceeds hard limit'' invalidRequest) else None)"

text \<open>The registry of fixed policies; its keys join three names with zero bytes.\<close>

definition key3 :: "string \<Rightarrow> string \<Rightarrow> string \<Rightarrow> string" where
  "key3 a b c = a @ [CHR 0x00] @ b @ [CHR 0x00] @ c"

type_synonym StaticPolicyRegistry = "string \<rightharpoonup> Policy"

definition stored_policy :: "Policy \<Rightarrow> Policy" where
  "stored_policy policy =
     (if po_MaxPayloadBytes policy \<le> 0
      then policy\<lparr>po_MaxPayloadBytes := int command_MaxPayloadBytes\<rparr> else policy)"

definition policy_key :: "Policy \<Rightarrow> string" where
  "policy_key policy = key3 (po_TenantID policy) (po_WorkspaceID policy) (po_ID policy)"

fun add_policies :: "StaticPolicyRegistry \<Rightarrow> Policy list \<Rightarrow> goerr + StaticPolicyRegistry" where
  "add_policies registry [] = Inr registry"
| "add_policies registry (policy # policies) =
     (case Policy_Validate policy of
        Some err \<Rightarrow> Inl err
      | None \<Rightarrow>
          if registry (policy_key policy) \<noteq> None then Inl (Wrap ''duplicate policy'' invalidRequest)
          else add_policies (registry(policy_key policy \<mapsto> stored_policy policy)) policies)"

definition NewStaticPolicyRegistry :: "Policy list \<Rightarrow> goerr + StaticPolicyRegistry" where
  "NewStaticPolicyRegistry policies = add_policies Map.empty policies"

text \<open>The interface \<open>PolicyRegistry\<close> and its implementation by fixed policies.\<close>

type_synonym 'w PolicyRegistry = "string \<Rightarrow> string \<Rightarrow> string \<Rightarrow> ('w, Policy) go"

definition static_Find :: "StaticPolicyRegistry \<Rightarrow> 'w PolicyRegistry" where
  "static_Find registry tenantID workspaceID policyID =
     (case registry (key3 (TrimSpace tenantID) (TrimSpace workspaceID) (TrimSpace policyID)) of
        None \<Rightarrow> fail (CommandsErr ErrCommandPolicyNotFound)
      | Some policy \<Rightarrow> ret policy)"

section \<open>Requests\<close>

record SubmitRequest =
  sq_TenantID :: string
  sq_WorkspaceID :: string
  sq_PolicyID :: string
  sq_ResourceRef :: string
  sq_ExpectedVersion :: "int option"
  sq_Payload :: string
  sq_RequestID :: string
  sq_IdempotencyKey :: string

definition below_one :: "int option \<Rightarrow> bool" where
  "below_one v = (case v of None \<Rightarrow> False | Some n \<Rightarrow> n < 1)"

definition canonicalPayload :: "string \<Rightarrow> goerr + string" where
  "canonicalPayload raw =
     (if raw = [] \<or> length raw > command_MaxPayloadBytes \<or> \<not> utf8_valid raw
      then Inl (CommandsErr ErrCommandPayloadTooLarge)
      else if \<not> is_one_object raw then Inl invalidRequest
      else case parse_json raw of
        None \<Rightarrow> Inl invalidRequest
      | Some value \<Rightarrow>
          let canonical = marshal (json_to_any value) in
          if length canonical > command_MaxPayloadBytes then Inl (CommandsErr ErrCommandPayloadTooLarge)
          else Inr canonical)"

definition normalizeRequest :: "SubmitRequest \<Rightarrow> goerr + SubmitRequest \<times> string \<times> string" where
  "normalizeRequest r0 =
     (let request = r0\<lparr>sq_TenantID := TrimSpace (sq_TenantID r0), sq_WorkspaceID := TrimSpace (sq_WorkspaceID r0),
            sq_PolicyID := TrimSpace (sq_PolicyID r0), sq_ResourceRef := TrimSpace (sq_ResourceRef r0),
            sq_RequestID := TrimSpace (sq_RequestID r0), sq_IdempotencyKey := TrimSpace (sq_IdempotencyKey r0)\<rparr>
      in if sq_TenantID request = [] \<or> sq_WorkspaceID request = [] \<or> sq_PolicyID request = []
           \<or> sq_ResourceRef request = [] \<or> sq_IdempotencyKey request = []
         then Inl invalidRequest
         else if length (sq_IdempotencyKey request) > 128 \<or> length (sq_RequestID request) > 256
         then Inl invalidRequest
         else if below_one (sq_ExpectedVersion request) then Inl invalidRequest
         else case ParseRecordRef (sq_ResourceRef request) of
           Inl _ \<Rightarrow> Inl invalidRequest
         | Inr _ \<Rightarrow>
             (case canonicalPayload (sq_Payload request) of
                Inl e \<Rightarrow> Inl e
              | Inr payload \<Rightarrow> Inr (request, payload, sha256_ref payload)))"

section \<open>Operations and envelopes\<close>

record Operation =
  op_ID :: string
  op_TenantID :: string
  op_WorkspaceID :: string
  op_PolicyID :: string
  op_OwnerSystem :: string
  op_ResourceType :: string
  op_Action :: string
  op_Purpose :: string
  op_ResourceRef :: string
  op_ExpectedVersion :: "int option"
  op_PayloadHash :: string
  op_Payload :: string
  op_IdempotencyKey :: string
  op_RequestID :: string
  op_Status :: Status
  op_Revision :: int
  op_SafeError :: string
  op_ResultEventID :: string
  op_ResultHash :: string
  op_ResultVersion :: "int option"
  op_CreatedBy :: IdentityKey
  op_CreatedAt :: time
  op_UpdatedAt :: time

definition no_newline :: "string \<Rightarrow> bool" where
  "no_newline s = (\<not> ContainsAny s [CHR 0x0D, CHR 0x0A])"

definition Operation_Validate :: "Operation \<Rightarrow> goerr option" where
  "Operation_Validate operation =
     (if [] \<in> set [op_ID operation, op_TenantID operation, op_WorkspaceID operation, op_PolicyID operation,
             op_OwnerSystem operation, op_ResourceType operation, op_Action operation, op_Purpose operation,
             op_ResourceRef operation, op_PayloadHash operation, op_IdempotencyKey operation]
         \<or> op_Revision operation < 1 \<or> IsZero (op_CreatedAt operation) \<or> IsZero (op_UpdatedAt operation)
      then Some invalidRequest
      else if op_Status operation \<notin> {StatusAccepted, StatusDispatched, StatusSucceeded, StatusRejected,
             StatusFailed, StatusExpired}
      then Some invalidRequest
      else if length (op_SafeError operation) > 512 \<or> \<not> no_newline (op_SafeError operation)
      then Some invalidRequest
      else None)"

record Envelope =
  en_OperationID :: string
  en_TenantID :: string
  en_WorkspaceID :: string
  en_PolicyID :: string
  en_OwnerSystem :: string
  en_ResourceType :: string
  en_Action :: string
  en_Purpose :: string
  en_ResourceRef :: string
  en_ExpectedVersion :: "int option"
  en_PayloadHash :: string
  en_Payload :: string
  en_RequestedBy :: IdentityKey
  en_CreatedAt :: time

definition Envelope_Validate :: "Envelope \<Rightarrow> goerr option" where
  "Envelope_Validate envelope =
     (if [] \<in> set [en_OperationID envelope, en_TenantID envelope, en_WorkspaceID envelope, en_PolicyID envelope,
             en_OwnerSystem envelope, en_ResourceType envelope, en_Action envelope, en_Purpose envelope,
             en_ResourceRef envelope, en_PayloadHash envelope]
         \<or> IsZero (en_CreatedAt envelope)
      then Some invalidRequest
      else if length (en_OperationID envelope) > 256 \<or> en_Payload envelope = []
         \<or> length (en_Payload envelope) > command_MaxPayloadBytes
      then Some invalidRequest
      else if below_one (en_ExpectedVersion envelope) then Some invalidRequest
      else if en_PayloadHash envelope \<noteq> sha256_ref (en_Payload envelope) then Some invalidRequest
      else None)"

record ResultEnvelope =
  re_EventID :: string
  re_OperationID :: string
  re_TenantID :: string
  re_WorkspaceID :: string
  re_OwnerSystem :: string
  re_Action :: string
  re_Status :: Status
  re_ResultHash :: string
  re_ErrorCode :: string
  re_SafeError :: string
  re_ResultVersion :: "int option"
  re_OccurredAt :: time

definition ResultEnvelope_Validate :: "ResultEnvelope \<Rightarrow> goerr option" where
  "ResultEnvelope_Validate result =
     (if [] \<in> set [re_EventID result, re_OperationID result, re_TenantID result, re_WorkspaceID result,
             re_OwnerSystem result, re_Action result] \<or> IsZero (re_OccurredAt result)
      then Some (CommandsErr ErrCommandResultInvalid)
      else if re_Status result \<notin> {StatusSucceeded, StatusRejected, StatusFailed, StatusExpired}
      then Some (CommandsErr ErrCommandResultInvalid)
      else if length (re_EventID result) > 256 \<or> length (re_ErrorCode result) > 128
         \<or> length (re_SafeError result) > 512 \<or> length (re_ResultHash result) > 256
         \<or> \<not> no_newline (re_EventID result @ re_ErrorCode result @ re_ResultHash result @ re_SafeError result)
      then Some (CommandsErr ErrCommandResultInvalid)
      else if below_one (re_ResultVersion result) then Some (CommandsErr ErrCommandResultInvalid)
      else None)"

definition commandSubject :: "string \<Rightarrow> string \<Rightarrow> string" where
  "commandSubject ownerSystem action = ''commands.'' @ ownerSystem @ ''.'' @ action @ ''.v1''"

definition ResultSubject :: "string \<Rightarrow> string \<Rightarrow> string" where
  "ResultSubject ownerSystem action = ''results.'' @ ownerSystem @ ''.'' @ action @ ''.v1''"

section \<open>Lemmas\<close>

definition terminal :: "Status \<Rightarrow> bool" where
  "terminal s = (s \<noteq> StatusAccepted \<and> s \<noteq> StatusDispatched)"

lemma ResultEnvelope_valid_terminal: "ResultEnvelope_Validate r = None \<Longrightarrow> terminal (re_Status r)"
  by (auto simp: ResultEnvelope_Validate_def terminal_def split: if_splits)

lemma normalizeRequest_Inr:
  "normalizeRequest r0 = Inr (q, payload, hash) \<Longrightarrow>
     q = r0\<lparr>sq_TenantID := TrimSpace (sq_TenantID r0), sq_WorkspaceID := TrimSpace (sq_WorkspaceID r0),
            sq_PolicyID := TrimSpace (sq_PolicyID r0), sq_ResourceRef := TrimSpace (sq_ResourceRef r0),
            sq_RequestID := TrimSpace (sq_RequestID r0), sq_IdempotencyKey := TrimSpace (sq_IdempotencyKey r0)\<rparr>
     \<and> canonicalPayload (sq_Payload q) = Inr payload \<and> hash = sha256_ref payload
     \<and> sq_TenantID q \<noteq> [] \<and> sq_WorkspaceID q \<noteq> [] \<and> sq_PolicyID q \<noteq> [] \<and> sq_IdempotencyKey q \<noteq> []
     \<and> length (sq_IdempotencyKey q) \<le> 128"
  unfolding normalizeRequest_def Let_def
  by (auto split: if_splits sum.splits)

lemma canonicalPayload_length: "canonicalPayload raw = Inr p \<Longrightarrow> length p \<le> command_MaxPayloadBytes"
  by (auto simp: canonicalPayload_def Let_def split: if_splits option.splits)

lemma NUL_TrimSpace: "CHR 0x00 \<notin> set s \<Longrightarrow> CHR 0x00 \<notin> set (TrimSpace s)"
  using set_TrimSpace by blast

lemma append_sep_inj:
  "x \<notin> set a \<Longrightarrow> x \<notin> set a' \<Longrightarrow> a @ x # r = a' @ x # r' \<longleftrightarrow> a = a' \<and> r = r'"
proof (induction a arbitrary: a')
  case Nil
  then show ?case by (cases a') auto
next
  case (Cons c a)
  then show ?case by (cases a') auto
qed

lemma key3_inj:
  assumes "CHR 0x00 \<notin> set a" "CHR 0x00 \<notin> set a'" "CHR 0x00 \<notin> set b" "CHR 0x00 \<notin> set b'"
  shows "key3 a b c = key3 a' b' c' \<longleftrightarrow> a = a' \<and> b = b' \<and> c = c'"
  using assms by (simp add: key3_def append_sep_inj)

lemma add_policies_entries:
  "add_policies registry ps = Inr r \<Longrightarrow> r key = Some p \<Longrightarrow>
     registry key = Some p
     \<or> (\<exists>q \<in> set ps. Policy_Validate q = None \<and> key = policy_key q \<and> p = stored_policy q)"
proof (induction registry ps rule: add_policies.induct)
  case (2 registry policy policies)
  then have v: "Policy_Validate policy = None" "registry (policy_key policy) = None"
    and a: "add_policies (registry(policy_key policy \<mapsto> stored_policy policy)) policies = Inr r"
    by (auto split: option.splits if_splits)
  from "2.IH" [OF v(1) _ a] "2.prems"(2) v show ?case
    by (auto split: if_splits)
qed simp

lemma static_Find_Inr:
  "static_Find registry t ws p w = (Inr policy, w') \<longleftrightarrow>
     registry (key3 (TrimSpace t) (TrimSpace ws) (TrimSpace p)) = Some policy \<and> w' = w"
  by (auto simp: static_Find_def go_success split: option.splits)

end
