(* ===== verification/CommandStore.thy ===== *)
theory CommandStore
  imports Commands
begin

text \<open>
  The interface \<open>Store\<close> of \<open>commands/service.go\<close> with the store in memory of
  \<open>commands/repository.go\<close>. The locale \<open>command_store\<close> states what the service relies on:
  reads change nothing, \<open>Create\<close> adds an operation only under a fresh scoped key and a fresh
  idempotency key, and \<open>SaveCAS\<close> replaces an operation only at the expected revision. The
  store in memory is a record that a larger state extends, so that one state can hold the
  store and what the publisher and the audit writer keep.
\<close>

record 'w CommandStore =
  cs_FindByIdempotency :: "string \<Rightarrow> string \<Rightarrow> string \<Rightarrow> string \<Rightarrow> ('w, Operation) go"
  cs_Find :: "string \<Rightarrow> string \<Rightarrow> string \<Rightarrow> ('w, Operation) go"
  cs_Create :: "Operation \<Rightarrow> ('w, unit) go"
  cs_SaveCAS :: "Operation \<Rightarrow> int \<Rightarrow> ('w, Operation) go"

definition same_idempotency :: "string \<Rightarrow> string \<Rightarrow> string \<Rightarrow> string \<Rightarrow> Operation \<Rightarrow> bool" where
  "same_idempotency tenantID workspaceID policyID key operation \<longleftrightarrow>
     op_TenantID operation = tenantID \<and> op_WorkspaceID operation = workspaceID
     \<and> op_PolicyID operation = policyID \<and> op_IdempotencyKey operation = key"

section \<open>The store in memory\<close>

record MemoryStore =
  ms_values :: "(string \<times> Operation) list"

definition op_key :: "Operation \<Rightarrow> string" where
  "op_key operation = key3 (op_TenantID operation) (op_WorkspaceID operation) (op_ID operation)"

definition memory_FindByIdempotency ::
  "string \<Rightarrow> string \<Rightarrow> string \<Rightarrow> string \<Rightarrow> ('x MemoryStore_scheme, Operation) go" where
  "memory_FindByIdempotency tenantID workspaceID policyID key =
     (\<lambda>w. case find (same_idempotency tenantID workspaceID policyID key) (map snd (ms_values w)) of
        Some operation \<Rightarrow> ret operation w
      | None \<Rightarrow> fail (CommandsErr ErrCommandNotFound) w)"

definition memory_Find :: "string \<Rightarrow> string \<Rightarrow> string \<Rightarrow> ('x MemoryStore_scheme, Operation) go" where
  "memory_Find tenantID workspaceID operationID =
     (\<lambda>w. case map_of (ms_values w) (key3 tenantID workspaceID operationID) of
        None \<Rightarrow> fail (CommandsErr ErrCommandNotFound) w
      | Some operation \<Rightarrow> ret operation w)"

definition memory_put :: "Operation \<Rightarrow> 'x MemoryStore_scheme \<Rightarrow> 'x MemoryStore_scheme" where
  "memory_put operation w = w\<lparr>ms_values := map_set (op_key operation) operation (ms_values w)\<rparr>"

definition memory_Create :: "Operation \<Rightarrow> ('x MemoryStore_scheme, unit) go" where
  "memory_Create operation =
     bindG (checkG (Operation_Validate operation)) (\<lambda>_ w.
       if map_of (ms_values w) (op_key operation) \<noteq> None then fail (CommandsErr ErrCommandExists) w
       else catchG (memory_FindByIdempotency (op_TenantID operation) (op_WorkspaceID operation)
                 (op_PolicyID operation) (op_IdempotencyKey operation))
         (\<lambda>err w. (Inr (), memory_put operation w))
         (\<lambda>existing w.
            if op_ID existing \<noteq> op_ID operation then fail (CommandsErr ErrCommandExists) w
            else (Inr (), memory_put operation w)) w)"

definition memory_SaveCAS :: "Operation \<Rightarrow> int \<Rightarrow> ('x MemoryStore_scheme, Operation) go" where
  "memory_SaveCAS operation expectedRevision =
     bindG (memory_Find (op_TenantID operation) (op_WorkspaceID operation) (op_ID operation)) (\<lambda>current.
       if op_Revision current \<noteq> expectedRevision then fail (CommandsErr ErrCommandIdempotency)
       else (\<lambda>w. (Inr operation, memory_put operation w)))"

definition memory_Store :: "'x MemoryStore_scheme CommandStore" where
  "memory_Store =
     \<lparr>cs_FindByIdempotency = memory_FindByIdempotency, cs_Find = memory_Find,
      cs_Create = memory_Create, cs_SaveCAS = memory_SaveCAS\<rparr>"

section \<open>The contract\<close>

locale command_store =
  fixes store :: "'w CommandStore"
    and ops :: "'w \<Rightarrow> 'k \<rightharpoonup> Operation"
    and key :: "string \<Rightarrow> string \<Rightarrow> string \<Rightarrow> 'k"
    and wf :: "'w \<Rightarrow> bool"
  assumes Find_law: "wf w \<Longrightarrow> cs_Find store t ws i w = (res, w') \<Longrightarrow>
      w' = w \<and> (\<forall>op. res = Inr op \<longrightarrow> ops w (key t ws i) = Some op)
      \<and> (ops w (key t ws i) = None \<longrightarrow> (\<exists>e. res = Inl e))"
    and Find_hit: "wf w \<Longrightarrow> ops w (key t ws i) = Some op \<Longrightarrow> cs_Find store t ws i w = (Inr op, w)"
    and Idempotency_law: "wf w \<Longrightarrow> cs_FindByIdempotency store t ws p ik w = (res, w') \<Longrightarrow>
      w' = w \<and> (\<forall>op. res = Inr op \<longrightarrow> same_idempotency t ws p ik op \<and> op \<in> ran (ops w))
      \<and> (\<forall>e. res = Inl e \<longrightarrow> errors_is e (CommandsErr ErrCommandNotFound) \<longrightarrow>
           \<not> (\<exists>op \<in> ran (ops w). same_idempotency t ws p ik op))"
    and Idempotency_hit: "wf w \<Longrightarrow> op \<in> ran (ops w) \<Longrightarrow> same_idempotency t ws p ik op \<Longrightarrow>
      \<exists>op'. cs_FindByIdempotency store t ws p ik w = (Inr op', w)"
    and Create_law: "wf w \<Longrightarrow> cs_Create store op w = (Inr u, w') \<Longrightarrow>
      Operation_Validate op = None \<and> wf w'
      \<and> ops w (key (op_TenantID op) (op_WorkspaceID op) (op_ID op)) = None
      \<and> \<not> (\<exists>x \<in> ran (ops w). same_idempotency (op_TenantID op) (op_WorkspaceID op) (op_PolicyID op) (op_IdempotencyKey op) x)
      \<and> ops w' = (ops w)(key (op_TenantID op) (op_WorkspaceID op) (op_ID op) \<mapsto> op)"
    and Create_err: "wf w \<Longrightarrow> cs_Create store op w = (Inl e, w') \<Longrightarrow> w' = w"
    and SaveCAS_law: "wf w \<Longrightarrow> cs_SaveCAS store op revn w = (Inr s, w') \<Longrightarrow>
      s = op \<and> wf w'
      \<and> (\<exists>cur. ops w (key (op_TenantID op) (op_WorkspaceID op) (op_ID op)) = Some cur \<and> op_Revision cur = revn)
      \<and> ops w' = (ops w)(key (op_TenantID op) (op_WorkspaceID op) (op_ID op) \<mapsto> op)"
    and SaveCAS_err: "wf w \<Longrightarrow> cs_SaveCAS store op revn w = (Inl e, w') \<Longrightarrow> w' = w"
    and stored_key: "wf w \<Longrightarrow> ops w k = Some op \<Longrightarrow>
      k = key (op_TenantID op) (op_WorkspaceID op) (op_ID op)"
begin

text \<open>
  At most one of two writers that read the same revision saves, provided a write changes the
  revision: after the first save the second finds another revision.
\<close>

lemma second_save_fails:
  assumes "wf w" "cs_SaveCAS store a revn w = (Inr s, w')" "op_Revision a \<noteq> revn"
    and "key (op_TenantID b) (op_WorkspaceID b) (op_ID b) = key (op_TenantID a) (op_WorkspaceID a) (op_ID a)"
  shows "\<exists>e. cs_SaveCAS store b revn w' = (Inl e, w')"
proof (cases "cs_SaveCAS store b revn w'")
  case (Pair res w'')
  from SaveCAS_law [OF assms(1,2)] have wf': "wf w'"
    and o: "ops w' (key (op_TenantID a) (op_WorkspaceID a) (op_ID a)) = Some a" by auto
  show ?thesis
  proof (cases res)
    case (Inl e)
    with Pair SaveCAS_err [OF wf'] show ?thesis by auto
  next
    case (Inr s')
    with Pair SaveCAS_law [OF wf', of b revn s' w''] o assms(3,4) show ?thesis by auto
  qed
qed

end

section \<open>The store in memory keeps the contract\<close>

definition memory_wf :: "'x MemoryStore_scheme \<Rightarrow> bool" where
  "memory_wf w \<longleftrightarrow> go_map (ms_values w) \<and> (\<forall>(k, op) \<in> set (ms_values w). k = op_key op)"

definition memory_ops :: "'x MemoryStore_scheme \<Rightarrow> string \<rightharpoonup> Operation" where
  "memory_ops w = map_of (ms_values w)"

lemma memory_wf_put:
  assumes "memory_wf w"
  shows "memory_wf (memory_put operation w)"
    and "memory_ops (memory_put operation w) = (memory_ops w)(op_key operation \<mapsto> operation)"
proof -
  from assms have g: "go_map (ms_values w)" by (simp add: memory_wf_def)
  then show o: "memory_ops (memory_put operation w) = (memory_ops w)(op_key operation \<mapsto> operation)"
    by (simp add: memory_ops_def memory_put_def)
  have "\<forall>(k, op) \<in> set (map_set (op_key operation) operation (ms_values w)). k = op_key op"
    using assms by (auto simp: memory_wf_def dest!: set_map_set)
  with g show "memory_wf (memory_put operation w)" by (auto simp: memory_wf_def memory_put_def)
qed

lemma ran_memory_ops: "memory_wf w \<Longrightarrow> ran (memory_ops w) = snd ` set (ms_values w)"
  by (simp add: memory_wf_def memory_ops_def go_map_distinct ran_distinct)

lemma memory_FindByIdempotency_run:
  "memory_FindByIdempotency t ws p ik w = (res, w') \<longleftrightarrow>
     w' = w \<and> res = (case find (same_idempotency t ws p ik) (map snd (ms_values w)) of
       Some op \<Rightarrow> Inr op | None \<Rightarrow> Inl (CommandsErr ErrCommandNotFound))"
  by (auto simp: memory_FindByIdempotency_def go_simps split: option.splits)

lemma find_in_set: "find P xs = Some x \<Longrightarrow> P x \<and> x \<in> set xs"
  by (induction xs) (auto split: if_splits)

lemma memory_Create_Inr:
  "memory_Create op w = (Inr u, w') \<Longrightarrow>
     Operation_Validate op = None \<and> memory_ops w (op_key op) = None \<and> w' = memory_put op w
     \<and> (find (same_idempotency (op_TenantID op) (op_WorkspaceID op) (op_PolicyID op) (op_IdempotencyKey op))
            (map snd (ms_values w)) = None
        \<or> (\<exists>x. x \<in> snd ` set (ms_values w) \<and> op_key x = op_key op))"
  unfolding memory_Create_def
  by (auto simp: go_success memory_ops_def fail_Inr memory_FindByIdempotency_run same_idempotency_def op_key_def
      split: option.splits if_splits dest!: find_in_set) force

lemma memory_Create_unique:
  assumes "memory_wf w" "memory_Create op w = (Inr u, w')"
  shows "\<not> (\<exists>x \<in> ran (memory_ops w).
    same_idempotency (op_TenantID op) (op_WorkspaceID op) (op_PolicyID op) (op_IdempotencyKey op) x)"
proof -
  have "\<not> (\<exists>x. x \<in> snd ` set (ms_values w) \<and> op_key x = op_key op)"
  proof
    assume "\<exists>x. x \<in> snd ` set (ms_values w) \<and> op_key x = op_key op"
    then obtain k x where "(k, x) \<in> set (ms_values w)" "op_key x = op_key op" by auto
    with assms(1) have "memory_ops w (op_key op) = Some x"
      by (auto simp: memory_wf_def memory_ops_def go_map_distinct)
    with memory_Create_Inr [OF assms(2)] show False by simp
  qed
  with memory_Create_Inr [OF assms(2)] show ?thesis
    using ran_memory_ops [OF assms(1)] by (auto simp: find_None_iff)
qed

lemma memory_Create_Inl: "memory_Create op w = (Inl e, w') \<Longrightarrow> w' = w"
  unfolding memory_Create_def
  by (auto simp: go_simps split: option.splits if_splits prod.splits sum.splits)
     (auto simp: memory_FindByIdempotency_run)

lemma memory_SaveCAS_Inr:
  "memory_SaveCAS op revn w = (Inr s, w') \<longleftrightarrow>
     (\<exists>cur. memory_ops w (op_key op) = Some cur \<and> op_Revision cur = revn) \<and> s = op \<and> w' = memory_put op w"
  unfolding memory_SaveCAS_def
  by (auto simp: go_success memory_Find_def memory_ops_def op_key_def split: option.splits)

lemma memory_SaveCAS_Inl: "memory_SaveCAS op revn w = (Inl e, w') \<Longrightarrow> w' = w"
  unfolding memory_SaveCAS_def memory_Find_def
  by (auto simp: go_simps split: option.splits if_splits)

interpretation memory_store: command_store memory_Store memory_ops key3 memory_wf
proof (unfold_locales, goal_cases)
  case (1 w t ws i res w')
  then show ?case by (auto simp: memory_Store_def memory_Find_def memory_ops_def go_simps split: option.splits)
next
  case (2 w t ws i op)
  then show ?case by (auto simp: memory_Store_def memory_Find_def memory_ops_def go_simps)
next
  case (3 w t ws p ik res w')
  then show ?case
    using ran_memory_ops [of w]
    by (auto simp: memory_Store_def memory_FindByIdempotency_run find_None_iff dest: find_in_set split: option.splits)
next
  case (4 w op t ws p ik)
  then have "find (same_idempotency t ws p ik) (map snd (ms_values w)) \<noteq> None"
    using ran_memory_ops [of w] by (auto simp: find_None_iff)
  then show ?case by (auto simp: memory_Store_def memory_FindByIdempotency_run)
next
  case (5 w op u w')
  then show ?case
    using memory_Create_unique [of w op u w']
    by (auto simp: memory_Store_def op_key_def memory_wf_put dest!: memory_Create_Inr)
next
  case (6 w op e w')
  then show ?case by (auto simp: memory_Store_def dest: memory_Create_Inl)
next
  case (7 w op revn s w')
  then show ?case by (auto simp: memory_Store_def memory_SaveCAS_Inr op_key_def memory_wf_put)
next
  case (8 w op revn e w')
  then show ?case by (auto simp: memory_Store_def dest: memory_SaveCAS_Inl)
next
  case (9 w k op)
  then show ?case by (auto simp: memory_wf_def memory_ops_def op_key_def dest!: map_of_SomeD)
qed

end
