(* ===== verification/CommandService.thy ===== *)
theory CommandService
  imports CommandStore
begin

text \<open>
  \<open>commands/service.go\<close>: \<open>Submit\<close>, its \<open>dispatch\<close>, \<open>Get\<close> and \<open>ApplyResult\<close>. A service is the
  record of its collaborators; \<open>None\<close> is a nil one. The publisher is NATS and the audit writer
  MongoDB, so both are arguments; what the proofs ask of them is that they leave the
  operations of the store alone (locale \<open>command_gateway\<close>).
\<close>

type_synonym 'w Publisher = "string \<Rightarrow> Envelope \<Rightarrow> ('w, unit) go"

record 'w command_service =
  sv_policies :: "'w PolicyRegistry option"
  sv_store :: "'w CommandStore option"
  sv_authorizer :: "'w PolicyAuthorizer option"
  sv_publisher :: "'w Publisher option"
  sv_audit :: "'w AuditWriter option"

definition operation_envelope :: "Operation \<Rightarrow> Envelope" where
  "operation_envelope operation =
     \<lparr>en_OperationID = op_ID operation, en_TenantID = op_TenantID operation,
      en_WorkspaceID = op_WorkspaceID operation, en_PolicyID = op_PolicyID operation,
      en_OwnerSystem = op_OwnerSystem operation, en_ResourceType = op_ResourceType operation,
      en_Action = op_Action operation, en_Purpose = op_Purpose operation,
      en_ResourceRef = op_ResourceRef operation, en_ExpectedVersion = op_ExpectedVersion operation,
      en_PayloadHash = op_PayloadHash operation, en_Payload = op_Payload operation,
      en_RequestedBy = op_CreatedBy operation, en_CreatedAt = op_CreatedAt operation\<rparr>"

definition dispatched :: "time \<Rightarrow> Operation \<Rightarrow> Operation" where
  "dispatched now operation =
     operation\<lparr>op_Status := StatusDispatched, op_Revision := incr64 (op_Revision operation), op_UpdatedAt := now\<rparr>"

text \<open>\<open>dispatch\<close> publishes and saves; whatever fails, the caller goes on with an operation.\<close>

definition dispatch ::
  "'w CommandStore \<Rightarrow> 'w Publisher option \<Rightarrow> time \<Rightarrow> Operation \<Rightarrow> ('w, Operation) go" where
  "dispatch store publisher now operation =
     (case publisher of
        None \<Rightarrow> ret operation
      | Some publish \<Rightarrow>
          if op_Status operation \<noteq> StatusAccepted then ret operation
          else catchG (publish (commandSubject (op_OwnerSystem operation) (op_Action operation))
                         (operation_envelope operation))
                 (\<lambda>_. ret operation)
                 (\<lambda>_. catchG (cs_SaveCAS store (dispatched now operation) (op_Revision operation))
                          (\<lambda>_. ret operation) ret))"

definition new_operation ::
  "Principal \<Rightarrow> Policy \<Rightarrow> SubmitRequest \<Rightarrow> string \<Rightarrow> string \<Rightarrow> string \<Rightarrow> time \<Rightarrow> Operation" where
  "new_operation prin policy request payload payloadHash operationID now =
     \<lparr>op_ID = operationID, op_TenantID = sq_TenantID request, op_WorkspaceID = sq_WorkspaceID request,
      op_PolicyID = po_ID policy, op_OwnerSystem = po_OwnerSystem policy, op_ResourceType = po_ResourceType policy,
      op_Action = po_Action policy, op_Purpose = po_Purpose policy, op_ResourceRef = sq_ResourceRef request,
      op_ExpectedVersion = sq_ExpectedVersion request, op_PayloadHash = payloadHash, op_Payload = payload,
      op_IdempotencyKey = sq_IdempotencyKey request, op_RequestID = sq_RequestID request,
      op_Status = StatusAccepted, op_Revision = 1, op_SafeError = [], op_ResultEventID = [], op_ResultHash = [],
      op_ResultVersion = None, op_CreatedBy = identityKey prin, op_CreatedAt = now, op_UpdatedAt = now\<rparr>"

definition submit_entry :: "Operation \<Rightarrow> AuditEntry" where
  "submit_entry operation = empty_AuditEntry
     \<lparr>ae_TenantID := op_TenantID operation, ae_WorkspaceID := op_WorkspaceID operation,
      ae_Action := ''command.submit'', ae_Actor := op_CreatedBy operation, ae_ResourceType := ''CommandOperation'',
      ae_ResourceID := op_ID operation, ae_ResourceVersion := op_Revision operation,
      ae_RequestID := op_RequestID operation, ae_IdempotencyKey := op_IdempotencyKey operation,
      ae_AfterHash := op_PayloadHash operation, ae_CreatedAt := op_CreatedAt operation\<rparr>"

text \<open>An audit failure is noted in the operation that is dispatched and returned.\<close>

definition audit_submit :: "'w AuditWriter option \<Rightarrow> Operation \<Rightarrow> ('w, Operation) go" where
  "audit_submit audit operation =
     (case audit of
        None \<Rightarrow> ret operation
      | Some appendEntry \<Rightarrow>
          catchG (appendEntry (submit_entry operation))
            (\<lambda>_. ret (operation\<lparr>op_SafeError := ''audit unavailable''\<rparr>)) (\<lambda>_. ret operation))"

text \<open>The steps of \<open>Submit\<close> that decide whether the request may be executed at all.\<close>

definition binding_request :: "SubmitRequest \<Rightarrow> Policy \<Rightarrow> BindingAuthorization" where
  "binding_request request policy =
     \<lparr>ba_TenantID = sq_TenantID request, ba_WorkspaceID = sq_WorkspaceID request, ba_Purpose = po_Purpose policy,
      ba_RecordRef = sq_ResourceRef request, ba_ResourceSystem = po_OwnerSystem policy,
      ba_ResourceType = po_ResourceType policy\<rparr>"

definition admit ::
  "'w PolicyRegistry \<Rightarrow> 'w PolicyAuthorizer \<Rightarrow> Principal \<Rightarrow> SubmitRequest \<Rightarrow> string \<Rightarrow> ('w, Policy) go" where
  "admit policies authorize prin request payload =
     (if p_Kind prin \<noteq> PrincipalService \<or> p_Issuer prin = [] \<or> p_Subject prin = []
      then fail (CommandsErr ErrCommandPolicyDenied)
      else bindG (policies (sq_TenantID request) (sq_WorkspaceID request) (sq_PolicyID request)) (\<lambda>policy.
        if po_MaxPayloadBytes policy > 0 \<and> int (length payload) > po_MaxPayloadBytes policy
        then fail (CommandsErr ErrCommandPayloadTooLarge)
        else catchG (pureG (ParseRecordRef (sq_ResourceRef request)))
          (\<lambda>_. fail (CommandsErr ErrCommandPolicyDenied))
          (\<lambda>reference.
             if rr_System reference \<noteq> po_OwnerSystem policy \<or> rr_Type reference \<noteq> po_ResourceType policy
             then fail (CommandsErr ErrCommandPolicyDenied)
             else if po_ExpectedVersionRequired policy \<and> sq_ExpectedVersion request = None
             then fail (CommandsErr ErrCommandExpectedVersion)
             else catchG (authorize prin (binding_request request policy))
               (\<lambda>_. fail (CommandsErr ErrCommandPolicyDenied)) (\<lambda>_. ret policy))))"

definition create_operation ::
  "'w command_service \<Rightarrow> 'w CommandStore \<Rightarrow> time \<Rightarrow> ('w, string) go \<Rightarrow> Principal \<Rightarrow> Policy \<Rightarrow> SubmitRequest
     \<Rightarrow> string \<Rightarrow> string \<Rightarrow> ('w, Operation \<times> bool) go" where
  "create_operation service store now newID prin policy request payload payloadHash =
     catchG newID (\<lambda>_. fail (CommandsErr ErrCommandUnavailable)) (\<lambda>operationID.
     let operation = new_operation prin policy request payload payloadHash operationID now in
     bindG (checkG (Operation_Validate operation)) (\<lambda>_.
     catchG (cs_Create store operation)
       (\<lambda>err. if errors_is err (CommandsErr ErrCommandExists) then
           catchG (cs_FindByIdempotency store (sq_TenantID request) (sq_WorkspaceID request) (po_ID policy)
                     (sq_IdempotencyKey request))
             (\<lambda>_. fail (CommandsErr ErrCommandIdempotency))
             (\<lambda>existing. if op_PayloadHash existing = payloadHash then ret (existing, True)
                else fail (CommandsErr ErrCommandIdempotency))
          else fail err)
       (\<lambda>_. bindG (audit_submit (sv_audit service) operation) (\<lambda>audited.
            bindG (dispatch store (sv_publisher service) now audited) (\<lambda>sent. ret (sent, False))))))"

definition Submit ::
  "'w command_service \<Rightarrow> time \<Rightarrow> ('w, string) go \<Rightarrow> Principal \<Rightarrow> SubmitRequest \<Rightarrow> ('w, Operation \<times> bool) go" where
  "Submit service now newID prin r0 =
     (case (sv_policies service, sv_store service, sv_authorizer service) of
        (Some policies, Some store, Some authorize) \<Rightarrow>
          bindG (pureG (normalizeRequest r0)) (\<lambda>(request, payload, payloadHash).
          bindG (admit policies authorize prin request payload) (\<lambda>policy.
          catchG (cs_FindByIdempotency store (sq_TenantID request) (sq_WorkspaceID request) (po_ID policy)
                    (sq_IdempotencyKey request))
            (\<lambda>err. if \<not> errors_is err (CommandsErr ErrCommandNotFound) then fail err
               else create_operation service store now newID prin policy request payload payloadHash)
            (\<lambda>existing. if op_PayloadHash existing \<noteq> payloadHash then fail (CommandsErr ErrCommandIdempotency)
               else if op_Status existing = StatusAccepted
                 then bindG (dispatch store (sv_publisher service) now existing) (\<lambda>sent. ret (sent, True))
               else ret (existing, True))))
      | _ \<Rightarrow> fail (CommandsErr ErrCommandUnavailable))"

definition command_Get ::
  "'w command_service \<Rightarrow> Principal \<Rightarrow> string \<Rightarrow> string \<Rightarrow> string \<Rightarrow> ('w, Operation) go" where
  "command_Get service prin tenantID workspaceID operationID =
     (case (sv_policies service, sv_store service, sv_authorizer service) of
        (Some policies, Some store, Some authorize) \<Rightarrow>
          bindG (cs_Find store (TrimSpace tenantID) (TrimSpace workspaceID) (TrimSpace operationID)) (\<lambda>operation.
          if p_Kind prin \<noteq> PrincipalService \<or> p_Issuer prin = [] \<or> p_Subject prin = []
          then fail (CommandsErr ErrCommandPolicyDenied)
          else catchG (policies (op_TenantID operation) (op_WorkspaceID operation) (op_PolicyID operation))
            (\<lambda>_. fail (CommandsErr ErrCommandPolicyDenied))
            (\<lambda>policy. catchG (authorize prin
                 \<lparr>ba_TenantID = op_TenantID operation, ba_WorkspaceID = op_WorkspaceID operation,
                  ba_Purpose = po_Purpose policy, ba_RecordRef = op_ResourceRef operation,
                  ba_ResourceSystem = po_OwnerSystem policy, ba_ResourceType = po_ResourceType policy\<rparr>)
               (\<lambda>_. fail (CommandsErr ErrCommandPolicyDenied)) (\<lambda>_. ret operation)))
      | _ \<Rightarrow> fail (CommandsErr ErrCommandUnavailable))"

definition same_result :: "Operation \<Rightarrow> ResultEnvelope \<Rightarrow> bool" where
  "same_result operation result \<longleftrightarrow>
     op_ResultEventID operation = re_EventID result \<and> op_Status operation = re_Status result
     \<and> op_ResultHash operation = re_ResultHash result \<and> op_SafeError operation = re_SafeError result
     \<and> op_ResultVersion operation = re_ResultVersion result"

definition with_result :: "time \<Rightarrow> Operation \<Rightarrow> ResultEnvelope \<Rightarrow> Operation" where
  "with_result now operation result =
     operation\<lparr>op_Status := re_Status result, op_SafeError := re_SafeError result,
       op_ResultEventID := re_EventID result, op_ResultHash := re_ResultHash result,
       op_ResultVersion := re_ResultVersion result, op_Revision := incr64 (op_Revision operation),
       op_UpdatedAt := (if re_OccurredAt result < op_UpdatedAt operation then now else re_OccurredAt result)\<rparr>"

definition result_entry :: "Operation \<Rightarrow> AuditEntry" where
  "result_entry saved = empty_AuditEntry
     \<lparr>ae_TenantID := op_TenantID saved, ae_WorkspaceID := op_WorkspaceID saved, ae_Action := ''command.result'',
      ae_Actor := \<lparr>ik_Issuer = op_OwnerSystem saved, ik_Subject = op_OwnerSystem saved\<rparr>,
      ae_ResourceType := ''CommandOperation'', ae_ResourceID := op_ID saved,
      ae_ResourceVersion := op_Revision saved, ae_AfterHash := op_ResultHash saved, ae_CreatedAt := op_UpdatedAt saved\<rparr>"

definition ApplyResult ::
  "'w command_service \<Rightarrow> time \<Rightarrow> ResultEnvelope \<Rightarrow> ('w, Operation \<times> bool) go" where
  "ApplyResult service now result =
     (case sv_store service of
        None \<Rightarrow> fail (CommandsErr ErrCommandUnavailable)
      | Some store \<Rightarrow>
          bindG (checkG (ResultEnvelope_Validate result)) (\<lambda>_.
          bindG (cs_Find store (re_TenantID result) (re_WorkspaceID result) (re_OperationID result)) (\<lambda>operation.
          if op_OwnerSystem operation \<noteq> re_OwnerSystem result \<or> op_Action operation \<noteq> re_Action result
          then fail (CommandsErr ErrCommandResultConflict)
          else if op_Status operation \<noteq> StatusAccepted \<and> op_Status operation \<noteq> StatusDispatched then
            (if same_result operation result then ret (operation, True)
             else fail (CommandsErr ErrCommandResultConflict))
          else bindG (cs_SaveCAS store (with_result now operation result) (op_Revision operation)) (\<lambda>saved.
            case sv_audit service of
              None \<Rightarrow> ret (saved, False)
            | Some appendEntry \<Rightarrow> catchG (appendEntry (result_entry saved)) (\<lambda>_. ret (saved, False)) (\<lambda>_. ret (saved, False))))))"

section \<open>How one call moves the operations\<close>

text \<open>The part of an operation no call may change.\<close>

definition same_core :: "Operation \<Rightarrow> Operation \<Rightarrow> bool" where
  "same_core a b \<longleftrightarrow>
     op_ID a = op_ID b \<and> op_TenantID a = op_TenantID b \<and> op_WorkspaceID a = op_WorkspaceID b
     \<and> op_PolicyID a = op_PolicyID b \<and> op_OwnerSystem a = op_OwnerSystem b \<and> op_ResourceType a = op_ResourceType b
     \<and> op_Action a = op_Action b \<and> op_Purpose a = op_Purpose b \<and> op_ResourceRef a = op_ResourceRef b
     \<and> op_ExpectedVersion a = op_ExpectedVersion b \<and> op_PayloadHash a = op_PayloadHash b
     \<and> op_Payload a = op_Payload b \<and> op_IdempotencyKey a = op_IdempotencyKey b \<and> op_RequestID a = op_RequestID b
     \<and> op_CreatedBy a = op_CreatedBy b \<and> op_CreatedAt a = op_CreatedAt b"

lemma same_core_refl [simp]: "same_core a a"
  by (simp add: same_core_def)

lemma same_core_trans: "same_core a b \<Longrightarrow> same_core b c \<Longrightarrow> same_core a c"
  by (simp add: same_core_def)

lemma same_core_dispatched [simp]: "same_core op (dispatched now op)"
  by (simp add: same_core_def dispatched_def)

lemma same_core_with_result [simp]: "same_core op (with_result now op r)"
  by (simp add: same_core_def with_result_def)

text \<open>
  The life of an operation: accepted, dispatched, terminal; each change adds one to the
  revision, and nothing leaves a terminal status.
\<close>

inductive op_step :: "Operation \<Rightarrow> Operation \<Rightarrow> bool" where
  op_dispatch: "op_Status a = StatusAccepted \<Longrightarrow> op_Status b = StatusDispatched \<Longrightarrow> same_core a b
     \<Longrightarrow> op_Revision b = incr64 (op_Revision a) \<Longrightarrow> op_step a b"
| op_result: "\<not> terminal (op_Status a) \<Longrightarrow> terminal (op_Status b) \<Longrightarrow> same_core a b
     \<Longrightarrow> op_Revision b = incr64 (op_Revision a) \<Longrightarrow> op_step a b"

inductive_cases op_stepE: "op_step a b"

lemma op_step_core: "op_step a b \<Longrightarrow> same_core a b"
  by (auto elim: op_stepE)

lemma op_step_not_terminal: "op_step a b \<Longrightarrow> \<not> terminal (op_Status a)"
  by (auto elim!: op_stepE simp: terminal_def)

lemma op_steps_terminal: "op_step\<^sup>*\<^sup>* a b \<Longrightarrow> terminal (op_Status a) \<Longrightarrow> b = a"
  by (induction rule: converse_rtranclp_induct) (auto dest: op_step_not_terminal)

lemma op_steps_core: "op_step\<^sup>*\<^sup>* a b \<Longrightarrow> same_core a b"
  by (induction rule: rtranclp_induct) (auto intro: same_core_trans dest: op_step_core)

text \<open>What a call may do to the operation under a key.\<close>

definition evolves :: "Operation option \<Rightarrow> Operation option \<Rightarrow> bool" where
  "evolves old new =
     (case (old, new) of
        (None, None) \<Rightarrow> True
      | (None, Some b) \<Rightarrow> \<exists>a. op_Status a = StatusAccepted \<and> op_Revision a = 1 \<and> op_step\<^sup>*\<^sup>* a b
      | (Some a, Some b) \<Rightarrow> op_step\<^sup>*\<^sup>* a b
      | (Some a, None) \<Rightarrow> False)"

lemma evolves_refl [simp]: "evolves o1 o1"
  by (simp add: evolves_def split: option.split)

lemma evolves_Some [simp]: "evolves (Some a) (Some b) \<longleftrightarrow> op_step\<^sup>*\<^sup>* a b"
  by (simp add: evolves_def)

lemma evolves_Some_None [simp]: "\<not> evolves (Some a) None"
  by (simp add: evolves_def)

lemma evolves_trans: "evolves a b \<Longrightarrow> evolves b c \<Longrightarrow> evolves a c"
  by (auto simp: evolves_def split: option.splits intro: rtranclp_trans)

text \<open>No two operations of a scope share a policy and an idempotency key.\<close>

definition idem_unique :: "('k \<rightharpoonup> Operation) \<Rightarrow> bool" where
  "idem_unique m \<longleftrightarrow> (\<forall>k k' a b. m k = Some a \<longrightarrow> m k' = Some b \<longrightarrow>
     same_idempotency (op_TenantID b) (op_WorkspaceID b) (op_PolicyID b) (op_IdempotencyKey b) a \<longrightarrow> k = k')"

lemma idem_unique_save:
  "idem_unique m \<Longrightarrow> m k = Some cur \<Longrightarrow> same_core cur new \<Longrightarrow> idem_unique (m(k \<mapsto> new))"
  unfolding idem_unique_def same_core_def same_idempotency_def by (auto split: if_splits)

lemma idem_unique_create:
  assumes "idem_unique m" "m k = None"
    "\<not> (\<exists>x \<in> ran m. same_idempotency (op_TenantID new) (op_WorkspaceID new) (op_PolicyID new) (op_IdempotencyKey new) x)"
  shows "idem_unique (m(k \<mapsto> new))"
  using assms unfolding idem_unique_def same_idempotency_def by (auto simp: ran_def split: if_splits)

text \<open>A call that neither reads nor changes the state.\<close>

definition stateless :: "('w, 'a) go \<Rightarrow> bool" where
  "stateless m \<longleftrightarrow> (\<exists>r. \<forall>w. m w = (r, w))"

lemma statelessD: "stateless m \<Longrightarrow> m w = (r, w') \<Longrightarrow> w' = w \<and> (\<forall>v. m v = (r, v))"
  by (auto simp: stateless_def)

lemma stateless_pureG [simp]: "stateless (pureG r)"
  by (simp add: stateless_def pureG_def)

section \<open>The calls of a gateway\<close>

text \<open>The reading of the clock and the outcome of the random generator are part of a call.\<close>

datatype gateway_call =
    CallSubmit time "goerr + string" Principal SubmitRequest
  | CallApplyResult time ResultEnvelope
  | CallGet Principal string string string

fun gateway_exec :: "'w command_service \<Rightarrow> gateway_call \<Rightarrow> 'w \<Rightarrow> 'w" where
  "gateway_exec service (CallSubmit now newID prin request) w = snd (Submit service now (pureG newID) prin request w)"
| "gateway_exec service (CallApplyResult now result) w = snd (ApplyResult service now result w)"
| "gateway_exec service (CallGet prin t ws i) w = snd (command_Get service prin t ws i w)"

definition gateway_run :: "'w command_service \<Rightarrow> gateway_call list \<Rightarrow> 'w \<Rightarrow> 'w" where
  "gateway_run service calls w = fold (gateway_exec service) calls w"

locale command_gateway = command_store store ops key wf
  for store :: "'w CommandStore" and ops :: "'w \<Rightarrow> 'k \<rightharpoonup> Operation"
    and key :: "string \<Rightarrow> string \<Rightarrow> string \<Rightarrow> 'k" and wf :: "'w \<Rightarrow> bool" +
  fixes service :: "'w command_service"
  assumes service_store: "sv_store service = Some store"
    and policies_stateless: "sv_policies service = Some f \<Longrightarrow> stateless (f t ws p)"
    and authorizer_stateless: "sv_authorizer service = Some g \<Longrightarrow> stateless (g prin request)"
    and publisher_frame: "sv_publisher service = Some publish \<Longrightarrow> wf w \<Longrightarrow> publish subject e w = (res, w')
      \<Longrightarrow> wf w' \<and> ops w' = ops w"
    and audit_frame: "sv_audit service = Some appendEntry \<Longrightarrow> wf w \<Longrightarrow> appendEntry entry w = (res', w')
      \<Longrightarrow> wf w' \<and> ops w' = ops w"
begin

definition evolved :: "'w \<Rightarrow> 'w \<Rightarrow> bool" where
  "evolved w w' \<longleftrightarrow> wf w' \<and> (\<forall>k. evolves (ops w k) (ops w' k)) \<and> (idem_unique (ops w) \<longrightarrow> idem_unique (ops w'))"

lemma evolved_refl: "wf w \<Longrightarrow> evolved w w"
  by (simp add: evolved_def)

lemma evolved_frame: "wf w' \<Longrightarrow> ops w' = ops w \<Longrightarrow> evolved w w'"
  by (simp add: evolved_def)

lemma evolved_trans: "evolved u v \<Longrightarrow> evolved v w \<Longrightarrow> evolved u w"
  unfolding evolved_def by (blast intro: evolves_trans)

lemma evolved_wf: "evolved w w' \<Longrightarrow> wf w'"
  by (simp add: evolved_def)

text \<open>Saving a successor of the stored operation.\<close>

lemma evolved_save:
  assumes "wf w" "cs_SaveCAS store new revn w = (res, w')"
    and "\<And>cur. ops w (key (op_TenantID new) (op_WorkspaceID new) (op_ID new)) = Some cur \<Longrightarrow>
           op_Revision cur = revn \<Longrightarrow> op_step cur new"
  shows "evolved w w'"
proof (cases res)
  case (Inl e)
  with assms SaveCAS_err show ?thesis by (metis evolved_refl)
next
  case (Inr s)
  with assms(2) SaveCAS_law [OF assms(1)] obtain cur where
    "wf w'" "ops w (key (op_TenantID new) (op_WorkspaceID new) (op_ID new)) = Some cur" "op_Revision cur = revn"
    "ops w' = (ops w)(key (op_TenantID new) (op_WorkspaceID new) (op_ID new) \<mapsto> new)" by metis
  with assms(3) [of cur] show ?thesis by (auto simp: evolved_def intro: idem_unique_save op_step_core)
qed

lemma dispatch_evolved:
  assumes w: "wf w"
    and o1: "\<And>cur. ops w (key (op_TenantID o1) (op_WorkspaceID o1) (op_ID o1)) = Some cur \<Longrightarrow>
           same_core cur o1 \<and> op_Status cur = op_Status o1 \<and> op_Revision cur = op_Revision o1"
    and d: "dispatch store (sv_publisher service) now o1 w = (res, w')"
  shows "evolved w w'"
proof (cases "sv_publisher service = None \<or> op_Status o1 \<noteq> StatusAccepted")
  case True
  with d w show ?thesis by (auto simp: dispatch_def go_simps evolved_refl split: option.splits if_splits)
next
  case False
  then obtain publish where p: "sv_publisher service = Some publish" and a: "op_Status o1 = StatusAccepted" by auto
  obtain r w1 where r: "publish (commandSubject (op_OwnerSystem o1) (op_Action o1)) (operation_envelope o1) w = (r, w1)"
    by fastforce
  with p w publisher_frame have w1: "wf w1" "ops w1 = ops w" by blast+
  show ?thesis
  proof (cases r)
    case (Inl e)
    with d p a r w1 show ?thesis by (auto simp: dispatch_def go_simps intro: evolved_frame)
  next
    case (Inr u)
    obtain r2 w2 where s: "cs_SaveCAS store (dispatched now o1) (op_Revision o1) w1 = (r2, w2)" by fastforce
    with d p a r Inr have "w' = w2" by (auto simp: dispatch_def go_simps split: sum.splits)
    moreover have "op_step cur (dispatched now o1)"
      if "ops w1 (key (op_TenantID (dispatched now o1)) (op_WorkspaceID (dispatched now o1)) (op_ID (dispatched now o1))) = Some cur" for cur
    proof -
      from that w1 have "same_core cur o1 \<and> op_Status cur = op_Status o1 \<and> op_Revision cur = op_Revision o1"
        by (intro o1) (simp add: dispatched_def)
      with a show ?thesis
        by (intro op_dispatch) (auto simp: dispatched_def same_core_def)
    qed
    ultimately show ?thesis using evolved_save [OF w1(1) s] w1 by (metis evolved_frame evolved_trans)
  qed
qed

lemma admit_stateless:
  assumes "sv_policies service = Some f" "sv_authorizer service = Some g"
  shows "stateless (admit f g prin request payload)"
proof -
  have f: "stateless (f t ws p)" for t ws p using assms(1) by (rule policies_stateless)
  have g: "stateless (g prin r)" for r using assms(2) by (rule authorizer_stateless)
  obtain rf where rf: "\<And>w. f (sq_TenantID request) (sq_WorkspaceID request) (sq_PolicyID request) w = (rf, w)"
    using f unfolding stateless_def by metis
  obtain rg where rg: "\<And>r w. g prin r w = (rg r, w)"
    using g unfolding stateless_def by metis
  show ?thesis
    unfolding stateless_def admit_def
    by (cases rf; cases "ParseRecordRef (sq_ResourceRef request)"; cases "rg (binding_request request (projr rf))")
       (auto simp: go_simps rf rg)
qed

lemma create_evolved:
  assumes w: "wf w" and c: "create_operation service store now (pureG newID) prin policy request payload hash w = (res, w')"
  shows "evolved w w'"
proof (cases newID)
  case (Inl e)
  with c w show ?thesis by (auto simp: create_operation_def go_simps evolved_refl)
next
  case (Inr i)
  define o1 where "o1 = new_operation prin policy request payload hash i now"
  obtain r w1 where r: "cs_Create store o1 w = (r, w1)" by fastforce
  consider (invalid) "Operation_Validate o1 \<noteq> None" | (refused) e where "Operation_Validate o1 = None" "r = Inl e"
    | (created) "Operation_Validate o1 = None" "r = Inr ()" by (cases r) auto
  then show ?thesis
  proof cases
    case invalid
    with c w Inr show ?thesis by (auto simp: create_operation_def o1_def [symmetric] Let_def go_simps evolved_refl)
  next
    case (refused e)
    with r Create_err [OF w] have "w1 = w" by blast
    with c w Inr r refused show ?thesis
      by (auto simp: create_operation_def o1_def [symmetric] Let_def go_simps evolved_refl
          split: if_splits prod.splits sum.splits dest!: Idempotency_law [OF w])
  next
    case created
    let ?k = "key (op_TenantID o1) (op_WorkspaceID o1) (op_ID o1)"
    from Create_law [OF w] r created have w1: "wf w1" "ops w ?k = None" "ops w1 = (ops w)(?k \<mapsto> o1)"
      and fresh: "\<not> (\<exists>x \<in> ran (ops w). same_idempotency (op_TenantID o1) (op_WorkspaceID o1) (op_PolicyID o1)
          (op_IdempotencyKey o1) x)" by blast+
    have "op_Status o1 = StatusAccepted" "op_Revision o1 = 1" by (simp_all add: o1_def new_operation_def)
    with w1 fresh have e1: "evolved w w1"
      by (auto simp: evolved_def evolves_def intro: idem_unique_create split: option.split)
    obtain r2 w2 where r2: "audit_submit (sv_audit service) o1 w1 = (r2, w2)" by fastforce
    then have w2: "wf w2" "ops w2 = ops w1"
      using audit_frame w1(1)
      by (auto simp: audit_submit_def go_simps split: option.splits prod.splits sum.splits)
    from r2 obtain o2 where o2: "r2 = Inr o2" "same_core o1 o2" "op_Status o2 = op_Status o1" "op_Revision o2 = op_Revision o1"
      by (auto simp: audit_submit_def go_simps same_core_def split: option.splits prod.splits sum.splits)
    obtain r3 w3 where r3: "dispatch store (sv_publisher service) now o2 w2 = (r3, w3)" by fastforce
    have "evolved w2 w3"
    proof (rule dispatch_evolved [OF w2(1) _ r3])
      fix cur
      assume "ops w2 (key (op_TenantID o2) (op_WorkspaceID o2) (op_ID o2)) = Some cur"
      with w2 w1 o2 have "cur = o1" by (simp add: same_core_def)
      with o2 show "same_core cur o2 \<and> op_Status cur = op_Status o2 \<and> op_Revision cur = op_Revision o2" by simp
    qed
    moreover from c Inr r created r2 o2 r3 have "w' = w3"
      by (auto simp: create_operation_def o1_def [symmetric] Let_def go_simps split: sum.splits)
    ultimately show ?thesis using e1 w2 by (metis evolved_frame evolved_trans)
  qed
qed

lemma Submit_evolved:
  assumes w: "wf w" and s: "Submit service now (pureG newID) prin r0 w = (res, w')"
  shows "evolved w w'"
proof (cases "(\<exists>f. sv_policies service = Some f) \<and> (\<exists>g. sv_authorizer service = Some g) \<and> (\<exists>n. normalizeRequest r0 = Inr n)")
  case False
  with s w service_store show ?thesis
    by (auto simp: Submit_def go_simps evolved_refl split: option.splits sum.splits)
next
  case True
  then obtain f g q payload hash where f: "sv_policies service = Some f" and g: "sv_authorizer service = Some g"
    and n: "normalizeRequest r0 = Inr (q, payload, hash)" by (metis prod_cases3)
  obtain ra where ra: "\<And>v. admit f g prin q payload v = (ra, v)"
    using admit_stateless [OF f g] unfolding stateless_def by metis
  show ?thesis
  proof (cases ra)
    case (Inl e)
    with s w f g n ra service_store show ?thesis by (auto simp: Submit_def go_simps evolved_refl)
  next
    case (Inr policy)
    obtain rf w1 where rf: "cs_FindByIdempotency store (sq_TenantID q) (sq_WorkspaceID q) (po_ID policy)
        (sq_IdempotencyKey q) w = (rf, w1)" by fastforce
    have w1: "w1 = w" using Idempotency_law [OF w rf] by blast
    show ?thesis
    proof (cases rf)
      case (Inl e)
      with s f g n ra Inr rf w1 service_store w create_evolved [OF w] show ?thesis
        by (auto simp: Submit_def go_simps evolved_refl split: if_splits)
    next
      case (Inr existing)
      then have in_ops: "existing \<in> ran (ops w)" using Idempotency_law [OF w rf] by blast
      have d: "dispatch store (sv_publisher service) now existing w = (r2, w2) \<Longrightarrow> evolved w w2" for r2 w2
      proof (rule dispatch_evolved [OF w])
        fix cur
        assume "ops w (key (op_TenantID existing) (op_WorkspaceID existing) (op_ID existing)) = Some cur"
        with in_ops stored_key [OF w] have "cur = existing" by (auto simp: ran_def)
        then show "same_core cur existing \<and> op_Status cur = op_Status existing \<and> op_Revision cur = op_Revision existing"
          by simp
      qed
      from s f g n ra \<open>ra = Inr policy\<close> Inr rf w1 service_store w show ?thesis
        by (auto simp: Submit_def go_simps evolved_refl d split: if_splits prod.splits sum.splits)
    qed
  qed
qed

lemma ApplyResult_evolved:
  assumes w: "wf w" and a: "ApplyResult service now result w = (res, w')"
  shows "evolved w w'"
proof (cases "ResultEnvelope_Validate result")
  case (Some e)
  with a w service_store show ?thesis by (auto simp: ApplyResult_def go_simps evolved_refl)
next
  case None
  let ?k = "key (re_TenantID result) (re_WorkspaceID result) (re_OperationID result)"
  obtain rf w1 where rf: "cs_Find store (re_TenantID result) (re_WorkspaceID result) (re_OperationID result) w = (rf, w1)"
    by fastforce
  have w1: "w1 = w" using Find_law [OF w rf] by blast
  show ?thesis
  proof (cases rf)
    case (Inl e)
    with a None rf w1 w service_store show ?thesis by (auto simp: ApplyResult_def go_simps evolved_refl)
  next
    case (Inr op)
    with Find_law [OF w rf] have op: "ops w ?k = Some op" by blast
    with stored_key [OF w] have k: "?k = key (op_TenantID op) (op_WorkspaceID op) (op_ID op)" by blast
    obtain r2 w2 where s: "cs_SaveCAS store (with_result now op result) (op_Revision op) w = (r2, w2)" by fastforce
    have e: "evolved w w2" if "\<not> terminal (op_Status op)"
    proof (rule evolved_save [OF w s])
      fix cur
      assume "ops w (key (op_TenantID (with_result now op result)) (op_WorkspaceID (with_result now op result))
          (op_ID (with_result now op result))) = Some cur"
      with op k have "cur = op" by (simp add: with_result_def)
      with that None show "op_step cur (with_result now op result)"
        by (intro op_result) (auto simp: with_result_def same_core_def ResultEnvelope_valid_terminal)
    qed
    have au: "evolved w w3" if "sv_audit service = Some ap" "ap entry w2 = (r3, w3)" "\<not> terminal (op_Status op)" for ap entry r3 w3
      using that e audit_frame evolved_wf evolved_frame evolved_trans by metis
    from a None rf w1 Inr w service_store s e au show ?thesis
      by (auto simp: ApplyResult_def go_simps evolved_refl terminal_def
          split: if_splits sum.splits option.splits prod.splits)
  qed
qed

lemma Get_evolved:
  assumes w: "wf w" and g: "command_Get service prin t ws i w = (res, w')"
  shows "evolved w w'"
proof -
  have f: "stateless (f t ws p)" if "sv_policies service = Some f" for f t ws p using that by (rule policies_stateless)
  have a: "stateless (g p r)" if "sv_authorizer service = Some g" for g p r using that by (rule authorizer_stateless)
  from g w service_store show ?thesis
    by (auto simp: command_Get_def go_simps evolved_refl split: option.splits if_splits prod.splits sum.splits
        dest!: Find_law [OF w] statelessD [OF f] statelessD [OF a])
qed

lemma exec_evolved: "wf w \<Longrightarrow> evolved w (gateway_exec service c w)"
  by (cases c) (auto intro: Submit_evolved ApplyResult_evolved Get_evolved surjective_pairing)

lemma run_evolved: "wf w \<Longrightarrow> evolved w (gateway_run service calls w)"
proof (induction calls arbitrary: w)
  case Nil
  then show ?case by (simp add: gateway_run_def evolved_refl)
next
  case (Cons c calls)
  have "evolved w (gateway_exec service c w)" by (rule exec_evolved) (rule Cons.prems)
  moreover from this have "evolved (gateway_exec service c w) (gateway_run service calls (gateway_exec service c w))"
    by (intro Cons.IH) (rule evolved_wf)
  ultimately show ?case by (simp add: gateway_run_def evolved_trans)
qed

text \<open>Nothing a gateway does changes or removes an operation in a terminal status.\<close>

lemma terminal_final:
  assumes "wf w" "ops w k = Some op" "terminal (op_Status op)"
  shows "ops (gateway_run service calls w) k = Some op"
proof -
  have "evolves (ops w k) (ops (gateway_run service calls w) k)"
    using run_evolved [OF assms(1)] by (simp add: evolved_def)
  with assms(2,3) show ?thesis
    by (cases "ops (gateway_run service calls w) k") (auto dest: op_steps_terminal)
qed

text \<open>Submitting a request again finds the operation of the first time.\<close>

lemma find_unique:
  assumes w: "wf w" "idem_unique (ops w)" and o1: "ops w k = Some o1"
    and same: "same_idempotency t ws p ik o1"
  shows "cs_FindByIdempotency store t ws p ik w = (Inr o1, w)"
proof -
  from o1 have "o1 \<in> ran (ops w)" by (auto simp: ran_def)
  with Idempotency_hit [OF w(1) _ same] obtain o2 where f: "cs_FindByIdempotency store t ws p ik w = (Inr o2, w)" by blast
  with Idempotency_law [OF w(1)] obtain k2 where o2: "same_idempotency t ws p ik o2" "ops w k2 = Some o2"
    by (auto simp: ran_def) blast
  have "k2 = k"
    using w(2) o1 o2 same unfolding idem_unique_def same_idempotency_def by metis
  with o1 o2 f show ?thesis by simp
qed

text \<open>What a successful submission returned is stored, up to the note of an audit failure.\<close>

definition stored_as :: "'w \<Rightarrow> Operation \<Rightarrow> bool" where
  "stored_as w op \<longleftrightarrow> (\<exists>cur. ops w (key (op_TenantID op) (op_WorkspaceID op) (op_ID op)) = Some cur \<and> same_core cur op)"

lemma stored_in: "wf w \<Longrightarrow> op \<in> ran (ops w) \<Longrightarrow> stored_as w op"
proof -
  assume w: "wf w" and "op \<in> ran (ops w)"
  then obtain k where k: "ops w k = Some op" by (auto simp: ran_def)
  with stored_key [OF w k] show ?thesis by (auto simp: stored_as_def)
qed

lemma dispatch_stored:
  assumes w: "wf w" and o1: "stored_as w o1"
    and d: "dispatch store (sv_publisher service) now o1 w = (res, w')"
  shows "\<exists>o2. res = Inr o2 \<and> same_core o1 o2 \<and> stored_as w' o2"
proof (cases "sv_publisher service = None \<or> op_Status o1 \<noteq> StatusAccepted")
  case True
  with d o1 show ?thesis by (auto simp: dispatch_def go_simps split: option.splits if_splits)
next
  case False
  then obtain publish where p: "sv_publisher service = Some publish" and a: "op_Status o1 = StatusAccepted" by auto
  obtain r w1 where r: "publish (commandSubject (op_OwnerSystem o1) (op_Action o1)) (operation_envelope o1) w = (r, w1)"
    by fastforce
  with p w publisher_frame have w1: "wf w1" "ops w1 = ops w" by blast+
  with o1 have s1: "stored_as w1 o1" by (simp add: stored_as_def)
  obtain r2 w2 where s: "cs_SaveCAS store (dispatched now o1) (op_Revision o1) w1 = (r2, w2)" by fastforce
  show ?thesis
  proof (cases r2)
    case (Inl e)
    with s SaveCAS_err [OF w1(1)] have "w2 = w1" by blast
    with d p a r s s1 Inl show ?thesis by (auto simp: dispatch_def go_simps split: sum.splits)
  next
    case (Inr o2)
    with s SaveCAS_law [OF w1(1)] have o2: "o2 = dispatched now o1"
      and ops: "ops w2 = (ops w1)(key (op_TenantID o2) (op_WorkspaceID o2) (op_ID o2) \<mapsto> o2)" by blast+
    have "stored_as w2 o2" unfolding stored_as_def using ops by auto
    moreover have "same_core o1 o2" using o2 by simp
    ultimately show ?thesis
      using d p a r s s1 Inr by (auto simp: dispatch_def go_simps split: sum.splits)
  qed
qed

text \<open>The scoped idempotency key of a normalised request, on an operation.\<close>

definition answers :: "SubmitRequest \<Rightarrow> string \<Rightarrow> Operation \<Rightarrow> bool" where
  "answers q hash op \<longleftrightarrow>
     same_idempotency (sq_TenantID q) (sq_WorkspaceID q) (op_PolicyID op) (sq_IdempotencyKey q) op
     \<and> op_PayloadHash op = hash"

lemma answers_core: "answers q hash a \<Longrightarrow> same_core a b \<Longrightarrow> answers q hash b"
  by (simp add: answers_def same_core_def same_idempotency_def)

lemma create_stored:
  assumes w: "wf w"
    and c: "create_operation service store now (pureG newID) prin policy q payload hash w = (Inr (op, replayed), w')"
  shows "stored_as w' op \<and> answers q hash op \<and> op_PolicyID op = po_ID policy"
proof -
  from c obtain i where i: "newID = Inr i" by (cases newID) (auto simp: create_operation_def go_simps)
  define o1 where "o1 = new_operation prin policy q payload hash i now"
  have o1: "answers q hash o1" "op_PolicyID o1 = po_ID policy"
    by (simp_all add: o1_def new_operation_def answers_def same_idempotency_def)
  obtain r w1 where r: "cs_Create store o1 w = (r, w1)" by fastforce
  show ?thesis
  proof (cases r)
    case (Inl e)
    with r Create_err [OF w] have "w1 = w" by blast
    with c i r Inl have f: "cs_FindByIdempotency store (sq_TenantID q) (sq_WorkspaceID q) (po_ID policy) (sq_IdempotencyKey q) w = (Inr op, w')"
      and h: "op_PayloadHash op = hash"
      by (auto simp: create_operation_def o1_def [symmetric] Let_def go_simps
          split: option.splits if_splits prod.splits sum.splits)
    from Idempotency_law [OF w f] have "w' = w"
      "same_idempotency (sq_TenantID q) (sq_WorkspaceID q) (po_ID policy) (sq_IdempotencyKey q) op" "op \<in> ran (ops w)"
      by blast+
    with h stored_in [OF w] show ?thesis by (auto simp: answers_def same_idempotency_def)
  next
    case (Inr u)
    from c i r Inr have v: "Operation_Validate o1 = None"
      by (auto simp: create_operation_def o1_def [symmetric] Let_def go_simps split: option.splits)
    from Create_law [OF w] r Inr have w1: "wf w1"
      "ops w1 = (ops w)(key (op_TenantID o1) (op_WorkspaceID o1) (op_ID o1) \<mapsto> o1)" by blast+
    obtain r2 w2 where r2: "audit_submit (sv_audit service) o1 w1 = (r2, w2)" by fastforce
    then have w2: "wf w2" "ops w2 = ops w1"
      using audit_frame w1(1) by (auto simp: audit_submit_def go_simps split: option.splits prod.splits sum.splits)
    from r2 obtain o2 where o2: "r2 = Inr o2" "same_core o1 o2"
      by (auto simp: audit_submit_def go_simps same_core_def split: option.splits prod.splits sum.splits)
    have "stored_as w2 o2" using w1(2) w2(2) o2(2) by (auto simp: stored_as_def same_core_def)
    from c i r Inr v r2 o2 have d: "dispatch store (sv_publisher service) now o2 w2 = (Inr op, w')"
      by (auto simp: create_operation_def o1_def [symmetric] Let_def go_simps split: prod.splits sum.splits)
    with dispatch_stored [OF w2(1) \<open>stored_as w2 o2\<close> d] have "stored_as w' op" "same_core o2 op" by auto
    with o1 o2(2) show ?thesis using answers_core same_core_trans by (metis same_core_def)
  qed
qed

lemma Submit_stored:
  assumes w: "wf w" and s: "Submit service now (pureG newID) prin r0 w = (Inr (op, replayed), w')"
  obtains q payload hash f g policy where "normalizeRequest r0 = Inr (q, payload, hash)"
    "sv_policies service = Some f" "sv_authorizer service = Some g"
    "\<forall>v. admit f g prin q payload v = (Inr policy, v)"
    "stored_as w' op" "answers q hash op" "op_PolicyID op = po_ID policy"
proof -
  from s service_store obtain f g where f: "sv_policies service = Some f" and g: "sv_authorizer service = Some g"
    by (auto simp: Submit_def go_simps split: option.splits)
  from s f g service_store obtain q payload hash where n: "normalizeRequest r0 = Inr (q, payload, hash)"
    by (auto simp: Submit_def go_simps split: sum.splits)
  obtain ra where ra: "\<And>v. admit f g prin q payload v = (ra, v)"
    using admit_stateless [OF f g] unfolding stateless_def by metis
  from s f g service_store n ra obtain policy where p: "ra = Inr policy"
    by (auto simp: Submit_def go_simps split: sum.splits)
  obtain rf w1 where rf: "cs_FindByIdempotency store (sq_TenantID q) (sq_WorkspaceID q) (po_ID policy)
      (sq_IdempotencyKey q) w = (rf, w1)" by fastforce
  have w1: "w1 = w" using Idempotency_law [OF w rf] by blast
  have "stored_as w' op \<and> answers q hash op \<and> op_PolicyID op = po_ID policy"
  proof (cases rf)
    case (Inl e)
    with s f g service_store n ra p rf w1
    have "create_operation service store now (pureG newID) prin policy q payload hash w = (Inr (op, replayed), w')"
      by (auto simp: Submit_def go_simps split: if_splits)
    with w show ?thesis by (rule create_stored)
  next
    case (Inr old)
    with Idempotency_law [OF w rf] have old: "same_idempotency (sq_TenantID q) (sq_WorkspaceID q) (po_ID policy) (sq_IdempotencyKey q) old"
      "old \<in> ran (ops w)" by blast+
    with stored_in [OF w] have st: "stored_as w old" by blast
    from s f g service_store n ra p rf w1 Inr have h: "op_PayloadHash old = hash"
      by (auto simp: Submit_def go_simps split: if_splits)
    with old have a: "answers q hash old" "op_PolicyID old = po_ID policy"
      by (auto simp: answers_def same_idempotency_def)
    show ?thesis
    proof (cases "op_Status old = StatusAccepted")
      case True
      with s f g service_store n ra p rf w1 Inr h
      have d: "dispatch store (sv_publisher service) now old w = (Inr op, w')"
        by (auto simp: Submit_def go_simps split: prod.splits sum.splits)
      from dispatch_stored [OF w st d] a show ?thesis using answers_core by (auto simp: same_core_def)
    next
      case False
      with s f g service_store n ra p rf w1 Inr h st a show ?thesis
        by (auto simp: Submit_def go_simps)
    qed
  qed
  with that [OF n f g _] ra p show thesis by blast
qed

text \<open>Submitting the same request again, whatever happened in between, gives the same operation.\<close>

lemma Submit_again:
  assumes w: "wf w" "idem_unique (ops w)"
    and s: "Submit service now (pureG newID) prin r0 w = (Inr (op, replayed), w1)"
  shows "\<exists>op'. fst (Submit service now' (pureG newID') prin r0 (gateway_run service calls w1)) = Inr (op', True)
     \<and> same_core op op'"
proof -
  from s obtain q payload hash f g policy where n: "normalizeRequest r0 = Inr (q, payload, hash)"
    and f: "sv_policies service = Some f" and g: "sv_authorizer service = Some g"
    and a: "\<forall>v. admit f g prin q payload v = (Inr policy, v)"
    and st: "stored_as w1 op" and an: "answers q hash op" and po: "op_PolicyID op = po_ID policy"
    by (rule Submit_stored [OF w(1)])
  let ?w = "gateway_run service calls w1"
  let ?k = "key (op_TenantID op) (op_WorkspaceID op) (op_ID op)"
  have e1: "evolved w w1" by (rule Submit_evolved [OF w(1) s])
  have e2: "evolved w1 ?w" by (rule run_evolved) (rule evolved_wf [OF e1])
  from e1 e2 w(2) have u: "wf ?w" "idem_unique (ops ?w)" by (auto simp: evolved_def)
  from st obtain cur where cur: "ops w1 ?k = Some cur" "same_core cur op" by (auto simp: stored_as_def)
  from e2 have "evolves (ops w1 ?k) (ops ?w ?k)" by (simp add: evolved_def)
  with cur obtain o2 where o2: "ops ?w ?k = Some o2" "same_core cur o2"
    by (cases "ops ?w ?k") (auto dest: op_steps_core)
  have core: "same_core op o2" using cur o2 by (simp add: same_core_def)
  have "same_idempotency (sq_TenantID q) (sq_WorkspaceID q) (po_ID policy) (sq_IdempotencyKey q) o2"
    using an po core by (simp add: answers_def same_core_def same_idempotency_def)
  then have fi: "cs_FindByIdempotency store (sq_TenantID q) (sq_WorkspaceID q) (po_ID policy) (sq_IdempotencyKey q) ?w = (Inr o2, ?w)"
    by (rule find_unique [OF u o2(1)])
  have h: "op_PayloadHash o2 = hash" using an core by (simp add: answers_def same_core_def)
  have st2: "stored_as ?w o2" using o2 cur core by (auto simp: stored_as_def same_core_def)
  obtain rd wd where d: "dispatch store (sv_publisher service) now' o2 ?w = (rd, wd)" by fastforce
  from dispatch_stored [OF u(1) st2 d] obtain o3 where "rd = Inr o3" "same_core o2 o3" by blast
  with core d fi h n f g a service_store show ?thesis
    by (auto simp: Submit_def go_simps intro: same_core_trans)
qed

text \<open>
  A result is applied once. After a success the operation is stored in the status of the
  result, and from then on a result of its owner and action is either the same and answered
  with the stored operation, or refused; neither changes anything.
\<close>

lemma ApplyResult_stored:
  assumes w: "wf w" and a: "ApplyResult service now r w = (Inr (op, replayed), w1)"
  shows "wf w1 \<and> ops w1 (key (re_TenantID r) (re_WorkspaceID r) (re_OperationID r)) = Some op
    \<and> same_result op r \<and> op_OwnerSystem op = re_OwnerSystem r \<and> op_Action op = re_Action r
    \<and> ResultEnvelope_Validate r = None \<and> terminal (op_Status op)"
proof -
  let ?k = "key (re_TenantID r) (re_WorkspaceID r) (re_OperationID r)"
  have w1: "wf w1" using ApplyResult_evolved [OF w a] by (rule evolved_wf)
  from a service_store have v: "ResultEnvelope_Validate r = None"
    by (auto simp: ApplyResult_def go_success)
  then have t: "terminal (re_Status r)" by (rule ResultEnvelope_valid_terminal)
  obtain rf w2 where rf: "cs_Find store (re_TenantID r) (re_WorkspaceID r) (re_OperationID r) w = (rf, w2)"
    by fastforce
  have w2: "w2 = w" using Find_law [OF w rf] by blast
  from a v service_store rf obtain old where old: "rf = Inr old"
    by (cases rf) (auto simp: ApplyResult_def go_simps)
  with Find_law [OF w rf] have o1: "ops w ?k = Some old" by blast
  with stored_key [OF w] have k: "?k = key (op_TenantID old) (op_WorkspaceID old) (op_ID old)" by blast
  from a v service_store rf old w2 have c: "op_OwnerSystem old = re_OwnerSystem r" "op_Action old = re_Action r"
    by (auto simp: ApplyResult_def go_simps split: if_splits)
  show ?thesis
  proof (cases "op_Status old \<noteq> StatusAccepted \<and> op_Status old \<noteq> StatusDispatched")
    case True
    with a v service_store rf old w2 c have "op = old" "w1 = w" "same_result old r"
      by (auto simp: ApplyResult_def go_simps split: if_splits)
    with True o1 c v w1 show ?thesis by (simp add: terminal_def)
  next
    case False
    obtain r2 w3 where sv: "cs_SaveCAS store (with_result now old r) (op_Revision old) w = (r2, w3)" by fastforce
    from a v service_store rf old w2 c False sv obtain saved where saved: "r2 = Inr saved"
      by (cases r2) (auto simp: ApplyResult_def go_simps split: if_splits)
    with SaveCAS_law [OF w] sv have s: "saved = with_result now old r" "wf w3"
      and o3: "ops w3 = (ops w)(?k \<mapsto> with_result now old r)"
      by (auto simp: k with_result_def)
    from a v service_store rf old w2 c False sv saved have "op = saved"
      by (auto simp: ApplyResult_def go_simps split: if_splits option.splits prod.splits sum.splits)
    moreover from a v service_store rf old w2 c False sv saved audit_frame s(2) have "ops w1 = ops w3"
      by (auto simp: ApplyResult_def go_simps split: if_splits option.splits prod.splits sum.splits)
    ultimately show ?thesis
      using w1 s o3 c v t by (auto simp: same_result_def with_result_def)
  qed
qed

lemma ApplyResult_again:
  assumes w: "wf w" and a: "ApplyResult service now r w = (Inr (op, replayed), w1)"
    and same: "re_TenantID q = re_TenantID r" "re_WorkspaceID q = re_WorkspaceID r" "re_OperationID q = re_OperationID r"
    and v: "ResultEnvelope_Validate q = None"
  shows "ApplyResult service now' q (gateway_run service calls w1) =
    (if same_result op q \<and> re_OwnerSystem q = re_OwnerSystem r \<and> re_Action q = re_Action r
     then Inr (op, True) else Inl (CommandsErr ErrCommandResultConflict), gateway_run service calls w1)"
proof -
  note st = ApplyResult_stored [OF w a]
  let ?w = "gateway_run service calls w1"
  have wf: "wf ?w" using run_evolved st evolved_wf by blast
  have "ops ?w (key (re_TenantID q) (re_WorkspaceID q) (re_OperationID q)) = Some op"
    unfolding same using terminal_final st by blast
  from Find_hit [OF wf this] st v service_store show ?thesis
    by (auto simp: ApplyResult_def go_simps terminal_def)
qed

end

section \<open>A gateway over the store in memory\<close>

text \<open>
  Fixed policies, fixed machine grants and the store in memory; the publisher and the audit
  writer act on the rest of the state, whatever they do there.
\<close>

definition lift_more :: "('x, 'a) go \<Rightarrow> ('x MemoryStore_scheme, 'a) go" where
  "lift_more m = (\<lambda>w. case m (MemoryStore.more w) of (r, x) \<Rightarrow> (r, MemoryStore.more_update (\<lambda>_. x) w))"

definition memory_service ::
  "StaticPolicyRegistry \<Rightarrow> MachinePolicy list \<Rightarrow> 'x Publisher option \<Rightarrow> 'x AuditWriter option
     \<Rightarrow> 'x MemoryStore_scheme command_service" where
  "memory_service registry machines publisher audit =
     \<lparr>sv_policies = Some (static_Find registry), sv_store = Some memory_Store,
      sv_authorizer = Some (static_Authorize machines),
      sv_publisher = map_option (\<lambda>publish subject e. lift_more (publish subject e)) publisher,
      sv_audit = map_option (\<lambda>appendEntry entry. lift_more (appendEntry entry)) audit\<rparr>"

lemma lift_more_frame:
  "lift_more m w = (r, w') \<Longrightarrow> memory_ops w' = memory_ops w \<and> memory_wf w' = memory_wf w"
  by (auto simp: lift_more_def memory_ops_def memory_wf_def split: prod.splits)

lemma static_Find_stateless: "stateless (static_Find registry t ws p)"
  by (auto simp: stateless_def static_Find_def go_simps split: option.splits)

lemma static_Authorize_stateless: "stateless (static_Authorize machines prin request)"
  by (auto simp: stateless_def static_Authorize_def go_simps)

interpretation memory_gateway:
  command_gateway memory_Store memory_ops key3 memory_wf "memory_service registry machines publisher audit"
  for registry machines publisher audit
proof (unfold_locales, goal_cases)
  case 1
  show ?case by (simp add: memory_service_def)
next
  case (2 f t ws p)
  then show ?case by (auto simp: memory_service_def static_Find_stateless)
next
  case (3 g prin request)
  then show ?case by (auto simp: memory_service_def static_Authorize_stateless)
next
  case (4 publish w subject e res w')
  then show ?case by (auto simp: memory_service_def dest: lift_more_frame)
next
  case (5 appendEntry w entry res' w')
  then show ?case by (auto simp: memory_service_def dest: lift_more_frame)
qed

section \<open>Properties\<close>

text \<open>
  Optimistic concurrency of the store in memory. Of two writers that read an operation at
  the same revision only the first to save succeeds, provided it changes the revision; the
  second gets an error and changes nothing.
\<close>

theorem SaveCAS_exclusive:
  assumes "memory_wf w" "memory_SaveCAS first revn w = (Inr saved, w')" "op_Revision first \<noteq> revn"
    and "op_TenantID second = op_TenantID first" "op_WorkspaceID second = op_WorkspaceID first" "op_ID second = op_ID first"
  shows "\<exists>e. memory_SaveCAS second revn w' = (Inl e, w')"
  using memory_store.second_save_fails [of w first revn saved w' second] assms by (simp add: memory_Store_def)

definition sample_operation :: Operation where
  "sample_operation = \<lparr>op_ID = ''o1'', op_TenantID = ''t'', op_WorkspaceID = ''w'', op_PolicyID = ''p'',
     op_OwnerSystem = ''bids'', op_ResourceType = ''tender'', op_Action = ''close'', op_Purpose = ''award'',
     op_ResourceRef = ''bids:tender:1'', op_ExpectedVersion = None, op_PayloadHash = ''h'', op_Payload = ''{}'',
     op_IdempotencyKey = ''k'', op_RequestID = [], op_Status = StatusAccepted, op_Revision = 1, op_SafeError = [],
     op_ResultEventID = [], op_ResultHash = [], op_ResultVersion = None,
     op_CreatedBy = \<lparr>ik_Issuer = ''idp'', ik_Subject = ''svc''\<rparr>, op_CreatedAt = 5, op_UpdatedAt = 5\<rparr>"

definition sample_store :: MemoryStore where
  "sample_store = \<lparr>ms_values = [(op_key sample_operation, sample_operation)]\<rparr>"

lemma sample_store_wf: "memory_wf sample_store"
  by (simp add: sample_store_def memory_wf_def go_map_Cons)

theorem SaveCAS_exclusive_witness:
  "\<exists>e. memory_SaveCAS (sample_operation\<lparr>op_Status := StatusFailed, op_Revision := 2\<rparr>) 1
      (snd (memory_SaveCAS (dispatched 6 sample_operation) 1 sample_store))
    = (Inl e, snd (memory_SaveCAS (dispatched 6 sample_operation) 1 sample_store))"
proof -
  have "memory_SaveCAS (dispatched 6 sample_operation) 1 sample_store
      = (Inr (dispatched 6 sample_operation), memory_put (dispatched 6 sample_operation) sample_store)"
    by (simp add: memory_SaveCAS_Inr memory_ops_def sample_store_def op_key_def dispatched_def sample_operation_def)
  from SaveCAS_exclusive [OF sample_store_wf this, of "sample_operation\<lparr>op_Status := StatusFailed, op_Revision := 2\<rparr>"] this
  show ?thesis by (simp add: dispatched_def sample_operation_def incr64_def)
qed



text \<open>
  C2: a submission is idempotent. When a submission succeeded, submitting the same request
  again, after any other calls, at any time and whatever identifier is drawn, succeeds as a
  replay with the same operation, in the status it has by then.
\<close>

theorem Submit_idempotent:
  assumes "ms_values w0 = []"
    and "Submit (memory_service registry machines publisher audit) now (pureG newID) prin request
           (gateway_run (memory_service registry machines publisher audit) earlier w0) = (Inr (op, replayed), w1)"
  shows "\<exists>op'. fst (Submit (memory_service registry machines publisher audit) now' (pureG newID') prin request
           (gateway_run (memory_service registry machines publisher audit) later w1)) = Inr (op', True) \<and> same_core op op'"
proof -
  let ?s = "memory_service registry machines publisher audit"
  have w0: "memory_wf w0" "idem_unique (memory_ops w0)" using assms(1) by (simp_all add: memory_wf_def memory_ops_def idem_unique_def)
  have "memory_gateway.evolved w0 (gateway_run ?s earlier w0)"
    by (rule memory_gateway.run_evolved) (rule w0)
  with w0 have "memory_wf (gateway_run ?s earlier w0)" "idem_unique (memory_ops (gateway_run ?s earlier w0))"
    by (auto simp: memory_gateway.evolved_def)
  from memory_gateway.Submit_again [OF this assms(2)] show ?thesis .
qed

definition sample_submit :: SubmitRequest where
  "sample_submit = \<lparr>sq_TenantID = ''t'', sq_WorkspaceID = ''w'', sq_PolicyID = ''p'', sq_ResourceRef = ''bids:tender:1'',
     sq_ExpectedVersion = None, sq_Payload = ''{}'', sq_RequestID = [], sq_IdempotencyKey = ''k''\<rparr>"

definition sample_registry :: StaticPolicyRegistry where
  "sample_registry = [key3 ''t'' ''w'' ''p'' \<mapsto> \<lparr>po_ID = ''p'', po_TenantID = ''t'', po_WorkspaceID = ''w'',
     po_Purpose = ''award'', po_OwnerSystem = ''bids'', po_ResourceType = ''tender'', po_Action = ''close'',
     po_ExpectedVersionRequired = False, po_MaxPayloadBytes = 100\<rparr>]"

definition sample_machines :: "MachinePolicy list" where
  "sample_machines = [\<lparr>mp_Identity = \<lparr>ik_Issuer = ''idp'', ik_Subject = ''svc''\<rparr>, mp_Audience = ''hub'',
     mp_Scope = ''snap'', mp_TenantID = ''t'', mp_WorkspaceID = ''w'', mp_Purpose = ''award'',
     mp_ResourceSystem = ''bids'', mp_ResourceType = ''tender''\<rparr>]"

definition sample_gateway :: "unit MemoryStore_ext command_service" where
  "sample_gateway = memory_service sample_registry sample_machines None None"

definition sample_client :: Principal where
  "sample_client = \<lparr>p_Kind = PrincipalService, p_Issuer = ''idp'', p_Subject = ''svc'', p_Audience = [''hub''],
     p_Email = [], p_EmailVerified = False, p_Name = [], p_PreferredUsername = [], p_Groups = [], p_Scopes = [''snap'']\<rparr>"

lemma sample_submitted:
  obtains op w where "Submit sample_gateway 5 (pureG (Inr ''o1'')) sample_client sample_submit \<lparr>ms_values = []\<rparr> = (Inr (op, False), w)"
    "op_ID op = ''o1''" "op_TenantID op = ''t''" "op_WorkspaceID op = ''w''" "op_OwnerSystem op = ''bids''" "op_Action op = ''close''"
    "op_Status op = StatusAccepted" "w = \<lparr>ms_values = [(key3 ''t'' ''w'' ''o1'', op)]\<rparr>"
proof -
  have t: "TrimSpace ''t'' = ''t''" "TrimSpace ''w'' = ''w''" "TrimSpace ''p'' = ''p''" "TrimSpace ''k'' = ''k''"
    "TrimSpace ''bids:tender:1'' = ''bids:tender:1''" by code_simp+
  have r: "ParseRecordRef ''bids:tender:1'' = Inr \<lparr>rr_System = ''bids'', rr_Type = ''tender'', rr_ID = ''1''\<rparr>"
    by code_simp
  have "is_one_object ''{}''" "utf8_valid ''{}''" "parse_json ''{}'' = Some (JObject [])" "marshal (json_to_any (JObject [])) = ''{}''"
    by code_simp+
  then have c: "canonicalPayload ''{}'' = Inr ''{}''"
    by (simp add: canonicalPayload_def command_MaxPayloadBytes_def)
  have n: "normalizeRequest sample_submit = Inr (sample_submit, ''{}'', sha256_ref ''{}'')"
    by (simp add: normalizeRequest_def sample_submit_def t r c below_one_def)
  have "policy_matches sample_client (binding_request sample_submit (the (sample_registry (key3 ''t'' ''w'' ''p'')))) (hd sample_machines)"
    by (simp add: policy_matches_iff sample_client_def sample_machines_def binding_request_def sample_submit_def
        sample_registry_def identityKey_def)
  then have a: "admit (static_Find sample_registry) (static_Authorize sample_machines) sample_client sample_submit ''{}'' v
      = (Inr (the (sample_registry (key3 ''t'' ''w'' ''p''))), v)" for v :: "unit MemoryStore_ext"
    by (simp add: admit_def static_Find_def static_Authorize_def go_simps sample_submit_def sample_registry_def t r
        sample_client_def sample_machines_def)
  have nonempty: "sha256_ref ''{}'' \<noteq> []" by (simp add: sha256_ref_def)
  show thesis
    by (rule that)
      (simp add: Submit_def sample_gateway_def memory_service_def memory_Store_def n go_simps a memory_FindByIdempotency_def,
       simp add: create_operation_def memory_Create_def Operation_Validate_def new_operation_def go_simps
        memory_FindByIdempotency_def sample_registry_def sample_submit_def audit_submit_def dispatch_def nonempty nonempty [symmetric] Let_def
        IsZero_def no_newline_def ContainsAny_def op_key_def identityKey_def sample_client_def memory_put_def, simp_all)
qed

theorem Submit_idempotent_witness:
  "\<exists>op op'. fst (Submit sample_gateway 5 (pureG (Inr ''o1'')) sample_client sample_submit \<lparr>ms_values = []\<rparr>) = Inr (op, False)
     \<and> fst (Submit sample_gateway 9 (pureG (Inr ''o2'')) sample_client sample_submit
          (snd (Submit sample_gateway 5 (pureG (Inr ''o1'')) sample_client sample_submit \<lparr>ms_values = []\<rparr>))) = Inr (op', True)
     \<and> op_ID op' = ''o1''"
proof -
  obtain op w where s: "Submit sample_gateway 5 (pureG (Inr ''o1'')) sample_client sample_submit \<lparr>ms_values = []\<rparr> = (Inr (op, False), w)"
    and i: "op_ID op = ''o1''" by (rule sample_submitted)
  from Submit_idempotent [where ?w0.0 = "\<lparr>ms_values = []\<rparr>" and earlier = "[]" and later = "[]" and registry = sample_registry
      and machines = sample_machines and publisher = None and audit = None and now = 5 and newID = "Inr ''o1''"
      and prin = sample_client and request = sample_submit and op = op and replayed = False
      and now' = 9 and newID' = "Inr ''o2''"] s i
  show ?thesis by (auto simp: gateway_run_def sample_gateway_def same_core_def)
qed

text \<open>
  C5: only an authorized service submits a command. A submission that succeeds comes from a
  service principal; the tenant, workspace and policy it names have a registered policy whose
  owner system and resource type are those of the referenced resource, whose payload bound the
  canonical payload keeps and whose demand for an expected version it meets; and a machine
  policy grants this identity this purpose on this kind of resource in this workspace.
\<close>

theorem Submit_authorized:
  assumes "ms_values w0 = []"
    and "Submit (memory_service registry machines publisher audit) now (pureG newID) prin request
           (gateway_run (memory_service registry machines publisher audit) earlier w0) = (Inr (op, replayed), w1)"
  shows "p_Kind prin = PrincipalService \<and> (\<exists>policy reference payload machine.
      registry (key3 (TrimSpace (sq_TenantID request)) (TrimSpace (sq_WorkspaceID request)) (TrimSpace (sq_PolicyID request)))
        = Some policy
      \<and> canonicalPayload (sq_Payload request) = Inr payload \<and> op_PayloadHash op = sha256_ref payload
      \<and> (po_MaxPayloadBytes policy \<le> 0 \<or> int (length payload) \<le> po_MaxPayloadBytes policy)
      \<and> ParseRecordRef (sq_ResourceRef request) = Inr reference
      \<and> rr_System reference = po_OwnerSystem policy \<and> rr_Type reference = po_ResourceType policy
      \<and> (\<not> po_ExpectedVersionRequired policy \<or> sq_ExpectedVersion request \<noteq> None)
      \<and> machine \<in> set machines \<and> mp_Identity machine = identityKey prin
      \<and> mp_TenantID machine = TrimSpace (sq_TenantID request) \<and> mp_WorkspaceID machine = TrimSpace (sq_WorkspaceID request)
      \<and> mp_Purpose machine = po_Purpose policy \<and> mp_ResourceSystem machine = po_OwnerSystem policy
      \<and> mp_ResourceType machine = po_ResourceType policy
      \<and> mp_Audience machine \<in> set (p_Audience prin) \<and> mp_Scope machine \<in> set (p_Scopes prin))"
proof -
  let ?s = "memory_service registry machines publisher audit"
  let ?w = "gateway_run ?s earlier w0"
  have "memory_wf w0" using assms(1) by (simp add: memory_wf_def)
  then have "memory_gateway.evolved w0 ?w" by (rule memory_gateway.run_evolved)
  then have w: "memory_wf ?w" by (rule memory_gateway.evolved_wf)
  from assms(2) obtain q payload hash f g policy where n: "normalizeRequest request = Inr (q, payload, hash)"
    and f: "sv_policies ?s = Some f" and g: "sv_authorizer ?s = Some g"
    and a: "\<forall>v. admit f g prin q payload v = (Inr policy, v)" and an: "memory_gateway.answers q hash op"
    by (rule memory_gateway.Submit_stored [OF w])
  note q = normalizeRequest_Inr [OF n]
  have "f = static_Find registry" "g = static_Authorize machines" using f g by (simp_all add: memory_service_def)
  with a have a: "admit (static_Find registry) (static_Authorize machines) prin q payload w0 = (Inr policy, w0)" by blast
  have ref: "ParseRecordRef (TrimSpace (sq_ResourceRef request)) = Inr r \<longleftrightarrow> ParseRecordRef (sq_ResourceRef request) = Inr r" for r
    by (simp add: ParseRecordRef_Inr)
  have h: "op_PayloadHash op = hash" using an by (simp add: memory_gateway.answers_def)
  from a q h show ?thesis
    unfolding admit_def
    by (auto simp: go_success static_Find_Inr static_Authorize_Inr policy_matches_iff binding_request_def ref not_less)
qed

theorem Submit_authorized_witness:
  "\<exists>machine \<in> set sample_machines. mp_Identity machine = identityKey sample_client \<and> mp_Purpose machine = ''award''"
proof -
  obtain op w where s: "Submit sample_gateway 5 (pureG (Inr ''o1'')) sample_client sample_submit \<lparr>ms_values = []\<rparr> = (Inr (op, False), w)"
    by (rule sample_submitted)
  have t: "TrimSpace ''t'' = ''t''" "TrimSpace ''w'' = ''w''" "TrimSpace ''p'' = ''p''" by code_simp+
  from Submit_authorized [where ?w0.0 = "\<lparr>ms_values = []\<rparr>" and earlier = "[]" and registry = sample_registry
      and machines = sample_machines and publisher = None and audit = None and now = 5 and newID = "Inr ''o1''"
      and prin = sample_client and request = sample_submit and op = op and replayed = False] s
  show ?thesis by (auto simp: gateway_run_def sample_gateway_def sample_registry_def sample_submit_def t)
qed

text \<open>
  C4: a result is applied once, and redelivery is harmless. After a result was accepted, and
  after any further calls, a valid result for the same operation changes nothing: the one
  that was applied is answered with the operation as it was stored, as a replay, and any
  other, also one of another owner or action, is refused as a conflict.
\<close>

theorem ApplyResult_once:
  assumes "ms_values w0 = []"
    and "ApplyResult (memory_service registry machines publisher audit) now r
           (gateway_run (memory_service registry machines publisher audit) earlier w0) = (Inr (op, replayed), w1)"
    and "re_TenantID q = re_TenantID r" "re_WorkspaceID q = re_WorkspaceID r" "re_OperationID q = re_OperationID r"
    and "ResultEnvelope_Validate q = None"
  shows "ApplyResult (memory_service registry machines publisher audit) now' q
           (gateway_run (memory_service registry machines publisher audit) later w1)
    = (if same_result op q \<and> re_OwnerSystem q = re_OwnerSystem r \<and> re_Action q = re_Action r
       then Inr (op, True) else Inl (CommandsErr ErrCommandResultConflict),
       gateway_run (memory_service registry machines publisher audit) later w1)"
proof -
  let ?s = "memory_service registry machines publisher audit"
  have "memory_wf w0" using assms(1) by (simp add: memory_wf_def)
  then have "memory_gateway.evolved w0 (gateway_run ?s earlier w0)" by (rule memory_gateway.run_evolved)
  then have "memory_wf (gateway_run ?s earlier w0)" by (rule memory_gateway.evolved_wf)
  from memory_gateway.ApplyResult_again [OF this assms(2-6)] show ?thesis .
qed

definition sample_result :: ResultEnvelope where
  "sample_result = \<lparr>re_EventID = ''e1'', re_OperationID = ''o1'', re_TenantID = ''t'', re_WorkspaceID = ''w'',
     re_OwnerSystem = ''bids'', re_Action = ''close'', re_Status = StatusSucceeded, re_ResultHash = [],
     re_ErrorCode = [], re_SafeError = [], re_ResultVersion = Some 2, re_OccurredAt = 8\<rparr>"

theorem ApplyResult_once_witness:
  "\<exists>w op. fst (ApplyResult sample_gateway 9 sample_result w) = Inr (op, False)
     \<and> fst (ApplyResult sample_gateway 9 sample_result (snd (ApplyResult sample_gateway 9 sample_result w))) = Inr (op, True)
     \<and> fst (ApplyResult sample_gateway 9 (sample_result\<lparr>re_Status := StatusFailed\<rparr>)
              (snd (ApplyResult sample_gateway 9 sample_result w))) = Inl (CommandsErr ErrCommandResultConflict)"
proof -
  obtain op w where s: "Submit sample_gateway 5 (pureG (Inr ''o1'')) sample_client sample_submit \<lparr>ms_values = []\<rparr> = (Inr (op, False), w)"
    and o: "op_ID op = ''o1''" "op_TenantID op = ''t''" "op_WorkspaceID op = ''w''" "op_OwnerSystem op = ''bids''"
      "op_Action op = ''close''" "op_Status op = StatusAccepted"
    and w: "w = \<lparr>ms_values = [(key3 ''t'' ''w'' ''o1'', op)]\<rparr>" by (rule sample_submitted)
  have v: "ResultEnvelope_Validate sample_result = None"
    "ResultEnvelope_Validate (sample_result\<lparr>re_Status := StatusFailed\<rparr>) = None"
    by (simp_all add: ResultEnvelope_Validate_def sample_result_def IsZero_def no_newline_def ContainsAny_def below_one_def)
  have sr: "re_TenantID sample_result = ''t''" "re_WorkspaceID sample_result = ''w''" "re_OperationID sample_result = ''o1''"
    "re_OwnerSystem sample_result = ''bids''" "re_Action sample_result = ''close''" "re_Status sample_result = StatusSucceeded" by (simp_all add: sample_result_def)
  have a: "ApplyResult sample_gateway 9 sample_result w
      = (Inr (with_result 9 op sample_result, False), memory_put (with_result 9 op sample_result) w)"
    by (simp add: ApplyResult_def sample_gateway_def memory_service_def memory_Store_def v go_simps memory_Find_def
        memory_SaveCAS_def with_result_def sr w o)
  have run: "gateway_run sample_gateway [CallSubmit 5 (Inr ''o1'') sample_client sample_submit] \<lparr>ms_values = []\<rparr> = w"
    using s by (simp add: gateway_run_def)
  note once = ApplyResult_once [where ?w0.0 = "\<lparr>ms_values = []\<rparr>" and now' = 9 and later = "[]"
      and earlier = "[CallSubmit 5 (Inr ''o1'') sample_client sample_submit]",
      of sample_registry sample_machines None None, folded sample_gateway_def, unfolded run, OF _ a]
  let ?w = "memory_put (with_result 9 op sample_result) w"
  have "ApplyResult sample_gateway 9 sample_result ?w = (Inr (with_result 9 op sample_result, True), ?w)"
    using once [OF _ refl refl refl v(1)] by (simp add: gateway_run_def same_result_def with_result_def)
  moreover have "ApplyResult sample_gateway 9 (sample_result\<lparr>re_Status := StatusFailed\<rparr>) ?w
      = (Inl (CommandsErr ErrCommandResultConflict), ?w)"
    using once [where q = "sample_result\<lparr>re_Status := StatusFailed\<rparr>", OF _ _ _ _ v(2)]
    by (simp add: gateway_run_def same_result_def with_result_def sr)
  ultimately show ?thesis using a by (intro exI [of _ w] exI [of _ "with_result 9 op sample_result"]) simp
qed

end
