(* ===== verification/CommandInbox.thy ===== *)
theory CommandInbox
  imports Commands
begin

text \<open>
  \<open>commands/inbox.go\<close>: the inbox through which an owner system executes a command once. The
  interface \<open>InboxStore\<close> has the locale \<open>inbox_store\<close> (a claim succeeds only on a key without an
  entry; entries never disappear), which the store in memory satisfies; inside it \<open>Process\<close> is
  shown to call the owner's \<open>execute\<close> at most once per key, whatever fails.
\<close>

datatype InboxStatus = InboxClaimed | InboxCommitted | OtherInboxStatus string

record InboxEntry =
  ie_OperationID :: string
  ie_TenantID :: string
  ie_WorkspaceID :: string
  ie_OwnerSystem :: string
  ie_Action :: string
  ie_PayloadHash :: string
  ie_Status :: InboxStatus
  ie_Result :: "ResultEnvelope option"
  ie_Revision :: int
  ie_CreatedAt :: time
  ie_UpdatedAt :: time

record 'w InboxStore =
  is_Claim :: "Envelope \<Rightarrow> ('w, InboxEntry \<times> bool) go"
  is_Commit :: "InboxEntry \<Rightarrow> ResultEnvelope \<Rightarrow> ('w, InboxEntry) go"

section \<open>The store in memory\<close>

definition inboxKeyValues :: "string \<Rightarrow> string \<Rightarrow> string \<Rightarrow> string \<Rightarrow> string" where
  "inboxKeyValues tenantID workspaceID ownerSystem operationID =
     tenantID @ [CHR 0x00] @ workspaceID @ [CHR 0x00] @ ownerSystem @ [CHR 0x00] @ operationID"

definition inboxKey :: "Envelope \<Rightarrow> string" where
  "inboxKey envelope = inboxKeyValues (en_TenantID envelope) (en_WorkspaceID envelope)
     (en_OwnerSystem envelope) (en_OperationID envelope)"

record MemoryInboxStore =
  mi_values :: "string \<rightharpoonup> InboxEntry"

definition claimed_entry :: "Envelope \<Rightarrow> InboxEntry" where
  "claimed_entry envelope =
     \<lparr>ie_OperationID = en_OperationID envelope, ie_TenantID = en_TenantID envelope,
      ie_WorkspaceID = en_WorkspaceID envelope, ie_OwnerSystem = en_OwnerSystem envelope,
      ie_Action = en_Action envelope, ie_PayloadHash = en_PayloadHash envelope, ie_Status = InboxClaimed,
      ie_Result = None, ie_Revision = 1, ie_CreatedAt = en_CreatedAt envelope, ie_UpdatedAt = en_CreatedAt envelope\<rparr>"

definition memory_Claim :: "Envelope \<Rightarrow> ('x MemoryInboxStore_scheme, InboxEntry \<times> bool) go" where
  "memory_Claim envelope =
     (\<lambda>w. case mi_values w (inboxKey envelope) of
        Some existing \<Rightarrow>
          if ie_PayloadHash existing \<noteq> en_PayloadHash envelope \<or> ie_OwnerSystem existing \<noteq> en_OwnerSystem envelope
             \<or> ie_Action existing \<noteq> en_Action envelope
          then fail (CommandsErr ErrCommandInboxConflict) w
          else if ie_Status existing = InboxCommitted then ret (existing, True) w
          else fail (CommandsErr ErrCommandInboxClaimed) w
      | None \<Rightarrow>
          (Inr (claimed_entry envelope, False),
           w\<lparr>mi_values := (mi_values w)(inboxKey envelope \<mapsto> claimed_entry envelope)\<rparr>))"

definition committed_entry :: "InboxEntry \<Rightarrow> ResultEnvelope \<Rightarrow> InboxEntry" where
  "committed_entry current result =
     current\<lparr>ie_Status := InboxCommitted, ie_Result := Some result,
       ie_Revision := incr64 (ie_Revision current), ie_UpdatedAt := re_OccurredAt result\<rparr>"

definition entryKey :: "InboxEntry \<Rightarrow> string" where
  "entryKey claimed = inboxKeyValues (ie_TenantID claimed) (ie_WorkspaceID claimed) (ie_OwnerSystem claimed)
     (ie_OperationID claimed)"

definition memory_Commit :: "InboxEntry \<Rightarrow> ResultEnvelope \<Rightarrow> ('x MemoryInboxStore_scheme, InboxEntry) go" where
  "memory_Commit claimed result =
     bindG (checkG (ResultEnvelope_Validate result)) (\<lambda>_ w.
       case mi_values w (entryKey claimed) of
         None \<Rightarrow> fail (CommandsErr ErrCommandNotFound) w
       | Some current \<Rightarrow>
           if ie_Status current = InboxCommitted then
             (case ie_Result current of
                Some previous \<Rightarrow> if re_EventID previous = re_EventID result then ret current w
                                else fail (CommandsErr ErrCommandInboxConflict) w
              | None \<Rightarrow> fail (CommandsErr ErrCommandInboxConflict) w)
           else if ie_Revision current \<noteq> ie_Revision claimed \<or> ie_Status current \<noteq> InboxClaimed
             then fail (CommandsErr ErrCommandInboxConflict) w
           else (Inr (committed_entry current result),
                 w\<lparr>mi_values := (mi_values w)(entryKey claimed \<mapsto> committed_entry current result)\<rparr>))"

definition memory_InboxStore :: "'x MemoryInboxStore_scheme InboxStore" where
  "memory_InboxStore = \<lparr>is_Claim = memory_Claim, is_Commit = memory_Commit\<rparr>"

section \<open>The inbox service\<close>

definition failed_result :: "Envelope \<Rightarrow> time \<Rightarrow> ResultEnvelope" where
  "failed_result envelope now =
     \<lparr>re_EventID = ''command-result-'' @ en_OperationID envelope, re_OperationID = en_OperationID envelope,
      re_TenantID = en_TenantID envelope, re_WorkspaceID = en_WorkspaceID envelope,
      re_OwnerSystem = en_OwnerSystem envelope, re_Action = en_Action envelope, re_Status = StatusFailed,
      re_ResultHash = [], re_ErrorCode = ''OWNER_EXECUTION_FAILED'', re_SafeError = ''owner execution failed'',
      re_ResultVersion = None, re_OccurredAt = now\<rparr>"

definition default_to :: "string \<Rightarrow> string \<Rightarrow> string" where
  "default_to d s = (if s = [] then d else s)"

definition fill_result :: "Envelope \<Rightarrow> time \<Rightarrow> ResultEnvelope \<Rightarrow> ResultEnvelope" where
  "fill_result envelope now result =
     result\<lparr>re_EventID := default_to (''command-result-'' @ en_OperationID envelope) (re_EventID result),
       re_OperationID := default_to (en_OperationID envelope) (re_OperationID result),
       re_TenantID := default_to (en_TenantID envelope) (re_TenantID result),
       re_WorkspaceID := default_to (en_WorkspaceID envelope) (re_WorkspaceID result),
       re_OwnerSystem := default_to (en_OwnerSystem envelope) (re_OwnerSystem result),
       re_Action := default_to (en_Action envelope) (re_Action result),
       re_OccurredAt := (if IsZero (re_OccurredAt result) then now else re_OccurredAt result)\<rparr>"

definition result_of_envelope :: "Envelope \<Rightarrow> ResultEnvelope \<Rightarrow> bool" where
  "result_of_envelope envelope result \<longleftrightarrow>
     re_OperationID result = en_OperationID envelope \<and> re_TenantID result = en_TenantID envelope
     \<and> re_WorkspaceID result = en_WorkspaceID envelope \<and> re_OwnerSystem result = en_OwnerSystem envelope
     \<and> re_Action result = en_Action envelope"

text \<open>
  \<open>Process\<close> returns a result, whether it is a replay and, next to a fresh result, the error of
  the owner's callback, if it had one. \<open>execute\<close> is the callback; on an error its result is
  not looked at.
\<close>

definition Process ::
  "'w InboxStore option \<Rightarrow> time \<Rightarrow> Envelope \<Rightarrow> (Envelope \<Rightarrow> ('w, ResultEnvelope) go) option
     \<Rightarrow> ('w, ResultEnvelope \<times> bool \<times> goerr option) go" where
  "Process inbox now envelope callback =
     (case (inbox, callback) of
        (Some store, Some execute) \<Rightarrow>
          bindG (checkG (Envelope_Validate envelope)) (\<lambda>_.
          bindG (is_Claim store envelope) (\<lambda>(claimed, replayed).
          case (replayed, ie_Result claimed) of
            (True, Some result) \<Rightarrow> ret (result, True, None)
          | _ \<Rightarrow>
              bindG (catchG (execute envelope) (\<lambda>err. ret (failed_result envelope now, Some err))
                       (\<lambda>result. ret (result, None))) (\<lambda>(raw, executeErr).
              let result = fill_result envelope now raw in
              if \<not> result_of_envelope envelope result then fail (CommandsErr ErrCommandResultConflict)
              else bindG (checkG (ResultEnvelope_Validate result)) (\<lambda>_.
                   bindG (is_Commit store claimed result) (\<lambda>_. ret (result, False, executeErr))))))
      | _ \<Rightarrow> fail (CommandsErr ErrCommandUnavailable))"

section \<open>The store's contract\<close>

text \<open>
  \<open>entries w k\<close> is the entry under a key, \<open>ekey\<close> the key of an envelope. A claim that is not a
  replay makes an entry where there was none; a replay has the committed result; no operation
  removes an entry or touches another key. \<open>calls w\<close> is the list of envelopes for which the
  owner's callback ran, which the store does not touch.
\<close>

locale inbox_store =
  fixes store :: "'w InboxStore"
    and entries :: "'w \<Rightarrow> 'k \<rightharpoonup> InboxEntry"
    and ekey :: "Envelope \<Rightarrow> 'k"
    and calls :: "'w \<Rightarrow> Envelope list"
    and wf :: "'w \<Rightarrow> bool"
  assumes Claim_fresh: "wf w \<Longrightarrow> is_Claim store env w = (Inr (e, False), w') \<Longrightarrow>
      entries w (ekey env) = None \<and> entries w' = (entries w)(ekey env \<mapsto> e) \<and> wf w'"
    and Claim_replay: "wf w \<Longrightarrow> is_Claim store env w = (Inr (e, True), w') \<Longrightarrow>
      w' = w \<and> entries w (ekey env) = Some e \<and> ie_Result e \<noteq> None"
    and Claim_error: "wf w \<Longrightarrow> is_Claim store env w = (Inl err, w') \<Longrightarrow> w' = w"
    and Commit_keeps: "wf w \<Longrightarrow> is_Commit store e r w = (res, w') \<Longrightarrow>
      wf w' \<and> dom (entries w') = dom (entries w)"
    and Claim_calls: "is_Claim store env w = (cres, w') \<Longrightarrow> calls w' = calls w"
    and Commit_calls: "is_Commit store e r w = (res, w') \<Longrightarrow> calls w' = calls w"
begin

text \<open>The callback runs for one envelope and leaves the inbox alone.\<close>

definition runs_once :: "(Envelope \<Rightarrow> ('w, ResultEnvelope) go) \<Rightarrow> bool" where
  "runs_once execute \<longleftrightarrow> (\<forall>env w r w'. execute env w = (r, w') \<longrightarrow>
     calls w' = calls w @ [env] \<and> entries w' = entries w \<and> (wf w \<longrightarrow> wf w'))"

definition at_most_once :: "'w \<Rightarrow> bool" where
  "at_most_once w \<longleftrightarrow> distinct (map ekey (calls w)) \<and> ekey ` set (calls w) \<subseteq> dom (entries w)"

lemma Process_calls:
  assumes w: "wf w" and x: "runs_once execute"
    and p: "Process (Some store) now env (Some execute) w = (res, w')"
  shows "wf w' \<and> (calls w' = calls w \<and> dom (entries w) \<subseteq> dom (entries w')
    \<or> calls w' = calls w @ [env] \<and> entries w (ekey env) = None \<and> dom (entries w') = insert (ekey env) (dom (entries w)))"
proof (cases "Envelope_Validate env")
  case (Some e)
  with p w show ?thesis by (auto simp: Process_def go_simps)
next
  case None
  obtain cres w1 where c: "is_Claim store env w = (cres, w1)" by fastforce
  show ?thesis
  proof (cases cres)
    case (Inl e)
    with c Claim_error [OF w] have "w1 = w" by blast
    with p None c w Inl show ?thesis by (simp add: Process_def go_simps)
  next
    case (Inr pair)
    then obtain e replayed where r: "cres = Inr (e, replayed)" by (cases pair) auto
    show ?thesis
    proof (cases replayed)
      case True
      with c r have "is_Claim store env w = (Inr (e, True), w1)" by simp
      from Claim_replay [OF w this] obtain result where "w1 = w" "ie_Result e = Some result" by auto
      with p None c r w True show ?thesis by (simp add: Process_def go_simps)
    next
      case False
      with c r have "is_Claim store env w = (Inr (e, False), w1)" by simp
      from Claim_fresh [OF w this] have w1: "entries w (ekey env) = None"
        "entries w1 = (entries w)(ekey env \<mapsto> e)" "wf w1" by blast+
      have k1: "calls w1 = calls w" using Claim_calls [OF c] .
      obtain xres w2 where e2: "execute env w1 = (xres, w2)" by fastforce
      with x have w2: "calls w2 = calls w1 @ [env]" "entries w2 = entries w1" "wf w2"
        using w1 unfolding runs_once_def by blast+
      have "w' = w2 \<or> (\<exists>r x. is_Commit store e r w2 = (x, w'))"
        using p None c r False e2
        by (auto simp: Process_def go_simps Let_def split: sum.splits if_splits prod.splits option.splits)
      then have "wf w'" "calls w' = calls w2" and d: "dom (entries w') = dom (entries w2)"
        using Commit_keeps [OF w2(3)] Commit_calls w2(3) by metis+
      moreover from d w1 w2 have "dom (entries w') = insert (ekey env) (dom (entries w))" by simp
      ultimately show ?thesis using w1 w2 k1 by simp
    qed
  qed
qed

lemma Process_at_most_once:
  assumes "wf w" "runs_once execute" "at_most_once w" "Process (Some store) now env (Some execute) w = (res, w')"
  shows "wf w' \<and> at_most_once w'"
  using Process_calls [OF assms(1,2,4)]
proof (elim conjE disjE)
  assume "wf w'" "calls w' = calls w" "dom (entries w) \<subseteq> dom (entries w')"
  with assms(3) show ?thesis by (simp add: at_most_once_def) (meson order_trans)
next
  assume p: "wf w'" "calls w' = calls w @ [env]" "entries w (ekey env) = None"
    "dom (entries w') = insert (ekey env) (dom (entries w))"
  then have "ekey env \<notin> ekey ` set (calls w)"
    using assms(3) by (auto simp: at_most_once_def)
  with p assms(3) show ?thesis by (simp add: at_most_once_def subset_insertI2)
qed

end

section \<open>The store in memory keeps the contract\<close>

text \<open>The owner's log is part of the state around the store; every committed entry has a result.\<close>

record owner_log = MemoryInboxStore +
  executed :: "Envelope list"

definition inbox_wf :: "'x MemoryInboxStore_scheme \<Rightarrow> bool" where
  "inbox_wf w \<longleftrightarrow> (\<forall>k e. mi_values w k = Some e \<longrightarrow> ie_Status e = InboxCommitted \<longrightarrow> ie_Result e \<noteq> None)"

interpretation memory_inbox: inbox_store memory_InboxStore mi_values inboxKey "executed :: 'x owner_log_scheme \<Rightarrow> _" inbox_wf
  by unfold_locales
     (auto simp: memory_InboxStore_def memory_Claim_def memory_Commit_def inbox_wf_def go_simps claimed_entry_def
       committed_entry_def split: option.splits if_splits)

text \<open>A sequence of deliveries, each with its own callback.\<close>

fun inbox_run ::
  "(time \<times> Envelope \<times> (Envelope \<Rightarrow> ('x owner_log_scheme, ResultEnvelope) go)) list \<Rightarrow> 'x owner_log_scheme
     \<Rightarrow> 'x owner_log_scheme" where
  "inbox_run [] w = w"
| "inbox_run ((now, env, execute) # ds) w =
     inbox_run ds (snd (Process (Some memory_InboxStore) now env (Some execute) w))"

lemma inbox_run_at_most_once:
  assumes "inbox_wf w" "memory_inbox.at_most_once w" "\<forall>(now, env, execute) \<in> set ds. memory_inbox.runs_once execute"
  shows "inbox_wf (inbox_run ds w) \<and> memory_inbox.at_most_once (inbox_run ds w)"
  using assms
proof (induction ds w rule: inbox_run.induct)
  case (2 now env execute ds w)
  obtain res w' where p: "Process (Some memory_InboxStore) now env (Some execute) w = (res, w')" by fastforce
  from 2 p have "inbox_wf w' \<and> memory_inbox.at_most_once w'"
    by (intro memory_inbox.Process_at_most_once [OF _ _ _ p]) auto
  with 2 p show ?case by simp
qed simp

section \<open>Properties\<close>

text \<open>What neither the store nor a callback that leaves the inbox alone can change.\<close>

definition leaves_inbox :: "(Envelope \<Rightarrow> ('x MemoryInboxStore_scheme, ResultEnvelope) go) \<Rightarrow> bool" where
  "leaves_inbox execute \<longleftrightarrow> (\<forall>env w r w'. execute env w = (r, w') \<longrightarrow> mi_values w' = mi_values w)"

lemma Claim_committed:
  "memory_Claim env w = (res, w1) \<Longrightarrow> mi_values w k = Some e \<Longrightarrow> mi_values w1 k = Some e"
  by (auto simp: memory_Claim_def go_simps split: option.splits if_splits)

lemma Commit_committed:
  "memory_Commit c r w = (res, w1) \<Longrightarrow> mi_values w k = Some e \<Longrightarrow> ie_Status e = InboxCommitted \<Longrightarrow> mi_values w1 k = Some e"
  by (auto simp: memory_Commit_def go_simps split: option.splits if_splits)

lemma Process_committed:
  assumes x: "leaves_inbox execute" and p: "Process (Some memory_InboxStore) now env (Some execute) w = (res, w')"
    and e: "mi_values w k = Some e" "ie_Status e = InboxCommitted"
  shows "mi_values w' k = Some e"
proof (cases "Envelope_Validate env")
  case (Some err)
  with p e show ?thesis by (auto simp: Process_def go_simps)
next
  case None
  obtain cres w1 where c: "memory_Claim env w = (cres, w1)" by fastforce
  with e have e1: "mi_values w1 k = Some e" by (auto dest: Claim_committed)
  show ?thesis
  proof (cases "\<exists>claimed. cres = Inr (claimed, False) \<or> cres = Inr (claimed, True) \<and> ie_Result claimed = None")
    case False
    with p None c e1 show ?thesis
      by (auto simp: Process_def memory_InboxStore_def go_simps split: sum.splits option.splits bool.splits)
  next
    case True
    then obtain claimed rep where r: "cres = Inr (claimed, rep)" "rep = False \<or> ie_Result claimed = None" by auto
    obtain xres w2 where x2: "execute env w1 = (xres, w2)" by fastforce
    with x e1 have e2: "mi_values w2 k = Some e" unfolding leaves_inbox_def by metis
    have "w' = w2 \<or> (\<exists>r x. memory_Commit claimed r w2 = (x, w'))"
      using p None c r x2
      by (auto simp: Process_def memory_InboxStore_def go_simps Let_def
          split: sum.splits if_splits prod.splits option.splits bool.splits)
    with e2 e(2) Commit_committed show ?thesis by metis
  qed
qed

lemma inbox_run_committed:
  "\<forall>(now, env, execute) \<in> set ds. leaves_inbox execute \<Longrightarrow> mi_values w k = Some e \<Longrightarrow> ie_Status e = InboxCommitted
     \<Longrightarrow> mi_values (inbox_run ds w) k = Some e"
proof (induction ds w rule: inbox_run.induct)
  case (2 now env execute ds w)
  obtain res w' where p: "Process (Some memory_InboxStore) now env (Some execute) w = (res, w')" by fastforce
  with 2 have "mi_values w' k = Some e" by (auto intro: Process_committed)
  with 2 p show ?case by simp
qed simp

text \<open>The committed answer to an envelope.\<close>

definition answered :: "Envelope \<Rightarrow> ResultEnvelope \<Rightarrow> 'x MemoryInboxStore_scheme \<Rightarrow> bool" where
  "answered env result w \<longleftrightarrow> Envelope_Validate env = None \<and> (\<exists>e. mi_values w (inboxKey env) = Some e
     \<and> ie_Status e = InboxCommitted \<and> ie_Result e = Some result \<and> ie_PayloadHash e = en_PayloadHash env
     \<and> ie_OwnerSystem e = en_OwnerSystem env \<and> ie_Action e = en_Action env)"

lemma Process_answered:
  assumes x: "leaves_inbox execute"
    and p: "Process (Some memory_InboxStore) now env (Some execute) w = (Inr (result, replayed, err), w')"
    and wf: "inbox_wf w"
  shows "answered env result w'"
proof -
  from p have v: "Envelope_Validate env = None"
    by (auto simp: Process_def go_success)
  obtain cres w1 where c: "memory_Claim env w = (cres, w1)" by fastforce
  with p v obtain claimed rep where cr: "cres = Inr (claimed, rep)"
    by (cases cres) (auto simp: Process_def memory_InboxStore_def go_simps)
  show ?thesis
  proof (cases rep)
    case True
    with c cr have m: "w1 = w" "mi_values w (inboxKey env) = Some claimed" "ie_Status claimed = InboxCommitted"
      "ie_PayloadHash claimed = en_PayloadHash env" "ie_OwnerSystem claimed = en_OwnerSystem env" "ie_Action claimed = en_Action env"
      by (auto simp: memory_Claim_def go_simps split: option.splits if_splits)
    with wf obtain r0 where "ie_Result claimed = Some r0" by (auto simp: inbox_wf_def)
    with p v c cr True m show ?thesis
      by (auto simp: Process_def memory_InboxStore_def go_simps answered_def)
  next
    case False
    with c cr have cl: "claimed = claimed_entry env" and w1: "mi_values w1 = (mi_values w)(inboxKey env \<mapsto> claimed)"
      by (auto simp: memory_Claim_def go_simps split: option.splits if_splits)
    obtain xres w2 where x2: "execute env w1 = (xres, w2)" by fastforce
    with x w1 have w2: "mi_values w2 (inboxKey env) = Some claimed" unfolding leaves_inbox_def by (metis fun_upd_same)
    have "\<exists>s. memory_Commit claimed result w2 = (Inr s, w')"
      using p v c cr False x2
      by (auto simp: Process_def memory_InboxStore_def go_simps Let_def
          split: sum.splits if_splits prod.splits option.splits)
    moreover have "entryKey claimed = inboxKey env"
      by (simp add: cl entryKey_def inboxKey_def claimed_entry_def)
    ultimately have "mi_values w' (inboxKey env) = Some (committed_entry claimed result)"
      using w2 by (auto simp: memory_Commit_def go_simps cl claimed_entry_def split: option.splits if_splits)
    with v show ?thesis by (simp add: answered_def committed_entry_def cl claimed_entry_def)
  qed
qed

lemma answered_replays:
  "answered env result w \<Longrightarrow>
     Process (Some memory_InboxStore) now env (Some execute) w = (Inr (result, True, None), w)"
  by (auto simp: answered_def Process_def memory_InboxStore_def memory_Claim_def go_simps)

text \<open>
  C6: the owner's callback runs at most once per command. Whatever envelopes are delivered to
  an inbox that started empty, in whatever order and however often, and whatever fails after a
  claim, no two executions have the same tenant, workspace, owner system and operation.
\<close>

theorem inbox_at_most_once:
  assumes "mi_values w0 = Map.empty" "executed w0 = []"
    and "\<forall>(now, env, execute) \<in> set ds. \<forall>e w r w'. execute e w = (r, w') \<longrightarrow>
          executed w' = executed w @ [e] \<and> mi_values w' = mi_values w"
  shows "distinct (map inboxKey (executed (inbox_run ds w0)))"
proof -
  have "\<forall>(now, env, execute) \<in> set ds. memory_inbox.runs_once execute"
    using assms(3) unfolding memory_inbox.runs_once_def inbox_wf_def by (auto split: prod.splits)
  moreover have "inbox_wf w0" "memory_inbox.at_most_once w0"
    using assms(1,2) by (simp_all add: inbox_wf_def memory_inbox.at_most_once_def)
  ultimately show ?thesis
    using inbox_run_at_most_once [of w0 ds] by (simp add: memory_inbox.at_most_once_def)
qed

definition logging :: "Envelope \<Rightarrow> (owner_log, ResultEnvelope) go" where
  "logging env = (\<lambda>w. (Inl (Anon ''owner is down''), w\<lparr>executed := executed w @ [env]\<rparr>))"

definition sample_envelope :: Envelope where
  "sample_envelope = \<lparr>en_OperationID = ''o1'', en_TenantID = ''t'', en_WorkspaceID = ''w'', en_PolicyID = ''p'',
     en_OwnerSystem = ''bids'', en_ResourceType = ''tender'', en_Action = ''close'', en_Purpose = ''award'',
     en_ResourceRef = ''bids:tender:1'', en_ExpectedVersion = None, en_PayloadHash = sha256_ref ''{}'',
     en_Payload = ''{}'', en_RequestedBy = \<lparr>ik_Issuer = ''idp'', ik_Subject = ''svc''\<rparr>, en_CreatedAt = 5\<rparr>"

theorem inbox_at_most_once_witness:
  "distinct (map inboxKey (executed (inbox_run [(6, sample_envelope, logging), (7, sample_envelope, logging)]
     \<lparr>mi_values = Map.empty, executed = []\<rparr>)))"
  by (rule inbox_at_most_once) (simp_all add: logging_def)

text \<open>
  C7: redelivery is answered from the inbox. Once a delivery of an envelope was processed,
  every later delivery of it gets exactly the same result, marked as a replay and without an
  error, whatever was delivered in between, and changes nothing.
\<close>

theorem inbox_redelivery:
  assumes "inbox_wf w" "leaves_inbox execute" "\<forall>(now, env, execute) \<in> set ds. leaves_inbox execute"
    and "Process (Some memory_InboxStore) now env (Some execute) w = (Inr (result, replayed, err), w')"
  shows "Process (Some memory_InboxStore) later env (Some execute') (inbox_run ds w')
    = (Inr (result, True, None), inbox_run ds w')"
proof (rule answered_replays)
  from Process_answered [OF assms(2,4,1)] inbox_run_committed [OF assms(3)]
  show "answered env result (inbox_run ds w')" unfolding answered_def by blast
qed

lemma sample_envelope_valid: "Envelope_Validate sample_envelope = None"
proof -
  have "sha256_ref ''{}'' \<noteq> []" by (simp add: sha256_ref_def)
  then show ?thesis
    by (simp add: Envelope_Validate_def sample_envelope_def IsZero_def command_MaxPayloadBytes_def below_one_def)
qed

theorem inbox_redelivery_witness:
  "\<exists>result w'. Process (Some memory_InboxStore) 7 sample_envelope (Some logging) \<lparr>mi_values = Map.empty, executed = []\<rparr>
       = (Inr (result, False, Some (Anon ''owner is down'')), w')
     \<and> Process (Some memory_InboxStore) 9 sample_envelope (Some logging) w' = (Inr (result, True, None), w')
     \<and> length (executed w') = 1"
proof -
  let ?w = "\<lparr>mi_values = Map.empty, executed = []\<rparr>"
  define result where "result = fill_result sample_envelope 7 (failed_result sample_envelope 7)"
  have r: "result = failed_result sample_envelope 7"
    by (simp add: result_def fill_result_def failed_result_def sample_envelope_def default_to_def IsZero_def)
  have v: "ResultEnvelope_Validate result = None"
    by (simp add: r failed_result_def sample_envelope_def ResultEnvelope_Validate_def IsZero_def no_newline_def
        ContainsAny_def below_one_def)
  have o: "result_of_envelope sample_envelope result"
    by (simp add: r failed_result_def sample_envelope_def result_of_envelope_def)
  obtain w' where p: "Process (Some memory_InboxStore) 7 sample_envelope (Some logging) ?w
      = (Inr (result, False, Some (Anon ''owner is down'')), w')" and x: "length (executed w') = 1"
    using v o
    by (simp add: Process_def memory_InboxStore_def memory_Claim_def memory_Commit_def go_simps sample_envelope_valid
        logging_def result_def [symmetric] claimed_entry_def entryKey_def inboxKey_def)
  have l: "leaves_inbox logging" by (auto simp: leaves_inbox_def logging_def)
  have "inbox_wf ?w" by (simp add: inbox_wf_def)
  from inbox_redelivery [OF this l _ p, of "[]" 9 logging] p x show ?thesis by auto
qed

end
