(* ===== verification/Tags.thy ===== *)
theory Tags
  imports GoMap
begin

text \<open>
  \<open>records/tags.go\<close>: the controlled vocabulary of tags. A regular expression of the code is a
  function that tests a string for it. Go's maps \<open>seen\<close>, \<open>allowed\<close> and \<open>activeGroups\<close> are maps
  here; none of them is ranged over.
\<close>

datatype TagScope = TagScopeTenant | TagScopeWorkspace | TagScopeTable | OtherTagScope string

record ControlledTag =
  ct_ID :: string
  ct_Label :: string
  ct_Group :: string
  ct_Scope :: TagScope
  ct_Active :: bool

record TagDictionary =
  td_TenantID :: string
  td_WorkspaceID :: string
  td_TableID :: string
  td_Revision :: int
  td_Entries :: "ControlledTag list"

definition lower_az :: "char \<Rightarrow> bool" where
  "lower_az c = (CHR ''a'' \<le> c \<and> c \<le> CHR ''z'')"

definition tag_char :: "char \<Rightarrow> bool" where
  "tag_char c = (lower_az c \<or> (CHR ''0'' \<le> c \<and> c \<le> CHR ''9'') \<or> c \<in> {CHR ''.'', CHR ''_'', CHR ''-''})"

definition tagIDPattern :: "string \<Rightarrow> bool" where
  "tagIDPattern s = (case s of [] \<Rightarrow> False | c # r \<Rightarrow> lower_az c \<and> list_all tag_char r \<and> length r \<le> 63)"

definition forbiddenTagPrefixes :: "string list" where
  "forbiddenTagPrefixes = [''role.'', ''permission.'', ''secret.'', ''token.'']"

definition NormalizeTagID :: "string \<Rightarrow> goerr + string" where
  "NormalizeTagID value =
     (let i = ToLower (TrimSpace value) in
      if \<not> tagIDPattern i then Inl (RecordsErr ErrInvalidTagID)
      else if list_ex (HasPrefix i) forbiddenTagPrefixes then Inl (RecordsErr ErrForbiddenTagPrefix)
      else Inr i)"

definition ControlledTag_Normalize :: "ControlledTag \<Rightarrow> goerr + ControlledTag" where
  "ControlledTag_Normalize t0 =
     (case NormalizeTagID (ct_ID t0) of
        Inl err \<Rightarrow> Inl err
      | Inr i \<Rightarrow>
          let tag = t0\<lparr>ct_ID := i, ct_Label := TrimSpace (ct_Label t0), ct_Group := ToLower (TrimSpace (ct_Group t0))\<rparr>
          in if ct_Label tag = [] then Inl (Anon ''controlled tag label is required'')
             else if ct_Group tag = [] then Inl (Anon ''controlled tag group is required'')
             else if ct_Scope tag \<notin> {TagScopeTenant, TagScopeWorkspace, TagScopeTable}
             then Inl (RecordsErr ErrInvalidTagScope)
             else Inr tag)"

fun validate_entries :: "string set \<Rightarrow> ControlledTag list \<Rightarrow> goerr option" where
  "validate_entries seen [] = None"
| "validate_entries seen (entry # entries) =
     (case ControlledTag_Normalize entry of
        Inl err \<Rightarrow> Some (Wrap ''tag entry'' err)
      | Inr normalized \<Rightarrow>
          if ct_ID normalized \<in> seen then Some (Wrap ''tag entry'' (RecordsErr ErrDuplicateTag))
          else validate_entries (insert (ct_ID normalized) seen) entries)"

definition TagDictionary_Validate :: "TagDictionary \<Rightarrow> goerr option" where
  "TagDictionary_Validate dictionary =
     (if blank (td_TenantID dictionary) \<or> td_Revision dictionary < 1
      then Some (Anon ''tag dictionary tenant and positive revision are required'')
      else if td_TableID dictionary \<noteq> [] \<and> td_WorkspaceID dictionary = []
      then Some (RecordsErr ErrTagDictionaryScope)
      else validate_entries {} (td_Entries dictionary))"

text \<open>The map \<open>allowed\<close>; the error of \<open>Normalize\<close> is dropped, so a failing entry is the empty tag.\<close>

definition empty_tag :: ControlledTag where
  "empty_tag = \<lparr>ct_ID = [], ct_Label = [], ct_Group = [], ct_Scope = OtherTagScope [], ct_Active = False\<rparr>"

fun allowed_tags :: "ControlledTag list \<Rightarrow> (string \<rightharpoonup> ControlledTag) \<Rightarrow> (string \<rightharpoonup> ControlledTag)" where
  "allowed_tags [] allowed = allowed"
| "allowed_tags (entry # entries) allowed =
     (let normalized = (case ControlledTag_Normalize entry of Inl _ \<Rightarrow> empty_tag | Inr t \<Rightarrow> t)
      in allowed_tags entries (allowed(ct_ID normalized \<mapsto> normalized)))"

text \<open>The loop over the assigned tags.\<close>

fun assign_tags ::
  "(string \<rightharpoonup> ControlledTag) \<Rightarrow> string set \<Rightarrow> (string \<rightharpoonup> string) \<Rightarrow> string list \<Rightarrow> goerr + string list" where
  "assign_tags allowed seen groups [] = Inr []"
| "assign_tags allowed seen groups (value # vals) =
     (case NormalizeTagID value of
        Inl err \<Rightarrow> Inl err
      | Inr i \<Rightarrow>
          if i \<in> seen then Inl (RecordsErr ErrDuplicateTag)
          else (case allowed i of
              None \<Rightarrow> Inl (Wrap i (RecordsErr ErrUnknownTag))
            | Some entry \<Rightarrow>
                if \<not> ct_Active entry then Inl (Wrap i (RecordsErr ErrUnknownTag))
                else if groups (ct_Group entry) \<noteq> None \<and> groups (ct_Group entry) \<noteq> Some i
                then Inl (Wrap ''tag group'' (RecordsErr ErrTagGroupConflict))
                else (case assign_tags allowed (insert i seen) (groups(ct_Group entry \<mapsto> i)) vals of
                    Inl err \<Rightarrow> Inl err
                  | Inr rest \<Rightarrow> Inr (i # rest))))"

definition ValidateAssignments ::
  "TagDictionary \<Rightarrow> string \<Rightarrow> string \<Rightarrow> string \<Rightarrow> string list \<Rightarrow> goerr + string list" where
  "ValidateAssignments dictionary tenantID workspaceID tableID tags =
     (case TagDictionary_Validate dictionary of
        Some err \<Rightarrow> Inl err
      | None \<Rightarrow>
          if td_TenantID dictionary \<noteq> tenantID
             \<or> (td_WorkspaceID dictionary \<noteq> [] \<and> td_WorkspaceID dictionary \<noteq> workspaceID)
             \<or> (td_TableID dictionary \<noteq> [] \<and> td_TableID dictionary \<noteq> tableID)
          then Inl (RecordsErr ErrTagDictionaryScope)
          else (case assign_tags (allowed_tags (td_Entries dictionary) Map.empty) {} Map.empty tags of
              Inl err \<Rightarrow> Inl err
            | Inr normalized \<Rightarrow> Inr (sort normalized)))"

section \<open>Lemmas\<close>

lemma lower_az_edge: "lower_az c \<Longrightarrow> edge_char c"
  unfolding lower_az_def edge_char_code by (auto simp: less_eq_char_def)

lemma tag_char_edge: "tag_char c \<Longrightarrow> edge_char c"
  unfolding tag_char_def lower_az_def edge_char_code by (auto simp: less_eq_char_def)

lemma tag_char_lower: "tag_char c \<Longrightarrow> lower_char c = c"
  unfolding tag_char_def lower_az_def lower_char_def by (auto simp: less_eq_char_def)

lemma tag_char_ascii: "tag_char c \<Longrightarrow> c \<noteq> CHR 0xC4 \<and> c \<noteq> CHR 0xE2"
  unfolding tag_char_def lower_az_def by (auto simp: less_eq_char_def)

lemma ToLower_tag: "list_all tag_char s \<Longrightarrow> ToLower s = s"
  by (induction s) (auto simp: tag_char_lower dest: tag_char_ascii)

lemma tagIDPattern_chars: "tagIDPattern s \<Longrightarrow> s \<noteq> [] \<and> list_all tag_char s \<and> length s \<le> 64"
  by (cases s) (auto simp: tagIDPattern_def tag_char_def)

lemma tagIDPattern_trimmed: "tagIDPattern s \<Longrightarrow> TrimSpace s = s"
  using tagIDPattern_chars [of s]
  by (intro TrimSpace_edge tag_char_edge) (auto simp: list_all_iff)

lemma NormalizeTagID_Inr:
  "NormalizeTagID value = Inr i \<longleftrightarrow>
     i = ToLower (TrimSpace value) \<and> tagIDPattern i \<and> \<not> list_ex (HasPrefix i) forbiddenTagPrefixes"
  by (auto simp: NormalizeTagID_def Let_def)

lemma NormalizeTagID_idem: "NormalizeTagID value = Inr i \<Longrightarrow> NormalizeTagID i = Inr i"
  using tagIDPattern_trimmed [of i] ToLower_tag [of i] tagIDPattern_chars [of i]
  by (simp add: NormalizeTagID_Inr) metis

lemma ControlledTag_Normalize_id: "ControlledTag_Normalize t = Inr t' \<Longrightarrow> NormalizeTagID (ct_ID t) = Inr (ct_ID t')"
  by (auto simp: ControlledTag_Normalize_def Let_def split: sum.splits if_splits)

text \<open>What an accepted assignment looks like.\<close>

definition assignment_ok ::
  "(string \<rightharpoonup> ControlledTag) \<Rightarrow> string list \<Rightarrow> bool" where
  "assignment_ok allowed ids \<longleftrightarrow>
     distinct ids
     \<and> (\<forall>i \<in> set ids. \<exists>e. allowed i = Some e \<and> ct_Active e \<and> NormalizeTagID i = Inr i)
     \<and> (\<forall>i \<in> set ids. \<forall>j \<in> set ids. \<forall>e f. allowed i = Some e \<longrightarrow> allowed j = Some f \<longrightarrow>
          ct_Group e = ct_Group f \<longrightarrow> i = j)"

lemma assign_tags_Inr:
  "assign_tags allowed seen groups vals = Inr ids \<Longrightarrow>
     map NormalizeTagID vals = map Inr ids \<and> assignment_ok allowed ids \<and> set ids \<inter> seen = {}
     \<and> (\<forall>i \<in> set ids. \<forall>e g. allowed i = Some e \<longrightarrow> groups (ct_Group e) = Some g \<longrightarrow> g = i)"
proof (induction allowed seen groups vals arbitrary: ids rule: assign_tags.induct)
  case (1 allowed seen groups)
  then show ?case by (simp add: assignment_ok_def)
next
  case (2 allowed seen groups v vs)
  from "2.prems" obtain i entry rest where n: "NormalizeTagID v = Inr i" and s: "i \<notin> seen"
    and a: "allowed i = Some entry" and act: "ct_Active entry"
    and g: "groups (ct_Group entry) = None \<or> groups (ct_Group entry) = Some i"
    and r: "assign_tags allowed (insert i seen) (groups(ct_Group entry \<mapsto> i)) vs = Inr rest" and ids: "ids = i # rest"
    by (auto split: sum.splits option.splits if_splits)
  from g have ng: "\<not> (groups (ct_Group entry) \<noteq> None \<and> groups (ct_Group entry) \<noteq> Some i)" by auto
  have na: "\<not> \<not> ct_Active entry" using act by simp
  from "2.IH" [OF n s a na ng r] have ih:
    "map NormalizeTagID vs = map Inr rest" "assignment_ok allowed rest" "set rest \<inter> insert i seen = {}"
    "\<forall>j \<in> set rest. \<forall>e h. allowed j = Some e \<longrightarrow> (groups(ct_Group entry \<mapsto> i)) (ct_Group e) = Some h \<longrightarrow> h = j"
    by blast+
  have "j = i" if "j \<in> set rest" "allowed j = Some f" "ct_Group f = ct_Group entry" for j f
    using ih(4) that by auto
  moreover have "groups (ct_Group e) = Some h \<Longrightarrow> h = j" if "j \<in> set rest" "allowed j = Some e" for j e h
    using ih(3,4) that g by (cases "ct_Group e = ct_Group entry") fastforce+
  ultimately show ?case
    using ih n s a act g ids NormalizeTagID_idem [OF n]
    by (auto simp: assignment_ok_def)
qed

lemma assignment_ok_perm: "set ids = set ids' \<Longrightarrow> distinct ids' \<Longrightarrow> assignment_ok allowed ids \<Longrightarrow> assignment_ok allowed ids'"
  by (simp add: assignment_ok_def)

text \<open>An accepted list can be assigned again and comes back unchanged.\<close>

lemma assign_tags_ok:
  "assignment_ok allowed ids \<Longrightarrow> set ids \<inter> seen = {}
     \<Longrightarrow> (\<forall>i \<in> set ids. \<forall>e g. allowed i = Some e \<longrightarrow> groups (ct_Group e) = Some g \<longrightarrow> g = i)
     \<Longrightarrow> assign_tags allowed seen groups ids = Inr ids"
proof (induction ids arbitrary: seen groups)
  case (Cons i ids)
  then obtain e where e: "allowed i = Some e" "ct_Active e" "NormalizeTagID i = Inr i"
    by (auto simp: assignment_ok_def)
  have "assignment_ok allowed ids" using Cons.prems(1) by (auto simp: assignment_ok_def)
  moreover have "set ids \<inter> insert i seen = {}" using Cons.prems(1,2) by (auto simp: assignment_ok_def)
  moreover have "\<forall>j \<in> set ids. \<forall>f g. allowed j = Some f \<longrightarrow>
      (groups(ct_Group e \<mapsto> i)) (ct_Group f) = Some g \<longrightarrow> g = j"
    using Cons.prems(1,3) e(1) by (auto simp: assignment_ok_def)
  ultimately have "assign_tags allowed (insert i seen) (groups(ct_Group e \<mapsto> i)) ids = Inr ids"
    by (rule Cons.IH)
  then show ?case using e Cons.prems(2,3) by (auto split: option.splits)
qed simp

section \<open>Properties\<close>

text \<open>What the dictionary's entries put into the map of allowed tags.\<close>

lemma validate_entries_None: "validate_entries seen es = None \<Longrightarrow> \<forall>e \<in> set es. \<exists>t. ControlledTag_Normalize e = Inr t"
  by (induction seen es rule: validate_entries.induct) (auto split: sum.splits if_splits)

lemma allowed_tags_Some:
  "\<forall>e \<in> set es. \<exists>t. ControlledTag_Normalize e = Inr t \<Longrightarrow> allowed_tags es m i = Some t \<Longrightarrow>
     m i = Some t \<or> (\<exists>e \<in> set es. ControlledTag_Normalize e = Inr t \<and> ct_ID t = i)"
proof (induction es m rule: allowed_tags.induct)
  case (2 e es m)
  from "2.prems"(1) obtain t' where t': "ControlledTag_Normalize e = Inr t'" by auto
  with "2.prems" 2(1) [of t'] have "(m(ct_ID t' \<mapsto> t')) i = Some t \<or> (\<exists>e \<in> set es. ControlledTag_Normalize e = Inr t \<and> ct_ID t = i)"
    by (simp add: Let_def del: fun_upd_apply)
  with t' show ?case by (cases "ct_ID t' = i") auto
qed simp

text \<open>
  the tags a record is given. An accepted assignment is the normalised form of the tags,
  sorted and without a duplicate; each is an active tag of the dictionary, whose scope covers
  the table; no two of them are of the same group; and assigning the result again accepts it
  unchanged.
\<close>

theorem ValidateAssignments_sound:
  assumes "ValidateAssignments dictionary tenantID workspaceID tableID tags = Inr ids"
  shows "(\<exists>normal. map NormalizeTagID tags = map Inr normal \<and> ids = sort normal) \<and> sorted ids \<and> distinct ids
    \<and> td_TenantID dictionary = tenantID \<and> td_WorkspaceID dictionary \<in> {[], workspaceID}
    \<and> td_TableID dictionary \<in> {[], tableID}
    \<and> (\<exists>entry. (\<forall>i \<in> set ids. \<exists>e \<in> set (td_Entries dictionary). ControlledTag_Normalize e = Inr (entry i)
          \<and> ct_ID (entry i) = i \<and> ct_Active (entry i)) \<and> inj_on (\<lambda>i. ct_Group (entry i)) (set ids))
    \<and> ValidateAssignments dictionary tenantID workspaceID tableID ids = Inr ids"
proof -
  let ?a = "allowed_tags (td_Entries dictionary) Map.empty"
  from assms obtain normal where v: "TagDictionary_Validate dictionary = None"
    and scope: "td_TenantID dictionary = tenantID" "td_WorkspaceID dictionary \<in> {[], workspaceID}"
      "td_TableID dictionary \<in> {[], tableID}"
    and a: "assign_tags ?a {} Map.empty tags = Inr normal" and ids: "ids = sort normal"
    by (auto simp: ValidateAssignments_def split: option.splits if_splits sum.splits)
  from assign_tags_Inr [OF a] have n: "map NormalizeTagID tags = map Inr normal" and ok0: "assignment_ok ?a normal" by blast+
  have ok: "assignment_ok ?a ids"
    by (rule assignment_ok_perm [OF _ _ ok0]) (use ok0 in \<open>simp_all add: ids assignment_ok_def\<close>)
  have "validate_entries {} (td_Entries dictionary) = None"
    using v by (simp add: TagDictionary_Validate_def split: if_splits)
  then have norm: "\<forall>e \<in> set (td_Entries dictionary). \<exists>t. ControlledTag_Normalize e = Inr t" by (rule validate_entries_None)
  define entry where "entry i = the (?a i)" for i
  have e: "?a i = Some (entry i) \<and> ct_Active (entry i)" if "i \<in> set ids" for i
    using ok that unfolding assignment_ok_def entry_def by force
  have "\<forall>i \<in> set ids. \<exists>e \<in> set (td_Entries dictionary). ControlledTag_Normalize e = Inr (entry i)
          \<and> ct_ID (entry i) = i \<and> ct_Active (entry i)"
  proof
    fix i
    assume "i \<in> set ids"
    then have "?a i = Some (entry i)" "ct_Active (entry i)" using e by blast+
    with allowed_tags_Some [OF norm, of Map.empty i "entry i"]
    show "\<exists>e \<in> set (td_Entries dictionary). ControlledTag_Normalize e = Inr (entry i)
          \<and> ct_ID (entry i) = i \<and> ct_Active (entry i)" by auto
  qed
  moreover have "inj_on (\<lambda>i. ct_Group (entry i)) (set ids)"
  proof (rule inj_onI)
    fix i j
    assume "i \<in> set ids" "j \<in> set ids" "ct_Group (entry i) = ct_Group (entry j)"
    then show "i = j" using ok e unfolding assignment_ok_def by metis
  qed
  moreover have "assign_tags ?a {} Map.empty ids = Inr ids" by (rule assign_tags_ok [OF ok]) simp_all
  with v scope ids have "ValidateAssignments dictionary tenantID workspaceID tableID ids = Inr ids"
    by (auto simp: ValidateAssignments_def sorted_sort_id)
  ultimately show ?thesis using n ids scope ok by (auto simp: assignment_ok_def)
qed

theorem ValidateAssignments_sound_witness:
  "\<exists>ids. sorted ids \<and> length ids = 2 \<and> ValidateAssignments
     \<lparr>td_TenantID = ''t'', td_WorkspaceID = [], td_TableID = [], td_Revision = 1,
      td_Entries = [\<lparr>ct_ID = ''a'', ct_Label = ''A'', ct_Group = ''g'', ct_Scope = TagScopeTenant, ct_Active = True\<rparr>,
        \<lparr>ct_ID = ''b'', ct_Label = ''B'', ct_Group = ''h'', ct_Scope = TagScopeTenant, ct_Active = True\<rparr>]\<rparr>
     ''t'' ''w'' ''tb'' ids = Inr ids"
proof -
  have "ValidateAssignments
     \<lparr>td_TenantID = ''t'', td_WorkspaceID = [], td_TableID = [], td_Revision = 1,
      td_Entries = [\<lparr>ct_ID = ''a'', ct_Label = ''A'', ct_Group = ''g'', ct_Scope = TagScopeTenant, ct_Active = True\<rparr>,
        \<lparr>ct_ID = ''b'', ct_Label = ''B'', ct_Group = ''h'', ct_Scope = TagScopeTenant, ct_Active = True\<rparr>]\<rparr>
     ''t'' ''w'' ''tb'' ['' B'', ''A''] = Inr [''a'', ''b'']"
    by code_simp
  from ValidateAssignments_sound [OF this] show ?thesis by (intro exI [of _ "[''a'', ''b'']"]) simp
qed

end
