(* ===== verification/Views.thy ===== *)
theory Views
  imports Identity Sha256
begin

text \<open>
  \<open>records/view_model.go\<close> and \<open>records/index_model.go\<close>: saved views over a table and the bounded
  indexes an administrator may define, with their validation. A flt's value has type
  \<open>interface{}\<close>; what the code distinguishes of it is the datatype \<open>view_value\<close>. The error texts
  of the code are its anonymous errors.
\<close>

section \<open>Views\<close>

datatype ViewFilterOperator =
    FilterEqual
  | FilterNotEqual
  | FilterContains
  | FilterIn
  | FilterGreater
  | FilterAtLeast
  | FilterLess
  | FilterAtMost
  | OtherFilterOperator string

datatype ViewSortDirection = SortAscending | SortDescending | OtherSortDirection string

datatype view_value =
    VNil
  | VString string
  | VBool bool
  | VNumber string
  | VList "view_value list"
  | VOther

record ViewFilter =
  vf_Field :: string
  vf_Operator :: ViewFilterOperator
  vf_Value :: view_value

record ViewSort =
  vs_Field :: string
  vs_Direction :: ViewSortDirection

record ViewDefinition =
  vd_ID :: string
  vd_TenantID :: string
  vd_WorkspaceID :: string
  vd_TableID :: string
  vd_Name :: string
  vd_Columns :: "string list"
  vd_Filters :: "ViewFilter list"
  vd_Sorts :: "ViewSort list"
  vd_Version :: int
  vd_CreatedBy :: IdentityKey
  vd_UpdatedBy :: IdentityKey
  vd_CreatedAt :: time
  vd_UpdatedAt :: time

definition ascii_letter :: "char \<Rightarrow> bool" where
  "ascii_letter c = ((CHR ''a'' \<le> c \<and> c \<le> CHR ''z'') \<or> (CHR ''A'' \<le> c \<and> c \<le> CHR ''Z''))"

definition ascii_digit :: "char \<Rightarrow> bool" where
  "ascii_digit c = (CHR ''0'' \<le> c \<and> c \<le> CHR ''9'')"

definition viewFieldPattern :: "string \<Rightarrow> bool" where
  "viewFieldPattern s =
     (case s of
        [] \<Rightarrow> False
      | c # r \<Rightarrow> ascii_letter c \<and> length r \<le> 127
          \<and> list_all (\<lambda>d. ascii_letter d \<or> ascii_digit d \<or> d \<in> {CHR ''_'', CHR ''.'', CHR ''-''}) r)"

definition validateViewField :: "string \<Rightarrow> goerr option" where
  "validateViewField field =
     (if \<not> viewFieldPattern (TrimSpace field) then Some (Anon ''field must be a simple bounded path'') else None)"

definition isScalar :: "view_value \<Rightarrow> bool" where
  "isScalar v = (case v of VNil \<Rightarrow> True | VString _ \<Rightarrow> True | VBool _ \<Rightarrow> True | VNumber _ \<Rightarrow> True | _ \<Rightarrow> False)"

definition validateFilter :: "ViewFilter \<Rightarrow> goerr option" where
  "validateFilter flt =
     (if vf_Operator flt \<in> {FilterEqual, FilterNotEqual, FilterGreater, FilterAtLeast, FilterLess, FilterAtMost}
      then (if \<not> isScalar (vf_Value flt) then Some (Anon ''filter requires a scalar value'') else None)
      else if vf_Operator flt = FilterContains
      then (case vf_Value flt of VString _ \<Rightarrow> None | _ \<Rightarrow> Some (Anon ''contains filter requires a string value''))
      else if vf_Operator flt = FilterIn
      then (case vf_Value flt of
              VList vs \<Rightarrow>
                if vs = [] \<or> length vs > 32 then Some (Anon ''in filter requires one to 32 values'')
                else if \<not> list_all isScalar vs then Some (Anon ''in filter values must be scalar'')
                else None
            | _ \<Rightarrow> Some (Anon ''in filter requires one to 32 values''))
      else Some (Anon ''unsupported view filter operator''))"

fun validate_columns :: "string set \<Rightarrow> string list \<Rightarrow> goerr option" where
  "validate_columns seen [] = None"
| "validate_columns seen (field # fs) =
     (case validateViewField field of
        Some e \<Rightarrow> Some (Wrap ''view column'' e)
      | None \<Rightarrow> if field \<in> seen then Some (Anon ''duplicate view column'')
                else validate_columns (insert field seen) fs)"

fun validate_filters :: "ViewFilter list \<Rightarrow> goerr option" where
  "validate_filters [] = None"
| "validate_filters (flt # filters) =
     (case validateViewField (vf_Field flt) of
        Some e \<Rightarrow> Some (Wrap ''view flt'' e)
      | None \<Rightarrow> (case validateFilter flt of Some e \<Rightarrow> Some e | None \<Rightarrow> validate_filters filters))"

fun validate_sorts :: "string set \<Rightarrow> ViewSort list \<Rightarrow> goerr option" where
  "validate_sorts seen [] = None"
| "validate_sorts seen (s # sorts) =
     (case validateViewField (vs_Field s) of
        Some e \<Rightarrow> Some (Wrap ''view sort'' e)
      | None \<Rightarrow>
          if vs_Direction s \<noteq> SortAscending \<and> vs_Direction s \<noteq> SortDescending
          then Some (Anon ''view sort direction must be asc or desc'')
          else if vs_Field s \<in> seen then Some (Anon ''duplicate view sort'')
          else validate_sorts (insert (vs_Field s) seen) sorts)"

definition no_identity :: "IdentityKey \<Rightarrow> bool" where
  "no_identity key = (ik_Issuer key = [] \<or> ik_Subject key = [])"

definition ViewDefinition_Validate :: "ViewDefinition \<Rightarrow> goerr option" where
  "ViewDefinition_Validate view =
     (if list_ex blank [vd_ID view, vd_TenantID view, vd_WorkspaceID view, vd_TableID view, vd_Name view]
      then Some (Anon ''view id, tenant, workspace, table, and name are required'')
      else if vd_Version view < 1 then Some (Anon ''view version must be positive'')
      else if no_identity (vd_CreatedBy view) \<or> no_identity (vd_UpdatedBy view) \<or> IsZero (vd_CreatedAt view)
         \<or> IsZero (vd_UpdatedAt view)
      then Some (Anon ''view identities and timestamps are required'')
      else if length (vd_Columns view) > 128 then Some (Anon ''view cannot have more than 128 columns'')
      else case validate_columns {} (vd_Columns view) of
        Some e \<Rightarrow> Some e
      | None \<Rightarrow>
          if length (vd_Filters view) > 16 then Some (Anon ''view cannot have more than 16 filters'')
          else (case validate_filters (vd_Filters view) of
              Some e \<Rightarrow> Some e
            | None \<Rightarrow>
                if length (vd_Sorts view) > 4 then Some (Anon ''view cannot have more than 4 sorts'')
                else validate_sorts {} (vd_Sorts view)))"

section \<open>Indexes\<close>

datatype IndexDirection = IndexAscending | IndexDescending | OtherIndexDirection string

fun direction_string :: "IndexDirection \<Rightarrow> string" where
  "direction_string IndexAscending = ''asc''"
| "direction_string IndexDescending = ''desc''"
| "direction_string (OtherIndexDirection s) = s"

definition maxIndexesPerTable :: nat where
  "maxIndexesPerTable = 16"

record IndexDefinition =
  ix_ID :: string
  ix_TenantID :: string
  ix_WorkspaceID :: string
  ix_TableID :: string
  ix_Field :: string
  ix_Direction :: IndexDirection
  ix_Name :: string
  ix_Version :: int
  ix_CreatedBy :: IdentityKey
  ix_CreatedAt :: time
  ix_UpdatedAt :: time

definition normalizeIndexField :: "string \<Rightarrow> string" where
  "normalizeIndexField field = TrimPrefix (TrimSpace field) ''data.''"

definition physicalIndexName :: "string \<Rightarrow> IndexDirection \<Rightarrow> string" where
  "physicalIndexName field direction =
     ''record_data_'' @ take 16 (sha256_hex (''data'' @ [CHR 0x00] @ normalizeIndexField field @ [CHR 0x00]
        @ direction_string direction))"

definition indexPhysicalNamePattern :: "string \<Rightarrow> bool" where
  "indexPhysicalNamePattern s =
     (case strip_prefix ''record_data_'' s of
        None \<Rightarrow> False
      | Some r \<Rightarrow> length r = 16 \<and> list_all (\<lambda>c. ascii_digit c \<or> (CHR ''a'' \<le> c \<and> c \<le> CHR ''f'')) r)"

definition indexKey :: "string \<Rightarrow> IndexDirection \<Rightarrow> string" where
  "indexKey field direction = normalizeIndexField field @ [CHR 0x00] @ direction_string direction"

definition isIndexEnvelopeField :: "string \<Rightarrow> bool" where
  "isIndexEnvelopeField field =
     (normalizeIndexField field \<in> set [''id'', ''_id'', ''recordVersion'', ''schemaVersion'', ''createdAt'',
        ''updatedAt'', ''tags'', ''relations'', ''source'', ''projection''])"

definition IndexDefinition_Validate :: "IndexDefinition \<Rightarrow> goerr option" where
  "IndexDefinition_Validate d =
     (if list_ex blank [ix_ID d, ix_TenantID d, ix_WorkspaceID d, ix_TableID d, ix_Field d]
      then Some (Anon ''index id, tenant, workspace, table, and field are required'')
      else case validateViewField (ix_Field d) of
        Some e \<Rightarrow> Some (Wrap ''index field'' e)
      | None \<Rightarrow>
          let field = TrimPrefix (TrimSpace (ix_Field d)) ''data.'' in
          if field = [] \<or> CHR ''.'' \<in> set field \<or> HasPrefix field ''_''
          then Some (Anon ''index field must be a top-level published schema property'')
          else if ix_Direction d \<noteq> IndexAscending \<and> ix_Direction d \<noteq> IndexDescending
          then Some (Anon ''index direction must be asc or desc'')
          else if ix_Name d \<noteq> [] \<and> (\<not> indexPhysicalNamePattern (ix_Name d)
             \<or> ix_Name d \<noteq> physicalIndexName field (ix_Direction d))
          then Some (Anon ''index name is invalid or does not match the field and direction'')
          else if ix_Version d < 1 then Some (Anon ''index version must be positive'')
          else if no_identity (ix_CreatedBy d) \<or> IsZero (ix_CreatedAt d) \<or> IsZero (ix_UpdatedAt d)
          then Some (Anon ''index creator and timestamps are required'')
          else None)"

section \<open>Lemmas\<close>

lemma validate_columns_None:
  "validate_columns seen fs = None \<longleftrightarrow>
     (\<forall>f \<in> set fs. validateViewField f = None) \<and> distinct fs \<and> set fs \<inter> seen = {}"
  by (induction seen fs rule: validate_columns.induct) (auto split: option.splits)

lemma validate_filters_None:
  "validate_filters fs = None \<longleftrightarrow> (\<forall>f \<in> set fs. validateViewField (vf_Field f) = None \<and> validateFilter f = None)"
  by (induction fs) (auto split: option.splits)

lemma validate_sorts_None:
  "validate_sorts seen ss = None \<longleftrightarrow>
     (\<forall>s \<in> set ss. validateViewField (vs_Field s) = None \<and> vs_Direction s \<in> {SortAscending, SortDescending})
     \<and> distinct (map vs_Field ss) \<and> vs_Field ` set ss \<inter> seen = {}"
  by (induction seen ss rule: validate_sorts.induct) (auto split: option.splits)

lemma ViewDefinition_Validate_None:
  "ViewDefinition_Validate v = None \<Longrightarrow>
     distinct (vd_Columns v) \<and> length (vd_Columns v) \<le> 128 \<and> length (vd_Filters v) \<le> 16 \<and> length (vd_Sorts v) \<le> 4
     \<and> distinct (map vs_Field (vd_Sorts v)) \<and> 1 \<le> vd_Version v
     \<and> (\<forall>f \<in> set (vd_Filters v). validateFilter f = None)"
  unfolding ViewDefinition_Validate_def
  by (auto simp: validate_columns_None validate_filters_None validate_sorts_None split: if_splits option.splits)

text \<open>The characters of hexadecimal digests are the ones the physical name may have.\<close>

lemma hex_digit_ascii: "n < 16 \<Longrightarrow> ascii_digit (hex_digit n) \<or> (CHR ''a'' \<le> hex_digit n \<and> hex_digit n \<le> CHR ''f'')"
proof -
  have "c \<in> set hex_table \<Longrightarrow> ascii_digit c \<or> (CHR ''a'' \<le> c \<and> c \<le> CHR ''f'')" for c
    unfolding hex_table_def ascii_digit_def by (simp, elim disjE) simp_all
  moreover assume "n < 16"
  ultimately show ?thesis using hex_digit_table by blast
qed

lemma physicalIndexName_pattern: "indexPhysicalNamePattern (physicalIndexName field direction)"
proof -
  let ?h = "take 16 (sha256_hex (''data'' @ [CHR 0x00] @ normalizeIndexField field @ [CHR 0x00] @ direction_string direction))"
  have "length ?h = 16" by simp
  moreover have "c \<in> set ?h \<Longrightarrow> ascii_digit c \<or> (CHR ''a'' \<le> c \<and> c \<le> CHR ''f'')" for c
    using hex_digit_ascii set_hex_encode unfolding sha256_hex_def by (metis in_set_takeD)
  moreover have "strip_prefix ''record_data_'' (''record_data_'' @ ?h) = Some ?h"
    by (subst strip_prefix_Some) (rule refl)
  ultimately show ?thesis
    unfolding indexPhysicalNamePattern_def physicalIndexName_def by (simp only: option.case list_all_iff) blast
qed

lemma physicalIndexName_normalize:
  "TrimSpace (normalizeIndexField field) = normalizeIndexField field \<Longrightarrow>
   \<not> HasPrefix (normalizeIndexField field) ''data.'' \<Longrightarrow>
   physicalIndexName (normalizeIndexField field) direction = physicalIndexName field direction"
  unfolding physicalIndexName_def normalizeIndexField_def [of "normalizeIndexField field"]
  by (simp add: TrimPrefix_def HasPrefix_def)

section \<open>Properties\<close>

text \<open>
  the size of an accepted view. It has at most 128 columns, 16 filters and 4 sorts, no
  column and no sort field occurs twice, every field is a bounded path, every filter has a
  value of the shape its operator needs, and its identity, version and times are set.
\<close>

theorem view_bounded:
  assumes "ViewDefinition_Validate view = None"
  shows "length (vd_Columns view) \<le> 128 \<and> length (vd_Filters view) \<le> 16 \<and> length (vd_Sorts view) \<le> 4
    \<and> distinct (vd_Columns view) \<and> distinct (map vs_Field (vd_Sorts view)) \<and> 1 \<le> vd_Version view
    \<and> (\<forall>field \<in> set (vd_Columns view) \<union> vf_Field ` set (vd_Filters view) \<union> vs_Field ` set (vd_Sorts view).
         viewFieldPattern (TrimSpace field) \<and> length (TrimSpace field) \<le> 128)
    \<and> (\<forall>flt \<in> set (vd_Filters view). case vf_Operator flt of
          FilterContains \<Rightarrow> (\<exists>s. vf_Value flt = VString s)
        | FilterIn \<Rightarrow> (\<exists>vs. vf_Value flt = VList vs \<and> 1 \<le> length vs \<and> length vs \<le> 32 \<and> list_all isScalar vs)
        | OtherFilterOperator _ \<Rightarrow> False
        | _ \<Rightarrow> isScalar (vf_Value flt))
    \<and> vd_CreatedAt view \<noteq> 0 \<and> \<not> blank (vd_TenantID view)"
proof -
  have field: "validateViewField f = None \<Longrightarrow> viewFieldPattern (TrimSpace f) \<and> length (TrimSpace f) \<le> 128" for f
    by (auto simp: validateViewField_def viewFieldPattern_def split: if_splits list.splits)
  have flt: "validateFilter flt = None \<Longrightarrow> case vf_Operator flt of
          FilterContains \<Rightarrow> (\<exists>s. vf_Value flt = VString s)
        | FilterIn \<Rightarrow> (\<exists>vs. vf_Value flt = VList vs \<and> 1 \<le> length vs \<and> length vs \<le> 32 \<and> list_all isScalar vs)
        | OtherFilterOperator _ \<Rightarrow> False
        | _ \<Rightarrow> isScalar (vf_Value flt)" for flt
    by (cases "vf_Operator flt") (auto simp: validateFilter_def Suc_le_eq split: view_value.splits if_splits)
  from assms have v: "validate_columns {} (vd_Columns view) = None" "validate_filters (vd_Filters view) = None"
    "validate_sorts {} (vd_Sorts view) = None" "vd_CreatedAt view \<noteq> 0" "\<not> blank (vd_TenantID view)"
    by (auto simp: ViewDefinition_Validate_def IsZero_def split: if_splits option.splits)
  have f: "\<forall>field \<in> set (vd_Columns view) \<union> vf_Field ` set (vd_Filters view) \<union> vs_Field ` set (vd_Sorts view).
         validateViewField field = None"
    using v by (auto simp: validate_columns_None validate_filters_None validate_sorts_None)
  show ?thesis
    using ViewDefinition_Validate_None [OF assms] v(4,5) field flt f by (intro conjI ballI) simp_all
qed

theorem view_bounded_witness:
  "length [''name'', ''status''] \<le> 128 \<and> viewFieldPattern (TrimSpace ''name'')"
proof -
  let ?v = "\<lparr>vd_ID = ''v'', vd_TenantID = ''t'', vd_WorkspaceID = ''w'', vd_TableID = ''tb'', vd_Name = ''n'',
     vd_Columns = [''name'', ''status''],
     vd_Filters = [\<lparr>vf_Field = ''status'', vf_Operator = FilterIn, vf_Value = VList [VString ''open'']\<rparr>],
     vd_Sorts = [\<lparr>vs_Field = ''name'', vs_Direction = SortAscending\<rparr>], vd_Version = 1,
     vd_CreatedBy = \<lparr>ik_Issuer = ''i'', ik_Subject = ''s''\<rparr>, vd_UpdatedBy = \<lparr>ik_Issuer = ''i'', ik_Subject = ''s''\<rparr>,
     vd_CreatedAt = 1, vd_UpdatedAt = 1\<rparr>"
  have "viewFieldPattern (TrimSpace ''name'')" "viewFieldPattern (TrimSpace ''status'')" "\<not> blank ''v''" "\<not> blank ''t''"
    "\<not> blank ''w''" "\<not> blank ''tb''" "\<not> blank ''n''"
    by (simp_all add: trim_simps viewFieldPattern_def ascii_letter_def less_eq_char_def)
  then have "ViewDefinition_Validate ?v = None"
    by (simp add: ViewDefinition_Validate_def validateViewField_def validateFilter_def isScalar_def no_identity_def IsZero_def)
  from view_bounded [OF this] show ?thesis by simp
qed


lemma IndexDefinition_Validate_None:
  "IndexDefinition_Validate d = None \<longleftrightarrow>
     \<not> list_ex blank [ix_ID d, ix_TenantID d, ix_WorkspaceID d, ix_TableID d, ix_Field d]
     \<and> validateViewField (ix_Field d) = None
     \<and> (let field = TrimPrefix (TrimSpace (ix_Field d)) ''data.'' in
         field \<noteq> [] \<and> CHR ''.'' \<notin> set field \<and> \<not> HasPrefix field ''_''
         \<and> ix_Direction d \<in> {IndexAscending, IndexDescending}
         \<and> ix_Name d \<in> {[], physicalIndexName field (ix_Direction d)})
     \<and> 1 \<le> ix_Version d \<and> \<not> no_identity (ix_CreatedBy d) \<and> \<not> IsZero (ix_CreatedAt d) \<and> \<not> IsZero (ix_UpdatedAt d)"
proof -
  have n: "(a \<noteq> [] \<and> (\<not> indexPhysicalNamePattern a \<or> a \<noteq> physicalIndexName f dir)) \<longleftrightarrow> a \<notin> {[], physicalIndexName f dir}"
    for a f dir using physicalIndexName_pattern by auto
  show ?thesis
    unfolding IndexDefinition_Validate_def Let_def n
    by (cases "validateViewField (ix_Field d)") (auto simp only: option.case if_error_None option.distinct not_less insert_iff empty_iff)
qed

text \<open>
  The physical name of an index. The name that the code computes has the form the
  validation asks for; a definition that carries it is accepted exactly when the same
  definition without a name is; and an accepted definition carries no other name.
\<close>

theorem index_name_accepted:
  "indexPhysicalNamePattern (physicalIndexName (TrimPrefix (TrimSpace (ix_Field d)) ''data.'') (ix_Direction d))
   \<and> (IndexDefinition_Validate (d\<lparr>ix_Name := physicalIndexName (TrimPrefix (TrimSpace (ix_Field d)) ''data.'') (ix_Direction d)\<rparr>) = None
      \<longleftrightarrow> IndexDefinition_Validate (d\<lparr>ix_Name := []\<rparr>) = None)
   \<and> (case IndexDefinition_Validate d of
        None \<Rightarrow> ix_Name d \<in> {[], physicalIndexName (TrimPrefix (TrimSpace (ix_Field d)) ''data.'') (ix_Direction d)}
      | Some e \<Rightarrow> True)"
  using physicalIndexName_pattern IndexDefinition_Validate_None [of d]
  by (simp add: IndexDefinition_Validate_None Let_def split: option.split)

end
