(* ===== verification/RecordFeed.thy ===== *)
theory RecordFeed
  imports GoMap
begin

text \<open>
  \<open>records/feed.go\<close>: the bounded broker of record changes. \<open>Publish\<close>, \<open>Subscribe\<close> and the
  closing of a subscription hold the feed's mutex, and a client takes a change from its
  channel; each is one step. A channel keeps what is buffered in it, its capacity and whether
  it is closed and why; the model also keeps what the client has taken from it, so that what
  a subscriber saw can be compared with what was published. Identifiers are \<open>uint64\<close>.
\<close>

datatype ChangeType = Upsert | Delete | OtherChange string

record RecordChange =
  rc_ID :: "64 word"
  rc_TenantID :: string
  rc_WorkspaceID :: string
  rc_TableID :: string
  rc_RecordID :: string
  rc_RecordVersion :: int
  rc_ChangeType :: ChangeType
  rc_LastEventID :: string
  rc_OccurredAt :: time
  rc_DedupKey :: string

definition change_validate :: "RecordChange \<Rightarrow> goerr option" where
  "change_validate change =
     (if blank (rc_TenantID change) \<or> blank (rc_WorkspaceID change) \<or> blank (rc_TableID change)
         \<or> blank (rc_RecordID change)
      then Some (RecordsErr ErrFeedScopeRequired)
      else if rc_RecordVersion change < 0 \<or> (rc_ChangeType change \<noteq> Upsert \<and> rc_ChangeType change \<noteq> Delete)
      then Some (RecordsErr ErrFeedCursorInvalid)
      else None)"

record feedScope =
  sc_tenantID :: string
  sc_workspaceID :: string
  sc_tableID :: string

definition scope_matches :: "feedScope \<Rightarrow> RecordChange \<Rightarrow> bool" where
  "scope_matches scope change \<longleftrightarrow>
     sc_tenantID scope = rc_TenantID change \<and> sc_workspaceID scope = rc_WorkspaceID change
     \<and> sc_tableID scope = rc_TableID change"

record feedSubscriber =
  fs_scope :: feedScope
  fs_capacity :: nat
  fs_events :: "RecordChange list"
  fs_taken :: "RecordChange list"
  fs_closed :: bool
  fs_done :: "goerr option"

record RecordFeed =
  rf_history :: "RecordChange list"
  rf_historyLimit :: nat
  rf_subscriberBuf :: nat
  rf_nextID :: "64 word"
  rf_nextSubscriber :: "64 word"
  rf_subscribers :: "64 word list"
  rf_channels :: "64 word \<Rightarrow> feedSubscriber"
  rf_dedup :: "string \<rightharpoonup> 64 word"
  rf_dropped :: "64 word"

definition DefaultFeedHistoryLimit :: nat where "DefaultFeedHistoryLimit = 2048"
definition DefaultFeedBufferSize :: nat where "DefaultFeedBufferSize = 64"

definition empty_channel :: feedSubscriber where
  "empty_channel = \<lparr>fs_scope = \<lparr>sc_tenantID = [], sc_workspaceID = [], sc_tableID = []\<rparr>, fs_capacity = 0,
     fs_events = [], fs_taken = [], fs_closed = False, fs_done = None\<rparr>"

definition NewRecordFeed :: "int \<Rightarrow> int \<Rightarrow> RecordFeed" where
  "NewRecordFeed historyLimit subscriberBuffer =
     \<lparr>rf_history = [],
      rf_historyLimit = (if historyLimit \<le> 0 then DefaultFeedHistoryLimit else nat historyLimit),
      rf_subscriberBuf = (if subscriberBuffer \<le> 0 then DefaultFeedBufferSize else nat subscriberBuffer),
      rf_nextID = 0, rf_nextSubscriber = 0, rf_subscribers = [], rf_channels = (\<lambda>_. empty_channel),
      rf_dedup = Map.empty, rf_dropped = 0\<rparr>"

text \<open>\<open>subscriber.close\<close>, behind its \<open>sync.Once\<close>.\<close>

definition close_subscriber :: "goerr option \<Rightarrow> feedSubscriber \<Rightarrow> feedSubscriber" where
  "close_subscriber reason subscriber =
     (if fs_closed subscriber then subscriber
      else subscriber\<lparr>fs_closed := True, fs_done := reason\<rparr>)"

section \<open>Publishing\<close>

text \<open>
  Delivery to one registered subscriber: a send that would block drops the subscriber. The
  subscribers are independent of each other, so the order of Go's \<open>range\<close> does not matter.
\<close>

definition deliverable :: "RecordChange \<Rightarrow> RecordFeed \<Rightarrow> 64 word \<Rightarrow> bool" where
  "deliverable change feed key =
     (length (fs_events (rf_channels feed key)) < fs_capacity (rf_channels feed key))"

definition deliver_to :: "RecordChange \<Rightarrow> RecordFeed \<Rightarrow> 64 word \<Rightarrow> feedSubscriber" where
  "deliver_to change feed key =
     (let subscriber = rf_channels feed key in
      if key \<notin> set (rf_subscribers feed) \<or> \<not> scope_matches (fs_scope subscriber) change then subscriber
      else if deliverable change feed key
        then subscriber\<lparr>fs_events := fs_events subscriber @ [change]\<rparr>
      else close_subscriber (Some (RecordsErr ErrFeedSlowConsumer)) subscriber)"

definition is_slow :: "RecordChange \<Rightarrow> RecordFeed \<Rightarrow> 64 word \<Rightarrow> bool" where
  "is_slow change feed key =
     (scope_matches (fs_scope (rf_channels feed key)) change \<and> \<not> deliverable change feed key)"

definition fan_out :: "RecordChange \<Rightarrow> RecordFeed \<Rightarrow> RecordFeed" where
  "fan_out change feed = feed
     \<lparr>rf_channels := deliver_to change feed,
      rf_subscribers := filter (\<lambda>key. \<not> is_slow change feed key) (rf_subscribers feed),
      rf_dropped := rf_dropped feed + word_of_nat (length (filter (is_slow change feed) (rf_subscribers feed)))\<rparr>"

text \<open>The retained window: the oldest change leaves with its deduplication key.\<close>

definition expire_oldest :: "RecordFeed \<Rightarrow> RecordFeed" where
  "expire_oldest feed =
     (if length (rf_history feed) > rf_historyLimit feed then
        (let expired = hd (rf_history feed) in
         feed\<lparr>rf_history := tl (rf_history feed),
              rf_dedup := (if rc_DedupKey expired = [] then rf_dedup feed
                           else (rf_dedup feed)(rc_DedupKey expired := None))\<rparr>)
      else feed)"

definition record_change :: "RecordChange \<Rightarrow> RecordFeed \<Rightarrow> RecordFeed" where
  "record_change change feed =
     (let kept = expire_oldest (feed\<lparr>rf_history := rf_history feed @ [change]\<rparr>) in
      if rc_DedupKey change = [] then kept
      else kept\<lparr>rf_dedup := (rf_dedup kept)(rc_DedupKey change \<mapsto> rc_ID change)\<rparr>)"

definition numbered :: "time \<Rightarrow> RecordFeed \<Rightarrow> RecordChange \<Rightarrow> RecordChange" where
  "numbered now feed change =
     change\<lparr>rc_ID := rf_nextID feed + 1,
       rc_OccurredAt := (if IsZero (rc_OccurredAt change) then now else rc_OccurredAt change)\<rparr>"

definition duplicate :: "RecordFeed \<Rightarrow> RecordChange \<Rightarrow> bool" where
  "duplicate feed change = (rc_DedupKey change \<noteq> [] \<and> rf_dedup feed (rc_DedupKey change) \<noteq> None)"

definition feed_Publish :: "time \<Rightarrow> RecordChange \<Rightarrow> RecordFeed \<Rightarrow> goerr option \<times> RecordFeed" where
  "feed_Publish now change feed =
     (case change_validate change of
        Some err \<Rightarrow> (Some err, feed)
      | None \<Rightarrow>
          if duplicate feed change then (None, feed)
          else let stored = numbered now feed change in
            (None, fan_out stored (record_change stored (feed\<lparr>rf_nextID := rf_nextID feed + 1\<rparr>))))"

section \<open>Subscribing\<close>

definition feed_Subscribe ::
  "string \<Rightarrow> string \<Rightarrow> string \<Rightarrow> 64 word \<Rightarrow> int \<Rightarrow> RecordFeed
     \<Rightarrow> (goerr + (64 word \<times> RecordChange list)) \<times> RecordFeed" where
  "feed_Subscribe tenantID workspaceID tableID afterID buffer feed =
     (if blank tenantID \<or> blank workspaceID \<or> blank tableID then (Inl (RecordsErr ErrFeedScopeRequired), feed)
      else if afterID > 0 \<and> rf_history feed \<noteq> [] \<and> afterID < rc_ID (hd (rf_history feed)) - 1
      then (Inl (RecordsErr ErrFeedCursorExpired), feed)
      else
        let scope = \<lparr>sc_tenantID = tenantID, sc_workspaceID = workspaceID, sc_tableID = tableID\<rparr>;
            replay = (if afterID > 0
                      then filter (\<lambda>change. rc_ID change > afterID \<and> scope_matches scope change) (rf_history feed)
                      else []);
            wanted = (if buffer \<le> 0 then rf_subscriberBuf feed else nat buffer);
            room = max wanted (length replay + 1);
            capacity = min room (rf_historyLimit feed + rf_subscriberBuf feed);
            key = rf_nextSubscriber feed + 1;
            subscriber = empty_channel\<lparr>fs_scope := scope, fs_capacity := capacity\<rparr>
        in (Inr (key, replay),
            feed\<lparr>rf_nextSubscriber := key, rf_subscribers := List.insert key (rf_subscribers feed),
                 rf_channels := (rf_channels feed)(key := subscriber)\<rparr>))"

lemma feed_Subscribe_Inr:
  assumes "feed_Subscribe t ws tb after buffer f = (Inr (key, replay), f')"
  shows "\<exists>capacity. \<not> (after > 0 \<and> rf_history f \<noteq> [] \<and> after < rc_ID (hd (rf_history f)) - 1)
    \<and> key = rf_nextSubscriber f + 1
    \<and> replay = (if after > 0
         then filter (\<lambda>c. rc_ID c > after \<and> scope_matches \<lparr>sc_tenantID = t, sc_workspaceID = ws, sc_tableID = tb\<rparr> c) (rf_history f)
         else [])
    \<and> f' = f\<lparr>rf_nextSubscriber := key, rf_subscribers := List.insert key (rf_subscribers f),
         rf_channels := (rf_channels f)(key := empty_channel\<lparr>fs_scope := \<lparr>sc_tenantID = t, sc_workspaceID = ws,
           sc_tableID = tb\<rparr>, fs_capacity := capacity\<rparr>)\<rparr>"
proof -
  have g1: "\<not> (blank t \<or> blank ws \<or> blank tb)"
  proof
    assume "blank t \<or> blank ws \<or> blank tb"
    with assms show False by (simp only: feed_Subscribe_def if_True prod.inject sum.distinct simp_thms)
  qed
  have g2: "\<not> (after > 0 \<and> rf_history f \<noteq> [] \<and> after < rc_ID (hd (rf_history f)) - 1)"
  proof
    assume "after > 0 \<and> rf_history f \<noteq> [] \<and> after < rc_ID (hd (rf_history f)) - 1"
    with assms g1 show False by (simp only: feed_Subscribe_def if_True if_False prod.inject sum.distinct simp_thms)
  qed
  from assms show ?thesis
    unfolding feed_Subscribe_def if_not_P [OF g1] if_not_P [OF g2] Let_def prod.inject sum.inject
    by (elim conjE, hypsubst_thin) (intro exI conjI g2, assumption?, (rule refl | simp only: simp_thms | rule TrueI)+)
qed

definition subscription_Close :: "64 word \<Rightarrow> RecordFeed \<Rightarrow> RecordFeed" where
  "subscription_Close key feed =
     feed\<lparr>rf_subscribers := removeAll key (rf_subscribers feed),
          rf_channels := (rf_channels feed)(key := close_subscriber None (rf_channels feed key))\<rparr>"

text \<open>A client takes the next change out of its channel.\<close>

definition take_event :: "64 word \<Rightarrow> RecordFeed \<Rightarrow> RecordChange option \<times> RecordFeed" where
  "take_event key feed =
     (case fs_events (rf_channels feed key) of
        [] \<Rightarrow> (None, feed)
      | change # rest \<Rightarrow>
          (Some change, feed\<lparr>rf_channels := (rf_channels feed)(key := (rf_channels feed key)
             \<lparr>fs_events := rest, fs_taken := fs_taken (rf_channels feed key) @ [change]\<rparr>)\<rparr>))"

text \<open>\<open>strconv.ParseUint(raw, 10, 64)\<close> of the cursor a client sends.\<close>

definition parseFeedCursor :: "string \<Rightarrow> goerr + 64 word" where
  "parseFeedCursor text =
     (let raw = TrimSpace text in
      if raw = [] then Inr 0
      else if \<not> list_all (\<lambda>c. 48 \<le> (of_char c :: nat) \<and> (of_char c :: nat) \<le> 57) raw
      then Inl (RecordsErr ErrFeedCursorInvalid)
      else let n = foldl (\<lambda>a c. a * 10 + (of_char c - 48)) (0 :: nat) raw in
        if n \<ge> 2 ^ 64 \<or> n = 0 then Inl (RecordsErr ErrFeedCursorInvalid)
        else Inr (word_of_nat n))"

section \<open>Runs\<close>

text \<open>
  A state of a run is the feed, the list of all changes that were published so far, and for
  each subscription how many of them there were when it began.
\<close>

type_synonym feed_run = "RecordFeed \<times> RecordChange list \<times> (64 word \<Rightarrow> nat)"

definition published :: "time \<Rightarrow> RecordChange \<Rightarrow> RecordFeed \<Rightarrow> RecordChange list" where
  "published now change feed =
     (if change_validate change = None \<and> \<not> duplicate feed change then [numbered now feed change] else [])"

inductive feed_step :: "feed_run \<Rightarrow> feed_run \<Rightarrow> bool" where
  step_publish: "feed_Publish now change f = (res, f') \<Longrightarrow>
     feed_step (f, log, since) (f', log @ published now change f, since)"
| step_subscribe: "feed_Subscribe t ws tb after buffer f = (Inr (key, replay), f') \<Longrightarrow>
     feed_step (f, log, since) (f', log, since(key := length log))"
| step_close: "feed_step (f, log, since) (subscription_Close key f, log, since)"
| step_take: "take_event key f = (got, f') \<Longrightarrow> feed_step (f, log, since) (f', log, since)"

inductive_cases feed_stepE: "feed_step (f, log, since) s'"

definition feed_start :: "int \<Rightarrow> int \<Rightarrow> feed_run" where
  "feed_start historyLimit subscriberBuffer = (NewRecordFeed historyLimit subscriberBuffer, [], \<lambda>_. 0)"

text \<open>The window and the numbering.\<close>

definition window_ok :: "RecordFeed \<Rightarrow> RecordChange list \<Rightarrow> bool" where
  "window_ok f log \<longleftrightarrow>
     0 < rf_historyLimit f \<and> rf_history f = drop (length log - rf_historyLimit f) log
     \<and> rf_nextID f = word_of_nat (length log) \<and> (\<forall>i < length log. rc_ID (log ! i) = word_of_nat (Suc i))"

text \<open>The deduplication table is that of the retained changes.\<close>

definition keys_of :: "RecordChange list \<Rightarrow> string list" where
  "keys_of cs = filter (\<lambda>k. k \<noteq> []) (map rc_DedupKey cs)"

definition dedup_ok :: "RecordFeed \<Rightarrow> bool" where
  "dedup_ok f \<longleftrightarrow> distinct (keys_of (rf_history f)) \<and> dom (rf_dedup f) = set (keys_of (rf_history f))"

text \<open>A registered subscriber has every matching change since it began, in order, and no other.\<close>

definition live_ok :: "RecordFeed \<Rightarrow> RecordChange list \<Rightarrow> (64 word \<Rightarrow> nat) \<Rightarrow> bool" where
  "live_ok f log since \<longleftrightarrow> (\<forall>key \<in> set (rf_subscribers f).
     let ch = rf_channels f key in
       \<not> fs_closed ch \<and> since key \<le> length log \<and> length (fs_events ch) \<le> fs_capacity ch
       \<and> fs_taken ch @ fs_events ch = filter (scope_matches (fs_scope ch)) (drop (since key) log))"

lemma keys_of_append [simp]: "keys_of (xs @ ys) = keys_of xs @ keys_of ys"
  by (simp add: keys_of_def)

lemma keys_of_Nil [simp]: "keys_of [] = []"
  by (simp add: keys_of_def)

lemma keys_of_Cons: "keys_of (c # cs) = (if rc_DedupKey c = [] then keys_of cs else rc_DedupKey c # keys_of cs)"
  by (simp add: keys_of_def)

lemma window_start: "window_ok (NewRecordFeed l b) []"
  by (simp add: window_ok_def NewRecordFeed_def DefaultFeedHistoryLimit_def)

lemma dedup_start: "dedup_ok (NewRecordFeed l b)"
  by (simp add: dedup_ok_def NewRecordFeed_def keys_of_def)

lemma live_start: "live_ok (NewRecordFeed l b) [] since"
  by (simp add: live_ok_def NewRecordFeed_def)

lemma fan_out_fields [simp]:
  "rf_history (fan_out c f) = rf_history f" "rf_historyLimit (fan_out c f) = rf_historyLimit f"
  "rf_nextID (fan_out c f) = rf_nextID f" "rf_dedup (fan_out c f) = rf_dedup f"
  by (simp_all add: fan_out_def)

lemma record_change_fields [simp]:
  "rf_historyLimit (record_change c f) = rf_historyLimit f" "rf_nextID (record_change c f) = rf_nextID f"
  "rf_subscribers (record_change c f) = rf_subscribers f" "rf_channels (record_change c f) = rf_channels f"
  by (simp_all add: record_change_def expire_oldest_def Let_def)

lemma record_change_history:
  "rf_history (record_change c f) =
     (if length (rf_history f) < rf_historyLimit f then rf_history f @ [c] else tl (rf_history f @ [c]))"
  by (auto simp: record_change_def expire_oldest_def Let_def)

lemma window_publish:
  assumes "window_ok f log" "feed_Publish now c f = (res, f')"
  shows "window_ok f' (log @ published now c f)"
proof (cases "change_validate c = None \<and> \<not> duplicate f c")
  case False
  with assms show ?thesis by (auto simp: feed_Publish_def published_def split: option.splits if_splits)
next
  case True
  define d where "d = numbered now f c"
  from True assms(2) have f': "f' = fan_out d (record_change d (f\<lparr>rf_nextID := rf_nextID f + 1\<rparr>))"
    by (simp add: feed_Publish_def d_def Let_def)
  have l: "log @ published now c f = log @ [d]" using True by (simp add: published_def d_def)
  have h: "rf_history f = drop (length log - rf_historyLimit f) log" "0 < rf_historyLimit f"
    using assms(1) by (simp_all add: window_ok_def)
  have "rf_history f' = drop (length (log @ [d]) - rf_historyLimit f) (log @ [d])"
  proof (cases "length log < rf_historyLimit f")
    case True
    with h show ?thesis by (simp add: f' record_change_history)
  next
    case False
    with h have "length (rf_history f) = rf_historyLimit f" by simp
    moreover have "length (log @ [d]) - rf_historyLimit f = Suc (length log - rf_historyLimit f)"
      using False by simp
    then have "drop (length (log @ [d]) - rf_historyLimit f) (log @ [d])
        = tl (drop (length log - rf_historyLimit f) (log @ [d]))"
      by (simp only: drop_Suc tl_drop)
    moreover have "rf_history f @ [d] = drop (length log - rf_historyLimit f) (log @ [d])" using h by simp
    ultimately show ?thesis by (simp add: f' record_change_history)
  qed
  moreover have "rc_ID d = word_of_nat (Suc (length log))"
    using assms(1) by (simp add: d_def numbered_def window_ok_def)
  ultimately show ?thesis
    using assms(1) by (auto simp: window_ok_def l f' nth_append less_Suc_eq)
qed

lemma dedup_publish:
  assumes "dedup_ok f" "feed_Publish now c f = (res, f')" "0 < rf_historyLimit f"
  shows "dedup_ok f'"
proof (cases "change_validate c = None \<and> \<not> duplicate f c")
  case False
  with assms show ?thesis by (auto simp: feed_Publish_def split: option.splits if_splits)
next
  case True
  define d where "d = numbered now f c"
  have key: "rc_DedupKey d = rc_DedupKey c" by (simp add: d_def numbered_def)
  from True assms(2) have f': "f' = fan_out d (record_change d (f\<lparr>rf_nextID := rf_nextID f + 1\<rparr>))"
    by (simp add: feed_Publish_def d_def Let_def)
  have fresh: "rc_DedupKey d \<noteq> [] \<Longrightarrow> rc_DedupKey d \<notin> set (keys_of (rf_history f))"
    using True assms(1) by (auto simp: duplicate_def dedup_ok_def key)
  show ?thesis
  proof (cases "length (rf_history f) < rf_historyLimit f")
    case True
    with assms(1) fresh show ?thesis
      by (auto simp: dedup_ok_def f' record_change_def expire_oldest_def Let_def keys_of_Cons)
  next
    case False
    with assms(3) obtain x xs where h: "rf_history f = x # xs" by (cases "rf_history f") auto
    with False assms(1) fresh show ?thesis
      by (auto simp: dedup_ok_def f' record_change_def expire_oldest_def Let_def keys_of_Cons split: if_splits)
  qed
qed

lemma live_publish:
  assumes "live_ok f log since" "feed_Publish now c f = (res, f')"
  shows "live_ok f' (log @ published now c f) since"
proof (cases "change_validate c = None \<and> \<not> duplicate f c")
  case False
  with assms show ?thesis by (auto simp: feed_Publish_def published_def split: option.splits if_splits)
next
  case True
  define d where "d = numbered now f c"
  from True assms(2) have f': "f' = fan_out d (record_change d (f\<lparr>rf_nextID := rf_nextID f + 1\<rparr>))"
    by (simp add: feed_Publish_def d_def Let_def)
  have l: "log @ published now c f = log @ [d]" using True by (simp add: published_def d_def)
  show ?thesis
    using assms(1)
    by (auto simp: live_ok_def l f' fan_out_def deliver_to_def is_slow_def deliverable_def Let_def)
qed

lemma live_subscribe:
  assumes "live_ok f log since" "feed_Subscribe t ws tb after buffer f = (Inr (key, replay), f')"
  shows "live_ok f' log (since(key := length log))"
  using assms(1) feed_Subscribe_Inr [OF assms(2)] by (auto simp: live_ok_def empty_channel_def Let_def)

lemma live_close: "live_ok f log since \<Longrightarrow> live_ok (subscription_Close key f) log since"
  by (auto simp: live_ok_def subscription_Close_def Let_def)

lemma live_take:
  assumes "live_ok f log since" "take_event key f = (got, f')"
  shows "live_ok f' log since"
proof (cases "fs_events (rf_channels f key)")
  case Nil
  with assms show ?thesis by (simp add: take_event_def)
next
  case (Cons c cs)
  with assms(2) have f': "f' = f\<lparr>rf_channels := (rf_channels f)(key := (rf_channels f key)
             \<lparr>fs_events := cs, fs_taken := fs_taken (rf_channels f key) @ [c]\<rparr>)\<rparr>"
    by (simp add: take_event_def)
  show ?thesis
    unfolding live_ok_def
  proof (intro ballI)
    fix k
    assume "k \<in> set (rf_subscribers f')"
    then have "k \<in> set (rf_subscribers f)" by (simp add: f')
    with assms(1) Cons show "let ch = rf_channels f' k in \<not> fs_closed ch \<and> since k \<le> length log
        \<and> length (fs_events ch) \<le> fs_capacity ch
        \<and> fs_taken ch @ fs_events ch = filter (scope_matches (fs_scope ch)) (drop (since k) log)"
      by (cases "k = key") (force simp: live_ok_def f' Let_def)+
  qed
qed

text \<open>The invariant of all runs.\<close>

definition feed_ok :: "feed_run \<Rightarrow> bool" where
  "feed_ok s = (case s of (f, log, since) \<Rightarrow> window_ok f log \<and> dedup_ok f \<and> live_ok f log since)"

lemma frames:
  "feed_Subscribe t ws tb after buffer f = (Inr (key, replay), f') \<Longrightarrow>
     rf_history f' = rf_history f \<and> rf_historyLimit f' = rf_historyLimit f \<and> rf_nextID f' = rf_nextID f
     \<and> rf_dedup f' = rf_dedup f"
  "take_event key f = (got, f') \<Longrightarrow>
     rf_history f' = rf_history f \<and> rf_historyLimit f' = rf_historyLimit f \<and> rf_nextID f' = rf_nextID f
     \<and> rf_dedup f' = rf_dedup f"
  by (auto simp: take_event_def split: list.splits dest!: feed_Subscribe_Inr)

lemma feed_ok_step: "feed_step s s' \<Longrightarrow> feed_ok s \<Longrightarrow> feed_ok s'"
proof (induction rule: feed_step.induct)
  case (step_publish now change f res f' log since)
  then show ?case
    using window_publish dedup_publish live_publish by (auto simp: feed_ok_def) (metis window_ok_def)+
next
  case (step_subscribe t ws tb after buffer f key replay f' log since)
  with frames(1) [OF step_subscribe.hyps] show ?case
    by (auto simp: feed_ok_def window_ok_def dedup_ok_def intro: live_subscribe)
next
  case (step_close f log since key)
  then show ?case
    by (auto simp: feed_ok_def window_ok_def dedup_ok_def subscription_Close_def intro: live_close [unfolded subscription_Close_def])
next
  case (step_take key f got f' log since)
  with frames(2) [OF step_take.hyps] show ?case
    by (auto simp: feed_ok_def window_ok_def dedup_ok_def intro: live_take)
qed

lemma feed_ok_steps: "feed_step\<^sup>*\<^sup>* s s' \<Longrightarrow> feed_ok s \<Longrightarrow> feed_ok s'"
  by (induction rule: rtranclp_induct) (auto intro: feed_ok_step)

lemma feed_ok_start: "feed_ok (feed_start l b)"
  by (simp add: feed_ok_def feed_start_def window_start dedup_start live_start)

lemma feed_ok_reach: "feed_step\<^sup>*\<^sup>* (feed_start l b) s \<Longrightarrow> feed_ok s"
  using feed_ok_steps feed_ok_start by blast

text \<open>The list of publications only grows.\<close>

lemma log_grows: "feed_step\<^sup>*\<^sup>* s s' \<Longrightarrow> \<exists>more. fst (snd s') = fst (snd s) @ more"
proof (induction rule: rtranclp_induct)
  case (step y z)
  from step.hyps(2) have "\<exists>more. fst (snd z) = fst (snd y) @ more" by (cases) auto
  with step.IH show ?case by (metis append.assoc)
qed simp

text \<open>The replay has every published change after the cursor.\<close>

lemma replay_complete:
  assumes w: "window_ok f log" and bound: "length log < 2 ^ 64"
    and s: "feed_Subscribe t ws tb after buffer f = (Inr (key, replay), f')" and a: "0 < after"
  shows "replay = filter (\<lambda>c. after < rc_ID c \<and> scope_matches \<lparr>sc_tenantID = t, sc_workspaceID = ws, sc_tableID = tb\<rparr> c) log"
proof -
  let ?P = "\<lambda>c. after < rc_ID c \<and> scope_matches \<lparr>sc_tenantID = t, sc_workspaceID = ws, sc_tableID = tb\<rparr> c"
  let ?n = "length log - rf_historyLimit f"
  have i: "unat (rc_ID (log ! i)) = Suc i" if "i < length log" for i
  proof -
    have "rc_ID (log ! i) = word_of_nat (Suc i)" using w that by (simp add: window_ok_def del: of_nat_Suc)
    then show ?thesis using bound that by (simp add: unat_of_nat del: of_nat_Suc)
  qed
  have h: "rf_history f = drop ?n log" using w by (simp add: window_ok_def)
  have r: "replay = filter ?P (rf_history f)"
    using feed_Subscribe_Inr [OF s] a by auto
  have "\<not> after < rc_ID (log ! j)" if "j < ?n" for j
  proof -
    have nonempty: "rf_history f \<noteq> []" and hd: "hd (rf_history f) = log ! ?n"
      using that h w by (auto simp: hd_drop_conv_nth window_ok_def)
    have "0 < rf_historyLimit f" using w by (simp add: window_ok_def)
    with that have "?n < length log" by arith
    then have "rc_ID (hd (rf_history f)) = word_of_nat (Suc ?n)"
      using w hd unfolding window_ok_def by metis
    then have "rc_ID (hd (rf_history f)) - 1 = word_of_nat ?n" by simp
    with s a nonempty have "word_of_nat ?n \<le> after"
      using feed_Subscribe_Inr [OF s] by (auto simp: not_less)
    then have "?n \<le> unat after"
      using bound by (simp add: word_le_nat_alt unat_of_nat)
    with that i [of j] show ?thesis by (simp add: word_less_nat_alt)
  qed
  then have "filter ?P (take ?n log) = []"
    by (auto simp: filter_empty_conv in_set_conv_nth)
  then have "filter ?P (take ?n log @ drop ?n log) = filter ?P (drop ?n log)"
    unfolding filter_append by (simp only: append_Nil)
  then show ?thesis unfolding r h append_take_drop_id by (rule sym)
qed

section \<open>Properties\<close>

text \<open>
  C33: the retained window. After any run, the history is the last changes of those that were
  published, at most as many as the limit; their identifiers count from 1 without a gap; and no
  two retained changes share a deduplication key, so a change that is published again within
  the window is dropped.
\<close>

theorem feed_window:
  assumes "feed_step\<^sup>*\<^sup>* (feed_start historyLimit subscriberBuffer) (f, log, since)"
  shows "rf_history f = drop (length log - rf_historyLimit f) log \<and> length (rf_history f) \<le> rf_historyLimit f
    \<and> map rc_ID log = map (\<lambda>i. word_of_nat (Suc i)) [0..<length log]
    \<and> distinct (filter (\<lambda>k. k \<noteq> []) (map rc_DedupKey (rf_history f)))
    \<and> dom (rf_dedup f) = set (filter (\<lambda>k. k \<noteq> []) (map rc_DedupKey (rf_history f)))"
proof -
  from feed_ok_reach [OF assms] have w: "window_ok f log" and d: "dedup_ok f" by (simp_all add: feed_ok_def)
  have "map rc_ID log = map (\<lambda>i. word_of_nat (Suc i)) [0..<length log]"
    using w by (intro nth_equalityI) (simp_all add: window_ok_def del: of_nat_Suc)
  moreover have "length (rf_history f) \<le> rf_historyLimit f" using w by (simp add: window_ok_def)
  ultimately show ?thesis using w d by (simp add: window_ok_def dedup_ok_def keys_of_def)
qed

definition sample_change :: RecordChange where
  "sample_change = \<lparr>rc_ID = 0, rc_TenantID = ''t'', rc_WorkspaceID = ''w'', rc_TableID = ''tb'', rc_RecordID = ''r'',
     rc_RecordVersion = 1, rc_ChangeType = Upsert, rc_LastEventID = [], rc_OccurredAt = 5, rc_DedupKey = ''d''\<rparr>"

definition published_once :: RecordFeed where
  "published_once = snd (feed_Publish 5 sample_change (NewRecordFeed 2 2))"

lemma sample_change_valid: "change_validate sample_change = None"
  by code_simp

lemma published_once_run: "feed_step\<^sup>*\<^sup>* (feed_start 2 2) (published_once, [sample_change\<lparr>rc_ID := 1\<rparr>], \<lambda>_. 0)"
proof -
  have "feed_step (feed_start 2 2) (published_once, [] @ published 5 sample_change (NewRecordFeed 2 2), \<lambda>_. 0)"
    unfolding feed_start_def published_once_def by (rule step_publish) (rule surjective_pairing)
  then show ?thesis
    by (simp add: published_def sample_change_valid duplicate_def NewRecordFeed_def numbered_def IsZero_def)
       (simp add: sample_change_def)
qed

theorem feed_window_witness:
  "rf_history published_once = [sample_change\<lparr>rc_ID := 1\<rparr>] \<and> dom (rf_dedup published_once) = {''d''}"
proof -
  have "rf_historyLimit published_once = 2"
    by (simp add: published_once_def feed_Publish_def sample_change_valid duplicate_def NewRecordFeed_def Let_def)
  with feed_window [OF published_once_run] show ?thesis by (simp add: sample_change_def) auto
qed

text \<open>Steps that do not hand out a given key again, which takes 2 to the 64 subscriptions.\<close>

definition other_step :: "64 word \<Rightarrow> feed_run \<Rightarrow> feed_run \<Rightarrow> bool" where
  "other_step key s s' \<longleftrightarrow> feed_step s s'
     \<and> (rf_nextSubscriber (fst s') = rf_nextSubscriber (fst s) \<or> rf_nextSubscriber (fst s') \<noteq> key)"

lemma deliver_to_scope [simp]: "fs_scope (deliver_to c f key) = fs_scope (rf_channels f key)"
  by (simp add: deliver_to_def close_subscriber_def Let_def)

lemma feed_Publish_scope:
  assumes "feed_Publish now c f = (res, f')"
  shows "fs_scope (rf_channels f' key) = fs_scope (rf_channels f key)"
proof (cases "change_validate c = None \<and> \<not> duplicate f c")
  case True
  define d where "d = numbered now f c"
  define g where "g = record_change d (f\<lparr>rf_nextID := rf_nextID f + 1\<rparr>)"
  have "rf_channels f' = deliver_to d g"
    using assms True by (auto simp: feed_Publish_def Let_def fan_out_def d_def g_def)
  then show ?thesis by (simp add: g_def)
next
  case False
  with assms show ?thesis by (auto simp: feed_Publish_def split: option.splits if_splits)
qed

lemma other_step_keeps:
  assumes "other_step key (f, log, since) (f', log', since')"
  shows "since' key = since key \<and> fs_scope (rf_channels f' key) = fs_scope (rf_channels f key)"
proof -
  from assms have s: "feed_step (f, log, since) (f', log', since')"
    and k: "rf_nextSubscriber f' = rf_nextSubscriber f \<or> rf_nextSubscriber f' \<noteq> key"
    by (simp_all add: other_step_def)
  from s show ?thesis
  proof (rule feed_stepE)
    fix now change res f2
    assume "(f', log', since') = (f2, log @ published now change f, since)" "feed_Publish now change f = (res, f2)"
    then show ?thesis using feed_Publish_scope by auto
  next
    fix t ws tb after buffer k2 replay f2
    assume a: "(f', log', since') = (f2, log, since(k2 := length log))"
      "feed_Subscribe t ws tb after buffer f = (Inr (k2, replay), f2)"
    from feed_Subscribe_Inr [OF a(2)] a(1) k have "k2 \<noteq> key" by auto
    with feed_Subscribe_Inr [OF a(2)] a(1) show ?thesis by auto
  next
    fix k2
    assume "(f', log', since') = (subscription_Close k2 f, log, since)"
    then show ?thesis by (auto simp: subscription_Close_def close_subscriber_def)
  next
    fix k2 got f2
    assume "(f', log', since') = (f2, log, since)" "take_event k2 f = (got, f2)"
    then show ?thesis by (auto simp: take_event_def split: list.splits)
  qed
qed

lemma other_steps_keep:
  "(other_step key)\<^sup>*\<^sup>* s s' \<Longrightarrow> snd (snd s') key = snd (snd s) key
     \<and> fs_scope (rf_channels (fst s') key) = fs_scope (rf_channels (fst s) key)"
proof (induction rule: rtranclp_induct)
  case (step y z)
  with other_step_keeps [of key "fst y" "fst (snd y)" "snd (snd y)" "fst z" "fst (snd z)" "snd (snd z)"]
  show ?case by simp
qed simp

lemma other_steps_run: "(other_step key)\<^sup>*\<^sup>* s s' \<Longrightarrow> feed_step\<^sup>*\<^sup>* s s'"
  by (induction rule: rtranclp_induct) (auto simp: other_step_def)



end
