(* ===== verification/Mongo.thy ===== *)
theory Mongo
  imports Identity
begin

text \<open>
  What the repositories use of the MongoDB driver. A collection is a record of the calls the
  code makes on it, over an abstract state \<open>'w\<close> (the server and everything else); the filter of
  a call is the value of the fields of a unique index and, where the code adds conditions to
  it, a test of the document; a \<open>$set\<close> is the function it applies. Nothing is assumed of these
  calls in the definitions that use them. \<open>collection_laws\<close> states the documented behaviour
  the theorems rely on, as a hypothesis: a call fails and changes nothing, or it has its effect
  on the documents and on nothing else. \<open>memory_collection\<close> has this behaviour, so the
  hypothesis can be met.
\<close>

datatype insert_result = Inserted | DuplicateKey | InsertError string

record ('w, 'k, 'd) collection =
  c_FindOne :: "'k \<Rightarrow> 'w \<Rightarrow> 'd find_result \<times> 'w"
  c_InsertOne :: "'d \<Rightarrow> 'w \<Rightarrow> insert_result \<times> 'w"
  c_UpdateOne :: "'k \<Rightarrow> ('d \<Rightarrow> bool) \<Rightarrow> ('d \<Rightarrow> 'd) \<Rightarrow> 'w \<Rightarrow> (string + nat) \<times> 'w"
  c_FindOneAndUpdate :: "'k \<Rightarrow> ('d \<Rightarrow> bool) \<Rightarrow> ('d \<Rightarrow> 'd) \<Rightarrow> 'w \<Rightarrow> 'd find_result \<times> 'w"
  c_ReplaceOne :: "'k \<Rightarrow> 'd \<Rightarrow> 'w \<Rightarrow> string option \<times> 'w"

text \<open>The effect of an update on the documents, and the document it matches.\<close>

definition matching :: "('k \<rightharpoonup> 'd) \<Rightarrow> 'k \<Rightarrow> ('d \<Rightarrow> bool) \<Rightarrow> 'd option" where
  "matching docs k P = (case docs k of Some d \<Rightarrow> if P d then Some d else None | None \<Rightarrow> None)"

definition updated :: "('k \<rightharpoonup> 'd) \<Rightarrow> 'k \<Rightarrow> ('d \<Rightarrow> bool) \<Rightarrow> ('d \<Rightarrow> 'd) \<Rightarrow> ('k \<rightharpoonup> 'd)" where
  "updated docs k P f = (case matching docs k P of Some d \<Rightarrow> docs(k \<mapsto> f d) | None \<Rightarrow> docs)"

definition find_law :: "('w, 'k, 'd) collection \<Rightarrow> ('w \<Rightarrow> 'k \<rightharpoonup> 'd) \<Rightarrow> ('w \<Rightarrow> 'f) \<Rightarrow> bool" where
  "find_law c docs frame \<longleftrightarrow> (\<forall>k w r w'. c_FindOne c k w = (r, w') \<longrightarrow>
     docs w' = docs w \<and> frame w' = frame w \<and> (r = NoDocuments \<longrightarrow> docs w k = None)
     \<and> (\<forall>d. r = Found d \<longrightarrow> docs w k = Some d))"

definition insert_law ::
  "('w, 'k, 'd) collection \<Rightarrow> ('d \<Rightarrow> 'k) \<Rightarrow> ('w \<Rightarrow> 'k \<rightharpoonup> 'd) \<Rightarrow> ('w \<Rightarrow> 'f) \<Rightarrow> bool" where
  "insert_law c keyof docs frame \<longleftrightarrow> (\<forall>d w r w'. c_InsertOne c d w = (r, w') \<longrightarrow>
     frame w' = frame w
     \<and> (r = Inserted \<longrightarrow> docs w (keyof d) = None \<and> docs w' = (docs w)(keyof d \<mapsto> d))
     \<and> (r = DuplicateKey \<longrightarrow> docs w' = docs w)
     \<and> (\<forall>m. r = InsertError m \<longrightarrow> docs w' = docs w))"

definition update_law :: "('w, 'k, 'd) collection \<Rightarrow> ('w \<Rightarrow> 'k \<rightharpoonup> 'd) \<Rightarrow> ('w \<Rightarrow> 'f) \<Rightarrow> bool" where
  "update_law c docs frame \<longleftrightarrow> (\<forall>k P f w r w'. c_UpdateOne c k P f w = (r, w') \<longrightarrow>
     frame w' = frame w
     \<and> (\<forall>e. r = Inl e \<longrightarrow> docs w' = docs w)
     \<and> (\<forall>n. r = Inr n \<longrightarrow> docs w' = updated (docs w) k P f \<and> (n = 0 \<longleftrightarrow> docs w' = docs w) \<and> n \<le> 1))"

definition find_update_law :: "('w, 'k, 'd) collection \<Rightarrow> ('w \<Rightarrow> 'k \<rightharpoonup> 'd) \<Rightarrow> ('w \<Rightarrow> 'f) \<Rightarrow> bool" where
  "find_update_law c docs frame \<longleftrightarrow> (\<forall>k P f w r w'. c_FindOneAndUpdate c k P f w = (r, w') \<longrightarrow>
     frame w' = frame w
     \<and> (\<forall>m. r = FindError m \<longrightarrow> docs w' = docs w)
     \<and> (r = NoDocuments \<longrightarrow> docs w' = docs w \<and> matching (docs w) k P = None)
     \<and> (\<forall>d. r = Found d \<longrightarrow> (\<exists>old. docs w k = Some old \<and> P old \<and> d = f old \<and> docs w' = (docs w)(k \<mapsto> d))))"

definition replace_law :: "('w, 'k, 'd) collection \<Rightarrow> ('w \<Rightarrow> 'k \<rightharpoonup> 'd) \<Rightarrow> ('w \<Rightarrow> 'f) \<Rightarrow> bool" where
  "replace_law c docs frame \<longleftrightarrow> (\<forall>k d w r w'. c_ReplaceOne c k d w = (r, w') \<longrightarrow>
     frame w' = frame w \<and> (r = None \<longrightarrow> docs w' = (docs w)(k \<mapsto> d)) \<and> (\<forall>e. r = Some e \<longrightarrow> docs w' = docs w))"

definition collection_laws ::
  "('w, 'k, 'd) collection \<Rightarrow> ('d \<Rightarrow> 'k) \<Rightarrow> ('w \<Rightarrow> 'k \<rightharpoonup> 'd) \<Rightarrow> ('w \<Rightarrow> 'f) \<Rightarrow> bool" where
  "collection_laws c keyof docs frame \<longleftrightarrow>
     find_law c docs frame \<and> insert_law c keyof docs frame \<and> update_law c docs frame
     \<and> find_update_law c docs frame \<and> replace_law c docs frame"

text \<open>
  \<open>WithTransaction\<close>: the changes of a callback that fails are dropped; those of one that
  succeeds are committed. A commit may also report an error of the driver, whether it took
  place or not.
\<close>

type_synonym ('w, 'r) transaction = "('w, 'r) go \<Rightarrow> ('w, 'r) go"

definition transaction_laws :: "('w, 'r) transaction \<Rightarrow> bool" where
  "transaction_laws tx \<longleftrightarrow> (\<forall>m w.
     (\<forall>e w1. m w = (Inl e, w1) \<longrightarrow> tx m w = (Inl e, w))
     \<and> (\<forall>r w1. m w = (Inr r, w1) \<longrightarrow> 
        tx m w = (Inr r, w1) \<or> (\<exists>e. tx m w = (Inl (External e), w) \<or> tx m w = (Inl (External e), w1))))"

section \<open>A collection in memory\<close>

text \<open>The documents are one component of the state, reached by \<open>get\<close> and \<open>put\<close>.\<close>

definition memory_collection ::
  "('d \<Rightarrow> 'k) \<Rightarrow> ('w \<Rightarrow> 'k \<rightharpoonup> 'd) \<Rightarrow> (('k \<rightharpoonup> 'd) \<Rightarrow> 'w \<Rightarrow> 'w) \<Rightarrow> ('w, 'k, 'd) collection" where
  "memory_collection keyof get put =
     \<lparr>c_FindOne = (\<lambda>k w. (case get w k of None \<Rightarrow> NoDocuments | Some d \<Rightarrow> Found d, w)),
      c_InsertOne = (\<lambda>d w. if get w (keyof d) \<noteq> None then (DuplicateKey, w)
                           else (Inserted, put ((get w)(keyof d \<mapsto> d)) w)),
      c_UpdateOne = (\<lambda>k P f w. case matching (get w) k P of
          None \<Rightarrow> (Inr 0, w)
        | Some d \<Rightarrow> (Inr (if f d = d then 0 else 1), put ((get w)(k \<mapsto> f d)) w)),
      c_FindOneAndUpdate = (\<lambda>k P f w. case matching (get w) k P of
          None \<Rightarrow> (NoDocuments, w)
        | Some d \<Rightarrow> (Found (f d), put ((get w)(k \<mapsto> f d)) w)),
      c_ReplaceOne = (\<lambda>k d w. (None, put ((get w)(k \<mapsto> d)) w))\<rparr>"

definition lens :: "('w \<Rightarrow> 'x) \<Rightarrow> ('x \<Rightarrow> 'w \<Rightarrow> 'w) \<Rightarrow> ('w \<Rightarrow> 'f) \<Rightarrow> bool" where
  "lens get put frame \<longleftrightarrow> (\<forall>x w. get (put x w) = x \<and> frame (put x w) = frame w)"

lemma matching_Some: "matching docs k P = Some d \<longleftrightarrow> docs k = Some d \<and> P d"
  by (auto simp: matching_def split: option.splits)

lemma matching_None: "matching docs k P = None \<longleftrightarrow> (\<forall>d. docs k = Some d \<longrightarrow> \<not> P d)"
  by (auto simp: matching_def split: option.splits)

lemma updated_cases:
  "updated docs x P f k = docs k \<or> (k = x \<and> (\<exists>d. docs k = Some d \<and> P d \<and> updated docs x P f k = Some (f d)))"
  by (cases "matching docs x P") (simp_all add: updated_def, auto simp: matching_Some)

lemma memory_collection_laws:
  assumes "lens get put frame"
  shows "collection_laws (memory_collection keyof get put) keyof get frame"
proof -
  have g: "get (put x w) = x" and f: "frame (put x w) = frame w" for x w
    using assms by (simp_all add: lens_def)
  show ?thesis
    unfolding collection_laws_def find_law_def insert_law_def update_law_def find_update_law_def replace_law_def
      memory_collection_def updated_def
    by (intro conjI allI impI; auto simp: g f matching_Some matching_None fun_upd_idem_iff split: option.splits if_splits)
qed

definition memory_transaction :: "('w, 'r) transaction" where
  "memory_transaction m w = (case m w of (Inl e, w') \<Rightarrow> (Inl e, w) | (Inr u, w') \<Rightarrow> (Inr u, w'))"

lemma memory_transaction_laws: "transaction_laws memory_transaction"
  by (auto simp: transaction_laws_def memory_transaction_def split: prod.splits sum.splits)

section \<open>The laws as rules\<close>

lemma FindOne_law:
  assumes "collection_laws c keyof docs frame" "c_FindOne c k w = (r, w')"
  shows "docs w' = docs w" "frame w' = frame w"
    and "r = Found d \<Longrightarrow> docs w k = Some d" "r = NoDocuments \<Longrightarrow> docs w k = None"
proof -
  have "find_law c docs frame" using assms(1) by (simp add: collection_laws_def)
  from this [unfolded find_law_def, THEN spec, THEN spec, THEN spec, THEN spec, THEN mp, OF assms(2)]
  show "docs w' = docs w" "frame w' = frame w"
    "r = Found d \<Longrightarrow> docs w k = Some d" "r = NoDocuments \<Longrightarrow> docs w k = None"
    by auto
qed

lemma InsertOne_law:
  assumes "collection_laws c keyof docs frame" "c_InsertOne c d w = (r, w')"
  shows "frame w' = frame w" "r = Inserted \<Longrightarrow> docs w (keyof d) = None \<and> docs w' = (docs w)(keyof d \<mapsto> d)"
    and "r = DuplicateKey \<Longrightarrow> docs w' = docs w" "r = InsertError m \<Longrightarrow> docs w' = docs w"
proof -
  have "insert_law c keyof docs frame" using assms(1) by (simp add: collection_laws_def)
  from this [unfolded insert_law_def, THEN spec, THEN spec, THEN spec, THEN spec, THEN mp, OF assms(2)]
  show "frame w' = frame w" "r = Inserted \<Longrightarrow> docs w (keyof d) = None \<and> docs w' = (docs w)(keyof d \<mapsto> d)"
    "r = DuplicateKey \<Longrightarrow> docs w' = docs w" "r = InsertError m \<Longrightarrow> docs w' = docs w"
    by auto
qed

lemma UpdateOne_law:
  assumes "collection_laws c keyof docs frame" "c_UpdateOne c k P f w = (r, w')"
  shows "frame w' = frame w" "r = Inl e \<Longrightarrow> docs w' = docs w"
    and "r = Inr n \<Longrightarrow> docs w' = updated (docs w) k P f" "r = Inr n \<Longrightarrow> (n = 0 \<longleftrightarrow> docs w' = docs w) \<and> n \<le> 1"
proof -
  have "update_law c docs frame" using assms(1) by (simp add: collection_laws_def)
  from this [unfolded update_law_def, THEN spec, THEN spec, THEN spec, THEN spec, THEN spec, THEN spec, THEN mp, OF assms(2)]
  show "frame w' = frame w" "r = Inl e \<Longrightarrow> docs w' = docs w"
    "r = Inr n \<Longrightarrow> docs w' = updated (docs w) k P f" "r = Inr n \<Longrightarrow> (n = 0 \<longleftrightarrow> docs w' = docs w) \<and> n \<le> 1"
    by auto
qed

lemma FindOneAndUpdate_law:
  assumes "collection_laws c keyof docs frame" "c_FindOneAndUpdate c k P f w = (r, w')"
  shows "frame w' = frame w" "r = FindError m \<Longrightarrow> docs w' = docs w"
    and "r = NoDocuments \<Longrightarrow> docs w' = docs w \<and> matching (docs w) k P = None"
    and "r = Found d \<Longrightarrow> \<exists>old. docs w k = Some old \<and> P old \<and> d = f old \<and> docs w' = (docs w)(k \<mapsto> d)"
proof -
  have "find_update_law c docs frame" using assms(1) by (simp add: collection_laws_def)
  from this [unfolded find_update_law_def, THEN spec, THEN spec, THEN spec, THEN spec, THEN spec, THEN spec, THEN mp, OF assms(2)]
  show "frame w' = frame w" "r = FindError m \<Longrightarrow> docs w' = docs w"
    "r = NoDocuments \<Longrightarrow> docs w' = docs w \<and> matching (docs w) k P = None"
    "r = Found d \<Longrightarrow> \<exists>old. docs w k = Some old \<and> P old \<and> d = f old \<and> docs w' = (docs w)(k \<mapsto> d)"
    by auto
qed

lemma ReplaceOne_law:
  assumes "collection_laws c keyof docs frame" "c_ReplaceOne c k d w = (r, w')"
  shows "frame w' = frame w" "r = None \<Longrightarrow> docs w' = (docs w)(k \<mapsto> d)" "r = Some e \<Longrightarrow> docs w' = docs w"
proof -
  have "replace_law c docs frame" using assms(1) by (simp add: collection_laws_def)
  from this [unfolded replace_law_def, THEN spec, THEN spec, THEN spec, THEN spec, THEN spec, THEN mp, OF assms(2)]
  show "frame w' = frame w" "r = None \<Longrightarrow> docs w' = (docs w)(k \<mapsto> d)" "r = Some e \<Longrightarrow> docs w' = docs w"
    by auto
qed

lemma transaction_fails: "transaction_laws tx \<Longrightarrow> m w = (Inl e, w1) \<Longrightarrow> tx m w = (Inl e, w)"
  by (simp add: transaction_laws_def)

lemma transaction_commits:
  "transaction_laws tx \<Longrightarrow> m w = (Inr r, w1) \<Longrightarrow>
     tx m w = (Inr r, w1) \<or> (\<exists>e. tx m w = (Inl (External e), w) \<or> tx m w = (Inl (External e), w1))"
  by (simp add: transaction_laws_def)

lemma run_cases:
  fixes m :: "('w, 'r) go"
  obtains (failed) e w1 where "m w = (Inl e, w1)" | (finished) r w1 where "m w = (Inr r, w1)"
proof (cases "m w")
  case (Pair r w1)
  then show ?thesis using that by (cases r) auto
qed

lemma transaction_Inr:
  assumes t: "transaction_laws tx" and x: "tx m w = (Inr r, w')"
  shows "m w = (Inr r, w')"
proof (cases m w rule: run_cases)
  case (failed e w1)
  with transaction_fails [OF t, of m w, OF failed] x show ?thesis by simp
next
  case (finished r' w1)
  with transaction_commits [OF t, of m w, OF finished] x show ?thesis by auto
qed

lemma bindG_ret [simp]: "bindG (ret a) f = f a"
  by (simp add: bindG_def ret_def)

lemma bindG_fail [simp]: "bindG (fail e) f = fail e"
  by (simp add: bindG_def fail_def)

lemma bindG_assoc: "bindG (bindG m f) g = bindG m (\<lambda>a. bindG (f a) g)"
  by (auto simp: bindG_def split: prod.splits sum.splits)

section \<open>Calls with their error text\<close>

text \<open>The calls as most of the code makes them: \<open>if err != nil { return fmt.Errorf(label: %w) }\<close>.\<close>

definition FindG :: "('w, 'k, 'd) collection \<Rightarrow> 'k \<Rightarrow> string \<Rightarrow> ('w, 'd option) go" where
  "FindG c k label = (\<lambda>w. case c_FindOne c k w of
       (NoDocuments, w') \<Rightarrow> (Inr None, w')
     | (FindError m, w') \<Rightarrow> (Inl (Wrap label (External m)), w')
     | (Found d, w') \<Rightarrow> (Inr (Some d), w'))"

definition InsertG :: "('w, 'k, 'd) collection \<Rightarrow> 'd \<Rightarrow> string \<Rightarrow> ('w, unit) go" where
  "InsertG c d label = (\<lambda>w. case c_InsertOne c d w of
       (Inserted, w') \<Rightarrow> (Inr (), w')
     | (DuplicateKey, w') \<Rightarrow> (Inl (Wrap label (External ''duplicate key'')), w')
     | (InsertError m, w') \<Rightarrow> (Inl (Wrap label (External m)), w'))"

definition UpdateG ::
  "('w, 'k, 'd) collection \<Rightarrow> 'k \<Rightarrow> ('d \<Rightarrow> bool) \<Rightarrow> ('d \<Rightarrow> 'd) \<Rightarrow> string \<Rightarrow> ('w, nat) go" where
  "UpdateG c k P f label = (\<lambda>w. case c_UpdateOne c k P f w of
       (Inl m, w') \<Rightarrow> (Inl (Wrap label (External m)), w')
     | (Inr n, w') \<Rightarrow> (Inr n, w'))"

definition ReplaceG :: "('w, 'k, 'd) collection \<Rightarrow> 'k \<Rightarrow> 'd \<Rightarrow> string \<Rightarrow> ('w, unit) go" where
  "ReplaceG c k d label = (\<lambda>w. case c_ReplaceOne c k d w of
       (None, w') \<Rightarrow> (Inr (), w')
     | (Some m, w') \<Rightarrow> (Inl (Wrap label (External m)), w'))"

section \<open>Refinement\<close>

text \<open>
  What a call does, seen through an abstraction \<open>view\<close> of the state: it does what its
  specification does, or it fails with an error of a library. A program over collections
  refines the same program over collections in memory, by rules that follow its structure
  (\<open>refine\<close>); a transaction of it has the effect of the whole specification, or none.
\<close>

definition library_error :: "goerr \<Rightarrow> bool" where
  "library_error e \<longleftrightarrow> (\<exists>m. e = External m \<or> (\<exists>l. e = Wrap l (External m)))"

lemma library_error_intros [simp]: "library_error (External m)" "library_error (Wrap l (External m))"
  by (simp_all add: library_error_def)

definition refines :: "('w \<Rightarrow> 'v) \<Rightarrow> ('w, 'a) go \<Rightarrow> ('v, 'a) go \<Rightarrow> bool" where
  "refines view m s \<longleftrightarrow> (\<forall>w r w'. m w = (r, w') \<longrightarrow> (\<exists>e. r = Inl e \<and> library_error e) \<or> (r, view w') = s (view w))"

named_theorems refine \<open>refinement, rule by rule\<close>

lemma refinesI:
  assumes "\<And>w r w'. m w = (r, w') \<Longrightarrow> (\<exists>e. r = Inl e \<and> library_error e) \<or> (r, view w') = s (view w)"
  shows "refines view m s"
  using assms by (simp add: refines_def)

lemma refines_ret [refine]: "refines view (ret a) (ret a)"
  by (simp add: refines_def ret_def)

lemma refines_fail [refine]: "refines view (fail e) (fail e)"
  by (simp add: refines_def fail_def)

lemma refines_bindG [refine]:
  assumes "refines view m s" "\<And>a. refines view (f a) (g a)"
  shows "refines view (bindG m f) (bindG s g)"
proof (rule refinesI)
  fix w r w' assume run: "bindG m f w = (r, w')"
  show "(\<exists>e. r = Inl e \<and> library_error e) \<or> (r, view w') = bindG s g (view w)"
  proof (cases m w rule: run_cases)
    case (failed e w1)
    with assms(1) have "library_error e \<or> (Inl e, view w1) = s (view w)" by (fastforce simp: refines_def)
    with run failed show ?thesis by (auto simp: bindG_def split: prod.split sum.split)
  next
    case (finished a w1)
    with assms(1) have "(Inr a, view w1) = s (view w)" by (fastforce simp: refines_def)
    moreover from run finished have "f a w1 = (r, w')" by (simp add: bindG_def)
    with assms(2) have "(\<exists>e. r = Inl e \<and> library_error e) \<or> (r, view w') = g a (view w1)"
      by (simp add: refines_def)
    ultimately show ?thesis by (auto simp: bindG_def split: prod.split sum.split)
  qed
qed

lemma refines_if [refine]:
  "(b \<Longrightarrow> refines view m s) \<Longrightarrow> (\<not> b \<Longrightarrow> refines view m' s') \<Longrightarrow> refines view (if b then m else m') (if b then s else s')"
  by simp

lemma refines_option [refine]:
  "(x = None \<Longrightarrow> refines view m s) \<Longrightarrow> (\<And>a. x = Some a \<Longrightarrow> refines view (f a) (g a)) \<Longrightarrow>
     refines view (case x of None \<Rightarrow> m | Some a \<Rightarrow> f a) (case x of None \<Rightarrow> s | Some a \<Rightarrow> g a)"
  by (cases x) simp_all

lemma refines_checkG [refine]: "refines view (checkG v) (checkG v)"
  by (cases v) (simp_all add: checkG_def refines_ret refines_fail)

text \<open>A component of the abstract state.\<close>

definition part :: "('v \<Rightarrow> 'x) \<Rightarrow> ('x \<Rightarrow> 'v \<Rightarrow> 'v) \<Rightarrow> bool" where
  "part get put \<longleftrightarrow> (\<forall>x y v. get (put x v) = x \<and> put (get v) v = v \<and> put y (put x v) = put y v)"

definition realises ::
  "('w, 'k, 'd) collection \<Rightarrow> ('d \<Rightarrow> 'k) \<Rightarrow> ('v \<Rightarrow> 'k \<rightharpoonup> 'd) \<Rightarrow> (('k \<rightharpoonup> 'd) \<Rightarrow> 'v \<Rightarrow> 'v) \<Rightarrow> ('w \<Rightarrow> 'v) \<Rightarrow> bool" where
  "realises c keyof get put view \<longleftrightarrow>
     part get put \<and> collection_laws c keyof (\<lambda>w. get (view w)) (\<lambda>w. put Map.empty (view w))"

lemma realises_view:
  assumes "realises c keyof get put view" "put Map.empty (view w') = put Map.empty (view w)"
  shows "view w' = put (get (view w')) (view w)"
proof -
  have p: "part get put" using assms(1) by (simp add: realises_def)
  then have "view w' = put (get (view w')) (put Map.empty (view w'))" by (simp add: part_def)
  also have "\<dots> = put (get (view w')) (view w)" using p assms(2) by (simp add: part_def)
  finally show ?thesis .
qed

lemma realises_memory: "part get put \<Longrightarrow> realises (memory_collection keyof get put) keyof get put (\<lambda>w. w)"
  by (simp add: realises_def memory_collection_laws lens_def part_def)

lemma refines_FindG [refine]:
  assumes r: "realises c keyof get put view"
  shows "refines view (FindG c k l) (FindG (memory_collection keyof get put) k l)"
proof (rule refinesI)
  fix w r w' assume run: "FindG c k l w = (r, w')"
  obtain s w1 where i: "c_FindOne c k w = (s, w1)" by force
  note law = FindOne_law [OF r [unfolded realises_def, THEN conjunct2] i]
  from realises_view [OF r law(2)] law(1) r have "view w1 = view w" by (simp add: realises_def part_def)
  with run i law(3,4) show "(\<exists>e. r = Inl e \<and> library_error e) \<or> (r, view w') = FindG (memory_collection keyof get put) k l (view w)"
    by (cases s) (auto simp: FindG_def memory_collection_def)
qed

lemma refines_InsertG [refine]:
  assumes r: "realises c keyof get put view"
  shows "refines view (InsertG c d l) (InsertG (memory_collection keyof get put) d l)"
proof (rule refinesI)
  fix w r w' assume run: "InsertG c d l w = (r, w')"
  obtain s w1 where i: "c_InsertOne c d w = (s, w1)" by force
  note law = InsertOne_law [OF r [unfolded realises_def, THEN conjunct2] i]
  from realises_view [OF r law(1)] have "view w1 = put (get (view w1)) (view w)" .
  with run i law(2,3) show "(\<exists>e. r = Inl e \<and> library_error e) \<or> (r, view w') = InsertG (memory_collection keyof get put) d l (view w)"
    by (cases s) (auto simp: InsertG_def memory_collection_def)
qed

lemma refines_UpdateG [refine]:
  assumes r: "realises c keyof get put view"
  shows "refines view (UpdateG c k P f l) (UpdateG (memory_collection keyof get put) k P f l)"
proof (rule refinesI)
  fix w r w' assume run: "UpdateG c k P f l w = (r, w')"
  obtain s w1 where i: "c_UpdateOne c k P f w = (s, w1)" by force
  note law = UpdateOne_law [OF r [unfolded realises_def, THEN conjunct2] i]
  show "(\<exists>e. r = Inl e \<and> library_error e) \<or> (r, view w') = UpdateG (memory_collection keyof get put) k P f l (view w)"
  proof (cases s)
    case (Inl m)
    with run i show ?thesis by (auto simp: UpdateG_def)
  next
    case (Inr n)
    note d = law(3,4) [OF Inr]
    have n: "n = (if get (view w1) = get (view w) then 0 else 1)" using d(2) by auto
    have a: "view w1 = put (updated (get (view w)) k P f) (view w)" using realises_view [OF r law(1)] d(1) by simp
    have "put (get (view w)) (view w) = view w" using r by (simp add: realises_def part_def)
    with a n d(1) run i Inr show ?thesis
    proof (cases "matching (get (view w)) k P")
      case (Some x)
      then have "get (view w) k = Some x" by (simp add: matching_Some)
      with Some a n d(1) run i Inr show ?thesis
        by (auto simp: UpdateG_def memory_collection_def updated_def fun_upd_idem_iff)
    qed (auto simp: UpdateG_def memory_collection_def updated_def)
  qed
qed

lemma refines_ReplaceG [refine]:
  assumes r: "realises c keyof get put view"
  shows "refines view (ReplaceG c k d l) (ReplaceG (memory_collection keyof get put) k d l)"
proof (rule refinesI)
  fix w r w' assume run: "ReplaceG c k d l w = (r, w')"
  obtain s w1 where i: "c_ReplaceOne c k d w = (s, w1)" by force
  note law = ReplaceOne_law [OF r [unfolded realises_def, THEN conjunct2] i]
  from realises_view [OF r law(1)] have "view w1 = put (get (view w1)) (view w)" .
  with run i law(2) show "(\<exists>e. r = Inl e \<and> library_error e) \<or> (r, view w') = ReplaceG (memory_collection keyof get put) k d l (view w)"
    by (cases s) (auto simp: ReplaceG_def memory_collection_def)
qed

text \<open>The calls on a collection in memory.\<close>

definition modified_count :: "('k \<rightharpoonup> 'd) \<Rightarrow> 'k \<Rightarrow> ('d \<Rightarrow> bool) \<Rightarrow> ('d \<Rightarrow> 'd) \<Rightarrow> nat" where
  "modified_count docs k P f = (case matching docs k P of None \<Rightarrow> 0 | Some d \<Rightarrow> if f d = d then 0 else 1)"

named_theorems memory_calls \<open>calls on collections in memory\<close>

lemma memory_FindG [memory_calls]: "FindG (memory_collection keyof get put) k l v = (Inr (get v k), v)"
  by (simp add: FindG_def memory_collection_def split: option.split)

lemma memory_UpdateG [memory_calls]:
  "part get put \<Longrightarrow> UpdateG (memory_collection keyof get put) k P f l v
     = (Inr (modified_count (get v) k P f), put (updated (get v) k P f) v)"
  by (cases "matching (get v) k P") (simp_all add: UpdateG_def memory_collection_def updated_def modified_count_def part_def)

lemma memory_ReplaceG [memory_calls]:
  "ReplaceG (memory_collection keyof get put) k d l v = (Inr (), put ((get v)(k \<mapsto> d)) v)"
  by (simp add: ReplaceG_def memory_collection_def)

lemma memory_InsertG [memory_calls]:
  "InsertG (memory_collection keyof get put) d l v
     = (if get v (keyof d) \<noteq> None then (Inl (Wrap l (External ''duplicate key'')), v)
        else (Inr (), put ((get v)(keyof d \<mapsto> d)) v))"
  by (simp add: InsertG_def memory_collection_def)

text \<open>A transaction: all of the specification's effect, or none, and an error only with none or from the driver.\<close>

lemma refines_transaction:
  assumes t: "transaction_laws tx" and m: "refines view m s" and x: "tx m w = (r, w')"
  shows "(r, view w') = memory_transaction s (view w)
    \<or> (\<exists>e. r = Inl e \<and> library_error e \<and> (view w' = view w \<or> view w' = snd (memory_transaction s (view w))))"
proof (cases m w rule: run_cases)
  case (failed e w1)
  with transaction_fails [OF t, of m w, OF failed] x have "r = Inl e" "w' = w" by auto
  moreover from m failed have "library_error e \<or> (Inl e, view w1) = s (view w)" by (fastforce simp: refines_def)
  ultimately show ?thesis by (auto simp: memory_transaction_def split: prod.split sum.split)
next
  case (finished a w1)
  with m have s: "(Inr a, view w1) = s (view w)" by (fastforce simp: refines_def)
  then have "memory_transaction s (view w) = (Inr a, view w1)"
    by (simp add: memory_transaction_def flip: s)
  with transaction_commits [OF t, of m w, OF finished] x show ?thesis by auto
qed

end
