(* ===== verification/RecordModel.thy ===== *)
theory RecordModel
  imports Identity
begin

text \<open>
  \<open>records/model.go\<close>: workspaces, tables, records and projection read pointers, with their
  validation. The content of a record is a BSON document; whether bytes are one is the BSON
  library's answer, the argument \<open>bson_document\<close>. A nil pointer to a part is \<open>None\<close>. The error
  texts are the code's anonymous errors.
\<close>

section \<open>Data\<close>

datatype TableKind = TableKindCustom | TableKindProjection | OtherTableKind string

record Workspace =
  wk_ID :: string
  wk_TenantID :: string
  wk_Name :: string
  wk_Version :: int
  wk_CreatedBy :: IdentityKey
  wk_CreatedAt :: time
  wk_UpdatedAt :: time

record SourcePolicy =
  sp_System :: string
  sp_Type :: string
  sp_AllowFields :: "string list"

record TableDefinition =
  tb_ID :: string
  tb_TenantID :: string
  tb_WorkspaceID :: string
  tb_Name :: string
  tb_Kind :: TableKind
  tb_SchemaID :: string
  tb_SchemaVersion :: int
  tb_SourcePolicy :: "SourcePolicy option"
  tb_Version :: int
  tb_CreatedBy :: IdentityKey
  tb_UpdatedBy :: IdentityKey
  tb_CreatedAt :: time
  tb_UpdatedAt :: time

record RecordSource =
  rs_System :: string
  rs_Type :: string
  rs_ID :: string
  rs_Version :: int

record RelationTarget =
  rt_System :: string
  rt_Type :: string
  rt_ID :: string

datatype RelationStatus = RelationUnset | RelationCurrent | RelationBroken | RelationForbidden | OtherRelationStatus string

record RecordRelation =
  rl_Target :: RelationTarget
  rl_RelationType :: string
  rl_ResolvedRecordID :: string
  rl_Status :: RelationStatus

record ProjectionState =
  ps_LastEventID :: string
  ps_SyncedAt :: time
  ps_Status :: string

datatype ReadPointerStatus = ProjectionReadPointerActive | ProjectionReadPointerRetired | OtherReadPointerStatus string

record ProjectionReadPointer =
  rp_TenantID :: string
  rp_WorkspaceID :: string
  rp_TableID :: string
  rp_GenerationID :: string
  rp_CollectionName :: string
  rp_OperationID :: string
  rp_Revision :: int
  rp_Status :: ReadPointerStatus
  rp_CreatedAt :: time
  rp_ActivatedAt :: time

record Record =
  rec_ID :: string
  rec_TenantID :: string
  rec_WorkspaceID :: string
  rec_TableID :: string
  rec_SchemaID :: string
  rec_SchemaVersion :: int
  rec_Source :: "RecordSource option"
  rec_RecordVersion :: int
  rec_Tags :: "string list"
  rec_Data :: string
  rec_Relations :: "RecordRelation list"
  rec_Projection :: "ProjectionState option"
  rec_CreatedBy :: IdentityKey
  rec_UpdatedBy :: IdentityKey
  rec_CreatedAt :: time
  rec_UpdatedAt :: time

section \<open>Validation\<close>

definition unset_identity :: "IdentityKey \<Rightarrow> bool" where
  "unset_identity key = (ik_Issuer key = [] \<or> ik_Subject key = [])"

definition RecordRelation_Validate :: "RecordRelation \<Rightarrow> goerr option" where
  "RecordRelation_Validate relation =
     (if blank (rt_System (rl_Target relation)) \<or> blank (rt_Type (rl_Target relation))
         \<or> blank (rt_ID (rl_Target relation)) \<or> blank (rl_RelationType relation)
      then Some (Anon ''record relation requires target and relation type'')
      else (case rl_Status relation of
          RelationUnset \<Rightarrow> None
        | RelationCurrent \<Rightarrow> None
        | RelationBroken \<Rightarrow> None
        | RelationForbidden \<Rightarrow>
            if rl_ResolvedRecordID relation \<noteq> []
            then Some (Anon ''forbidden relation cannot expose a resolved record'') else None
        | OtherRelationStatus _ \<Rightarrow> Some (Anon ''record relation status must be CURRENT, BROKEN, or FORBIDDEN'')))"

fun validate_relations :: "RecordRelation list \<Rightarrow> goerr option" where
  "validate_relations [] = None"
| "validate_relations (relation # relations) =
     (case RecordRelation_Validate relation of Some err \<Rightarrow> Some err | None \<Rightarrow> validate_relations relations)"

definition source_incomplete :: "RecordSource \<Rightarrow> bool" where
  "source_incomplete s = (blank (rs_System s) \<or> blank (rs_Type s) \<or> blank (rs_ID s) \<or> rs_Version s < 1)"

definition Record_Validate :: "(string \<Rightarrow> bool) \<Rightarrow> Record \<Rightarrow> goerr option" where
  "Record_Validate bson_document r =
     (if list_ex blank [rec_ID r, rec_TenantID r, rec_WorkspaceID r, rec_TableID r, rec_SchemaID r]
      then Some (Anon ''record id, tenant, workspace, table, and schema are required'')
      else if rec_SchemaVersion r < 1 \<or> rec_RecordVersion r < 1
      then Some (Anon ''schema version and record version must be positive'')
      else if rec_Data r = [] \<or> \<not> bson_document (rec_Data r)
      then Some (Anon ''record data must be an object'')
      else if unset_identity (rec_CreatedBy r) \<or> unset_identity (rec_UpdatedBy r)
         \<or> IsZero (rec_CreatedAt r) \<or> IsZero (rec_UpdatedAt r)
      then Some (Anon ''record identities and timestamps are required'')
      else if (case rec_Source r of None \<Rightarrow> False | Some s \<Rightarrow> source_incomplete s)
      then Some (Anon ''record source requires system, type, id, and positive version'')
      else validate_relations (rec_Relations r))"

definition Workspace_Validate :: "Workspace \<Rightarrow> goerr option" where
  "Workspace_Validate workspace =
     (if list_ex blank [wk_ID workspace, wk_TenantID workspace, wk_Name workspace]
      then Some (Anon ''workspace id, tenant, and name are required'')
      else if wk_Version workspace < 1 then Some (Anon ''workspace version must be positive'')
      else if unset_identity (wk_CreatedBy workspace) \<or> IsZero (wk_CreatedAt workspace) \<or> IsZero (wk_UpdatedAt workspace)
      then Some (Anon ''workspace creator and timestamps are required'')
      else None)"

text \<open>The source policy of a projection table, and of one that is not.\<close>

definition check_source_policy :: "TableKind \<Rightarrow> SourcePolicy option \<Rightarrow> goerr option" where
  "check_source_policy kind policy =
     (if kind = TableKindProjection then
        (case policy of
           None \<Rightarrow> Some (Anon ''projection table requires a source policy with system and type'')
         | Some p \<Rightarrow>
             if blank (sp_System p) \<or> blank (sp_Type p)
             then Some (Anon ''projection table requires a source policy with system and type'')
             else if list_ex blank (sp_AllowFields p)
             then Some (Anon ''projection source policy fields cannot be empty'')
             else None)
      else (case policy of
          None \<Rightarrow> None
        | Some _ \<Rightarrow> Some (Anon ''custom table cannot define a source policy'')))"

definition TableDefinition_Validate :: "TableDefinition \<Rightarrow> goerr option" where
  "TableDefinition_Validate table =
     (if list_ex blank [tb_ID table, tb_TenantID table, tb_WorkspaceID table, tb_Name table]
      then Some (Anon ''table id, tenant, workspace, and name are required'')
      else if tb_Kind table \<noteq> TableKindCustom \<and> tb_Kind table \<noteq> TableKindProjection
      then Some (Anon ''table kind must be CUSTOM or PROJECTION'')
      else if blank (tb_SchemaID table) \<or> tb_SchemaVersion table < 1
      then Some (Anon ''table schema and positive schema version are required'')
      else (case check_source_policy (tb_Kind table) (tb_SourcePolicy table) of
          Some err \<Rightarrow> Some err
        | None \<Rightarrow>
            if tb_Version table < 1 then Some (Anon ''table version must be positive'')
            else if unset_identity (tb_CreatedBy table) \<or> unset_identity (tb_UpdatedBy table)
               \<or> IsZero (tb_CreatedAt table) \<or> IsZero (tb_UpdatedAt table)
            then Some (Anon ''table identities and timestamps are required'')
            else None))"

section \<open>Lemmas\<close>

lemma validate_relations_None:
  "validate_relations rs = None \<longleftrightarrow> (\<forall>r \<in> set rs. RecordRelation_Validate r = None)"
  by (induction rs) (auto split: option.splits)

lemma Record_Validate_None:
  "Record_Validate bson r = None \<longleftrightarrow>
     \<not> list_ex blank [rec_ID r, rec_TenantID r, rec_WorkspaceID r, rec_TableID r, rec_SchemaID r]
     \<and> 1 \<le> rec_SchemaVersion r \<and> 1 \<le> rec_RecordVersion r \<and> rec_Data r \<noteq> [] \<and> bson (rec_Data r)
     \<and> \<not> unset_identity (rec_CreatedBy r) \<and> \<not> unset_identity (rec_UpdatedBy r)
     \<and> \<not> IsZero (rec_CreatedAt r) \<and> \<not> IsZero (rec_UpdatedAt r)
     \<and> (\<forall>s. rec_Source r = Some s \<longrightarrow> \<not> source_incomplete s)
     \<and> (\<forall>x \<in> set (rec_Relations r). RecordRelation_Validate x = None)"
  unfolding Record_Validate_def
  by (cases "rec_Source r") (simp_all only: if_error_None option.case validate_relations_None not_less de_Morgan_disj, auto)

lemma TableDefinition_Validate_None:
  "TableDefinition_Validate t = None \<Longrightarrow>
     (tb_Kind t = TableKindProjection \<longleftrightarrow> tb_SourcePolicy t \<noteq> None)
     \<and> tb_Kind t \<in> {TableKindCustom, TableKindProjection} \<and> 1 \<le> tb_SchemaVersion t \<and> 1 \<le> tb_Version t
     \<and> \<not> blank (tb_TenantID t) \<and> \<not> blank (tb_WorkspaceID t)"
  unfolding TableDefinition_Validate_def check_source_policy_def
  by (auto split: if_splits option.splits)

end
