(* ===== verification/ProjectionInbox.thy ===== *)
theory ProjectionInbox
  imports Mongo Sha256
begin

text \<open>
  \<open>projection/inbox.go\<close>: the durable inbox of the projectors. The collection \<open>inbox_events\<close> has
  a unique index on the consumer and the event, so it is a \<open>collection\<close> keyed by the pair. The
  lemmas give each call as one step of an inbox entry's life cycle: an entry is created
  \<open>PROCESSING\<close>, becomes \<open>APPLIED\<close> or \<open>REJECTED\<close> once, and nothing else of it ever changes.
\<close>

section \<open>Events and claims\<close>

datatype ProjectionInboxStatus = InboxProcessing | InboxApplied | InboxRejected | InboxFailed | OtherInboxState string

record InboxEvent =
  pe_EventID :: string
  pe_Consumer :: string
  pe_Subject :: string
  pe_TenantID :: string
  pe_WorkspaceID :: string
  pe_PayloadHash :: string
  pe_Status :: ProjectionInboxStatus
  pe_ReceivedAt :: time
  pe_AppliedAt :: "time option"
  pe_SafeError :: string

record InboxClaim =
  pc_EventID :: string
  pc_Consumer :: string
  pc_Subject :: string
  pc_TenantID :: string
  pc_WorkspaceID :: string
  pc_Payload :: string
  pc_ReceivedAt :: time

definition MaxEnvelopeBytes :: nat where
  "MaxEnvelopeBytes = 256 * 1024"

definition InboxEvent_Validate :: "InboxEvent \<Rightarrow> goerr option" where
  "InboxEvent_Validate event =
     (if list_ex blank [pe_EventID event, pe_Consumer event, pe_Subject event, pe_PayloadHash event]
      then Some (Anon ''inbox event id, consumer, subject, and payload hash are required'')
      else if (pe_TenantID event = []) \<noteq> (pe_WorkspaceID event = [])
      then Some (Anon ''inbox tenantId and workspaceId must be provided together'')
      else if length (pe_TenantID event) > 128 \<or> length (pe_WorkspaceID event) > 128
         \<or> ContainsAny (pe_TenantID event @ pe_WorkspaceID event) [CHR '' '', CHR 0x09, CHR 0x0D, CHR 0x0A]
      then Some (Anon ''inbox scope identifiers are invalid'')
      else if pe_Status event \<noteq> InboxProcessing \<and> pe_Status event \<noteq> InboxApplied
         \<and> pe_Status event \<noteq> InboxRejected \<and> pe_Status event \<noteq> InboxFailed
      then Some (Anon ''inbox event status is invalid'')
      else if IsZero (pe_ReceivedAt event) then Some (Anon ''inbox event receivedAt is required'')
      else if pe_SafeError event \<noteq> [] \<and> length (pe_SafeError event) > 512
      then Some (Anon ''inbox event safeError cannot exceed 512 characters'')
      else None)"

definition claimed_event :: "InboxClaim \<Rightarrow> InboxEvent" where
  "claimed_event claim =
     \<lparr>pe_EventID = TrimSpace (pc_EventID claim), pe_Consumer = TrimSpace (pc_Consumer claim),
      pe_Subject = TrimSpace (pc_Subject claim), pe_TenantID = TrimSpace (pc_TenantID claim),
      pe_WorkspaceID = TrimSpace (pc_WorkspaceID claim), pe_PayloadHash = sha256_ref (pc_Payload claim),
      pe_Status = InboxProcessing, pe_ReceivedAt = pc_ReceivedAt claim, pe_AppliedAt = None, pe_SafeError = []\<rparr>"

definition normalizeInboxClaim :: "InboxClaim \<Rightarrow> goerr + InboxEvent" where
  "normalizeInboxClaim claim =
     (let eventID = TrimSpace (pc_EventID claim); consumer = TrimSpace (pc_Consumer claim);
          subject = TrimSpace (pc_Subject claim); tenantID = TrimSpace (pc_TenantID claim);
          workspaceID = TrimSpace (pc_WorkspaceID claim)
      in if eventID = [] \<or> consumer = [] \<or> subject = []
            \<or> length eventID > 256 \<or> length consumer > 256 \<or> length subject > 256
         then Inl (Anon ''inbox event id, consumer, and subject are required and bounded'')
         else if (tenantID = []) \<noteq> (workspaceID = []) \<or> length tenantID > 128 \<or> length workspaceID > 128
         then Inl (Anon ''inbox tenantId and workspaceId must be provided together and bounded'')
         else if ContainsAny (eventID @ consumer @ subject) [CHR 0x0A, CHR 0x0D, CHR 0x09, CHR '' '']
         then Inl (Anon ''inbox event identifiers cannot contain whitespace'')
         else if pc_Payload claim = [] \<or> length (pc_Payload claim) > MaxEnvelopeBytes
         then Inl (Anon ''inbox event payload must be between 1 byte and 256 KiB'')
         else if IsZero (pc_ReceivedAt claim) then Inl (Anon ''inbox event receivedAt is required'')
         else (case InboxEvent_Validate (claimed_event claim) of
             Some err \<Rightarrow> Inl err
           | None \<Rightarrow> Inr (claimed_event claim)))"

section \<open>The repository\<close>

type_synonym inbox_key = "string \<times> string"

definition event_key :: "InboxEvent \<Rightarrow> inbox_key" where
  "event_key event = (pe_EventID event, pe_Consumer event)"

type_synonym 'w inbox_events = "('w, inbox_key, InboxEvent) collection"

definition inbox_Get :: "'w inbox_events \<Rightarrow> string \<Rightarrow> string \<Rightarrow> ('w, InboxEvent) go" where
  "inbox_Get c eventID consumer = (\<lambda>w. case c_FindOne c (eventID, consumer) w of
       (NoDocuments, w') \<Rightarrow> (Inl (ProjectionErr ErrInboxNotFound), w')
     | (FindError m, w') \<Rightarrow> (Inl (Wrap ''find inbox event'' (External m)), w')
     | (Found event, w') \<Rightarrow> (Inr event, w'))"

text \<open>\<open>Claim\<close> returns the entry and whether it was there before.\<close>

definition inbox_Claim :: "'w inbox_events \<Rightarrow> InboxClaim \<Rightarrow> ('w, InboxEvent \<times> bool) go" where
  "inbox_Claim c claim =
     bindG (pureG (normalizeInboxClaim claim)) (\<lambda>event w.
       case c_InsertOne c event w of
         (Inserted, w') \<Rightarrow> (Inr (event, False), w')
       | (InsertError m, w') \<Rightarrow> (Inl (Wrap ''insert inbox event'' (External m)), w')
       | (DuplicateKey, w') \<Rightarrow>
           bindG (inbox_Get c (pe_EventID event) (pe_Consumer event)) (\<lambda>existing.
             if pe_PayloadHash existing \<noteq> pe_PayloadHash event
             then fail (ProjectionErr ErrInboxPayloadConflict)
             else ret (existing, True)) w')"

definition checkInboxState ::
  "'w inbox_events \<Rightarrow> string \<Rightarrow> string \<Rightarrow> ProjectionInboxStatus \<Rightarrow> ('w, unit) go" where
  "checkInboxState c eventID consumer want =
     bindG (inbox_Get c eventID consumer) (\<lambda>event.
       if pe_Status event = want then ret () else fail (ProjectionErr ErrInboxStateConflict))"

definition is_processing :: "InboxEvent \<Rightarrow> bool" where
  "is_processing event = (pe_Status event = InboxProcessing)"

definition set_applied :: "time \<Rightarrow> InboxEvent \<Rightarrow> InboxEvent" where
  "set_applied appliedAt event = event\<lparr>pe_Status := InboxApplied, pe_AppliedAt := Some appliedAt\<rparr>"

definition set_rejected :: "string \<Rightarrow> time \<Rightarrow> InboxEvent \<Rightarrow> InboxEvent" where
  "set_rejected safeError rejectedAt event =
     event\<lparr>pe_Status := InboxRejected, pe_SafeError := safeError, pe_AppliedAt := Some rejectedAt\<rparr>"

definition MarkApplied :: "'w inbox_events \<Rightarrow> string \<Rightarrow> string \<Rightarrow> time \<Rightarrow> ('w, unit) go" where
  "MarkApplied c eventID consumer appliedAt =
     (if IsZero appliedAt then fail (Anon ''inbox appliedAt is required'')
      else (\<lambda>w. case c_UpdateOne c (eventID, consumer) is_processing (set_applied appliedAt) w of
          (Inl m, w') \<Rightarrow> (Inl (Wrap ''mark inbox event applied'' (External m)), w')
        | (Inr modified, w') \<Rightarrow>
            if modified = 1 then (Inr (), w') else checkInboxState c eventID consumer InboxApplied w'))"

definition MarkRejected :: "'w inbox_events \<Rightarrow> string \<Rightarrow> string \<Rightarrow> string \<Rightarrow> time \<Rightarrow> ('w, unit) go" where
  "MarkRejected c eventID consumer safeError0 rejectedAt =
     (let safeError = TrimSpace safeError0
      in if safeError = [] \<or> length safeError > 512
         then fail (Anon ''safe inbox error must be between 1 and 512 characters'')
         else if IsZero rejectedAt then fail (Anon ''inbox rejectedAt is required'')
         else (\<lambda>w. case c_UpdateOne c (eventID, consumer) is_processing (set_rejected safeError rejectedAt) w of
             (Inl m, w') \<Rightarrow> (Inl (Wrap ''mark inbox event rejected'' (External m)), w')
           | (Inr modified, w') \<Rightarrow>
               if modified = 1 then (Inr (), w') else checkInboxState c eventID consumer InboxRejected w'))"

section \<open>Lemmas\<close>

lemma normalizeInboxClaim_Inr:
  assumes "normalizeInboxClaim claim = Inr event"
  shows "event = claimed_event claim" "InboxEvent_Validate event = None"
  using assms by (auto simp: normalizeInboxClaim_def Let_def split: if_splits option.splits)

text \<open>One entry from a call to the next.\<close>

definition inbox_progress :: "InboxEvent option \<Rightarrow> InboxEvent option \<Rightarrow> bool" where
  "inbox_progress old new \<longleftrightarrow>
     new = old
     \<or> (\<exists>claim. old = None \<and> new = Some (claimed_event claim) \<and> InboxEvent_Validate (claimed_event claim) = None)
     \<or> (\<exists>e at. old = Some e \<and> is_processing e \<and> at \<noteq> 0
          \<and> (new = Some (set_applied at e)
             \<or> (\<exists>m. m \<noteq> [] \<and> length m \<le> 512 \<and> new = Some (set_rejected m at e))))"

lemma inbox_progress_refl [intro, simp]: "inbox_progress x x"
  by (simp add: inbox_progress_def)

lemma inbox_progress_applied [intro]:
  "at \<noteq> 0 \<Longrightarrow> inbox_progress (docs k) (updated docs x is_processing (set_applied at) k)"
  unfolding inbox_progress_def using updated_cases [of docs x is_processing _ k] by blast

lemma inbox_progress_rejected [intro]:
  "at \<noteq> 0 \<Longrightarrow> m \<noteq> [] \<Longrightarrow> length m \<le> 512
    \<Longrightarrow> inbox_progress (docs k) (updated docs x is_processing (set_rejected m at) k)"
  unfolding inbox_progress_def using updated_cases [of docs x is_processing _ k] by blast

lemma inbox_Get_docs:
  assumes "collection_laws c event_key docs frame" "inbox_Get c eventID consumer w = (r, w')"
  shows "docs w' = docs w" "frame w' = frame w" "r = Inr e \<Longrightarrow> docs w (eventID, consumer) = Some e"
  using assms(2) FindOne_law [OF assms(1), of "(eventID, consumer)" w]
  by (auto simp: inbox_Get_def split: prod.splits find_result.splits)

lemma checkInboxState_docs:
  assumes "collection_laws c event_key docs frame" "checkInboxState c eventID consumer want w = (r, w')"
  shows "docs w' = docs w" "frame w' = frame w"
    and "r = Inr u \<Longrightarrow> \<exists>e. docs w (eventID, consumer) = Some e \<and> pe_Status e = want"
  using assms(2) inbox_Get_docs [OF assms(1), of eventID consumer w]
  by (auto simp: checkInboxState_def go_simps split: prod.splits sum.splits if_splits)

lemma inbox_Claim_docs:
  assumes c: "collection_laws c event_key docs frame" and run: "inbox_Claim c claim w = (r, w')"
  shows "frame w' = frame w"
    and "docs w' = docs w \<and> r \<noteq> Inr (e, False)
      \<or> InboxEvent_Validate (claimed_event claim) = None \<and> r = Inr (claimed_event claim, False)
        \<and> docs w (event_key (claimed_event claim)) = None
        \<and> docs w' = (docs w)(event_key (claimed_event claim) \<mapsto> claimed_event claim)"
    and "r = Inr (e, True) \<Longrightarrow> docs w (event_key (claimed_event claim)) = Some e
      \<and> pe_PayloadHash e = pe_PayloadHash (claimed_event claim)"
proof -
  have *: "frame w' = frame w \<and> (docs w' = docs w \<and> r \<noteq> Inr (e, False)
      \<or> InboxEvent_Validate (claimed_event claim) = None \<and> r = Inr (claimed_event claim, False)
        \<and> docs w (event_key (claimed_event claim)) = None
        \<and> docs w' = (docs w)(event_key (claimed_event claim) \<mapsto> claimed_event claim))
      \<and> (r = Inr (e, True) \<longrightarrow> docs w (event_key (claimed_event claim)) = Some e
        \<and> pe_PayloadHash e = pe_PayloadHash (claimed_event claim))"
  proof (cases "normalizeInboxClaim claim")
    case (Inl err)
    with run show ?thesis by (auto simp: inbox_Claim_def go_simps)
  next
    case (Inr event)
    note ev = normalizeInboxClaim_Inr [OF Inr]
    obtain s w1 where i: "c_InsertOne c event w = (s, w1)" by force
    note law = InsertOne_law [OF c i]
    show ?thesis
    proof (cases s)
      case Inserted
      with run Inr i law(1,2) ev show ?thesis by (auto simp: inbox_Claim_def go_simps)
    next
      case DuplicateKey
      with run Inr i law(1,3) ev inbox_Get_docs [OF c, of "pe_EventID event" "pe_Consumer event" w1]
      show ?thesis by (auto simp: inbox_Claim_def go_simps event_key_def split: prod.splits sum.splits if_splits)
    next
      case (InsertError m)
      with run Inr i law(1,4) ev show ?thesis by (auto simp: inbox_Claim_def go_simps)
    qed
  qed
  from * show "frame w' = frame w" by blast
  from * show "docs w' = docs w \<and> r \<noteq> Inr (e, False)
      \<or> InboxEvent_Validate (claimed_event claim) = None \<and> r = Inr (claimed_event claim, False)
        \<and> docs w (event_key (claimed_event claim)) = None
        \<and> docs w' = (docs w)(event_key (claimed_event claim) \<mapsto> claimed_event claim)" by blast
  from * show "r = Inr (e, True) \<Longrightarrow> docs w (event_key (claimed_event claim)) = Some e
      \<and> pe_PayloadHash e = pe_PayloadHash (claimed_event claim)" by blast
qed

text \<open>The two marks are one update of a processing entry, then a look at the state.\<close>

lemma mark_docs:
  assumes c: "collection_laws c event_key docs frame"
    and run: "(case c_UpdateOne c (i, s) is_processing f w of
          (Inl m, w') \<Rightarrow> (Inl (Wrap t (External m)), w')
        | (Inr modified, w') \<Rightarrow> if modified = 1 then (Inr (), w') else checkInboxState c i s want w') = (r, w')"
    and f: "\<And>e. pe_Status (f e) = want"
  shows "frame w' = frame w" "docs w' = docs w \<or> docs w' = updated (docs w) (i, s) is_processing f"
    and "r = Inr () \<Longrightarrow> \<exists>e. docs w' (i, s) = Some e \<and> pe_Status e = want"
proof -
  obtain u w1 where i: "c_UpdateOne c (i, s) is_processing f w = (u, w1)" by force
  note law = UpdateOne_law [OF c i]
  have "frame w' = frame w \<and> (docs w' = docs w \<or> docs w' = updated (docs w) (i, s) is_processing f)
    \<and> (r = Inr () \<longrightarrow> (\<exists>e. docs w' (i, s) = Some e \<and> pe_Status e = want))"
  proof (cases u)
    case (Inl m)
    with run i law(1,2) show ?thesis by auto
  next
    case (Inr n)
    note d = law(3,4) [OF Inr]
    show ?thesis
    proof (cases "n = 1")
      case True
      with run i Inr have r: "w' = w1" by simp
      from d True have "docs w1 \<noteq> docs w" by simp
      with d(1) obtain e where "docs w (i, s) = Some e" "docs w1 (i, s) = Some (f e)"
        by (auto simp: updated_def matching_def split: option.splits if_splits)
      with f r d(1) law(1) show ?thesis by auto
    next
      case False
      with run i Inr have k: "checkInboxState c i s want w1 = (r, w')" by simp
      from checkInboxState_docs [OF c k] d(1) law(1) show ?thesis by auto
    qed
  qed
  then show "frame w' = frame w" "docs w' = docs w \<or> docs w' = updated (docs w) (i, s) is_processing f"
    "r = Inr () \<Longrightarrow> \<exists>e. docs w' (i, s) = Some e \<and> pe_Status e = want" by blast+
qed

lemma MarkApplied_docs:
  assumes "collection_laws c event_key docs frame" "MarkApplied c i s at w = (r, w')"
  shows "frame w' = frame w" "docs w' = docs w \<or> at \<noteq> 0 \<and> docs w' = updated (docs w) (i, s) is_processing (set_applied at)"
    and "r = Inr () \<Longrightarrow> \<exists>e. docs w' (i, s) = Some e \<and> pe_Status e = InboxApplied"
  using assms(2) mark_docs [OF assms(1), where f = "set_applied at" and want = InboxApplied and r = r and w' = w' and w = w]
  by (auto simp: MarkApplied_def set_applied_def IsZero_def go_simps split: if_splits)

lemma MarkRejected_docs:
  assumes "collection_laws c event_key docs frame" "MarkRejected c i s m at w = (r, w')"
  shows "frame w' = frame w"
    and "docs w' = docs w \<or> at \<noteq> 0 \<and> TrimSpace m \<noteq> [] \<and> length (TrimSpace m) \<le> 512
      \<and> docs w' = updated (docs w) (i, s) is_processing (set_rejected (TrimSpace m) at)"
    and "r = Inr () \<Longrightarrow> \<exists>e. docs w' (i, s) = Some e \<and> pe_Status e = InboxRejected"
  using assms(2) mark_docs [OF assms(1), where f = "set_rejected (TrimSpace m) at" and want = InboxRejected and r = r and w' = w' and w = w]
  by (auto simp: MarkRejected_def Let_def set_rejected_def IsZero_def go_simps split: if_splits)

section \<open>Runs of the inbox\<close>

inductive inbox_step :: "'w inbox_events \<Rightarrow> 'w \<Rightarrow> 'w \<Rightarrow> bool" for c where
  claim: "inbox_Claim c claim w = (r, w') \<Longrightarrow> inbox_step c w w'"
| get: "inbox_Get c eventID consumer w = (r, w') \<Longrightarrow> inbox_step c w w'"
| applied: "MarkApplied c eventID consumer at w = (r, w') \<Longrightarrow> inbox_step c w w'"
| rejected: "MarkRejected c eventID consumer m at w = (r, w') \<Longrightarrow> inbox_step c w w'"

lemma inbox_step_progress:
  assumes c: "collection_laws c event_key docs frame" and "inbox_step c w w'"
  shows "inbox_progress (docs w k) (docs w' k)"
  using assms(2)
proof cases
  case (claim cl r)
  have "docs w' = docs w \<or> InboxEvent_Validate (claimed_event cl) = None \<and> docs w (event_key (claimed_event cl)) = None
      \<and> docs w' = (docs w)(event_key (claimed_event cl) \<mapsto> claimed_event cl)"
    using inbox_Claim_docs(2) [OF c claim] by blast
  then show ?thesis by (cases "k = event_key (claimed_event cl)") (auto simp: inbox_progress_def)
next
  case (get i s r)
  from inbox_Get_docs(1) [OF c get] show ?thesis by simp
next
  case (applied i s at r)
  from MarkApplied_docs(2) [OF c applied] show ?thesis by auto
next
  case (rejected i s m at r)
  from MarkRejected_docs(2) [OF c rejected] show ?thesis by auto
qed

lemma inbox_step_frame:
  assumes c: "collection_laws c event_key docs frame" and "inbox_step c w w'"
  shows "frame w' = frame w"
  using assms(2)
  by cases (auto dest: inbox_Claim_docs(1) [OF c] inbox_Get_docs(2) [OF c] MarkApplied_docs(1) [OF c] MarkRejected_docs(1) [OF c])

section \<open>Properties\<close>

definition settled :: "InboxEvent \<Rightarrow> bool" where
  "settled e \<longleftrightarrow> pe_Status e = InboxApplied \<or> pe_Status e = InboxRejected"

definition inbox_identity :: "InboxEvent \<Rightarrow> string \<times> string \<times> string \<times> string \<times> string \<times> string \<times> time" where
  "inbox_identity e = (pe_EventID e, pe_Consumer e, pe_Subject e, pe_TenantID e, pe_WorkspaceID e, pe_PayloadHash e, pe_ReceivedAt e)"

lemma inbox_progress_keeps:
  assumes "inbox_progress (Some e) new"
  shows "\<exists>e'. new = Some e' \<and> inbox_identity e' = inbox_identity e
    \<and> (e' = e \<or> is_processing e \<and> settled e' \<and> pe_AppliedAt e' \<noteq> None)"
  using assms by (auto simp: inbox_progress_def inbox_identity_def settled_def set_applied_def set_rejected_def)

text \<open>
  over any calls of the inbox, whatever fails, an entry is never lost, what identifies it
  (its payload hash included) never changes, and it leaves PROCESSING at most once, to APPLIED
  or REJECTED with a time: a settled entry is final.
\<close>

theorem inbox_lifecycle:
  assumes "collection_laws c event_key docs frame" "(inbox_step c)\<^sup>*\<^sup>* w w'" "docs w k = Some e"
  shows "\<exists>e'. docs w' k = Some e' \<and> inbox_identity e' = inbox_identity e
    \<and> (e' = e \<or> is_processing e \<and> settled e' \<and> pe_AppliedAt e' \<noteq> None)"
  using assms(2)
proof (induction rule: rtranclp_induct)
  case base
  with assms(3) show ?case by blast
next
  case (step w1 w2)
  then obtain e1 where e1: "docs w1 k = Some e1" "inbox_identity e1 = inbox_identity e"
    "e1 = e \<or> is_processing e \<and> settled e1 \<and> pe_AppliedAt e1 \<noteq> None" by blast
  from inbox_step_progress [OF assms(1) step.hyps(2), of k] e1(1) obtain e2 where
    "docs w2 k = Some e2" "inbox_identity e2 = inbox_identity e1"
    "e2 = e1 \<or> is_processing e1 \<and> settled e2 \<and> pe_AppliedAt e2 \<noteq> None"
    using inbox_progress_keeps by metis
  with e1 show ?case by (auto simp: settled_def is_processing_def)
qed

definition sample_inbox :: "(inbox_key \<rightharpoonup> InboxEvent) inbox_events" where
  "sample_inbox = memory_collection event_key (\<lambda>w. w) (\<lambda>x w. x)"

lemma sample_inbox_laws: "collection_laws sample_inbox event_key (\<lambda>w. w) (\<lambda>w. ())"
  unfolding sample_inbox_def by (rule memory_collection_laws) (simp add: lens_def)

definition sample_claim :: InboxClaim where
  "sample_claim = \<lparr>pc_EventID = ''e1'', pc_Consumer = ''hub'', pc_Subject = ''bids.tender'', pc_TenantID = ''t'',
     pc_WorkspaceID = ''w'', pc_Payload = ''{}'', pc_ReceivedAt = 5\<rparr>"

definition sample_entry :: InboxEvent where
  "sample_entry = \<lparr>pe_EventID = ''e1'', pe_Consumer = ''hub'', pe_Subject = ''bids.tender'', pe_TenantID = ''t'',
     pe_WorkspaceID = ''w'', pe_PayloadHash = sha256_ref ''{}'', pe_Status = InboxProcessing, pe_ReceivedAt = 5,
     pe_AppliedAt = None, pe_SafeError = []\<rparr>"

lemma claimed_sample: "claimed_event sample_claim = sample_entry"
  by (simp add: claimed_event_def sample_claim_def sample_entry_def trim_simps)

lemma sample_entry_valid: "InboxEvent_Validate sample_entry = None"
  by (simp add: InboxEvent_Validate_def sample_entry_def trim_simps ContainsAny_def IsZero_def)

lemma normalize_sample: "normalizeInboxClaim sample_claim = Inr sample_entry"
  using sample_entry_valid claimed_sample
  by (simp add: normalizeInboxClaim_def sample_claim_def trim_simps ContainsAny_def IsZero_def MaxEnvelopeBytes_def Let_def)

theorem inbox_lifecycle_witness:
  "\<exists>w'. inbox_Claim sample_inbox sample_claim Map.empty = (Inr (sample_entry, False), w')
     \<and> inbox_identity (the (snd (MarkApplied sample_inbox ''e1'' ''hub'' 9 w') (''e1'', ''hub''))) = inbox_identity sample_entry"
proof -
  let ?w = "[(''e1'', ''hub'') \<mapsto> sample_entry]"
  have k: "event_key sample_entry = (''e1'', ''hub'')" by (simp add: event_key_def sample_entry_def)
  have "inbox_Claim sample_inbox sample_claim Map.empty = (Inr (sample_entry, False), ?w)"
    by (simp add: inbox_Claim_def normalize_sample go_simps sample_inbox_def memory_collection_def k)
  moreover have "inbox_step sample_inbox ?w (snd (MarkApplied sample_inbox ''e1'' ''hub'' 9 ?w))"
    by (rule inbox_step.applied) (rule prod.collapse [symmetric])
  then have "(inbox_step sample_inbox)\<^sup>*\<^sup>* ?w (snd (MarkApplied sample_inbox ''e1'' ''hub'' 9 ?w))" by blast
  from inbox_lifecycle [OF sample_inbox_laws this, of "(''e1'', ''hub'')" sample_entry]
  have "inbox_identity (the (snd (MarkApplied sample_inbox ''e1'' ''hub'' 9 ?w) (''e1'', ''hub''))) = inbox_identity sample_entry"
    by auto
  ultimately show ?thesis by blast
qed

text \<open>
  A first claim stores exactly the normalised event under its key, which was free; a later
  claim of the key, once the entry is there, never changes anything: it is reported as a
  duplicate only when its payload has the stored hash, and never as new.
\<close>

theorem inbox_claim_once:
  assumes "collection_laws c event_key docs frame" "inbox_Claim c claim w = (Inr (e, False), w1)"
    and "(inbox_step c)\<^sup>*\<^sup>* w1 w2" "inbox_Claim c again w2 = (r, w3)"
    and "event_key (claimed_event again) = event_key (claimed_event claim)"
  shows "e = claimed_event claim \<and> docs w (event_key e) = None \<and> docs w1 = (docs w)(event_key e \<mapsto> e)
    \<and> docs w3 = docs w2
    \<and> (case r of Inl err \<Rightarrow> True
       | Inr (d, dup) \<Rightarrow> dup \<and> docs w2 (event_key e) = Some d \<and> sha256_ref (pc_Payload again) = sha256_ref (pc_Payload claim))"
proof -
  from inbox_Claim_docs(2) [OF assms(1,2), of e] have e: "e = claimed_event claim"
    "docs w (event_key e) = None" "docs w1 = (docs w)(event_key e \<mapsto> e)" by auto
  from inbox_lifecycle [OF assms(1,3), of "event_key e" e] e(3) obtain e' where
    e': "docs w2 (event_key e) = Some e'" "inbox_identity e' = inbox_identity e" by auto
  note again = inbox_Claim_docs [OF assms(1,4)]
  from again(2) e' assms(5) e(1) have w3: "docs w3 = docs w2" "\<And>d. r \<noteq> Inr (d, False)" by auto
  have "\<And>d dup. r = Inr (d, dup) \<Longrightarrow> dup \<and> docs w2 (event_key e) = Some d \<and> pe_PayloadHash d = pe_PayloadHash (claimed_event again)"
    using again(3) w3(2) assms(5) e(1) by (metis (full_types))
  with e e' w3 show ?thesis
    by (auto simp: inbox_identity_def claimed_event_def split: sum.split)
qed

theorem inbox_claim_once_witness:
  "snd (inbox_Claim sample_inbox sample_claim [(''e1'', ''hub'') \<mapsto> sample_entry]) = [(''e1'', ''hub'') \<mapsto> sample_entry]"
proof -
  let ?w = "[(''e1'', ''hub'') \<mapsto> sample_entry]"
  have k: "event_key sample_entry = (''e1'', ''hub'')" by (simp add: event_key_def sample_entry_def)
  have "inbox_Claim sample_inbox sample_claim Map.empty = (Inr (sample_entry, False), ?w)"
    by (simp add: inbox_Claim_def normalize_sample go_simps sample_inbox_def memory_collection_def k)
  from inbox_claim_once [OF sample_inbox_laws this rtranclp.rtrancl_refl prod.collapse [symmetric] refl]
  show ?thesis unfolding k by blast
qed

end
