(* ===== verification/ProjectionStore.thy ===== *)
theory ProjectionStore
  imports ProjectionInbox RecordModel RecordFeed AuditLog
begin

text \<open>
  \<open>projection/store.go\<close>: the transaction that applies one event to a projection, and its
  staging variant for a replay. \<open>apply_callback\<close> is the function that \<open>Apply\<close> hands to
  \<open>WithTransaction\<close>; the variables it sets for its caller (the change to publish, whether a gap
  was detected) are its result. The driver may run the callback again after an aborted attempt;
  the model has the run that counts. \<open>ProjectionState\<close>, a record of maps, is the
  abstract state: \<open>Apply\<close> on any database that \<open>serves\<close> it acts as \<open>apply_spec\<close> on it, which
  is what the theorems on exactly-once, in-order application rest on.
\<close>

section \<open>Checkpoints\<close>

datatype CheckpointStatus = CheckpointCurrent | CheckpointGap | CheckpointFailed | OtherCheckpointStatus string

record ProjectionCheckpoint =
  cp_TenantID :: string
  cp_WorkspaceID :: string
  cp_Consumer :: string
  cp_SourceSystem :: string
  cp_AggregateType :: string
  cp_AggregateID :: string
  cp_SourceVersion :: int
  cp_LastEventID :: string
  cp_SyncedAt :: time
  cp_Status :: CheckpointStatus

definition ProjectionCheckpoint_Validate :: "ProjectionCheckpoint \<Rightarrow> goerr option" where
  "ProjectionCheckpoint_Validate checkpoint =
     (if list_ex blank [cp_TenantID checkpoint, cp_WorkspaceID checkpoint, cp_Consumer checkpoint,
           cp_SourceSystem checkpoint, cp_AggregateType checkpoint, cp_AggregateID checkpoint, cp_LastEventID checkpoint]
      then Some (Anon ''checkpoint scope, source identity, and lastEventId are required'')
      else if cp_SourceVersion checkpoint < 0 then Some (Anon ''checkpoint sourceVersion cannot be negative'')
      else if IsZero (cp_SyncedAt checkpoint) then Some (Anon ''checkpoint syncedAt is required'')
      else (case cp_Status checkpoint of
          OtherCheckpointStatus _ \<Rightarrow> Some (Anon ''checkpoint status is invalid'')
        | _ \<Rightarrow> None))"

type_synonym checkpoint_key = "string \<times> string \<times> string \<times> string \<times> string \<times> string"

definition projectionCheckpointFilter :: "ProjectionCheckpoint \<Rightarrow> checkpoint_key" where
  "projectionCheckpointFilter checkpoint =
     (cp_TenantID checkpoint, cp_WorkspaceID checkpoint, cp_Consumer checkpoint, cp_SourceSystem checkpoint,
      cp_AggregateType checkpoint, cp_AggregateID checkpoint)"

datatype projectionVersionDecision = projectionVersionApply | projectionVersionStale | projectionVersionGap

definition classifyCheckpoint :: "ProjectionCheckpoint option \<Rightarrow> int \<Rightarrow> projectionVersionDecision" where
  "classifyCheckpoint current incomingVersion =
     (let currentVersion = (case current of None \<Rightarrow> 0 | Some c \<Rightarrow> cp_SourceVersion c)
      in if incomingVersion \<le> currentVersion then projectionVersionStale
         else if incomingVersion \<noteq> incr64 currentVersion then projectionVersionGap
         else projectionVersionApply)"

section \<open>The input of Apply\<close>

record ProjectionApply =
  pa_InboxEvent :: InboxEvent
  pa_Record :: Record
  pa_Checkpoint :: ProjectionCheckpoint
  pa_Audit :: AuditEntry

definition apply_identities_match :: "ProjectionApply \<Rightarrow> bool" where
  "apply_identities_match input =
     (let event = pa_InboxEvent input; record = pa_Record input; checkpoint = pa_Checkpoint input; audit = pa_Audit input
      in cp_LastEventID checkpoint = pe_EventID event \<and> cp_TenantID checkpoint = rec_TenantID record
         \<and> cp_WorkspaceID checkpoint = rec_WorkspaceID record \<and> cp_Consumer checkpoint = pe_Consumer event
         \<and> ae_TenantID audit = rec_TenantID record \<and> ae_WorkspaceID audit = rec_WorkspaceID record
         \<and> ae_ResourceID audit = rec_ID record
         \<and> (pe_TenantID event = []
            \<or> pe_TenantID event = rec_TenantID record \<and> pe_WorkspaceID event = rec_WorkspaceID record))"

definition validateProjectionApply :: "(string \<Rightarrow> bool) \<Rightarrow> ProjectionApply \<Rightarrow> goerr option" where
  "validateProjectionApply bson input =
     (case InboxEvent_Validate (pa_InboxEvent input) of
        Some err \<Rightarrow> Some (Wrap ''inbox event'' err)
      | None \<Rightarrow>
     (case ProjectionCheckpoint_Validate (pa_Checkpoint input) of
        Some err \<Rightarrow> Some (Wrap ''checkpoint'' err)
      | None \<Rightarrow>
     (case Record_Validate bson (pa_Record input) of
        Some err \<Rightarrow> Some (Wrap ''projection record'' err)
      | None \<Rightarrow>
          if rec_Projection (pa_Record input) = None then Some (ProjectionErr ErrProjectionRecordRequired)
          else if \<not> apply_identities_match input
          then Some (Anon ''projection apply scope and event identity do not match'')
          else if ae_Action (pa_Audit input) = [] \<or> ik_Issuer (ae_Actor (pa_Audit input)) = []
             \<or> ik_Subject (ae_Actor (pa_Audit input)) = [] \<or> ae_ResourceType (pa_Audit input) = []
             \<or> IsZero (ae_CreatedAt (pa_Audit input))
          then Some (Anon ''projection audit entry is incomplete'')
          else None)))"

section \<open>The repository\<close>

type_synonym record_key = "string \<times> string \<times> string \<times> string"
type_synonym pointer_key = "string \<times> string \<times> string \<times> ReadPointerStatus"

definition record_key :: "Record \<Rightarrow> record_key" where
  "record_key r = (rec_TenantID r, rec_WorkspaceID r, rec_TableID r, rec_ID r)"

definition pointer_key :: "ProjectionReadPointer \<Rightarrow> pointer_key" where
  "pointer_key p = (rp_TenantID p, rp_WorkspaceID p, rp_TableID p, rp_Status p)"

text \<open>
  \<open>*mongo.Database\<close>: the collections the package opens, with \<open>db_records\<close> for the
  collections of records by their names, and sessions.
\<close>

type_synonym 'w audit_insert = "AuditEntry \<Rightarrow> 'w \<Rightarrow> string option \<times> 'w"

record 'w projection_database =
  db_StartSession :: "'w \<Rightarrow> string option \<times> 'w"
  db_WithTransaction :: "('w, RecordChange option \<times> bool) transaction"
  db_WithTransactionUnit :: "('w, unit) transaction"
  db_inbox :: "'w inbox_events"
  db_checkpoints :: "('w, checkpoint_key, ProjectionCheckpoint) collection"
  db_records :: "string \<Rightarrow> ('w, record_key, Record) collection"
  db_readPointers :: "('w, pointer_key, ProjectionReadPointer) collection"
  db_audit :: "'w audit_insert"

record 'w MongoProjectionRepository =
  pr_database :: "'w projection_database option"
  pr_inbox :: "'w inbox_events option"
  pr_records :: "('w, record_key, Record) collection option"
  pr_readPointers :: "('w, pointer_key, ProjectionReadPointer) collection option"
  pr_checkpoints :: "('w, checkpoint_key, ProjectionCheckpoint) collection option"
  pr_audit :: "'w audit_insert option"
  pr_feed :: "(RecordChange \<Rightarrow> 'w \<Rightarrow> 'w) option"
  pr_staging :: bool
  pr_afterCommit :: "('w, unit) go option"

definition records_collection :: string where
  "records_collection = ''records''"

definition NewMongoProjectionRepository :: "'w projection_database option \<Rightarrow> 'w MongoProjectionRepository" where
  "NewMongoProjectionRepository database =
     (case database of
        None \<Rightarrow> \<lparr>pr_database = None, pr_inbox = None, pr_records = None, pr_readPointers = None, pr_checkpoints = None,
                pr_audit = None, pr_feed = None, pr_staging = False, pr_afterCommit = None\<rparr>
      | Some db \<Rightarrow> \<lparr>pr_database = Some db, pr_inbox = Some (db_inbox db),
                pr_records = Some (db_records db records_collection), pr_readPointers = Some (db_readPointers db),
                pr_checkpoints = Some (db_checkpoints db), pr_audit = Some (db_audit db), pr_feed = None,
                pr_staging = False, pr_afterCommit = None\<rparr>)"

definition WithFeed :: "(RecordChange \<Rightarrow> 'w \<Rightarrow> 'w) \<Rightarrow> 'w MongoProjectionRepository \<Rightarrow> 'w MongoProjectionRepository" where
  "WithFeed feed repository = repository\<lparr>pr_feed := Some feed\<rparr>"

definition staging_prefix :: string where
  "staging_prefix = ''projection_staging_records_''"

definition stagingRecordsCollectionName :: "string \<Rightarrow> string" where
  "stagingRecordsCollectionName operationID = staging_prefix @ TrimPrefix (TrimSpace operationID) staging_prefix"

definition WithStaging :: "string \<Rightarrow> 'w MongoProjectionRepository \<Rightarrow> 'w MongoProjectionRepository" where
  "WithStaging operationID repository =
     (case pr_database repository of
        None \<Rightarrow> repository
      | Some db \<Rightarrow> repository\<lparr>pr_records := Some (db_records db (stagingRecordsCollectionName operationID)),
                  pr_staging := True\<rparr>)"

text \<open>The collection that holds the visible records of a table: the one its active read pointer names.\<close>

definition activeRecordsCollection ::
  "'w projection_database \<Rightarrow> ('w, record_key, Record) collection
     \<Rightarrow> ('w, pointer_key, ProjectionReadPointer) collection option \<Rightarrow> string \<Rightarrow> string \<Rightarrow> string
     \<Rightarrow> ('w, ('w, record_key, Record) collection) go" where
  "activeRecordsCollection db records readPointers tenantID workspaceID tableID =
     (if readPointers = None \<or> blank tableID then ret records
      else bindG (FindG (the readPointers) (tenantID, workspaceID, tableID, ProjectionReadPointerActive)
                    ''find projection read pointer'') (\<lambda>found. case found of
          None \<Rightarrow> ret records
        | Some pointer \<Rightarrow>
            if blank (rp_CollectionName pointer) then fail (ProjectionErr ErrProjectionReadPointerUnavailable)
            else ret (db_records db (rp_CollectionName pointer))))"

section \<open>Apply\<close>

definition applied_change :: "ProjectionApply \<Rightarrow> RecordChange" where
  "applied_change input =
     \<lparr>rc_ID = 0, rc_TenantID = rec_TenantID (pa_Record input), rc_WorkspaceID = rec_WorkspaceID (pa_Record input),
      rc_TableID = rec_TableID (pa_Record input), rc_RecordID = rec_ID (pa_Record input),
      rc_RecordVersion = rec_RecordVersion (pa_Record input), rc_ChangeType = Upsert,
      rc_LastEventID = pe_EventID (pa_InboxEvent input), rc_OccurredAt = cp_SyncedAt (pa_Checkpoint input),
      rc_DedupKey = ''projection:'' @ pe_Consumer (pa_InboxEvent input) @ '':'' @ pe_EventID (pa_InboxEvent input)\<rparr>"

definition audit_InsertG :: "'w audit_insert \<Rightarrow> AuditEntry \<Rightarrow> ('w, unit) go" where
  "audit_InsertG insertOne entry =
     (\<lambda>w. case insertOne entry w of
        (None, w') \<Rightarrow> (Inr (), w')
      | (Some m, w') \<Rightarrow> (Inl (Wrap ''append projection audit'' (External m)), w'))"

definition write_projection ::
  "'w projection_database \<Rightarrow> ('w, record_key, Record) collection
     \<Rightarrow> ('w, pointer_key, ProjectionReadPointer) collection option
     \<Rightarrow> ('w, checkpoint_key, ProjectionCheckpoint) collection \<Rightarrow> 'w audit_insert \<Rightarrow> ProjectionApply
     \<Rightarrow> ('w, RecordChange option \<times> bool) go" where
  "write_projection db records readPointers checkpoints audit input =
     bindG (activeRecordsCollection db records readPointers (rec_TenantID (pa_Record input))
              (rec_WorkspaceID (pa_Record input)) (rec_TableID (pa_Record input))) (\<lambda>target.
     bindG (ReplaceG target (record_key (pa_Record input)) (pa_Record input) ''upsert projection record'') (\<lambda>_.
     bindG (ReplaceG checkpoints (projectionCheckpointFilter (pa_Checkpoint input)) (pa_Checkpoint input)
              ''upsert projection checkpoint'') (\<lambda>_.
     bindG (audit_InsertG audit (pa_Audit input)) (\<lambda>_. ret (Some (applied_change input), False)))))"

definition mark_gap :: "ProjectionCheckpoint \<Rightarrow> ProjectionCheckpoint" where
  "mark_gap checkpoint = checkpoint\<lparr>cp_Status := CheckpointGap\<rparr>"

definition apply_callback ::
  "'w projection_database \<Rightarrow> ('w, record_key, Record) collection
     \<Rightarrow> ('w, pointer_key, ProjectionReadPointer) collection option \<Rightarrow> 'w inbox_events
     \<Rightarrow> ('w, checkpoint_key, ProjectionCheckpoint) collection \<Rightarrow> 'w audit_insert \<Rightarrow> ProjectionApply
     \<Rightarrow> ('w, RecordChange option \<times> bool) go" where
  "apply_callback db records readPointers inbox checkpoints audit input =
     (let key = event_key (pa_InboxEvent input);
          checkpointFilter = projectionCheckpointFilter (pa_Checkpoint input);
          appliedAt = cp_SyncedAt (pa_Checkpoint input)
      in bindG (FindG inbox key ''load inbox event'') (\<lambda>found. case found of
           None \<Rightarrow> fail (ProjectionErr ErrInboxNotFound)
         | Some existing \<Rightarrow>
             if pe_PayloadHash existing \<noteq> pe_PayloadHash (pa_InboxEvent input)
             then fail (ProjectionErr ErrInboxPayloadConflict)
             else if pe_Status existing = InboxApplied then fail (ProjectionErr ErrProjectionAlreadyApplied)
             else if pe_Status existing \<noteq> InboxProcessing then fail (ProjectionErr ErrInboxStateConflict)
             else bindG (FindG checkpoints checkpointFilter ''load projection checkpoint'') (\<lambda>current.
               case classifyCheckpoint current (cp_SourceVersion (pa_Checkpoint input)) of
                 projectionVersionStale \<Rightarrow>
                   bindG (UpdateG inbox key is_processing (set_applied appliedAt) ''mark stale inbox event applied'')
                     (\<lambda>_. ret (None, False))
               | projectionVersionGap \<Rightarrow>
                   (case current of
                      None \<Rightarrow> ret (None, True)
                    | Some _ \<Rightarrow>
                        bindG (UpdateG checkpoints checkpointFilter (\<lambda>_. True) mark_gap ''mark projection checkpoint gap'')
                          (\<lambda>_. ret (None, True)))
               | projectionVersionApply \<Rightarrow>
                   bindG (UpdateG inbox key is_processing (set_applied appliedAt) ''mark inbox event applied'')
                     (\<lambda>_. write_projection db records readPointers checkpoints audit input))))"

definition applyStaging :: "(string \<Rightarrow> bool) \<Rightarrow> ('w, record_key, Record) collection \<Rightarrow> ProjectionApply \<Rightarrow> ('w, unit) go" where
  "applyStaging bson records input =
     bindG (checkG (validateProjectionApply bson input)) (\<lambda>_.
     bindG (FindG records (record_key (pa_Record input)) ''load staged projection record'') (\<lambda>found.
       if (case found of None \<Rightarrow> False | Some current \<Rightarrow> rec_RecordVersion current \<ge> rec_RecordVersion (pa_Record input))
       then ret ()
       else ReplaceG records (record_key (pa_Record input)) (pa_Record input) ''upsert staged projection record''))"

definition publish_change ::
  "(RecordChange \<Rightarrow> 'w \<Rightarrow> 'w) option \<Rightarrow> RecordChange option \<Rightarrow> 'w \<Rightarrow> 'w" where
  "publish_change feed change =
     (case (change, feed) of (Some c, Some publish) \<Rightarrow> publish c | _ \<Rightarrow> (\<lambda>w. w))"

text \<open>
  The field \<open>afterCommit\<close>, a hook that only tests set and that the first call clears, is
  \<open>None\<close> or the hook of this call.
\<close>

definition Apply :: "(string \<Rightarrow> bool) \<Rightarrow> 'w MongoProjectionRepository option \<Rightarrow> ProjectionApply \<Rightarrow> ('w, unit) go" where
  "Apply bson receiver input =
     bindG (checkG (validateProjectionApply bson input)) (\<lambda>_.
       case receiver of
         None \<Rightarrow> fail (Anon ''projection repository is not configured'')
       | Some repository \<Rightarrow>
       (case (pr_database repository, pr_records repository) of
          (Some db, Some records) \<Rightarrow>
            if pr_staging repository then applyStaging bson records input
            else (case (pr_inbox repository, pr_checkpoints repository, pr_audit repository) of
              (Some inbox, Some checkpoints, Some audit) \<Rightarrow>
                (\<lambda>w. case db_StartSession db w of
                   (Some m, w1) \<Rightarrow> (Inl (Wrap ''start projection transaction'' (External m)), w1)
                 | (None, w1) \<Rightarrow>
                     (case db_WithTransaction db
                             (apply_callback db records (pr_readPointers repository) inbox checkpoints audit input) w1 of
                        (Inl err, w2) \<Rightarrow>
                          if errors_is err (ProjectionErr ErrProjectionAlreadyApplied) then (Inr (), w2) else (Inl err, w2)
                      | (Inr (feedChange, gapDetected), w2) \<Rightarrow>
                          bindG (case pr_afterCommit repository of None \<Rightarrow> ret () | Some hook \<Rightarrow> hook) (\<lambda>_.
                            if gapDetected then fail (ProjectionErr ErrProjectionVersionGap) else ret ())
                          (publish_change (pr_feed repository) feedChange w2)))
            | _ \<Rightarrow> fail (Anon ''projection repository is not configured''))
        | _ \<Rightarrow> fail (Anon ''projection repository is not configured'')))"


section \<open>The abstract state\<close>

record ProjectionDB =
  v_inbox :: "inbox_key \<rightharpoonup> InboxEvent"
  v_checkpoints :: "checkpoint_key \<rightharpoonup> ProjectionCheckpoint"
  v_records :: "string \<Rightarrow> record_key \<rightharpoonup> Record"
  v_pointers :: "pointer_key \<rightharpoonup> ProjectionReadPointer"
  v_audit :: "AuditEntry list"

definition put_inbox :: "(inbox_key \<rightharpoonup> InboxEvent) \<Rightarrow> ProjectionDB \<Rightarrow> ProjectionDB" where
  "put_inbox x v = v\<lparr>v_inbox := x\<rparr>"

definition put_checkpoints :: "(checkpoint_key \<rightharpoonup> ProjectionCheckpoint) \<Rightarrow> ProjectionDB \<Rightarrow> ProjectionDB" where
  "put_checkpoints x v = v\<lparr>v_checkpoints := x\<rparr>"

definition put_pointers :: "(pointer_key \<rightharpoonup> ProjectionReadPointer) \<Rightarrow> ProjectionDB \<Rightarrow> ProjectionDB" where
  "put_pointers x v = v\<lparr>v_pointers := x\<rparr>"

definition get_records :: "string \<Rightarrow> ProjectionDB \<Rightarrow> record_key \<rightharpoonup> Record" where
  "get_records n v = v_records v n"

definition put_records :: "string \<Rightarrow> (record_key \<rightharpoonup> Record) \<Rightarrow> ProjectionDB \<Rightarrow> ProjectionDB" where
  "put_records n x v = v\<lparr>v_records := (v_records v)(n := x)\<rparr>"

lemmas put_defs = put_inbox_def put_checkpoints_def put_pointers_def put_records_def get_records_def

lemma projection_parts:
  "part v_inbox put_inbox" "part v_checkpoints put_checkpoints" "part v_pointers put_pointers"
  "part (get_records n) (put_records n)"
  by (auto simp: part_def put_defs)

definition audit_realises :: "'w audit_insert \<Rightarrow> ('w \<Rightarrow> ProjectionDB) \<Rightarrow> bool" where
  "audit_realises insertOne view \<longleftrightarrow> (\<forall>entry w r w'. insertOne entry w = (r, w') \<longrightarrow>
     view w' = (case r of None \<Rightarrow> (view w)\<lparr>v_audit := v_audit (view w) @ [entry]\<rparr> | Some _ \<Rightarrow> view w))"

text \<open>
  A database serves the abstract state when each collection realises its part of it, a started
  session changes nothing of it, and the transactions keep their laws.
\<close>

definition serves :: "'w projection_database \<Rightarrow> ('w \<Rightarrow> ProjectionDB) \<Rightarrow> bool" where
  "serves db view \<longleftrightarrow>
     realises (db_inbox db) event_key v_inbox put_inbox view
     \<and> realises (db_checkpoints db) projectionCheckpointFilter v_checkpoints put_checkpoints view
     \<and> realises (db_readPointers db) pointer_key v_pointers put_pointers view
     \<and> (\<forall>n. realises (db_records db n) record_key (get_records n) (put_records n) view)
     \<and> audit_realises (db_audit db) view
     \<and> transaction_laws (db_WithTransaction db) \<and> transaction_laws (db_WithTransactionUnit db)
     \<and> (\<forall>w r w'. db_StartSession db w = (r, w') \<longrightarrow> view w' = view w)"

text \<open>The database whose state is the abstract state.\<close>

definition memory_audit :: "ProjectionDB audit_insert" where
  "memory_audit entry v = (None, v\<lparr>v_audit := v_audit v @ [entry]\<rparr>)"

definition memory_database :: "ProjectionDB projection_database" where
  "memory_database =
     \<lparr>db_StartSession = (\<lambda>v. (None, v)), db_WithTransaction = memory_transaction,
      db_WithTransactionUnit = memory_transaction,
      db_inbox = memory_collection event_key v_inbox put_inbox,
      db_checkpoints = memory_collection projectionCheckpointFilter v_checkpoints put_checkpoints,
      db_records = (\<lambda>n. memory_collection record_key (get_records n) (put_records n)),
      db_readPointers = memory_collection pointer_key v_pointers put_pointers,
      db_audit = memory_audit\<rparr>"

lemma memory_database_serves: "serves memory_database (\<lambda>v. v)"
  by (simp add: serves_def memory_database_def realises_memory projection_parts memory_transaction_laws
      audit_realises_def memory_audit_def)

lemma memory_database_parts:
  "db_inbox memory_database = memory_collection event_key v_inbox put_inbox"
  "db_checkpoints memory_database = memory_collection projectionCheckpointFilter v_checkpoints put_checkpoints"
  "db_records memory_database n = memory_collection record_key (get_records n) (put_records n)"
  "db_readPointers memory_database = memory_collection pointer_key v_pointers put_pointers"
  "db_audit memory_database = memory_audit"
  "db_WithTransaction memory_database = memory_transaction"
  "db_StartSession memory_database v = (None, v)"
  by (simp_all add: memory_database_def)

lemma servesD:
  assumes "serves db view"
  shows "realises (db_inbox db) event_key v_inbox put_inbox view"
    and "realises (db_checkpoints db) projectionCheckpointFilter v_checkpoints put_checkpoints view"
    and "realises (db_readPointers db) pointer_key v_pointers put_pointers view"
    and "realises (db_records db n) record_key (get_records n) (put_records n) view"
    and "audit_realises (db_audit db) view"
    and "transaction_laws (db_WithTransaction db)" "transaction_laws (db_WithTransactionUnit db)"
    and "db_StartSession db w = (r, w') \<Longrightarrow> view w' = view w"
  using assms by (auto simp: serves_def)

section \<open>Refinement\<close>

lemma refines_audit:
  "audit_realises insertOne view \<Longrightarrow> refines view (audit_InsertG insertOne e) (audit_InsertG memory_audit e)"
proof (rule refinesI)
  fix w r w' assume a: "audit_realises insertOne view" and run: "audit_InsertG insertOne e w = (r, w')"
  obtain s w1 where i: "insertOne e w = (s, w1)" by force
  with a have "view w1 = (case s of None \<Rightarrow> (view w)\<lparr>v_audit := v_audit (view w) @ [e]\<rparr> | Some _ \<Rightarrow> view w)"
    unfolding audit_realises_def by blast
  with run i show "(\<exists>e. r = Inl e \<and> library_error e) \<or> (r, view w') = audit_InsertG memory_audit e (view w)"
    by (cases s) (auto simp: audit_InsertG_def memory_audit_def)
qed

text \<open>Resolving the collection, then a continuation that uses it.\<close>

lemma refines_resolve:
  assumes s: "serves db view" and k: "\<And>n. refines view (f (db_records db n)) (g (db_records memory_database n))"
  shows "refines view
    (bindG (activeRecordsCollection db (db_records db m) (Some (db_readPointers db)) t ws tb) f)
    (bindG (activeRecordsCollection memory_database (db_records memory_database m) (Some (db_readPointers memory_database)) t ws tb) g)"
proof (cases "blank tb")
  case True
  then show ?thesis by (simp add: activeRecordsCollection_def k)
next
  case False
  let ?k = "(t, ws, tb, ProjectionReadPointerActive)" and ?l = "''find projection read pointer''"
  have "refines view (FindG (db_readPointers db) ?k ?l) (FindG (db_readPointers memory_database) ?k ?l)"
    unfolding memory_database_parts by (rule refines_FindG) (rule servesD(3) [OF s])
  then have "refines view
      (bindG (FindG (db_readPointers db) ?k ?l) (\<lambda>x. bindG (case x of None \<Rightarrow> ret (db_records db m)
         | Some p \<Rightarrow> if blank (rp_CollectionName p) then fail (ProjectionErr ErrProjectionReadPointerUnavailable)
                     else ret (db_records db (rp_CollectionName p))) f))
      (bindG (FindG (db_readPointers memory_database) ?k ?l) (\<lambda>x. bindG (case x of None \<Rightarrow> ret (db_records memory_database m)
         | Some p \<Rightarrow> if blank (rp_CollectionName p) then fail (ProjectionErr ErrProjectionReadPointerUnavailable)
                     else ret (db_records memory_database (rp_CollectionName p))) g))"
    by (rule refines_bindG) (auto simp: k refines_fail split: option.split)
  with False show ?thesis by (simp add: activeRecordsCollection_def bindG_assoc)
qed

lemma refines_decision [refine]:
  assumes "d = projectionVersionApply \<Longrightarrow> refines view m1 s1" "d = projectionVersionStale \<Longrightarrow> refines view m2 s2"
    and "d = projectionVersionGap \<Longrightarrow> refines view m3 s3"
  shows "refines view
    (case d of projectionVersionApply \<Rightarrow> m1 | projectionVersionStale \<Rightarrow> m2 | projectionVersionGap \<Rightarrow> m3)
    (case d of projectionVersionApply \<Rightarrow> s1 | projectionVersionStale \<Rightarrow> s2 | projectionVersionGap \<Rightarrow> s3)"
  using assms by (cases d) simp_all

abbreviation database_callback ::
  "'w projection_database \<Rightarrow> ProjectionApply \<Rightarrow> ('w, RecordChange option \<times> bool) go" where
  "database_callback db \<equiv> apply_callback db (db_records db records_collection) (Some (db_readPointers db))
     (db_inbox db) (db_checkpoints db) (db_audit db)"

lemma refines_callback:
  assumes s: "serves db view"
  shows "refines view (database_callback db input) (database_callback memory_database input)"
proof -
  note parts = servesD(1-3) [OF s]
  have replace: "refines view (ReplaceG (db_records db n) k d l) (ReplaceG (db_records memory_database n) k d l)" for n k d l
    unfolding memory_database_parts by (rule refines_ReplaceG) (rule servesD(4) [OF s])
  have audit: "refines view (audit_InsertG (db_audit db) e) (audit_InsertG (db_audit memory_database) e)" for e
    unfolding memory_database_parts by (rule refines_audit) (rule servesD(5) [OF s])
  have checkpoint: "refines view (ReplaceG (db_checkpoints db) k d l) (ReplaceG (db_checkpoints memory_database) k d l)" for k d l
    unfolding memory_database_parts by (rule refines_ReplaceG) (rule parts)
  have writing: "refines view
      (write_projection db (db_records db records_collection) (Some (db_readPointers db)) (db_checkpoints db) (db_audit db) input)
      (write_projection memory_database (db_records memory_database records_collection)
         (Some (db_readPointers memory_database)) (db_checkpoints memory_database) (db_audit memory_database) input)"
    unfolding write_projection_def
    by (intro refines_resolve [OF s] refines_bindG replace checkpoint audit refines_ret)
  note writing' = writing [unfolded memory_database_parts]
  show ?thesis
    unfolding apply_callback_def Let_def memory_database_parts
    by (intro refine parts writing')
qed

section \<open>The specification\<close>

text \<open>What one application does to the abstract state: the change to publish and whether it found a gap.\<close>

definition current_version :: "checkpoint_key \<Rightarrow> ProjectionDB \<Rightarrow> int" where
  "current_version k v = (case v_checkpoints v k of None \<Rightarrow> 0 | Some c \<Rightarrow> cp_SourceVersion c)"

definition target_collection :: "ProjectionApply \<Rightarrow> ProjectionDB \<Rightarrow> string" where
  "target_collection input v =
     (case v_pointers v (rec_TenantID (pa_Record input), rec_WorkspaceID (pa_Record input),
              rec_TableID (pa_Record input), ProjectionReadPointerActive) of
        None \<Rightarrow> records_collection
      | Some p \<Rightarrow> rp_CollectionName p)"

definition settle_event :: "ProjectionApply \<Rightarrow> ProjectionDB \<Rightarrow> ProjectionDB" where
  "settle_event input v =
     v\<lparr>v_inbox := updated (v_inbox v) (event_key (pa_InboxEvent input)) is_processing
        (set_applied (cp_SyncedAt (pa_Checkpoint input)))\<rparr>"

definition applied_state :: "ProjectionApply \<Rightarrow> ProjectionDB \<Rightarrow> ProjectionDB" where
  "applied_state input v =
     (let n = target_collection input v; ck = projectionCheckpointFilter (pa_Checkpoint input)
      in (settle_event input v)
           \<lparr>v_records := (v_records v)(n := (v_records v n)(record_key (pa_Record input) \<mapsto> pa_Record input)),
            v_checkpoints := (v_checkpoints v)(ck \<mapsto> pa_Checkpoint input),
            v_audit := v_audit v @ [pa_Audit input]\<rparr>)"

definition apply_spec :: "ProjectionApply \<Rightarrow> (ProjectionDB, RecordChange option \<times> bool) go" where
  "apply_spec input v =
     (let ck = projectionCheckpointFilter (pa_Checkpoint input); version = cp_SourceVersion (pa_Checkpoint input)
      in case v_inbox v (event_key (pa_InboxEvent input)) of
           None \<Rightarrow> (Inl (ProjectionErr ErrInboxNotFound), v)
         | Some existing \<Rightarrow>
             if pe_PayloadHash existing \<noteq> pe_PayloadHash (pa_InboxEvent input)
             then (Inl (ProjectionErr ErrInboxPayloadConflict), v)
             else if pe_Status existing = InboxApplied then (Inl (ProjectionErr ErrProjectionAlreadyApplied), v)
             else if pe_Status existing \<noteq> InboxProcessing then (Inl (ProjectionErr ErrInboxStateConflict), v)
             else if version \<le> current_version ck v then (Inr (None, False), settle_event input v)
             else if version \<noteq> incr64 (current_version ck v)
             then (Inr (None, True), v\<lparr>v_checkpoints := updated (v_checkpoints v) ck (\<lambda>_. True) mark_gap\<rparr>)
             else if blank (target_collection input v)
             then (Inl (ProjectionErr ErrProjectionReadPointerUnavailable), v)
             else (Inr (Some (applied_change input), False), applied_state input v))"


lemma target_resolution:
  "\<not> blank (rec_TableID (pa_Record input)) \<Longrightarrow>
     activeRecordsCollection memory_database (db_records memory_database records_collection)
       (Some (db_readPointers memory_database)) (rec_TenantID (pa_Record input)) (rec_WorkspaceID (pa_Record input))
       (rec_TableID (pa_Record input)) v
     = (if blank (target_collection input v) then (Inl (ProjectionErr ErrProjectionReadPointerUnavailable), v)
        else (Inr (db_records memory_database (target_collection input v)), v))"
  by (auto simp: activeRecordsCollection_def target_collection_def go_simps memory_database_parts memory_calls
      records_collection_def trim_simps split: option.split)

lemma spec_callback:
  assumes "\<not> blank (rec_TableID (pa_Record input))"
  shows "memory_transaction (database_callback memory_database input) v = apply_spec input v"
proof -
  have target: "target_collection input (v\<lparr>v_inbox := x\<rparr>) = target_collection input v" for x
    by (simp add: target_collection_def)
  have writing: "write_projection memory_database (db_records memory_database records_collection)
      (Some (db_readPointers memory_database)) (db_checkpoints memory_database) (db_audit memory_database) input u
    = (if blank (target_collection input u) then (Inl (ProjectionErr ErrProjectionReadPointerUnavailable), u)
       else (Inr (Some (applied_change input), False),
         (put_checkpoints ((v_checkpoints u)(projectionCheckpointFilter (pa_Checkpoint input) \<mapsto> pa_Checkpoint input))
           (put_records (target_collection input u)
              ((get_records (target_collection input u) u)(record_key (pa_Record input) \<mapsto> pa_Record input)) u))
         \<lparr>v_audit := v_audit u @ [pa_Audit input]\<rparr>))" for u
    unfolding write_projection_def bindG_run target_resolution [OF assms]
    by (simp add: memory_database_parts memory_calls go_simps audit_InsertG_def memory_audit_def put_defs)
  show ?thesis
    unfolding apply_callback_def apply_spec_def memory_transaction_def Let_def classifyCheckpoint_def current_version_def
      writing [unfolded memory_database_parts] memory_database_parts applied_state_def settle_event_def
    by (auto simp: go_simps memory_calls projection_parts writing [unfolded memory_database_parts] target put_defs updated_def
        matching_def split: option.split)
qed

text \<open>What \<open>Apply\<close> makes of the transaction's result.\<close>

definition apply_answer :: "(goerr + RecordChange option \<times> bool) \<times> ProjectionDB \<Rightarrow> (goerr + unit) \<times> ProjectionDB" where
  "apply_answer x =
     (case x of
        (Inl err, v) \<Rightarrow> (if err = ProjectionErr ErrProjectionAlreadyApplied then Inr () else Inl err, v)
      | (Inr (change, gap), v) \<Rightarrow> (if gap then Inl (ProjectionErr ErrProjectionVersionGap) else Inr (), v))"

text \<open>The repository of a database, with or without a feed; a feed keeps nothing in the database.\<close>

definition live_repository ::
  "'w projection_database \<Rightarrow> (RecordChange \<Rightarrow> 'w \<Rightarrow> 'w) option \<Rightarrow> 'w MongoProjectionRepository" where
  "live_repository db feed =
     (case feed of None \<Rightarrow> NewMongoProjectionRepository (Some db)
      | Some f \<Rightarrow> WithFeed f (NewMongoProjectionRepository (Some db)))"

definition feed_apart :: "('w \<Rightarrow> ProjectionDB) \<Rightarrow> (RecordChange \<Rightarrow> 'w \<Rightarrow> 'w) option \<Rightarrow> bool" where
  "feed_apart view feed \<longleftrightarrow> (\<forall>publish c w. feed = Some publish \<longrightarrow> view (publish c w) = view w)"

lemma live_repository_fields [simp]:
  "pr_database (live_repository db feed) = Some db" "pr_inbox (live_repository db feed) = Some (db_inbox db)"
  "pr_records (live_repository db feed) = Some (db_records db records_collection)"
  "pr_readPointers (live_repository db feed) = Some (db_readPointers db)"
  "pr_checkpoints (live_repository db feed) = Some (db_checkpoints db)"
  "pr_audit (live_repository db feed) = Some (db_audit db)" "pr_feed (live_repository db feed) = feed"
  "pr_staging (live_repository db feed) = False" "pr_afterCommit (live_repository db feed) = None"
  by (simp_all add: live_repository_def NewMongoProjectionRepository_def WithFeed_def split: option.split)

lemma publish_change_view: "feed_apart view feed \<Longrightarrow> view (publish_change feed change w) = view w"
  by (cases change; cases feed) (simp_all add: publish_change_def feed_apart_def)

lemma valid_apply_table: "validateProjectionApply bson input = None \<Longrightarrow> \<not> blank (rec_TableID (pa_Record input))"
  unfolding validateProjectionApply_def by (auto simp: Record_Validate_None split: option.splits)

lemma library_error_is: "library_error e \<Longrightarrow> \<not> errors_is e (ProjectionErr x)"
  by (auto simp: library_error_def)

lemma apply_spec_errors:
  "apply_spec input v = (Inl e, v') \<Longrightarrow> v' = v \<and> (\<exists>p. e = ProjectionErr p \<and> p \<noteq> ErrProjectionVersionGap)"
  by (auto simp: apply_spec_def Let_def split: option.splits if_splits)

lemma Apply_serves:
  assumes s: "serves db view" and f: "feed_apart view feed" and v: "validateProjectionApply bson input = None"
    and run: "Apply bson (Some (live_repository db feed)) input w = (r, w')"
  shows "(r, view w') = apply_answer (apply_spec input (view w))
    \<or> (\<exists>e. r = Inl e \<and> library_error e \<and> (view w' = view w \<or> view w' = snd (apply_spec input (view w))))"
proof -
  obtain q w1 where session: "db_StartSession db w = (q, w1)" by force
  have w1: "view w1 = view w" using servesD(8) [OF s session] .
  obtain t w2 where tx: "db_WithTransaction db (database_callback db input) w1 = (t, w2)" by force
  note eff = refines_transaction [OF servesD(6) [OF s] refines_callback [OF s] tx,
      unfolded spec_callback [OF valid_apply_table [OF v]] w1]
  show ?thesis
  proof (cases q)
    case (Some m)
    with run session v w1 show ?thesis by (auto simp: Apply_def go_simps)
  next
    case None
    show ?thesis
    proof (cases t)
      case (Inl e)
      with run session None v tx have r: "w' = w2"
        "r = (if errors_is e (ProjectionErr ErrProjectionAlreadyApplied) then Inr () else Inl e)"
        by (auto simp: Apply_def go_simps split: if_splits)
      from eff show ?thesis
      proof (rule disjE)
        assume a: "(t, view w2) = apply_spec input (view w)"
        with Inl have "apply_spec input (view w) = (Inl e, view w2)" by simp
        from apply_spec_errors [OF this] obtain p where "e = ProjectionErr p" by blast
        with a Inl r show ?thesis by (auto simp: apply_answer_def split: prod.splits)
      next
        assume "\<exists>e. t = Inl e \<and> library_error e \<and> (view w2 = view w \<or> view w2 = snd (apply_spec input (view w)))"
        with Inl r library_error_is show ?thesis by auto
      qed
    next
      case (Inr c)
      obtain change gap where c: "c = (change, gap)" by force
      from run session None v tx Inr c have r: "w' = publish_change feed change w2"
        "r = (if gap then Inl (ProjectionErr ErrProjectionVersionGap) else Inr ())"
        by (auto simp: Apply_def go_simps split: if_splits)
      with eff Inr c f show ?thesis
        by (auto simp: apply_answer_def publish_change_view split: prod.splits)
    qed
  qed
qed

section \<open>Runs\<close>

text \<open>
  Any sequence of applications and of calls of the inbox, by any number of workers, with the
  inputs whose application was recorded, in order.
\<close>

inductive projection_run ::
  "(string \<Rightarrow> bool) \<Rightarrow> 'w projection_database \<Rightarrow> (RecordChange \<Rightarrow> 'w \<Rightarrow> 'w) option \<Rightarrow> ('w \<Rightarrow> ProjectionDB)
     \<Rightarrow> 'w \<Rightarrow> ProjectionApply list \<Rightarrow> 'w \<Rightarrow> bool" for bson db feed view w0 where
  start: "projection_run bson db feed view w0 [] w0"
| apply_event: "projection_run bson db feed view w0 log w \<Longrightarrow>
    Apply bson (Some (live_repository db feed)) input w = (r, w') \<Longrightarrow>
    projection_run bson db feed view w0 (log @ (if v_audit (view w') = v_audit (view w) then [] else [input])) w'"
| inbox_call: "projection_run bson db feed view w0 log w \<Longrightarrow> inbox_step (db_inbox db) w w' \<Longrightarrow>
    projection_run bson db feed view w0 log w'"

definition aggregate_of :: "ProjectionApply \<Rightarrow> checkpoint_key" where
  "aggregate_of input = projectionCheckpointFilter (pa_Checkpoint input)"

definition versions_of :: "checkpoint_key \<Rightarrow> ProjectionApply list \<Rightarrow> int list" where
  "versions_of k log = map (\<lambda>i. cp_SourceVersion (pa_Checkpoint i)) (filter (\<lambda>i. aggregate_of i = k) log)"

definition event_of :: "ProjectionApply \<Rightarrow> inbox_key" where
  "event_of input = event_key (pa_InboxEvent input)"

definition applied_event :: "inbox_key \<Rightarrow> ProjectionDB \<Rightarrow> bool" where
  "applied_event k v \<longleftrightarrow> (\<exists>e. v_inbox v k = Some e \<and> pe_Status e = InboxApplied)"

definition consistent :: "ProjectionApply list \<Rightarrow> ProjectionDB \<Rightarrow> bool" where
  "consistent log v \<longleftrightarrow>
     map pa_Audit log = v_audit v \<and> distinct (map event_of log) \<and> (\<forall>i \<in> set log. applied_event (event_of i) v)
     \<and> (\<forall>k. 0 \<le> current_version k v \<and> versions_of k log = [1..current_version k v])"

lemma consistent_versions: "consistent log v \<Longrightarrow> versions_of k log = [1..current_version k v] \<and> 0 \<le> current_version k v"
  unfolding consistent_def by blast

lemma applied_event_progress: "inbox_progress (v_inbox v k) (v_inbox v' k) \<Longrightarrow> applied_event k v \<Longrightarrow> applied_event k v'"
  by (auto simp: inbox_progress_def applied_event_def is_processing_def)

lemma consistent_inbox:
  assumes "consistent log v" "\<And>k. inbox_progress (v_inbox v k) (v_inbox v' k)"
    and "v_audit v' = v_audit v" "\<And>k. current_version k v' = current_version k v"
  shows "consistent log v'"
proof -
  have "applied_event k v \<Longrightarrow> applied_event k v'" for k using applied_event_progress assms(2) by blast
  with assms(1,3,4) show ?thesis unfolding consistent_def by simp
qed

lemma settle_progress: "cp_SyncedAt (pa_Checkpoint input) \<noteq> 0 \<Longrightarrow> inbox_progress (v_inbox v k) (v_inbox (settle_event input v) k)"
  by (simp add: settle_event_def inbox_progress_applied)

lemma gap_version:
  "current_version k (v\<lparr>v_checkpoints := updated (v_checkpoints v) ck P mark_gap\<rparr>) = current_version k v"
  using updated_cases [of "v_checkpoints v" ck P mark_gap k]
  by (auto simp: current_version_def mark_gap_def split: option.split)

text \<open>The specification either keeps the log or extends it with this input.\<close>

lemma apply_spec_consistent:
  assumes c: "consistent log v" and at: "cp_SyncedAt (pa_Checkpoint input) \<noteq> 0"
    and run: "apply_spec input v = (r, v')"
  shows "consistent (log @ (if v_audit v' = v_audit v then [] else [input])) v'"
proof -
  let ?ck = "aggregate_of input" and ?ver = "cp_SourceVersion (pa_Checkpoint input)" and ?k = "event_of input"
  consider (same) "v' = v" | (stale) "v' = settle_event input v"
    | (gap) "v' = v\<lparr>v_checkpoints := updated (v_checkpoints v) ?ck (\<lambda>_. True) mark_gap\<rparr>"
    | (applied) "v' = applied_state input v" "\<exists>e. v_inbox v ?k = Some e \<and> is_processing e"
        "?ver = incr64 (current_version ?ck v)" "current_version ?ck v < ?ver"
    using run by (auto simp: apply_spec_def Let_def event_of_def aggregate_of_def is_processing_def split: option.splits if_splits)
  then show ?thesis
  proof cases
    case same
    with c show ?thesis by simp
  next
    case stale
    have "consistent log v'"
      by (rule consistent_inbox [OF c])
         (simp_all add: stale settle_progress at, simp_all add: settle_event_def current_version_def)
    with stale show ?thesis by (simp add: settle_event_def)
  next
    case gap
    have "consistent log v'" by (rule consistent_inbox [OF c]) (simp_all add: gap gap_version)
    with gap show ?thesis by simp
  next
    case applied
    have audit: "v_audit v' = v_audit v @ [pa_Audit input]" and inbox: "v_inbox v' = v_inbox (settle_event input v)"
      and cur: "current_version k v' = (if k = ?ck then ?ver else current_version k v)" for k
      by (simp_all add: applied(1) applied_state_def Let_def settle_event_def current_version_def aggregate_of_def)
    obtain e where e: "v_inbox v ?k = Some e" "is_processing e" using applied(2) by blast
    have now: "applied_event ?k v'"
      using e by (simp add: inbox settle_event_def applied_event_def updated_def matching_def event_of_def set_applied_def)
    have old: "applied_event k v \<Longrightarrow> applied_event k v'" for k
      by (rule applied_event_progress) (simp_all add: inbox settle_progress at)
    have "\<not> applied_event ?k v" using e by (auto simp: applied_event_def is_processing_def)
    with c have new: "?k \<notin> event_of ` set log" by (auto simp: consistent_def)
    have step: "?ver = current_version ?ck v + 1" using applied(3,4) by (auto simp: incr64_def split: if_splits)
    have versions: "versions_of k (log @ [input]) = [1..current_version k v']" for k
    proof (cases "k = ?ck")
      case True
      then have "versions_of k (log @ [input]) = versions_of k log @ [?ver]" by (simp add: versions_of_def)
      with consistent_versions [OF c, of k] step True show ?thesis by (simp add: cur upto_rec2)
    next
      case False
      then have "versions_of k (log @ [input]) = versions_of k log" by (simp add: versions_of_def)
      with consistent_versions [OF c, of k] False show ?thesis by (simp add: cur)
    qed
    have "0 \<le> current_version k v'" for k using consistent_versions [OF c, of k] consistent_versions [OF c, of ?ck] step by (simp add: cur)
    with c now old new versions show ?thesis unfolding consistent_def audit by simp
  qed
qed

lemma live_checkpoint_time: "validateProjectionApply bson input = None \<Longrightarrow> cp_SyncedAt (pa_Checkpoint input) \<noteq> 0"
  unfolding validateProjectionApply_def ProjectionCheckpoint_Validate_def IsZero_def
  by (auto split: option.splits if_splits)

lemma Apply_consistent:
  assumes s: "serves db view" and f: "feed_apart view feed" and c: "consistent log (view w)"
    and run: "Apply bson (Some (live_repository db feed)) input w = (r, w')"
  shows "consistent (log @ (if v_audit (view w') = v_audit (view w) then [] else [input])) (view w')"
proof (cases "validateProjectionApply bson input")
  case (Some e)
  with run c show ?thesis by (simp add: Apply_def go_simps)
next
  case None
  note spec = apply_spec_consistent [OF c live_checkpoint_time [OF None] prod.collapse [symmetric]]
  have "snd (apply_answer x) = snd x" for x by (auto simp: apply_answer_def split: prod.split sum.split)
  then have "view w' = view w \<or> view w' = snd (apply_spec input (view w))"
    using Apply_serves [OF s f None run] by (metis snd_conv)
  with c spec show ?thesis by auto
qed

lemma inbox_step_view:
  assumes s: "serves db view" and i: "inbox_step (db_inbox db) w w'"
  shows "inbox_progress (v_inbox (view w) k) (v_inbox (view w') k)" "view w' = put_inbox (v_inbox (view w')) (view w)"
proof -
  note r = servesD(1) [OF s]
  note c = r [unfolded realises_def, THEN conjunct2]
  show "inbox_progress (v_inbox (view w) k) (v_inbox (view w') k)" by (rule inbox_step_progress [OF c i])
  show "view w' = put_inbox (v_inbox (view w')) (view w)" by (rule realises_view [OF r inbox_step_frame [OF c i]])
qed

lemma projection_run_consistent:
  assumes s: "serves db view" and f: "feed_apart view feed" and run: "projection_run bson db feed view w0 log w"
    and start: "consistent [] (view w0)"
  shows "consistent log (view w)"
  using run
proof induction
  case start
  show ?case by fact
next
  case (apply_event log w input r w')
  then show ?case using Apply_consistent [OF s f] by blast
next
  case (inbox_call log w w')
  note v = inbox_step_view [OF s inbox_call.hyps(2)]
  show ?case
    by (rule consistent_inbox [OF inbox_call.IH v(1)]) (subst v(2), simp add: put_inbox_def current_version_def)+
qed

lemma apply_spec_progress:
  assumes "cp_SyncedAt (pa_Checkpoint input) \<noteq> 0" "apply_spec input v = (r, v')"
  shows "inbox_progress (v_inbox v k) (v_inbox v' k)"
  using assms settle_progress [OF assms(1), of v k]
  by (auto simp: apply_spec_def applied_state_def Let_def split: option.splits if_splits)

lemma projection_run_inbox:
  assumes s: "serves db view" and f: "feed_apart view feed" and run: "projection_run bson db feed view w0 log w"
    and e: "v_inbox (view w0) k = Some e" "pe_Status e = InboxApplied"
  shows "v_inbox (view w) k = Some e"
  using run
proof induction
  case start
  show ?case by fact
next
  case (apply_event log w input r w')
  show ?case
  proof (cases "validateProjectionApply bson input")
    case (Some x)
    with apply_event show ?thesis by (simp add: Apply_def go_simps)
  next
    case None
    have "snd (apply_answer x) = snd x" for x by (auto simp: apply_answer_def split: prod.split sum.split)
    then have "view w' = view w \<or> view w' = snd (apply_spec input (view w))"
      using Apply_serves [OF s f None apply_event.hyps(2)] by (metis snd_conv)
    then have "inbox_progress (v_inbox (view w) k) (v_inbox (view w') k)"
      using apply_spec_progress [OF live_checkpoint_time [OF None] prod.collapse [symmetric], where k = k and v = "view w"]
      by (elim disjE) simp_all
    with apply_event.IH e(2) show ?thesis by (auto simp: inbox_progress_def is_processing_def)
  qed
next
  case (inbox_call log w w')
  with inbox_step_view(1) [OF s inbox_call.hyps(2), of k] e(2) show ?case
    by (auto simp: inbox_progress_def is_processing_def)
qed

lemma staging_name: "stagingRecordsCollectionName op \<noteq> records_collection"
  by (simp add: stagingRecordsCollectionName_def records_collection_def staging_prefix_def)

lemma applyStaging_view:
  assumes s: "serves db view" and run: "applyStaging bson (db_records db n) input w = (r, w')"
  shows "(r, view w') = applyStaging bson (db_records memory_database n) input (view w) \<or> (\<exists>e. r = Inl e \<and> library_error e \<and> view w' = view w)"
proof -
  note rec = servesD(4) [OF s, of n, unfolded memory_database_parts]
  have "refines view (applyStaging bson (db_records db n) input) (applyStaging bson (db_records memory_database n) input)"
    unfolding applyStaging_def memory_database_parts by (intro refine rec)
  with run have eff: "(\<exists>e. r = Inl e \<and> library_error e) \<or> (r, view w') = applyStaging bson (db_records memory_database n) input (view w)"
    by (simp add: refines_def)
  have "view w' = view w" if "r = Inl e" for e
  proof -
    note c = rec [unfolded realises_def, THEN conjunct2]
    obtain q w1 where f: "c_FindOne (db_records db n) (record_key (pa_Record input)) w = (q, w1)" by force
    from FindOne_law(1,2) [OF c f] realises_view [OF rec FindOne_law(2) [OF c f]] rec
    have w1: "view w1 = view w" by (simp add: realises_def part_def)
    obtain q2 w2 where g: "c_ReplaceOne (db_records db n) (record_key (pa_Record input)) (pa_Record input) w1 = (q2, w2)" by force
    note law = ReplaceOne_law [OF c g]
    have "view w2 = view w1" if "q2 = Some m" for m
      using realises_view [OF rec law(1)] law(3) [OF that] rec by (simp add: realises_def part_def)
    with run that f g w1 show ?thesis
      by (cases q) (auto simp: applyStaging_def go_simps FindG_def ReplaceG_def checkG_def ret_def fail_def
          split: option.splits if_splits)
  qed
  with eff show ?thesis by blast
qed

section \<open>Properties\<close>

text \<open>
  C35: applying events is exactly-once and in order. Start from no checkpoints and no audit
  entries and let any number of workers claim, mark and apply events in any interleaving, with
  any failure of the database between and in the calls: no event of a consumer is recorded
  twice, the audit log has exactly the recorded applications in order, and the versions
  recorded of each aggregate are 1, 2, ... up to its checkpoint, with no gap and no repetition.
\<close>

theorem projection_in_order:
  assumes "serves db view" "feed_apart view feed" "v_checkpoints (view w0) = Map.empty" "v_audit (view w0) = []"
    and "projection_run bson db feed view w0 log w"
  shows "distinct (map event_of log) \<and> v_audit (view w) = map pa_Audit log
    \<and> (\<forall>k. versions_of k log = [1..current_version k (view w)])"
proof -
  have "consistent [] (view w0)"
    using assms(3,4) by (simp add: consistent_def versions_of_def current_version_def)
  from projection_run_consistent [OF assms(1,2,5) this] show ?thesis
    unfolding consistent_def by (metis (no_types))
qed

definition sample_record :: Record where
  "sample_record =
     \<lparr>rec_ID = ''r1'', rec_TenantID = ''t'', rec_WorkspaceID = ''w'', rec_TableID = ''tenders'', rec_SchemaID = ''s'',
      rec_SchemaVersion = 1, rec_Source = None, rec_RecordVersion = 1, rec_Tags = [], rec_Data = ''{}'',
      rec_Relations = [], rec_Projection = Some \<lparr>ps_LastEventID = ''e1'', ps_SyncedAt = 7, ps_Status = ''CURRENT''\<rparr>,
      rec_CreatedBy = \<lparr>ik_Issuer = ''i'', ik_Subject = ''s''\<rparr>, rec_UpdatedBy = \<lparr>ik_Issuer = ''i'', ik_Subject = ''s''\<rparr>,
      rec_CreatedAt = 7, rec_UpdatedAt = 7\<rparr>"

definition sample_apply :: ProjectionApply where
  "sample_apply =
     \<lparr>pa_InboxEvent = sample_entry, pa_Record = sample_record,
      pa_Checkpoint = \<lparr>cp_TenantID = ''t'', cp_WorkspaceID = ''w'', cp_Consumer = ''hub'', cp_SourceSystem = ''bids'',
        cp_AggregateType = ''tender'', cp_AggregateID = ''1'', cp_SourceVersion = 1, cp_LastEventID = ''e1'',
        cp_SyncedAt = 7, cp_Status = CheckpointCurrent\<rparr>,
      pa_Audit = empty_AuditEntry\<lparr>ae_TenantID := ''t'', ae_WorkspaceID := ''w'', ae_Action := ''apply'',
        ae_Actor := \<lparr>ik_Issuer = ''i'', ik_Subject = ''s''\<rparr>, ae_ResourceType := ''record'', ae_ResourceID := ''r1'',
        ae_CreatedAt := 7\<rparr>\<rparr>"

definition sample_db :: "(inbox_key \<rightharpoonup> InboxEvent) \<Rightarrow> ProjectionDB" where
  "sample_db inbox = \<lparr>v_inbox = inbox, v_checkpoints = Map.empty, v_records = (\<lambda>_. Map.empty), v_pointers = Map.empty, v_audit = []\<rparr>"

lemma sample_key: "event_key sample_entry = (''e1'', ''hub'')"
  by (simp add: event_key_def sample_entry_def)

lemma sample_record_valid: "Record_Validate (\<lambda>_. True) sample_record = None"
  unfolding Record_Validate_None by (simp add: sample_record_def trim_simps unset_identity_def IsZero_def)

lemma sample_apply_valid: "validateProjectionApply (\<lambda>_. True) sample_apply = None"
proof -
  have "ProjectionCheckpoint_Validate (pa_Checkpoint sample_apply) = None"
    by (simp add: ProjectionCheckpoint_Validate_def sample_apply_def trim_simps IsZero_def)
  moreover have "apply_identities_match sample_apply"
    by (simp add: apply_identities_match_def sample_apply_def sample_record_def sample_entry_def empty_AuditEntry_def)
  ultimately show ?thesis
    using sample_record_valid sample_entry_valid
    by (simp add: validateProjectionApply_def sample_apply_def sample_record_def empty_AuditEntry_def IsZero_def)
qed

lemma sample_applied:
  "\<exists>v'. Apply (\<lambda>_. True) (Some (live_repository memory_database None)) sample_apply (sample_db [(''e1'', ''hub'') \<mapsto> sample_entry])
     = (Inr (), v') \<and> v_audit v' = [pa_Audit sample_apply] \<and> current_version (aggregate_of sample_apply) v' = 1
     \<and> v_inbox v' (''e1'', ''hub'') = Some (set_applied 7 sample_entry)"
proof -
  let ?v = "sample_db [(''e1'', ''hub'') \<mapsto> sample_entry]"
  have parts: "pa_InboxEvent sample_apply = sample_entry" "cp_SourceVersion (pa_Checkpoint sample_apply) = 1"
    "cp_SyncedAt (pa_Checkpoint sample_apply) = 7" by (simp_all add: sample_apply_def)
  have target: "target_collection sample_apply ?v = records_collection"
    by (simp add: target_collection_def sample_db_def)
  have "apply_spec sample_apply ?v = (Inr (Some (applied_change sample_apply), False), applied_state sample_apply ?v)"
    unfolding apply_spec_def Let_def parts sample_key target
    by (simp add: sample_db_def sample_entry_def current_version_def incr64_def records_collection_def trim_simps)
  then have tx: "memory_transaction (database_callback memory_database sample_apply) ?v
      = (Inr (Some (applied_change sample_apply), False), applied_state sample_apply ?v)"
    using spec_callback valid_apply_table [OF sample_apply_valid] by simp
  have "Apply (\<lambda>_. True) (Some (live_repository memory_database None)) sample_apply ?v = (Inr (), applied_state sample_apply ?v)"
    using tx by (simp add: Apply_def sample_apply_valid go_simps memory_database_parts publish_change_def)
  then show ?thesis
    by (simp add: applied_state_def settle_event_def Let_def current_version_def aggregate_of_def parts sample_key
        updated_def matching_def, simp add: sample_db_def is_processing_def sample_entry_def)
qed

theorem projection_in_order_witness:
  "\<exists>v'. projection_run (\<lambda>_. True) memory_database None (\<lambda>v. v) (sample_db [(''e1'', ''hub'') \<mapsto> sample_entry]) [sample_apply] v'
     \<and> v_audit v' = [pa_Audit sample_apply] \<and> versions_of (aggregate_of sample_apply) [sample_apply] = [1]"
proof -
  let ?v = "sample_db [(''e1'', ''hub'') \<mapsto> sample_entry]"
  obtain v' where a: "Apply (\<lambda>_. True) (Some (live_repository memory_database None)) sample_apply ?v = (Inr (), v')"
    "v_audit v' = [pa_Audit sample_apply]" "current_version (aggregate_of sample_apply) v' = 1"
    using sample_applied by blast
  have v: "v_audit ?v = []" "v_checkpoints ?v = Map.empty" by (simp_all add: sample_db_def)
  from projection_run.apply_event [where view = "\<lambda>v. v", OF projection_run.start a(1)] a(2) v
  have run: "projection_run (\<lambda>_. True) memory_database None (\<lambda>v. v) ?v [sample_apply] v'" by simp
  have "feed_apart (\<lambda>v. v) None" by (simp add: feed_apart_def)
  from projection_in_order [OF memory_database_serves this v(2,1) run]
  have "versions_of (aggregate_of sample_apply) [sample_apply] = [1..current_version (aggregate_of sample_apply) v']" by blast
  then have "versions_of (aggregate_of sample_apply) [sample_apply] = [1]" unfolding a(3) by simp
  with run a(2) show ?thesis by blast
qed

text \<open>
  C36: Apply is atomic. On any database that serves the abstract state, a valid application
  answers and changes it exactly as the specification does in one step, or fails with an error
  of the database or the driver, and then with the whole effect of the specification or none.
\<close>

theorem Apply_atomic:
  assumes "serves db view" "feed_apart view feed" "validateProjectionApply bson input = None"
    and "Apply bson (Some (live_repository db feed)) input w = (r, w')"
  shows "(r, view w') = apply_answer (apply_spec input (view w))
    \<or> (\<exists>e. r = Inl e \<and> library_error e \<and> (view w' = view w \<or> view w' = snd (apply_spec input (view w))))"
  by (rule Apply_serves [OF assms])

theorem Apply_atomic_witness:
  "\<exists>v'. v_inbox v' (''e1'', ''hub'') = Some (set_applied 7 sample_entry)
     \<and> (Inr (), v') = apply_answer (apply_spec sample_apply (sample_db [(''e1'', ''hub'') \<mapsto> sample_entry]))"
proof -
  obtain v' where a: "Apply (\<lambda>_. True) (Some (live_repository memory_database None)) sample_apply (sample_db [(''e1'', ''hub'') \<mapsto> sample_entry]) = (Inr (), v')"
    "v_inbox v' (''e1'', ''hub'') = Some (set_applied 7 sample_entry)" using sample_applied by blast
  from Apply_atomic [OF memory_database_serves _ sample_apply_valid a(1)] a(2) show ?thesis
    by (auto simp: feed_apart_def)
qed

text \<open>
  Redelivery is harmless. Once the inbox entry of an event is APPLIED, whatever runs after
  that, applying the event again with the same payload changes nothing and reports success,
  unless the database itself fails.
\<close>

theorem Apply_redelivery:
  assumes "serves db view" "feed_apart view feed" "projection_run bson db feed view w0 log w"
    and "v_inbox (view w0) (event_of input) = Some e" "pe_Status e = InboxApplied"
    and "pe_PayloadHash e = pe_PayloadHash (pa_InboxEvent input)" "validateProjectionApply bson input = None"
    and "Apply bson (Some (live_repository db feed)) input w = (r, w')"
  shows "view w' = view w \<and> (case r of Inr _ \<Rightarrow> True | Inl err \<Rightarrow> library_error err)"
proof -
  have "v_inbox (view w) (event_key (pa_InboxEvent input)) = Some e"
    using projection_run_inbox [OF assms(1-5)] by (simp add: event_of_def)
  then have "apply_spec input (view w) = (Inl (ProjectionErr ErrProjectionAlreadyApplied), view w)"
    using assms(5,6) by (simp add: apply_spec_def)
  with Apply_serves [OF assms(1,2,7,8)] show ?thesis
    by (auto simp: apply_answer_def)
qed

theorem Apply_redelivery_witness:
  "snd (Apply (\<lambda>_. True) (Some (live_repository memory_database None)) sample_apply
      (sample_db [(''e1'', ''hub'') \<mapsto> set_applied 7 sample_entry])) = sample_db [(''e1'', ''hub'') \<mapsto> set_applied 7 sample_entry]"
proof -
  let ?v = "sample_db [(''e1'', ''hub'') \<mapsto> set_applied 7 sample_entry]"
  have e: "v_inbox ?v (event_of sample_apply) = Some (set_applied 7 sample_entry)"
    by (simp add: sample_db_def event_of_def sample_apply_def event_key_def sample_entry_def)
  have h: "pe_PayloadHash (set_applied 7 sample_entry) = pe_PayloadHash (pa_InboxEvent sample_apply)"
    "pe_Status (set_applied 7 sample_entry) = InboxApplied" by (simp_all add: set_applied_def sample_apply_def)
  have f: "feed_apart (\<lambda>v. v) None" by (simp add: feed_apart_def)
  have run: "projection_run (\<lambda>_. True) memory_database None (\<lambda>v. v) ?v [] ?v" by (rule projection_run.start)
  obtain r v' where a: "Apply (\<lambda>_. True) (Some (live_repository memory_database None)) sample_apply ?v = (r, v')"
    by (rule prod.exhaust)
  have "v' = ?v"
    using Apply_redelivery [where view = "\<lambda>v. v", OF memory_database_serves f run e h(2,1) sample_apply_valid a] by (rule conjunct1)
  with a show ?thesis by (simp only: snd_conv)
qed

text \<open>
  A staging repository is isolated. Applying an event through it changes nothing but the
  staged collection of its operation, which is never the live one; a staged record is never
  replaced by an older version, and after a success its version is at least the event's.
\<close>

theorem staging_isolated:
  assumes "serves db view"
    and "Apply bson (Some (WithStaging op (live_repository db feed))) input w = (r, w')"
  shows "\<exists>staged. view w' = (view w)\<lparr>v_records := (v_records (view w))(stagingRecordsCollectionName op := staged)\<rparr>
    \<and> v_records (view w') records_collection = v_records (view w) records_collection
    \<and> (case v_records (view w) (stagingRecordsCollectionName op) (record_key (pa_Record input)) of None \<Rightarrow> True
       | Some old \<Rightarrow> \<exists>new. staged (record_key (pa_Record input)) = Some new \<and> rec_RecordVersion old \<le> rec_RecordVersion new)
    \<and> (case r of Inl _ \<Rightarrow> True
       | Inr _ \<Rightarrow> \<exists>new. staged (record_key (pa_Record input)) = Some new \<and> rec_RecordVersion (pa_Record input) \<le> rec_RecordVersion new)"
proof -
  let ?n = "stagingRecordsCollectionName op"
  have same: "view w = (view w)\<lparr>v_records := (v_records (view w))(?n := v_records (view w) ?n)\<rparr>" by simp
  show ?thesis
  proof (cases "validateProjectionApply bson input")
    case (Some e)
    with assms(2) have "w' = w" "r = Inl e" by (simp_all add: Apply_def go_simps)
    with same show ?thesis by (intro exI [of _ "v_records (view w) ?n"]) (auto split: option.split)
  next
    case None
    with assms(2) have "applyStaging bson (db_records db ?n) input w = (r, w')"
      by (simp add: Apply_def go_simps WithStaging_def)
    from applyStaging_view [OF assms(1) this] show ?thesis
    proof (elim disjE)
      assume "\<exists>e. r = Inl e \<and> library_error e \<and> view w' = view w"
      with same show ?thesis by (intro exI [of _ "v_records (view w) ?n"]) (auto split: option.split)
    next
      assume "(r, view w') = applyStaging bson (db_records memory_database ?n) input (view w)"
      with None same staging_name [of op] show ?thesis
        by (intro exI [of _ "v_records (view w') ?n"])
           (auto simp: applyStaging_def go_simps memory_database_parts memory_calls put_defs split: option.splits if_splits)
    qed
  qed
qed

theorem staging_isolated_witness:
  "v_records (snd (Apply (\<lambda>_. True) (Some (WithStaging ''op1'' (live_repository memory_database None))) sample_apply
      (sample_db Map.empty))) records_collection = Map.empty"
  using staging_isolated [OF memory_database_serves prod.collapse [symmetric], of "\<lambda>_. True" "''op1''" None sample_apply "sample_db Map.empty"]
  by (elim exE conjE) (simp only: sample_db_def ProjectionDB.simps)

end
