(* ===== verification/Patterns.thy ===== *)
theory Patterns
  imports GoPrelude
begin

text \<open>
  Regular expressions that several packages compile, as predicates on strings:
  \<open>^[a-z][a-z0-9.-]{0,n}$\<close> (\<open>dotted_name n\<close>) for identifiers and \<open>^sha256:[a-f0-9]{64}$\<close> for
  digests. \<open>$\<close> without the flag \<open>m\<close> is the end of the text. A string of these forms is
  unchanged by \<open>strings.TrimSpace\<close> and \<open>strings.ToLower\<close>, which is why normalising twice is
  normalising once.
\<close>

definition name_char :: "char \<Rightarrow> bool" where
  "name_char c \<longleftrightarrow> (CHR ''a'' \<le> c \<and> c \<le> CHR ''z'') \<or> (CHR ''0'' \<le> c \<and> c \<le> CHR ''9'') \<or> c = CHR ''.'' \<or> c = CHR ''-''"

definition dotted_name :: "nat \<Rightarrow> string \<Rightarrow> bool" where
  "dotted_name n s =
     (case s of [] \<Rightarrow> False | c # r \<Rightarrow> CHR ''a'' \<le> c \<and> c \<le> CHR ''z'' \<and> list_all name_char r \<and> length r \<le> n)"

definition lower_hex :: "char \<Rightarrow> bool" where
  "lower_hex c \<longleftrightarrow> (CHR ''a'' \<le> c \<and> c \<le> CHR ''f'') \<or> (CHR ''0'' \<le> c \<and> c \<le> CHR ''9'')"

definition digest_pattern :: "string \<Rightarrow> bool" where
  "digest_pattern s = (case strip_prefix ''sha256:'' s of None \<Rightarrow> False | Some h \<Rightarrow> length h = 64 \<and> list_all lower_hex h)"

text \<open>Characters that the two string functions keep, and that are no white space.\<close>

definition plain_char :: "char \<Rightarrow> bool" where
  "plain_char c \<longleftrightarrow> name_char c \<or> c = CHR '':'' \<or> c = CHR ''_''"

lemma plain_char_edge: "plain_char c \<Longrightarrow> edge_char c"
  unfolding plain_char_def name_char_def edge_char_code by (auto simp: less_eq_char_def)

lemma plain_char_lower: "plain_char c \<Longrightarrow> lower_char c = c \<and> c \<noteq> CHR 0xC4 \<and> c \<noteq> CHR 0xE2"
  unfolding plain_char_def name_char_def lower_char_def by (auto simp: less_eq_char_def)

lemma ToLower_plain: "list_all plain_char s \<Longrightarrow> ToLower s = s"
  by (induction s) (auto dest: plain_char_lower)

lemma TrimSpace_plain: "list_all plain_char s \<Longrightarrow> TrimSpace s = s"
  by (cases "s = []") (auto intro!: TrimSpace_edge plain_char_edge simp: list_all_iff)

lemma dotted_name_plain: "dotted_name n s \<Longrightarrow> list_all plain_char s \<and> s \<noteq> [] \<and> length s \<le> Suc n"
  by (cases s) (auto simp: dotted_name_def plain_char_def name_char_def list_all_iff)

lemma dotted_name_fixed: "dotted_name n s \<Longrightarrow> TrimSpace s = s \<and> ToLower s = s"
  using dotted_name_plain TrimSpace_plain ToLower_plain by blast

lemma digest_pattern_plain: "digest_pattern s \<Longrightarrow> list_all plain_char s"
proof -
  assume "digest_pattern s"
  then obtain h where "s = ''sha256:'' @ h" "list_all lower_hex h"
    by (auto simp: digest_pattern_def strip_prefix_Some split: option.splits)
  moreover have "lower_hex c \<Longrightarrow> plain_char c" for c
    unfolding lower_hex_def plain_char_def name_char_def by (auto simp: less_eq_char_def)
  ultimately show ?thesis by (auto simp: list_all_iff plain_char_def name_char_def less_eq_char_def)
qed

lemma digest_pattern_fixed: "digest_pattern s \<Longrightarrow> TrimSpace s = s \<and> ToLower s = s"
  using digest_pattern_plain TrimSpace_plain ToLower_plain by blast

end
