(* ===== verification/Connector.thy ===== *)
theory Connector
  imports Canonical Patterns "HOL-Library.Product_Lexorder"
begin

text \<open>
  \<open>connector/registry.go\<close>: manifests of connectors and the registry that resolves them. A
  registry is the association list of its entries, in the order of their registration; the
  order of a Go map is open, and \<open>Snapshot\<close> sorts it away. Every method holds the mutex, so it
  is one step. Slices are values here: \<open>normalized\<close> also writes the trimmed fields back into
  the caller's array, which no caller reads afterwards.
\<close>

section \<open>Keys and versions\<close>

datatype ConnectorStatus =
    ConnectorUnset | StatusDraft | StatusInReview | StatusApproved | StatusEnabled | StatusDisabled
  | StatusRejected | StatusDeprecated | OtherConnectorStatus string

record ConnectorKey =
  ck_Connector :: string
  ck_Event :: string
  ck_SchemaVersion :: int

definition namePattern :: "string \<Rightarrow> bool" where
  "namePattern s = dotted_name 63 s"

definition hashPattern :: "string \<Rightarrow> bool" where
  "hashPattern s = digest_pattern s"

definition versionPattern :: "string \<Rightarrow> bool" where
  "versionPattern s =
     (case SplitOn (CHR ''.'') s of
        [a, b, c] \<Rightarrow> a \<noteq> [] \<and> b \<noteq> [] \<and> c \<noteq> [] \<and> list_all is_digit (a @ b @ c)
      | _ \<Rightarrow> False)"

definition invalid_manifest :: "string \<Rightarrow> goerr" where
  "invalid_manifest m = Wrap m (ConnectorErr ErrInvalidManifest)"

definition Key_normalized :: "ConnectorKey \<Rightarrow> goerr + ConnectorKey" where
  "Key_normalized k =
     (let key = k\<lparr>ck_Connector := ToLower (TrimSpace (ck_Connector k)), ck_Event := ToLower (TrimSpace (ck_Event k))\<rparr>
      in if \<not> namePattern (ck_Connector key) \<or> \<not> namePattern (ck_Event key) \<or> ck_SchemaVersion key < 1
         then Inl (invalid_manifest ''connector, event, and positive schemaVersion are required'')
         else Inr key)"

record Version =
  vn_Major :: int
  vn_Minor :: int
  vn_Patch :: int

definition ParseVersion :: "string \<Rightarrow> goerr + Version" where
  "ParseVersion raw0 =
     (let raw = TrimSpace raw0; parts = SplitOn (CHR ''.'') raw
      in if \<not> versionPattern raw then Inl (invalid_manifest ''SDK version must be strict x.y.z'')
         else case (Atoi (parts ! 0), Atoi (parts ! 1), Atoi (parts ! 2)) of
           (Some major, Some minor, Some patch) \<Rightarrow> Inr \<lparr>vn_Major = major, vn_Minor = minor, vn_Patch = patch\<rparr>
         | _ \<Rightarrow> Inl (invalid_manifest ''SDK version is out of range''))"

definition version_compare :: "Version \<Rightarrow> Version \<Rightarrow> int" where
  "version_compare version other =
     (if vn_Major version \<noteq> vn_Major other then (if vn_Major version < vn_Major other then -1 else 1)
      else if vn_Minor version \<noteq> vn_Minor other then (if vn_Minor version < vn_Minor other then -1 else 1)
      else if vn_Patch version < vn_Patch other then -1
      else if vn_Patch version > vn_Patch other then 1
      else 0)"

text \<open>\<open>version, _ := ParseVersion(raw)\<close>: the zero value where the text does not parse.\<close>

definition version_or_zero :: "string \<Rightarrow> Version" where
  "version_or_zero raw = (case ParseVersion raw of Inl _ \<Rightarrow> \<lparr>vn_Major = 0, vn_Minor = 0, vn_Patch = 0\<rparr> | Inr v \<Rightarrow> v)"

section \<open>Manifests\<close>

record Manifest =
  mf_Key :: ConnectorKey
  mf_OwnerSystem :: string
  mf_SDKVersion :: string
  mf_CompatibilityMin :: string
  mf_CompatibilityMax :: string
  mf_ContractHash :: string
  mf_AllowedFields :: "string list"
  mf_FixtureDigest :: string
  mf_RedactionPolicyDigest :: string
  mf_SourceCommit :: string
  mf_Status :: ConnectorStatus
  mf_Revision :: int

fun normalize_fields :: "string list \<Rightarrow> string list \<Rightarrow> goerr + string list" where
  "normalize_fields seen [] = Inr []"
| "normalize_fields seen (f # fs) =
     (let field = TrimSpace f
      in if \<not> namePattern field then Inl (invalid_manifest ''allowedFields is invalid'')
         else if field \<in> set seen then Inl (invalid_manifest ''duplicate allowed field'')
         else case normalize_fields (field # seen) fs of Inl e \<Rightarrow> Inl e | Inr r \<Rightarrow> Inr (field # r))"

definition draft_default :: "ConnectorStatus \<Rightarrow> ConnectorStatus" where
  "draft_default s = (if s = ConnectorUnset then StatusDraft else s)"

definition Manifest_normalized :: "Manifest \<Rightarrow> goerr + Manifest" where
  "Manifest_normalized manifest =
     (case Key_normalized (mf_Key manifest) of
        Inl err \<Rightarrow> Inl err
      | Inr key \<Rightarrow>
     (let owner = ToLower (TrimSpace (mf_OwnerSystem manifest)); hash = ToLower (TrimSpace (mf_ContractHash manifest))
      in if \<not> namePattern owner then Inl (invalid_manifest ''ownerSystem is invalid'')
         else case (ParseVersion (mf_SDKVersion manifest), ParseVersion (mf_CompatibilityMin manifest),
                    ParseVersion (mf_CompatibilityMax manifest)) of
           (Inl err, _, _) \<Rightarrow> Inl err
         | (_, Inl err, _) \<Rightarrow> Inl err
         | (_, _, Inl err) \<Rightarrow> Inl err
         | (Inr _, Inr minimum, Inr maximum) \<Rightarrow>
             if version_compare minimum maximum > 0 then Inl (invalid_manifest ''compatibility window is inverted'')
             else if \<not> hashPattern hash then Inl (invalid_manifest ''contractHash must be a sha256 digest'')
             else case normalize_fields [] (mf_AllowedFields manifest) of
               Inl err \<Rightarrow> Inl err
             | Inr allowed \<Rightarrow>
                 if allowed = [] then Inl (invalid_manifest ''allowedFields cannot be empty'')
                 else if (case draft_default (mf_Status manifest) of OtherConnectorStatus _ \<Rightarrow> True | _ \<Rightarrow> False)
                 then Inl (invalid_manifest ''unknown status'')
                 else if mf_Revision manifest < 0 then Inl (invalid_manifest ''revision cannot be negative'')
                 else Inr (manifest\<lparr>mf_Key := key, mf_OwnerSystem := owner, mf_ContractHash := hash,
                             mf_AllowedFields := allowed, mf_Status := draft_default (mf_Status manifest)\<rparr>)))"

section \<open>The registry\<close>

type_synonym Registry = "(ConnectorKey \<times> Manifest) list"

definition Registry_Register :: "Manifest \<Rightarrow> Registry \<Rightarrow> goerr option \<times> Registry" where
  "Registry_Register manifest entries =
     (case Manifest_normalized manifest of
        Inl err \<Rightarrow> (Some err, entries)
      | Inr m \<Rightarrow>
          (let stored = m\<lparr>mf_Status := StatusDraft, mf_Revision := (if mf_Revision m = 0 then 1 else mf_Revision m)\<rparr>
           in case map_of entries (mf_Key m) of
                Some _ \<Rightarrow> (Some (ConnectorErr ErrConnectorExists), entries)
              | None \<Rightarrow> (None, entries @ [(mf_Key m, stored)])))"

definition Registry_Find :: "ConnectorKey \<Rightarrow> Registry \<Rightarrow> goerr + Manifest" where
  "Registry_Find key entries =
     (case Key_normalized key of
        Inl err \<Rightarrow> Inl err
      | Inr normalized \<Rightarrow> (case map_of entries normalized of
            None \<Rightarrow> Inl (ConnectorErr ErrConnectorNotFound)
          | Some manifest \<Rightarrow> Inr manifest))"

definition Registry_Resolve :: "ConnectorKey \<Rightarrow> string \<Rightarrow> Registry \<Rightarrow> goerr + Manifest" where
  "Registry_Resolve key sdkVersion entries =
     (case Registry_Find key entries of
        Inl err \<Rightarrow> Inl err
      | Inr manifest \<Rightarrow>
          if mf_Status manifest \<noteq> StatusEnabled then Inl (ConnectorErr ErrConnectorUnavailable)
          else case ParseVersion sdkVersion of
            Inl _ \<Rightarrow> Inl (ConnectorErr ErrSDKIncompatible)
          | Inr client \<Rightarrow>
              if version_compare client (version_or_zero (mf_CompatibilityMin manifest)) < 0
                 \<or> version_compare client (version_or_zero (mf_CompatibilityMax manifest)) > 0
              then Inl (ConnectorErr ErrSDKIncompatible)
              else Inr manifest)"

text \<open>\<open>entries[k] = v\<close> for a key that is present.\<close>

definition set_entry :: "'k \<Rightarrow> 'v \<Rightarrow> ('k \<times> 'v) list \<Rightarrow> ('k \<times> 'v) list" where
  "set_entry k v entries = map (\<lambda>(k', v'). (k', if k' = k then v else v')) entries"

definition Registry_Transition ::
  "ConnectorKey \<Rightarrow> ConnectorStatus \<Rightarrow> int \<Rightarrow> Registry \<Rightarrow> (goerr + Manifest) \<times> Registry" where
  "Registry_Transition key status expectedRevision entries =
     (if status \<noteq> StatusEnabled \<and> status \<noteq> StatusDisabled \<and> status \<noteq> StatusDeprecated
      then (Inl (invalid_manifest ''transition status is invalid''), entries)
      else case Key_normalized key of
        Inl err \<Rightarrow> (Inl err, entries)
      | Inr normalized \<Rightarrow> (case map_of entries normalized of
            None \<Rightarrow> (Inl (ConnectorErr ErrConnectorNotFound), entries)
          | Some manifest \<Rightarrow>
              if mf_Revision manifest \<noteq> expectedRevision then (Inl (ConnectorErr ErrRevisionConflict), entries)
              else let changed = manifest\<lparr>mf_Status := status, mf_Revision := incr64 (mf_Revision manifest)\<rparr>
                   in (Inr changed, set_entry normalized changed entries)))"

definition key_order :: "ConnectorKey \<Rightarrow> string \<times> string \<times> int" where
  "key_order k = (ck_Connector k, ck_Event k, ck_SchemaVersion k)"

definition Registry_Snapshot :: "Registry \<Rightarrow> Manifest list" where
  "Registry_Snapshot entries = sort_key (\<lambda>m. key_order (mf_Key m)) (map snd entries)"

section \<open>Lemmas\<close>

lemma Key_normalized_Inr:
  "Key_normalized k = Inr key \<longleftrightarrow>
     key = k\<lparr>ck_Connector := ToLower (TrimSpace (ck_Connector k)), ck_Event := ToLower (TrimSpace (ck_Event k))\<rparr>
     \<and> namePattern (ck_Connector key) \<and> namePattern (ck_Event key) \<and> 1 \<le> ck_SchemaVersion key"
  by (auto simp: Key_normalized_def Let_def)

lemma Key_normalized_idem: "Key_normalized k = Inr key \<Longrightarrow> Key_normalized key = Inr key"
  using dotted_name_fixed [of 63 "ck_Connector key"] dotted_name_fixed [of 63 "ck_Event key"]
  by (auto simp: Key_normalized_Inr namePattern_def)

lemma normalize_fields_Inr:
  "normalize_fields seen fs = Inr r \<longleftrightarrow>
     r = map TrimSpace fs \<and> distinct r \<and> set r \<inter> set seen = {} \<and> list_all namePattern r"
proof (induction fs arbitrary: seen r)
  case (Cons f fs)
  show ?case
    using Cons.IH [of "TrimSpace f # seen" "tl r"]
    by (cases "normalize_fields (TrimSpace f # seen) fs"; cases r) (auto simp: Let_def)
qed auto

definition version_triple :: "Version \<Rightarrow> int \<times> int \<times> int" where
  "version_triple v = (vn_Major v, vn_Minor v, vn_Patch v)"

lemma version_compare_sign:
  "version_compare v w < 0 \<longleftrightarrow> version_triple v < version_triple w"
  "version_compare v w > 0 \<longleftrightarrow> version_triple w < version_triple v"
  by (auto simp: version_compare_def version_triple_def)

text \<open>A manifest in normal form.\<close>

definition good_manifest :: "Manifest \<Rightarrow> bool" where
  "good_manifest m \<longleftrightarrow>
     Key_normalized (mf_Key m) = Inr (mf_Key m) \<and> namePattern (mf_OwnerSystem m)
     \<and> ToLower (TrimSpace (mf_OwnerSystem m)) = mf_OwnerSystem m
     \<and> (\<exists>v minimum maximum. ParseVersion (mf_SDKVersion m) = Inr v \<and> ParseVersion (mf_CompatibilityMin m) = Inr minimum
          \<and> ParseVersion (mf_CompatibilityMax m) = Inr maximum \<and> version_triple minimum \<le> version_triple maximum)
     \<and> hashPattern (mf_ContractHash m) \<and> mf_AllowedFields m \<noteq> [] \<and> distinct (mf_AllowedFields m)
     \<and> list_all namePattern (mf_AllowedFields m)
     \<and> (\<forall>x. mf_Status m \<noteq> OtherConnectorStatus x) \<and> mf_Status m \<noteq> ConnectorUnset \<and> 0 \<le> mf_Revision m"

lemma Manifest_normalized_Inr:
  assumes "Manifest_normalized m = Inr n"
  shows "n = m\<lparr>mf_Key := mf_Key n, mf_OwnerSystem := ToLower (TrimSpace (mf_OwnerSystem m)),
      mf_ContractHash := ToLower (TrimSpace (mf_ContractHash m)), mf_AllowedFields := map TrimSpace (mf_AllowedFields m),
      mf_Status := draft_default (mf_Status m)\<rparr>"
    and "Key_normalized (mf_Key m) = Inr (mf_Key n)" "good_manifest n"
proof -
  from assms obtain key v minimum maximum fields where
    k: "Key_normalized (mf_Key m) = Inr key" "ParseVersion (mf_SDKVersion m) = Inr v"
      "ParseVersion (mf_CompatibilityMin m) = Inr minimum" "ParseVersion (mf_CompatibilityMax m) = Inr maximum"
      "\<not> version_compare minimum maximum > 0" "namePattern (ToLower (TrimSpace (mf_OwnerSystem m)))"
      "hashPattern (ToLower (TrimSpace (mf_ContractHash m)))" "normalize_fields [] (mf_AllowedFields m) = Inr fields"
      "fields \<noteq> []" "\<forall>x. draft_default (mf_Status m) \<noteq> OtherConnectorStatus x" "0 \<le> mf_Revision m"
    and n: "n = m\<lparr>mf_Key := key, mf_OwnerSystem := ToLower (TrimSpace (mf_OwnerSystem m)),
      mf_ContractHash := ToLower (TrimSpace (mf_ContractHash m)), mf_AllowedFields := fields,
      mf_Status := draft_default (mf_Status m)\<rparr>"
    by (auto simp: Manifest_normalized_def Let_def split: sum.splits if_splits ConnectorStatus.splits)
  show "n = m\<lparr>mf_Key := mf_Key n, mf_OwnerSystem := ToLower (TrimSpace (mf_OwnerSystem m)),
      mf_ContractHash := ToLower (TrimSpace (mf_ContractHash m)), mf_AllowedFields := map TrimSpace (mf_AllowedFields m),
      mf_Status := draft_default (mf_Status m)\<rparr>"
    using n k(8) by (simp add: normalize_fields_Inr)
  show "Key_normalized (mf_Key m) = Inr (mf_Key n)" using n k(1) by simp
  have "draft_default (mf_Status m) \<noteq> ConnectorUnset" by (simp add: draft_default_def)
  with n k show "good_manifest n"
    unfolding good_manifest_def
    by (auto simp: normalize_fields_Inr not_less version_compare_sign Key_normalized_idem namePattern_def
        dest: dotted_name_fixed)
qed

lemma map_fst_set_entry [simp]: "map fst (set_entry k v entries) = map fst entries"
  by (simp add: set_entry_def case_prod_beta comp_def)

lemma map_of_set_entry:
  "map_of (set_entry k v entries) x = (if x = k \<and> map_of entries k \<noteq> None then Some v else map_of entries x)"
  by (induction entries) (auto simp: set_entry_def)

text \<open>The calls that change a registry.\<close>

inductive registry_step :: "Registry \<Rightarrow> Registry \<Rightarrow> bool" where
  register: "Registry_Register manifest entries = (r, entries') \<Longrightarrow> registry_step entries entries'"
| transition: "Registry_Transition key status revision entries = (r, entries') \<Longrightarrow> registry_step entries entries'"

text \<open>Apart from the revision, which may wrap around after \<open>2 ^ 63\<close> changes.\<close>

definition shape_ok :: "Registry \<Rightarrow> bool" where
  "shape_ok entries \<longleftrightarrow>
     distinct (map fst entries)
     \<and> (\<forall>(k, m) \<in> set entries. mf_Key m = k \<and> good_manifest (m\<lparr>mf_Revision := 0\<rparr>)
          \<and> mf_Status m \<in> {StatusDraft, StatusEnabled, StatusDisabled, StatusDeprecated})"

lemma shape_ok_lookup: "shape_ok entries \<Longrightarrow> map_of entries k = Some m \<Longrightarrow>
   mf_Key m = k \<and> good_manifest (m\<lparr>mf_Revision := 0\<rparr>) \<and> mf_Status m \<in> {StatusDraft, StatusEnabled, StatusDisabled, StatusDeprecated}"
  unfolding shape_ok_def by (blast dest: map_of_SomeD)

lemma shape_ok_insert:
  assumes "shape_ok entries" "mf_Key m = k" "good_manifest (m\<lparr>mf_Revision := 0\<rparr>)"
    "mf_Status m \<in> {StatusDraft, StatusEnabled, StatusDisabled, StatusDeprecated}"
  shows "map_of entries k = None \<Longrightarrow> shape_ok (entries @ [(k, m)])" "shape_ok (set_entry k m entries)"
  using assms by (auto simp: shape_ok_def map_of_eq_None_iff image_iff) (auto simp: set_entry_def split: if_splits)

lemma good_manifest_change:
  "good_manifest m \<Longrightarrow> s \<in> {StatusDraft, StatusEnabled, StatusDisabled, StatusDeprecated}
    \<Longrightarrow> good_manifest (m\<lparr>mf_Status := s, mf_Revision := 0\<rparr>)"
  by (auto simp: good_manifest_def)

lemma registry_step_ok: "registry_step entries entries' \<Longrightarrow> shape_ok entries \<Longrightarrow> shape_ok entries'"
proof (induction rule: registry_step.induct)
  case (register manifest entries r entries')
  show ?case
  proof (cases "entries' = entries")
    case False
    with register(1) obtain m where m: "Manifest_normalized manifest = Inr m" "map_of entries (mf_Key m) = None"
      "entries' = entries @ [(mf_Key m, m\<lparr>mf_Status := StatusDraft, mf_Revision := (if mf_Revision m = 0 then 1 else mf_Revision m)\<rparr>)]"
      by (auto simp: Registry_Register_def Let_def split: sum.splits option.splits)
    from shape_ok_insert(1) [OF register(2) _ _ _ m(2)] good_manifest_change [OF Manifest_normalized_Inr(3) [OF m(1)]] m(3)
    show ?thesis by simp
  qed (use register in simp)
next
  case (transition key status revision entries r entries')
  show ?case
  proof (cases "entries' = entries")
    case False
    with transition(1) obtain k m where m: "map_of entries k = Some m"
      "status \<in> {StatusEnabled, StatusDisabled, StatusDeprecated}"
      "entries' = set_entry k (m\<lparr>mf_Status := status, mf_Revision := incr64 (mf_Revision m)\<rparr>) entries"
      by (auto simp: Registry_Transition_def Let_def split: sum.splits option.splits if_splits)
    have "mf_Key m = k" "good_manifest (m\<lparr>mf_Revision := 0\<rparr>)"
      using shape_ok_lookup [OF transition(2) m(1)] by simp_all
    with good_manifest_change [of "m\<lparr>mf_Revision := 0\<rparr>" status] m(2)
    show ?thesis unfolding m(3) by (intro shape_ok_insert(2) [OF transition(2)]) auto
  qed (use transition in simp)
qed

lemma registry_reachable_ok: "registry_step\<^sup>*\<^sup>* [] entries \<Longrightarrow> shape_ok entries"
  by (induction rule: rtranclp_induct) (simp add: shape_ok_def, rule registry_step_ok)

lemma window_triples:
  assumes "good_manifest (m\<lparr>mf_Revision := 0\<rparr>)"
  shows "ParseVersion (mf_CompatibilityMin m) = Inr (version_or_zero (mf_CompatibilityMin m))"
    and "ParseVersion (mf_CompatibilityMax m) = Inr (version_or_zero (mf_CompatibilityMax m))"
  using assms by (auto simp: good_manifest_def version_or_zero_def)

lemma Registry_Resolve_Inr:
  "Registry_Resolve key sdk entries = Inr m \<longleftrightarrow>
     (\<exists>k v. Key_normalized key = Inr k \<and> map_of entries k = Some m \<and> mf_Status m = StatusEnabled \<and> ParseVersion sdk = Inr v
        \<and> version_triple (version_or_zero (mf_CompatibilityMin m)) \<le> version_triple v
        \<and> version_triple v \<le> version_triple (version_or_zero (mf_CompatibilityMax m)))"
  by (cases "Key_normalized key"; cases "ParseVersion sdk")
     (auto simp: Registry_Resolve_def Registry_Find_def version_compare_sign not_less split: option.splits if_splits)

section \<open>Properties\<close>

text \<open>
  C40: resolution is exact. In any registry that calls of it can produce, Resolve returns a
  manifest exactly when it is the entry of the normalised connector, event and schema version
  that was asked for, is enabled, and its compatibility window, which parses, contains the
  client's version; a manifest it returns is in normal form.
\<close>

theorem Resolve_exact:
  assumes "registry_step\<^sup>*\<^sup>* [] entries"
  shows "Registry_Resolve key sdk entries = Inr m \<longleftrightarrow>
    (\<exists>v minimum maximum. Key_normalized key = Inr (mf_Key m) \<and> (mf_Key m, m) \<in> set entries \<and> mf_Status m = StatusEnabled
       \<and> ParseVersion sdk = Inr v \<and> ParseVersion (mf_CompatibilityMin m) = Inr minimum
       \<and> ParseVersion (mf_CompatibilityMax m) = Inr maximum \<and> good_manifest (m\<lparr>mf_Revision := 0\<rparr>)
       \<and> version_triple minimum \<le> version_triple v \<and> version_triple v \<le> version_triple maximum)"
proof -
  have ok: "shape_ok entries" by (rule registry_reachable_ok [OF assms])
  then have d: "distinct (map fst entries)" by (simp add: shape_ok_def)
  show ?thesis
  proof
    assume "Registry_Resolve key sdk entries = Inr m"
    then obtain k v where *: "Key_normalized key = Inr k" "map_of entries k = Some m" "mf_Status m = StatusEnabled"
      "ParseVersion sdk = Inr v" "version_triple (version_or_zero (mf_CompatibilityMin m)) \<le> version_triple v"
      "version_triple v \<le> version_triple (version_or_zero (mf_CompatibilityMax m))"
      unfolding Registry_Resolve_Inr by blast
    from shape_ok_lookup [OF ok *(2)] window_triples [of m] * map_of_SomeD [OF *(2)]
    show "\<exists>v minimum maximum. Key_normalized key = Inr (mf_Key m) \<and> (mf_Key m, m) \<in> set entries \<and> mf_Status m = StatusEnabled
       \<and> ParseVersion sdk = Inr v \<and> ParseVersion (mf_CompatibilityMin m) = Inr minimum
       \<and> ParseVersion (mf_CompatibilityMax m) = Inr maximum \<and> good_manifest (m\<lparr>mf_Revision := 0\<rparr>)
       \<and> version_triple minimum \<le> version_triple v \<and> version_triple v \<le> version_triple maximum"
      by blast
  next
    assume "\<exists>v minimum maximum. Key_normalized key = Inr (mf_Key m) \<and> (mf_Key m, m) \<in> set entries \<and> mf_Status m = StatusEnabled
       \<and> ParseVersion sdk = Inr v \<and> ParseVersion (mf_CompatibilityMin m) = Inr minimum
       \<and> ParseVersion (mf_CompatibilityMax m) = Inr maximum \<and> good_manifest (m\<lparr>mf_Revision := 0\<rparr>)
       \<and> version_triple minimum \<le> version_triple v \<and> version_triple v \<le> version_triple maximum"
    then show "Registry_Resolve key sdk entries = Inr m"
      unfolding Registry_Resolve_Inr version_or_zero_def using map_of_is_SomeI [OF d] by fastforce
  qed
qed

definition sample_manifest :: Manifest where
  "sample_manifest =
     \<lparr>mf_Key = \<lparr>ck_Connector = ''bids'', ck_Event = ''tender'', ck_SchemaVersion = 1\<rparr>, mf_OwnerSystem = ''bids'',
      mf_SDKVersion = ''1.2.0'', mf_CompatibilityMin = ''1.0.0'', mf_CompatibilityMax = ''1.9.9'',
      mf_ContractHash = ''sha256:'' @ replicate 64 (CHR ''a''), mf_AllowedFields = [''title''], mf_FixtureDigest = [],
      mf_RedactionPolicyDigest = [], mf_SourceCommit = [], mf_Status = ConnectorUnset, mf_Revision = 0\<rparr>"

lemma sample_digest: "digest_pattern (''sha256:'' @ replicate 64 (CHR ''a''))"
  by (simp add: digest_pattern_def lower_hex_def list_all_iff less_eq_char_def)

lemma sample_versions:
  "ParseVersion ''1.2.0'' = Inr \<lparr>vn_Major = 1, vn_Minor = 2, vn_Patch = 0\<rparr>"
  "ParseVersion ''1.0.0'' = Inr \<lparr>vn_Major = 1, vn_Minor = 0, vn_Patch = 0\<rparr>"
  "ParseVersion ''1.9.9'' = Inr \<lparr>vn_Major = 1, vn_Minor = 9, vn_Patch = 9\<rparr>"
  by (simp_all add: ParseVersion_def Let_def trim_simps versionPattern_def is_digit_def byte_in_def Atoi_def dec_value_def digit_val_def)

lemma sample_names: "dotted_name 63 ''bids''" "dotted_name 63 ''tender''" "dotted_name 63 ''title''"
  by (simp_all add: dotted_name_def name_char_def less_eq_char_def)

definition sample_stored :: Manifest where
  "sample_stored = sample_manifest\<lparr>mf_Status := StatusDraft, mf_Revision := 1\<rparr>"

definition sample_key :: ConnectorKey where
  "sample_key = \<lparr>ck_Connector = ''bids'', ck_Event = ''tender'', ck_SchemaVersion = 1\<rparr>"

lemma sample_key_normal: "Key_normalized sample_key = Inr sample_key" "mf_Key sample_stored = sample_key" "mf_Key sample_manifest = sample_key"
  using sample_names
  by (simp_all add: Key_normalized_def sample_key_def Let_def namePattern_def sample_stored_def sample_manifest_def
      trim_simps lower_char_def less_eq_char_def)

lemma sample_normalized: "Manifest_normalized sample_manifest = Inr (sample_manifest\<lparr>mf_Status := StatusDraft\<rparr>)"
  using dotted_name_fixed [OF sample_names(1)] dotted_name_fixed [OF sample_names(3)] digest_pattern_fixed [OF sample_digest]
    sample_digest sample_names
  by (simp add: Manifest_normalized_def sample_key_normal, simp add: sample_manifest_def namePattern_def hashPattern_def
      sample_versions draft_default_def Let_def version_compare_def sample_key_def)

lemma sample_registered: "Registry_Register sample_manifest [] = (None, [(sample_key, sample_stored)])"
proof -
  have "mf_Revision sample_manifest = 0" by (simp add: sample_manifest_def)
  then show ?thesis
    using sample_normalized sample_key_normal by (simp add: Registry_Register_def sample_stored_def Let_def)
qed

definition sample_enabled :: Manifest where
  "sample_enabled = sample_stored\<lparr>mf_Status := StatusEnabled, mf_Revision := 2\<rparr>"

lemma sample_transition:
  "Registry_Transition sample_key StatusEnabled 1 [(sample_key, sample_stored)] = (Inr sample_enabled, [(sample_key, sample_enabled)])"
  using sample_key_normal by (simp add: Registry_Transition_def set_entry_def sample_enabled_def Let_def)
    (simp add: sample_stored_def incr64_def)

theorem Resolve_exact_witness:
  "Registry_Resolve sample_key ''1.2.0'' [(sample_key, sample_enabled)] = Inr sample_enabled"
proof -
  have r: "registry_step\<^sup>*\<^sup>* [] [(sample_key, sample_enabled)]"
    using registry_step.register [OF sample_registered] registry_step.transition [OF sample_transition]
    by (meson converse_rtranclp_into_rtranclp r_into_rtranclp)
  have m: "mf_Key sample_enabled = sample_key" "mf_Status sample_enabled = StatusEnabled"
    "mf_CompatibilityMin sample_enabled = ''1.0.0''" "mf_CompatibilityMax sample_enabled = ''1.9.9''"
    by (simp_all add: sample_enabled_def sample_key_normal) (simp_all add: sample_stored_def sample_manifest_def)
  have "good_manifest (sample_enabled\<lparr>mf_Revision := 0\<rparr>)"
    using registry_reachable_ok [OF r] by (simp add: shape_ok_def)
  with Resolve_exact [OF r, of sample_key "''1.2.0''" sample_enabled] m sample_key_normal(1) sample_versions show ?thesis
    by (simp add: version_triple_def)
qed

text \<open>
  An optimistic lock guards transitions. After a successful Transition the revision the
  caller read is stale: a second one with the same revision is refused and changes nothing.
\<close>

theorem Transition_exclusive:
  assumes "Registry_Transition key status revision entries = (Inr m, entries')"
    and "status' \<in> {StatusEnabled, StatusDisabled, StatusDeprecated}"
  shows "mf_Status m = status
    \<and> (\<exists>k. Key_normalized key = Inr k \<and> map_of entries' = (map_of entries)(k \<mapsto> m))
    \<and> Registry_Transition key status' revision entries' = (Inl (ConnectorErr ErrRevisionConflict), entries')"
proof -
  from assms(1) obtain k m0 where k: "Key_normalized key = Inr k" "map_of entries k = Some m0" "mf_Revision m0 = revision"
    "m = m0\<lparr>mf_Status := status, mf_Revision := incr64 revision\<rparr>" "entries' = set_entry k m entries"
    by (auto simp: Registry_Transition_def Let_def split: sum.splits option.splits if_splits)
  then have "map_of entries' = (map_of entries)(k \<mapsto> m)" by (auto simp: map_of_set_entry)
  with k assms(2) incr64_neq [of revision] show ?thesis by (auto simp: Registry_Transition_def)
qed

theorem Transition_exclusive_witness:
  "Registry_Transition sample_key StatusDisabled 1 [(sample_key, sample_enabled)]
     = (Inl (ConnectorErr ErrRevisionConflict), [(sample_key, sample_enabled)])"
  using Transition_exclusive [OF sample_transition, of StatusDisabled] by blast

text \<open>
  Normalising a manifest twice is normalising it once: what the registry stores is a fixed
  point, so registering a stored manifest again meets its own key.
\<close>

theorem manifest_fixed_point:
  assumes "Manifest_normalized m = Inr n"
  shows "Manifest_normalized n = Inr n \<and> Registry_Register n [(mf_Key n, n)] = (Some (ConnectorErr ErrConnectorExists), [(mf_Key n, n)])"
proof -
  have g: "good_manifest n" by (rule Manifest_normalized_Inr(3) [OF assms])
  then obtain v minimum maximum where v: "ParseVersion (mf_SDKVersion n) = Inr v"
    "ParseVersion (mf_CompatibilityMin n) = Inr minimum" "ParseVersion (mf_CompatibilityMax n) = Inr maximum"
    "\<not> version_compare minimum maximum > 0"
    by (auto simp: good_manifest_def version_compare_sign)
  have "map TrimSpace (mf_AllowedFields n) = mf_AllowedFields n"
    using g by (intro map_idI) (auto simp: good_manifest_def list_all_iff namePattern_def dest: dotted_name_fixed)
  then have f: "normalize_fields [] (mf_AllowedFields n) = Inr (mf_AllowedFields n)"
    using g by (simp add: normalize_fields_Inr good_manifest_def)
  have h: "ToLower (TrimSpace (mf_ContractHash n)) = mf_ContractHash n"
    using g digest_pattern_fixed by (simp add: good_manifest_def hashPattern_def)
  have s: "draft_default (mf_Status n) = mf_Status n" "\<forall>x. mf_Status n \<noteq> OtherConnectorStatus x"
    using g by (auto simp: good_manifest_def draft_default_def)
  have "Manifest_normalized n = Inr n"
    using g v f h s by (simp add: Manifest_normalized_def good_manifest_def Let_def split: ConnectorStatus.split)
  then show ?thesis by (simp add: Registry_Register_def Let_def)
qed

theorem manifest_fixed_point_witness:
  "Manifest_normalized (sample_manifest\<lparr>mf_Status := StatusDraft\<rparr>) = Inr (sample_manifest\<lparr>mf_Status := StatusDraft\<rparr>)"
  using manifest_fixed_point [OF sample_normalized] by blast

text \<open>
  A snapshot does not depend on the order of the map. Two registries with the same
  entries have the same snapshot, sorted by connector, event and schema version.
\<close>

theorem Snapshot_canonical:
  assumes "registry_step\<^sup>*\<^sup>* [] entries" "registry_step\<^sup>*\<^sup>* [] entries'" "map_of entries = map_of entries'"
  shows "Registry_Snapshot entries = Registry_Snapshot entries'
    \<and> sorted_wrt (\<lambda>a b. key_order (mf_Key a) < key_order (mf_Key b)) (Registry_Snapshot entries)
    \<and> set (Registry_Snapshot entries) = ran (map_of entries)"
proof -
  let ?f = "\<lambda>m. key_order (mf_Key m)"
  have inj: "key_order a = key_order b \<Longrightarrow> a = b" for a b by (cases a; cases b) (simp add: key_order_def)
  have keys: "map mf_Key (map snd es) = map fst es" "distinct (map fst es)" if "shape_ok es" for es
    using that by (auto simp: shape_ok_def)
  have snap: "set (Registry_Snapshot es) = ran (map_of es)" "distinct (map ?f (Registry_Snapshot es))"
    "sorted (map ?f (Registry_Snapshot es))" if "shape_ok es" for es
  proof -
    show "set (Registry_Snapshot es) = ran (map_of es)"
      using keys(2) [OF that] by (simp add: Registry_Snapshot_def ran_distinct)
    have "map ?f (map snd es) = map key_order (map fst es)"
      unfolding keys(1) [OF that, symmetric] by simp
    moreover have "inj_on key_order (set (map fst es))" using inj by (rule inj_onI)
    ultimately have "distinct (map ?f (map snd es))"
      using keys(2) [OF that] by (simp only: distinct_map)
    then show "distinct (map ?f (Registry_Snapshot es))"
      unfolding Registry_Snapshot_def by (simp only: distinct_map [of ?f] distinct_sort set_sort)
    show "sorted (map ?f (Registry_Snapshot es))" by (simp add: Registry_Snapshot_def)
  qed
  have ok: "shape_ok entries" "shape_ok entries'" using assms(1,2) registry_reachable_ok by blast+
  have same: "set (Registry_Snapshot entries) = set (Registry_Snapshot entries')"
    using snap(1) [OF ok(1)] snap(1) [OF ok(2)] assms(3) by simp
  then have "set (map ?f (Registry_Snapshot entries)) = set (map ?f (Registry_Snapshot entries'))" by simp
  then have "map ?f (Registry_Snapshot entries) = map ?f (Registry_Snapshot entries')"
    using snap(2,3) [OF ok(1)] snap(2,3) [OF ok(2)] by (intro sorted_distinct_set_unique)
  moreover have "inj_on ?f (set (Registry_Snapshot entries) \<union> set (Registry_Snapshot entries'))"
    using snap(2) [OF ok(1)] same by (simp add: distinct_map)
  ultimately have "Registry_Snapshot entries = Registry_Snapshot entries'" by (rule map_inj_on)
  moreover have "sorted_wrt (<) (map ?f (Registry_Snapshot entries))"
    using snap(2,3) [OF ok(1)] by (simp add: strict_sorted_iff)
  ultimately show ?thesis using snap(1) [OF ok(1)] by (simp add: sorted_wrt_map)
qed

theorem Snapshot_canonical_witness:
  "Registry_Snapshot [(sample_key, sample_stored)] = [sample_stored]
     \<and> set (Registry_Snapshot [(sample_key, sample_stored)]) = ran (map_of [(sample_key, sample_stored)])"
proof -
  have r: "registry_step\<^sup>*\<^sup>* [] [(sample_key, sample_stored)]" using registry_step.register [OF sample_registered] by blast
  from Snapshot_canonical [OF r r refl] show ?thesis by (simp add: Registry_Snapshot_def)
qed

end
