(* ===== verification/GoTime.thy ===== *)
theory GoTime
  imports GoPrelude
begin

text \<open>
  How \<open>time.Time\<close> in UTC is written in JSON (\<open>time.RFC3339Nano\<close>): the date by the proleptic
  Gregorian calendar, the time of day, and the nanoseconds without trailing zeros. Instants
  are the nanoseconds since the start of year 1, as in \<open>GoPrelude\<close>.
\<close>

definition is_leap :: "nat \<Rightarrow> bool" where
  "is_leap y \<longleftrightarrow> 4 dvd y \<and> (\<not> 100 dvd y \<or> 400 dvd y)"

definition month_lengths :: "nat \<Rightarrow> nat list" where
  "month_lengths y = [31, if is_leap y then 29 else 28, 31, 30, 31, 30, 31, 31, 30, 31, 30, 31]"

fun month_and_day :: "nat \<Rightarrow> nat \<Rightarrow> nat list \<Rightarrow> nat \<times> nat" where
  "month_and_day m d [] = (m, d)"
| "month_and_day m d (l # ls) = (if d < l then (m, Suc d) else month_and_day (Suc m) (d - l) ls)"

definition date_of_days :: "nat \<Rightarrow> nat \<times> nat \<times> nat" where
  "date_of_days d =
     (let centuries = min 3 (d mod 146097 div 36524); r1 = d mod 146097 - centuries * 36524;
          years = min 3 (r1 mod 1461 div 365); r2 = r1 mod 1461 - years * 365;
          y = 400 * (d div 146097) + 100 * centuries + 4 * (r1 div 1461) + years + 1
      in (y, month_and_day 1 r2 (month_lengths y)))"

definition padded :: "nat \<Rightarrow> nat \<Rightarrow> string" where
  "padded width n = replicate (width - length (nat_dec n)) (CHR ''0'') @ nat_dec n"

definition fraction_text :: "nat \<Rightarrow> string" where
  "fraction_text ns = (if ns = 0 then [] else CHR ''.'' # rev (dropWhile (\<lambda>c. c = CHR ''0'') (rev (padded 9 ns))))"

definition RFC3339Nano :: "time \<Rightarrow> string" where
  "RFC3339Nano t =
     (let ns = nat (t mod 86400000000000); (y, m, d) = date_of_days (nat (t div 86400000000000));
          s = ns div 1000000000
      in padded 4 y @ ''-'' @ padded 2 m @ ''-'' @ padded 2 d @ ''T'' @ padded 2 (s div 3600) @ '':''
         @ padded 2 (s mod 3600 div 60) @ '':'' @ padded 2 (s mod 60) @ fraction_text (ns mod 1000000000) @ ''Z'')"

end
