(* ===== verification/Onboarding.thy ===== *)
theory Onboarding
  imports Connector AuditLog GoTime
begin

text \<open>
  \<open>connector/onboarding.go\<close>: the review of a connector before it is enabled. The service keeps
  its records in a Go map under \<open>onboardingKey\<close>; here it is the association list of its entries
  inside a state that the membership reader and the audit writer share. Each call reads the
  clock when it stores a record and again when it writes the audit entry (\<open>now\<close>, \<open>auditTime\<close>).
  \<open>List\<close> sorts by connector only and the order of a Go map is open, so the order of records of
  one connector is open; the model takes the order of their submission.
\<close>

section \<open>Records\<close>

record OnboardingEvidence =
  ev_FixtureDigest :: string
  ev_RedactionPolicyDigest :: string
  ev_SourceCommit :: string
  ev_CompatibilityPass :: bool
  ev_FixturePass :: bool
  ev_RedactionPass :: bool
  ev_OperatorAudit :: bool
  ev_OwnerSignoff :: bool
  ev_Reviewer :: string
  ev_Approver :: string

record OnboardingRecord =
  on_TenantID :: string
  on_WorkspaceID :: string
  on_Manifest :: Manifest
  on_Evidence :: OnboardingEvidence
  on_Submitter :: IdentityKey
  on_CreatedAt :: time
  on_UpdatedAt :: time

record OnboardingState =
  ob_entries :: "(string \<times> OnboardingRecord) list"

definition sourceCommitPattern :: "string \<Rightarrow> bool" where
  "sourceCommitPattern s \<longleftrightarrow> 7 \<le> length s \<and> length s \<le> 64 \<and> list_all lower_hex s"

definition onboardingKey :: "string \<Rightarrow> string \<Rightarrow> ConnectorKey \<Rightarrow> string" where
  "onboardingKey tenantID workspaceID key =
     JoinWith [CHR 0x00] [tenantID, workspaceID, ck_Connector key, ck_Event key, itoa (ck_SchemaVersion key)]"

section \<open>The record as JSON\<close>

definition status_text :: "ConnectorStatus \<Rightarrow> string" where
  "status_text s =
     (case s of ConnectorUnset \<Rightarrow> [] | StatusDraft \<Rightarrow> ''DRAFT'' | StatusInReview \<Rightarrow> ''IN_REVIEW''
      | StatusApproved \<Rightarrow> ''APPROVED'' | StatusEnabled \<Rightarrow> ''ENABLED'' | StatusDisabled \<Rightarrow> ''DISABLED''
      | StatusRejected \<Rightarrow> ''REJECTED'' | StatusDeprecated \<Rightarrow> ''DEPRECATED'' | OtherConnectorStatus t \<Rightarrow> t)"

definition unless_empty :: "string \<Rightarrow> string \<Rightarrow> (string \<times> json) list" where
  "unless_empty name value = (if value = [] then [] else [(name, JString value)])"

definition manifest_json :: "Manifest \<Rightarrow> json" where
  "manifest_json m =
     JObject ([(''key'', JObject [(''connector'', JString (ck_Connector (mf_Key m))), (''event'', JString (ck_Event (mf_Key m))),
                 (''schemaVersion'', JNumber (itoa (ck_SchemaVersion (mf_Key m))))]),
        (''ownerSystem'', JString (mf_OwnerSystem m)), (''sdkVersion'', JString (mf_SDKVersion m)),
        (''compatibilityMin'', JString (mf_CompatibilityMin m)), (''compatibilityMax'', JString (mf_CompatibilityMax m)),
        (''contractHash'', JString (mf_ContractHash m)), (''allowedFields'', JArray (map JString (mf_AllowedFields m)))]
       @ unless_empty ''fixtureDigest'' (mf_FixtureDigest m)
       @ unless_empty ''redactionPolicyDigest'' (mf_RedactionPolicyDigest m)
       @ unless_empty ''sourceCommit'' (mf_SourceCommit m)
       @ [(''status'', JString (status_text (mf_Status m))), (''revision'', JNumber (itoa (mf_Revision m)))])"

definition evidence_json :: "OnboardingEvidence \<Rightarrow> json" where
  "evidence_json e =
     JObject ([(''fixtureDigest'', JString (ev_FixtureDigest e)), (''redactionPolicyDigest'', JString (ev_RedactionPolicyDigest e)),
        (''sourceCommit'', JString (ev_SourceCommit e)), (''compatibilityPass'', JBool (ev_CompatibilityPass e)),
        (''fixturePass'', JBool (ev_FixturePass e)), (''redactionPass'', JBool (ev_RedactionPass e)),
        (''operatorAudit'', JBool (ev_OperatorAudit e)), (''ownerSignoff'', JBool (ev_OwnerSignoff e))]
       @ unless_empty ''reviewer'' (ev_Reviewer e) @ unless_empty ''approver'' (ev_Approver e))"

definition onboarding_json :: "OnboardingRecord \<Rightarrow> json" where
  "onboarding_json r =
     JObject [(''tenantId'', JString (on_TenantID r)), (''workspaceId'', JString (on_WorkspaceID r)),
       (''manifest'', manifest_json (on_Manifest r)), (''evidence'', evidence_json (on_Evidence r)),
       (''submitter'', JObject [(''issuer'', JString (ik_Issuer (on_Submitter r))), (''subject'', JString (ik_Subject (on_Submitter r)))]),
       (''createdAt'', JString (RFC3339Nano (on_CreatedAt r))), (''updatedAt'', JString (RFC3339Nano (on_UpdatedAt r)))]"

section \<open>The service\<close>

record 'w OnboardingService =
  os_authorizer :: "'w MembershipReader option option"
  os_audit :: "'w AuditWriter option"

definition onboarding_authorize ::
  "'w OnboardingService option \<Rightarrow> Principal \<Rightarrow> string \<Rightarrow> string \<Rightarrow> Action \<Rightarrow> ('w, unit) go" where
  "onboarding_authorize service prin tenantID workspaceID action =
     (case service of
        None \<Rightarrow> fail (IdentityErr ErrForbidden)
      | Some s \<Rightarrow>
     (case os_authorizer s of
        None \<Rightarrow> fail (IdentityErr ErrForbidden)
      | Some authorizer \<Rightarrow>
          if blank tenantID \<or> blank workspaceID then fail (IdentityErr ErrForbidden)
          else bindG (Authorize authorizer prin tenantID workspaceID action) (\<lambda>_. ret ())))"

definition onboarding_appendAudit ::
  "'w AuditWriter \<Rightarrow> time \<Rightarrow> Principal \<Rightarrow> OnboardingRecord \<Rightarrow> string \<Rightarrow> string \<Rightarrow> ('w, unit) go" where
  "onboarding_appendAudit audit auditTime prin record action beforeHash =
     audit (empty_AuditEntry\<lparr>ae_TenantID := on_TenantID record, ae_WorkspaceID := on_WorkspaceID record,
       ae_Action := action, ae_Actor := identityKey prin, ae_ResourceType := ''connector_manifest'',
       ae_ResourceID := onboardingKey (on_TenantID record) (on_WorkspaceID record) (mf_Key (on_Manifest record)),
       ae_ResourceVersion := mf_Revision (on_Manifest record), ae_BeforeHash := beforeHash,
       ae_AfterHash := sha256_ref (marshal (onboarding_json record)), ae_CreatedAt := auditTime\<rparr>)"

definition or_else :: "string \<Rightarrow> string \<Rightarrow> string" where
  "or_else value fallback = (if blank value then fallback else value)"

definition validateOnboardingManifest :: "Manifest \<Rightarrow> OnboardingEvidence \<Rightarrow> goerr + Manifest" where
  "validateOnboardingManifest manifest evidence =
     (if mf_Status manifest \<noteq> ConnectorUnset \<and> mf_Status manifest \<noteq> StatusDraft
      then Inl (invalid_manifest ''onboarding upload must start as draft'')
      else if mf_Revision manifest \<noteq> 0 then Inl (invalid_manifest ''onboarding revision is server-assigned'')
      else let fixture = ToLower (TrimSpace (or_else (ev_FixtureDigest evidence) (mf_FixtureDigest manifest)));
               redaction = ToLower (TrimSpace (or_else (ev_RedactionPolicyDigest evidence) (mf_RedactionPolicyDigest manifest)));
               commit = ToLower (TrimSpace (or_else (ev_SourceCommit evidence) (mf_SourceCommit manifest)))
           in if \<not> hashPattern fixture \<or> \<not> hashPattern redaction
              then Inl (invalid_manifest ''evidence digests must be sha256'')
              else if \<not> sourceCommitPattern commit then Inl (invalid_manifest ''sourceCommit must be a git SHA'')
              else case Manifest_normalized manifest of
                Inl err \<Rightarrow> Inl err
              | Inr normalized \<Rightarrow>
                  Inr (normalized\<lparr>mf_FixtureDigest := fixture, mf_RedactionPolicyDigest := redaction,
                         mf_SourceCommit := commit, mf_Status := StatusDraft, mf_Revision := 1\<rparr>))"

definition onboarding_Submit ::
  "'x OnboardingState_scheme OnboardingService option \<Rightarrow> time \<Rightarrow> time \<Rightarrow> Principal \<Rightarrow> string \<Rightarrow> string \<Rightarrow> Manifest
     \<Rightarrow> OnboardingEvidence \<Rightarrow> ('x OnboardingState_scheme, OnboardingRecord) go" where
  "onboarding_Submit service now auditTime prin tenantID workspaceID manifest evidence =
     bindG (onboarding_authorize service prin tenantID workspaceID ActionConnectorOnboard) (\<lambda>_.
       case os_audit (the service) of
         None \<Rightarrow> fail (IdentityErr ErrForbidden)
       | Some audit \<Rightarrow>
           bindG (pureG (validateOnboardingManifest manifest evidence)) (\<lambda>normalized w.
             let key = onboardingKey tenantID workspaceID (mf_Key normalized);
                 record = \<lparr>on_TenantID = TrimSpace tenantID, on_WorkspaceID = TrimSpace workspaceID,
                   on_Manifest = normalized, on_Evidence = evidence, on_Submitter = identityKey prin,
                   on_CreatedAt = now, on_UpdatedAt = now\<rparr>
             in case map_of (ob_entries w) key of
                  Some _ \<Rightarrow> fail (ConnectorErr ErrOnboardingExists) w
                | None \<Rightarrow>
                    bindG (onboarding_appendAudit audit auditTime prin record ''connector.onboarding.submit'' [])
                      (\<lambda>_. ret record) (w\<lparr>ob_entries := ob_entries w @ [(key, record)]\<rparr>)))"

definition onboarding_transition ::
  "'x OnboardingState_scheme OnboardingService option \<Rightarrow> time \<Rightarrow> time \<Rightarrow> Principal \<Rightarrow> string \<Rightarrow> string \<Rightarrow> ConnectorKey
     \<Rightarrow> int \<Rightarrow> ConnectorStatus \<Rightarrow> Action \<Rightarrow> (OnboardingRecord \<Rightarrow> goerr + OnboardingRecord)
     \<Rightarrow> ('x OnboardingState_scheme, OnboardingRecord) go" where
  "onboarding_transition service now auditTime prin tenantID workspaceID key expectedRevision status action check =
     bindG (onboarding_authorize service prin tenantID workspaceID action) (\<lambda>_.
     bindG (pureG (Key_normalized key)) (\<lambda>normalized w.
       let lookup = onboardingKey tenantID workspaceID normalized
       in case map_of (ob_entries w) lookup of
            None \<Rightarrow> fail (ConnectorErr ErrOnboardingNotFound) w
          | Some found \<Rightarrow>
              if mf_Revision (on_Manifest found) \<noteq> expectedRevision then fail (ConnectorErr ErrRevisionConflict) w
              else (case check found of
                  Inl err \<Rightarrow> fail err w
                | Inr checked \<Rightarrow>
                    (let record = checked\<lparr>on_Manifest := (on_Manifest checked)
                           \<lparr>mf_Status := status, mf_Revision := incr64 (mf_Revision (on_Manifest checked))\<rparr>,
                         on_UpdatedAt := now\<rparr>;
                         w1 = w\<lparr>ob_entries := set_entry lookup record (ob_entries w)\<rparr>
                     in case os_audit (the service) of
                          None \<Rightarrow> fail (Anon ''nil audit writer'') w1
                        | Some audit \<Rightarrow>
                            bindG (onboarding_appendAudit audit auditTime prin record
                                (''connector.onboarding.'' @ ToLower (status_text status)) [])
                              (\<lambda>_. ret record) w1))))"

text \<open>
  A service without an audit writer panics at the end of a transition, after the record was
  stored; the model has that as an error.
\<close>

text \<open>The checks of the transitions, with what they write into the record.\<close>

definition check_submit_for_review :: "OnboardingRecord \<Rightarrow> goerr + OnboardingRecord" where
  "check_submit_for_review record =
     (if mf_Status (on_Manifest record) \<noteq> StatusDraft then Inl (ConnectorErr ErrOnboardingState) else Inr record)"

definition check_review :: "Principal \<Rightarrow> OnboardingRecord \<Rightarrow> goerr + OnboardingRecord" where
  "check_review prin record =
     (if mf_Status (on_Manifest record) \<noteq> StatusInReview \<or> on_Submitter record = identityKey prin
      then Inl (ConnectorErr ErrOnboardingState)
      else Inr (record\<lparr>on_Evidence := (on_Evidence record)\<lparr>ev_Reviewer := ik_Subject (identityKey prin)\<rparr>\<rparr>))"

definition check_enable :: "Principal \<Rightarrow> OnboardingRecord \<Rightarrow> goerr + OnboardingRecord" where
  "check_enable prin record =
     (let evidence = on_Evidence record
      in if mf_Status (on_Manifest record) \<noteq> StatusApproved \<or> on_Submitter record = identityKey prin
            \<or> ev_Reviewer evidence = ik_Subject (identityKey prin) \<or> \<not> ev_CompatibilityPass evidence
            \<or> \<not> ev_FixturePass evidence \<or> \<not> ev_RedactionPass evidence \<or> \<not> ev_OperatorAudit evidence
         then Inl (ConnectorErr ErrOnboardingEvidence)
         else Inr (record\<lparr>on_Evidence := evidence\<lparr>ev_OwnerSignoff := True, ev_Approver := ik_Subject (identityKey prin)\<rparr>\<rparr>))"

definition check_disable :: "OnboardingRecord \<Rightarrow> goerr + OnboardingRecord" where
  "check_disable record =
     (if mf_Status (on_Manifest record) \<noteq> StatusEnabled then Inl (ConnectorErr ErrOnboardingState) else Inr record)"

definition SubmitForReview where
  "SubmitForReview service now auditTime prin tenantID workspaceID key expectedRevision =
     onboarding_transition service now auditTime prin tenantID workspaceID key expectedRevision StatusInReview
       ActionConnectorOnboard check_submit_for_review"

definition Review where
  "Review service now auditTime prin tenantID workspaceID key expectedRevision approved =
     onboarding_transition service now auditTime prin tenantID workspaceID key expectedRevision
       (if approved then StatusApproved else StatusRejected) ActionConnectorReview (check_review prin)"

definition Enable where
  "Enable service now auditTime prin tenantID workspaceID key expectedRevision =
     onboarding_transition service now auditTime prin tenantID workspaceID key expectedRevision StatusEnabled
       ActionConnectorApprove (check_enable prin)"

definition Disable where
  "Disable service now auditTime prin tenantID workspaceID key expectedRevision =
     onboarding_transition service now auditTime prin tenantID workspaceID key expectedRevision StatusDisabled
       ActionConnectorApprove check_disable"

definition onboarding_List ::
  "'x OnboardingState_scheme OnboardingService option \<Rightarrow> Principal \<Rightarrow> string \<Rightarrow> string
     \<Rightarrow> ('x OnboardingState_scheme, OnboardingRecord list) go" where
  "onboarding_List service prin tenantID workspaceID =
     bindG (onboarding_authorize service prin tenantID workspaceID ActionConnectorReview) (\<lambda>_ w.
       ret (sort_key (\<lambda>r. ck_Connector (mf_Key (on_Manifest r)))
              (filter (\<lambda>r. on_TenantID r = tenantID \<and> on_WorkspaceID r = workspaceID) (map snd (ob_entries w)))) w)"

section \<open>Calls\<close>

datatype OnboardingCall =
    CallSubmit Manifest OnboardingEvidence
  | CallSubmitForReview ConnectorKey int
  | CallReview ConnectorKey int bool
  | CallEnable ConnectorKey int
  | CallDisable ConnectorKey int

fun onboarding_call ::
  "'x OnboardingState_scheme OnboardingService option \<Rightarrow> time \<Rightarrow> time \<Rightarrow> Principal \<Rightarrow> string \<Rightarrow> string \<Rightarrow> OnboardingCall
     \<Rightarrow> ('x OnboardingState_scheme, OnboardingRecord) go" where
  "onboarding_call s now at p t ws (CallSubmit m e) = onboarding_Submit s now at p t ws m e"
| "onboarding_call s now at p t ws (CallSubmitForReview k r) = SubmitForReview s now at p t ws k r"
| "onboarding_call s now at p t ws (CallReview k r ok) = Review s now at p t ws k r ok"
| "onboarding_call s now at p t ws (CallEnable k r) = Enable s now at p t ws k r"
| "onboarding_call s now at p t ws (CallDisable k r) = Disable s now at p t ws k r"

fun required_action :: "OnboardingCall \<Rightarrow> Action" where
  "required_action (CallSubmit m e) = ActionConnectorOnboard"
| "required_action (CallSubmitForReview k r) = ActionConnectorOnboard"
| "required_action (CallReview k r ok) = ActionConnectorReview"
| "required_action (CallEnable k r) = ActionConnectorApprove"
| "required_action (CallDisable k r) = ActionConnectorApprove"

section \<open>The life cycle\<close>

text \<open>One record before and after a call of the principal \<open>who\<close>, apart from the time.\<close>

definition moved :: "ConnectorStatus \<Rightarrow> OnboardingEvidence \<Rightarrow> OnboardingRecord \<Rightarrow> OnboardingRecord" where
  "moved status evidence r =
     r\<lparr>on_Evidence := evidence, on_Manifest := (on_Manifest r)\<lparr>mf_Status := status,
        mf_Revision := incr64 (mf_Revision (on_Manifest r))\<rparr>\<rparr>"

abbreviation status_of :: "OnboardingRecord \<Rightarrow> ConnectorStatus" where
  "status_of r \<equiv> mf_Status (on_Manifest r)"

inductive onboarding_edge :: "IdentityKey \<Rightarrow> OnboardingCall \<Rightarrow> OnboardingRecord \<Rightarrow> OnboardingRecord \<Rightarrow> bool" for who where
  review_asked: "status_of r = StatusDraft \<Longrightarrow>
    onboarding_edge who (CallSubmitForReview k v) r (moved StatusInReview (on_Evidence r) r\<lparr>on_UpdatedAt := at\<rparr>)"
| reviewed: "status_of r = StatusInReview \<Longrightarrow> on_Submitter r \<noteq> who \<Longrightarrow>
    onboarding_edge who (CallReview k v ok) r (moved (if ok then StatusApproved else StatusRejected)
      ((on_Evidence r)\<lparr>ev_Reviewer := ik_Subject who\<rparr>) r\<lparr>on_UpdatedAt := at\<rparr>)"
| enabled: "status_of r = StatusApproved \<Longrightarrow> on_Submitter r \<noteq> who \<Longrightarrow> ev_Reviewer (on_Evidence r) \<noteq> ik_Subject who \<Longrightarrow>
    ev_CompatibilityPass (on_Evidence r) \<Longrightarrow> ev_FixturePass (on_Evidence r) \<Longrightarrow> ev_RedactionPass (on_Evidence r) \<Longrightarrow>
    ev_OperatorAudit (on_Evidence r) \<Longrightarrow>
    onboarding_edge who (CallEnable k v) r (moved StatusEnabled
      ((on_Evidence r)\<lparr>ev_OwnerSignoff := True, ev_Approver := ik_Subject who\<rparr>) r\<lparr>on_UpdatedAt := at\<rparr>)"
| disabled: "status_of r = StatusEnabled \<Longrightarrow>
    onboarding_edge who (CallDisable k v) r (moved StatusDisabled (on_Evidence r) r\<lparr>on_UpdatedAt := at\<rparr>)"

text \<open>A new record.\<close>

definition submitted :: "IdentityKey \<Rightarrow> OnboardingRecord \<Rightarrow> bool" where
  "submitted who r \<longleftrightarrow> status_of r = StatusDraft \<and> mf_Revision (on_Manifest r) = 1 \<and> on_Submitter r = who"

definition leaves_entries :: "('x OnboardingState_scheme, 'a) go \<Rightarrow> bool" where
  "leaves_entries m \<longleftrightarrow> (\<forall>w r w'. m w = (r, w') \<longrightarrow> ob_entries w' = ob_entries w)"

definition service_apart :: "'x OnboardingState_scheme OnboardingService \<Rightarrow> bool" where
  "service_apart s \<longleftrightarrow>
     (\<forall>reader k t ws. os_authorizer s = Some (Some reader) \<longrightarrow> leaves_entries (reader k t ws))
     \<and> (\<forall>audit e. os_audit s = Some audit \<longrightarrow> leaves_entries (audit e))"

definition permits :: "'w OnboardingService \<Rightarrow> Principal \<Rightarrow> string \<Rightarrow> string \<Rightarrow> Action \<Rightarrow> 'w \<Rightarrow> bool" where
  "permits s prin t ws action w \<longleftrightarrow>
     (\<exists>authorizer m w1. os_authorizer s = Some authorizer \<and> Authorize authorizer prin t ws action w = (Inr m, w1))"

lemma leaves_entriesD: "leaves_entries m \<Longrightarrow> m w = (r, w') \<Longrightarrow> ob_entries w' = ob_entries w"
  by (simp add: leaves_entries_def)

lemma Authorize_leaves:
  assumes "\<forall>reader k t ws. a = Some reader \<longrightarrow> leaves_entries (reader k t ws)"
  shows "leaves_entries (Authorize a prin t ws action)"
  using assms by (cases a) (auto simp: leaves_entries_def Authorize_def go_simps split: prod.splits sum.splits if_splits)

lemma onboarding_authorize_effect:
  assumes s: "service_apart s" and run: "onboarding_authorize (Some s) prin t ws action w = (r, w')"
  shows "ob_entries w' = ob_entries w" "r = Inr u \<Longrightarrow> permits s prin t ws action w"
proof -
  have "ob_entries w' = ob_entries w \<and> (r = Inr u \<longrightarrow> permits s prin t ws action w)"
  proof (cases "os_authorizer s")
    case None
    with run show ?thesis by (auto simp: onboarding_authorize_def go_simps)
  next
    case (Some a)
    obtain q w1 where q: "Authorize a prin t ws action w = (q, w1)" by (rule prod.exhaust)
    have "leaves_entries (Authorize a prin t ws action)"
      using s Some by (intro Authorize_leaves) (simp add: service_apart_def)
    then have "ob_entries w1 = ob_entries w" using q by (rule leaves_entriesD)
    with run Some q show ?thesis
      by (cases q) (auto simp: onboarding_authorize_def go_simps permits_def split: if_splits)
  qed
  then show "ob_entries w' = ob_entries w" "r = Inr u \<Longrightarrow> permits s prin t ws action w" by auto
qed

lemma appendAudit_effect:
  assumes "service_apart s" "os_audit s = Some audit"
    and "bindG (onboarding_appendAudit audit at prin rec a h) (\<lambda>_. ret rec) w = (r, w')"
  shows "ob_entries w' = ob_entries w"
proof -
  obtain q w1 where q: "onboarding_appendAudit audit at prin rec a h w = (q, w1)" by (rule prod.exhaust)
  with assms(1,2) have "ob_entries w1 = ob_entries w"
    unfolding onboarding_appendAudit_def service_apart_def leaves_entries_def by blast
  with assms(3) q show ?thesis by (cases q) (auto simp: go_simps)
qed

text \<open>What a call does to the entries: nothing, a new record, or one edge of the life cycle.\<close>

definition call_effect ::
  "IdentityKey \<Rightarrow> OnboardingCall \<Rightarrow> (string \<times> OnboardingRecord) list \<Rightarrow> (string \<times> OnboardingRecord) list \<Rightarrow> bool" where
  "call_effect who call old new \<longleftrightarrow>
     (\<exists>key r. (\<exists>m e. call = CallSubmit m e) \<and> map_of old key = None \<and> submitted who r \<and> new = old @ [(key, r)])
     \<or> (\<exists>key r r'. map_of old key = Some r \<and> onboarding_edge who call r r' \<and> new = set_entry key r' old)"

lemma transition_effect:
  assumes s: "service_apart s" and run: "onboarding_transition (Some s) now at prin t ws key version status action check w = (r, w')"
  shows "ob_entries w' = ob_entries w \<or> permits s prin t ws action w \<and>
    (\<exists>lookup found checked. map_of (ob_entries w) lookup = Some found \<and> check found = Inr checked \<and>
       ob_entries w' = set_entry lookup (moved status (on_Evidence checked) checked\<lparr>on_UpdatedAt := now\<rparr>) (ob_entries w))"
proof -
  obtain q w1 where q: "onboarding_authorize (Some s) prin t ws action w = (q, w1)" by (rule prod.exhaust)
  note auth = onboarding_authorize_effect [OF s q]
  show ?thesis
  proof (cases q)
    case (Inl e)
    with run q auth(1) show ?thesis by (simp add: onboarding_transition_def go_simps)
  next
    case (Inr u)
    show ?thesis
    proof (cases "ob_entries w' = ob_entries w")
      case False
      have rec_eq: "checked\<lparr>on_Manifest := (on_Manifest checked)\<lparr>mf_Status := status,
          mf_Revision := incr64 (mf_Revision (on_Manifest checked))\<rparr>, on_UpdatedAt := now\<rparr>
          = moved status (on_Evidence checked) checked\<lparr>on_UpdatedAt := now\<rparr>" for checked
        by (simp add: moved_def)
      from False run q Inr auth(1) obtain n found checked where
        f: "map_of (ob_entries w) (onboardingKey t ws n) = Some found" "check found = Inr checked"
          "(case os_audit s of None \<Rightarrow> fail (Anon ''nil audit writer'')
            | Some audit \<Rightarrow> bindG (onboarding_appendAudit audit at prin (moved status (on_Evidence checked) checked\<lparr>on_UpdatedAt := now\<rparr>)
                (''connector.onboarding.'' @ ToLower (status_text status)) [])
              (\<lambda>_. ret (moved status (on_Evidence checked) checked\<lparr>on_UpdatedAt := now\<rparr>)))
            (w1\<lparr>ob_entries := set_entry (onboardingKey t ws n) (moved status (on_Evidence checked) checked\<lparr>on_UpdatedAt := now\<rparr>) (ob_entries w)\<rparr>) = (r, w')"
        by (auto simp: onboarding_transition_def rec_eq Let_def go_simps split: sum.splits option.splits if_splits)
      then have "ob_entries w' = set_entry (onboardingKey t ws n) (moved status (on_Evidence checked) checked\<lparr>on_UpdatedAt := now\<rparr>) (ob_entries w)"
        using appendAudit_effect [OF s] by (cases "os_audit s") (auto simp: go_simps)
      with f(1,2) auth(2) [OF Inr] show ?thesis by blast
    qed simp
  qed
qed

lemma Submit_effect:
  assumes s: "service_apart s" and run: "onboarding_Submit (Some s) now at prin t ws m e w = (r, w')"
  shows "ob_entries w' = ob_entries w \<or> permits s prin t ws ActionConnectorOnboard w \<and>
    (\<exists>key rec. map_of (ob_entries w) key = None \<and> submitted (identityKey prin) rec \<and> ob_entries w' = ob_entries w @ [(key, rec)])"
proof -
  obtain q w1 where q: "onboarding_authorize (Some s) prin t ws ActionConnectorOnboard w = (q, w1)" by (rule prod.exhaust)
  note auth = onboarding_authorize_effect [OF s q]
  show ?thesis
  proof (cases "\<exists>u audit n. q = Inr u \<and> os_audit s = Some audit \<and> validateOnboardingManifest m e = Inr n
      \<and> map_of (ob_entries w) (onboardingKey t ws (mf_Key n)) = None")
    case True
    then obtain u audit n where i: "q = Inr u" "os_audit s = Some audit" "validateOnboardingManifest m e = Inr n"
      "map_of (ob_entries w) (onboardingKey t ws (mf_Key n)) = None" by blast
    let ?rec = "\<lparr>on_TenantID = TrimSpace t, on_WorkspaceID = TrimSpace ws, on_Manifest = n, on_Evidence = e,
      on_Submitter = identityKey prin, on_CreatedAt = now, on_UpdatedAt = now\<rparr>"
    let ?w = "w1\<lparr>ob_entries := ob_entries w @ [(onboardingKey t ws (mf_Key n), ?rec)]\<rparr>"
    from run q i auth(1) have "bindG (onboarding_appendAudit audit at prin ?rec ''connector.onboarding.submit'' [])
        (\<lambda>_. ret ?rec) ?w = (r, w')"
      by (simp add: onboarding_Submit_def go_simps Let_def)
    from appendAudit_effect [OF s i(2) this] have e': "ob_entries w' = ob_entries w @ [(onboardingKey t ws (mf_Key n), ?rec)]"
      by simp
    have "submitted (identityKey prin) ?rec"
      using i(3) by (auto simp: submitted_def validateOnboardingManifest_def Let_def split: sum.splits if_splits)
    with i auth(2) [OF i(1)] e' show ?thesis by blast
  next
    case False
    with run q auth(1) have "ob_entries w' = ob_entries w"
      by (auto simp: onboarding_Submit_def go_simps Let_def split: sum.splits option.splits)
    then show ?thesis ..
  qed
qed

lemma check_edges:
  "check_submit_for_review r = Inr c \<Longrightarrow>
     onboarding_edge who (CallSubmitForReview k v) r (moved StatusInReview (on_Evidence c) c\<lparr>on_UpdatedAt := at\<rparr>)"
  "check_review prin r = Inr c \<Longrightarrow> onboarding_edge (identityKey prin) (CallReview k v ok) r
     (moved (if ok then StatusApproved else StatusRejected) (on_Evidence c) c\<lparr>on_UpdatedAt := at\<rparr>)"
  "check_enable prin r = Inr c \<Longrightarrow>
     onboarding_edge (identityKey prin) (CallEnable k v) r (moved StatusEnabled (on_Evidence c) c\<lparr>on_UpdatedAt := at\<rparr>)"
  "check_disable r = Inr c \<Longrightarrow>
     onboarding_edge who (CallDisable k v) r (moved StatusDisabled (on_Evidence c) c\<lparr>on_UpdatedAt := at\<rparr>)"
proof -
  have m: "moved st ev (x\<lparr>on_Evidence := y\<rparr>) = moved st ev x" for st ev x y by (simp add: moved_def)
  show "check_submit_for_review r = Inr c \<Longrightarrow>
     onboarding_edge who (CallSubmitForReview k v) r (moved StatusInReview (on_Evidence c) c\<lparr>on_UpdatedAt := at\<rparr>)"
    by (auto simp: check_submit_for_review_def intro: onboarding_edge.intros split: if_splits)
  show "check_disable r = Inr c \<Longrightarrow>
     onboarding_edge who (CallDisable k v) r (moved StatusDisabled (on_Evidence c) c\<lparr>on_UpdatedAt := at\<rparr>)"
    by (auto simp: check_disable_def intro: onboarding_edge.intros split: if_splits)
  show "check_review prin r = Inr c \<Longrightarrow> onboarding_edge (identityKey prin) (CallReview k v ok) r
     (moved (if ok then StatusApproved else StatusRejected) (on_Evidence c) c\<lparr>on_UpdatedAt := at\<rparr>)"
    using onboarding_edge.reviewed [of r "identityKey prin" k v ok at]
    by (auto simp: check_review_def m split: if_splits)
  show "check_enable prin r = Inr c \<Longrightarrow>
     onboarding_edge (identityKey prin) (CallEnable k v) r (moved StatusEnabled (on_Evidence c) c\<lparr>on_UpdatedAt := at\<rparr>)"
    using onboarding_edge.enabled [of r "identityKey prin" k v at]
    by (auto simp: check_enable_def Let_def m split: if_splits)
qed

lemma edge_effect:
  assumes "ob_entries w' = ob_entries w \<or> permits s prin t ws action w \<and>
    (\<exists>lookup found checked. map_of (ob_entries w) lookup = Some found \<and> check found = Inr checked \<and>
       ob_entries w' = set_entry lookup (moved status (on_Evidence checked) checked\<lparr>on_UpdatedAt := now\<rparr>) (ob_entries w))"
    and "\<And>found checked. check found = Inr checked \<Longrightarrow>
       onboarding_edge who call found (moved status (on_Evidence checked) checked\<lparr>on_UpdatedAt := now\<rparr>)"
  shows "ob_entries w' = ob_entries w \<or> permits s prin t ws action w \<and> call_effect who call (ob_entries w) (ob_entries w')"
  using assms unfolding call_effect_def by blast

lemma onboarding_call_effect:
  assumes s: "service_apart s" and run: "onboarding_call (Some s) now at prin t ws call w = (r, w')"
  shows "ob_entries w' = ob_entries w
    \<or> permits s prin t ws (required_action call) w \<and> call_effect (identityKey prin) call (ob_entries w) (ob_entries w')"
proof (cases call)
  case (CallSubmit m e)
  with run have "onboarding_Submit (Some s) now at prin t ws m e w = (r, w')" by simp
  from Submit_effect [OF s this] CallSubmit show ?thesis unfolding call_effect_def by auto
next
  case (CallSubmitForReview k v)
  with run have t: "onboarding_transition (Some s) now at prin t ws k v StatusInReview ActionConnectorOnboard
      check_submit_for_review w = (r, w')" by (simp add: SubmitForReview_def)
  show ?thesis unfolding CallSubmitForReview required_action.simps
    by (rule edge_effect [OF transition_effect [OF s t] check_edges(1)])
next
  case (CallReview k v ok)
  with run have t: "onboarding_transition (Some s) now at prin t ws k v (if ok then StatusApproved else StatusRejected)
      ActionConnectorReview (check_review prin) w = (r, w')" by (simp add: Review_def)
  show ?thesis unfolding CallReview required_action.simps
    by (rule edge_effect [OF transition_effect [OF s t] check_edges(2)])
next
  case (CallEnable k v)
  with run have t: "onboarding_transition (Some s) now at prin t ws k v StatusEnabled ActionConnectorApprove (check_enable prin) w = (r, w')"
    by (simp add: Enable_def)
  show ?thesis unfolding CallEnable required_action.simps
    by (rule edge_effect [OF transition_effect [OF s t] check_edges(3)])
next
  case (CallDisable k v)
  with run have t: "onboarding_transition (Some s) now at prin t ws k v StatusDisabled ActionConnectorApprove check_disable w = (r, w')"
    by (simp add: Disable_def)
  show ?thesis unfolding CallDisable required_action.simps
    by (rule edge_effect [OF transition_effect [OF s t] check_edges(4)])
qed

section \<open>Runs\<close>

text \<open>Any calls by any principals; the log has the calls that changed the entries, with who made them.\<close>

inductive onboarding_run ::
  "'x OnboardingState_scheme OnboardingService \<Rightarrow> 'x OnboardingState_scheme \<Rightarrow> (IdentityKey \<times> OnboardingCall) list
     \<Rightarrow> 'x OnboardingState_scheme \<Rightarrow> bool" for s w0 where
  start: "onboarding_run s w0 [] w0"
| call: "onboarding_run s w0 log w \<Longrightarrow> onboarding_call (Some s) now at prin t ws c w = (r, w') \<Longrightarrow>
    onboarding_run s w0 (log @ (if ob_entries w' = ob_entries w then [] else [(identityKey prin, c)])) w'"

definition was_submitted :: "(IdentityKey \<times> OnboardingCall) list \<Rightarrow> OnboardingRecord \<Rightarrow> bool" where
  "was_submitted log r \<longleftrightarrow> (\<exists>m e. (on_Submitter r, CallSubmit m e) \<in> set log)"

definition was_reviewed :: "(IdentityKey \<times> OnboardingCall) list \<Rightarrow> OnboardingRecord \<Rightarrow> bool" where
  "was_reviewed log r \<longleftrightarrow>
     (\<exists>i k v ok. (i, CallReview k v ok) \<in> set log \<and> i \<noteq> on_Submitter r \<and> ik_Subject i = ev_Reviewer (on_Evidence r))"

definition was_enabled :: "(IdentityKey \<times> OnboardingCall) list \<Rightarrow> OnboardingRecord \<Rightarrow> bool" where
  "was_enabled log r \<longleftrightarrow>
     (\<exists>i k v. (i, CallEnable k v) \<in> set log \<and> i \<noteq> on_Submitter r \<and> ik_Subject i = ev_Approver (on_Evidence r)
        \<and> ik_Subject i \<noteq> ev_Reviewer (on_Evidence r))"

definition passed :: "OnboardingEvidence \<Rightarrow> bool" where
  "passed e \<longleftrightarrow> ev_CompatibilityPass e \<and> ev_FixturePass e \<and> ev_RedactionPass e \<and> ev_OperatorAudit e"

definition record_history :: "(IdentityKey \<times> OnboardingCall) list \<Rightarrow> OnboardingRecord \<Rightarrow> bool" where
  "record_history log r \<longleftrightarrow>
     was_submitted log r
     \<and> (case status_of r of
          StatusDraft \<Rightarrow> True
        | StatusInReview \<Rightarrow> True
        | StatusApproved \<Rightarrow> was_reviewed log r
        | StatusRejected \<Rightarrow> was_reviewed log r
        | StatusEnabled \<Rightarrow> was_reviewed log r \<and> was_enabled log r \<and> passed (on_Evidence r)
        | StatusDisabled \<Rightarrow> was_reviewed log r \<and> was_enabled log r \<and> passed (on_Evidence r)
        | _ \<Rightarrow> False)"

lemma history_mono:
  "was_submitted log r \<Longrightarrow> was_submitted (log @ later) r" "was_reviewed log r \<Longrightarrow> was_reviewed (log @ later) r"
  "was_enabled log r \<Longrightarrow> was_enabled (log @ later) r"
  unfolding was_submitted_def was_reviewed_def was_enabled_def set_append by blast+

lemma record_history_mono: "record_history log r \<Longrightarrow> record_history (log @ later) r"
  by (cases "status_of r") (simp_all add: record_history_def history_mono)

lemma moved_fields [simp]:
  "on_Submitter (moved st ev r) = on_Submitter r" "on_Evidence (moved st ev r) = ev" "status_of (moved st ev r) = st"
  by (simp_all add: moved_def)

lemma history_moved:
  "was_submitted log (moved st ev r\<lparr>on_UpdatedAt := at\<rparr>) \<longleftrightarrow> was_submitted log r"
  "was_reviewed log r \<Longrightarrow> ev_Reviewer ev = ev_Reviewer (on_Evidence r) \<Longrightarrow> was_reviewed log (moved st ev r\<lparr>on_UpdatedAt := at\<rparr>)"
  "was_enabled log r \<Longrightarrow> ev_Reviewer ev = ev_Reviewer (on_Evidence r) \<Longrightarrow> ev_Approver ev = ev_Approver (on_Evidence r)
     \<Longrightarrow> was_enabled log (moved st ev r\<lparr>on_UpdatedAt := at\<rparr>)"
  by (simp_all add: was_submitted_def was_reviewed_def was_enabled_def)

lemma record_history_edge:
  "onboarding_edge who c r r' \<Longrightarrow> record_history log r \<Longrightarrow> record_history (log @ [(who, c)]) r'"
proof (induction rule: onboarding_edge.induct)
  case (review_asked r k v at)
  then show ?case by (simp add: record_history_def history_moved history_mono)
next
  case (reviewed r k v ok at)
  have "was_reviewed (log @ [(who, CallReview k v ok)])
      (moved (if ok then StatusApproved else StatusRejected) ((on_Evidence r)\<lparr>ev_Reviewer := ik_Subject who\<rparr>) r\<lparr>on_UpdatedAt := at\<rparr>)"
    using reviewed.hyps unfolding was_reviewed_def
    by (intro exI [of _ who] exI [of _ k] exI [of _ v] exI [of _ ok]) auto
  with reviewed.prems show ?case
    by (cases ok) (simp_all add: record_history_def history_moved history_mono)
next
  case (enabled r k v at)
  let ?e = "(on_Evidence r)\<lparr>ev_OwnerSignoff := True, ev_Approver := ik_Subject who\<rparr>"
  have "was_enabled (log @ [(who, CallEnable k v)]) (moved StatusEnabled ?e r\<lparr>on_UpdatedAt := at\<rparr>)"
    using enabled.hyps unfolding was_enabled_def
    by (intro exI [of _ who] exI [of _ k] exI [of _ v]) auto
  moreover have "was_reviewed (log @ [(who, CallEnable k v)]) (moved StatusEnabled ?e r\<lparr>on_UpdatedAt := at\<rparr>)"
    using enabled.hyps(1) enabled.prems by (intro history_moved(2) history_mono) (simp_all add: record_history_def)
  ultimately show ?case
    using enabled.hyps enabled.prems by (simp add: record_history_def history_moved history_mono passed_def)
next
  case (disabled r k v at)
  then show ?case by (simp add: record_history_def history_moved history_mono)
qed

definition entries_history :: "(IdentityKey \<times> OnboardingCall) list \<Rightarrow> (string \<times> OnboardingRecord) list \<Rightarrow> bool" where
  "entries_history log entries \<longleftrightarrow> distinct (map fst entries) \<and> (\<forall>(k, r) \<in> set entries. record_history log r)"

lemma call_effect_history:
  assumes "call_effect who c old new" "entries_history log old"
  shows "entries_history (log @ [(who, c)]) new"
  using assms(1) unfolding call_effect_def
proof (elim disjE exE conjE)
  fix key r m e assume c: "c = CallSubmit m e" and k: "map_of old key = None" and r: "submitted who r" "new = old @ [(key, r)]"
  have "record_history (log @ [(who, c)]) r"
    using r(1) c by (auto simp: submitted_def record_history_def was_submitted_def)
  with assms(2) k r(2) show ?thesis
    using record_history_mono unfolding entries_history_def by (fastforce simp: map_of_eq_None_iff)
next
  fix key r r' assume k: "map_of old key = Some r" "onboarding_edge who c r r'" "new = set_entry key r' old"
  from k(1) assms(2) have "record_history log r" by (auto simp: entries_history_def dest: map_of_SomeD)
  from record_history_edge [OF k(2) this] assms(2) k(3) show ?thesis
    using record_history_mono unfolding entries_history_def k(3) map_fst_set_entry by (auto simp: set_entry_def)
qed

lemma onboarding_run_history:
  "onboarding_run s w0 log w \<Longrightarrow> service_apart s \<Longrightarrow> ob_entries w0 = [] \<Longrightarrow> entries_history log (ob_entries w)"
proof (induction rule: onboarding_run.induct)
  case start
  then show ?case by (simp add: entries_history_def)
next
  case (call log w now at prin t ws c r w')
  with onboarding_call_effect [OF call.prems(1) call.hyps(2)] show ?case
    using call_effect_history by auto
qed

inductive_cases onboarding_edgeE: "onboarding_edge who c r r'"

lemma onboarding_edge_open:
  "onboarding_edge who c r r' \<Longrightarrow> status_of r \<in> {StatusDraft, StatusInReview, StatusApproved, StatusEnabled}"
  by (induction rule: onboarding_edge.induct) auto

lemma call_effect_terminal:
  assumes "call_effect who c old new" "map_of old k = Some r" "status_of r \<in> {StatusRejected, StatusDisabled}"
  shows "map_of new k = Some r"
  using assms(1) unfolding call_effect_def
proof (elim disjE exE conjE)
  fix key r1 m e assume "map_of old key = None" "new = old @ [(key, r1)]"
  with assms(2) show ?thesis by (simp add: map_add_def)
next
  fix key r1 r2 assume k: "map_of old key = Some r1" "onboarding_edge who c r1 r2" "new = set_entry key r2 old"
  from onboarding_edge_open [OF k(2)] k(1) assms(2,3) have "key \<noteq> k" by auto
  with k(3) assms(2) show ?thesis by (simp add: map_of_set_entry)
qed

section \<open>Properties\<close>


definition sample_reader :: "OnboardingState MembershipReader" where
  "sample_reader key t ws = ret \<lparr>wm_TenantID = t, wm_WorkspaceID = ws, wm_Identity = key, wm_Role = RoleOwner, wm_Status = MembershipActive\<rparr>"

definition sample_onboarding :: "OnboardingState OnboardingService" where
  "sample_onboarding = \<lparr>os_authorizer = Some (Some sample_reader), os_audit = Some (\<lambda>_. ret ())\<rparr>"

lemma sample_onboarding_apart: "service_apart sample_onboarding"
  by (simp add: service_apart_def sample_onboarding_def leaves_entries_def sample_reader_def ret_def)

definition person :: "string \<Rightarrow> Principal" where
  "person n = \<lparr>p_Kind = PrincipalUser, p_Issuer = ''idp'', p_Subject = n, p_Audience = [], p_Email = [],
     p_EmailVerified = False, p_Name = [], p_PreferredUsername = [], p_Groups = [], p_Scopes = []\<rparr>"

definition sample_evidence :: OnboardingEvidence where
  "sample_evidence = \<lparr>ev_FixtureDigest = mf_ContractHash sample_manifest, ev_RedactionPolicyDigest = mf_ContractHash sample_manifest,
     ev_SourceCommit = ''abcdef1'', ev_CompatibilityPass = True, ev_FixturePass = True, ev_RedactionPass = True,
     ev_OperatorAudit = True, ev_OwnerSignoff = False, ev_Reviewer = [], ev_Approver = []\<rparr>"

lemma sample_onboarding_authorize:
  "p_Subject prin \<noteq> [] \<Longrightarrow> prin = person n \<Longrightarrow> roleAllows RoleOwner action \<Longrightarrow>
     onboarding_authorize (Some sample_onboarding) prin ''t'' ''w'' action st = (Inr (), st)"
  using roleAllows_known [of RoleOwner action]
  by (simp add: onboarding_authorize_def sample_onboarding_def Authorize_def sample_reader_def go_simps trim_simps
      person_def identityKey_def del: roleAllows.simps)

definition sample_pending :: "ConnectorStatus \<Rightarrow> int \<Rightarrow> OnboardingEvidence \<Rightarrow> OnboardingRecord" where
  "sample_pending status revision evidence =
     \<lparr>on_TenantID = ''t'', on_WorkspaceID = ''w'', on_Manifest = sample_manifest\<lparr>mf_FixtureDigest := mf_ContractHash sample_manifest,
        mf_RedactionPolicyDigest := mf_ContractHash sample_manifest, mf_SourceCommit := ''abcdef1'', mf_Status := status,
        mf_Revision := revision\<rparr>,
      on_Evidence = evidence, on_Submitter = identityKey (person ''ann''), on_CreatedAt = 5, on_UpdatedAt = 5\<rparr>"

definition sample_lookup :: string where
  "sample_lookup = onboardingKey ''t'' ''w'' sample_key"

lemma sample_validated:
  "validateOnboardingManifest sample_manifest sample_evidence = Inr (on_Manifest (sample_pending StatusDraft 1 sample_evidence))"
proof -
  have d: "hashPattern (mf_ContractHash sample_manifest)" "\<not> blank (mf_ContractHash sample_manifest)"
    "ToLower (TrimSpace (mf_ContractHash sample_manifest)) = mf_ContractHash sample_manifest"
    using sample_digest digest_pattern_fixed [OF sample_digest] by (simp_all add: hashPattern_def sample_manifest_def blank_def)
  have c: "sourceCommitPattern ''abcdef1''" "\<not> blank ''abcdef1''" "ToLower (TrimSpace ''abcdef1'') = ''abcdef1''"
    by (simp_all add: sourceCommitPattern_def lower_hex_def less_eq_char_def trim_simps lower_char_def)
  have m: "mf_Status sample_manifest = ConnectorUnset" "mf_Revision sample_manifest = 0" by (simp_all add: sample_manifest_def)
  show ?thesis
    unfolding validateOnboardingManifest_def m
    by (simp add: sample_evidence_def or_else_def d c sample_normalized Let_def sample_pending_def)
qed

lemma sample_onboarded:
  "onboarding_call (Some sample_onboarding) 5 5 (person ''ann'') ''t'' ''w'' (CallSubmit sample_manifest sample_evidence) \<lparr>ob_entries = []\<rparr>
     = (Inr (sample_pending StatusDraft 1 sample_evidence), \<lparr>ob_entries = [(sample_lookup, sample_pending StatusDraft 1 sample_evidence)]\<rparr>)"
proof -
  have "onboarding_authorize (Some sample_onboarding) (person ''ann'') ''t'' ''w'' ActionConnectorOnboard st = (Inr (), st)" for st
    by (rule sample_onboarding_authorize [of _ "''ann''"]) (simp_all add: person_def knownAction_def)
  moreover have "mf_Key (on_Manifest (sample_pending st v ev)) = sample_key" for st v ev
    by (simp add: sample_pending_def sample_key_normal)
  ultimately show ?thesis
    by (simp add: onboarding_Submit_def go_simps sample_validated Let_def onboarding_appendAudit_def sample_lookup_def)
       (simp add: sample_onboarding_def go_simps sample_validated onboarding_appendAudit_def sample_pending_def trim_simps
          sample_key_normal Let_def)
qed

lemma sample_moved:
  assumes "check (sample_pending st v ev) = Inr (sample_pending st v ev')" "roleAllows RoleOwner action" "n \<noteq> []" "v < 100"
  shows "onboarding_transition (Some sample_onboarding) 5 5 (person n) ''t'' ''w'' sample_key v status action check
       \<lparr>ob_entries = [(sample_lookup, sample_pending st v ev)]\<rparr>
     = (Inr (sample_pending status (v + 1) ev'), \<lparr>ob_entries = [(sample_lookup, sample_pending status (v + 1) ev')]\<rparr>)"
proof -
  have "onboarding_authorize (Some sample_onboarding) (person n) ''t'' ''w'' action s = (Inr (), s)" for s
    using assms by (intro sample_onboarding_authorize [of _ n]) (simp_all add: person_def)
  moreover have "mf_Revision (on_Manifest (sample_pending st v ev)) = v" by (simp add: sample_pending_def)
  moreover have "(sample_pending st v ev')\<lparr>on_Manifest := (on_Manifest (sample_pending st v ev'))
      \<lparr>mf_Status := status, mf_Revision := incr64 (mf_Revision (on_Manifest (sample_pending st v ev')))\<rparr>, on_UpdatedAt := 5\<rparr>
      = sample_pending status (v + 1) ev'"
    using assms(4) by (simp add: sample_pending_def incr64_small)
  ultimately show ?thesis
    using assms(1) by (simp add: onboarding_transition_def go_simps sample_key_normal Let_def sample_lookup_def [symmetric]
        set_entry_def) (simp add: sample_onboarding_def onboarding_appendAudit_def go_simps)
qed


text \<open>
  C38: every change is an authorized step of the life cycle. A call leaves the records as they
  were, or its caller is an active member of exactly this tenant and workspace whose role
  allows what the call needs, and it adds one draft at revision 1 submitted by the caller or
  moves one record along one edge of the life cycle.
\<close>

theorem onboarding_authorized:
  assumes "service_apart s" "onboarding_call (Some s) now at prin t ws call w = (r, w')" "ob_entries w' \<noteq> ob_entries w"
  shows "(\<exists>reader m w1. os_authorizer s = Some (Some reader) \<and> reader (identityKey prin) t ws w = (Inr m, w1)
      \<and> p_Kind prin = PrincipalUser \<and> wm_Status m = MembershipActive \<and> wm_Identity m = identityKey prin
      \<and> wm_TenantID m = t \<and> wm_WorkspaceID m = ws \<and> roleAllows (wm_Role m) (required_action call))
    \<and> call_effect (identityKey prin) call (ob_entries w) (ob_entries w')"
proof -
  from onboarding_call_effect [OF assms(1,2)] assms(3)
  have p: "permits s prin t ws (required_action call) w" "call_effect (identityKey prin) call (ob_entries w) (ob_entries w')"
    by auto
  from p(1) show ?thesis
    unfolding permits_def Authorize_Inr using p(2) by blast
qed

theorem onboarding_authorized_witness:
  "call_effect (identityKey (person ''ann'')) (CallSubmit sample_manifest sample_evidence) []
     [(sample_lookup, sample_pending StatusDraft 1 sample_evidence)]"
  using onboarding_authorized [OF sample_onboarding_apart sample_onboarded] by simp

text \<open>
  Rejection and disabling are final: whatever calls follow, a rejected or disabled record
  never changes again and keeps its key, so the connector cannot be submitted anew.
\<close>

theorem onboarding_terminal:
  assumes "service_apart s" "map_of (ob_entries w0) k = Some r" "status_of r \<in> {StatusRejected, StatusDisabled}"
    and "onboarding_run s w0 log w"
  shows "map_of (ob_entries w) k = Some r"
  using assms(4)
proof induction
  case start
  show ?case by fact
next
  case (call log w now at prin t ws c res w')
  with onboarding_call_effect [OF assms(1) call.hyps(2)] call_effect_terminal [OF _ call.IH assms(3)]
  show ?case by auto
qed

theorem onboarding_terminal_witness:
  "map_of (ob_entries \<lparr>ob_entries = [(sample_lookup, sample_pending StatusRejected 3 sample_evidence)]\<rparr>) sample_lookup
     = Some (sample_pending StatusRejected 3 sample_evidence)"
  using onboarding_terminal [OF sample_onboarding_apart _ _ onboarding_run.start,
      of "\<lparr>ob_entries = [(sample_lookup, sample_pending StatusRejected 3 sample_evidence)]\<rparr>" sample_lookup
        "sample_pending StatusRejected 3 sample_evidence"]
  by (simp add: sample_pending_def)

end
