(* ===== verification/Delivery.thy ===== *)
theory Delivery
  imports Canonical Patterns GoTime Sha256
begin

text \<open>
  \<open>projection/registry.go\<close>, \<open>retry.go\<close> and \<open>nats.go\<close>: the registry of event handlers, the
  classification of their errors, dead letters, and the loop that pulls messages from a durable
  consumer, runs the handler and settles each message. The broker, the handler, the clock and
  the context are calls on an abstract state \<open>'w\<close>; \<open>broker_laws\<close> says what the theorems rely on:
  each such call leaves its event in a trace. The lemmas show that the trace is a sequence of
  deliveries, each settled by the outcome of its handler.
\<close>

section \<open>The registry of handlers\<close>

record HandlerKey =
  hk_SourceSystem :: string
  hk_EventType :: string
  hk_SchemaVersion :: int

definition sourceSystemPattern :: "string \<Rightarrow> bool" where
  "sourceSystemPattern s = dotted_name 63 s"

definition eventTypePattern :: "string \<Rightarrow> bool" where
  "eventTypePattern s = dotted_name 159 s"

definition HandlerKey_normalized :: "HandlerKey \<Rightarrow> goerr + HandlerKey" where
  "HandlerKey_normalized k =
     (let key = k\<lparr>hk_SourceSystem := TrimSpace (hk_SourceSystem k), hk_EventType := TrimSpace (hk_EventType k)\<rparr>
      in if \<not> sourceSystemPattern (hk_SourceSystem key) \<or> \<not> eventTypePattern (hk_EventType key)
            \<or> hk_SchemaVersion key < 1
         then Inl (Wrap ''sourceSystem, eventType, and positive schemaVersion are required''
                    (ProjectionErr ErrInvalidHandlerKey))
         else Inr key)"

type_synonym 'w EventHandler = "string \<Rightarrow> ('w, unit) go"

text \<open>A registry is its map as an association list; \<open>nil\<close> pointers are \<open>None\<close>.\<close>

type_synonym 'w HandlerRegistry = "(HandlerKey \<times> 'w EventHandler) list"

definition handlers_Register ::
  "HandlerKey \<Rightarrow> 'w EventHandler option \<Rightarrow> 'w HandlerRegistry option \<Rightarrow> goerr option \<times> 'w HandlerRegistry option" where
  "handlers_Register key handler registry =
     (case (registry, handler) of
        (Some handlers, Some h) \<Rightarrow>
          (case HandlerKey_normalized key of
             Inl err \<Rightarrow> (Some err, registry)
           | Inr k \<Rightarrow> if map_of handlers k \<noteq> None then (Some (ProjectionErr ErrHandlerExists), registry)
                      else (None, Some (handlers @ [(k, h)])))
      | _ \<Rightarrow> (Some (Wrap ''registry and handler are required'' (ProjectionErr ErrInvalidHandlerKey)), registry))"

definition handlers_Lookup :: "HandlerKey \<Rightarrow> 'w HandlerRegistry option \<Rightarrow> goerr + 'w EventHandler" where
  "handlers_Lookup key registry =
     (case registry of
        None \<Rightarrow> Inl (ProjectionErr ErrHandlerNotFound)
      | Some handlers \<Rightarrow>
          (case HandlerKey_normalized key of
             Inl err \<Rightarrow> Inl err
           | Inr k \<Rightarrow> (case map_of handlers k of
                 None \<Rightarrow> Inl (ProjectionErr ErrHandlerNotFound)
               | Some h \<Rightarrow> Inr h)))"

definition Dispatch :: "HandlerKey \<Rightarrow> string \<Rightarrow> 'w HandlerRegistry option \<Rightarrow> ('w, unit) go" where
  "Dispatch key payload registry =
     (case handlers_Lookup key registry of Inl err \<Rightarrow> fail err | Inr handler \<Rightarrow> handler payload)"

section \<open>Error classes\<close>

definition boundedSafeMessage :: "string \<Rightarrow> string \<Rightarrow> string" where
  "boundedSafeMessage v fallback =
     (let s = TrimSpace v in if s = [] then fallback else if length s > 512 then take 512 s else s)"

definition transient_text :: string where
  "transient_text = ''transient projection failure''"

definition deterministic_text :: string where
  "deterministic_text = ''deterministic projection failure''"

definition DeterministicError :: "goerr \<Rightarrow> string \<Rightarrow> goerr" where
  "DeterministicError err safeMessage =
     RetryError ErrorDeterministic (boundedSafeMessage safeMessage deterministic_text) err"

definition TransientError :: "goerr \<Rightarrow> string \<Rightarrow> goerr" where
  "TransientError err safeMessage = RetryError ErrorTransient (boundedSafeMessage safeMessage transient_text) err"

text \<open>\<open>RetryError.Error\<close> of a class and a message, and \<open>errors.As\<close> for that type.\<close>

definition RetryError_Error :: "ErrorClass \<Rightarrow> string \<Rightarrow> string" where
  "RetryError_Error c safeMessage =
     (if safeMessage \<noteq> [] then safeMessage
      else if c = ErrorDeterministic then deterministic_text else transient_text)"

fun as_RetryError :: "goerr \<Rightarrow> (ErrorClass \<times> string) option" where
  "as_RetryError (RetryError c m _) = Some (c, m)"
| "as_RetryError (Wrap _ e) = as_RetryError e"
| "as_RetryError _ = None"

definition errorClass :: "goerr \<Rightarrow> ErrorClass \<times> string" where
  "errorClass err =
     (case as_RetryError err of
        Some (c, m) \<Rightarrow> (c, boundedSafeMessage m (RetryError_Error c m))
      | None \<Rightarrow> (ErrorTransient, transient_text))"

section \<open>Dead letters\<close>

record DeadLetter =
  dl_EventID :: string
  dl_Consumer :: string
  dl_OriginalSubject :: string
  dl_Attempts :: "64 word"
  dl_Reason :: string
  dl_CreatedAt :: time

definition subject_breakers :: string where
  "subject_breakers = [CHR '' '', CHR ''*'', CHR ''>'', CHR 0x09, CHR 0x0D, CHR 0x0A]"

definition DeadLetter_Validate :: "DeadLetter \<Rightarrow> goerr option" where
  "DeadLetter_Validate letter =
     (if list_ex blank [dl_EventID letter, dl_Consumer letter, dl_OriginalSubject letter]
         \<or> dl_Attempts letter < 1 \<or> blank (dl_Reason letter) \<or> IsZero (dl_CreatedAt letter)
      then Some (Anon ''dead letter event identity, attempts, reason, and timestamp are required'')
      else if length (dl_Reason letter) > 512
      then Some (Anon ''dead letter reason cannot exceed 512 characters'')
      else if ContainsAny (dl_Consumer letter @ dl_OriginalSubject letter) subject_breakers
      then Some (Anon ''dead letter subject identity contains invalid characters'')
      else None)"

text \<open>\<open>json.Marshal\<close> of a letter fails only on a year of more than four digits.\<close>

definition DeadLetter_json :: "DeadLetter \<Rightarrow> string option" where
  "DeadLetter_json letter =
     (if fst (date_of_days (nat (dl_CreatedAt letter div 86400000000000))) > 9999 then None
      else Some (marshal (JObject
        [(''eventId'', JString (dl_EventID letter)), (''consumer'', JString (dl_Consumer letter)),
         (''originalSubject'', JString (dl_OriginalSubject letter)),
         (''attempts'', JNumber (nat_dec (unat (dl_Attempts letter)))), (''reason'', JString (dl_Reason letter)),
         (''createdAt'', JString (RFC3339Nano (dl_CreatedAt letter)))])))"

definition deadLetterMessageID :: "DeadLetter \<Rightarrow> string" where
  "deadLetterMessageID letter =
     ''dlq-'' @ take 32 (sha256_hex (dl_EventID letter @ [CHR 0x00] @ dl_Consumer letter @ [CHR 0x00]
        @ nat_dec (unat (dl_Attempts letter))))"

text \<open>\<open>jetstream.Publisher\<close>: the subject, the payload and the message id of a publication.\<close>

type_synonym 'w JetStreamPublisher = "string \<Rightarrow> string \<Rightarrow> string \<Rightarrow> ('w, unit) go"

record 'w NATSDeadLetterPublisher =
  np_js :: "'w JetStreamPublisher option"
  np_subjectPrefix :: string

definition NewNATSDeadLetterPublisher ::
  "'w JetStreamPublisher option \<Rightarrow> string \<Rightarrow> goerr + 'w NATSDeadLetterPublisher" where
  "NewNATSDeadLetterPublisher js prefix0 =
     (let subjectPrefix = TrimSuffix (TrimSpace prefix0) ''.''
      in if js = None \<or> subjectPrefix = []
         then Inl (Anon ''JetStream publisher and DLQ subject prefix are required'')
         else if ContainsAny subjectPrefix subject_breakers
         then Inl (Anon ''DLQ subject prefix contains invalid characters'')
         else Inr \<lparr>np_js = js, np_subjectPrefix = subjectPrefix\<rparr>)"

definition dlq_Publish :: "'w NATSDeadLetterPublisher option \<Rightarrow> DeadLetter \<Rightarrow> ('w, unit) go" where
  "dlq_Publish publisher letter =
     (case publisher of
        None \<Rightarrow> fail (Anon ''DLQ publisher is not configured'')
      | Some p \<Rightarrow> (case np_js p of
            None \<Rightarrow> fail (Anon ''DLQ publisher is not configured'')
          | Some js \<Rightarrow>
              bindG (checkG (DeadLetter_Validate letter)) (\<lambda>_.
                case DeadLetter_json letter of
                  None \<Rightarrow> fail (Wrap ''encode dead letter'' (Anon ''year outside of range [0,9999]''))
                | Some payload \<Rightarrow>
                    catchG (js (np_subjectPrefix p @ ''.'' @ dl_Consumer letter) payload (deadLetterMessageID letter))
                      (\<lambda>err. fail (Wrap ''publish dead letter'' err)) (\<lambda>_. ret ()))))"

text \<open>
  \<open>messageEventID\<close>: the decoder sets the field from every key equal to \<open>eventId\<close> up to case, in
  order; \<open>null\<close> leaves it, another kind of value is an error.
\<close>

fun eventId_of :: "string \<Rightarrow> (string \<times> json) list \<Rightarrow> string option" where
  "eventId_of cur [] = Some cur"
| "eventId_of cur ((k, v) # kvs) =
     (if EqualFold k ''eventId''
      then (case v of JString s \<Rightarrow> eventId_of s kvs | JNull \<Rightarrow> eventId_of cur kvs | _ \<Rightarrow> None)
      else eventId_of cur kvs)"

definition decoded_eventId :: "string \<Rightarrow> string option" where
  "decoded_eventId data =
     (case parse_json data of
        Some (JObject kvs) \<Rightarrow> if json_depth (JObject kvs) \<le> 10000 then eventId_of [] kvs else None
      | Some JNull \<Rightarrow> Some []
      | _ \<Rightarrow> None)"

definition data_EventID :: "string \<Rightarrow> string" where
  "data_EventID data =
     (case decoded_eventId data of
        Some i \<Rightarrow> if TrimSpace i \<noteq> [] then TrimSpace i else ''payload-'' @ take 32 (sha256_hex data)
      | None \<Rightarrow> ''payload-'' @ take 32 (sha256_hex data))"

section \<open>The configuration of a consumer\<close>

definition millisecond :: time where "millisecond = 1000000"
definition second :: time where "second = 1000 * millisecond"

record PullRunnerConfig =
  pf_Stream :: string
  pf_Durable :: string
  pf_BatchSize :: int
  pf_MaxDeliver :: int
  pf_Backoff :: "time list"
  pf_FetchTimeout :: time
  pf_AckTimeout :: time
  pf_RetryDelay :: time
  pf_DrainTimeout :: time

definition or_default :: "int \<Rightarrow> int \<Rightarrow> int" where
  "or_default x d = (if x = 0 then d else x)"

definition config_withDefaults :: "PullRunnerConfig \<Rightarrow> PullRunnerConfig" where
  "config_withDefaults c =
     c\<lparr>pf_BatchSize := or_default (pf_BatchSize c) 64, pf_MaxDeliver := or_default (pf_MaxDeliver c) 5,
       pf_Backoff := (if pf_Backoff c = [] then [250 * millisecond, second, 5 * second, 15 * second] else pf_Backoff c),
       pf_FetchTimeout := or_default (pf_FetchTimeout c) (10 * second),
       pf_AckTimeout := or_default (pf_AckTimeout c) (5 * second),
       pf_RetryDelay := or_default (pf_RetryDelay c) (250 * millisecond),
       pf_DrainTimeout := or_default (pf_DrainTimeout c) (10 * second)\<rparr>"

definition bad_config :: "string \<Rightarrow> goerr option" where
  "bad_config m = Some (Wrap m (ProjectionErr ErrInvalidConsumerConfig))"

definition PullRunnerConfig_Validate :: "PullRunnerConfig \<Rightarrow> goerr option" where
  "PullRunnerConfig_Validate c =
     (if blank (pf_Stream c) \<or> blank (pf_Durable c) then bad_config ''stream and durable are required''
      else if pf_BatchSize c < 1 \<or> pf_BatchSize c > 256 then bad_config ''batch size must be between 1 and 256''
      else if pf_MaxDeliver c < 1 \<or> pf_MaxDeliver c > 100 then bad_config ''max deliver must be between 1 and 100''
      else if int (length (pf_Backoff c)) > pf_MaxDeliver c
      then bad_config ''backoff cannot have more entries than max deliver''
      else if list_ex (\<lambda>delay. delay < 10 * millisecond \<or> delay > 30 * second) (pf_Backoff c)
      then bad_config ''backoff entries must be between 10ms and 30s''
      else if pf_FetchTimeout c < 100 * millisecond \<or> pf_FetchTimeout c > 60 * second
      then bad_config ''fetch timeout must be between 100ms and 60s''
      else if pf_AckTimeout c < 100 * millisecond \<or> pf_AckTimeout c > 60 * second
      then bad_config ''ack timeout must be between 100ms and 60s''
      else if pf_RetryDelay c < 10 * millisecond \<or> pf_RetryDelay c > 30 * second
      then bad_config ''retry delay must be between 10ms and 30s''
      else if pf_DrainTimeout c < 100 * millisecond \<or> pf_DrainTimeout c > 300 * second
      then bad_config ''drain timeout must be between 100ms and 5m''
      else None)"

definition retryDelay :: "PullRunnerConfig \<Rightarrow> 64 word \<Rightarrow> time" where
  "retryDelay c attempts =
     (if pf_Backoff c = [] then pf_RetryDelay c
      else let index = attempts - 1; n = word_of_nat (length (pf_Backoff c)) :: 64 word
           in pf_Backoff c ! unat (if index \<ge> n then n - 1 else index))"

section \<open>The pull loop\<close>

text \<open>
  \<open>jetstream.Msg\<close>: the data, the subject and the delivery count are those the server sent
  (\<open>None\<close> where \<open>Metadata\<close> fails), the settlements are calls.
\<close>

record MsgInfo =
  ms_Data :: string
  ms_Subject :: string
  ms_NumDelivered :: "64 word option"

record 'w Msg = MsgInfo +
  ms_DoubleAck :: "('w, unit) go"
  ms_NakWithDelay :: "time \<Rightarrow> ('w, unit) go"
  ms_TermWithReason :: "string \<Rightarrow> ('w, unit) go"

text \<open>
  The handler's goroutine under \<open>handle\<close>: it returns, before or while the runner drains, or
  the context is cancelled and \<open>DrainTimeout\<close> elapses first. Which of these happens is up to
  the scheduler and the clock, so it is an outcome of the call.
\<close>

datatype handler_outcome = HandlerReturned "goerr option" | DrainElapsed

text \<open>\<open>observability.Registry\<close>: a counter, and the time a handler took, by consumer and outcome.\<close>

record 'w Metrics =
  mx_IncCounter :: "string \<Rightarrow> string \<Rightarrow> 'w \<Rightarrow> 'w"
  mx_ObserveDuration :: "string \<Rightarrow> string \<Rightarrow> string \<Rightarrow> 'w \<Rightarrow> 'w"

record 'w PullRunner =
  pr_config :: PullRunnerConfig
  pr_handler :: "'w Msg \<Rightarrow> 'w \<Rightarrow> handler_outcome \<times> 'w"
  pr_dlq :: "(DeadLetter \<Rightarrow> ('w, unit) go) option"
  pr_metrics :: "'w Metrics option"
  pr_ctxDone :: "'w \<Rightarrow> bool \<times> 'w"
  pr_Now :: "'w \<Rightarrow> time \<times> 'w"

definition NewPullRunner ::
  "bool \<Rightarrow> PullRunnerConfig \<Rightarrow> ('w Msg \<Rightarrow> 'w \<Rightarrow> handler_outcome \<times> 'w) option
    \<Rightarrow> ('w \<Rightarrow> bool \<times> 'w) \<Rightarrow> ('w \<Rightarrow> time \<times> 'w) \<Rightarrow> goerr + 'w PullRunner" where
  "NewPullRunner has_provider config0 handler ctx clock =
     (let config = config_withDefaults config0
      in case (has_provider, handler) of
           (True, Some h) \<Rightarrow>
             (case PullRunnerConfig_Validate config of
                Some err \<Rightarrow> Inl err
              | None \<Rightarrow> Inr \<lparr>pr_config = config, pr_handler = h, pr_dlq = None, pr_metrics = None,
                           pr_ctxDone = ctx, pr_Now = clock\<rparr>)
         | _ \<Rightarrow> Inl (Wrap ''provider and handler are required'' (ProjectionErr ErrInvalidConsumerConfig)))"

definition count_metric :: "'w PullRunner \<Rightarrow> bool \<Rightarrow> string \<Rightarrow> 'w \<Rightarrow> 'w" where
  "count_metric runner cond name w =
     (case pr_metrics runner of
        Some mx \<Rightarrow> if cond then mx_IncCounter mx name (pf_Durable (pr_config runner)) w else w
      | None \<Rightarrow> w)"

definition outcome_label :: "handler_outcome \<Rightarrow> string" where
  "outcome_label h = (case h of HandlerReturned (Some _) \<Rightarrow> ''error'' | DrainElapsed \<Rightarrow> ''timeout''
                      | HandlerReturned None \<Rightarrow> ''success'')"

definition observe_handler :: "'w PullRunner \<Rightarrow> handler_outcome \<Rightarrow> 'w \<Rightarrow> 'w" where
  "observe_handler runner h w =
     (case pr_metrics runner of
        Some mx \<Rightarrow> mx_ObserveDuration mx ''record_hub_projection_handler_duration_seconds''
                     (pf_Durable (pr_config runner)) (outcome_label h) w
      | None \<Rightarrow> w)"

definition delivery_attempts :: "'z MsgInfo_scheme \<Rightarrow> 64 word" where
  "delivery_attempts message = (case ms_NumDelivered message of Some n \<Rightarrow> if n > 0 then n else 1 | None \<Rightarrow> 1)"

text \<open>Whether a failure of this class at this attempt is the last one.\<close>

definition exhausted :: "PullRunnerConfig \<Rightarrow> goerr \<Rightarrow> 64 word \<Rightarrow> bool" where
  "exhausted config err attempts \<longleftrightarrow>
     fst (errorClass err) = ErrorDeterministic \<or> attempts \<ge> word_of_int (pf_MaxDeliver config)"

definition dead_letter :: "PullRunnerConfig \<Rightarrow> 'z MsgInfo_scheme \<Rightarrow> goerr \<Rightarrow> time \<Rightarrow> DeadLetter" where
  "dead_letter config message err now =
     \<lparr>dl_EventID = data_EventID (ms_Data message), dl_Consumer = pf_Durable config,
      dl_OriginalSubject = ms_Subject message, dl_Attempts = delivery_attempts message,
      dl_Reason = snd (errorClass err), dl_CreatedAt = now\<rparr>"

definition retryMessage :: "'w PullRunner \<Rightarrow> 'w Msg \<Rightarrow> goerr \<Rightarrow> ('w, unit) go" where
  "retryMessage runner message err w0 =
     (let config = pr_config runner; attempts = delivery_attempts message;
          w1 = count_metric runner True ''record_hub_projection_failures_total'' w0;
          w2 = count_metric runner (attempts > 1) ''record_hub_projection_redeliveries_total'' w1;
          w3 = count_metric runner (errors_is err (ProjectionErr ErrProjectionVersionGap))
                 ''record_hub_projection_gaps_total'' w2
      in if exhausted config err attempts
         then (case pr_dlq runner of
             None \<Rightarrow> ms_NakWithDelay message (retryDelay config attempts) w3
           | Some publish \<Rightarrow>
               (let (now, w4) = pr_Now runner w3
                in bindG (publish (dead_letter config message err now)) (\<lambda>_ w.
                     ms_TermWithReason message (snd (errorClass err))
                       (count_metric runner True ''record_hub_projection_dlq_total'' w)) w4))
         else ms_NakWithDelay message (retryDelay config attempts) w3)"

text \<open>How the work on one message or one batch ends: \<open>Run\<close> returns, reconnects or goes on.\<close>

datatype progress = Stop | Reconnect | GoOn

text \<open>\<open>if ctx.Err() != nil { return nil }\<close> before \<open>next\<close>.\<close>

definition unless_done :: "'w PullRunner \<Rightarrow> ('w \<Rightarrow> progress \<times> 'w) \<Rightarrow> 'w \<Rightarrow> progress \<times> 'w" where
  "unless_done runner next w = (case pr_ctxDone runner w of (True, w') \<Rightarrow> (Stop, w') | (False, w') \<Rightarrow> next w')"

definition settle_failure :: "'w PullRunner \<Rightarrow> 'w Msg \<Rightarrow> goerr \<Rightarrow> 'w \<Rightarrow> progress \<times> 'w" where
  "settle_failure runner message err =
     unless_done runner (\<lambda>w. case retryMessage runner message err w of
       (Inl _, w') \<Rightarrow> (Reconnect, w') | (Inr _, w') \<Rightarrow> (GoOn, w'))"

definition settle_success :: "'w PullRunner \<Rightarrow> 'w Msg \<Rightarrow> 'w \<Rightarrow> progress \<times> 'w" where
  "settle_success runner message w =
     (case ms_DoubleAck message w of
        (Inl _, w') \<Rightarrow> unless_done runner (\<lambda>w. (Reconnect, w)) w'
      | (Inr _, w') \<Rightarrow> (GoOn, count_metric runner True ''record_hub_projection_applied_total'' w'))"

definition process_message :: "'w PullRunner \<Rightarrow> 'w Msg \<Rightarrow> 'w \<Rightarrow> progress \<times> 'w" where
  "process_message runner message =
     unless_done runner (\<lambda>w. case pr_handler runner message w of (outcome, w1) \<Rightarrow>
       (let w2 = observe_handler runner outcome w1
        in case outcome of
             DrainElapsed \<Rightarrow> (Stop, w2)
           | HandlerReturned (Some err) \<Rightarrow> settle_failure runner message err w2
           | HandlerReturned None \<Rightarrow> settle_success runner message w2))"

text \<open>\<open>for message := range batch.Messages()\<close>: up to the first message that does not go on.\<close>

fun process_batch :: "'w PullRunner \<Rightarrow> 'w Msg list \<Rightarrow> 'w \<Rightarrow> progress \<times> 'w" where
  "process_batch runner [] w = (GoOn, w)"
| "process_batch runner (m # ms) w =
     (case process_message runner m w of
        (GoOn, w') \<Rightarrow> process_batch runner ms w'
      | (other, w') \<Rightarrow> (other, w'))"

text \<open>
  What a consumer provides: \<open>Fetch\<close> returns a deadline error, another error, no batch, or a
  batch with its messages; \<open>BatchError\<close> is \<open>batch.Error() != nil\<close> afterwards; \<open>waitForRetry\<close>
  returns whether the timer fired before the context was done.
\<close>

datatype 'w fetched = FetchDeadline | FetchFailed | NoBatch | Batch "'w Msg list"

record ('w, 'c) pull_source =
  so_Consumer :: "'w \<Rightarrow> (goerr + 'c option) \<times> 'w"
  so_Fetch :: "'c \<Rightarrow> 'w \<Rightarrow> 'w fetched \<times> 'w"
  so_BatchError :: "'w \<Rightarrow> bool \<times> 'w"
  so_waitForRetry :: "'w \<Rightarrow> bool \<times> 'w"

text \<open>The loop variable \<open>consumer\<close>, or \<open>None\<close> once \<open>Run\<close> has returned.\<close>

type_synonym 'c run_state = "'c option option"

definition wait_or_stop :: "('w, 'c) pull_source \<Rightarrow> 'w \<Rightarrow> 'c run_state \<times> 'w" where
  "wait_or_stop src w = (case so_waitForRetry src w of (True, w') \<Rightarrow> (Some None, w') | (False, w') \<Rightarrow> (None, w'))"

definition stop_or :: "'w PullRunner \<Rightarrow> ('w \<Rightarrow> 'c run_state \<times> 'w) \<Rightarrow> 'w \<Rightarrow> 'c run_state \<times> 'w" where
  "stop_or runner next w = (case pr_ctxDone runner w of (True, w') \<Rightarrow> (None, w') | (False, w') \<Rightarrow> next w')"

definition after_batch :: "'w PullRunner \<Rightarrow> ('w, 'c) pull_source \<Rightarrow> 'c \<Rightarrow> progress \<Rightarrow> 'w \<Rightarrow> 'c run_state \<times> 'w" where
  "after_batch runner src c outcome w =
     (if outcome = Stop then (None, w)
      else (case so_BatchError src w of (failed, w1) \<Rightarrow>
        (case (if failed then pr_ctxDone runner w1 else (True, w1)) of (done, w2) \<Rightarrow>
           if (failed \<and> \<not> done) \<or> outcome = Reconnect then wait_or_stop src w2
           else (Some (Some c), w2))))"

definition fetch_and_process :: "'w PullRunner \<Rightarrow> ('w, 'c) pull_source \<Rightarrow> 'c \<Rightarrow> 'w \<Rightarrow> 'c run_state \<times> 'w" where
  "fetch_and_process runner src c w =
     (case so_Fetch src c w of
        (FetchDeadline, w') \<Rightarrow> stop_or runner (\<lambda>w. (Some (Some c), w)) w'
      | (FetchFailed, w') \<Rightarrow> stop_or runner (wait_or_stop src) w'
      | (NoBatch, w') \<Rightarrow> wait_or_stop src w'
      | (Batch ms, w') \<Rightarrow>
          (case process_batch runner ms w' of (outcome, w2) \<Rightarrow> after_batch runner src c outcome w2))"

text \<open>One turn of \<open>for\<close>: the consumer is looked up, if it must be, and then fetched from.\<close>

definition run_turn :: "'w PullRunner \<Rightarrow> ('w, 'c) pull_source \<Rightarrow> 'c option \<Rightarrow> 'w \<Rightarrow> 'c run_state \<times> 'w" where
  "run_turn runner src consumer =
     stop_or runner (\<lambda>w.
       case consumer of
         Some c \<Rightarrow> fetch_and_process runner src c w
       | None \<Rightarrow> (case so_Consumer src w of
             (Inl _, w') \<Rightarrow> stop_or runner (wait_or_stop src) w'
           | (Inr None, w') \<Rightarrow> wait_or_stop src w'
           | (Inr (Some c), w') \<Rightarrow> fetch_and_process runner src c w'))"

text \<open>\<open>Run\<close> for at most \<open>n\<close> turns; it ends only when its context is done.\<close>

fun Run :: "'w PullRunner \<Rightarrow> ('w, 'c) pull_source \<Rightarrow> nat \<Rightarrow> 'c run_state \<Rightarrow> 'w \<Rightarrow> 'c run_state \<times> 'w" where
  "Run runner src n None w = (None, w)"
| "Run runner src 0 (Some consumer) w = (Some consumer, w)"
| "Run runner src (Suc n) (Some consumer) w =
     (case run_turn runner src consumer w of (st, w') \<Rightarrow> Run runner src n st w')"

section \<open>The registry resolves exactly\<close>

lemma HandlerKey_normalized_Inr:
  "HandlerKey_normalized key = Inr k \<Longrightarrow>
     k = key\<lparr>hk_SourceSystem := TrimSpace (hk_SourceSystem key), hk_EventType := TrimSpace (hk_EventType key)\<rparr>
     \<and> sourceSystemPattern (hk_SourceSystem k) \<and> eventTypePattern (hk_EventType k) \<and> hk_SchemaVersion k \<ge> 1"
  by (auto simp: HandlerKey_normalized_def Let_def split: if_splits)

text \<open>What a sequence of registrations means: the first handler registered for each key counts.\<close>

fun first_handler :: "HandlerKey \<Rightarrow> (HandlerKey \<times> 'w EventHandler option) list \<Rightarrow> 'w EventHandler option" where
  "first_handler k [] = None"
| "first_handler k ((key, h) # rs) =
     (case (HandlerKey_normalized key, h) of
        (Inr k', Some f) \<Rightarrow> if k' = k then Some f else first_handler k rs
      | _ \<Rightarrow> first_handler k rs)"

definition register_all :: "(HandlerKey \<times> 'w EventHandler option) list \<Rightarrow> 'w HandlerRegistry option \<Rightarrow> 'w HandlerRegistry option" where
  "register_all rs registry = fold (\<lambda>(key, h) r. snd (handlers_Register key h r)) rs registry"

lemma register_all_map:
  "\<exists>handlers'. register_all rs (Some handlers) = Some handlers'
     \<and> (\<forall>k. map_of handlers' k = (case map_of handlers k of Some h \<Rightarrow> Some h | None \<Rightarrow> first_handler k rs))"
proof (induction rs arbitrary: handlers)
  case Nil
  then show ?case by (auto simp: register_all_def split: option.split)
next
  case (Cons r rs)
  obtain key h where r: "r = (key, h)" by force
  obtain hs1 where step: "snd (handlers_Register key h (Some handlers)) = Some hs1"
    and m: "\<And>k. map_of hs1 k = (case map_of handlers k of Some f \<Rightarrow> Some f | None \<Rightarrow> first_handler k [(key, h)])"
  proof (cases "HandlerKey_normalized key")
    case (Inl e)
    show ?thesis by (rule that [of handlers]) (cases h; auto simp: handlers_Register_def Inl split: option.split)+
  next
    case (Inr k)
    show ?thesis
    proof (cases h)
      case None
      show ?thesis by (rule that [of handlers]) (auto simp: handlers_Register_def None Inr split: option.split)
    next
      case (Some f)
      show ?thesis
      proof (cases "map_of handlers k")
        case None
        show ?thesis
          by (rule that [of "handlers @ [(k, f)]"])
             (auto simp: handlers_Register_def Some Inr None map_add_def split: option.split)
      next
        case old: (Some g)
        show ?thesis by (rule that [of handlers]) (auto simp: handlers_Register_def Some Inr old split: option.split)
      qed
    qed
  qed
  have run: "register_all (r # rs) (Some handlers) = register_all rs (Some hs1)"
    using step by (simp add: register_all_def r)
  have first: "first_handler k (r # rs) = (case first_handler k [(key, h)] of Some f \<Rightarrow> Some f | None \<Rightarrow> first_handler k rs)" for k
    by (auto simp: r split: sum.split option.split)
  from Cons.IH [of hs1] show ?case
    unfolding run by (auto simp: m first split: option.split)
qed

section \<open>Reasons and delays\<close>

lemma trim_back_nonempty:
  assumes "strip_any ws s = None" "[] \<notin> set ws" "s \<noteq> []" shows "trim_back ws s \<noteq> []"
proof
  assume e: "trim_back ws s = []"
  have "trim_front (map rev ws) t = [] \<Longrightarrow> t \<noteq> [] \<Longrightarrow> strip_any ws (rev t) \<noteq> None" for t
  proof (induction "length t" arbitrary: t rule: less_induct)
    case less
    show ?case
    proof (cases "strip_any (map rev ws) t")
      case None
      with less.prems show ?thesis by (simp add: trim_front.simps [of _ t])
    next
      case (Some r)
      then obtain w where w: "w \<in> set ws" "t = rev w @ r" using strip_any_Some by fastforce
      with assms(2) have l: "length r < length t" by (cases w) auto
      show ?thesis
      proof (cases "r = []")
        case True
        with w show ?thesis by (auto simp: strip_any_None)
      next
        case False
        from Some l less.prems(1) have "trim_front (map rev ws) r = []"
          by (simp add: trim_front.simps [of _ t])
        from less.hyps [OF l this False] have "strip_any ws (rev r) \<noteq> None" .
        with w(2) strip_any_prefix [of ws "rev r" w] show ?thesis by auto
      qed
    qed
  qed
  from this [of "rev s"] e assms show False by (simp add: trim_back_def)
qed

lemma not_blank_take:
  assumes "\<not> blank s" "n > 0" shows "\<not> blank (take n (TrimSpace s))"
proof -
  let ?t = "TrimSpace s"
  have "strip_any space_runes ?t = None" using trimmed_TrimSpace [of s] by (simp add: trimmed_def)
  then have f: "strip_any space_runes (take n ?t) = None"
    by (metis append_take_drop_id strip_any_prefix)
  from assms have "take n ?t \<noteq> []" by (simp add: blank_def)
  from trim_back_nonempty [OF f space_runes_nonempty(1) this] f show ?thesis
    by (simp add: blank_def TrimSpace_def trim_front_id)
qed

definition safe_reason :: "string \<Rightarrow> bool" where
  "safe_reason m \<longleftrightarrow> \<not> blank m \<and> length m \<le> 512"

lemma safe_texts: "safe_reason transient_text" "safe_reason deterministic_text"
  by (simp_all add: safe_reason_def transient_text_def deterministic_text_def trim_simps)

lemma boundedSafeMessage_safe: "safe_reason fallback \<or> \<not> blank m \<Longrightarrow> safe_reason (boundedSafeMessage m fallback)"
  using not_blank_take [of m 512] by (auto simp: boundedSafeMessage_def safe_reason_def Let_def blank_def)

text \<open>The message of a \<open>RetryError\<close> that its two constructors made is never blank.\<close>

definition safe_error :: "goerr \<Rightarrow> bool" where
  "safe_error err \<longleftrightarrow> (case as_RetryError err of Some (c, m) \<Rightarrow> m = [] \<or> \<not> blank m | None \<Rightarrow> True)"

lemma constructed_safe: "safe_error (DeterministicError err m)" "safe_error (TransientError err m)"
  using boundedSafeMessage_safe [of deterministic_text m] boundedSafeMessage_safe [of transient_text m] safe_texts
  by (simp_all add: safe_error_def DeterministicError_def TransientError_def safe_reason_def)

lemma errorClass_safe: "safe_error err \<Longrightarrow> safe_reason (snd (errorClass err))"
  by (auto simp: safe_error_def errorClass_def RetryError_Error_def safe_texts
      intro: boundedSafeMessage_safe split: option.splits)

lemma PullRunnerConfig_Validate_None:
  "PullRunnerConfig_Validate c = None \<longleftrightarrow>
     \<not> blank (pf_Stream c) \<and> \<not> blank (pf_Durable c) \<and> pf_BatchSize c \<in> {1..256} \<and> pf_MaxDeliver c \<in> {1..100}
     \<and> int (length (pf_Backoff c)) \<le> pf_MaxDeliver c
     \<and> (\<forall>d \<in> set (pf_Backoff c). d \<in> {10 * millisecond..30 * second})
     \<and> pf_FetchTimeout c \<in> {100 * millisecond..60 * second} \<and> pf_AckTimeout c \<in> {100 * millisecond..60 * second}
     \<and> pf_RetryDelay c \<in> {10 * millisecond..30 * second} \<and> pf_DrainTimeout c \<in> {100 * millisecond..300 * second}"
  unfolding PullRunnerConfig_Validate_def bad_config_def if_error_None list_ex_iff
  by (simp add: not_less conj_ac)

text \<open>
  The default backoff has four entries, so a limit of one to three deliveries is refused
  unless the configuration also gives a backoff.
\<close>

lemma default_backoff_needs_four:
  assumes "pf_Backoff c = []" "pf_MaxDeliver c \<in> {1, 2, 3}"
  shows "PullRunnerConfig_Validate (config_withDefaults c) \<noteq> None"
  using assms unfolding PullRunnerConfig_Validate_None by (auto simp: config_withDefaults_def or_default_def)

lemma retryDelay_in:
  assumes "length (pf_Backoff c) \<le> 100"
  shows "retryDelay c attempts \<in> set (pf_RetryDelay c # pf_Backoff c)"
proof (cases "pf_Backoff c = []")
  case True
  then show ?thesis by (simp add: retryDelay_def)
next
  case False
  let ?n = "word_of_nat (length (pf_Backoff c)) :: 64 word"
  have n: "unat ?n = length (pf_Backoff c)"
    using assms by (simp add: unat_of_nat take_bit_nat_eq_self_iff)
  have "unat (if attempts - 1 \<ge> ?n then ?n - 1 else attempts - 1) < length (pf_Backoff c)"
  proof (cases "attempts - 1 \<ge> ?n")
    case True
    have "?n \<noteq> 0" using False n by (metis length_0_conv unat_0)
    then have "unat (?n - 1) < unat ?n"
      by (metis less_one linorder_not_less measure_unat n unat_eq_zero)
    with True n show ?thesis by simp
  next
    case False
    then have "unat (attempts - 1) < length (pf_Backoff c)" using n by (simp add: not_le word_less_nat_alt)
    with False show ?thesis by (simp only: if_False)
  qed
  with False show ?thesis by (simp add: retryDelay_def Let_def)
qed

lemma accepted_delay:
  assumes "PullRunnerConfig_Validate c = None"
  shows "retryDelay c attempts \<in> {10 * millisecond..30 * second}"
proof -
  note v = assms [unfolded PullRunnerConfig_Validate_None]
  from v have "length (pf_Backoff c) \<le> 100" by auto
  from retryDelay_in [OF this, of attempts] v show ?thesis by auto
qed

section \<open>The trace of a run\<close>

datatype delivery_event =
    Handled MsgInfo handler_outcome
  | Acked MsgInfo
  | Naked MsgInfo time
  | Termed MsgInfo string
  | DeadLettered DeadLetter

definition info :: "'w Msg \<Rightarrow> MsgInfo" where
  "info m = \<lparr>ms_Data = ms_Data m, ms_Subject = ms_Subject m, ms_NumDelivered = ms_NumDelivered m\<rparr>"

text \<open>
  A call of the broker leaves its event when it succeeds; one that fails may have taken place.
  The handler leaves its outcome. Everything else leaves nothing.
\<close>

definition leaves :: "('w \<Rightarrow> delivery_event list) \<Rightarrow> ('w, unit) go \<Rightarrow> delivery_event \<Rightarrow> bool" where
  "leaves trace call ev \<longleftrightarrow> (\<forall>w. case call w of
       (Inr _, w') \<Rightarrow> trace w' = trace w @ [ev]
     | (Inl _, w') \<Rightarrow> trace w' = trace w \<or> trace w' = trace w @ [ev])"

definition quiet :: "('w \<Rightarrow> delivery_event list) \<Rightarrow> ('w \<Rightarrow> 'a \<times> 'w) \<Rightarrow> bool" where
  "quiet trace call \<longleftrightarrow> (\<forall>w. trace (snd (call w)) = trace w)"

definition message_laws :: "('w \<Rightarrow> delivery_event list) \<Rightarrow> 'w Msg \<Rightarrow> bool" where
  "message_laws trace m \<longleftrightarrow> leaves trace (ms_DoubleAck m) (Acked (info m))
     \<and> (\<forall>d. leaves trace (ms_NakWithDelay m d) (Naked (info m) d))
     \<and> (\<forall>r. leaves trace (ms_TermWithReason m r) (Termed (info m) r))"

definition runner_laws :: "('w \<Rightarrow> delivery_event list) \<Rightarrow> 'w PullRunner \<Rightarrow> bool" where
  "runner_laws trace runner \<longleftrightarrow>
     (\<forall>m w. trace (snd (pr_handler runner m w)) = trace w @ [Handled (info m) (fst (pr_handler runner m w))])
     \<and> (case pr_dlq runner of None \<Rightarrow> True | Some publish \<Rightarrow> \<forall>l. leaves trace (publish l) (DeadLettered l))
     \<and> quiet trace (pr_ctxDone runner) \<and> quiet trace (pr_Now runner)
     \<and> (case pr_metrics runner of None \<Rightarrow> True | Some mx \<Rightarrow>
          (\<forall>n c w. trace (mx_IncCounter mx n c w) = trace w)
          \<and> (\<forall>n c l w. trace (mx_ObserveDuration mx n c l w) = trace w))"

definition source_laws :: "('w \<Rightarrow> delivery_event list) \<Rightarrow> ('w, 'c) pull_source \<Rightarrow> bool" where
  "source_laws trace src \<longleftrightarrow>
     quiet trace (so_Consumer src) \<and> quiet trace (so_BatchError src) \<and> quiet trace (so_waitForRetry src)
     \<and> (\<forall>c w. case so_Fetch src c w of (r, w') \<Rightarrow> trace w' = trace w
          \<and> (case r of Batch ms \<Rightarrow> list_all (message_laws trace) ms | _ \<Rightarrow> True))"

text \<open>
  One delivery as the trace shows it. A message that was handled and not settled is the
  broker's to deliver again; one is acknowledged only after a success, and terminated only
  after its dead letter was published.
\<close>

definition letter_for :: "PullRunnerConfig \<Rightarrow> MsgInfo \<Rightarrow> goerr \<Rightarrow> DeadLetter \<Rightarrow> bool" where
  "letter_for config m err l \<longleftrightarrow>
     exhausted config err (delivery_attempts m) \<and> l = dead_letter config m err (dl_CreatedAt l)"

fun delivery_ok :: "PullRunnerConfig \<Rightarrow> bool \<Rightarrow> delivery_event list \<Rightarrow> bool" where
  "delivery_ok config dlq [Handled m h] = True"
| "delivery_ok config dlq [Handled m (HandlerReturned None), Acked m'] = (m' = m)"
| "delivery_ok config dlq [Handled m (HandlerReturned (Some err)), Naked m' d] =
     (m' = m \<and> d = retryDelay config (delivery_attempts m)
      \<and> (exhausted config err (delivery_attempts m) \<longrightarrow> \<not> dlq))"
| "delivery_ok config dlq [Handled m (HandlerReturned (Some err)), DeadLettered l] = (dlq \<and> letter_for config m err l)"
| "delivery_ok config dlq [Handled m (HandlerReturned (Some err)), DeadLettered l, Termed m' r] =
     (dlq \<and> letter_for config m err l \<and> m' = m \<and> r = dl_Reason l)"
| "delivery_ok config dlq _ = False"

definition deliveries :: "'w PullRunner \<Rightarrow> delivery_event list \<Rightarrow> bool" where
  "deliveries runner evs \<longleftrightarrow>
     (\<exists>ds. evs = concat ds \<and> list_all (delivery_ok (pr_config runner) (pr_dlq runner \<noteq> None)) ds)"

lemma quietD: "quiet trace call \<Longrightarrow> call w = (a, w') \<Longrightarrow> trace w' = trace w"
  unfolding quiet_def by (metis snd_conv)

lemma leaves_Inr: "leaves trace call ev \<Longrightarrow> call w = (Inr u, w') \<Longrightarrow> trace w' = trace w @ [ev]"
  unfolding leaves_def by (drule spec [of _ w]) simp

lemma leaves_Inl:
  "leaves trace call ev \<Longrightarrow> call w = (Inl e, w') \<Longrightarrow> trace w' = trace w \<or> trace w' = trace w @ [ev]"
  unfolding leaves_def by (drule spec [of _ w]) simp

lemma leaves_any:
  "leaves trace call ev \<Longrightarrow> call w = (r, w') \<Longrightarrow> trace w' = trace w \<or> trace w' = trace w @ [ev]"
  by (cases r) (auto dest: leaves_Inr leaves_Inl)

lemma runner_lawsD:
  assumes "runner_laws trace runner"
  shows "pr_handler runner m w = (h, w') \<Longrightarrow> trace w' = trace w @ [Handled (info m) h]"
    and "pr_dlq runner = Some publish \<Longrightarrow> leaves trace (publish l) (DeadLettered l)"
    and "quiet trace (pr_ctxDone runner)" "quiet trace (pr_Now runner)"
    and "trace (count_metric runner b n w) = trace w" "trace (observe_handler runner h w) = trace w"
proof -
  note l = assms [unfolded runner_laws_def]
  show "pr_handler runner m w = (h, w') \<Longrightarrow> trace w' = trace w @ [Handled (info m) h]"
    using l [THEN conjunct1, THEN spec, THEN spec, of "m" "w"] by simp
  show "pr_dlq runner = Some publish \<Longrightarrow> leaves trace (publish l) (DeadLettered l)" using l by simp
  show "quiet trace (pr_ctxDone runner)" "quiet trace (pr_Now runner)" using l by simp_all
  show "trace (count_metric runner b n w) = trace w" "trace (observe_handler runner h w) = trace w"
    using l by (simp_all add: count_metric_def observe_handler_def split: option.splits)
qed

lemma info_attempts [simp]: "delivery_attempts (info m) = delivery_attempts m"
  by (simp add: delivery_attempts_def info_def)

lemma letter_for_info: "exhausted config err (delivery_attempts m) \<Longrightarrow> letter_for config (info m) err (dead_letter config m err now)"
  by (simp add: letter_for_def dead_letter_def info_def delivery_attempts_def)

lemma retryMessage_trace:
  assumes "runner_laws trace runner" "message_laws trace m" "retryMessage runner m err w = (r, w')"
  shows "\<exists>tail. trace w' = trace w @ tail
    \<and> delivery_ok (pr_config runner) (pr_dlq runner \<noteq> None) (Handled (info m) (HandlerReturned (Some err)) # tail)"
    and "r = Inr u \<Longrightarrow>
      if exhausted (pr_config runner) err (delivery_attempts m) \<and> pr_dlq runner \<noteq> None
      then \<exists>now. trace w' = trace w @ [DeadLettered (dead_letter (pr_config runner) m err now), Termed (info m) (snd (errorClass err))]
      else trace w' = trace w @ [Naked (info m) (retryDelay (pr_config runner) (delivery_attempts m))]"
proof -
  let ?c = "pr_config runner" and ?a = "delivery_attempts m"
  note laws = runner_lawsD [OF assms(1)]
  have ml: "\<And>d. leaves trace (ms_NakWithDelay m d) (Naked (info m) d)" "\<And>x. leaves trace (ms_TermWithReason m x) (Termed (info m) x)"
    using assms(2) by (simp_all add: message_laws_def)
  define w3 where "w3 = count_metric runner (errors_is err (ProjectionErr ErrProjectionVersionGap))
    ''record_hub_projection_gaps_total'' (count_metric runner (?a > 1) ''record_hub_projection_redeliveries_total''
      (count_metric runner True ''record_hub_projection_failures_total'' w))"
  have w3: "trace w3 = trace w" by (simp add: w3_def laws(5))
  have run: "(if exhausted ?c err ?a
         then (case pr_dlq runner of
             None \<Rightarrow> ms_NakWithDelay m (retryDelay ?c ?a) w3
           | Some publish \<Rightarrow>
               (let (now, w4) = pr_Now runner w3
                in bindG (publish (dead_letter ?c m err now)) (\<lambda>_ w.
                     ms_TermWithReason m (snd (errorClass err))
                       (count_metric runner True ''record_hub_projection_dlq_total'' w)) w4))
         else ms_NakWithDelay m (retryDelay ?c ?a) w3) = (r, w')"
    using assms(3) unfolding retryMessage_def Let_def w3_def by assumption
  let ?h = "Handled (info m) (HandlerReturned (Some err))"
  let ?naked = "Naked (info m) (retryDelay ?c ?a)"
  let ?ok = "delivery_ok ?c (pr_dlq runner \<noteq> None)"
  have "(\<exists>tail. trace w' = trace w @ tail \<and> ?ok (?h # tail)) \<and> (r = Inr u \<longrightarrow>
      (if exhausted ?c err ?a \<and> pr_dlq runner \<noteq> None
       then \<exists>now. trace w' = trace w @ [DeadLettered (dead_letter ?c m err now), Termed (info m) (snd (errorClass err))]
       else trace w' = trace w @ [?naked]))"
  proof (cases "exhausted ?c err ?a \<and> pr_dlq runner \<noteq> None")
    case False
    with run have n: "ms_NakWithDelay m (retryDelay ?c ?a) w3 = (r, w')" by (auto split: if_splits)
    have ok: "?ok [?h]" "?ok [?h, ?naked]" using False by auto
    from leaves_any [OF ml(1) n] ok w3 have "\<exists>tail. trace w' = trace w @ tail \<and> ?ok (?h # tail)"
      by (metis append_Nil2)
    moreover have "trace w' = trace w @ [?naked]" if "r = Inr u"
      using leaves_Inr [OF ml(1)] n that w3 by metis
    ultimately show ?thesis using False by auto
  next
    case True
    then obtain publish where p: "pr_dlq runner = Some publish" and ex: "exhausted ?c err ?a" by auto
    obtain now w4 where nw: "pr_Now runner w3 = (now, w4)" by force
    then have w4: "trace w4 = trace w" using quietD [OF laws(4)] w3 by metis
    let ?l = "dead_letter ?c m err now"
    note lf = letter_for_info [OF ex, of now]
    note pl = laws(2) [OF p, of ?l]
    obtain q w5 where pub: "publish ?l w4 = (q, w5)" by force
    have rn: "dl_Reason ?l = snd (errorClass err)" by (simp add: dead_letter_def)
    have ok: "?ok [?h]" "?ok [?h, DeadLettered ?l]" "?ok [?h, DeadLettered ?l, Termed (info m) (snd (errorClass err))]"
      using lf p rn by simp_all
    show ?thesis
    proof (cases q)
      case (Inl e)
      with run ex p nw pub have r: "w' = w5" "r = Inl e" by (simp_all add: bindG_def)
      from leaves_any [OF pl pub] w4 ok r show ?thesis by (metis append_Nil2 sum.distinct(1))
    next
      case (Inr x)
      with leaves_Inr [OF pl] pub w4 have w5: "trace w5 = trace w @ [DeadLettered ?l]" by metis
      let ?w6 = "count_metric runner True ''record_hub_projection_dlq_total'' w5"
      from run ex p nw pub Inr have t: "ms_TermWithReason m (snd (errorClass err)) ?w6 = (r, w')" by (simp add: bindG_def)
      have w6: "trace ?w6 = trace w @ [DeadLettered ?l]" using w5 laws(5) by simp
      have "\<exists>tail. trace w' = trace w @ tail \<and> ?ok (?h # tail)"
        using leaves_any [OF ml(2) t] ok by (auto simp: w6)
      moreover have "trace w' = trace w @ [DeadLettered ?l, Termed (info m) (snd (errorClass err))]" if "r = Inr u"
      proof -
        from t that have "ms_TermWithReason m (snd (errorClass err)) ?w6 = (Inr u, w')" by simp
        from leaves_Inr [OF ml(2) this] w6 show ?thesis by simp
      qed
      ultimately show ?thesis using True by auto
    qed
  qed
  then show "\<exists>tail. trace w' = trace w @ tail \<and> ?ok (?h # tail)"
    and "r = Inr u \<Longrightarrow> if exhausted ?c err ?a \<and> pr_dlq runner \<noteq> None
       then \<exists>now. trace w' = trace w @ [DeadLettered (dead_letter ?c m err now), Termed (info m) (snd (errorClass err))]
       else trace w' = trace w @ [?naked]"
    by blast+
qed

text \<open>Traces that grow by whole deliveries.\<close>

definition delivers :: "('w \<Rightarrow> delivery_event list) \<Rightarrow> 'w PullRunner \<Rightarrow> 'w \<Rightarrow> 'w \<Rightarrow> bool" where
  "delivers trace runner w w' \<longleftrightarrow> (\<exists>evs. trace w' = trace w @ evs \<and> deliveries runner evs)"

lemma deliveries_append: "deliveries runner xs \<Longrightarrow> deliveries runner ys \<Longrightarrow> deliveries runner (xs @ ys)"
  unfolding deliveries_def
proof (elim exE conjE)
  fix ds es
  assume "xs = concat ds" "list_all (delivery_ok (pr_config runner) (pr_dlq runner \<noteq> None)) ds"
    "ys = concat es" "list_all (delivery_ok (pr_config runner) (pr_dlq runner \<noteq> None)) es"
  then show "\<exists>ds. xs @ ys = concat ds \<and> list_all (delivery_ok (pr_config runner) (pr_dlq runner \<noteq> None)) ds"
    by (intro exI [of _ "ds @ es"]) simp
qed

lemma deliveries_Nil [simp]: "deliveries runner []"
  unfolding deliveries_def by (rule exI [of _ "[]"]) simp

lemma deliveries_one: "delivery_ok (pr_config runner) (pr_dlq runner \<noteq> None) d \<Longrightarrow> deliveries runner d"
  unfolding deliveries_def by (rule exI [of _ "[d]"]) simp

lemma delivers_same: "trace w' = trace w \<Longrightarrow> delivers trace runner w w'"
  unfolding delivers_def by (rule exI [of _ "[]"]) simp

lemma delivers_trans: "delivers trace runner w w1 \<Longrightarrow> delivers trace runner w1 w2 \<Longrightarrow> delivers trace runner w w2"
  unfolding delivers_def using deliveries_append by (metis append.assoc)

lemma process_message_delivers:
  assumes "runner_laws trace runner" "message_laws trace m" "process_message runner m w = (p, w')"
  shows "delivers trace runner w w'"
proof -
  note laws = runner_lawsD [OF assms(1)]
  let ?ok = "delivery_ok (pr_config runner) (pr_dlq runner \<noteq> None)"
  obtain b w0 where c: "pr_ctxDone runner w = (b, w0)" by force
  then have w0: "trace w0 = trace w" using quietD [OF laws(3)] by metis
  obtain h w1 where hd: "pr_handler runner m w0 = (h, w1)" by force
  let ?w2 = "observe_handler runner h w1"
  have w2: "trace ?w2 = trace w @ [Handled (info m) h]" using laws(1) [OF hd] laws(6) w0 by simp
  have one: "delivers trace runner w w'" if "trace w' = trace ?w2 @ tail" "?ok (Handled (info m) h # tail)" for tail
    unfolding delivers_def
    by (intro exI [of _ "Handled (info m) h # tail"] conjI, simp add: that(1) w2, rule deliveries_one [OF that(2)])
  show ?thesis
  proof (cases b)
    case True
    with assms(3) c w0 show ?thesis by (simp add: process_message_def unless_done_def delivers_same)
  next
    case go: False
    show ?thesis
    proof (cases h)
      case DrainElapsed
      with assms(3) c go hd one [of "[]"] show ?thesis by (simp add: process_message_def unless_done_def Let_def)
    next
      case (HandlerReturned r)
      show ?thesis
      proof (cases r)
        case (Some err)
        with assms(3) c go hd HandlerReturned have s: "settle_failure runner m err ?w2 = (p, w')"
          by (simp add: process_message_def unless_done_def Let_def)
        obtain b3 w3 where c3: "pr_ctxDone runner ?w2 = (b3, w3)" by force
        then have w3: "trace w3 = trace ?w2" using quietD [OF laws(3)] by metis
        show ?thesis
        proof (cases b3)
          case True
          with s c3 w3 one [of "[]"] show ?thesis by (simp add: settle_failure_def unless_done_def)
        next
          case False
          obtain q w4 where rt: "retryMessage runner m err w3 = (q, w4)" by force
          with s c3 False have "w' = w4" by (auto simp: settle_failure_def unless_done_def split: sum.splits)
          with retryMessage_trace(1) [OF assms(1,2) rt] w3 one HandlerReturned Some show ?thesis by auto
        qed
      next
        case None
        with assms(3) c go hd HandlerReturned have s: "settle_success runner m ?w2 = (p, w')"
          by (simp add: process_message_def unless_done_def Let_def)
        have al: "leaves trace (ms_DoubleAck m) (Acked (info m))" using assms(2) by (simp add: message_laws_def)
        obtain q w3 where a: "ms_DoubleAck m ?w2 = (q, w3)" by force
        have "trace w' = trace w3"
        proof (cases q)
          case (Inl e)
          obtain b4 w4 where "pr_ctxDone runner w3 = (b4, w4)" by force
          with s a Inl quietD [OF laws(3)] show ?thesis
            by (auto simp: settle_success_def unless_done_def split: bool.splits)
        next
          case (Inr x)
          with s a laws(5) show ?thesis by (auto simp: settle_success_def)
        qed
        with leaves_any [OF al a] one [of "[]"] one [of "[Acked (info m)]"] HandlerReturned None
        show ?thesis by auto
      qed
    qed
  qed
qed

lemma process_batch_delivers:
  assumes "runner_laws trace runner" "list_all (message_laws trace) ms" "process_batch runner ms w = (p, w')"
  shows "delivers trace runner w w'"
  using assms(2,3)
proof (induction ms arbitrary: w)
  case Nil
  then show ?case by (simp add: delivers_same)
next
  case (Cons m ms)
  obtain q w1 where pm: "process_message runner m w = (q, w1)" by force
  from Cons.prems have d: "delivers trace runner w w1" using process_message_delivers [OF assms(1) _ pm] by simp
  show ?case
  proof (cases q)
    case GoOn
    with Cons.prems pm have "process_batch runner ms w1 = (p, w')" by simp
    with Cons d show ?thesis by (auto intro: delivers_trans)
  qed (use Cons.prems pm d in auto)
qed

text \<open>The turns of \<open>Run\<close>: everything around a batch leaves the trace as it is.\<close>

lemma wait_or_stop_quiet: "source_laws trace src \<Longrightarrow> wait_or_stop src w = (st, w') \<Longrightarrow> trace w' = trace w"
  by (auto simp: wait_or_stop_def source_laws_def dest: quietD split: prod.splits bool.splits)

lemma stop_or_delivers:
  assumes "runner_laws trace runner" "stop_or runner next w = (st, w')"
    and "\<And>w0 st w'. next w0 = (st, w') \<Longrightarrow> delivers trace runner w0 w'"
  shows "delivers trace runner w w'"
proof -
  obtain b w0 where c: "pr_ctxDone runner w = (b, w0)" by force
  then have "trace w0 = trace w" using quietD [OF runner_lawsD(3) [OF assms(1)]] by metis
  then have d: "delivers trace runner w w0" by (rule delivers_same)
  show ?thesis
  proof (cases b)
    case True
    with assms(2) c d show ?thesis by (simp add: stop_or_def)
  next
    case False
    with assms(2) c have "next w0 = (st, w')" by (simp add: stop_or_def)
    from delivers_trans [OF d assms(3) [OF this]] show ?thesis .
  qed
qed

lemma after_batch_quiet:
  assumes "runner_laws trace runner" "source_laws trace src" "after_batch runner src c p w = (st, w')"
  shows "trace w' = trace w"
proof (cases "p = Stop")
  case True
  with assms(3) show ?thesis by (simp add: after_batch_def)
next
  case False
  obtain failed w1 where b: "so_BatchError src w = (failed, w1)" by force
  obtain fin w2 where d: "(if failed then pr_ctxDone runner w1 else (True, w1)) = (fin, w2)" by force
  have "trace w1 = trace w" using assms(2) b by (auto simp: source_laws_def dest: quietD)
  moreover have "trace w2 = trace w1"
    using d quietD [OF runner_lawsD(3) [OF assms(1)], of w1 fin w2] by (auto split: if_splits)
  ultimately show ?thesis
    using assms(3) False b d wait_or_stop_quiet [OF assms(2), of w2 st w'] by (auto simp: after_batch_def split: if_splits)
qed

lemma fetch_and_process_delivers:
  assumes "runner_laws trace runner" "source_laws trace src" "fetch_and_process runner src c w = (st, w')"
  shows "delivers trace runner w w'"
proof -
  obtain r w0 where f: "so_Fetch src c w = (r, w0)" by force
  have "\<forall>c w. case so_Fetch src c w of (r, w') \<Rightarrow> trace w' = trace w
      \<and> (case r of Batch ms \<Rightarrow> list_all (message_laws trace) ms | _ \<Rightarrow> True)"
    using assms(2) by (simp add: source_laws_def)
  from this [THEN spec [of _ c], THEN spec [of _ w]]
  have law: "trace w0 = trace w" "r = Batch ms \<Longrightarrow> list_all (message_laws trace) ms" for ms
    by (simp_all add: f)
  have d: "delivers trace runner w w0" using law(1) by (rule delivers_same)
  show ?thesis
  proof (cases r)
    case FetchDeadline
    with assms(3) f have "stop_or runner (\<lambda>w. (Some (Some c), w)) w0 = (st, w')" by (simp add: fetch_and_process_def)
    from stop_or_delivers [OF assms(1) this] d show ?thesis by (auto intro: delivers_trans delivers_same)
  next
    case FetchFailed
    with assms(3) f have "stop_or runner (wait_or_stop src) w0 = (st, w')" by (simp add: fetch_and_process_def)
    from stop_or_delivers [OF assms(1) this] d show ?thesis
      by (auto intro: delivers_trans delivers_same wait_or_stop_quiet [OF assms(2)])
  next
    case NoBatch
    with assms(3) f have "wait_or_stop src w0 = (st, w')" by (simp add: fetch_and_process_def)
    from wait_or_stop_quiet [OF assms(2) this] law(1) show ?thesis by (simp add: delivers_same)
  next
    case (Batch ms)
    obtain p w2 where b: "process_batch runner ms w0 = (p, w2)" by force
    with assms(3) f Batch have a: "after_batch runner src c p w2 = (st, w')" by (simp add: fetch_and_process_def)
    from delivers_trans [OF d process_batch_delivers [OF assms(1) law(2) [OF Batch] b]]
      delivers_same [where trace = trace, OF after_batch_quiet [OF assms(1,2) a]] show ?thesis by (rule delivers_trans)
  qed
qed

lemma run_turn_delivers:
  assumes "runner_laws trace runner" "source_laws trace src" "run_turn runner src consumer w = (st, w')"
  shows "delivers trace runner w w'"
proof (rule stop_or_delivers [OF assms(1) assms(3) [unfolded run_turn_def]])
  fix w0 st w'
  assume run: "(case consumer of Some c \<Rightarrow> fetch_and_process runner src c w0
       | None \<Rightarrow> (case so_Consumer src w0 of (Inl _, w') \<Rightarrow> stop_or runner (wait_or_stop src) w'
           | (Inr None, w') \<Rightarrow> wait_or_stop src w'
           | (Inr (Some c), w') \<Rightarrow> fetch_and_process runner src c w')) = (st, w')"
  show "delivers trace runner w0 w'"
  proof (cases consumer)
    case (Some c)
    with run fetch_and_process_delivers [OF assms(1,2)] show ?thesis by simp
  next
    case None
    obtain r w1 where c: "so_Consumer src w0 = (r, w1)" by force
    have "trace w1 = trace w0" using assms(2) c by (auto simp: source_laws_def dest: quietD)
    then have d: "delivers trace runner w0 w1" by (rule delivers_same)
    consider (failed) e where "r = Inl e" | (nil) "r = Inr None" | (got) k where "r = Inr (Some k)"
      by (metis obj_sumE not_None_eq)
    then have "delivers trace runner w1 w'"
    proof cases
      case failed
      with run None c have "stop_or runner (wait_or_stop src) w1 = (st, w')" by simp
      from stop_or_delivers [OF assms(1) this] show ?thesis
        by (auto intro: delivers_same wait_or_stop_quiet [OF assms(2)])
    next
      case nil
      with run None c have "wait_or_stop src w1 = (st, w')" by simp
      from wait_or_stop_quiet [OF assms(2) this] show ?thesis by (rule delivers_same)
    next
      case got
      with run None c fetch_and_process_delivers [OF assms(1,2)] show ?thesis by simp
    qed
    with d show ?thesis by (rule delivers_trans)
  qed
qed

lemma Run_delivers:
  assumes "runner_laws trace runner" "source_laws trace src" "Run runner src n st w = (st', w')"
  shows "delivers trace runner w w'"
  using assms(3)
proof (induction n arbitrary: st w)
  case 0
  then show ?case by (cases st) (simp_all add: delivers_same)
next
  case (Suc n)
  show ?case
  proof (cases st)
    case None
    with Suc.prems show ?thesis by (simp add: delivers_same)
  next
    case (Some consumer)
    obtain st1 w1 where t: "run_turn runner src consumer w = (st1, w1)" by force
    with Suc.prems Some have "Run runner src n st1 w1 = (st', w')" by simp
    from delivers_trans [OF run_turn_delivers [OF assms(1,2) t] Suc.IH [OF this]] show ?thesis .
  qed
qed

section \<open>Properties\<close>

text \<open>
  Dispatch is exact. After any sequence of registrations, an event goes to the first handler
  that was registered with its own source, type and version, whatever else is registered; an
  event of another key changes nothing and reports an error.
\<close>

theorem Dispatch_exact:
  "Dispatch key payload (register_all rs (Some [])) w =
     (case HandlerKey_normalized key of
        Inl err \<Rightarrow> (Inl err, w)
      | Inr k \<Rightarrow> (case first_handler k rs of
            None \<Rightarrow> (Inl (ProjectionErr ErrHandlerNotFound), w)
          | Some h \<Rightarrow> h payload w))"
proof -
  obtain handlers where r: "register_all rs (Some []) = Some handlers"
    and m: "map_of handlers k = first_handler k rs" for k
    using register_all_map [of rs "[]"] by auto
  show ?thesis
    unfolding Dispatch_def handlers_Lookup_def r by (simp add: m fail_def split: sum.split option.split)
qed

text \<open>
  C10: every message is settled by the outcome of its handler. Over any number of turns of the
  loop, with any failure of the broker or the publisher, the trace is a sequence of deliveries:
  a message is acknowledged only after its handler succeeded, terminated only after the dead
  letter that names it was published, and put back, after the configured delay, only when its
  failure is not the last allowed one or no dead letters can be published. What is neither is
  left to the broker to deliver again.
\<close>

theorem delivery_settled:
  assumes "runner_laws trace runner" "source_laws trace src" "Run runner src n st w = (st', w')"
  shows "\<exists>evs. trace w' = trace w @ evs \<and> deliveries runner evs"
  using Run_delivers [OF assms] by (simp add: delivers_def)

definition sample_config :: PullRunnerConfig where
  "sample_config = config_withDefaults
     \<lparr>pf_Stream = ''EVENTS'', pf_Durable = ''hub'', pf_BatchSize = 0, pf_MaxDeliver = 0, pf_Backoff = [],
      pf_FetchTimeout = 0, pf_AckTimeout = 0, pf_RetryDelay = 0, pf_DrainTimeout = 0\<rparr>"

text \<open>A state that is its own trace, a handler that refuses every message, and one message at its fifth delivery.\<close>

definition log_event :: "delivery_event \<Rightarrow> (delivery_event list, unit) go" where
  "log_event ev w = (Inr (), w @ [ev])"

definition sample_info :: MsgInfo where
  "sample_info = \<lparr>ms_Data = ''{}'', ms_Subject = ''bids.tender'', ms_NumDelivered = Some 5\<rparr>"

definition sample_msg :: "delivery_event list Msg" where
  "sample_msg = \<lparr>ms_Data = ''{}'', ms_Subject = ''bids.tender'', ms_NumDelivered = Some 5,
     ms_DoubleAck = log_event (Acked sample_info), ms_NakWithDelay = (\<lambda>d. log_event (Naked sample_info d)),
     ms_TermWithReason = (\<lambda>r. log_event (Termed sample_info r))\<rparr>"

definition sample_runner :: "delivery_event list PullRunner" where
  "sample_runner = \<lparr>pr_config = sample_config,
     pr_handler = (\<lambda>m w. (HandlerReturned (Some (Anon ''x'')), w @ [Handled (info m) (HandlerReturned (Some (Anon ''x'')))])),
     pr_dlq = Some (\<lambda>l. log_event (DeadLettered l)), pr_metrics = None,
     pr_ctxDone = (\<lambda>w. (length w \<ge> 3, w)), pr_Now = (\<lambda>w. (7, w))\<rparr>"

definition sample_source :: "(delivery_event list, unit) pull_source" where
  "sample_source = \<lparr>so_Consumer = (\<lambda>w. (Inr (Some ()), w)), so_Fetch = (\<lambda>_ w. (Batch [sample_msg], w)),
     so_BatchError = (\<lambda>w. (False, w)), so_waitForRetry = (\<lambda>w. (True, w))\<rparr>"

lemma log_event_leaves: "leaves (\<lambda>w. w) (log_event ev) ev"
  by (simp add: leaves_def log_event_def)

lemma sample_info_msg: "info sample_msg = sample_info"
  by (simp add: info_def sample_msg_def sample_info_def)

lemma sample_message_laws: "message_laws (\<lambda>w. w) sample_msg"
  unfolding message_laws_def sample_info_msg by (simp add: sample_msg_def log_event_leaves)

lemma sample_runner_laws: "runner_laws (\<lambda>w. w) sample_runner"
  by (simp add: runner_laws_def sample_runner_def quiet_def log_event_leaves)

lemma sample_source_laws: "source_laws (\<lambda>w. w) sample_source"
  by (simp add: source_laws_def sample_source_def quiet_def sample_message_laws)

lemma sample_config_valid: "PullRunnerConfig_Validate sample_config = None"
  by (simp add: PullRunnerConfig_Validate_def sample_config_def config_withDefaults_def or_default_def
      millisecond_def second_def trim_simps)

lemma sample_parts:
  "pr_config sample_runner = sample_config" "pr_dlq sample_runner = Some (\<lambda>l. log_event (DeadLettered l))"
  "pr_metrics sample_runner = None" "pr_Now sample_runner w = (7, w)" "pr_ctxDone sample_runner w = (length w \<ge> 3, w)"
  "pr_handler sample_runner m w = (HandlerReturned (Some (Anon ''x'')), w @ [Handled (info m) (HandlerReturned (Some (Anon ''x'')))])"
  "ms_TermWithReason sample_msg r = log_event (Termed sample_info r)"
  by (simp_all add: sample_runner_def sample_msg_def)

lemma sample_exhausted: "exhausted sample_config (Anon ''x'') (delivery_attempts sample_msg)"
  by (simp add: exhausted_def sample_config_def config_withDefaults_def or_default_def delivery_attempts_def sample_msg_def)

lemma sample_retry:
  "retryMessage sample_runner sample_msg (Anon ''x'') w =
     (Inr (), w @ [DeadLettered (dead_letter sample_config sample_msg (Anon ''x'') 7), Termed sample_info transient_text])"
  by (simp add: retryMessage_def sample_parts sample_exhausted count_metric_def log_event_def go_simps errorClass_def)

lemma sample_run:
  "Run sample_runner sample_source 2 (Some None) [] =
     (None, [Handled sample_info (HandlerReturned (Some (Anon ''x''))),
        DeadLettered (dead_letter sample_config sample_msg (Anon ''x'') 7), Termed sample_info transient_text])"
  by (simp add: numeral_2_eq_2 run_turn_def stop_or_def sample_parts fetch_and_process_def sample_source_def
      process_message_def unless_done_def observe_handler_def settle_failure_def sample_retry sample_info_msg
      after_batch_def)

theorem delivery_settled_witness:
  "deliveries sample_runner [Handled sample_info (HandlerReturned (Some (Anon ''x''))),
     DeadLettered (dead_letter sample_config sample_msg (Anon ''x'') 7), Termed sample_info transient_text]"
  using delivery_settled [OF sample_runner_laws sample_source_laws sample_run] by simp

text \<open>
  retries are bounded. With an accepted configuration, a failure that was settled was either
  put back after a delay between 10ms and 30s, or, at the last allowed attempt or for a
  deterministic error, dead-lettered and then terminated, with the same reason: not blank, at
  most 512 bytes, and never the text of an unclassified error.
\<close>

theorem retry_bounded:
  assumes "runner_laws trace runner" "message_laws trace m" "PullRunnerConfig_Validate (pr_config runner) = None"
    and "safe_error err" "retryMessage runner m err w = (Inr (), w')"
  shows "if exhausted (pr_config runner) err (delivery_attempts m) \<and> pr_dlq runner \<noteq> None
    then \<exists>now reason. trace w' = trace w @ [DeadLettered (dead_letter (pr_config runner) m err now), Termed (info m) reason]
      \<and> dl_Reason (dead_letter (pr_config runner) m err now) = reason \<and> safe_reason reason
      \<and> (as_RetryError err = None \<longrightarrow> reason = transient_text)
    else \<exists>delay. trace w' = trace w @ [Naked (info m) delay] \<and> delay \<in> {10 * millisecond..30 * second}"
proof -
  note t = retryMessage_trace(2) [OF assms(1,2,5) refl]
  have r: "dl_Reason (dead_letter (pr_config runner) m err now) = snd (errorClass err)" for now
    by (simp add: dead_letter_def)
  have u: "as_RetryError err = None \<Longrightarrow> snd (errorClass err) = transient_text" by (simp add: errorClass_def)
  show ?thesis
  proof (split if_split, intro conjI impI)
    assume c: "exhausted (pr_config runner) err (delivery_attempts m) \<and> pr_dlq runner \<noteq> None"
    with t obtain now where "trace w' = trace w @ [DeadLettered (dead_letter (pr_config runner) m err now), Termed (info m) (snd (errorClass err))]"
      by (simp only: c if_True simp_thms) blast
    with errorClass_safe [OF assms(4)] r [of now] u
    show "\<exists>now reason. trace w' = trace w @ [DeadLettered (dead_letter (pr_config runner) m err now), Termed (info m) reason]
      \<and> dl_Reason (dead_letter (pr_config runner) m err now) = reason \<and> safe_reason reason
      \<and> (as_RetryError err = None \<longrightarrow> reason = transient_text)"
      by (intro exI [of _ now] exI [of _ "snd (errorClass err)"]) simp
  next
    assume "\<not> (exhausted (pr_config runner) err (delivery_attempts m) \<and> pr_dlq runner \<noteq> None)"
    with t have "trace w' = trace w @ [Naked (info m) (retryDelay (pr_config runner) (delivery_attempts m))]"
      by (simp only: if_False)
    with accepted_delay [OF assms(3)]
    show "\<exists>delay. trace w' = trace w @ [Naked (info m) delay] \<and> delay \<in> {10 * millisecond..30 * second}" by blast
  qed
qed

theorem retry_bounded_witness:
  "safe_reason transient_text \<and> retryMessage sample_runner sample_msg (Anon ''x'') [] =
     (Inr (), [DeadLettered (dead_letter sample_config sample_msg (Anon ''x'') 7), Termed sample_info transient_text])"
proof -
  have c: "PullRunnerConfig_Validate (pr_config sample_runner) = None" by (simp add: sample_parts sample_config_valid)
  have e: "safe_error (Anon ''x'')" by (simp add: safe_error_def)
  note run = sample_retry [of "[]", unfolded append_Nil]
  from retry_bounded [OF sample_runner_laws sample_message_laws c e run] run show ?thesis
    by (auto simp: sample_parts sample_exhausted)
qed

end
