(* ===== verification/ReadPointers.thy ===== *)
theory ReadPointers
  imports ProjectionStore
begin

text \<open>
  \<open>projection/read_pointer.go\<close>: the durable switch that makes a staged collection of records
  visible. Each table of a workspace has at most one active pointer; activating a generation
  retires the pointers of its tables, inserts new ones and raises the checkpoints, in one
  transaction. The unique index of the collection covers the status, so retiring a pointer
  changes its key. The lemmas give the transaction as one function on the abstract state.
\<close>

section \<open>Updates that change an indexed field\<close>

text \<open>
  \<open>UpdateOne\<close> with a filter on the indexed fields \<open>k\<close>, and a \<open>$set\<close> after which they are
  \<open>k'\<close>: the server refuses it when another document has these values already.
\<close>

type_synonym ('w, 'k, 'd) rekeying = "'k \<Rightarrow> 'k \<Rightarrow> ('d \<Rightarrow> 'd) \<Rightarrow> 'w \<Rightarrow> (string + nat) \<times> 'w"

definition rekeyed :: "('k \<rightharpoonup> 'd) \<Rightarrow> 'k \<Rightarrow> 'k \<Rightarrow> ('d \<Rightarrow> 'd) \<Rightarrow> ('k \<rightharpoonup> 'd) option" where
  "rekeyed docs k k' f =
     (case docs k of
        None \<Rightarrow> Some docs
      | Some d \<Rightarrow> if k' \<noteq> k \<and> docs k' \<noteq> None then None else Some (docs(k := None, k' \<mapsto> f d)))"

definition rekey_laws ::
  "('w, 'k, 'd) rekeying \<Rightarrow> ('v \<Rightarrow> 'k \<rightharpoonup> 'd) \<Rightarrow> (('k \<rightharpoonup> 'd) \<Rightarrow> 'v \<Rightarrow> 'v) \<Rightarrow> ('w \<Rightarrow> 'v) \<Rightarrow> bool" where
  "rekey_laws u get put view \<longleftrightarrow> (\<forall>k k' f w r w'. u k k' f w = (r, w') \<longrightarrow>
     (case r of
        Inl _ \<Rightarrow> view w' = view w
      | Inr _ \<Rightarrow> (\<exists>docs. rekeyed (get (view w)) k k' f = Some docs \<and> view w' = put docs (view w))))"

definition RekeyG :: "('w, 'k, 'd) rekeying \<Rightarrow> 'k \<Rightarrow> 'k \<Rightarrow> ('d \<Rightarrow> 'd) \<Rightarrow> string \<Rightarrow> ('w, unit) go" where
  "RekeyG u k k' f label = (\<lambda>w. case u k k' f w of
       (Inl m, w') \<Rightarrow> (Inl (Wrap label (External m)), w')
     | (Inr _, w') \<Rightarrow> (Inr (), w'))"

definition memory_rekey :: "('v \<Rightarrow> 'k \<rightharpoonup> 'd) \<Rightarrow> (('k \<rightharpoonup> 'd) \<Rightarrow> 'v \<Rightarrow> 'v) \<Rightarrow> ('v, 'k, 'd) rekeying" where
  "memory_rekey get put k k' f v =
     (case rekeyed (get v) k k' f of
        None \<Rightarrow> (Inl ''duplicate key'', v)
      | Some docs \<Rightarrow> (Inr (if get v k = None then 0 else 1), put docs v))"

lemma memory_rekey_laws: "rekey_laws (memory_rekey get put) get put (\<lambda>v. v)"
  by (auto simp: rekey_laws_def memory_rekey_def split: option.splits)

lemma refines_RekeyG:
  assumes "rekey_laws u get put view"
  shows "refines view (RekeyG u k k' f l) (RekeyG (memory_rekey get put) k k' f l)"
proof (rule refinesI)
  fix w r w' assume run: "RekeyG u k k' f l w = (r, w')"
  obtain s w1 where i: "u k k' f w = (s, w1)" by force
  from assms [unfolded rekey_laws_def, THEN spec, THEN spec, THEN spec, THEN spec, THEN spec, THEN spec, THEN mp, OF i]
  show "(\<exists>e. r = Inl e \<and> library_error e) \<or> (r, view w') = RekeyG (memory_rekey get put) k k' f l (view w)"
    using run i by (cases s) (auto simp: RekeyG_def memory_rekey_def)
qed

lemma memory_RekeyG [memory_calls]:
  "RekeyG (memory_rekey get put) k k' f l v =
     (case rekeyed (get v) k k' f of
        None \<Rightarrow> (Inl (Wrap l (External ''duplicate key'')), v)
      | Some docs \<Rightarrow> (Inr (), put docs v))"
  by (simp add: RekeyG_def memory_rekey_def split: option.split)

section \<open>The repository\<close>

type_synonym 'w retire_pointer = "('w, pointer_key, ProjectionReadPointer) rekeying"

definition ActiveCollection ::
  "('w, pointer_key, ProjectionReadPointer) collection option \<Rightarrow> string \<Rightarrow> string \<Rightarrow> string \<Rightarrow> ('w, string) go" where
  "ActiveCollection pointers tenantID workspaceID tableID =
     (case pointers of
        None \<Rightarrow> fail (ProjectionErr ErrProjectionReadPointerUnavailable)
      | Some c \<Rightarrow>
          bindG (FindG c (tenantID, workspaceID, tableID, ProjectionReadPointerActive) ''find projection read pointer'')
            (\<lambda>found. case found of
               None \<Rightarrow> ret records_collection
             | Some pointer \<Rightarrow>
                 if blank (rp_CollectionName pointer) then fail (ProjectionErr ErrProjectionReadPointerUnavailable)
                 else ret (rp_CollectionName pointer)))"

text \<open>The trimmed tables without blanks and repetitions, in their first order.\<close>

fun unique_tables :: "string list \<Rightarrow> string list \<Rightarrow> string list" where
  "unique_tables seen [] = []"
| "unique_tables seen (raw # rest) =
     (let tableID = TrimSpace raw
      in if tableID = [] \<or> tableID \<in> set seen then unique_tables seen rest
         else tableID # unique_tables (tableID # seen) rest)"

definition retired :: "ProjectionReadPointer \<Rightarrow> ProjectionReadPointer" where
  "retired pointer = pointer\<lparr>rp_Status := ProjectionReadPointerRetired\<rparr>"

record activation =
  ac_TenantID :: string
  ac_WorkspaceID :: string
  ac_OperationID :: string
  ac_GenerationID :: string
  ac_CollectionName :: string

definition new_pointer :: "activation \<Rightarrow> time \<Rightarrow> string \<Rightarrow> ProjectionReadPointer" where
  "new_pointer a now tableID =
     \<lparr>rp_TenantID = ac_TenantID a, rp_WorkspaceID = ac_WorkspaceID a, rp_TableID = tableID,
      rp_GenerationID = ac_GenerationID a, rp_CollectionName = ac_CollectionName a, rp_OperationID = ac_OperationID a,
      rp_Revision = 1, rp_Status = ProjectionReadPointerActive, rp_CreatedAt = now, rp_ActivatedAt = now\<rparr>"

fun activate_tables ::
  "'w retire_pointer \<Rightarrow> ('w, pointer_key, ProjectionReadPointer) collection \<Rightarrow> activation \<Rightarrow> time \<Rightarrow> string list \<Rightarrow> ('w, unit) go" where
  "activate_tables retire pointers a now [] = ret ()"
| "activate_tables retire pointers a now (tableID # rest) =
     bindG (RekeyG retire (ac_TenantID a, ac_WorkspaceID a, tableID, ProjectionReadPointerActive)
              (ac_TenantID a, ac_WorkspaceID a, tableID, ProjectionReadPointerRetired) retired
              ''retire projection read pointer'') (\<lambda>_.
     bindG (InsertG pointers (new_pointer a now tableID) ''activate projection read pointer'') (\<lambda>_.
       activate_tables retire pointers a now rest))"

fun raise_checkpoints ::
  "('w, checkpoint_key, ProjectionCheckpoint) collection \<Rightarrow> ProjectionCheckpoint list \<Rightarrow> ('w, unit) go" where
  "raise_checkpoints checkpoints [] = ret ()"
| "raise_checkpoints checkpoints (checkpoint # rest) =
     bindG (checkG (ProjectionCheckpoint_Validate checkpoint)) (\<lambda>_.
     bindG (FindG checkpoints (projectionCheckpointFilter checkpoint) ''load replay projection checkpoint'') (\<lambda>found.
     bindG (case found of
         None \<Rightarrow> InsertG checkpoints checkpoint ''insert replay projection checkpoint''
       | Some current \<Rightarrow>
           if cp_SourceVersion current < cp_SourceVersion checkpoint
           then bindG (UpdateG checkpoints (projectionCheckpointFilter checkpoint) (\<lambda>_. True) (\<lambda>_. checkpoint)
                        ''update replay projection checkpoint'') (\<lambda>_. ret ())
           else ret ()) (\<lambda>_. raise_checkpoints checkpoints rest)))"

definition trimmed_activation :: "activation \<Rightarrow> activation" where
  "trimmed_activation a =
     \<lparr>ac_TenantID = TrimSpace (ac_TenantID a), ac_WorkspaceID = TrimSpace (ac_WorkspaceID a),
      ac_OperationID = TrimSpace (ac_OperationID a), ac_GenerationID = TrimSpace (ac_GenerationID a),
      ac_CollectionName = TrimSpace (ac_CollectionName a)\<rparr>"

definition activation_callback ::
  "'w projection_database \<Rightarrow> 'w retire_pointer \<Rightarrow> activation \<Rightarrow> time \<Rightarrow> string list \<Rightarrow> ProjectionCheckpoint list \<Rightarrow> ('w, unit) go" where
  "activation_callback db retire a now tables checkpoints =
     bindG (activate_tables retire (db_readPointers db) a now tables) (\<lambda>_. raise_checkpoints (db_checkpoints db) checkpoints)"

text \<open>\<open>nil\<close> repositories and databases are \<open>None\<close>; \<open>now\<close> is the clock read in the callback.\<close>

definition ActivateManyWithCheckpoints ::
  "'w projection_database option \<Rightarrow> 'w retire_pointer \<Rightarrow> activation \<Rightarrow> time \<Rightarrow> string list \<Rightarrow> ProjectionCheckpoint list
     \<Rightarrow> ('w, unit) go" where
  "ActivateManyWithCheckpoints database retire input now tableIDs checkpoints =
     (case database of
        None \<Rightarrow> fail (ProjectionErr ErrProjectionReadPointerUnavailable)
      | Some db \<Rightarrow>
          (let a = trimmed_activation input; tables = unique_tables [] tableIDs
           in if ac_TenantID a = [] \<or> ac_WorkspaceID a = [] \<or> ac_OperationID a = [] \<or> ac_GenerationID a = []
                 \<or> ac_CollectionName a = []
              then fail (ProjectionErr ErrProjectionReadPointerUnavailable)
              else if tables = [] then ret ()
              else (\<lambda>w. case db_StartSession db w of
                  (Some m, w') \<Rightarrow> (Inl (Wrap ''start projection read pointer transaction'' (External m)), w')
                | (None, w') \<Rightarrow> db_WithTransactionUnit db (activation_callback db retire a now tables checkpoints) w')))"

definition ActivateMany ::
  "'w projection_database option \<Rightarrow> 'w retire_pointer \<Rightarrow> activation \<Rightarrow> time \<Rightarrow> string list \<Rightarrow> ('w, unit) go" where
  "ActivateMany database retire input now tableIDs = ActivateManyWithCheckpoints database retire input now tableIDs []"

section \<open>The transaction on the abstract state\<close>

abbreviation memory_retire :: "ProjectionDB retire_pointer" where
  "memory_retire \<equiv> memory_rekey v_pointers put_pointers"

text \<open>The pointers after the switch of some tables, or \<open>None\<close> where a retired pointer is in the way.\<close>

fun switched :: "activation \<Rightarrow> time \<Rightarrow> string list \<Rightarrow> (pointer_key \<rightharpoonup> ProjectionReadPointer) \<Rightarrow> (pointer_key \<rightharpoonup> ProjectionReadPointer) option" where
  "switched a now [] docs = Some docs"
| "switched a now (t # ts) docs =
     (case rekeyed docs (ac_TenantID a, ac_WorkspaceID a, t, ProjectionReadPointerActive)
             (ac_TenantID a, ac_WorkspaceID a, t, ProjectionReadPointerRetired) retired of
        None \<Rightarrow> None
      | Some docs' \<Rightarrow> switched a now ts (docs'((ac_TenantID a, ac_WorkspaceID a, t, ProjectionReadPointerActive) \<mapsto> new_pointer a now t)))"

definition raise_one :: "ProjectionCheckpoint \<Rightarrow> (checkpoint_key \<rightharpoonup> ProjectionCheckpoint) \<Rightarrow> (checkpoint_key \<rightharpoonup> ProjectionCheckpoint)" where
  "raise_one c docs =
     (case docs (projectionCheckpointFilter c) of
         Some current \<Rightarrow> if cp_SourceVersion current < cp_SourceVersion c then docs(projectionCheckpointFilter c \<mapsto> c) else docs
       | None \<Rightarrow> docs(projectionCheckpointFilter c \<mapsto> c))"

fun raised :: "ProjectionCheckpoint list \<Rightarrow> (checkpoint_key \<rightharpoonup> ProjectionCheckpoint) \<Rightarrow> (checkpoint_key \<rightharpoonup> ProjectionCheckpoint)" where
  "raised [] docs = docs"
| "raised (c # cs) docs = raised cs (raise_one c docs)"

lemma put_pointers_simps [simp]:
  "put_pointers x (put_pointers y v) = put_pointers x v" "v_pointers (put_pointers x v) = x"
  "put_pointers (v_pointers v) v = v" "v_checkpoints (put_pointers x v) = v_checkpoints v"
  by (simp_all add: put_defs)

lemma put_checkpoints_simps [simp]:
  "put_checkpoints x (put_checkpoints y v) = put_checkpoints x v" "v_checkpoints (put_checkpoints x v) = x"
  "put_checkpoints (v_checkpoints v) v = v" "v_pointers (put_checkpoints x v) = v_pointers v"
  by (simp_all add: put_defs)

abbreviation slot :: "activation \<Rightarrow> string \<Rightarrow> ReadPointerStatus \<Rightarrow> pointer_key" where
  "slot a t s \<equiv> (ac_TenantID a, ac_WorkspaceID a, t, s)"

lemma rekeyed_active:
  "rekeyed docs k k' f = Some docs' \<Longrightarrow> k \<noteq> k' \<Longrightarrow> docs' k = None"
  by (auto simp: rekeyed_def split: option.splits if_splits)

lemma activate_tables_memory:
  "case switched a now ts (v_pointers v) of
     Some docs \<Rightarrow> activate_tables memory_retire (memory_collection pointer_key v_pointers put_pointers) a now ts v
       = (Inr (), put_pointers docs v)
   | None \<Rightarrow> \<exists>v'. activate_tables memory_retire (memory_collection pointer_key v_pointers put_pointers) a now ts v
       = (Inl (Wrap ''retire projection read pointer'' (External ''duplicate key'')), v')"
proof (induction ts arbitrary: v)
  case Nil
  then show ?case by (simp add: ret_def)
next
  case (Cons t ts)
  let ?k = "slot a t ProjectionReadPointerActive" and ?k' = "slot a t ProjectionReadPointerRetired"
  show ?case
  proof (cases "rekeyed (v_pointers v) ?k ?k' retired")
    case None
    then show ?thesis by (simp add: bindG_def memory_calls)
  next
    case (Some docs)
    let ?v = "put_pointers (docs(?k \<mapsto> new_pointer a now t)) v"
    have "docs ?k = None" using rekeyed_active [OF Some] by simp
    then have "activate_tables memory_retire (memory_collection pointer_key v_pointers put_pointers) a now (t # ts) v
      = activate_tables memory_retire (memory_collection pointer_key v_pointers put_pointers) a now ts ?v"
      using Some by (simp add: bindG_def memory_calls pointer_key_def new_pointer_def)
    with Cons.IH [of ?v] Some show ?thesis
      by (simp del: activate_tables.simps fun_upd_apply split: option.splits)
  qed
qed

lemma raise_checkpoints_memory:
  "if list_all (\<lambda>c. ProjectionCheckpoint_Validate c = None) cs
   then raise_checkpoints (memory_collection projectionCheckpointFilter v_checkpoints put_checkpoints) cs v
     = (Inr (), put_checkpoints (raised cs (v_checkpoints v)) v)
   else \<exists>e v'. raise_checkpoints (memory_collection projectionCheckpointFilter v_checkpoints put_checkpoints) cs v = (Inl e, v')"
proof (induction cs arbitrary: v)
  case Nil
  then show ?case by (simp add: ret_def)
next
  case (Cons c cs)
  let ?m = "memory_collection projectionCheckpointFilter v_checkpoints put_checkpoints"
  let ?k = "projectionCheckpointFilter c"
  show ?case
  proof (cases "ProjectionCheckpoint_Validate c")
    case (Some e)
    then show ?thesis by (simp add: bindG_def checkG_run)
  next
    case None
    let ?docs = "raise_one c (v_checkpoints v)"
    have "raise_checkpoints ?m (c # cs) v = raise_checkpoints ?m cs (put_checkpoints ?docs v)"
      using None by (simp add: bindG_def checkG_run memory_calls projection_parts updated_def matching_def ret_def raise_one_def split: option.split)
    with Cons.IH [of "put_checkpoints ?docs v"] None show ?thesis
      by (simp del: raise_checkpoints.simps)
  qed
qed

lemma unique_tables_props:
  "distinct (unique_tables seen ts) \<and> set (unique_tables seen ts) = TrimSpace ` set ts - {[]} - set seen"
proof (induction ts arbitrary: seen)
  case (Cons t ts)
  show ?case using Cons.IH [of seen] Cons.IH [of "TrimSpace t # seen"] by (auto simp: Let_def)
qed simp

lemma switched_cases:
  assumes "rekeyed docs (slot a t ProjectionReadPointerActive) (slot a t ProjectionReadPointerRetired) retired = Some docs1"
  shows "s \<notin> {ProjectionReadPointerActive, ProjectionReadPointerRetired} \<or> t' \<noteq> t \<or> tn \<noteq> ac_TenantID a \<or> ws \<noteq> ac_WorkspaceID a
      \<Longrightarrow> docs1 (tn, ws, t', s) = docs (tn, ws, t', s)"
    and "docs (slot a t ProjectionReadPointerActive) \<noteq> None \<Longrightarrow>
      docs (slot a t ProjectionReadPointerRetired) = None \<and> docs1 (slot a t ProjectionReadPointerRetired) \<noteq> None"
    and "docs (slot a t ProjectionReadPointerRetired) \<noteq> None \<Longrightarrow> docs1 (slot a t ProjectionReadPointerRetired) \<noteq> None"
  using assms by (auto simp: rekeyed_def split: option.splits if_splits)

lemma switched_other:
  "switched a now ts docs = Some docs' \<Longrightarrow> t \<notin> set ts \<or> tn \<noteq> ac_TenantID a \<or> ws \<noteq> ac_WorkspaceID a
    \<Longrightarrow> docs' (tn, ws, t, s) = docs (tn, ws, t, s)"
proof (induction ts arbitrary: docs)
  case (Cons x ts)
  from Cons.prems(1) obtain docs1
    where r: "rekeyed docs (slot a x ProjectionReadPointerActive) (slot a x ProjectionReadPointerRetired) retired = Some docs1"
      and s: "switched a now ts (docs1(slot a x ProjectionReadPointerActive \<mapsto> new_pointer a now x)) = Some docs'"
    by (auto split: option.splits)
  have "docs' (tn, ws, t, s) = (docs1(slot a x ProjectionReadPointerActive \<mapsto> new_pointer a now x)) (tn, ws, t, s)"
    using Cons.IH [OF s] Cons.prems(2) by auto
  with switched_cases(1) [OF r] Cons.prems(2) show ?case by auto
qed simp

lemma switched_Some:
  "switched a now ts docs = Some docs' \<Longrightarrow> distinct ts \<Longrightarrow> t \<in> set ts \<Longrightarrow>
     docs' (slot a t ProjectionReadPointerActive) = Some (new_pointer a now t)
     \<and> (docs (slot a t ProjectionReadPointerActive) \<noteq> None \<longrightarrow> docs (slot a t ProjectionReadPointerRetired) = None)
     \<and> (docs (slot a t ProjectionReadPointerActive) \<noteq> None \<or> docs (slot a t ProjectionReadPointerRetired) \<noteq> None
         \<longrightarrow> docs' (slot a t ProjectionReadPointerRetired) \<noteq> None)"
proof (induction ts arbitrary: docs)
  case (Cons x ts)
  from Cons.prems(1) obtain docs1
    where r: "rekeyed docs (slot a x ProjectionReadPointerActive) (slot a x ProjectionReadPointerRetired) retired = Some docs1"
      and s: "switched a now ts (docs1(slot a x ProjectionReadPointerActive \<mapsto> new_pointer a now x)) = Some docs'"
    by (auto split: option.splits)
  show ?case
  proof (cases "t = x")
    case True
    then have "t \<notin> set ts" using Cons.prems(2) by simp
    from switched_other [OF s, of t] this True switched_cases(2,3) [OF r] show ?thesis by simp
  next
    case False
    with Cons.prems have "t \<in> set ts" "distinct ts" by auto
    from Cons.IH [OF s this(2,1)] False switched_cases(1) [OF r, of _ t] show ?thesis by simp
  qed
qed simp

lemma raise_one_props:
  "k \<noteq> projectionCheckpointFilter c \<Longrightarrow> raise_one c docs k = docs k"
  "docs k = Some d \<Longrightarrow> \<exists>d'. raise_one c docs k = Some d' \<and> cp_SourceVersion d \<le> cp_SourceVersion d'"
  "\<exists>d'. raise_one c docs (projectionCheckpointFilter c) = Some d' \<and> cp_SourceVersion c \<le> cp_SourceVersion d'"
  by (auto simp: raise_one_def split: option.split)

lemma raised_keeps:
  "docs k = Some d \<Longrightarrow> \<exists>d'. raised cs docs k = Some d' \<and> cp_SourceVersion d \<le> cp_SourceVersion d'"
proof (induction cs arbitrary: docs d)
  case (Cons c cs)
  obtain d1 where d1: "raise_one c docs k = Some d1" "cp_SourceVersion d \<le> cp_SourceVersion d1"
    using raise_one_props(2) [of docs k d c] Cons.prems by blast
  from Cons.IH [of "raise_one c docs" d1] d1 show ?case by auto
qed simp

lemma raised_given:
  "c \<in> set cs \<Longrightarrow> \<exists>d. raised cs docs (projectionCheckpointFilter c) = Some d \<and> cp_SourceVersion c \<le> cp_SourceVersion d"
proof (induction cs arbitrary: docs)
  case (Cons x cs)
  show ?case
  proof (cases "c = x")
    case True
    obtain d where d: "raise_one x docs (projectionCheckpointFilter x) = Some d" "cp_SourceVersion x \<le> cp_SourceVersion d"
      using raise_one_props(3) [of x docs] by blast
    from raised_keeps [of "raise_one x docs" "projectionCheckpointFilter x" d cs] d True show ?thesis by auto
  next
    case False
    with Cons show ?thesis by simp
  qed
qed simp

lemma raised_other: "k \<notin> projectionCheckpointFilter ` set cs \<Longrightarrow> raised cs docs k = docs k"
  by (induction cs arbitrary: docs) (simp_all add: raise_one_props(1))

text \<open>The transaction as one step of the abstract state.\<close>

definition activation_spec ::
  "activation \<Rightarrow> time \<Rightarrow> string list \<Rightarrow> ProjectionCheckpoint list \<Rightarrow> ProjectionDB \<Rightarrow> ProjectionDB option" where
  "activation_spec a now tables checkpoints v =
     (case switched a now tables (v_pointers v) of
        Some docs \<Rightarrow>
          if list_all (\<lambda>c. ProjectionCheckpoint_Validate c = None) checkpoints
          then Some (put_checkpoints (raised checkpoints (v_checkpoints v)) (put_pointers docs v)) else None
      | None \<Rightarrow> None)"

lemma activation_memory:
  "case activation_spec a now tables checkpoints v of
     Some v' \<Rightarrow> memory_transaction (activation_callback memory_database memory_retire a now tables checkpoints) v = (Inr (), v')
   | None \<Rightarrow> \<exists>e. memory_transaction (activation_callback memory_database memory_retire a now tables checkpoints) v = (Inl e, v)"
proof (cases "switched a now tables (v_pointers v)")
  case None
  with activate_tables_memory [of a now tables v] show ?thesis
    by (auto simp: activation_spec_def memory_transaction_def activation_callback_def bindG_def memory_database_parts)
next
  case (Some docs)
  with activate_tables_memory [of a now tables v] raise_checkpoints_memory [of checkpoints "put_pointers docs v"]
  show ?thesis
    by (auto simp: activation_spec_def memory_transaction_def activation_callback_def bindG_def memory_database_parts split: if_splits)
qed

lemma refines_activate_tables:
  assumes "serves db view" "rekey_laws retire v_pointers put_pointers view"
  shows "refines view (activate_tables retire (db_readPointers db) a now ts)
    (activate_tables memory_retire (memory_collection pointer_key v_pointers put_pointers) a now ts)"
proof (induction ts)
  case Nil
  then show ?case by (simp add: refines_ret)
next
  case (Cons t ts)
  then show ?case
    by (simp, intro refine refines_RekeyG [OF assms(2)] servesD(3) [OF assms(1)])
qed

lemma refines_raise_checkpoints:
  assumes "serves db view"
  shows "refines view (raise_checkpoints (db_checkpoints db) cs)
    (raise_checkpoints (memory_collection projectionCheckpointFilter v_checkpoints put_checkpoints) cs)"
proof (induction cs)
  case Nil
  then show ?case by (simp add: refines_ret)
next
  case (Cons c cs)
  then show ?case
    by (simp, intro refine servesD(2) [OF assms])
qed

lemma activation_serves:
  assumes s: "serves db view" and k: "rekey_laws retire v_pointers put_pointers view"
    and run: "ActivateManyWithCheckpoints (Some db) retire input now tableIDs checkpoints w = (r, w')"
    and tables: "unique_tables [] tableIDs \<noteq> []"
  shows "(case r of Inr _ \<Rightarrow> activation_spec (trimmed_activation input) now (unique_tables [] tableIDs) checkpoints (view w) = Some (view w')
      | Inl e \<Rightarrow> view w' = view w
        \<or> activation_spec (trimmed_activation input) now (unique_tables [] tableIDs) checkpoints (view w) = Some (view w'))"
proof -
  let ?a = "trimmed_activation input" and ?ts = "unique_tables [] tableIDs"
  show ?thesis
  proof (cases "ac_TenantID ?a = [] \<or> ac_WorkspaceID ?a = [] \<or> ac_OperationID ?a = [] \<or> ac_GenerationID ?a = [] \<or> ac_CollectionName ?a = []")
    case True
    with run show ?thesis by (auto simp: ActivateManyWithCheckpoints_def Let_def fail_def)
  next
    case False
    obtain b w1 where st: "db_StartSession db w = (b, w1)" by force
    note v1 = servesD(8) [OF s st]
    show ?thesis
    proof (cases b)
      case (Some m)
      with run False tables st v1 show ?thesis by (auto simp: ActivateManyWithCheckpoints_def Let_def)
    next
      case None
      let ?f = "activation_callback db retire ?a now ?ts checkpoints"
      let ?s = "activation_callback memory_database memory_retire ?a now ?ts checkpoints"
      have x: "db_WithTransactionUnit db ?f w1 = (r, w')"
        using run False tables st None by (simp add: ActivateManyWithCheckpoints_def Let_def)
      have "refines view ?f ?s"
        unfolding activation_callback_def memory_database_parts
        by (intro refine refines_activate_tables [OF s k] refines_raise_checkpoints [OF s])
      from refines_transaction [OF servesD(7) [OF s] this x] activation_memory [of ?a now ?ts checkpoints "view w"] v1
      show ?thesis by (auto split: option.splits sum.splits)
    qed
  qed
qed

section \<open>Properties\<close>


definition sample_activation :: activation where
  "sample_activation = \<lparr>ac_TenantID = ''t'', ac_WorkspaceID = ''w'', ac_OperationID = ''op'', ac_GenerationID = ''g'',
     ac_CollectionName = ''staged''\<rparr>"

lemma sample_trimmed: "trimmed_activation sample_activation = sample_activation"
  by (simp add: trimmed_activation_def sample_activation_def trim_simps)

lemma sample_tables: "unique_tables [] [''tenders''] = [''tenders'']"
  by (simp add: Let_def trim_simps)

lemma sample_activated:
  "\<exists>v'. ActivateManyWithCheckpoints (Some memory_database) memory_retire sample_activation 7 [''tenders''] [] (sample_db Map.empty)
     = (Inr (), v')"
proof -
  have "activation_spec sample_activation 7 [''tenders''] [] (sample_db Map.empty) \<noteq> None"
    by (simp add: activation_spec_def rekeyed_def sample_db_def)
  with activation_memory [of sample_activation 7 "[''tenders'']" "[]" "sample_db Map.empty"]
  obtain v' where a: "memory_transaction (activation_callback memory_database memory_retire sample_activation 7 [''tenders''] [])
      (sample_db Map.empty) = (Inr (), v')" by (auto split: option.splits)
  have tx: "db_WithTransactionUnit memory_database = memory_transaction" by (simp add: memory_database_def)
  have "ActivateManyWithCheckpoints (Some memory_database) memory_retire sample_activation 7 [''tenders''] [] (sample_db Map.empty)
      = memory_transaction (activation_callback memory_database memory_retire sample_activation 7 [''tenders''] []) (sample_db Map.empty)"
    unfolding ActivateManyWithCheckpoints_def sample_trimmed sample_tables Let_def option.case(2) memory_database_parts tx
    by (simp add: sample_activation_def)
  with a show ?thesis by simp
qed


text \<open>
  The unique index also covers retired pointers, so a table can be switched only once after its
  first activation: when it has an active and a retired pointer, every further activation
  fails and changes nothing.
\<close>

lemma third_activation_fails:
  assumes "serves db view" "rekey_laws retire v_pointers put_pointers view"
    and "t \<in> set (unique_tables [] tableIDs)"
    and "v_pointers (view w) (slot (trimmed_activation input) t ProjectionReadPointerActive) \<noteq> None"
    and "v_pointers (view w) (slot (trimmed_activation input) t ProjectionReadPointerRetired) \<noteq> None"
    and "ActivateManyWithCheckpoints (Some db) retire input now tableIDs checkpoints w = (r, w')"
  shows "r \<noteq> Inr () \<and> view w' = view w"
proof -
  have d: "distinct (unique_tables [] tableIDs)" using unique_tables_props by blast
  have "switched (trimmed_activation input) now (unique_tables [] tableIDs) (v_pointers (view w)) = None"
    using switched_Some [OF _ d assms(3), of "trimmed_activation input" now "v_pointers (view w)"] assms(4,5)
    by (cases "switched (trimmed_activation input) now (unique_tables [] tableIDs) (v_pointers (view w))") auto
  then have "activation_spec (trimmed_activation input) now (unique_tables [] tableIDs) checkpoints (view w) = None"
    by (simp add: activation_spec_def)
  moreover have "unique_tables [] tableIDs \<noteq> []" using assms(3) by auto
  ultimately show ?thesis using activation_serves [OF assms(1,2,6)] by (cases r) auto
qed

end
