(* ===== verification/Effects.thy ===== *)
theory Effects
  imports Mongo
begin

text \<open>
  Proof rules for the calls of the services: most read first and change the database in one
  transaction at the end. \<open>keeps\<close> says that a call leaves what \<open>view\<close> shows of the state as it
  is; \<open>post\<close> says what a call does from one state: it succeeds with an effect, or it fails and
  changes nothing, or the driver reports an error of a commit that took place. The rules for
  both follow the structure of a program, so \<open>intro\<close> takes a service call apart.
\<close>

named_theorems keeping \<open>calls that change nothing\<close>
named_theorems posts \<open>effects, rule by rule\<close>

definition keeps :: "('w \<Rightarrow> 'v) \<Rightarrow> ('w, 'a) go \<Rightarrow> bool" where
  "keeps view m \<longleftrightarrow> (\<forall>w. view (snd (m w)) = view w)"

lemma keepsD: "keeps view m \<Longrightarrow> m w = (r, w') \<Longrightarrow> view w' = view w"
  unfolding keeps_def by (metis snd_conv)

lemma keepsI: "(\<And>w r w'. m w = (r, w') \<Longrightarrow> view w' = view w) \<Longrightarrow> keeps view m"
  unfolding keeps_def by (metis prod.collapse)

lemma keeps_ret [keeping]: "keeps view (ret a)" "keeps view (fail e)" "keeps view (pureG r)" "keeps view (checkG v)"
  by (auto simp: keeps_def ret_def fail_def pureG_def checkG_def split: option.split)

lemma keeps_bindG [keeping]:
  assumes "keeps view m" "\<And>a. keeps view (f a)" shows "keeps view (bindG m f)"
proof (rule keepsI)
  fix w r w' assume "bindG m f w = (r, w')"
  then show "view w' = view w"
    using keepsD [OF assms(1), of w] keepsD [OF assms(2)]
    by (fastforce simp: bindG_def split: prod.splits sum.splits)
qed

lemma keeps_catchG [keeping]:
  assumes "keeps view m" "\<And>e. keeps view (h e)" "\<And>a. keeps view (f a)" shows "keeps view (catchG m h f)"
proof (rule keepsI)
  fix w r w' assume "catchG m h f w = (r, w')"
  then show "view w' = view w"
    using keepsD [OF assms(1), of w] keepsD [OF assms(2)] keepsD [OF assms(3)]
    by (fastforce simp: catchG_def split: prod.splits sum.splits)
qed

lemma keeps_if [keeping]: "(b \<Longrightarrow> keeps view m) \<Longrightarrow> (\<not> b \<Longrightarrow> keeps view m') \<Longrightarrow> keeps view (if b then m else m')"
  by simp

lemma keeps_option [keeping]:
  "(x = None \<Longrightarrow> keeps view m) \<Longrightarrow> (\<And>a. x = Some a \<Longrightarrow> keeps view (f a)) \<Longrightarrow>
     keeps view (case x of None \<Rightarrow> m | Some a \<Rightarrow> f a)"
  by (cases x) simp_all

lemma find_reads:
  assumes "realises c keyof get put view" "c_FindOne c k w = (r, w')"
  shows "view w' = view w" "r = Found d \<Longrightarrow> get (view w) k = Some d"
proof -
  note law = FindOne_law [OF assms(1) [unfolded realises_def, THEN conjunct2] assms(2)]
  from realises_view [OF assms(1) law(2)] law(1) assms(1) show "view w' = view w" by (simp add: realises_def part_def)
  show "r = Found d \<Longrightarrow> get (view w) k = Some d" by (rule law(3))
qed

lemma keeps_FindG [keeping]:
  assumes "realises c keyof get put view" shows "keeps view (FindG c k l)"
proof (rule keepsI)
  fix w r w' assume run: "FindG c k l w = (r, w')"
  obtain s w1 where i: "c_FindOne c k w = (s, w1)" by force
  note law = FindOne_law [OF assms [unfolded realises_def, THEN conjunct2] i]
  from realises_view [OF assms law(2)] law(1) assms have "view w1 = view w" by (simp add: realises_def part_def)
  with run i show "view w' = view w" by (cases s) (auto simp: FindG_def)
qed

lemma FindG_Inr:
  assumes "realises c keyof get put view" "FindG c k l w = (Inr found, w')"
  shows "found = get (view w) k"
proof -
  obtain s w1 where i: "c_FindOne c k w = (s, w1)" by force
  note law = FindOne_law [OF assms(1) [unfolded realises_def, THEN conjunct2] i]
  from assms(2) i law(3,4) show ?thesis by (cases s) (auto simp: FindG_def)
qed

section \<open>Effects\<close>

definition post :: "('w \<Rightarrow> 'v) \<Rightarrow> ('v \<Rightarrow> 'a \<Rightarrow> 'v \<Rightarrow> bool) \<Rightarrow> ('w, 'a) go \<Rightarrow> 'w \<Rightarrow> bool" where
  "post view P m w \<longleftrightarrow>
     (case m w of
        (Inr a, w') \<Rightarrow> P (view w) a (view w')
      | (Inl e, w') \<Rightarrow> view w' = view w \<or> (\<exists>x a. e = External x \<and> P (view w) a (view w')))"

lemma postD:
  assumes "post view P m w" "m w = (r, w')"
  shows "case r of Inr a \<Rightarrow> P (view w) a (view w')
    | Inl e \<Rightarrow> view w' = view w \<or> (\<exists>x a. e = External x \<and> P (view w) a (view w'))"
  using assms by (simp add: post_def split: sum.splits)

lemma post_ret [posts]: "P (view w) a (view w) \<Longrightarrow> post view P (ret a) w"
  by (simp add: post_def ret_def)

lemma post_fail [posts]: "post view P (fail e) w"
  by (simp add: post_def fail_def)

lemma post_if [posts]:
  "(b \<Longrightarrow> post view P m w) \<Longrightarrow> (\<not> b \<Longrightarrow> post view P m' w) \<Longrightarrow> post view P (if b then m else m') w"
  by simp

lemma post_option [posts]:
  "(x = None \<Longrightarrow> post view P m w) \<Longrightarrow> (\<And>a. x = Some a \<Longrightarrow> post view P (f a) w) \<Longrightarrow>
     post view P (case x of None \<Rightarrow> m | Some a \<Rightarrow> f a) w"
  by (cases x) simp_all

lemma post_sum [posts]:
  "(\<And>e. x = Inl e \<Longrightarrow> post view P (g e) w) \<Longrightarrow> (\<And>a. x = Inr a \<Longrightarrow> post view P (f a) w) \<Longrightarrow>
     post view P (case x of Inl e \<Rightarrow> g e | Inr a \<Rightarrow> f a) w"
  by (cases x) simp_all

lemma post_split [posts]:
  "(\<And>x y. p = (x, y) \<Longrightarrow> post view P (f x y) w) \<Longrightarrow> post view P (case p of (x, y) \<Rightarrow> f x y) w"
  by (cases p) simp

lemma post_weaken:
  "post view P m w \<Longrightarrow> (\<And>a v'. P (view w) a v' \<Longrightarrow> Q (view w) a v') \<Longrightarrow> post view Q m w"
  by (auto simp: post_def split: prod.splits sum.splits)

lemma post_check:
  "(c = None \<Longrightarrow> post view P (f ()) w) \<Longrightarrow> post view P (bindG (checkG c) f) w"
  by (cases c) (simp_all add: post_def bindG_def checkG_def ret_def fail_def)

lemma post_pure:
  "(\<And>a. r = Inr a \<Longrightarrow> post view P (f a) w) \<Longrightarrow> post view P (bindG (pureG r) f) w"
  by (cases r) (simp_all add: post_def bindG_def pureG_def)

lemma post_read:
  assumes "keeps view m" "\<And>a w1. m w = (Inr a, w1) \<Longrightarrow> view w1 = view w \<Longrightarrow> post view P (f a) w1"
  shows "post view P (bindG m f) w"
proof (cases m w rule: run_cases)
  case (failed e w1)
  with keepsD [OF assms(1) failed] show ?thesis by (simp add: post_def bindG_def)
next
  case (finished a w1)
  note v = keepsD [OF assms(1) finished]
  from assms(2) [OF finished v] v finished show ?thesis by (simp add: post_def bindG_def split: prod.splits sum.splits)
qed

lemma post_catch_read:
  assumes "keeps view m" "\<And>e w1. m w = (Inl e, w1) \<Longrightarrow> view w1 = view w \<Longrightarrow> post view P (h e) w1"
    and "\<And>a w1. m w = (Inr a, w1) \<Longrightarrow> view w1 = view w \<Longrightarrow> post view P (f a) w1"
  shows "post view P (catchG m h f) w"
proof (cases m w rule: run_cases)
  case (failed e w1)
  note v = keepsD [OF assms(1) failed]
  from assms(2) [OF failed v] v failed show ?thesis by (simp add: post_def catchG_def split: prod.splits sum.splits)
next
  case (finished a w1)
  note v = keepsD [OF assms(1) finished]
  from assms(3) [OF finished v] v finished show ?thesis by (simp add: post_def catchG_def split: prod.splits sum.splits)
qed

lemma post_transaction:
  assumes "transaction_laws tx" "\<And>a w1. m w = (Inr a, w1) \<Longrightarrow> P (view w) a (view w1)"
  shows "post view P (tx m) w"
proof (cases m w rule: run_cases)
  case (failed e w1)
  with transaction_fails [OF assms(1), of m w e w1] show ?thesis by (simp add: post_def)
next
  case (finished a w1)
  with transaction_commits [OF assms(1), of m w a w1] assms(2) [OF finished] show ?thesis by (auto simp: post_def)
qed

text \<open>What runs after an effect and keeps the view.\<close>

lemma post_then:
  assumes "post view P m w" "\<And>a. keeps view (f a)" "\<And>a w1 b w2. f a w1 = (Inr b, w2) \<Longrightarrow> P (view w) a (view w1) \<Longrightarrow> Q (view w) b (view w1)"
    and "\<And>a w1. \<exists>b w2. f a w1 = (Inr b, w2)"
  shows "post view Q (bindG m f) w"
proof (cases m w rule: run_cases)
  case (failed e w1)
  from postD [OF assms(1) failed] have "view w1 = view w \<or> (\<exists>x a. e = External x \<and> P (view w) a (view w1))" by simp
  with assms(3,4) failed show ?thesis by (fastforce simp: post_def bindG_def)
next
  case (finished a w1)
  from postD [OF assms(1) finished] have p: "P (view w) a (view w1)" by simp
  obtain b w2 where f: "f a w1 = (Inr b, w2)" using assms(4) by blast
  from keepsD [OF assms(2) f] assms(3) [OF f p] finished f show ?thesis by (simp add: post_def bindG_def)
qed

section \<open>Calls on collections that succeed\<close>

text \<open>\<open>InsertOne\<close> where a duplicate key is an error of the package.\<close>

definition InsertNew :: "('w, 'k, 'd) collection \<Rightarrow> 'd \<Rightarrow> goerr \<Rightarrow> string \<Rightarrow> ('w, unit) go" where
  "InsertNew c d exists label = (\<lambda>w. case c_InsertOne c d w of
       (Inserted, w') \<Rightarrow> (Inr (), w')
     | (DuplicateKey, w') \<Rightarrow> (Inl exists, w')
     | (InsertError m, w') \<Rightarrow> (Inl (Wrap label (External m)), w'))"

text \<open>\<open>FindOneAndUpdate\<close> that returns the new document; \<open>None\<close> is \<open>ErrNoDocuments\<close>.\<close>

definition FindAndUpdateG ::
  "('w, 'k, 'd) collection \<Rightarrow> 'k \<Rightarrow> ('d \<Rightarrow> bool) \<Rightarrow> ('d \<Rightarrow> 'd) \<Rightarrow> string \<Rightarrow> ('w, 'd option) go" where
  "FindAndUpdateG c k P f label = (\<lambda>w. case c_FindOneAndUpdate c k P f w of
       (NoDocuments, w') \<Rightarrow> (Inr None, w')
     | (FindError m, w') \<Rightarrow> (Inl (Wrap label (External m)), w')
     | (Found d, w') \<Rightarrow> (Inr (Some d), w'))"

lemma InsertNew_Inr:
  assumes "realises c keyof get put view" "InsertNew c d e l w = (Inr u, w')"
  shows "get (view w) (keyof d) = None" "view w' = put ((get (view w))(keyof d \<mapsto> d)) (view w)"
proof -
  obtain s w1 where i: "c_InsertOne c d w = (s, w1)" by force
  note law = InsertOne_law [OF assms(1) [unfolded realises_def, THEN conjunct2] i]
  have "s = Inserted" "w1 = w'" using assms(2) i by (cases s; simp add: InsertNew_def)+
  with law(2) realises_view [OF assms(1) law(1)]
  show "get (view w) (keyof d) = None" "view w' = put ((get (view w))(keyof d \<mapsto> d)) (view w)" by (simp_all del: fun_upd_apply)
qed

lemma FindAndUpdateG_Inr:
  assumes "realises c keyof get put view" "FindAndUpdateG c k P f l w = (Inr found, w')"
  shows "(case found of
      None \<Rightarrow> matching (get (view w)) k P = None \<and> view w' = view w
    | Some d \<Rightarrow> \<exists>old. get (view w) k = Some old \<and> P old \<and> d = f old \<and> view w' = put ((get (view w))(k \<mapsto> d)) (view w))"
proof -
  obtain s w1 where i: "c_FindOneAndUpdate c k P f w = (s, w1)" by force
  note law = FindOneAndUpdate_law [OF assms(1) [unfolded realises_def, THEN conjunct2] i]
  note v = realises_view [OF assms(1) law(1)]
  have id: "put (get (view w)) (view w) = view w" using assms(1) by (simp add: realises_def part_def)
  show ?thesis
  proof (cases s)
    case NoDocuments
    with assms(2) i law(3) v id show ?thesis by (simp add: FindAndUpdateG_def)
  next
    case (FindError m)
    with assms(2) i show ?thesis by (simp add: FindAndUpdateG_def)
  next
    case (Found d)
    with assms(2) i have "found = Some d" "w1 = w'" by (simp_all add: FindAndUpdateG_def)
    with law(4) [OF Found] v show ?thesis by (auto simp del: fun_upd_apply)
  qed
qed

end
