(* ===== verification/Receipts.thy ===== *)
theory Receipts
  imports Effects AuditLog
begin

text \<open>
  Idempotency receipts. The services of schemas, migrations, records, rebuilds and the
  projection catalog keep one receipt per tenant, workspace, operation and key; they look it
  up before they work and save it in the transaction of the change, next to the audit entry.
  The stores differ in their errors and checks only, which \<open>receipt_kind\<close> has. The locale
  \<open>receipt_store\<close> is what the services rely on; the store on MongoDB provides it.
\<close>

record 'r Receipt =
  rcp_TenantID :: string
  rcp_WorkspaceID :: string
  rcp_Operation :: string
  rcp_IdempotencyKey :: string
  rcp_RequestHash :: string
  rcp_Result :: 'r

type_synonym receipt_scope = "string \<times> string \<times> string \<times> string"

definition receipt_key :: "'r Receipt \<Rightarrow> receipt_scope" where
  "receipt_key r = (rcp_TenantID r, rcp_WorkspaceID r, rcp_Operation r, rcp_IdempotencyKey r)"

definition receipt_for :: "receipt_scope \<Rightarrow> string \<Rightarrow> 'r \<Rightarrow> 'r Receipt" where
  "receipt_for k h a = (case k of (t, ws, op, key) \<Rightarrow>
     \<lparr>rcp_TenantID = t, rcp_WorkspaceID = ws, rcp_Operation = op, rcp_IdempotencyKey = key,
      rcp_RequestHash = h, rcp_Result = a\<rparr>)"

lemma receipt_for_simps [simp]:
  "receipt_key (receipt_for k h a) = k" "rcp_RequestHash (receipt_for k h a) = h" "rcp_Result (receipt_for k h a) = a"
  by (simp_all add: receipt_for_def receipt_key_def split: prod.split)

text \<open>The errors of a store, the check it makes before it saves, and what it does about a
  duplicate key: a strict store reports an error of the lookup, the others a conflict.\<close>

record 'r receipt_kind =
  rk_NotFound :: goerr
  rk_Conflict :: goerr
  rk_FindLabel :: string
  rk_SaveLabel :: string
  rk_Check :: "'r Receipt \<Rightarrow> goerr option"
  rk_Strict :: bool

type_synonym ('w, 'r) receipts = "('w, receipt_scope, 'r Receipt) collection"

definition receipt_Find :: "'r receipt_kind \<Rightarrow> ('w, 'r) receipts \<Rightarrow> receipt_scope \<Rightarrow> ('w, 'r Receipt) go" where
  "receipt_Find kind c key =
     bindG (FindG c key (rk_FindLabel kind)) (\<lambda>found. case found of
         None \<Rightarrow> fail (rk_NotFound kind)
       | Some receipt \<Rightarrow> ret receipt)"

definition receipt_Save :: "'r receipt_kind \<Rightarrow> ('w, 'r) receipts \<Rightarrow> 'r Receipt \<Rightarrow> ('w, unit) go" where
  "receipt_Save kind c receipt =
     bindG (checkG (rk_Check kind receipt)) (\<lambda>_ w. case c_InsertOne c receipt w of
         (Inserted, w') \<Rightarrow> (Inr (), w')
       | (InsertError m, w') \<Rightarrow> (Inl (Wrap (rk_SaveLabel kind) (External m)), w')
       | (DuplicateKey, w') \<Rightarrow>
           catchG (receipt_Find kind c (receipt_key receipt))
             (\<lambda>findErr. fail (if rk_Strict kind then findErr else rk_Conflict kind))
             (\<lambda>existing. if rcp_RequestHash existing \<noteq> rcp_RequestHash receipt then fail (rk_Conflict kind) else ret ()) w')"

section \<open>Callers and clocks\<close>

text \<open>Reading a clock, which may have state of its own.\<close>

definition nowG :: "('w \<Rightarrow> time \<times> 'w) \<Rightarrow> ('w, time) go" where
  "nowG clock w = (case clock w of (t, w') \<Rightarrow> (Inr t, w'))"

text \<open>The caller is an active member of the workspace whose role allows the action.\<close>

definition granted :: "WorkspaceMembership set \<Rightarrow> Principal \<Rightarrow> string \<Rightarrow> string \<Rightarrow> Action \<Rightarrow> bool" where
  "granted M prin tenantID workspaceID action \<longleftrightarrow>
     p_Kind prin = PrincipalUser \<and> (\<exists>m \<in> M. wm_Status m = MembershipActive \<and> wm_Identity m = identityKey prin
       \<and> wm_TenantID m = tenantID \<and> wm_WorkspaceID m = workspaceID \<and> roleAllows (wm_Role m) action)"

definition reads_members :: "'w MembershipReader \<Rightarrow> WorkspaceMembership set \<Rightarrow> ('w \<Rightarrow> 'x) \<Rightarrow> bool" where
  "reads_members reader M view \<longleftrightarrow> (\<forall>k t ws w r w'. reader k t ws w = (r, w') \<longrightarrow>
     view w' = view w \<and> (\<forall>m. r = Inr m \<longrightarrow> m \<in> M))"

lemma keeps_nowG: "(\<And>w. view (snd (clock w)) = view w) \<Longrightarrow> keeps view (nowG clock)"
  unfolding keeps_def nowG_def by (metis (no_types, lifting) case_prod_beta snd_conv)

lemma Authorize_keeps: "reads_members reader M view \<Longrightarrow> keeps view (Authorize (Some reader) prin t ws action)"
  unfolding Authorize_def option.case
  by (intro keeping keepsI) (metis reads_members_def)

lemma Authorize_granted:
  "reads_members reader M view \<Longrightarrow> Authorize (Some reader) prin t ws action w = (Inr m, w') \<Longrightarrow> granted M prin t ws action"
  unfolding reads_members_def granted_def Authorize_Inr by blast

section \<open>Looking up and completing\<close>

definition find_receipt ::
  "(receipt_scope \<Rightarrow> ('w, 'r Receipt) go) \<Rightarrow> goerr \<Rightarrow> goerr \<Rightarrow> receipt_scope \<Rightarrow> string \<Rightarrow> ('w, 'r option) go" where
  "find_receipt lookup missing conflict key requestHash =
     catchG (lookup key)
       (\<lambda>err. if errors_is err missing then ret None else fail err)
       (\<lambda>receipt. if rcp_RequestHash receipt \<noteq> requestHash then fail conflict else ret (Some (rcp_Result receipt)))"

definition complete_with ::
  "'w AuditWriter \<Rightarrow> ('r Receipt \<Rightarrow> ('w, unit) go) \<Rightarrow> string \<Rightarrow> string \<Rightarrow> AuditEntry \<Rightarrow> 'r Receipt \<Rightarrow> ('w, 'r) go" where
  "complete_with writer save auditLabel receiptLabel entry receipt =
     bindG (wrapG auditLabel (writer entry)) (\<lambda>_.
     bindG (wrapG receiptLabel (save receipt)) (\<lambda>_. ret (rcp_Result receipt)))"

lemma keeps_wrapG [keeping]: "keeps view m \<Longrightarrow> keeps view (wrapG l m)"
  unfolding wrapG_def by (intro keeping)

section \<open>The state\<close>

text \<open>Receipts and audit log; the services extend it by their own documents.\<close>

record 'r ReceiptDB =
  x_receipts :: "receipt_scope \<rightharpoonup> 'r Receipt"
  x_audit :: "AuditEntry list"

definition put_receipts :: "(receipt_scope \<rightharpoonup> 'r Receipt) \<Rightarrow> ('r, 'z) ReceiptDB_scheme \<Rightarrow> ('r, 'z) ReceiptDB_scheme" where
  "put_receipts m v = v\<lparr>x_receipts := m\<rparr>"

lemma part_receipts: "part x_receipts put_receipts"
  by (simp add: part_def put_receipts_def)

definition recorded :: "AuditEntry \<Rightarrow> 'r Receipt \<Rightarrow> ('r, 'z) ReceiptDB_scheme \<Rightarrow> ('r, 'z) ReceiptDB_scheme" where
  "recorded entry receipt v =
     v\<lparr>x_audit := x_audit v @ [entry], x_receipts := (x_receipts v)(receipt_key receipt \<mapsto> receipt)\<rparr>"

lemma recorded_simps [simp]:
  "x_audit (recorded entry receipt v) = x_audit v @ [entry]"
  "x_receipts (recorded entry receipt v) = (x_receipts v)(receipt_key receipt \<mapsto> receipt)"
  by (simp_all add: recorded_def)

text \<open>What a call with a receipt does: it answers a receipt there is, or it has its effect and records it.\<close>

definition receipted ::
  "receipt_scope \<Rightarrow> string \<Rightarrow> (('r, 'z) ReceiptDB_scheme \<Rightarrow> 'r \<Rightarrow> ('r, 'z) ReceiptDB_scheme \<Rightarrow> AuditEntry \<Rightarrow> bool)
     \<Rightarrow> ('r, 'z) ReceiptDB_scheme \<Rightarrow> 'r \<Rightarrow> ('r, 'z) ReceiptDB_scheme \<Rightarrow> bool" where
  "receipted k h E v a v' \<longleftrightarrow>
     (case x_receipts v k of
        Some x \<Rightarrow> rcp_RequestHash x = h \<and> a = rcp_Result x \<and> v' = v
      | None \<Rightarrow> \<exists>v1 entry. E v a v1 entry \<and> x_receipts v1 = x_receipts v \<and> x_audit v1 = x_audit v
                  \<and> v' = recorded entry (receipt_for k h a) v1)"

lemma receipted_receipts:
  "receipted k h E v a v' \<Longrightarrow> x_receipts v \<subseteq>\<^sub>m x_receipts v' \<and> (\<exists>x. x_receipts v' k = Some x \<and> rcp_RequestHash x = h \<and> rcp_Result x = a)"
  by (auto simp: receipted_def map_le_def split: option.splits)

lemma receipted_again:
  "receipted k h E v a v' \<Longrightarrow> x_receipts v k = Some x \<Longrightarrow> rcp_RequestHash x = h \<and> a = rcp_Result x \<and> v' = v"
  by (simp add: receipted_def)

lemma receipted_audit:
  "receipted k h E v a v' \<Longrightarrow> (v' = v \<or> (\<exists>entry. x_audit v' = x_audit v @ [entry]))"
  by (auto simp: receipted_def split: option.splits)

section \<open>The interface\<close>

locale receipt_store =
  fixes lookup :: "receipt_scope \<Rightarrow> ('w, 'r Receipt) go"
    and save :: "'r Receipt \<Rightarrow> ('w, unit) go"
    and writer :: "'w AuditWriter"
    and missing :: goerr
    and view :: "'w \<Rightarrow> ('r, 'z) ReceiptDB_scheme"
  assumes find_keeps: "lookup k w = (r, w') \<Longrightarrow> view w' = view w"
    and find_found: "lookup k w = (Inr x, w') \<Longrightarrow> x_receipts (view w) k = Some x"
    and find_missing: "lookup k w = (Inl e, w') \<Longrightarrow> errors_is e missing \<Longrightarrow> x_receipts (view w) k = None"
    and save_new: "save x w = (Inr u, w') \<Longrightarrow> x_receipts (view w) (receipt_key x) = None \<Longrightarrow>
      view w' = put_receipts ((x_receipts (view w))(receipt_key x \<mapsto> x)) (view w)"
    and append_adds: "writer entry w = (Inr u, w') \<Longrightarrow> view w' = (view w)\<lparr>x_audit := x_audit (view w) @ [entry]\<rparr>"
begin

lemma keeps_find_receipt: "keeps view (find_receipt lookup missing conflict k h)"
  unfolding find_receipt_def by (intro keeping keepsI) (rule find_keeps)

lemma find_receipt_Inr:
  assumes "find_receipt lookup missing conflict k h w = (Inr found, w')"
  shows "case found of
      None \<Rightarrow> x_receipts (view w) k = None
    | Some a \<Rightarrow> \<exists>x. x_receipts (view w) k = Some x \<and> rcp_RequestHash x = h \<and> rcp_Result x = a"
proof (cases "lookup k w" rule: prod.exhaust)
  case (Pair r w1)
  with assms find_found [of k w] find_missing [of k w] show ?thesis
    by (cases r) (auto simp: find_receipt_def go_simps split: if_splits)
qed

lemma complete_with_Inr:
  assumes "complete_with writer save l1 l2 entry x w = (Inr a, w')"
    and "x_receipts (view w) (receipt_key x) = None"
  shows "a = rcp_Result x \<and> view w' = recorded entry x (view w)"
  using assms by (auto simp: complete_with_def go_success wrapG_Inr recorded_def put_receipts_def dest!: append_adds save_new)

text \<open>A call that looks up its receipt first.\<close>

lemma post_receipt:
  assumes "\<And>w1. x_receipts (view w) k = None \<Longrightarrow> view w1 = view w \<Longrightarrow> post view (receipted k h E) body w1"
  shows "post view (receipted k h E)
    (bindG (find_receipt lookup missing conflict k h) (\<lambda>found. case found of Some a \<Rightarrow> ret a | None \<Rightarrow> body)) w"
proof (rule post_read [OF keeps_find_receipt])
  fix found w1
  assume run: "find_receipt lookup missing conflict k h w = (Inr found, w1)" and v: "view w1 = view w"
  from find_receipt_Inr [OF run] show "post view (receipted k h E) (case found of Some a \<Rightarrow> ret a | None \<Rightarrow> body) w1"
    using assms v by (cases found) (auto simp: post_def ret_def receipted_def)
qed

text \<open>The transaction of such a call: a change, then the audit entry and the receipt.\<close>

lemma post_completed:
  assumes "transaction_laws tx" "x_receipts (view w) k = None"
    and change: "\<And>d w1. m w = (Inr d, w1) \<Longrightarrow>
      E (view w) (result d) (view w1) (entry d) \<and> x_receipts (view w1) = x_receipts (view w) \<and> x_audit (view w1) = x_audit (view w)"
  shows "post view (receipted k h E)
    (tx (bindG m (\<lambda>d. complete_with writer save l1 l2 (entry d) (receipt_for k h (result d))))) w"
proof (rule post_transaction [OF assms(1)])
  fix a w2 assume "bindG m (\<lambda>d. complete_with writer save l1 l2 (entry d) (receipt_for k h (result d))) w = (Inr a, w2)"
  then obtain d w1 where m: "m w = (Inr d, w1)"
    and fin: "complete_with writer save l1 l2 (entry d) (receipt_for k h (result d)) w1 = (Inr a, w2)" by (auto simp: bindG_Inr)
  from complete_with_Inr [OF fin] change [OF m] assms(2)
  show "receipted k h E (view w) a (view w2)" by (auto simp: receipted_def)
qed

end

section \<open>The store on MongoDB\<close>

definition audit_adds :: "'w AuditWriter \<Rightarrow> ('w \<Rightarrow> ('r, 'z) ReceiptDB_scheme) \<Rightarrow> bool" where
  "audit_adds writer view \<longleftrightarrow> (\<forall>entry w r w'. writer entry w = (r, w') \<longrightarrow>
     view w' = (case r of Inr _ \<Rightarrow> (view w)\<lparr>x_audit := x_audit (view w) @ [entry]\<rparr> | Inl _ \<Rightarrow> view w))"

lemma mongo_audit_adds:
  assumes "\<forall>entry w r w'. insertOne entry w = (r, w') \<longrightarrow>
     view w' = (case r of None \<Rightarrow> (view w)\<lparr>x_audit := x_audit (view w) @ [entry]\<rparr> | Some _ \<Rightarrow> view w)"
  shows "audit_adds (mongo_audit_Append insertOne) view"
  unfolding audit_adds_def
proof (intro allI impI)
  fix entry w r w' assume run: "mongo_audit_Append insertOne entry w = (r, w')"
  obtain s w1 where i: "insertOne entry w = (s, w1)" by force
  with assms have "view w1 = (case s of None \<Rightarrow> (view w)\<lparr>x_audit := x_audit (view w) @ [entry]\<rparr> | Some _ \<Rightarrow> view w)" by blast
  with run i show "view w' = (case r of Inr _ \<Rightarrow> (view w)\<lparr>x_audit := x_audit (view w) @ [entry]\<rparr> | Inl _ \<Rightarrow> view w)"
    by (cases s) (auto simp: mongo_audit_Append_def fail_def split: if_splits)
qed

lemma receipt_Find_keeps: "realises c receipt_key x_receipts put_receipts view \<Longrightarrow> keeps view (receipt_Find kind c k)"
  unfolding receipt_Find_def by (intro keeping)

lemma mongo_receipt_store:
  assumes c: "realises c receipt_key x_receipts put_receipts view" and a: "audit_adds writer view"
    and plain: "\<And>l m. \<not> errors_is (Wrap l (External m)) (rk_NotFound kind)"
  shows "receipt_store (receipt_Find kind c) (receipt_Save kind c) writer (rk_NotFound kind) view"
proof
  fix k w r w' assume "receipt_Find kind c k w = (r, w')"
  with keepsD [OF receipt_Find_keeps [OF c]] show "view w' = view w" by blast
next
  fix k w x w' assume "receipt_Find kind c k w = (Inr x, w')"
  then show "x_receipts (view w) k = Some x"
    using FindG_Inr [OF c] by (fastforce simp: receipt_Find_def go_success split: option.splits)
next
  fix k w e w' assume run: "receipt_Find kind c k w = (Inl e, w')" and e: "errors_is e (rk_NotFound kind)"
  obtain s w1 where i: "FindG c k (rk_FindLabel kind) w = (s, w1)" by force
  show "x_receipts (view w) k = None"
  proof (cases s)
    case (Inl e')
    with i have "\<exists>m. e' = Wrap (rk_FindLabel kind) (External m)" by (auto simp: FindG_def split: prod.splits find_result.splits)
    with run i Inl e plain show ?thesis by (auto simp: receipt_Find_def bindG_def)
  next
    case (Inr found)
    with FindG_Inr [OF c, of k "rk_FindLabel kind" w] run i show ?thesis
      by (auto simp: receipt_Find_def bindG_def ret_def split: option.splits)
  qed
next
  fix x w u w' assume run: "receipt_Save kind c x w = (Inr u, w')" and new: "x_receipts (view w) (receipt_key x) = None"
  then have chk: "rk_Check kind x = None" by (auto simp: receipt_Save_def go_success)
  obtain s w1 where i: "c_InsertOne c x w = (s, w1)" by force
  note law = InsertOne_law [OF c [unfolded realises_def, THEN conjunct2] i]
  show "view w' = put_receipts ((x_receipts (view w))(receipt_key x \<mapsto> x)) (view w)"
  proof (cases s)
    case Inserted
    with run i chk law(2) realises_view [OF c law(1)] show ?thesis
      by (simp add: receipt_Save_def go_simps del: fun_upd_apply)
  next
    case DuplicateKey
    with law(3) realises_view [OF c law(1)] c have "view w1 = view w" by (simp add: realises_def part_def)
    with run i chk DuplicateKey new FindG_Inr [OF c, of "receipt_key x" _ w1] show ?thesis
      by (fastforce simp: receipt_Save_def go_simps receipt_Find_def split: prod.splits sum.splits option.splits)
  next
    case (InsertError m)
    with run i chk show ?thesis by (simp add: receipt_Save_def go_simps)
  qed
next
  fix entry w u w' assume "writer entry w = (Inr u, w')"
  with a [unfolded audit_adds_def, THEN spec, THEN spec, THEN spec, THEN spec, THEN mp]
  show "view w' = (view w)\<lparr>x_audit := x_audit (view w) @ [entry]\<rparr>" by fastforce
qed

text \<open>Every field a strict store requires.\<close>

definition incomplete_receipt :: "'r Receipt \<Rightarrow> bool" where
  "incomplete_receipt r \<longleftrightarrow> rcp_TenantID r = [] \<or> rcp_WorkspaceID r = [] \<or> rcp_Operation r = []
     \<or> rcp_IdempotencyKey r = [] \<or> rcp_RequestHash r = []"

definition memory_audit_writer :: "('r, 'z) ReceiptDB_scheme AuditWriter" where
  "memory_audit_writer = mongo_audit_Append (\<lambda>entry v. (None, v\<lparr>x_audit := x_audit v @ [entry]\<rparr>))"

lemma memory_audit_adds: "audit_adds memory_audit_writer (\<lambda>v. v)"
  unfolding memory_audit_writer_def by (rule mongo_audit_adds) simp

abbreviation memory_receipts :: "(('r, 'z) ReceiptDB_scheme, 'r) receipts" where
  "memory_receipts \<equiv> memory_collection receipt_key x_receipts put_receipts"

lemma memory_receipt_Find [memory_calls]:
  "receipt_Find kind memory_receipts k v =
     (case x_receipts v k of None \<Rightarrow> (Inl (rk_NotFound kind), v) | Some x \<Rightarrow> (Inr x, v))"
  by (simp add: receipt_Find_def go_simps memory_FindG split: option.split)

lemma memory_find_receipt:
  "missing = rk_NotFound kind \<Longrightarrow> x_receipts v k = None \<Longrightarrow>
     find_receipt (receipt_Find kind memory_receipts) missing conflict k h v = (Inr None, v)"
  by (simp add: find_receipt_def go_simps memory_receipt_Find)

lemma memory_complete:
  "complete_entry entry \<Longrightarrow> rk_Check kind x = None \<Longrightarrow> x_receipts v (receipt_key x) = None \<Longrightarrow>
     complete_with memory_audit_writer (receipt_Save kind memory_receipts) l1 l2 entry x v = (Inr (rcp_Result x), recorded entry x v)"
  by (simp add: complete_with_def go_simps wrapG_def memory_audit_writer_def mongo_audit_Append_def receipt_Save_def
      memory_collection_def recorded_def put_receipts_def)

section \<open>A member\<close>

definition sample_owner :: Principal where
  "sample_owner = \<lparr>p_Kind = PrincipalUser, p_Issuer = ''idp'', p_Subject = ''ann'', p_Audience = [''hub''],
     p_Email = [], p_EmailVerified = False, p_Name = [], p_PreferredUsername = [], p_Groups = [], p_Scopes = []\<rparr>"

definition sample_membership :: WorkspaceMembership where
  "sample_membership = \<lparr>wm_TenantID = ''t'', wm_WorkspaceID = ''w'', wm_Identity = identityKey sample_owner,
     wm_Role = RoleOwner, wm_Status = MembershipActive\<rparr>"

lemma sample_authorized:
  "action \<in> {ActionSchemaManage, ActionRecordWrite, ActionProjectionManage, ActionRecordRead, ActionSchemaRead} \<Longrightarrow>
     Authorize (Some (\<lambda>_ _ _. ret sample_membership)) sample_owner ''t'' ''w'' action w = (Inr sample_membership, w)"
  by (auto simp: Authorize_def sample_owner_def identityKey_def sample_membership_def knownAction_def go_simps)

end
