(* ===== verification/Schemas.thy ===== *)
theory Schemas
  imports Canonical RecordModel
begin

text \<open>
  \<open>schema/model.go\<close>, \<open>semantic_types.go\<close>, \<open>validator.go\<close> and the content hash of
  \<open>canonical.go\<close>: schema definitions and their validation, the normal form of semantic type
  identifiers, and the compilation of a JSON Schema up to the call of the schema library, whose
  \<open>Compile\<close> and \<open>Validate\<close> are arguments. So are \<open>url.Parse\<close> and \<open>URL.String\<close>; the parts of a
  URL are a record.
\<close>

section \<open>Definitions\<close>

datatype SchemaStatus = SchemaDraft | SchemaPublished | SchemaDeprecated | OtherSchemaStatus string

record SchemaDefinition =
  sd_TenantID :: string
  sd_SchemaID :: string
  sd_Name :: string
  sd_Version :: int
  sd_Revision :: int
  sd_Status :: SchemaStatus
  sd_JSONSchema :: string
  sd_SemanticTypes :: "string list"
  sd_ContentHash :: string
  sd_CreatedBy :: IdentityKey
  sd_PublishedBy :: "IdentityKey option"
  sd_CreatedAt :: time
  sd_UpdatedAt :: time
  sd_PublishedAt :: "time option"

definition SchemaDefinition_Validate :: "SchemaDefinition \<Rightarrow> goerr option" where
  "SchemaDefinition_Validate d =
     (if list_ex blank [sd_TenantID d, sd_SchemaID d, sd_Name d]
      then Some (Anon ''tenant, schema ID, and name are required'')
      else if sd_Version d < 1 \<or> sd_Revision d < 1
      then Some (Anon ''version and revision must be positive'')
      else if sd_Status d \<noteq> SchemaDraft \<and> sd_Status d \<noteq> SchemaPublished \<and> sd_Status d \<noteq> SchemaDeprecated
      then Some (Anon ''invalid schema status'')
      else if sd_JSONSchema d = [] then Some (Anon ''JSON Schema document is required'')
      else if unset_identity (sd_CreatedBy d) \<or> IsZero (sd_CreatedAt d) \<or> IsZero (sd_UpdatedAt d)
      then Some (Anon ''creator and timestamps are required'')
      else if sd_Status d \<noteq> SchemaDraft
         \<and> (sd_ContentHash d = [] \<or> sd_PublishedBy d = None \<or> sd_PublishedAt d = None)
      then Some (Anon ''non-draft schema requires hash, publisher, and timestamp'')
      else None)"

section \<open>Semantic types\<close>

record URL =
  url_Scheme :: string
  url_Opaque :: string
  url_HasUser :: bool
  url_Host :: string
  url_Path :: string
  url_RawQuery :: string
  url_Fragment :: string

text \<open>\<open>URL.Hostname\<close> and \<open>URL.Port\<close>: the port is what follows the last colon, if it is digits.\<close>

definition last_colon :: "string \<Rightarrow> (string \<times> string) option" where
  "last_colon s =
     (if CHR '':'' \<notin> set s then None
      else Some (rev (drop 1 (dropWhile (\<lambda>c. c \<noteq> CHR '':'') (rev s))), rev (takeWhile (\<lambda>c. c \<noteq> CHR '':'') (rev s))))"

definition splitHostPort :: "string \<Rightarrow> string \<times> string" where
  "splitHostPort hostPort =
     (let (host, port) = (case last_colon hostPort of
            None \<Rightarrow> (hostPort, [])
          | Some (h, p) \<Rightarrow> if list_all is_digit p then (h, p) else (hostPort, []))
      in if HasPrefix host ''['' \<and> HasSuffix host '']'' then (drop 1 (butlast host), port) else (host, port))"

definition JoinHostPort :: "string \<Rightarrow> string \<Rightarrow> string" where
  "JoinHostPort host port =
     (if CHR '':'' \<in> set host then ''['' @ host @ '']:'' @ port else host @ '':'' @ port)"

definition TrimRightSlash :: "string \<Rightarrow> string" where
  "TrimRightSlash s = rev (dropWhile (\<lambda>c. c = CHR ''/'') (rev s))"

definition semanticErr :: "string \<Rightarrow> goerr" where
  "semanticErr detail = Wrap detail (SchemaErr ErrInvalidSemanticType)"

text \<open>The URL of an HTTP identifier in normal form.\<close>

definition normalize_http :: "string \<Rightarrow> URL \<Rightarrow> goerr + URL" where
  "normalize_http raw_value parsed =
     (if url_Host parsed = [] \<or> url_HasUser parsed \<or> url_Opaque parsed \<noteq> [] then Inl (semanticErr raw_value)
      else let originalScheme = url_Scheme parsed;
               (name, port0) = splitHostPort (url_Host parsed);
               lowered = ToLower name;
               hostname = (if lowered = ''www.schema.org'' then ''schema.org'' else lowered)
        in if hostname \<noteq> ''schema.org'' \<and> originalScheme \<noteq> ''https''
           then Inl (semanticErr ''non-Schema.org HTTP identifiers must use HTTPS'')
           else let scheme = (if hostname = ''schema.org'' then ''https'' else originalScheme);
                    port = (if originalScheme = ''https'' \<and> port0 = ''443'' \<or> originalScheme = ''http'' \<and> port0 = ''80''
                            then [] else port0);
                    path = TrimRightSlash (url_Path parsed)
             in if path = [] then Inl (semanticErr ''semantic type path is required'')
                else Inr (parsed\<lparr>url_Scheme := scheme,
                                 url_Host := (if port \<noteq> [] then JoinHostPort hostname port else hostname),
                                 url_Path := path\<rparr>))"

definition normalizeSemanticType :: "(string \<Rightarrow> URL option) \<Rightarrow> (URL \<Rightarrow> string) \<Rightarrow> string \<Rightarrow> goerr + string" where
  "normalizeSemanticType url_parse url_string raw_value =
     (case url_parse (TrimSpace raw_value) of
        None \<Rightarrow> Inl (semanticErr raw_value)
      | Some u \<Rightarrow>
          if url_Scheme u = [] \<or> url_Fragment u \<noteq> [] \<or> url_RawQuery u \<noteq> [] then Inl (semanticErr raw_value)
          else let parsed = u\<lparr>url_Scheme := ToLower (url_Scheme u)\<rparr>
            in if url_Scheme parsed = ''urn''
               then (if url_Opaque parsed = [] \<or> url_Host parsed \<noteq> [] \<or> url_HasUser parsed
                     then Inl (semanticErr raw_value) else Inr (url_string parsed))
               else if url_Scheme parsed = ''http'' \<or> url_Scheme parsed = ''https''
               then (case normalize_http raw_value parsed of Inl e \<Rightarrow> Inl e | Inr normal \<Rightarrow> Inr (url_string normal))
               else Inl (semanticErr (''unsupported scheme '' @ url_Scheme parsed)))"

fun normalize_each :: "(string \<Rightarrow> goerr + string) \<Rightarrow> string list \<Rightarrow> goerr + string list" where
  "normalize_each f [] = Inr []"
| "normalize_each f (v # vs) =
     (case f v of
        Inl e \<Rightarrow> Inl e
      | Inr x \<Rightarrow> (case normalize_each f vs of Inl e \<Rightarrow> Inl e | Inr xs \<Rightarrow> Inr (x # xs)))"

definition NormalizeSemanticTypes ::
  "(string \<Rightarrow> URL option) \<Rightarrow> (URL \<Rightarrow> string) \<Rightarrow> string list \<Rightarrow> goerr + string list" where
  "NormalizeSemanticTypes url_parse url_string values =
     (case normalize_each (normalizeSemanticType url_parse url_string) values of
        Inl e \<Rightarrow> Inl e
      | Inr unique \<Rightarrow> Inr (sort (remdups unique)))"

lemma NormalizeSemanticTypes_sorted:
  "NormalizeSemanticTypes p s vs = Inr ts \<Longrightarrow> sorted ts \<and> distinct ts"
  by (auto simp: NormalizeSemanticTypes_def split: sum.splits)

section \<open>The validator\<close>

definition schemaErr :: "string \<Rightarrow> goerr" where
  "schemaErr detail = Wrap detail (SchemaErr ErrInvalidSchema)"

definition decodeJSON :: "string \<Rightarrow> goerr + json" where
  "decodeJSON raw =
     (if \<not> utf8_valid raw then Inl (Anon ''input is not valid UTF-8'')
      else case parse_json raw of
        None \<Rightarrow> Inl (Anon ''not one JSON value'')
      | Some v \<Rightarrow> if json_depth v > 10000 then Inl (Anon ''exceeded max depth'') else Inr (json_to_any v))"

definition Draft202012URI :: string where
  "Draft202012URI = ''https://json-schema.org/draft/2020-12/schema''"

text \<open>The schema library: what \<open>Compile\<close> makes of a document, and what \<open>Validate\<close> says of one.\<close>

record 'v schema_library =
  lib_compile :: "string \<Rightarrow> json \<Rightarrow> string + 'v"
  lib_validate :: "'v \<Rightarrow> json \<Rightarrow> string option"

definition CompileValidator :: "'v schema_library \<Rightarrow> string \<Rightarrow> string \<Rightarrow> goerr + 'v" where
  "CompileValidator lib schemaID rawSchema =
     (case decodeJSON rawSchema of
        Inl _ \<Rightarrow> Inl (schemaErr ''not a JSON document'')
      | Inr document \<Rightarrow>
          (case document of
             JObject object \<Rightarrow>
               if map_of object ''$schema'' \<noteq> Some (JString Draft202012URI) then Inl (schemaErr ''unsupported $schema'')
               else if schemaID = [] then Inl (schemaErr ''schema ID is required'')
               else (case lib_compile lib schemaID document of
                   Inl m \<Rightarrow> Inl (schemaErr m)
                 | Inr compiled \<Rightarrow> Inr compiled)
           | _ \<Rightarrow> Inl (schemaErr ''root must be an object'')))"

definition ValidateJSON :: "'v schema_library \<Rightarrow> 'v option \<Rightarrow> string \<Rightarrow> goerr option" where
  "ValidateJSON lib validator rawDocument =
     (case validator of
        None \<Rightarrow> Some (Wrap ''validator is not initialized'' (SchemaErr ErrInvalidDocument))
      | Some compiled \<Rightarrow>
          (case decodeJSON rawDocument of
             Inl _ \<Rightarrow> Some (Wrap ''not a JSON document'' (SchemaErr ErrInvalidDocument))
           | Inr document \<Rightarrow>
               (case lib_validate lib compiled document of
                  Some m \<Rightarrow> Some (Wrap m (SchemaErr ErrInvalidDocument))
                | None \<Rightarrow> None)))"

section \<open>The content hash\<close>

definition SchemaContentHash ::
  "(string list \<Rightarrow> goerr + string list) \<Rightarrow> string \<Rightarrow> string list \<Rightarrow> goerr + string" where
  "SchemaContentHash normal rawSchema semanticTypes =
     (case CanonicalizeJSON rawSchema of
        Inl e \<Rightarrow> Inl e
      | Inr canonicalSchema \<Rightarrow>
          (case normal semanticTypes of
             Inl e \<Rightarrow> Inl e
           | Inr normalizedTypes \<Rightarrow>
               (case parse_json canonicalSchema of
                  None \<Rightarrow> Inl (Anon ''decode canonical schema'')
                | Some schemaValue \<Rightarrow>
                    (case writeCanonicalValue (JObject (to_map
                        [(''jsonSchema'', json_to_any schemaValue), (''semanticTypes'', JArray (map JString normalizedTypes))])) of
                       Inl e \<Rightarrow> Inl e
                     | Inr content \<Rightarrow> Inr (sha256_ref content)))))"

text \<open>\<open>bson.MarshalExtJSON\<close> is the argument \<open>ext_json\<close>.\<close>

definition compileBSONSchema ::
  "(string \<Rightarrow> string + string) \<Rightarrow> 'v schema_library \<Rightarrow> string \<Rightarrow> string \<Rightarrow> goerr + 'v" where
  "compileBSONSchema ext_json lib schemaID raw =
     (case ext_json raw of
        Inl m \<Rightarrow> Inl (Wrap ''decode schema document'' (External m))
      | Inr jsonSchema \<Rightarrow> CompileValidator lib schemaID jsonSchema)"

definition schemaContentHash ::
  "(string \<Rightarrow> string + string) \<Rightarrow> (string list \<Rightarrow> goerr + string list) \<Rightarrow> SchemaDefinition \<Rightarrow> goerr + string" where
  "schemaContentHash ext_json normal d =
     (case ext_json (sd_JSONSchema d) of
        Inl m \<Rightarrow> Inl (Wrap ''decode schema document'' (External m))
      | Inr jsonSchema \<Rightarrow> SchemaContentHash normal jsonSchema (sd_SemanticTypes d))"

lemma schemaContentHash_ref: "schemaContentHash ext_json normal d = Inr h \<Longrightarrow> h \<noteq> []"
  by (auto simp: schemaContentHash_def SchemaContentHash_def split: sum.splits option.splits)

end
