(* ===== verification/SchemaRegistry.thy ===== *)
theory SchemaRegistry
  imports Schemas Receipts
begin

text \<open>
  \<open>schema/repository.go\<close> and \<open>schema/service.go\<close>: the registry of schema definitions on
  MongoDB and the service that creates, edits and publishes them. A mutation authorizes the
  caller, checks its input, looks up its receipt and then changes the registry, appends the
  audit entry and saves the receipt in one transaction. \<open>schema_effect\<close> says what a call does;
  the refinement lemma \<open>schema_call_post\<close> shows it for any database that serves the state, and
  the properties follow from it for every sequence of calls.
\<close>

section \<open>The repository\<close>

type_synonym schema_key = "string \<times> string \<times> int"

definition schema_key :: "SchemaDefinition \<Rightarrow> schema_key" where
  "schema_key d = (sd_TenantID d, sd_SchemaID d, sd_Version d)"

text \<open>
  The collection of definitions is reached by the fields of \<open>schema_tenant_id_version_unique\<close>;
  a clash with another unique index is a duplicate key of an insert, and an error that
  \<open>IsDuplicateKeyError\<close> recognises of an update. \<open>db_ListSchemas\<close> runs the query of \<open>List\<close>.
\<close>

record 'w schema_database =
  db_definitions :: "('w, schema_key, SchemaDefinition) collection"
  db_IsDuplicateKeyError :: "string \<Rightarrow> bool"
  db_ListSchemas :: "string \<Rightarrow> int \<Rightarrow> 'w \<Rightarrow> (string + SchemaDefinition list) \<times> 'w"
  db_SchemaNow :: "'w \<Rightarrow> time \<times> 'w"
  db_SchemaTransaction :: "('w, SchemaDefinition) transaction"

definition schema_Create :: "'w schema_database \<Rightarrow> SchemaDefinition \<Rightarrow> ('w, unit) go" where
  "schema_Create db d =
     bindG (checkG (SchemaDefinition_Validate d)) (\<lambda>_.
       InsertNew (db_definitions db) d (SchemaErr ErrSchemaDuplicate) ''insert schema definition'')"

definition schema_Get :: "'w schema_database \<Rightarrow> string \<Rightarrow> string \<Rightarrow> int \<Rightarrow> ('w, SchemaDefinition) go" where
  "schema_Get db tenantID schemaID version =
     bindG (FindG (db_definitions db) (tenantID, schemaID, version) ''find schema definition'') (\<lambda>found.
       case found of None \<Rightarrow> fail (SchemaErr ErrSchemaNotFound) | Some d \<Rightarrow> ret d)"

definition schema_List :: "'w schema_database \<Rightarrow> string \<Rightarrow> int \<Rightarrow> ('w, SchemaDefinition list) go" where
  "schema_List db tenantID limit =
     (if limit < 1 \<or> limit > 100 then fail (Anon ''schema list limit must be between 1 and 100'')
      else (\<lambda>w. case db_ListSchemas db tenantID limit w of
          (Inl m, w') \<Rightarrow> (Inl (Wrap ''list schema definitions'' (External m)), w')
        | (Inr ds, w') \<Rightarrow> (Inr ds, w')))"

text \<open>The filter on the status and the revision, and why an update found no document.\<close>

definition draft_at :: "int \<Rightarrow> SchemaDefinition \<Rightarrow> bool" where
  "draft_at expectedRevision d \<longleftrightarrow> sd_Status d = SchemaDraft \<and> sd_Revision d = expectedRevision"

definition explain_miss :: "'w schema_database \<Rightarrow> schema_key \<Rightarrow> ('w, SchemaDefinition) go" where
  "explain_miss db key = (case key of (tenantID, schemaID, version) \<Rightarrow>
     bindG (schema_Get db tenantID schemaID version) (\<lambda>existing.
       if sd_Status existing \<noteq> SchemaDraft then fail (SchemaErr ErrSchemaImmutable)
       else fail (SchemaErr ErrSchemaRevisionConflict)))"

definition set_draft :: "SchemaDefinition \<Rightarrow> time \<Rightarrow> SchemaDefinition \<Rightarrow> SchemaDefinition" where
  "set_draft d now old = old\<lparr>sd_Name := sd_Name d, sd_JSONSchema := sd_JSONSchema d,
     sd_SemanticTypes := sd_SemanticTypes d, sd_UpdatedAt := now, sd_Revision := sd_Revision old + 1\<rparr>"

definition set_published :: "IdentityKey \<Rightarrow> string \<Rightarrow> time \<Rightarrow> SchemaDefinition \<Rightarrow> SchemaDefinition" where
  "set_published publisher contentHash now old =
     old\<lparr>sd_Status := SchemaPublished, sd_ContentHash := contentHash, sd_PublishedBy := Some publisher,
         sd_PublishedAt := Some now, sd_UpdatedAt := now, sd_Revision := sd_Revision old + 1\<rparr>"

definition schema_UpdateDraft :: "'w schema_database \<Rightarrow> SchemaDefinition \<Rightarrow> int \<Rightarrow> ('w, SchemaDefinition) go" where
  "schema_UpdateDraft db d expectedRevision =
     (if sd_Status d \<noteq> SchemaDraft then fail (SchemaErr ErrSchemaImmutable)
      else bindG (checkG (SchemaDefinition_Validate d)) (\<lambda>_.
        bindG (nowG (db_SchemaNow db)) (\<lambda>now w.
          case c_FindOneAndUpdate (db_definitions db) (schema_key d) (draft_at expectedRevision) (set_draft d now) w of
            (Found d', w') \<Rightarrow> (Inr d', w')
          | (FindError m, w') \<Rightarrow>
              (Inl (if db_IsDuplicateKeyError db m then SchemaErr ErrSchemaDuplicate
                    else Wrap ''update schema draft'' (External m)), w')
          | (NoDocuments, w') \<Rightarrow> explain_miss db (schema_key d) w')))"

definition schema_PublishDefinition ::
  "'w schema_database \<Rightarrow> string \<Rightarrow> string \<Rightarrow> int \<Rightarrow> int \<Rightarrow> IdentityKey \<Rightarrow> string \<Rightarrow> ('w, SchemaDefinition) go" where
  "schema_PublishDefinition db tenantID schemaID version expectedRevision publisher contentHash =
     bindG (nowG (db_SchemaNow db)) (\<lambda>now.
       bindG (FindAndUpdateG (db_definitions db) (tenantID, schemaID, version) (draft_at expectedRevision)
                (set_published publisher contentHash now) ''publish schema definition'') (\<lambda>found.
         case found of
           Some published \<Rightarrow> ret published
         | None \<Rightarrow> explain_miss db (tenantID, schemaID, version)))"

section \<open>The service\<close>

record DraftInput =
  di_TenantID :: string
  di_WorkspaceID :: string
  di_SchemaID :: string
  di_Name :: string
  di_Version :: int
  di_Revision :: int
  di_JSONSchema :: string
  di_SemanticTypes :: "string list"
  di_RequestID :: string
  di_IdempotencyKey :: string

text \<open>
  A service with all its parts; \<open>None\<close> where the service or a part it needs is nil. \<open>ss_marshal\<close>
  is \<open>bson.Marshal\<close> of a definition, \<open>ss_ext_json\<close> is \<open>bson.MarshalExtJSON\<close>.
\<close>

record ('w, 'v) SchemaService =
  ss_db :: "'w schema_database"
  ss_members :: "'w MembershipReader"
  ss_receipts :: "('w, SchemaDefinition) receipts"
  ss_audit :: "'w AuditWriter"
  ss_Now :: "'w \<Rightarrow> time \<times> 'w"
  ss_normalize :: "string list \<Rightarrow> goerr + string list"
  ss_ext_json :: "string \<Rightarrow> string + string"
  ss_library :: "'v schema_library"
  ss_marshal :: "SchemaDefinition \<Rightarrow> string"

definition schema_receipts :: "SchemaDefinition receipt_kind" where
  "schema_receipts =
     \<lparr>rk_NotFound = SchemaErr schema_ErrReceiptNotFound, rk_Conflict = SchemaErr schema_ErrIdempotencyConflict,
      rk_FindLabel = ''find idempotency receipt'', rk_SaveLabel = ''insert idempotency receipt'',
      rk_Check = (\<lambda>_. None), rk_Strict = False\<rparr>"

definition draftHash :: "DraftInput \<Rightarrow> string list \<Rightarrow> string" where
  "draftHash input semanticTypes =
     sha256_ref (JoinWith [CHR 0x00] [di_TenantID input, di_SchemaID input, di_Name input, itoa (di_Version input),
       itoa (di_Revision input), ''DRAFT'', hex_encode (di_JSONSchema input), JoinWith [CHR 0x1F] semanticTypes])"

definition publishHash :: "DraftInput \<Rightarrow> int \<Rightarrow> string" where
  "publishHash input expectedRevision =
     sha256_ref (JoinWith [CHR 0x00] [''publish'', di_TenantID input, di_SchemaID input, itoa (di_Version input),
       itoa expectedRevision])"

definition hashDefinition :: "(SchemaDefinition \<Rightarrow> string) \<Rightarrow> SchemaDefinition \<Rightarrow> string" where
  "hashDefinition marshal_bson d = sha256_ref (marshal_bson d)"

definition draft_definition :: "Principal \<Rightarrow> DraftInput \<Rightarrow> string list \<Rightarrow> time \<Rightarrow> SchemaDefinition" where
  "draft_definition prin input semanticTypes now =
     \<lparr>sd_TenantID = di_TenantID input, sd_SchemaID = di_SchemaID input, sd_Name = di_Name input,
      sd_Version = di_Version input, sd_Revision = 1, sd_Status = SchemaDraft, sd_JSONSchema = di_JSONSchema input,
      sd_SemanticTypes = semanticTypes, sd_ContentHash = [], sd_CreatedBy = identityKey prin, sd_PublishedBy = None,
      sd_CreatedAt = now, sd_UpdatedAt = now, sd_PublishedAt = None\<rparr>"

definition schema_entry :: "Principal \<Rightarrow> DraftInput \<Rightarrow> string \<Rightarrow> int \<Rightarrow> string \<Rightarrow> string \<Rightarrow> time \<Rightarrow> AuditEntry" where
  "schema_entry prin input action version beforeHash afterHash now =
     empty_AuditEntry\<lparr>ae_TenantID := di_TenantID input, ae_WorkspaceID := di_WorkspaceID input, ae_Action := action,
       ae_Actor := identityKey prin, ae_ResourceType := ''SchemaDefinition'', ae_ResourceID := di_SchemaID input,
       ae_ResourceVersion := version, ae_RequestID := di_RequestID input, ae_IdempotencyKey := di_IdempotencyKey input,
       ae_BeforeHash := beforeHash, ae_AfterHash := afterHash, ae_CreatedAt := now\<rparr>"

definition schema_scope :: "DraftInput \<Rightarrow> string \<Rightarrow> receipt_scope" where
  "schema_scope input operation = (di_TenantID input, di_WorkspaceID input, operation, di_IdempotencyKey input)"

definition schema_authorize :: "('w, 'v) SchemaService option \<Rightarrow> Principal \<Rightarrow> DraftInput \<Rightarrow> ('w, unit) go" where
  "schema_authorize service prin input =
     (case service of
        None \<Rightarrow> fail (IdentityErr ErrForbidden)
      | Some s \<Rightarrow> bindG (Authorize (Some (ss_members s)) prin (di_TenantID input) (di_WorkspaceID input) ActionSchemaManage)
                   (\<lambda>_. ret ()))"

definition schema_receipt ::
  "('w, 'v) SchemaService \<Rightarrow> DraftInput \<Rightarrow> string \<Rightarrow> string \<Rightarrow> ('w, SchemaDefinition option) go" where
  "schema_receipt s input operation requestHash =
     find_receipt (receipt_Find schema_receipts (ss_receipts s)) (SchemaErr schema_ErrReceiptNotFound)
       (SchemaErr schema_ErrIdempotencyConflict) (schema_scope input operation) requestHash"

definition schema_complete ::
  "('w, 'v) SchemaService \<Rightarrow> AuditEntry \<Rightarrow> SchemaDefinition Receipt \<Rightarrow> ('w, SchemaDefinition) go" where
  "schema_complete s entry receipt =
     complete_with (ss_audit s) (receipt_Save schema_receipts (ss_receipts s)) ''append schema audit''
       ''save schema receipt'' entry receipt"

definition require_key :: "DraftInput \<Rightarrow> ('w, unit) go" where
  "require_key input =
     (if di_IdempotencyKey input = [] then fail (SchemaErr schema_ErrIdempotencyKeyRequired) else ret ())"

definition CreateDraft :: "('w, 'v) SchemaService \<Rightarrow> Principal \<Rightarrow> DraftInput \<Rightarrow> ('w, SchemaDefinition) go" where
  "CreateDraft s prin given =
     bindG (schema_authorize (Some s) prin given) (\<lambda>_.
     bindG (require_key given) (\<lambda>_.
     (let input = given\<lparr>di_Revision := 1\<rparr> in
     bindG (pureG (ss_normalize s (di_SemanticTypes input))) (\<lambda>types.
     bindG (pureG (compileBSONSchema (ss_ext_json s) (ss_library s) (di_SchemaID input) (di_JSONSchema input))) (\<lambda>_.
     (let requestHash = draftHash input types in
     bindG (schema_receipt s input ''schema.create'' requestHash) (\<lambda>found. case found of Some d \<Rightarrow> ret d | None \<Rightarrow>
     bindG (nowG (ss_Now s)) (\<lambda>now.
       db_SchemaTransaction (ss_db s)
         (bindG (bindG (schema_Create (ss_db s) (draft_definition prin input types now))
                   (\<lambda>_. ret (draft_definition prin input types now))) (\<lambda>d.
           schema_complete s (schema_entry prin input ''schema.create'' (sd_Version d) [] requestHash now)
             (receipt_for (schema_scope input ''schema.create'') requestHash d)))))))))))"

definition UpdateDraft :: "('w, 'v) SchemaService \<Rightarrow> Principal \<Rightarrow> DraftInput \<Rightarrow> int \<Rightarrow> ('w, SchemaDefinition) go" where
  "UpdateDraft s prin given expectedRevision =
     bindG (schema_authorize (Some s) prin given) (\<lambda>_.
     bindG (require_key given) (\<lambda>_.
     bindG (pureG (ss_normalize s (di_SemanticTypes given))) (\<lambda>types.
     bindG (pureG (compileBSONSchema (ss_ext_json s) (ss_library s) (di_SchemaID given) (di_JSONSchema given))) (\<lambda>_.
     (let input = given\<lparr>di_Revision := expectedRevision\<rparr>; requestHash = draftHash input types in
     bindG (schema_receipt s input ''schema.update'' requestHash) (\<lambda>found. case found of Some d \<Rightarrow> ret d | None \<Rightarrow>
     bindG (schema_Get (ss_db s) (di_TenantID input) (di_SchemaID input) (di_Version input)) (\<lambda>existing.
     bindG (nowG (ss_Now s)) (\<lambda>now.
       db_SchemaTransaction (ss_db s)
         (bindG (schema_UpdateDraft (ss_db s)
                  (existing\<lparr>sd_Name := di_Name input, sd_JSONSchema := di_JSONSchema input, sd_SemanticTypes := types\<rparr>)
                  expectedRevision) (\<lambda>d.
           schema_complete s
             (schema_entry prin input ''schema.update'' (sd_Version d) (hashDefinition (ss_marshal s) existing) requestHash now)
             (receipt_for (schema_scope input ''schema.update'') requestHash d)))))))))))"

definition Publish :: "('w, 'v) SchemaService \<Rightarrow> Principal \<Rightarrow> DraftInput \<Rightarrow> int \<Rightarrow> ('w, SchemaDefinition) go" where
  "Publish s prin input expectedRevision =
     bindG (schema_authorize (Some s) prin input) (\<lambda>_.
     bindG (require_key input) (\<lambda>_.
     (let requestHash = publishHash input expectedRevision in
     bindG (schema_receipt s input ''schema.publish'' requestHash) (\<lambda>found. case found of Some d \<Rightarrow> ret d | None \<Rightarrow>
     bindG (schema_Get (ss_db s) (di_TenantID input) (di_SchemaID input) (di_Version input)) (\<lambda>existing.
     (if sd_Status existing \<noteq> SchemaDraft then fail (SchemaErr ErrSchemaImmutable) else
     bindG (pureG (compileBSONSchema (ss_ext_json s) (ss_library s) (sd_SchemaID existing) (sd_JSONSchema existing))) (\<lambda>_.
     bindG (pureG (schemaContentHash (ss_ext_json s) (ss_normalize s) existing)) (\<lambda>contentHash.
     bindG (nowG (ss_Now s)) (\<lambda>now.
       db_SchemaTransaction (ss_db s)
         (bindG (schema_PublishDefinition (ss_db s) (di_TenantID input) (di_SchemaID input) (di_Version input)
                  expectedRevision (identityKey prin) contentHash) (\<lambda>d.
           schema_complete s
             (schema_entry prin input ''schema.publish'' (sd_Version d) (hashDefinition (ss_marshal s) existing) contentHash now)
             (receipt_for (schema_scope input ''schema.publish'') requestHash d))))))))))))"

definition GetDefinition ::
  "('w, 'v) SchemaService option \<Rightarrow> Principal \<Rightarrow> string \<Rightarrow> string \<Rightarrow> string \<Rightarrow> int \<Rightarrow> ('w, SchemaDefinition) go" where
  "GetDefinition service prin tenantID workspaceID schemaID version =
     (case service of
        None \<Rightarrow> fail (IdentityErr ErrForbidden)
      | Some s \<Rightarrow>
          if tenantID = [] \<or> workspaceID = [] \<or> schemaID = [] \<or> version < 1 then fail (SchemaErr ErrSchemaNotFound)
          else bindG (Authorize (Some (ss_members s)) prin tenantID workspaceID ActionSchemaRead) (\<lambda>_.
            schema_Get (ss_db s) tenantID schemaID version))"

definition ListDefinitions ::
  "('w, 'v) SchemaService option \<Rightarrow> Principal \<Rightarrow> string \<Rightarrow> string \<Rightarrow> int \<Rightarrow> ('w, SchemaDefinition list) go" where
  "ListDefinitions service prin tenantID workspaceID limit =
     (case service of
        None \<Rightarrow> fail (IdentityErr ErrForbidden)
      | Some s \<Rightarrow>
          if tenantID = [] \<or> workspaceID = [] \<or> limit < 1 \<or> limit > 100 then fail (SchemaErr ErrSchemaNotFound)
          else bindG (Authorize (Some (ss_members s)) prin tenantID workspaceID ActionSchemaRead) (\<lambda>_.
            schema_List (ss_db s) tenantID limit))"

section \<open>What the calls do\<close>

datatype schema_call =
    CreateCall Principal DraftInput
  | UpdateCall Principal DraftInput int
  | PublishCall Principal DraftInput int

fun schema_exec :: "('w, 'v) SchemaService \<Rightarrow> schema_call \<Rightarrow> ('w, SchemaDefinition) go" where
  "schema_exec s (CreateCall prin input) = CreateDraft s prin input"
| "schema_exec s (UpdateCall prin input expectedRevision) = UpdateDraft s prin input expectedRevision"
| "schema_exec s (PublishCall prin input expectedRevision) = Publish s prin input expectedRevision"

definition schema_run :: "('w, 'v) SchemaService \<Rightarrow> schema_call list \<Rightarrow> 'w \<Rightarrow> 'w" where
  "schema_run s calls w = fold (\<lambda>call w. snd (schema_exec s call w)) calls w"

text \<open>The state the calls work on: definitions by their key, receipts and audit log.\<close>

record SchemaDB = "SchemaDefinition ReceiptDB" +
  x_definitions :: "schema_key \<rightharpoonup> SchemaDefinition"

definition put_definitions :: "(schema_key \<rightharpoonup> SchemaDefinition) \<Rightarrow> SchemaDB \<Rightarrow> SchemaDB" where
  "put_definitions m v = v\<lparr>x_definitions := m\<rparr>"

lemma put_definitions_simps [simp]:
  "x_definitions (put_definitions m v) = m" "x_receipts (put_definitions m v) = x_receipts v"
  "x_audit (put_definitions m v) = x_audit v" "x_definitions (recorded e r v) = x_definitions v"
  by (simp_all add: put_definitions_def recorded_def)

lemma part_definitions: "part x_definitions put_definitions"
  by (simp add: part_def put_definitions_def)

definition definition_put :: "SchemaDefinition \<Rightarrow> SchemaDB \<Rightarrow> SchemaDB" where
  "definition_put d v = put_definitions ((x_definitions v)(schema_key d \<mapsto> d)) v"

lemma definition_put_simps [simp]:
  "x_definitions (definition_put d v) = (x_definitions v)(schema_key d \<mapsto> d)"
  "x_receipts (definition_put d v) = x_receipts v" "x_audit (definition_put d v) = x_audit v"
  by (simp_all add: definition_put_def)

definition keyed :: "SchemaDB \<Rightarrow> bool" where
  "keyed v \<longleftrightarrow> (\<forall>k d. x_definitions v k = Some d \<longrightarrow> schema_key d = k)"

definition schema_serves :: "('w, 'v) SchemaService \<Rightarrow> WorkspaceMembership set \<Rightarrow> ('w \<Rightarrow> SchemaDB) \<Rightarrow> bool" where
  "schema_serves s M view \<longleftrightarrow>
     realises (db_definitions (ss_db s)) schema_key x_definitions put_definitions view
     \<and> realises (ss_receipts s) receipt_key x_receipts put_receipts view
     \<and> audit_adds (ss_audit s) view \<and> transaction_laws (db_SchemaTransaction (ss_db s))
     \<and> reads_members (ss_members s) M view
     \<and> (\<forall>w. view (snd (db_SchemaNow (ss_db s) w)) = view w) \<and> (\<forall>w. view (snd (ss_Now s w)) = view w)"

text \<open>The operation and the scope of the receipt of a call, and its request hash.\<close>

fun schema_call_scope :: "schema_call \<Rightarrow> receipt_scope" where
  "schema_call_scope (CreateCall prin input) = schema_scope input ''schema.create''"
| "schema_call_scope (UpdateCall prin input expectedRevision) = schema_scope input ''schema.update''"
| "schema_call_scope (PublishCall prin input expectedRevision) = schema_scope input ''schema.publish''"

definition call_types :: "('w, 'v) SchemaService \<Rightarrow> DraftInput \<Rightarrow> string list" where
  "call_types s input = (case ss_normalize s (di_SemanticTypes input) of Inr types \<Rightarrow> types | Inl _ \<Rightarrow> [])"

fun schema_call_hash :: "('w, 'v) SchemaService \<Rightarrow> schema_call \<Rightarrow> string" where
  "schema_call_hash s (CreateCall prin input) = draftHash (input\<lparr>di_Revision := 1\<rparr>) (call_types s input)"
| "schema_call_hash s (UpdateCall prin input expectedRevision) =
     draftHash (input\<lparr>di_Revision := expectedRevision\<rparr>) (call_types s input)"
| "schema_call_hash s (PublishCall prin input expectedRevision) = publishHash input expectedRevision"

definition edited :: "DraftInput \<Rightarrow> string list \<Rightarrow> SchemaDefinition \<Rightarrow> SchemaDefinition" where
  "edited input types old =
     old\<lparr>sd_Name := di_Name input, sd_JSONSchema := di_JSONSchema input, sd_SemanticTypes := types\<rparr>"

fun schema_effect ::
  "('w, 'v) SchemaService \<Rightarrow> WorkspaceMembership set \<Rightarrow> schema_call \<Rightarrow> SchemaDB \<Rightarrow> SchemaDefinition \<Rightarrow> SchemaDB
     \<Rightarrow> AuditEntry \<Rightarrow> bool" where
  "schema_effect s M (CreateCall prin input) v d v' entry \<longleftrightarrow>
     granted M prin (di_TenantID input) (di_WorkspaceID input) ActionSchemaManage
     \<and> (\<exists>now. d = draft_definition prin (input\<lparr>di_Revision := 1\<rparr>) (call_types s input) now
          \<and> SchemaDefinition_Validate d = None \<and> x_definitions v (schema_key d) = None \<and> v' = definition_put d v
          \<and> entry = schema_entry prin input ''schema.create'' (sd_Version d) []
                      (schema_call_hash s (CreateCall prin input)) now)"
| "schema_effect s M (UpdateCall prin input expectedRevision) v d v' entry \<longleftrightarrow>
     granted M prin (di_TenantID input) (di_WorkspaceID input) ActionSchemaManage
     \<and> (\<exists>old now stamp. x_definitions v (di_TenantID input, di_SchemaID input, di_Version input) = Some old
          \<and> draft_at expectedRevision old \<and> d = set_draft (edited input (call_types s input) old) stamp old
          \<and> SchemaDefinition_Validate (edited input (call_types s input) old) = None \<and> v' = definition_put d v
          \<and> entry = schema_entry prin input ''schema.update'' (sd_Version d) (hashDefinition (ss_marshal s) old)
                      (schema_call_hash s (UpdateCall prin input expectedRevision)) now)"
| "schema_effect s M (PublishCall prin input expectedRevision) v d v' entry \<longleftrightarrow>
     granted M prin (di_TenantID input) (di_WorkspaceID input) ActionSchemaManage
     \<and> (\<exists>old now stamp contentHash.
          x_definitions v (di_TenantID input, di_SchemaID input, di_Version input) = Some old
          \<and> draft_at expectedRevision old \<and> schemaContentHash (ss_ext_json s) (ss_normalize s) old = Inr contentHash
          \<and> d = set_published (identityKey prin) contentHash stamp old \<and> v' = definition_put d v
          \<and> entry = schema_entry prin input ''schema.publish'' (sd_Version d) (hashDefinition (ss_marshal s) old)
                      contentHash now)"

section \<open>The proof that they do it\<close>

lemma explain_miss_fails [simp]: "explain_miss db k w = (Inr d, w') \<longleftrightarrow> False"
  by (cases k) (auto simp: explain_miss_def go_success)

lemma schema_servesD:
  assumes "schema_serves s M view"
  shows "realises (db_definitions (ss_db s)) schema_key x_definitions put_definitions view"
    and "receipt_store (receipt_Find schema_receipts (ss_receipts s)) (receipt_Save schema_receipts (ss_receipts s))
           (ss_audit s) (SchemaErr schema_ErrReceiptNotFound) view"
    and "transaction_laws (db_SchemaTransaction (ss_db s))" "reads_members (ss_members s) M view"
    and "keeps view (nowG (db_SchemaNow (ss_db s)))" "keeps view (nowG (ss_Now s))"
proof -
  have "rk_NotFound schema_receipts = SchemaErr schema_ErrReceiptNotFound" by (simp add: schema_receipts_def)
  with assms mongo_receipt_store [of "ss_receipts s" view "ss_audit s" schema_receipts]
  show "receipt_store (receipt_Find schema_receipts (ss_receipts s)) (receipt_Save schema_receipts (ss_receipts s))
         (ss_audit s) (SchemaErr schema_ErrReceiptNotFound) view" by (simp add: schema_serves_def)
qed (use assms in \<open>auto simp: schema_serves_def intro: keeps_nowG\<close>)

lemma schema_Get_keeps:
  "schema_serves s M view \<Longrightarrow> keeps view (schema_Get (ss_db s) t i n)"
  unfolding schema_Get_def by (intro keeping) (rule schema_servesD(1))

lemma schema_Get_Inr:
  "schema_serves s M view \<Longrightarrow> schema_Get (ss_db s) t i n w = (Inr d, w') \<Longrightarrow> x_definitions (view w) (t, i, n) = Some d"
  by (auto simp: schema_Get_def go_success dest: FindG_Inr [OF schema_servesD(1)] split: option.splits)

lemma schema_Create_Inr:
  assumes "schema_serves s M view" "schema_Create (ss_db s) d w = (Inr u, w')"
  shows "SchemaDefinition_Validate d = None \<and> x_definitions (view w) (schema_key d) = None \<and> view w' = definition_put d (view w)"
  using assms(2) InsertNew_Inr [OF schema_servesD(1) [OF assms(1)], of d]
  by (auto simp: schema_Create_def go_success definition_put_def)

lemma schema_UpdateDraft_Inr:
  assumes s: "schema_serves s M view" and run: "schema_UpdateDraft (ss_db s) d expected w = (Inr u, w')"
  shows "SchemaDefinition_Validate d = None \<and> (\<exists>old now. x_definitions (view w) (schema_key d) = Some old
    \<and> draft_at expected old \<and> u = set_draft d now old \<and> view w' = put_definitions ((x_definitions (view w))(schema_key d \<mapsto> u)) (view w))"
proof -
  from run obtain now w1 where v: "SchemaDefinition_Validate d = None" and c: "nowG (db_SchemaNow (ss_db s)) w = (Inr now, w1)"
    and upd: "(case c_FindOneAndUpdate (db_definitions (ss_db s)) (schema_key d) (draft_at expected) (set_draft d now) w1 of
            (Found d', w') \<Rightarrow> (Inr d', w')
          | (FindError m, w') \<Rightarrow> (Inl (if db_IsDuplicateKeyError (ss_db s) m then SchemaErr ErrSchemaDuplicate
                    else Wrap ''update schema draft'' (External m)), w')
          | (NoDocuments, w') \<Rightarrow> explain_miss (ss_db s) (schema_key d) w') = (Inr u, w')"
    by (auto simp: schema_UpdateDraft_def go_success)
  obtain r w2 where i: "c_FindOneAndUpdate (db_definitions (ss_db s)) (schema_key d) (draft_at expected) (set_draft d now) w1 = (r, w2)"
    by force
  have "FindAndUpdateG (db_definitions (ss_db s)) (schema_key d) (draft_at expected) (set_draft d now) l w1 = (Inr (Some u), w')" for l
    using upd i by (cases r) (auto simp: FindAndUpdateG_def)
  from FindAndUpdateG_Inr [OF schema_servesD(1) [OF s] this] keepsD [OF schema_servesD(5) [OF s] c] v show ?thesis by auto
qed

lemma schema_Publish_Inr:
  assumes s: "schema_serves s M view" and run: "schema_PublishDefinition (ss_db s) t i n expected p h w = (Inr u, w')"
  shows "\<exists>old now. x_definitions (view w) (t, i, n) = Some old \<and> draft_at expected old \<and> u = set_published p h now old
    \<and> view w' = put_definitions ((x_definitions (view w))((t, i, n) \<mapsto> u)) (view w)"
proof -
  from run obtain now w1 where c: "nowG (db_SchemaNow (ss_db s)) w = (Inr now, w1)"
    and f: "FindAndUpdateG (db_definitions (ss_db s)) (t, i, n) (draft_at expected) (set_published p h now) ''publish schema definition'' w1
      = (Inr (Some u), w')"
    by (auto simp: schema_PublishDefinition_def go_success split: option.splits)
  from FindAndUpdateG_Inr [OF schema_servesD(1) [OF s] f] keepsD [OF schema_servesD(5) [OF s] c] show ?thesis by auto
qed

lemma schema_authorize_keeps: "schema_serves s M view \<Longrightarrow> keeps view (schema_authorize (Some s) prin input)"
  unfolding schema_authorize_def option.case by (intro keeping Authorize_keeps schema_servesD(4))

lemma schema_authorize_granted:
  "schema_serves s M view \<Longrightarrow> schema_authorize (Some s) prin input w = (Inr u, w') \<Longrightarrow>
     granted M prin (di_TenantID input) (di_WorkspaceID input) ActionSchemaManage"
  by (auto simp: schema_authorize_def go_success dest!: Authorize_granted [OF schema_servesD(4)])

lemma require_key_keeps: "keeps view (require_key input)"
  unfolding require_key_def by (intro keeping)

text \<open>The three calls, from a state whose definitions are stored under their keys.\<close>

lemma CreateDraft_post:
  assumes s: "schema_serves s M view"
  shows "post view (receipted (schema_call_scope (CreateCall prin input)) (schema_call_hash s (CreateCall prin input))
    (schema_effect s M (CreateCall prin input))) (CreateDraft s prin input) w"
  unfolding CreateDraft_def Let_def
proof (intro post_read [OF schema_authorize_keeps [OF s]] post_read [OF require_key_keeps] post_pure)
  fix u w1 u' w2 types compiled
  assume auth: "schema_authorize (Some s) prin input w = (Inr u, w1)" and v1: "view w1 = view w"
    and "require_key input w1 = (Inr u', w2)" and v2: "view w2 = view w1"
    and types: "ss_normalize s (di_SemanticTypes (input\<lparr>di_Revision := 1\<rparr>)) = Inr types"
  have ct: "call_types s input = types" using types by (simp add: call_types_def)
  let ?i = "input\<lparr>di_Revision := 1\<rparr>" and ?k = "schema_call_scope (CreateCall prin input)" and ?h = "schema_call_hash s (CreateCall prin input)"
  have k: "schema_scope ?i ''schema.create'' = ?k" by (simp add: schema_scope_def)
  have h: "draftHash ?i types = ?h" by (simp add: ct)
  have e: "schema_entry prin ?i = schema_entry prin input" by (intro ext) (simp add: schema_entry_def)
  show "post view (receipted ?k ?h (schema_effect s M (CreateCall prin input)))
    (bindG (schema_receipt s ?i ''schema.create'' (draftHash ?i types)) (\<lambda>found. case found of Some d \<Rightarrow> ret d | None \<Rightarrow>
     bindG (nowG (ss_Now s)) (\<lambda>now.
       db_SchemaTransaction (ss_db s)
         (bindG (bindG (schema_Create (ss_db s) (draft_definition prin ?i types now))
                   (\<lambda>_. ret (draft_definition prin ?i types now))) (\<lambda>d.
           schema_complete s (schema_entry prin ?i ''schema.create'' (sd_Version d) [] (draftHash ?i types) now)
             (receipt_for (schema_scope ?i ''schema.create'') (draftHash ?i types) d)))))) w2"
    unfolding schema_receipt_def schema_complete_def h k e
  proof (intro receipt_store.post_receipt [OF schema_servesD(2) [OF s]] post_read [OF schema_servesD(6) [OF s]]
      receipt_store.post_completed [OF schema_servesD(2) [OF s] schema_servesD(3) [OF s]])
    fix w3 w4 now d w5
    assume new: "x_receipts (view w2) ?k = None" and v: "view w3 = view w2" "view w4 = view w3"
    show "x_receipts (view w4) ?k = None" using new v by simp
    assume "bindG (schema_Create (ss_db s) (draft_definition prin ?i types now)) (\<lambda>_. ret (draft_definition prin ?i types now)) w4 = (Inr d, w5)"
    then show "schema_effect s M (CreateCall prin input) (view w4) d (view w5) (schema_entry prin input ''schema.create'' (sd_Version d) [] ?h now)
      \<and> x_receipts (view w5) = x_receipts (view w4) \<and> x_audit (view w5) = x_audit (view w4)"
      using schema_authorize_granted [OF s auth] ct by (auto simp: go_success dest!: schema_Create_Inr [OF s])
  qed
qed

lemma keyedD: "keyed v \<Longrightarrow> x_definitions v k = Some d \<Longrightarrow> schema_key d = k"
  unfolding keyed_def by blast

lemma key_kept [simp]:
  "schema_key (set_draft d now old) = schema_key old" "schema_key (set_published p h now old) = schema_key old"
  "schema_key (edited input types old) = schema_key old"
  by (simp_all add: schema_key_def set_draft_def set_published_def edited_def)

lemma definition_put_at:
  "schema_key d = k \<Longrightarrow> put_definitions ((x_definitions v)(k \<mapsto> d)) v = definition_put d v"
  by (simp add: definition_put_def)

lemma UpdateDraft_post:
  assumes s: "schema_serves s M view" and w: "keyed (view w)"
  shows "post view (receipted (schema_call_scope (UpdateCall prin input n)) (schema_call_hash s (UpdateCall prin input n))
    (schema_effect s M (UpdateCall prin input n))) (UpdateDraft s prin input n) w"
  unfolding UpdateDraft_def Let_def
proof (intro post_read [OF schema_authorize_keeps [OF s]] post_read [OF require_key_keeps] post_pure)
  fix u w1 u' w2 types compiled
  assume auth: "schema_authorize (Some s) prin input w = (Inr u, w1)" and v1: "view w1 = view w"
    and "require_key input w1 = (Inr u', w2)" and v2: "view w2 = view w1"
    and types: "ss_normalize s (di_SemanticTypes input) = Inr types"
  have ct: "types = call_types s input" using types by (simp add: call_types_def)
  let ?i = "input\<lparr>di_Revision := n\<rparr>" and ?k = "schema_call_scope (UpdateCall prin input n)"
    and ?h = "schema_call_hash s (UpdateCall prin input n)" and ?old = "edited input types"
  have k: "schema_scope ?i ''schema.update'' = ?k" by (simp add: schema_scope_def)
  have h: "draftHash ?i types = ?h" by (simp add: ct)
  have e: "schema_entry prin ?i = schema_entry prin input" by (intro ext) (simp add: schema_entry_def)
  have ed: "d\<lparr>sd_Name := di_Name ?i, sd_JSONSchema := di_JSONSchema ?i, sd_SemanticTypes := types\<rparr> = ?old d" for d
    by (simp add: edited_def)
  show "post view (receipted ?k ?h (schema_effect s M (UpdateCall prin input n)))
    (bindG (schema_receipt s ?i ''schema.update'' (draftHash ?i types)) (\<lambda>found. case found of Some d \<Rightarrow> ret d | None \<Rightarrow>
     bindG (schema_Get (ss_db s) (di_TenantID ?i) (di_SchemaID ?i) (di_Version ?i)) (\<lambda>existing.
     bindG (nowG (ss_Now s)) (\<lambda>now.
       db_SchemaTransaction (ss_db s)
         (bindG (schema_UpdateDraft (ss_db s)
                  (existing\<lparr>sd_Name := di_Name ?i, sd_JSONSchema := di_JSONSchema ?i, sd_SemanticTypes := types\<rparr>) n) (\<lambda>d.
           schema_complete s
             (schema_entry prin ?i ''schema.update'' (sd_Version d) (hashDefinition (ss_marshal s) existing) (draftHash ?i types) now)
             (receipt_for (schema_scope ?i ''schema.update'') (draftHash ?i types) d))))))) w2"
    unfolding schema_receipt_def schema_complete_def h k e ed
  proof (intro receipt_store.post_receipt [OF schema_servesD(2) [OF s]] post_read [OF schema_Get_keeps [OF s]]
      post_read [OF schema_servesD(6) [OF s]] receipt_store.post_completed [OF schema_servesD(2) [OF s] schema_servesD(3) [OF s]])
    fix w3 existing w4 w5 now d w6
    assume new: "x_receipts (view w2) ?k = None" and v: "view w3 = view w2" "view w4 = view w3" "view w5 = view w4"
      and get: "schema_Get (ss_db s) (di_TenantID ?i) (di_SchemaID ?i) (di_Version ?i) w3 = (Inr existing, w4)"
    show "x_receipts (view w5) ?k = None" using new v by simp
    assume upd: "schema_UpdateDraft (ss_db s) (?old existing) n w5 = (Inr d, w6)"
    have old: "x_definitions (view w5) (di_TenantID input, di_SchemaID input, di_Version input) = Some existing"
      using schema_Get_Inr [OF s get] v by simp
    moreover have "keyed (view w5)" using w v v1 v2 by simp
    ultimately have key: "schema_key existing = (di_TenantID input, di_SchemaID input, di_Version input)" by (rule keyedD [rotated])
    from schema_UpdateDraft_Inr [OF s upd] old obtain stamp where "SchemaDefinition_Validate (?old existing) = None"
      "draft_at n existing" "d = set_draft (?old existing) stamp existing" "view w6 = definition_put d (view w5)"
      by (auto simp: key definition_put_at simp del: fun_upd_apply)
    then show "schema_effect s M (UpdateCall prin input n) (view w5) d (view w6)
        (schema_entry prin input ''schema.update'' (sd_Version d) (hashDefinition (ss_marshal s) existing) ?h now)
      \<and> x_receipts (view w6) = x_receipts (view w5) \<and> x_audit (view w6) = x_audit (view w5)"
      using schema_authorize_granted [OF s auth] old ct by auto
  qed
qed

lemma Publish_post:
  assumes s: "schema_serves s M view" and w: "keyed (view w)"
  shows "post view (receipted (schema_call_scope (PublishCall prin input n)) (schema_call_hash s (PublishCall prin input n))
    (schema_effect s M (PublishCall prin input n))) (Publish s prin input n) w"
  unfolding Publish_def Let_def
proof (intro post_read [OF schema_authorize_keeps [OF s]] post_read [OF require_key_keeps])
  fix u w1 u' w2
  assume auth: "schema_authorize (Some s) prin input w = (Inr u, w1)" and v1: "view w1 = view w"
    and "require_key input w1 = (Inr u', w2)" and v2: "view w2 = view w1"
  let ?k = "schema_call_scope (PublishCall prin input n)" and ?h = "schema_call_hash s (PublishCall prin input n)"
  have k: "schema_scope input ''schema.publish'' = ?k" and h: "publishHash input n = ?h" by simp_all
  show "post view (receipted ?k ?h (schema_effect s M (PublishCall prin input n)))
    (bindG (schema_receipt s input ''schema.publish'' (publishHash input n)) (\<lambda>found. case found of Some d \<Rightarrow> ret d | None \<Rightarrow>
     bindG (schema_Get (ss_db s) (di_TenantID input) (di_SchemaID input) (di_Version input)) (\<lambda>existing.
     (if sd_Status existing \<noteq> SchemaDraft then fail (SchemaErr ErrSchemaImmutable) else
     bindG (pureG (compileBSONSchema (ss_ext_json s) (ss_library s) (sd_SchemaID existing) (sd_JSONSchema existing))) (\<lambda>_.
     bindG (pureG (schemaContentHash (ss_ext_json s) (ss_normalize s) existing)) (\<lambda>contentHash.
     bindG (nowG (ss_Now s)) (\<lambda>now.
       db_SchemaTransaction (ss_db s)
         (bindG (schema_PublishDefinition (ss_db s) (di_TenantID input) (di_SchemaID input) (di_Version input)
                  n (identityKey prin) contentHash) (\<lambda>d.
           schema_complete s
             (schema_entry prin input ''schema.publish'' (sd_Version d) (hashDefinition (ss_marshal s) existing) contentHash now)
             (receipt_for (schema_scope input ''schema.publish'') (publishHash input n) d)))))))))) w2"
    unfolding schema_receipt_def schema_complete_def h k
  proof (intro receipt_store.post_receipt [OF schema_servesD(2) [OF s]] post_read [OF schema_Get_keeps [OF s]] post_if post_fail
      post_pure post_read [OF schema_servesD(6) [OF s]] receipt_store.post_completed [OF schema_servesD(2) [OF s] schema_servesD(3) [OF s]])
    fix w3 existing w4 contentHash now w5 d w6
    assume new: "x_receipts (view w2) ?k = None" and v: "view w3 = view w2" "view w4 = view w3" "view w5 = view w4"
      and get: "schema_Get (ss_db s) (di_TenantID input) (di_SchemaID input) (di_Version input) w3 = (Inr existing, w4)"
      and hash: "schemaContentHash (ss_ext_json s) (ss_normalize s) existing = Inr contentHash"
    show "x_receipts (view w5) ?k = None" using new v by simp
    assume pub: "schema_PublishDefinition (ss_db s) (di_TenantID input) (di_SchemaID input) (di_Version input)
      n (identityKey prin) contentHash w5 = (Inr d, w6)"
    have old: "x_definitions (view w5) (di_TenantID input, di_SchemaID input, di_Version input) = Some existing"
      using schema_Get_Inr [OF s get] v by simp
    moreover have "keyed (view w5)" using w v v1 v2 by simp
    ultimately have key: "schema_key existing = (di_TenantID input, di_SchemaID input, di_Version input)" by (rule keyedD [rotated])
    from schema_Publish_Inr [OF s pub] old obtain stamp where
      "draft_at n existing" "d = set_published (identityKey prin) contentHash stamp existing" "view w6 = definition_put d (view w5)"
      by (auto simp: key [symmetric] definition_put_at simp del: fun_upd_apply)
    then show "schema_effect s M (PublishCall prin input n) (view w5) d (view w6)
        (schema_entry prin input ''schema.publish'' (sd_Version d) (hashDefinition (ss_marshal s) existing) contentHash now)
      \<and> x_receipts (view w6) = x_receipts (view w5) \<and> x_audit (view w6) = x_audit (view w5)"
      using schema_authorize_granted [OF s auth] old hash by auto
  qed
qed

lemma schema_exec_post:
  assumes "schema_serves s M view" "keyed (view w)"
  shows "post view (receipted (schema_call_scope call) (schema_call_hash s call) (schema_effect s M call)) (schema_exec s call) w"
  using assms CreateDraft_post UpdateDraft_post Publish_post by (cases call) (simp_all only: schema_exec.simps)

section \<open>Every sequence of calls\<close>

text \<open>
  A definition that is not a draft stays as it is, a draft that changes gets a higher revision,
  and receipts and audit entries are kept.
\<close>

definition definition_grows :: "SchemaDefinition \<Rightarrow> SchemaDefinition \<Rightarrow> bool" where
  "definition_grows d d' \<longleftrightarrow>
     d' = d \<or> (sd_Status d = SchemaDraft \<and> sd_Revision d < sd_Revision d' \<and> schema_key d' = schema_key d
               \<and> sd_CreatedBy d' = sd_CreatedBy d \<and> sd_CreatedAt d' = sd_CreatedAt d)"

definition schema_grows :: "SchemaDB \<Rightarrow> SchemaDB \<Rightarrow> bool" where
  "schema_grows v v' \<longleftrightarrow>
     (\<forall>k d. x_definitions v k = Some d \<longrightarrow> (\<exists>d'. x_definitions v' k = Some d' \<and> definition_grows d d'))
     \<and> x_receipts v \<subseteq>\<^sub>m x_receipts v' \<and> (\<exists>entries. x_audit v' = x_audit v @ entries)"

text \<open>What is not a draft has the hash of its content.\<close>

definition hashed_content :: "('w, 'v) SchemaService \<Rightarrow> SchemaDB \<Rightarrow> bool" where
  "hashed_content s v \<longleftrightarrow> (\<forall>k d. x_definitions v k = Some d \<longrightarrow> sd_Status d \<noteq> SchemaDraft \<longrightarrow>
     schemaContentHash (ss_ext_json s) (ss_normalize s) d = Inr (sd_ContentHash d))"

lemma definition_grows_fields:
  "definition_grows d d' \<Longrightarrow> sd_CreatedBy d' = sd_CreatedBy d \<and> sd_CreatedAt d' = sd_CreatedAt d
     \<and> (sd_Status d \<noteq> SchemaDraft \<longrightarrow> d' = d) \<and> (d' = d \<or> sd_Revision d < sd_Revision d')"
  by (auto simp: definition_grows_def)

lemma definition_grows_trans: "definition_grows a b \<Longrightarrow> definition_grows b c \<Longrightarrow> definition_grows a c"
  by (auto simp: definition_grows_def)

lemma schema_grows_refl: "schema_grows v v"
  by (simp add: schema_grows_def definition_grows_def)

lemma schema_grows_trans: "schema_grows a b \<Longrightarrow> schema_grows b c \<Longrightarrow> schema_grows a c"
  unfolding schema_grows_def using definition_grows_trans map_le_trans by (smt (verit) append_assoc)

lemma contentHash_published [simp]:
  "schemaContentHash e f (set_published p h now d) = schemaContentHash e f d"
  by (cases "e (sd_JSONSchema d)") (simp_all add: schemaContentHash_def set_published_def)

lemma set_draft_fields [simp]:
  "sd_Status (set_draft d now old) = sd_Status old" "sd_Revision (set_draft d now old) = sd_Revision old + 1"
  "sd_CreatedBy (set_draft d now old) = sd_CreatedBy old" "sd_CreatedAt (set_draft d now old) = sd_CreatedAt old"
  by (simp_all add: set_draft_def)

lemma set_published_fields [simp]:
  "sd_Status (set_published p h now old) = SchemaPublished" "sd_Revision (set_published p h now old) = sd_Revision old + 1"
  "sd_CreatedBy (set_published p h now old) = sd_CreatedBy old" "sd_CreatedAt (set_published p h now old) = sd_CreatedAt old"
  "sd_ContentHash (set_published p h now old) = h"
  by (simp_all add: set_published_def)

lemma draft_definition_fields [simp]:
  "sd_Status (draft_definition p i ts now) = SchemaDraft" "sd_Revision (draft_definition p i ts now) = 1"
  by (simp_all add: draft_definition_def)

text \<open>What an effect does to the definitions: one is new, or one that was a draft is replaced.\<close>

lemma schema_effect_put:
  assumes "schema_effect s M call v d v1 entry" "keyed v"
  shows "v1 = definition_put d v
    \<and> (case x_definitions v (schema_key d) of None \<Rightarrow> True | Some old \<Rightarrow> d \<noteq> old \<and> definition_grows old d)
    \<and> (sd_Status d \<noteq> SchemaDraft \<longrightarrow> schemaContentHash (ss_ext_json s) (ss_normalize s) d = Inr (sd_ContentHash d))
    \<and> granted M (case call of CreateCall p i \<Rightarrow> p | UpdateCall p i n \<Rightarrow> p | PublishCall p i n \<Rightarrow> p)
        (fst (schema_call_scope call)) (fst (snd (schema_call_scope call))) ActionSchemaManage"
proof (cases call)
  case (UpdateCall p i n)
  with assms obtain old stamp where o: "x_definitions v (di_TenantID i, di_SchemaID i, di_Version i) = Some old"
    and "draft_at n old" "d = set_draft (edited i (call_types s i) old) stamp old" by auto
  with UpdateCall assms keyedD [OF assms(2) o] show ?thesis
    by (auto simp: definition_grows_def draft_at_def schema_scope_def dest: arg_cong [where f = sd_Revision])
next
  case (PublishCall p i n)
  with assms obtain old stamp h where o: "x_definitions v (di_TenantID i, di_SchemaID i, di_Version i) = Some old"
    and "draft_at n old" "d = set_published (identityKey p) h stamp old"
    and "schemaContentHash (ss_ext_json s) (ss_normalize s) old = Inr h" by auto
  with PublishCall assms keyedD [OF assms(2) o] show ?thesis
    by (auto simp: definition_grows_def draft_at_def schema_scope_def dest: arg_cong [where f = sd_Revision])
qed (use assms in \<open>auto simp: schema_scope_def\<close>)

lemma receipted_grows:
  assumes "receipted k h (schema_effect s M call) v d v'" "keyed v"
  shows "keyed v' \<and> schema_grows v v' \<and> (hashed_content s v \<longrightarrow> hashed_content s v')"
proof (cases "x_receipts v k")
  case None
  with assms(1) obtain v1 entry where e: "schema_effect s M call v d v1 entry"
    and v': "v' = recorded entry (receipt_for k h d) v1" by (auto simp: receipted_def)
  from schema_effect_put [OF e assms(2)] v' None assms(2) show ?thesis
    by (auto simp: keyed_def schema_grows_def hashed_content_def map_le_def definition_grows_def split: option.splits)
next
  case (Some x)
  with receipted_again [OF assms(1)] assms(2) schema_grows_refl show ?thesis by auto
qed

lemma schema_exec_grows:
  assumes s: "schema_serves s M view" and w: "keyed (view w)"
  shows "keyed (view (snd (schema_exec s call w))) \<and> schema_grows (view w) (view (snd (schema_exec s call w)))
    \<and> (hashed_content s (view w) \<longrightarrow> hashed_content s (view (snd (schema_exec s call w))))"
proof -
  obtain r w' where run: "schema_exec s call w = (r, w')" by force
  from postD [OF schema_exec_post [OF s w] run] have "view w' = view w
      \<or> (\<exists>d. receipted (schema_call_scope call) (schema_call_hash s call) (schema_effect s M call) (view w) d (view w'))"
    by (cases r) auto
  with receipted_grows w schema_grows_refl run show ?thesis by fastforce
qed

lemma schema_run_grows:
  assumes s: "schema_serves s M view" and w: "keyed (view w)"
  shows "keyed (view (schema_run s calls w)) \<and> schema_grows (view w) (view (schema_run s calls w))
    \<and> (hashed_content s (view w) \<longrightarrow> hashed_content s (view (schema_run s calls w)))"
  using w
proof (induction calls arbitrary: w)
  case Nil
  then show ?case by (simp add: schema_run_def schema_grows_refl)
next
  case (Cons call calls)
  have r: "schema_run s (call # calls) w = schema_run s calls (snd (schema_exec s call w))" by (simp add: schema_run_def)
  from schema_exec_grows [OF s Cons.prems] Cons.IH show ?case unfolding r using schema_grows_trans by blast
qed

text \<open>
  C11: Whatever calls are made on the schema registry, in any order, by anyone and with any
  failures of the database: a definition that is published or deprecated never changes, one
  that changes is a draft and gets a higher revision, keeping its key, creator and creation
  time, none is lost, and everything published has the hash of its content; receipts and audit
  entries are only ever added.
\<close>

theorem schema_immutable:
  assumes "schema_serves s M view" "keyed (view w)" "hashed_content s (view w)" "w' = schema_run s calls w"
  shows "(\<forall>k d. x_definitions (view w) k = Some d \<longrightarrow>
      (\<exists>d'. x_definitions (view w') k = Some d' \<and> sd_CreatedBy d' = sd_CreatedBy d \<and> sd_CreatedAt d' = sd_CreatedAt d
         \<and> (sd_Status d \<noteq> SchemaDraft \<longrightarrow> d' = d) \<and> (d' = d \<or> sd_Revision d < sd_Revision d')))
    \<and> (\<forall>k d. x_definitions (view w') k = Some d \<longrightarrow> schema_key d = k
      \<and> (sd_Status d \<noteq> SchemaDraft \<longrightarrow> schemaContentHash (ss_ext_json s) (ss_normalize s) d = Inr (sd_ContentHash d)))
    \<and> x_receipts (view w) \<subseteq>\<^sub>m x_receipts (view w') \<and> (\<exists>entries. x_audit (view w') = x_audit (view w) @ entries)"
proof -
  note g = schema_run_grows [OF assms(1,2), of calls, folded assms(4)]
  show ?thesis
    using g assms(3) definition_grows_fields unfolding keyed_def hashed_content_def schema_grows_def by (intro conjI) blast+
qed

text \<open>
  C12: After a schema call succeeded, the same call made again after any other calls either
  reports an error or answers the same definition, and in both cases changes nothing; the
  first time it had been answered from a receipt, or a member that may manage schemas had
  changed one definition, recorded together with its audit entry and its receipt.
\<close>

theorem schema_replay:
  assumes "schema_serves s M view" "keyed (view w)"
    and "schema_exec s call w = (Inr d, w1)" "w2 = schema_run s calls w1" "schema_exec s call w2 = (r, w3)"
  shows "view w3 = view w2 \<and> (\<forall>d'. r = Inr d' \<longrightarrow> d' = d)
    \<and> (view w1 = view w \<or> (\<exists>entry. schema_effect s M call (view w) d (definition_put d (view w)) entry
         \<and> view w1 = recorded entry (receipt_for (schema_call_scope call) (schema_call_hash s call) d) (definition_put d (view w))))"
proof -
  let ?k = "schema_call_scope call" and ?h = "schema_call_hash s call" and ?E = "schema_effect s M call"
  from postD [OF schema_exec_post [OF assms(1,2)] assms(3)] have first: "receipted ?k ?h ?E (view w) d (view w1)" by simp
  from schema_exec_grows [OF assms(1,2), of call] assms(3) have k1: "keyed (view w1)" by simp
  note g = schema_run_grows [OF assms(1) k1, of calls, folded assms(4)]
  from receipted_receipts [OF first] g obtain x where x: "x_receipts (view w2) ?k = Some x" "rcp_Result x = d"
    unfolding schema_grows_def map_le_def by (metis domI)
  from postD [OF schema_exec_post [OF assms(1) conjunct1 [OF g]] assms(5)] receipted_again [OF _ x(1)] x(2)
  have "view w3 = view w2 \<and> (\<forall>d'. r = Inr d' \<longrightarrow> d' = d)" by (cases r) fastforce+
  moreover have "view w1 = view w \<or> (\<exists>entry. ?E (view w) d (definition_put d (view w)) entry
      \<and> view w1 = recorded entry (receipt_for ?k ?h d) (definition_put d (view w)))"
  proof (cases "x_receipts (view w) ?k")
    case None
    with first obtain v1 entry where e: "?E (view w) d v1 entry" and "view w1 = recorded entry (receipt_for ?k ?h d) v1"
      by (auto simp: receipted_def)
    with schema_effect_put [OF e assms(2)] show ?thesis by metis
  next
    case (Some x')
    with receipted_again [OF first] show ?thesis by simp
  qed
  ultimately show ?thesis by blast
qed

section \<open>A database in memory\<close>

definition memory_schemas :: "SchemaDB schema_database" where
  "memory_schemas =
     \<lparr>db_definitions = memory_collection schema_key x_definitions put_definitions, db_IsDuplicateKeyError = (\<lambda>_. False),
      db_ListSchemas = (\<lambda>_ _ v. (Inr [], v)), db_SchemaNow = (\<lambda>v. (7, v)), db_SchemaTransaction = memory_transaction\<rparr>"

definition sample_schema_service :: "(SchemaDB, unit) SchemaService" where
  "sample_schema_service =
     \<lparr>ss_db = memory_schemas, ss_members = (\<lambda>_ _ _. ret sample_membership),
      ss_receipts = memory_collection receipt_key x_receipts put_receipts, ss_audit = memory_audit_writer,
      ss_Now = (\<lambda>v. (5, v)), ss_normalize = (\<lambda>ts. Inr (sort (remdups ts))), ss_ext_json = Inr,
      ss_library = \<lparr>lib_compile = (\<lambda>_ _. Inr ()), lib_validate = (\<lambda>_ _. None)\<rparr>, ss_marshal = (\<lambda>_. [])\<rparr>"

text \<open>The receipt store on the database, as the interface of the services has it.\<close>

interpretation schema_store: receipt_store "receipt_Find schema_receipts memory_receipts"
  "receipt_Save schema_receipts memory_receipts" memory_audit_writer "rk_NotFound schema_receipts" "\<lambda>v. v"
  by (rule mongo_receipt_store [OF realises_memory [OF part_receipts] memory_audit_adds]) (simp add: schema_receipts_def)

definition sample_draft :: DraftInput where
  "sample_draft = \<lparr>di_TenantID = ''t'', di_WorkspaceID = ''w'', di_SchemaID = ''s'', di_Name = ''n'', di_Version = 1,
     di_Revision = 0, di_JSONSchema = [CHR ''{'', CHR 0x22] @ ''$schema'' @ [CHR 0x22, CHR '':'', CHR 0x22] @ Draft202012URI
       @ [CHR 0x22, CHR ''}''], di_SemanticTypes = [], di_RequestID = [], di_IdempotencyKey = ''k''\<rparr>"

definition no_schemas :: SchemaDB where
  "no_schemas = \<lparr>x_receipts = Map.empty, x_audit = [], x_definitions = Map.empty\<rparr>"

lemma sample_schema_serves: "schema_serves sample_schema_service {sample_membership} (\<lambda>v. v)"
  by (simp add: schema_serves_def sample_schema_service_def memory_schemas_def realises_memory part_definitions
      part_receipts memory_audit_adds memory_transaction_laws reads_members_def ret_def)

lemma no_schemas_keyed: "keyed no_schemas" "hashed_content s no_schemas"
  by (simp_all add: keyed_def hashed_content_def no_schemas_def)

lemma sample_schema_compiles:
  "compileBSONSchema Inr \<lparr>lib_compile = (\<lambda>_ _. Inr ()), lib_validate = (\<lambda>_ _. None)\<rparr> ''s'' (di_JSONSchema sample_draft) = Inr ()"
  by code_simp

lemma sample_schema_created:
  "\<exists>d w. schema_exec sample_schema_service (CreateCall sample_owner sample_draft) no_schemas = (Inr d, w)"
proof -
  let ?d = "draft_definition sample_owner (sample_draft\<lparr>di_Revision := 1\<rparr>) [] 5"
  have v: "SchemaDefinition_Validate ?d = None"
    by (simp add: SchemaDefinition_Validate_def draft_definition_def sample_draft_def sample_owner_def identityKey_def
        unset_identity_def IsZero_def trim_simps)
  have c: "compileBSONSchema (ss_ext_json sample_schema_service) (ss_library sample_schema_service)
      (di_SchemaID (sample_draft\<lparr>di_Revision := 1\<rparr>)) (di_JSONSchema (sample_draft\<lparr>di_Revision := 1\<rparr>)) = Inr ()"
    using sample_schema_compiles by (simp add: sample_schema_service_def sample_draft_def)
  note parts = sample_schema_service_def memory_schemas_def
  have a: "schema_authorize (Some sample_schema_service) sample_owner sample_draft v = (Inr (), v)" for v
    by (simp add: schema_authorize_def sample_schema_service_def sample_draft_def sample_authorized go_simps)
  have k: "require_key sample_draft v = (Inr (), v)" for v :: SchemaDB
    by (simp add: require_key_def sample_draft_def go_simps)
  have r: "schema_receipt sample_schema_service i op h no_schemas = (Inr None, no_schemas)" for i op h
    unfolding schema_receipt_def by (simp add: sample_schema_service_def memory_find_receipt schema_receipts_def no_schemas_def)
  have e: "complete_entry (schema_entry sample_owner (sample_draft\<lparr>di_Revision := 1\<rparr>) ''schema.create'' n b h 5)" for n b h
    by (simp add: complete_entry_def schema_entry_def sample_owner_def identityKey_def sample_draft_def IsZero_def)
  have m: "schema_Create (ss_db sample_schema_service) ?d no_schemas = (Inr (), definition_put ?d no_schemas)"
    by (simp add: schema_Create_def v go_simps InsertNew_def parts memory_collection_def no_schemas_def definition_put_def del: fun_upd_apply)
  have f: "x_receipts (definition_put ?d no_schemas) k = None" for k by (simp add: no_schemas_def)
  have n: "ss_normalize sample_schema_service (di_SemanticTypes (sample_draft\<lparr>di_Revision := 1\<rparr>)) = Inr []"
    "nowG (ss_Now sample_schema_service) w = (Inr 5, w)" for w
    by (simp_all add: sample_schema_service_def sample_draft_def nowG_def)
  have t: "db_SchemaTransaction (ss_db sample_schema_service) = memory_transaction" by (simp add: parts)
  have fin: "schema_complete sample_schema_service (schema_entry sample_owner (sample_draft\<lparr>di_Revision := 1\<rparr>) ''schema.create'' n b h 5)
      (receipt_for k h' ?d) (definition_put ?d no_schemas)
     = (Inr ?d, recorded (schema_entry sample_owner (sample_draft\<lparr>di_Revision := 1\<rparr>) ''schema.create'' n b h 5)
          (receipt_for k h' ?d) (definition_put ?d no_schemas))" for n b h k h'
    using memory_complete [OF e, of schema_receipts "receipt_for k h' ?d" "definition_put ?d no_schemas"]
    by (simp add: schema_complete_def sample_schema_service_def schema_receipts_def no_schemas_def)
  show ?thesis
    unfolding schema_exec.simps CreateDraft_def Let_def
    by (simp add: bindG_run a k c [simplified] n(2) n(1) [simplified] r t memory_transaction_def m fin pureG_run ret_run)
qed

theorem schema_immutable_witness:
  "\<exists>w. schema_run sample_schema_service [CreateCall sample_owner sample_draft, PublishCall sample_owner sample_draft 1] no_schemas = w
     \<and> keyed w \<and> hashed_content sample_schema_service w"
proof -
  note t = schema_immutable [OF sample_schema_serves no_schemas_keyed refl,
      of "[CreateCall sample_owner sample_draft, PublishCall sample_owner sample_draft 1]"]
  then show ?thesis unfolding keyed_def hashed_content_def by blast
qed

theorem schema_replay_witness:
  "\<exists>d w r w'. schema_exec sample_schema_service (CreateCall sample_owner sample_draft) no_schemas = (Inr d, w)
     \<and> schema_exec sample_schema_service (CreateCall sample_owner sample_draft)
         (schema_run sample_schema_service [PublishCall sample_owner sample_draft 1] w) = (r, w') \<and> (\<forall>d'. r = Inr d' \<longrightarrow> d' = d)"
proof -
  obtain d w where c: "schema_exec sample_schema_service (CreateCall sample_owner sample_draft) no_schemas = (Inr d, w)"
    using sample_schema_created by blast
  obtain r w' where "schema_exec sample_schema_service (CreateCall sample_owner sample_draft)
      (schema_run sample_schema_service [PublishCall sample_owner sample_draft 1] w) = (r, w')" by force
  with schema_replay [OF sample_schema_serves no_schemas_keyed(1) c refl this] c show ?thesis by blast
qed

end
