(* ===== verification/RecordInput.thy ===== *)
theory RecordInput
  imports Schemas Tags Views GoMap
begin

text \<open>
  The checks of \<open>records/service.go\<close> that read nothing from the database: tags, relations,
  the data of a record against its published schema, the fields of views and indexes, the
  dictionary in force for a table, and the request hash. BSON is a parameter (\<open>ext_json\<close>).
\<close>

section \<open>Tags and relations\<close>

fun unique_tags :: "string set \<Rightarrow> string list \<Rightarrow> goerr + string list" where
  "unique_tags seen [] = Inr []"
| "unique_tags seen (raw # tags) =
     (let tag = TrimSpace raw
      in if tag = [] then Inl (Anon ''record tags cannot be empty'')
         else if length tag > 64 then Inl (Anon ''record tags cannot exceed 64 characters'')
         else if tag \<in> seen then unique_tags seen tags
         else (case unique_tags (insert tag seen) tags of Inl e \<Rightarrow> Inl e | Inr rest \<Rightarrow> Inr (tag # rest)))"

definition normalizeTags :: "string list \<Rightarrow> goerr + string list" where
  "normalizeTags tags =
     (case unique_tags {} tags of
        Inl e \<Rightarrow> Inl e
      | Inr result \<Rightarrow>
          if length result > 64 then Inl (Anon ''record cannot have more than 64 tags'') else Inr (sort result))"

definition relationKey :: "RecordRelation \<Rightarrow> string" where
  "relationKey r = JoinWith [CHR 0x00] [rt_System (rl_Target r), rt_Type (rl_Target r), rt_ID (rl_Target r), rl_RelationType r]"

definition trim_relation :: "RecordRelation \<Rightarrow> RecordRelation" where
  "trim_relation r =
     (let status = (if rl_Status r = RelationUnset then RelationCurrent else rl_Status r)
      in \<lparr>rl_Target = \<lparr>rt_System = TrimSpace (rt_System (rl_Target r)), rt_Type = TrimSpace (rt_Type (rl_Target r)),
                     rt_ID = TrimSpace (rt_ID (rl_Target r))\<rparr>,
          rl_RelationType = TrimSpace (rl_RelationType r),
          rl_ResolvedRecordID = (if status = RelationForbidden then [] else TrimSpace (rl_ResolvedRecordID r)),
          rl_Status = status\<rparr>)"

fun unique_relations :: "string set \<Rightarrow> RecordRelation list \<Rightarrow> goerr + RecordRelation list" where
  "unique_relations seen [] = Inr []"
| "unique_relations seen (raw # relations) =
     (let r = trim_relation raw
      in case RecordRelation_Validate r of
           Some e \<Rightarrow> Inl e
         | None \<Rightarrow>
             if relationKey r \<in> seen then unique_relations seen relations
             else (case unique_relations (insert (relationKey r) seen) relations of
                 Inl e \<Rightarrow> Inl e | Inr rest \<Rightarrow> Inr (r # rest)))"

definition normalizeRelations :: "RecordRelation list \<Rightarrow> goerr + RecordRelation list" where
  "normalizeRelations relations =
     (case unique_relations {} relations of
        Inl e \<Rightarrow> Inl e
      | Inr result \<Rightarrow>
          if length result > 64 then Inl (Anon ''record cannot have more than 64 relations'')
          else Inr (sort_key relationKey result))"

section \<open>The dictionary in force\<close>

text \<open>
  A dictionary of the tenant, of its workspace or of its table; the more specific ones override
  the others entry by entry. \<open>sort.Slice\<close> leaves the order of equally specific dictionaries
  open; here it is the order of the query.
\<close>

definition tagDictionarySpecificity :: "TagDictionary \<Rightarrow> nat" where
  "tagDictionarySpecificity d = (if td_TableID d \<noteq> [] then 2 else if td_WorkspaceID d \<noteq> [] then 1 else 0)"

definition applies_to :: "string \<Rightarrow> string \<Rightarrow> TagDictionary \<Rightarrow> bool" where
  "applies_to workspaceID tableID d \<longleftrightarrow>
     \<not> (td_WorkspaceID d \<noteq> [] \<and> td_WorkspaceID d \<noteq> workspaceID) \<and> \<not> (td_TableID d \<noteq> [] \<and> td_TableID d \<noteq> tableID)"

definition in_force :: "string \<Rightarrow> string \<Rightarrow> TagDictionary list \<Rightarrow> TagDictionary list" where
  "in_force workspaceID tableID ds = filter (applies_to workspaceID tableID) (sort_key tagDictionarySpecificity ds)"

fun collect_entries :: "ControlledTag list \<Rightarrow> (string \<times> ControlledTag) list \<Rightarrow> goerr + (string \<times> ControlledTag) list" where
  "collect_entries [] byID = Inr byID"
| "collect_entries (entry # entries) byID =
     (case ControlledTag_Normalize entry of
        Inl e \<Rightarrow> Inl e
      | Inr t \<Rightarrow> collect_entries entries (map_set (ct_ID t) t byID))"

definition resolve_dictionaries :: "string \<Rightarrow> string \<Rightarrow> string \<Rightarrow> TagDictionary list \<Rightarrow> goerr + TagDictionary" where
  "resolve_dictionaries tenantID workspaceID tableID dictionaries =
     (let ds = in_force workspaceID tableID dictionaries
      in case collect_entries (concat (map td_Entries ds)) [] of
           Inl e \<Rightarrow> Inl e
         | Inr byID \<Rightarrow>
             if ds = [] then Inl (RecordsErr ErrTagDictionaryNotFound)
             else Inr \<lparr>td_TenantID = tenantID, td_WorkspaceID = workspaceID, td_TableID = tableID,
                       td_Revision = fold max (map td_Revision ds) 1, td_Entries = map snd byID\<rparr>)"

section \<open>Data and hashes\<close>

definition mustExtJSON :: "(string \<Rightarrow> string + string) \<Rightarrow> string \<Rightarrow> string" where
  "mustExtJSON ext_json raw = (case ext_json raw of Inl _ \<Rightarrow> [] | Inr s \<Rightarrow> s)"

definition validateRecordData ::
  "(string \<Rightarrow> string + string) \<Rightarrow> 'v schema_library \<Rightarrow> SchemaDefinition \<Rightarrow> string \<Rightarrow> goerr option" where
  "validateRecordData ext_json lib d data =
     (case ext_json data of
        Inl m \<Rightarrow> Some (Wrap ''record data must be an object'' (External m))
      | Inr jsonData \<Rightarrow>
          (case CanonicalizeJSON jsonData of
             Inl e \<Rightarrow> Some e
           | Inr _ \<Rightarrow>
               (case CompileValidator lib (sd_SchemaID d) (mustExtJSON ext_json (sd_JSONSchema d)) of
                  Inl e \<Rightarrow> Some e
                | Inr validator \<Rightarrow> ValidateJSON lib (Some validator) jsonData)))"

fun relation_status_string :: "RelationStatus \<Rightarrow> string" where
  "relation_status_string RelationUnset = []"
| "relation_status_string RelationCurrent = ''CURRENT''"
| "relation_status_string RelationBroken = ''BROKEN''"
| "relation_status_string RelationForbidden = ''FORBIDDEN''"
| "relation_status_string (OtherRelationStatus s) = s"

definition relation_json :: "RecordRelation \<Rightarrow> json" where
  "relation_json r =
     JObject ([(''target'', JObject [(''system'', JString (rt_System (rl_Target r))), (''type'', JString (rt_Type (rl_Target r))),
                 (''id'', JString (rt_ID (rl_Target r)))]), (''relationType'', JString (rl_RelationType r))]
       @ (if rl_ResolvedRecordID r = [] then [] else [(''resolvedRecordId'', JString (rl_ResolvedRecordID r))])
       @ [(''status'', JString (relation_status_string (rl_Status r)))])"

record RecordInput =
  ri_TenantID :: string
  ri_WorkspaceID :: string
  ri_TableID :: string
  ri_ID :: string
  ri_Data :: string
  ri_Tags :: "string list"
  ri_Relations :: "RecordRelation list option"
  ri_RequestID :: string
  ri_IdempotencyKey :: string

text \<open>A nil slice of relations is \<open>None\<close> and marshals to \<open>null\<close>.\<close>

definition recordRequestHash ::
  "(string \<Rightarrow> string + string) \<Rightarrow> string \<Rightarrow> RecordInput \<Rightarrow> int \<Rightarrow> string list \<Rightarrow> goerr + string" where
  "recordRequestHash ext_json operation input expectedVersion tags =
     (case (if ri_Data input = [] then Inr ''null'' else ext_json (ri_Data input)) of
        Inl m \<Rightarrow> Inl (External m)
      | Inr data \<Rightarrow>
          (case CanonicalizeJSON data of
             Inl e \<Rightarrow> Inl e
           | Inr canonical \<Rightarrow>
               (let relations = (case ri_Relations input of None \<Rightarrow> ''null'' | Some rs \<Rightarrow> marshal (JArray (map relation_json rs)))
                in Inr (sha256_ref (JoinWith [CHR 0x00] [operation, ri_TenantID input, ri_WorkspaceID input, ri_TableID input,
                     ri_ID input, itoa expectedVersion, hex_encode canonical, JoinWith [CHR 0x1F] tags, hex_encode relations])))))"

section \<open>Fields of views and indexes\<close>

definition schema_properties :: "(string \<Rightarrow> string + string) \<Rightarrow> SchemaDefinition \<Rightarrow> (string \<times> json) list option" where
  "schema_properties ext_json d =
     (case parse_json (mustExtJSON ext_json (sd_JSONSchema d)) of
        Some (JObject kvs) \<Rightarrow>
          (case json_to_any (JObject kvs) of
             JObject document \<Rightarrow>
               (case map_of document ''properties'' of Some (JObject ps) \<Rightarrow> if ps = [] then None else Some ps | _ \<Rightarrow> None)
           | _ \<Rightarrow> None)
      | _ \<Rightarrow> None)"

definition envelope_fields :: "string list" where
  "envelope_fields = [''id'', ''recordVersion'', ''schemaVersion'', ''createdAt'', ''updatedAt'', ''tags'']"

definition assertViewFieldAllowed :: "string \<Rightarrow> string list \<Rightarrow> goerr option" where
  "assertViewFieldAllowed raw allowed =
     (let field = TrimSpace raw
      in if field \<in> set allowed \<or> TrimPrefix field ''data.'' \<in> set allowed then None
         else Some (Anon ''field is not allowed by the published schema''))"

fun assert_fields :: "string \<Rightarrow> string list \<Rightarrow> string list \<Rightarrow> goerr option" where
  "assert_fields label allowed [] = None"
| "assert_fields label allowed (f # fs) =
     (case assertViewFieldAllowed f allowed of Some e \<Rightarrow> Some (Wrap label e) | None \<Rightarrow> assert_fields label allowed fs)"

definition validateViewSchemaFields ::
  "(string \<Rightarrow> string + string) \<Rightarrow> string list \<Rightarrow> ViewFilter list \<Rightarrow> ViewSort list \<Rightarrow> SchemaDefinition \<Rightarrow> goerr option" where
  "validateViewSchemaFields ext_json columns filters sorts d =
     (let allowed = envelope_fields @ (case schema_properties ext_json d of None \<Rightarrow> [] | Some ps \<Rightarrow> map fst ps)
      in case assert_fields ''view column'' allowed columns of
           Some e \<Rightarrow> Some e
         | None \<Rightarrow> (case assert_fields ''view filter'' allowed (map vf_Field filters) of
               Some e \<Rightarrow> Some e
             | None \<Rightarrow> assert_fields ''view sort'' allowed (map vs_Field sorts)))"

definition fieldErr :: "string \<Rightarrow> goerr" where
  "fieldErr detail = Wrap detail (RecordsErr ErrIndexFieldNotAllowed)"

definition validateIndexSchemaField :: "(string \<Rightarrow> string + string) \<Rightarrow> string \<Rightarrow> SchemaDefinition \<Rightarrow> goerr option" where
  "validateIndexSchemaField ext_json raw d =
     (let field = normalizeIndexField raw
      in if isIndexEnvelopeField field then Some (fieldErr ''record envelope field'')
         else (case parse_json (mustExtJSON ext_json (sd_JSONSchema d)) of
             Some (JObject _) \<Rightarrow>
               (case schema_properties ext_json d of
                  None \<Rightarrow> Some (fieldErr ''schema has no top-level properties'')
                | Some ps \<Rightarrow> if map_of ps field = None then Some (fieldErr ''absent from the published schema'') else None)
           | Some JNull \<Rightarrow> Some (fieldErr ''schema has no top-level properties'')
           | _ \<Rightarrow> Some (fieldErr ''published schema is invalid'')))"

section \<open>Lemmas\<close>

lemma unique_tags_Inr:
  "unique_tags seen tags = Inr ts \<Longrightarrow>
     distinct ts \<and> set ts \<inter> seen = {} \<and> (\<forall>t \<in> set ts. t \<noteq> [] \<and> TrimSpace t = t \<and> length t \<le> 64)"
proof (induction tags arbitrary: seen ts)
  case (Cons raw tags)
  let ?t = "TrimSpace raw"
  have t: "?t \<noteq> []" "length ?t \<le> 64" using Cons.prems by (auto simp: Let_def split: if_splits)
  show ?case
  proof (cases "?t \<in> seen")
    case True
    with Cons.prems t Cons.IH [of seen ts] show ?thesis by simp
  next
    case False
    with Cons.prems t obtain rest where r: "unique_tags (insert ?t seen) tags = Inr rest" "ts = ?t # rest"
      by (auto simp: Let_def split: sum.splits)
    with Cons.IH [OF r(1)] t False show ?thesis by simp
  qed
qed simp

lemma unique_tags_again:
  "distinct ts \<Longrightarrow> set ts \<inter> seen = {} \<Longrightarrow> \<forall>t \<in> set ts. t \<noteq> [] \<and> TrimSpace t = t \<and> length t \<le> 64 \<Longrightarrow> unique_tags seen ts = Inr ts"
  by (induction ts arbitrary: seen) auto

lemma normalizeTags_Inr:
  assumes "normalizeTags tags = Inr ts"
  shows "sorted ts \<and> distinct ts \<and> length ts \<le> 64 \<and> (\<forall>t \<in> set ts. t \<noteq> [] \<and> TrimSpace t = t \<and> length t \<le> 64)
    \<and> normalizeTags ts = Inr ts"
proof -
  from assms obtain us where u: "unique_tags {} tags = Inr us" "length us \<le> 64" "ts = sort us"
    by (auto simp: normalizeTags_def split: sum.splits if_splits)
  from unique_tags_Inr [OF u(1)] u(2,3) unique_tags_again [of ts "{}"] show ?thesis
    by (auto simp: normalizeTags_def sort_key_id_if_sorted)
qed

lemma trim_relation_idem: "trim_relation (trim_relation r) = trim_relation r"
  by (auto simp: trim_relation_def Let_def)

lemma unique_relations_Inr:
  "unique_relations seen rs = Inr ts \<Longrightarrow>
     distinct (map relationKey ts) \<and> relationKey ` set ts \<inter> seen = {}
     \<and> (\<forall>t \<in> set ts. trim_relation t = t \<and> RecordRelation_Validate t = None)"
proof (induction rs arbitrary: seen ts)
  case (Cons raw rs)
  let ?r = "trim_relation raw"
  have v: "RecordRelation_Validate ?r = None" using Cons.prems by (auto simp: Let_def split: option.splits)
  show ?case
  proof (cases "relationKey ?r \<in> seen")
    case True
    with Cons.prems v Cons.IH [of seen ts] show ?thesis by simp
  next
    case False
    with Cons.prems v obtain rest where r: "unique_relations (insert (relationKey ?r) seen) rs = Inr rest" "ts = ?r # rest"
      by (auto simp: Let_def split: sum.splits)
    with Cons.IH [OF r(1)] v False show ?thesis by (auto simp: trim_relation_idem)
  qed
qed simp

lemma normalizeRelations_Inr:
  assumes "normalizeRelations rs = Inr ts"
  shows "sorted (map relationKey ts) \<and> distinct (map relationKey ts) \<and> length ts \<le> 64
    \<and> (\<forall>t \<in> set ts. trim_relation t = t \<and> RecordRelation_Validate t = None)"
proof -
  from assms obtain us where u: "unique_relations {} rs = Inr us" "length us \<le> 64" "ts = sort_key relationKey us"
    by (auto simp: normalizeRelations_def split: sum.splits if_splits)
  from unique_relations_Inr [OF u(1)] u(2,3) show ?thesis by (auto simp: distinct_map)
qed

end
