(* ===== verification/RecordStore.thy ===== *)
theory RecordStore
  imports ProjectionStore Receipts Tags Views
begin

text \<open>
  \<open>records/repository.go\<close>, \<open>tag_repository.go\<close> and \<open>receipt_repository.go\<close>: workspaces,
  tables, records, tag dictionaries and receipts on MongoDB. A workspace of projections may have
  active read pointers, which send reads and updates of a table to a staged collection; records
  are kept per collection. The lemmas give each call its effect on the abstract state.
\<close>

section \<open>Calls of the driver\<close>

text \<open>\<open>DeleteOne\<close>, and queries that fetch every result; either step of a query may fail.\<close>

type_synonym ('w, 'k, 'd) delete_one = "'k \<Rightarrow> ('d \<Rightarrow> bool) \<Rightarrow> 'w \<Rightarrow> (string + nat) \<times> 'w"

datatype query_error = QueryFailed string | DecodeFailed string

type_synonym ('w, 'q, 'd) query = "'q \<Rightarrow> 'w \<Rightarrow> (query_error + 'd list) \<times> 'w"

definition QueryG :: "('w, 'q, 'd) query \<Rightarrow> 'q \<Rightarrow> string \<Rightarrow> string \<Rightarrow> ('w, 'd list) go" where
  "QueryG run q findLabel decodeLabel = (\<lambda>w. case run q w of
       (Inr ds, w') \<Rightarrow> (Inr ds, w')
     | (Inl (QueryFailed m), w') \<Rightarrow> (Inl (Wrap findLabel (External m)), w')
     | (Inl (DecodeFailed m), w') \<Rightarrow> (Inl (Wrap decodeLabel (External m)), w'))"

type_synonym doc_key = "string \<times> string \<times> string"
type_synonym part_key = "string \<times> string \<times> string \<times> string"

definition doc_key :: "Record \<Rightarrow> doc_key" where
  "doc_key r = (rec_TenantID r, rec_WorkspaceID r, rec_ID r)"

definition table_key :: "TableDefinition \<Rightarrow> doc_key" where
  "table_key t = (tb_TenantID t, tb_WorkspaceID t, tb_ID t)"

definition workspace_key :: "Workspace \<Rightarrow> string \<times> string" where
  "workspace_key w = (wk_TenantID w, wk_ID w)"

definition view_key :: "ViewDefinition \<Rightarrow> part_key" where
  "view_key v = (vd_TenantID v, vd_WorkspaceID v, vd_TableID v, vd_ID v)"

definition index_key :: "IndexDefinition \<Rightarrow> part_key" where
  "index_key i = (ix_TenantID i, ix_WorkspaceID i, ix_TableID i, ix_ID i)"

definition tagDictionaryScopeKey :: "string \<Rightarrow> string \<Rightarrow> string \<Rightarrow> string" where
  "tagDictionaryScopeKey tenantID workspaceID tableID = JoinWith [CHR 0x00] [tenantID, workspaceID, tableID]"

definition dictionary_key :: "TagDictionary \<Rightarrow> string" where
  "dictionary_key d = tagDictionaryScopeKey (td_TenantID d) (td_WorkspaceID d) (td_TableID d)"

text \<open>
  The database as the repository uses it; the filters name the fields that the keys list.
  Records are in a collection with a name, \<open>records\<close> or a staged one.
\<close>

record 'w records_database =
  rd_workspaces :: "('w, string \<times> string, Workspace) collection"
  rd_ListWorkspaces :: "('w, string \<times> IdentityKey option, Workspace) query"
  rd_tables :: "('w, doc_key, TableDefinition) collection"
  rd_ListTables :: "('w, string \<times> string, TableDefinition) query"
  rd_records :: "string \<Rightarrow> ('w, doc_key, Record) collection"
  rd_DeleteRecord :: "string \<Rightarrow> ('w, doc_key, Record) delete_one"
  rd_FindSource :: "string \<Rightarrow> string \<times> string \<times> RelationTarget \<Rightarrow> 'w \<Rightarrow> Record find_result \<times> 'w"
  rd_readPointers :: "('w, pointer_key, ProjectionReadPointer) collection option"
  rd_ActivePointers :: "('w, string \<times> string, ProjectionReadPointer) query"
  rd_views :: "('w, part_key, ViewDefinition) collection"
  rd_ListViews :: "('w, string \<times> string \<times> string, ViewDefinition) query"
  rd_indexes :: "('w, part_key, IndexDefinition) collection"
  rd_ListIndexes :: "('w, string \<times> string \<times> string, IndexDefinition) query"
  rd_DeleteIndex :: "('w, part_key, IndexDefinition) delete_one"
  rd_CreatePhysicalIndex :: "string \<Rightarrow> int \<Rightarrow> string \<Rightarrow> 'w \<Rightarrow> string option \<times> 'w"
  rd_dictionaries :: "('w, string, TagDictionary) collection"
  rd_ListDictionaries :: "('w, string, TagDictionary) query"
  rd_IsDuplicateKeyError :: "string \<Rightarrow> bool"
  rd_Transaction :: "('w, Record) transaction"
  rd_bson :: "string \<Rightarrow> bool"

section \<open>Workspaces and tables\<close>

definition records_CreateWorkspace :: "'w records_database \<Rightarrow> Workspace \<Rightarrow> ('w, unit) go" where
  "records_CreateWorkspace db workspace =
     bindG (checkG (Workspace_Validate workspace)) (\<lambda>_.
       InsertNew (rd_workspaces db) workspace (RecordsErr ErrWorkspaceExists) ''insert workspace'')"

definition GetWorkspace :: "'w records_database \<Rightarrow> string \<Rightarrow> string \<Rightarrow> ('w, Workspace) go" where
  "GetWorkspace db tenantID workspaceID =
     bindG (FindG (rd_workspaces db) (tenantID, workspaceID) ''find workspace'') (\<lambda>found. case found of
         None \<Rightarrow> fail (RecordsErr ErrWorkspaceNotFound)
       | Some workspace \<Rightarrow> ret workspace)"

definition records_ListWorkspaces :: "'w records_database \<Rightarrow> string \<Rightarrow> IdentityKey \<Rightarrow> ('w, Workspace list) go" where
  "records_ListWorkspaces db tenantID creator =
     QueryG (rd_ListWorkspaces db)
       (tenantID, if ik_Issuer creator \<noteq> [] \<or> ik_Subject creator \<noteq> [] then Some creator else None)
       ''list workspaces'' ''decode workspaces''"

definition records_CreateTable :: "'w records_database \<Rightarrow> TableDefinition \<Rightarrow> ('w, unit) go" where
  "records_CreateTable db table =
     bindG (checkG (TableDefinition_Validate table)) (\<lambda>_.
       InsertNew (rd_tables db) table (RecordsErr ErrTableExists) ''insert table'')"

definition records_GetTable :: "'w records_database \<Rightarrow> string \<Rightarrow> string \<Rightarrow> string \<Rightarrow> ('w, TableDefinition) go" where
  "records_GetTable db tenantID workspaceID tableID =
     bindG (FindG (rd_tables db) (tenantID, workspaceID, tableID) ''find table'') (\<lambda>found. case found of
         None \<Rightarrow> fail (RecordsErr ErrTableNotFound)
       | Some table \<Rightarrow> ret table)"

definition records_ListTables :: "'w records_database \<Rightarrow> string \<Rightarrow> string \<Rightarrow> ('w, TableDefinition list) go" where
  "records_ListTables db tenantID workspaceID =
     QueryG (rd_ListTables db) (tenantID, workspaceID) ''list tables'' ''decode tables''"

section \<open>Records\<close>

text \<open>The name of the collection that the active pointer of a table names.\<close>

definition activeRecordCollection :: "'w records_database \<Rightarrow> string \<Rightarrow> string \<Rightarrow> string \<Rightarrow> ('w, string) go" where
  "activeRecordCollection db tenantID workspaceID tableID =
     (case rd_readPointers db of
        None \<Rightarrow> ret records_collection
      | Some pointers \<Rightarrow>
          if blank tableID then ret records_collection
          else bindG (FindG pointers (tenantID, workspaceID, tableID, ProjectionReadPointerActive) ''find projection read pointer'')
            (\<lambda>found. case found of
               None \<Rightarrow> ret records_collection
             | Some pointer \<Rightarrow>
                 if blank (rp_CollectionName pointer) then fail (Anon ''projection read pointer has no collection'')
                 else ret (rp_CollectionName pointer)))"

fun find_in_collections ::
  "(string \<Rightarrow> 'w \<Rightarrow> Record find_result \<times> 'w) \<Rightarrow> ProjectionReadPointer list \<Rightarrow> ('w, Record) go" where
  "find_in_collections find_one [] = fail (RecordsErr ErrRecordNotFound)"
| "find_in_collections find_one (pointer # pointers) =
     (\<lambda>w. case find_one (rp_CollectionName pointer) w of
        (Found r, w') \<Rightarrow> (Inr r, w')
      | (NoDocuments, w') \<Rightarrow> find_in_collections find_one pointers w'
      | (FindError m, w') \<Rightarrow> (Inl (Wrap ''find projection record in active collection'' (External m)), w'))"

definition findAcrossActiveProjectionCollections ::
  "'w records_database \<Rightarrow> string \<Rightarrow> string \<Rightarrow> (string \<Rightarrow> 'w \<Rightarrow> Record find_result \<times> 'w) \<Rightarrow> ('w, Record) go" where
  "findAcrossActiveProjectionCollections db tenantID workspaceID find_one =
     (case rd_readPointers db of
        None \<Rightarrow> fail (RecordsErr ErrRecordNotFound)
      | Some _ \<Rightarrow>
          bindG (QueryG (rd_ActivePointers db) (tenantID, workspaceID) ''list projection read pointers''
                   ''decode projection read pointers'')
            (find_in_collections find_one))"

text \<open>
  \<open>GetRecord\<close> and \<open>GetRecordBySource\<close>: the active staged collections first, whatever error that
  search reports, then the base collection, then the staged collections again.
\<close>

definition find_record ::
  "'w records_database \<Rightarrow> string \<Rightarrow> string \<Rightarrow> (string \<Rightarrow> 'w \<Rightarrow> Record find_result \<times> 'w) \<Rightarrow> string \<Rightarrow> ('w, Record) go" where
  "find_record db tenantID workspaceID find_one label =
     (let across = findAcrossActiveProjectionCollections db tenantID workspaceID find_one;
          base = bindG (activeRecordCollection db tenantID workspaceID []) (\<lambda>collection w.
            case find_one collection w of
              (Found r, w') \<Rightarrow> (Inr r, w')
            | (NoDocuments, w') \<Rightarrow> catchG across (\<lambda>_. fail (RecordsErr ErrRecordNotFound)) ret w'
            | (FindError m, w') \<Rightarrow> (Inl (Wrap label (External m)), w'))
      in case rd_readPointers db of None \<Rightarrow> base | Some _ \<Rightarrow> catchG across (\<lambda>_. base) ret)"

definition records_GetRecord :: "'w records_database \<Rightarrow> string \<Rightarrow> string \<Rightarrow> string \<Rightarrow> ('w, Record) go" where
  "records_GetRecord db tenantID workspaceID recordID =
     find_record db tenantID workspaceID (\<lambda>collection. c_FindOne (rd_records db collection) (tenantID, workspaceID, recordID))
       ''find record''"

definition GetRecordBySource ::
  "'w records_database \<Rightarrow> string \<Rightarrow> string \<Rightarrow> RelationTarget \<Rightarrow> ('w, Record) go" where
  "GetRecordBySource db tenantID workspaceID source =
     find_record db tenantID workspaceID (\<lambda>collection. rd_FindSource db collection (tenantID, workspaceID, source))
       ''find record by source''"

definition records_CreateRecord :: "'w records_database \<Rightarrow> Record \<Rightarrow> ('w, unit) go" where
  "records_CreateRecord db r =
     bindG (checkG (Record_Validate (rd_bson db) r)) (\<lambda>_.
       InsertNew (rd_records db records_collection) r (RecordsErr ErrRecordExists) ''insert record'')"

definition set_record :: "Record \<Rightarrow> Record \<Rightarrow> Record" where
  "set_record r old = old\<lparr>rec_Data := rec_Data r, rec_Tags := rec_Tags r, rec_Relations := rec_Relations r,
     rec_UpdatedBy := rec_UpdatedBy r, rec_UpdatedAt := rec_UpdatedAt r, rec_RecordVersion := rec_RecordVersion old + 1\<rparr>"

definition at_version :: "int \<Rightarrow> Record \<Rightarrow> bool" where
  "at_version expectedVersion r \<longleftrightarrow> rec_RecordVersion r = expectedVersion"

text \<open>Both outcomes of the last comparison are the same error.\<close>

definition explain_record_miss :: "'w records_database \<Rightarrow> string \<Rightarrow> string \<Rightarrow> string \<Rightarrow> ('w, 'a) go" where
  "explain_record_miss db tenantID workspaceID recordID =
     bindG (records_GetRecord db tenantID workspaceID recordID) (\<lambda>_. fail (RecordsErr ErrRecordVersionConflict))"

definition records_UpdateRecord :: "'w records_database \<Rightarrow> Record \<Rightarrow> int \<Rightarrow> ('w, Record) go" where
  "records_UpdateRecord db r expectedVersion =
     bindG (checkG (Record_Validate (rd_bson db) r)) (\<lambda>_.
     bindG (activeRecordCollection db (rec_TenantID r) (rec_WorkspaceID r) (rec_TableID r)) (\<lambda>collection w.
       case c_FindOneAndUpdate (rd_records db collection) (doc_key r) (at_version expectedVersion) (set_record r) w of
         (Found r', w') \<Rightarrow> (Inr r', w')
       | (FindError m, w') \<Rightarrow>
           (Inl (if rd_IsDuplicateKeyError db m then RecordsErr ErrRecordExists else Wrap ''update record'' (External m)), w')
       | (NoDocuments, w') \<Rightarrow> explain_record_miss db (rec_TenantID r) (rec_WorkspaceID r) (rec_ID r) w'))"

definition records_DeleteRecord :: "'w records_database \<Rightarrow> string \<Rightarrow> string \<Rightarrow> string \<Rightarrow> int \<Rightarrow> ('w, unit) go" where
  "records_DeleteRecord db tenantID workspaceID recordID expectedVersion =
     bindG (activeRecordCollection db tenantID workspaceID []) (\<lambda>collection w.
       case rd_DeleteRecord db collection (tenantID, workspaceID, recordID) (at_version expectedVersion) w of
         (Inl m, w') \<Rightarrow> (Inl (Wrap ''delete record'' (External m)), w')
       | (Inr n, w') \<Rightarrow> if n = 1 then (Inr (), w') else explain_record_miss db tenantID workspaceID recordID w')"

section \<open>Tag dictionaries\<close>

definition GetTagDictionary :: "'w records_database \<Rightarrow> string \<Rightarrow> string \<Rightarrow> string \<Rightarrow> ('w, TagDictionary) go" where
  "GetTagDictionary db tenantID workspaceID tableID =
     bindG (FindG (rd_dictionaries db) (tagDictionaryScopeKey tenantID workspaceID tableID) ''find tag dictionary'')
       (\<lambda>found. case found of None \<Rightarrow> fail (RecordsErr ErrTagDictionaryNotFound) | Some d \<Rightarrow> ret d)"

definition records_ListTagDictionaries :: "'w records_database \<Rightarrow> string \<Rightarrow> ('w, TagDictionary list) go" where
  "records_ListTagDictionaries db tenantID =
     QueryG (rd_ListDictionaries db) tenantID ''list tag dictionaries'' ''decode tag dictionaries''"

definition set_dictionary :: "TagDictionary \<Rightarrow> TagDictionary \<Rightarrow> TagDictionary" where
  "set_dictionary d old = old\<lparr>td_TenantID := td_TenantID d, td_WorkspaceID := td_WorkspaceID d, td_TableID := td_TableID d,
     td_Revision := td_Revision d, td_Entries := td_Entries d\<rparr>"

text \<open>
  The code reads \<open>MatchedCount\<close>. The update raises the revision its filter asks for, so the
  document it matches is always modified.
\<close>

definition records_SaveTagDictionary :: "'w records_database \<Rightarrow> TagDictionary \<Rightarrow> int \<Rightarrow> ('w, unit) go" where
  "records_SaveTagDictionary db d expectedRevision =
     bindG (checkG (TagDictionary_Validate d)) (\<lambda>_.
       if expectedRevision < 0 then fail (RecordsErr ErrTagDictionaryVersionConflict)
       else if expectedRevision = 0
       then InsertNew (rd_dictionaries db) d (RecordsErr ErrTagDictionaryExists) ''insert tag dictionary''
       else if td_Revision d \<noteq> incr64 expectedRevision then fail (RecordsErr ErrTagDictionaryVersionConflict)
       else bindG (UpdateG (rd_dictionaries db) (dictionary_key d) (\<lambda>old. td_Revision old = expectedRevision)
                    (set_dictionary d) ''update tag dictionary'') (\<lambda>matched.
         if matched \<noteq> 1 then fail (RecordsErr ErrTagDictionaryVersionConflict) else ret ()))"

section \<open>Receipts\<close>

definition record_receipts :: "Record receipt_kind" where
  "record_receipts =
     \<lparr>rk_NotFound = RecordsErr ErrReceiptNotFound, rk_Conflict = RecordsErr records_ErrIdempotencyConflict,
      rk_FindLabel = ''find record receipt'', rk_SaveLabel = ''insert record receipt'',
      rk_Check = (\<lambda>r. if incomplete_receipt r then Some (Anon ''incomplete record receipt'') else None), rk_Strict = True\<rparr>"

end
