(* ===== verification/Records.thy ===== *)
theory Records
  imports RecordStore RecordInput RecordFeed
begin

text \<open>
  \<open>records/service.go\<close>: creating, reading, updating and deleting records. A mutation authorizes
  the caller, requires a table that is not a projection and a published schema, checks tags,
  relations and data, looks up its receipt, and changes the record, the audit log and the
  receipts in one transaction; afterwards the change is published to the feed. \<open>record_effect\<close>
  says what a call does, and the lemma \<open>record_exec_post\<close> that the calls do it on any database
  that serves the state.
\<close>

section \<open>The service\<close>

record ('w, 'v) RecordService =
  rv_db :: "'w records_database"
  rv_schemas :: "string \<Rightarrow> string \<Rightarrow> int \<Rightarrow> ('w, SchemaDefinition) go"
  rv_members :: "'w MembershipReader"
  rv_receipts :: "('w, Record) receipts"
  rv_audit :: "'w AuditWriter"
  rv_Now :: "'w \<Rightarrow> time \<times> 'w"
  rv_ext_json :: "string \<Rightarrow> string + string"
  rv_library :: "'v schema_library"
  rv_marshal :: "Record \<Rightarrow> string"
  rv_controlledTags :: bool
  rv_feed :: "(RecordChange \<Rightarrow> 'w \<Rightarrow> 'w) option"

text \<open>A \<open>nil\<close> service, or one without a part that records need, is \<open>None\<close>.\<close>

definition recordDependencies ::
  "('w, 'v) RecordService option \<Rightarrow> Principal \<Rightarrow> string \<Rightarrow> string \<Rightarrow> Action \<Rightarrow> ('w, unit) go" where
  "recordDependencies service prin tenantID workspaceID action =
     (case service of
        None \<Rightarrow> fail (IdentityErr ErrForbidden)
      | Some s \<Rightarrow> bindG (Authorize (Some (rv_members s)) prin tenantID workspaceID action) (\<lambda>_. ret ()))"

definition writableTable :: "('w, 'v) RecordService \<Rightarrow> string \<Rightarrow> string \<Rightarrow> string \<Rightarrow> ('w, TableDefinition) go" where
  "writableTable s tenantID workspaceID tableID =
     bindG (records_GetTable (rv_db s) tenantID workspaceID tableID) (\<lambda>table.
       if tb_Kind table = TableKindProjection then fail (RecordsErr ErrProjectionReadOnly) else ret table)"

definition usable_schema :: "string \<Rightarrow> string \<Rightarrow> int \<Rightarrow> SchemaDefinition \<Rightarrow> bool" where
  "usable_schema tenantID schemaID version d \<longleftrightarrow>
     sd_Status d = SchemaPublished \<and> sd_TenantID d = tenantID \<and> sd_SchemaID d = schemaID \<and> sd_Version d = version"

definition publishedSchema :: "('w, 'v) RecordService \<Rightarrow> string \<Rightarrow> string \<Rightarrow> int \<Rightarrow> ('w, SchemaDefinition) go" where
  "publishedSchema s tenantID schemaID version =
     catchG (rv_schemas s tenantID schemaID version)
       (\<lambda>_. fail (RecordsErr ErrSchemaUnavailable))
       (\<lambda>d. if usable_schema tenantID schemaID version d then ret d else fail (RecordsErr ErrSchemaUnavailable))"

definition resolveTagDictionary :: "('w, 'v) RecordService \<Rightarrow> string \<Rightarrow> string \<Rightarrow> string \<Rightarrow> ('w, TagDictionary) go" where
  "resolveTagDictionary s tenantID workspaceID tableID =
     (if \<not> rv_controlledTags s then fail (RecordsErr ErrTagDictionaryNotFound)
      else bindG (records_ListTagDictionaries (rv_db s) tenantID) (\<lambda>ds.
        pureG (resolve_dictionaries tenantID workspaceID tableID ds)))"

definition normalizeRecordTags ::
  "('w, 'v) RecordService \<Rightarrow> string \<Rightarrow> string \<Rightarrow> string \<Rightarrow> string list \<Rightarrow> ('w, string list) go" where
  "normalizeRecordTags s tenantID workspaceID tableID tags =
     bindG (pureG (normalizeTags tags)) (\<lambda>normalized.
       if \<not> rv_controlledTags s then ret normalized
       else catchG (resolveTagDictionary s tenantID workspaceID tableID)
         (\<lambda>err. if errors_is err (RecordsErr ErrTagDictionaryNotFound) then ret normalized else fail err)
         (\<lambda>dictionary. pureG (ValidateAssignments dictionary tenantID workspaceID tableID normalized)))"

definition hashRecord :: "('w, 'v) RecordService \<Rightarrow> Record \<Rightarrow> string" where
  "hashRecord s r = sha256_ref (rv_marshal s r)"

definition record_scope :: "RecordInput \<Rightarrow> string \<Rightarrow> receipt_scope" where
  "record_scope input operation = (ri_TenantID input, ri_WorkspaceID input, operation, ri_IdempotencyKey input)"

definition recordReceipt ::
  "('w, 'v) RecordService \<Rightarrow> RecordInput \<Rightarrow> string \<Rightarrow> string \<Rightarrow> ('w, Record option) go" where
  "recordReceipt s input operation requestHash =
     find_receipt (receipt_Find record_receipts (rv_receipts s)) (RecordsErr ErrReceiptNotFound)
       (RecordsErr records_ErrIdempotencyConflict) (record_scope input operation) requestHash"

definition completeRecord ::
  "('w, 'v) RecordService \<Rightarrow> AuditEntry \<Rightarrow> Record Receipt \<Rightarrow> ('w, Record) go" where
  "completeRecord s entry receipt =
     complete_with (rv_audit s) (receipt_Save record_receipts (rv_receipts s)) ''append record audit''
       ''save record receipt'' entry receipt"

definition record_entry ::
  "Principal \<Rightarrow> RecordInput \<Rightarrow> string \<Rightarrow> Record \<Rightarrow> string \<Rightarrow> string \<Rightarrow> time \<Rightarrow> AuditEntry" where
  "record_entry prin input action r beforeHash afterHash now =
     empty_AuditEntry\<lparr>ae_TenantID := ri_TenantID input, ae_WorkspaceID := ri_WorkspaceID input, ae_Action := action,
       ae_Actor := identityKey prin, ae_ResourceType := ''Record'', ae_ResourceID := rec_ID r,
       ae_ResourceVersion := rec_RecordVersion r, ae_RequestID := ri_RequestID input,
       ae_IdempotencyKey := ri_IdempotencyKey input, ae_BeforeHash := beforeHash, ae_AfterHash := afterHash,
       ae_CreatedAt := now\<rparr>"

text \<open>The error of \<open>Publish\<close> is dropped.\<close>

definition change_of :: "Record \<Rightarrow> ChangeType \<Rightarrow> string \<Rightarrow> RecordChange" where
  "change_of r changeType operation =
     \<lparr>rc_ID = 0, rc_TenantID = rec_TenantID r, rc_WorkspaceID = rec_WorkspaceID r, rc_TableID = rec_TableID r,
      rc_RecordID = rec_ID r, rc_RecordVersion = rec_RecordVersion r, rc_ChangeType = changeType, rc_LastEventID = [],
      rc_OccurredAt = rec_UpdatedAt r,
      rc_DedupKey = JoinWith '':'' [operation, rec_TenantID r, rec_WorkspaceID r, rec_ID r, itoa (rec_RecordVersion r)]\<rparr>"

definition publishRecordChange ::
  "('w, 'v) RecordService \<Rightarrow> ChangeType \<Rightarrow> string \<Rightarrow> Record \<Rightarrow> ('w, unit) go" where
  "publishRecordChange s changeType operation r =
     (case rv_feed s of None \<Rightarrow> ret () | Some publish \<Rightarrow> (\<lambda>w. (Inr (), publish (change_of r changeType operation) w)))"

text \<open>What \<open>CreateRecord\<close> and \<open>UpdateRecord\<close> check before they look for a receipt.\<close>

definition require_record_key :: "RecordInput \<Rightarrow> ('w, unit) go" where
  "require_record_key input =
     (if ri_IdempotencyKey input = [] then fail (RecordsErr records_ErrIdempotencyKeyRequired) else ret ())"

definition check_record_input ::
  "('w, 'v) RecordService \<Rightarrow> RecordInput \<Rightarrow> TableDefinition
     \<Rightarrow> ('w, SchemaDefinition \<times> string list \<times> RecordRelation list) go" where
  "check_record_input s input table =
     bindG (publishedSchema s (ri_TenantID input) (tb_SchemaID table) (tb_SchemaVersion table)) (\<lambda>d.
     bindG (normalizeRecordTags s (ri_TenantID input) (ri_WorkspaceID input) (ri_TableID input) (ri_Tags input)) (\<lambda>tags.
     bindG (pureG (normalizeRelations (case ri_Relations input of None \<Rightarrow> [] | Some rs \<Rightarrow> rs))) (\<lambda>relations.
     bindG (checkG (validateRecordData (rv_ext_json s) (rv_library s) d (ri_Data input))) (\<lambda>_.
       ret (d, tags, relations)))))"

definition new_record ::
  "Principal \<Rightarrow> RecordInput \<Rightarrow> TableDefinition \<Rightarrow> string list \<Rightarrow> RecordRelation list \<Rightarrow> time \<Rightarrow> Record" where
  "new_record prin input table tags relations now =
     \<lparr>rec_ID = TrimSpace (ri_ID input), rec_TenantID = ri_TenantID input, rec_WorkspaceID = ri_WorkspaceID input,
      rec_TableID = ri_TableID input, rec_SchemaID = tb_SchemaID table, rec_SchemaVersion = tb_SchemaVersion table,
      rec_Source = None, rec_RecordVersion = 1, rec_Tags = tags, rec_Data = ri_Data input, rec_Relations = relations,
      rec_Projection = None, rec_CreatedBy = identityKey prin, rec_UpdatedBy = identityKey prin, rec_CreatedAt = now,
      rec_UpdatedAt = now\<rparr>"

text \<open>
  A call up to its end; a replay and a commit both end with the publication, which is therefore
  written once, in the calls below. The part from the lookup of the receipt on comes first.
\<close>

definition commit_create ::
  "('w, 'v) RecordService \<Rightarrow> Principal \<Rightarrow> RecordInput \<Rightarrow> TableDefinition \<Rightarrow> string list \<Rightarrow> RecordRelation list \<Rightarrow> string
     \<Rightarrow> ('w, Record) go" where
  "commit_create s prin input table tags relations requestHash =
     bindG (recordReceipt s input ''record.create'' requestHash) (\<lambda>found. case found of Some r \<Rightarrow> ret r | None \<Rightarrow>
     bindG (nowG (rv_Now s)) (\<lambda>now.
     (let r = new_record prin input table tags relations now in
     bindG (checkG (Record_Validate (rd_bson (rv_db s)) r)) (\<lambda>_.
       rd_Transaction (rv_db s)
         (bindG (bindG (records_CreateRecord (rv_db s) r) (\<lambda>_. ret r)) (\<lambda>r.
           completeRecord s (record_entry prin input ''record.create'' r [] (hashRecord s r) now)
             (receipt_for (record_scope input ''record.create'') requestHash r)))))))"

definition create_or_replay :: "('w, 'v) RecordService \<Rightarrow> Principal \<Rightarrow> RecordInput \<Rightarrow> ('w, Record) go" where
  "create_or_replay s prin input =
     bindG (recordDependencies (Some s) prin (ri_TenantID input) (ri_WorkspaceID input) ActionRecordWrite) (\<lambda>_.
     bindG (writableTable s (ri_TenantID input) (ri_WorkspaceID input) (ri_TableID input)) (\<lambda>table.
     bindG (require_record_key input) (\<lambda>_.
     bindG (check_record_input s input table) (\<lambda>(d, tags, relations).
     bindG (pureG (recordRequestHash (rv_ext_json s) ''record.create'' (input\<lparr>ri_Relations := Some relations\<rparr>) 0 tags))
       (commit_create s prin input table tags relations)))))"

definition CreateRecord :: "('w, 'v) RecordService \<Rightarrow> Principal \<Rightarrow> RecordInput \<Rightarrow> ('w, Record) go" where
  "CreateRecord s prin input =
     bindG (create_or_replay s prin input) (\<lambda>r. bindG (publishRecordChange s Upsert ''record.create'' r) (\<lambda>_. ret r))"

definition GetRecord :: "('w, 'v) RecordService option \<Rightarrow> Principal \<Rightarrow> string \<Rightarrow> string \<Rightarrow> string \<Rightarrow> ('w, Record) go" where
  "GetRecord service prin tenantID workspaceID recordID =
     bindG (recordDependencies service prin tenantID workspaceID ActionRecordRead) (\<lambda>_.
       case service of None \<Rightarrow> fail (IdentityErr ErrForbidden)
       | Some s \<Rightarrow> records_GetRecord (rv_db s) tenantID workspaceID recordID)"

definition updated_record ::
  "Principal \<Rightarrow> RecordInput \<Rightarrow> string list \<Rightarrow> RecordRelation list \<Rightarrow> time \<Rightarrow> Record \<Rightarrow> Record" where
  "updated_record prin input tags relations now existing =
     existing\<lparr>rec_Data := ri_Data input, rec_Tags := tags, rec_Relations := relations,
              rec_UpdatedBy := identityKey prin, rec_UpdatedAt := now\<rparr>"

definition commit_update ::
  "('w, 'v) RecordService \<Rightarrow> Principal \<Rightarrow> RecordInput \<Rightarrow> int \<Rightarrow> string list \<Rightarrow> RecordRelation list \<Rightarrow> string
     \<Rightarrow> ('w, Record) go" where
  "commit_update s prin input expectedVersion tags relations requestHash =
     bindG (recordReceipt s input ''record.update'' requestHash) (\<lambda>found. case found of Some r \<Rightarrow> ret r | None \<Rightarrow>
     bindG (records_GetRecord (rv_db s) (ri_TenantID input) (ri_WorkspaceID input) (ri_ID input)) (\<lambda>existing.
     (if rec_TableID existing \<noteq> ri_TableID input then fail (RecordsErr ErrRecordNotFound) else
     bindG (nowG (rv_Now s)) (\<lambda>now.
     (let r = updated_record prin input tags relations now existing in
     bindG (checkG (Record_Validate (rd_bson (rv_db s)) r)) (\<lambda>_.
       rd_Transaction (rv_db s)
         (bindG (records_UpdateRecord (rv_db s) r expectedVersion) (\<lambda>u.
           completeRecord s
             (record_entry prin input ''record.update'' u (hashRecord s existing) (hashRecord s u) (rec_UpdatedAt u))
             (receipt_for (record_scope input ''record.update'') requestHash u))))))))) "

definition update_or_replay :: "('w, 'v) RecordService \<Rightarrow> Principal \<Rightarrow> RecordInput \<Rightarrow> int \<Rightarrow> ('w, Record) go" where
  "update_or_replay s prin input expectedVersion =
     bindG (recordDependencies (Some s) prin (ri_TenantID input) (ri_WorkspaceID input) ActionRecordWrite) (\<lambda>_.
     bindG (writableTable s (ri_TenantID input) (ri_WorkspaceID input) (ri_TableID input)) (\<lambda>table.
     bindG (require_record_key input) (\<lambda>_.
     (if expectedVersion < 1 then fail (RecordsErr ErrRecordVersionConflict) else
     bindG (check_record_input s input table) (\<lambda>(d, tags, relations).
     bindG (pureG (recordRequestHash (rv_ext_json s) ''record.update'' (input\<lparr>ri_Relations := Some relations\<rparr>) expectedVersion tags))
       (commit_update s prin input expectedVersion tags relations))))))"

definition UpdateRecord :: "('w, 'v) RecordService \<Rightarrow> Principal \<Rightarrow> RecordInput \<Rightarrow> int \<Rightarrow> ('w, Record) go" where
  "UpdateRecord s prin input expectedVersion =
     bindG (update_or_replay s prin input expectedVersion)
       (\<lambda>r. bindG (publishRecordChange s Upsert ''record.update'' r) (\<lambda>_. ret r))"

text \<open>\<open>RecordDeleteInput\<close> has the fields of a \<open>RecordInput\<close> that \<open>hashInput\<close> sets.\<close>

definition delete_input :: "RecordInput \<Rightarrow> RecordInput" where
  "delete_input given = given\<lparr>ri_Data := [], ri_Tags := [], ri_Relations := None\<rparr>"

definition commit_delete :: "('w, 'v) RecordService \<Rightarrow> Principal \<Rightarrow> RecordInput \<Rightarrow> int \<Rightarrow> string \<Rightarrow> ('w, Record) go" where
  "commit_delete s prin input expectedVersion requestHash =
     bindG (recordReceipt s input ''record.delete'' requestHash) (\<lambda>found. case found of Some r \<Rightarrow> ret r | None \<Rightarrow>
     bindG (records_GetRecord (rv_db s) (ri_TenantID input) (ri_WorkspaceID input) (ri_ID input)) (\<lambda>existing.
     (if rec_TableID existing \<noteq> ri_TableID input then fail (RecordsErr ErrRecordNotFound) else
       rd_Transaction (rv_db s)
         (bindG (bindG (records_DeleteRecord (rv_db s) (ri_TenantID input) (ri_WorkspaceID input) (ri_ID input) expectedVersion)
                   (\<lambda>_. nowG (rv_Now s))) (\<lambda>now.
           completeRecord s (record_entry prin input ''record.delete'' existing (hashRecord s existing) [] now)
             (receipt_for (record_scope input ''record.delete'') requestHash existing))))))"

definition delete_or_replay :: "('w, 'v) RecordService \<Rightarrow> Principal \<Rightarrow> RecordInput \<Rightarrow> int \<Rightarrow> ('w, Record) go" where
  "delete_or_replay s prin input expectedVersion =
     bindG (recordDependencies (Some s) prin (ri_TenantID input) (ri_WorkspaceID input) ActionRecordWrite) (\<lambda>_.
     bindG (writableTable s (ri_TenantID input) (ri_WorkspaceID input) (ri_TableID input)) (\<lambda>table.
     bindG (require_record_key input) (\<lambda>_.
     (if expectedVersion < 1 then fail (RecordsErr ErrRecordVersionConflict) else
     bindG (pureG (recordRequestHash (rv_ext_json s) ''record.delete'' (delete_input input) expectedVersion []))
       (commit_delete s prin input expectedVersion)))))"

definition DeleteRecord :: "('w, 'v) RecordService \<Rightarrow> Principal \<Rightarrow> RecordInput \<Rightarrow> int \<Rightarrow> ('w, Record) go" where
  "DeleteRecord s prin input expectedVersion =
     bindG (delete_or_replay s prin input expectedVersion)
       (\<lambda>r. bindG (publishRecordChange s Delete ''record.delete'' r) (\<lambda>_. ret r))"

section \<open>What the calls do\<close>

datatype record_call =
    CreateRecordCall Principal RecordInput
  | UpdateRecordCall Principal RecordInput int
  | DeleteRecordCall Principal RecordInput int

fun record_exec :: "('w, 'v) RecordService \<Rightarrow> record_call \<Rightarrow> ('w, Record) go" where
  "record_exec s (CreateRecordCall prin input) = CreateRecord s prin input"
| "record_exec s (UpdateRecordCall prin input n) = UpdateRecord s prin input n"
| "record_exec s (DeleteRecordCall prin input n) = DeleteRecord s prin input n"

fun record_body :: "('w, 'v) RecordService \<Rightarrow> record_call \<Rightarrow> ('w, Record) go" where
  "record_body s (CreateRecordCall prin input) = create_or_replay s prin input"
| "record_body s (UpdateRecordCall prin input n) = update_or_replay s prin input n"
| "record_body s (DeleteRecordCall prin input n) = delete_or_replay s prin input n"

fun record_call_change :: "record_call \<Rightarrow> Record \<Rightarrow> RecordChange" where
  "record_call_change (CreateRecordCall _ _) r = change_of r Upsert ''record.create''"
| "record_call_change (UpdateRecordCall _ _ _) r = change_of r Upsert ''record.update''"
| "record_call_change (DeleteRecordCall _ _ _) r = change_of r Delete ''record.delete''"

definition record_run :: "('w, 'v) RecordService \<Rightarrow> record_call list \<Rightarrow> 'w \<Rightarrow> 'w" where
  "record_run s calls w = fold (\<lambda>call w. snd (record_exec s call w)) calls w"

text \<open>The state: records by collection and key, read pointers, tables, receipts, audit log and
  the changes handed to the feed.\<close>

record RecordsDB = "Record ReceiptDB" +
  x_records :: "string \<Rightarrow> doc_key \<rightharpoonup> Record"
  x_pointers :: "pointer_key \<rightharpoonup> ProjectionReadPointer"
  x_tables :: "doc_key \<rightharpoonup> TableDefinition"
  x_published :: "RecordChange list"

definition get_collection :: "string \<Rightarrow> RecordsDB \<Rightarrow> doc_key \<rightharpoonup> Record" where
  "get_collection n v = x_records v n"

definition put_collection :: "string \<Rightarrow> (doc_key \<rightharpoonup> Record) \<Rightarrow> RecordsDB \<Rightarrow> RecordsDB" where
  "put_collection n m v = v\<lparr>x_records := (x_records v)(n := m)\<rparr>"

definition put_x_pointers :: "(pointer_key \<rightharpoonup> ProjectionReadPointer) \<Rightarrow> RecordsDB \<Rightarrow> RecordsDB" where
  "put_x_pointers m v = v\<lparr>x_pointers := m\<rparr>"

definition put_x_tables :: "(doc_key \<rightharpoonup> TableDefinition) \<Rightarrow> RecordsDB \<Rightarrow> RecordsDB" where
  "put_x_tables m v = v\<lparr>x_tables := m\<rparr>"

lemma records_parts:
  "part (get_collection n) (put_collection n)" "part x_pointers put_x_pointers" "part x_tables put_x_tables"
  by (simp_all add: part_def get_collection_def put_collection_def put_x_pointers_def put_x_tables_def)

text \<open>One record of a collection changed, or removed by \<open>None\<close>.\<close>

definition record_put :: "string \<Rightarrow> doc_key \<Rightarrow> Record option \<Rightarrow> RecordsDB \<Rightarrow> RecordsDB" where
  "record_put n k d v = put_collection n ((x_records v n)(k := d)) v"

lemma record_put_simps [simp]:
  "x_records (record_put n k d v) = (x_records v)(n := (x_records v n)(k := d))"
  "x_receipts (record_put n k d v) = x_receipts v" "x_audit (record_put n k d v) = x_audit v"
  "x_pointers (record_put n k d v) = x_pointers v" "x_tables (record_put n k d v) = x_tables v"
  "x_published (record_put n k d v) = x_published v"
  by (simp_all add: record_put_def put_collection_def)

lemma recorded_other [simp]:
  "x_records (recorded e r v) = x_records v" "x_pointers (recorded e r v) = x_pointers v"
  "x_tables (recorded e r v) = x_tables v" "x_published (recorded e r v) = x_published v"
  by (simp_all add: recorded_def)

definition delete_laws ::
  "('w, 'k, 'd) delete_one \<Rightarrow> ('v \<Rightarrow> 'k \<rightharpoonup> 'd) \<Rightarrow> (('k \<rightharpoonup> 'd) \<Rightarrow> 'v \<Rightarrow> 'v) \<Rightarrow> ('w \<Rightarrow> 'v) \<Rightarrow> bool" where
  "delete_laws del get put view \<longleftrightarrow> (\<forall>k P w r w'. del k P w = (r, w') \<longrightarrow>
     (case r of
        Inl _ \<Rightarrow> view w' = view w
      | Inr n \<Rightarrow> (case matching (get (view w)) k P of
            None \<Rightarrow> n = 0 \<and> view w' = view w
          | Some _ \<Rightarrow> n = 1 \<and> view w' = put ((get (view w))(k := None)) (view w))))"

definition memory_delete :: "('v \<Rightarrow> 'k \<rightharpoonup> 'd) \<Rightarrow> (('k \<rightharpoonup> 'd) \<Rightarrow> 'v \<Rightarrow> 'v) \<Rightarrow> ('v, 'k, 'd) delete_one" where
  "memory_delete get put k P v =
     (case matching (get v) k P of None \<Rightarrow> (Inr 0, v) | Some _ \<Rightarrow> (Inr 1, put ((get v)(k := None)) v))"

lemma deleted_one:
  assumes "delete_laws del get put view" "del k P w = (Inr 1, w')"
  shows "\<exists>old. get (view w) k = Some old \<and> P old \<and> view w' = put ((get (view w))(k := None)) (view w)"
proof -
  from assms(1) [unfolded delete_laws_def, THEN spec, THEN spec, THEN spec, THEN spec, THEN spec, THEN mp, OF assms(2)]
  show ?thesis by (cases "matching (get (view w)) k P") (simp_all add: matching_Some)
qed

lemma memory_delete_laws: "delete_laws (memory_delete get put) get put (\<lambda>v. v)"
  by (simp add: delete_laws_def memory_delete_def split: option.split)

text \<open>What the calls rely on: a database that serves the state, and collaborators that leave it alone.\<close>

definition reads_only :: "('q \<Rightarrow> 'w \<Rightarrow> 'r \<times> 'w) \<Rightarrow> ('w \<Rightarrow> 'v) \<Rightarrow> bool" where
  "reads_only call view \<longleftrightarrow> (\<forall>q w. view (snd (call q w)) = view w)"

definition records_serves :: "('w, 'v) RecordService \<Rightarrow> WorkspaceMembership set \<Rightarrow> ('w \<Rightarrow> RecordsDB) \<Rightarrow> bool" where
  "records_serves s M view \<longleftrightarrow>
     (\<forall>n. realises (rd_records (rv_db s) n) doc_key (get_collection n) (put_collection n) view
          \<and> delete_laws (rd_DeleteRecord (rv_db s) n) (get_collection n) (put_collection n) view)
     \<and> (\<exists>c. rd_readPointers (rv_db s) = Some c \<and> realises c pointer_key x_pointers put_x_pointers view)
     \<and> realises (rd_tables (rv_db s)) table_key x_tables put_x_tables view
     \<and> realises (rv_receipts s) receipt_key x_receipts put_receipts view
     \<and> audit_adds (rv_audit s) view \<and> transaction_laws (rd_Transaction (rv_db s))
     \<and> reads_members (rv_members s) M view
     \<and> reads_only (rd_ActivePointers (rv_db s)) view \<and> reads_only (rd_ListDictionaries (rv_db s)) view
     \<and> (\<forall>t i. reads_only (rv_schemas s t i) view) \<and> (\<forall>w. view (snd (rv_Now s w)) = view w)
     \<and> (\<forall>publish change w. rv_feed s = Some publish \<longrightarrow>
          view (publish change w) = (view w)\<lparr>x_published := x_published (view w) @ [change]\<rparr>)"

text \<open>The collection that has the records of a table.\<close>

definition active_name :: "RecordsDB \<Rightarrow> string \<Rightarrow> string \<Rightarrow> string \<Rightarrow> string" where
  "active_name v tenantID workspaceID tableID =
     (if blank tableID then records_collection
      else case x_pointers v (tenantID, workspaceID, tableID, ProjectionReadPointerActive) of
        None \<Rightarrow> records_collection | Some pointer \<Rightarrow> rp_CollectionName pointer)"

definition custom_table :: "RecordsDB \<Rightarrow> RecordInput \<Rightarrow> TableDefinition \<Rightarrow> bool" where
  "custom_table v input table \<longleftrightarrow>
     x_tables v (ri_TenantID input, ri_WorkspaceID input, ri_TableID input) = Some table \<and> tb_Kind table \<noteq> TableKindProjection"

text \<open>Tags, relations and data that the call may store.\<close>

definition accepted ::
  "('w, 'v) RecordService \<Rightarrow> RecordInput \<Rightarrow> TableDefinition \<Rightarrow> string list \<Rightarrow> RecordRelation list \<Rightarrow> bool" where
  "accepted s input table tags relations \<longleftrightarrow>
     sorted tags \<and> distinct tags
     \<and> normalizeRelations (case ri_Relations input of None \<Rightarrow> [] | Some rs \<Rightarrow> rs) = Inr relations
     \<and> (\<exists>d. usable_schema (ri_TenantID input) (tb_SchemaID table) (tb_SchemaVersion table) d
            \<and> validateRecordData (rv_ext_json s) (rv_library s) d (ri_Data input) = None)"

definition found_in :: "RecordsDB \<Rightarrow> RecordInput \<Rightarrow> Record \<Rightarrow> bool" where
  "found_in v input r \<longleftrightarrow>
     (\<exists>n. x_records v n (ri_TenantID input, ri_WorkspaceID input, ri_ID input) = Some r) \<and> rec_TableID r = ri_TableID input"

fun record_effect ::
  "('w, 'v) RecordService \<Rightarrow> WorkspaceMembership set \<Rightarrow> record_call \<Rightarrow> RecordsDB \<Rightarrow> Record \<Rightarrow> RecordsDB \<Rightarrow> AuditEntry \<Rightarrow> bool" where
  "record_effect s M (CreateRecordCall prin input) v r v' entry \<longleftrightarrow>
     granted M prin (ri_TenantID input) (ri_WorkspaceID input) ActionRecordWrite
     \<and> (\<exists>table tags relations now. custom_table v input table \<and> accepted s input table tags relations
          \<and> r = new_record prin input table tags relations now \<and> Record_Validate (rd_bson (rv_db s)) r = None
          \<and> x_records v records_collection (doc_key r) = None \<and> v' = record_put records_collection (doc_key r) (Some r) v
          \<and> entry = record_entry prin input ''record.create'' r [] (hashRecord s r) now)"
| "record_effect s M (UpdateRecordCall prin input n) v r v' entry \<longleftrightarrow>
     granted M prin (ri_TenantID input) (ri_WorkspaceID input) ActionRecordWrite \<and> 1 \<le> n
     \<and> (\<exists>table tags relations now existing old. custom_table v input table \<and> accepted s input table tags relations
          \<and> found_in v input existing
          \<and> x_records v (active_name v (ri_TenantID input) (ri_WorkspaceID input) (ri_TableID input)) (doc_key existing) = Some old
          \<and> rec_RecordVersion old = n \<and> r = set_record (updated_record prin input tags relations now existing) old
          \<and> v' = record_put (active_name v (ri_TenantID input) (ri_WorkspaceID input) (ri_TableID input)) (doc_key existing) (Some r) v
          \<and> entry = record_entry prin input ''record.update'' r (hashRecord s existing) (hashRecord s r) now)"
| "record_effect s M (DeleteRecordCall prin input n) v r v' entry \<longleftrightarrow>
     granted M prin (ri_TenantID input) (ri_WorkspaceID input) ActionRecordWrite \<and> 1 \<le> n
     \<and> (\<exists>table now old. custom_table v input table \<and> found_in v input r
          \<and> x_records v records_collection (ri_TenantID input, ri_WorkspaceID input, ri_ID input) = Some old
          \<and> rec_RecordVersion old = n
          \<and> v' = record_put records_collection (ri_TenantID input, ri_WorkspaceID input, ri_ID input) None v
          \<and> entry = record_entry prin input ''record.delete'' r (hashRecord s r) [] now)"

fun record_call_input :: "record_call \<Rightarrow> RecordInput" where
  "record_call_input (CreateRecordCall _ input) = input"
| "record_call_input (UpdateRecordCall _ input _) = input"
| "record_call_input (DeleteRecordCall _ input _) = input"

fun record_operation :: "record_call \<Rightarrow> string" where
  "record_operation (CreateRecordCall _ _) = ''record.create''"
| "record_operation (UpdateRecordCall _ _ _) = ''record.update''"
| "record_operation (DeleteRecordCall _ _ _) = ''record.delete''"

definition record_call_scope :: "record_call \<Rightarrow> receipt_scope" where
  "record_call_scope call = record_scope (record_call_input call) (record_operation call)"

section \<open>The proof that they do it\<close>

lemma records_servesD:
  assumes "records_serves s M view"
  shows "realises (rd_records (rv_db s) n) doc_key (get_collection n) (put_collection n) view"
    and "delete_laws (rd_DeleteRecord (rv_db s) n) (get_collection n) (put_collection n) view"
    and "realises (rd_tables (rv_db s)) table_key x_tables put_x_tables view"
    and "receipt_store (receipt_Find record_receipts (rv_receipts s)) (receipt_Save record_receipts (rv_receipts s))
           (rv_audit s) (RecordsErr ErrReceiptNotFound) view"
    and "transaction_laws (rd_Transaction (rv_db s))" "reads_members (rv_members s) M view"
    and "keeps view (nowG (rv_Now s))" "reads_only (rd_ActivePointers (rv_db s)) view"
    and "reads_only (rd_ListDictionaries (rv_db s)) view" "keeps view (rv_schemas s t i ver)"
    and "rv_feed s = Some publish \<Longrightarrow> view (publish change w) = (view w)\<lparr>x_published := x_published (view w) @ [change]\<rparr>"
proof -
  have "rk_NotFound record_receipts = RecordsErr ErrReceiptNotFound" by (simp add: record_receipts_def)
  with assms mongo_receipt_store [of "rv_receipts s" view "rv_audit s" record_receipts]
  show "receipt_store (receipt_Find record_receipts (rv_receipts s)) (receipt_Save record_receipts (rv_receipts s))
         (rv_audit s) (RecordsErr ErrReceiptNotFound) view" by (simp add: records_serves_def)
  show "keeps view (rv_schemas s t i ver)" using assms by (simp add: records_serves_def reads_only_def keeps_def)
qed (use assms in \<open>auto simp: records_serves_def intro: keeps_nowG\<close>)

lemma records_pointers:
  "records_serves s M view \<Longrightarrow> \<exists>c. rd_readPointers (rv_db s) = Some c \<and> realises c pointer_key x_pointers put_x_pointers view"
  by (simp add: records_serves_def)

lemma keeps_QueryG [keeping]: "reads_only run view \<Longrightarrow> keeps view (QueryG run q l1 l2)"
proof (rule keepsI)
  fix w r w' assume a: "reads_only run view" and m: "QueryG run q l1 l2 w = (r, w')"
  obtain x w1 where x: "run q w = (x, w1)" by force
  with a have "view w1 = view w" unfolding reads_only_def by (metis snd_conv)
  with m x show "view w' = view w" by (auto simp: QueryG_def split: sum.splits query_error.splits)
qed

lemma recordDependencies_keeps: "records_serves s M view \<Longrightarrow> keeps view (recordDependencies (Some s) prin t ws a)"
  unfolding recordDependencies_def option.case by (intro keeping Authorize_keeps records_servesD(6))

lemma recordDependencies_granted:
  "records_serves s M view \<Longrightarrow> recordDependencies (Some s) prin t ws a w = (Inr u, w') \<Longrightarrow> granted M prin t ws a"
  by (auto simp: recordDependencies_def go_success dest!: Authorize_granted [OF records_servesD(6)])

lemma writableTable_keeps: "records_serves s M view \<Longrightarrow> keeps view (writableTable s t ws tb)"
  unfolding writableTable_def records_GetTable_def by (intro keeping) (rule records_servesD(3))

lemma writableTable_Inr:
  "records_serves s M view \<Longrightarrow> writableTable s t ws tb w = (Inr table, w') \<Longrightarrow>
     x_tables (view w) (t, ws, tb) = Some table \<and> tb_Kind table \<noteq> TableKindProjection"
proof -
  assume s: "records_serves s M view" and run: "writableTable s t ws tb w = (Inr table, w')"
  from run obtain w1 where f: "FindG (rd_tables (rv_db s)) (t, ws, tb) ''find table'' w = (Inr (Some table), w1)"
    and "tb_Kind table \<noteq> TableKindProjection"
    by (auto simp: writableTable_def records_GetTable_def go_success split: option.splits if_splits)
  with FindG_Inr [OF records_servesD(3) [OF s] f] show ?thesis by simp
qed

lemma publishedSchema_keeps: "records_serves s M view \<Longrightarrow> keeps view (publishedSchema s t i n)"
  unfolding publishedSchema_def by (intro keeping) (rule records_servesD(10))

lemma publishedSchema_Inr: "publishedSchema s t i n w = (Inr d, w') \<Longrightarrow> usable_schema t i n d"
  by (auto simp: publishedSchema_def go_success split: if_splits)

lemma normalizeRecordTags_keeps: "records_serves s M view \<Longrightarrow> keeps view (normalizeRecordTags s t ws tb tags)"
  unfolding normalizeRecordTags_def resolveTagDictionary_def records_ListTagDictionaries_def
  by (intro keeping) (rule records_servesD(9))

lemma ValidateAssignments_sorted: "ValidateAssignments d t ws tb tags = Inr ids \<Longrightarrow> sorted ids \<and> distinct ids"
proof -
  assume "ValidateAssignments d t ws tb tags = Inr ids"
  then obtain normal where "assign_tags (allowed_tags (td_Entries d) Map.empty) {} Map.empty tags = Inr normal" "ids = sort normal"
    by (auto simp: ValidateAssignments_def split: option.splits if_splits sum.splits)
  then show ?thesis using assign_tags_Inr by (auto simp: assignment_ok_def dest!: assign_tags_Inr)
qed

lemma normalizeRecordTags_Inr: "normalizeRecordTags s t ws tb tags w = (Inr ts, w') \<Longrightarrow> sorted ts \<and> distinct ts"
  using ValidateAssignments_sorted normalizeTags_Inr
  by (auto simp: normalizeRecordTags_def go_success split: if_splits; blast)

lemma check_record_input_keeps: "records_serves s M view \<Longrightarrow> keeps view (check_record_input s input table)"
  unfolding check_record_input_def by (intro keeping publishedSchema_keeps normalizeRecordTags_keeps)

lemma check_record_input_Inr:
  "check_record_input s input table w = (Inr (d, tags, relations), w') \<Longrightarrow> accepted s input table tags relations"
  unfolding accepted_def
  by (auto simp: check_record_input_def go_success dest!: publishedSchema_Inr normalizeRecordTags_Inr)

lemma activeRecordCollection_keeps: "records_serves s M view \<Longrightarrow> keeps view (activeRecordCollection (rv_db s) t ws tb)"
proof -
  assume "records_serves s M view"
  with records_pointers obtain c where c: "rd_readPointers (rv_db s) = Some c" "realises c pointer_key x_pointers put_x_pointers view" by blast
  show ?thesis unfolding activeRecordCollection_def c(1) option.case by (intro keeping) (rule c(2))
qed

lemma activeRecordCollection_Inr:
  assumes "records_serves s M view" "activeRecordCollection (rv_db s) t ws tb w = (Inr n, w')"
  shows "n = active_name (view w) t ws tb"
proof -
  obtain c where "rd_readPointers (rv_db s) = Some c" "realises c pointer_key x_pointers put_x_pointers view"
    using records_pointers [OF assms(1)] by blast
  with assms(2) FindG_Inr [of c pointer_key x_pointers put_x_pointers view] show ?thesis
    by (fastforce simp: activeRecordCollection_def active_name_def go_success split: if_splits option.splits)
qed

lemma find_in_collections_keeps:
  "(\<And>n w. view (snd (f n w)) = view w) \<Longrightarrow> keeps view (find_in_collections f ps)"
proof (induction ps)
  case (Cons p ps)
  then have ih: "keeps view (find_in_collections f ps)" by blast
  show ?case
  proof (rule keepsI)
    fix w r w' assume run: "find_in_collections f (p # ps) w = (r, w')"
    obtain x w1 where x: "f (rp_CollectionName p) w = (x, w1)" by force
    with Cons.prems [of "rp_CollectionName p" w] have "view w1 = view w" by simp
    with run x keepsD [OF ih, of w1] show "view w' = view w" by (cases x) auto
  qed
qed (simp add: keeping)

lemma find_in_collections_Inr:
  "(\<And>n w. view (snd (f n w)) = view w) \<Longrightarrow> (\<And>n w w' r. f n w = (Found r, w') \<Longrightarrow> Q (view w) n r) \<Longrightarrow>
     find_in_collections f ps w = (Inr r, w') \<Longrightarrow> \<exists>n. Q (view w) n r"
proof (induction ps arbitrary: w)
  case (Cons p ps)
  obtain x w1 where x: "f (rp_CollectionName p) w = (x, w1)" by force
  with Cons.prems(1) [of "rp_CollectionName p" w] have v: "view w1 = view w" by simp
  show ?case
  proof (cases x)
    case NoDocuments
    with Cons.prems(3) x have "find_in_collections f ps w1 = (Inr r, w')" by simp
    from Cons.IH [OF Cons.prems(1,2) this] v show ?thesis by simp
  next
    case (Found d)
    with Cons.prems(2) [of "rp_CollectionName p" w d w1] Cons.prems(3) x show ?thesis by auto
  qed (use Cons.prems(3) x in auto)
qed (simp add: fail_Inr)

text \<open>The search for a record, over any way of finding one in a collection.\<close>

lemma find_record_reads:
  assumes s: "records_serves s M view" and k: "\<And>n w. view (snd (f n w)) = view w"
  shows "keeps view (find_record (rv_db s) t ws f l)"
    and "(\<And>n w w' r. f n w = (Found r, w') \<Longrightarrow> Q (view w) n r) \<Longrightarrow>
      find_record (rv_db s) t ws f l w = (Inr r, w') \<Longrightarrow> \<exists>n. Q (view w) n r"
proof -
  obtain c where c: "rd_readPointers (rv_db s) = Some c" using records_pointers [OF s] by blast
  let ?across = "findAcrossActiveProjectionCollections (rv_db s) t ws f"
  have ak: "keeps view ?across"
    unfolding findAcrossActiveProjectionCollections_def c option.case
    by (intro keeping find_in_collections_keeps k) (rule records_servesD(8) [OF s])
  let ?tail = "\<lambda>n w. case f n w of (Found r, w') \<Rightarrow> (Inr r, w')
    | (NoDocuments, w') \<Rightarrow> catchG ?across (\<lambda>_. fail (RecordsErr ErrRecordNotFound)) ret w'
    | (FindError m, w') \<Rightarrow> (Inl (Wrap l (External m)), w')"
  have tk: "keeps view (?tail n)" for n
  proof (rule keepsI)
    fix w r w' assume run: "?tail n w = (r, w')"
    obtain x w1 where x: "f n w = (x, w1)" by force
    with k [of n w] have v: "view w1 = view w" by simp
    have "keeps view (catchG ?across (\<lambda>_. fail (RecordsErr ErrRecordNotFound)) ret)" by (intro keeping ak)
    with run x v keepsD show "view w' = view w" by (cases x) fastforce+
  qed
  show "keeps view (find_record (rv_db s) t ws f l)"
    unfolding find_record_def c option.case Let_def by (intro keeping ak activeRecordCollection_keeps [OF s] tk)
  assume q: "\<And>n w w' r. f n w = (Found r, w') \<Longrightarrow> Q (view w) n r"
  have aq: "\<exists>n. Q (view w) n r" if "?across w = (Inr r, w')" for w r w'
  proof -
    from that obtain ps w1 where p: "QueryG (rd_ActivePointers (rv_db s)) (t, ws) ''list projection read pointers''
        ''decode projection read pointers'' w = (Inr ps, w1)" and i: "find_in_collections f ps w1 = (Inr r, w')"
      unfolding findAcrossActiveProjectionCollections_def c option.case bindG_Inr by blast
    from keepsD [OF keeps_QueryG [OF records_servesD(8) [OF s]] p] find_in_collections_Inr [where view = view and f = f and Q = Q, OF k q i] show ?thesis by simp
  qed
  assume run: "find_record (rv_db s) t ws f l w = (Inr r, w')"
  then consider (first) "?across w = (Inr r, w')"
    | (base) e w1 where "?across w = (Inl e, w1)"
        "bindG (activeRecordCollection (rv_db s) t ws []) ?tail w1 = (Inr r, w')"
    unfolding find_record_def c option.case Let_def catchG_Inr ret_Inr by blast
  then show "\<exists>n. Q (view w) n r"
  proof cases
    case first
    then show ?thesis by (rule aq)
  next
    case (base e w1)
    from keepsD [OF ak base(1)] have v1: "view w1 = view w" .
    from base(2) obtain n w2 where n: "activeRecordCollection (rv_db s) t ws [] w1 = (Inr n, w2)"
      and tl: "?tail n w2 = (Inr r, w')" unfolding bindG_Inr by blast
    from keepsD [OF activeRecordCollection_keeps [OF s] n] v1 have v2: "view w2 = view w" by simp
    obtain x w3 where x: "f n w2 = (x, w3)" by force
    with k [of n w2] v2 have v3: "view w3 = view w" by simp
    show ?thesis
    proof (cases x)
      case NoDocuments
      with tl x aq [of w3 r w'] v3 show ?thesis by (auto simp: catchG_Inr fail_Inr ret_Inr)
    next
      case (Found d)
      with tl x q [of n w2 d w3] v2 show ?thesis by auto
    qed (use tl x in simp)
  qed
qed

lemma records_find_keeps:
  "records_serves s M view \<Longrightarrow> view (snd (c_FindOne (rd_records (rv_db s) n) k w)) = view w"
  using find_reads(1) [OF records_servesD(1)] by (metis prod.collapse)

lemma GetRecord_keeps: "records_serves s M view \<Longrightarrow> keeps view (records_GetRecord (rv_db s) t ws i)"
  unfolding records_GetRecord_def by (intro find_record_reads(1) records_find_keeps)

lemma GetRecord_Inr:
  assumes s: "records_serves s M view" and run: "records_GetRecord (rv_db s) t ws i w = (Inr r, w')"
  shows "\<exists>n. x_records (view w) n (t, ws, i) = Some r"
proof (rule find_record_reads(2) [OF s records_find_keeps [OF s] _ run [unfolded records_GetRecord_def]])
  fix n w w' r assume "c_FindOne (rd_records (rv_db s) n) (t, ws, i) w = (Found r, w')"
  from find_reads(2) [OF records_servesD(1) [OF s] this refl] show "x_records (view w) n (t, ws, i) = Some r"
    by (simp add: get_collection_def)
qed

lemma explain_record_miss_fails [simp]: "explain_record_miss db t ws i w = (Inr r, w') \<longleftrightarrow> False"
  by (simp add: explain_record_miss_def bindG_Inr fail_Inr)

lemma records_CreateRecord_Inr:
  assumes s: "records_serves s M view" and run: "records_CreateRecord (rv_db s) r w = (Inr u, w')"
  shows "Record_Validate (rd_bson (rv_db s)) r = None \<and> x_records (view w) records_collection (doc_key r) = None
    \<and> view w' = record_put records_collection (doc_key r) (Some r) (view w)"
  using run InsertNew_Inr [OF records_servesD(1) [OF s], of records_collection r]
  by (auto simp: records_CreateRecord_def go_success record_put_def get_collection_def)

lemma records_UpdateRecord_Inr:
  assumes s: "records_serves s M view" and run: "records_UpdateRecord (rv_db s) r expected w = (Inr u, w')"
  defines "n \<equiv> active_name (view w) (rec_TenantID r) (rec_WorkspaceID r) (rec_TableID r)"
  shows "\<exists>old. x_records (view w) n (doc_key r) = Some old \<and> rec_RecordVersion old = expected \<and> u = set_record r old
    \<and> view w' = record_put n (doc_key r) (Some u) (view w)"
proof -
  from run obtain m w1 where m: "activeRecordCollection (rv_db s) (rec_TenantID r) (rec_WorkspaceID r) (rec_TableID r) w = (Inr m, w1)"
    and upd: "(case c_FindOneAndUpdate (rd_records (rv_db s) m) (doc_key r) (at_version expected) (set_record r) w1 of
         (Found r', w') \<Rightarrow> (Inr r', w')
       | (FindError m, w') \<Rightarrow>
           (Inl (if rd_IsDuplicateKeyError (rv_db s) m then RecordsErr ErrRecordExists else Wrap ''update record'' (External m)), w')
       | (NoDocuments, w') \<Rightarrow> explain_record_miss (rv_db s) (rec_TenantID r) (rec_WorkspaceID r) (rec_ID r) w') = (Inr u, w')"
    by (auto simp: records_UpdateRecord_def go_success)
  have mn: "m = n" using activeRecordCollection_Inr [OF s m] by (simp add: n_def)
  have v: "view w1 = view w" using keepsD [OF activeRecordCollection_keeps [OF s] m] .
  obtain x w2 where i: "c_FindOneAndUpdate (rd_records (rv_db s) m) (doc_key r) (at_version expected) (set_record r) w1 = (x, w2)"
    by force
  have "FindAndUpdateG (rd_records (rv_db s) m) (doc_key r) (at_version expected) (set_record r) l w1 = (Inr (Some u), w')" for l
    using upd i by (cases x) (auto simp: FindAndUpdateG_def)
  from FindAndUpdateG_Inr [OF records_servesD(1) [OF s] this] v show ?thesis
    by (auto simp: mn get_collection_def record_put_def at_version_def)
qed

lemma records_DeleteRecord_Inr:
  assumes s: "records_serves s M view" and run: "records_DeleteRecord (rv_db s) t ws i expected w = (Inr u, w')"
  shows "\<exists>old. x_records (view w) records_collection (t, ws, i) = Some old \<and> rec_RecordVersion old = expected
    \<and> view w' = record_put records_collection (t, ws, i) None (view w)"
proof -
  from run obtain m w1 where m: "activeRecordCollection (rv_db s) t ws [] w = (Inr m, w1)"
    and del: "(case rd_DeleteRecord (rv_db s) m (t, ws, i) (at_version expected) w1 of
         (Inl m, w') \<Rightarrow> (Inl (Wrap ''delete record'' (External m)), w')
       | (Inr n, w') \<Rightarrow> if n = 1 then (Inr (), w') else explain_record_miss (rv_db s) t ws i w') = (Inr u, w')"
    by (auto simp: records_DeleteRecord_def go_success)
  have mn: "m = records_collection" using activeRecordCollection_Inr [OF s m] by (simp add: active_name_def)
  have v: "view w1 = view w" using keepsD [OF activeRecordCollection_keeps [OF s] m] .
  obtain x w2 where d: "rd_DeleteRecord (rv_db s) m (t, ws, i) (at_version expected) w1 = (x, w2)" by force
  with del have x: "x = Inr 1" "w2 = w'" by (cases x; auto split: if_splits)+
  from deleted_one [OF records_servesD(2) [OF s] d [unfolded x]] v show ?thesis
    unfolding mn get_collection_def record_put_def at_version_def by simp
qed

section \<open>The calls as effects\<close>

definition keyed_records :: "RecordsDB \<Rightarrow> bool" where
  "keyed_records v \<longleftrightarrow> (\<forall>n k r. x_records v n k = Some r \<longrightarrow> doc_key r = k)"

lemma keyed_recordsD: "keyed_records v \<Longrightarrow> x_records v n k = Some r \<Longrightarrow> doc_key r = k"
  unfolding keyed_records_def by blast

definition record_outcome :: "('w, 'v) RecordService \<Rightarrow> WorkspaceMembership set \<Rightarrow> record_call \<Rightarrow> RecordsDB \<Rightarrow> Record \<Rightarrow> RecordsDB \<Rightarrow> bool" where
  "record_outcome s M call v r v' \<longleftrightarrow> (\<exists>h. receipted (record_call_scope call) h (record_effect s M call) v r v')"

lemma post_outcome:
  "post view (receipted (record_call_scope call) h (record_effect s M call)) m w \<Longrightarrow> post view (record_outcome s M call) m w"
  by (erule post_weaken) (auto simp: record_outcome_def)

lemma require_record_key_keeps: "keeps view (require_record_key input)"
  unfolding require_record_key_def by (intro keeping)

lemma updated_record_simps [simp]:
  "doc_key (updated_record p i ts rs now r) = doc_key r" "rec_TableID (updated_record p i ts rs now r) = rec_TableID r"
  "rec_TenantID (updated_record p i ts rs now r) = rec_TenantID r" "rec_UpdatedAt (updated_record p i ts rs now r) = now"
  "rec_WorkspaceID (updated_record p i ts rs now r) = rec_WorkspaceID r"
  by (simp_all add: updated_record_def doc_key_def)

lemma set_record_simps [simp]:
  "doc_key (set_record r old) = doc_key old" "rec_TableID (set_record r old) = rec_TableID old"
  "rec_UpdatedAt (set_record r old) = rec_UpdatedAt r" "rec_RecordVersion (set_record r old) = rec_RecordVersion old + 1"
  by (simp_all add: set_record_def doc_key_def)

lemma record_scope_calls:
  "record_scope input ''record.create'' = record_call_scope (CreateRecordCall prin input)"
  "record_scope input ''record.update'' = record_call_scope (UpdateRecordCall prin input n)"
  "record_scope input ''record.delete'' = record_call_scope (DeleteRecordCall prin input n)"
  by (simp_all add: record_call_scope_def)

lemma commit_create_post:
  assumes s: "records_serves s M view"
    and g: "granted M prin (ri_TenantID input) (ri_WorkspaceID input) ActionRecordWrite"
    and c: "custom_table (view w) input table" "accepted s input table tags relations"
  shows "post view (record_outcome s M (CreateRecordCall prin input)) (commit_create s prin input table tags relations h) w"
  unfolding commit_create_def recordReceipt_def completeRecord_def Let_def record_scope_calls(1) [of input prin]
proof (rule post_outcome [where h = h], intro receipt_store.post_receipt [OF records_servesD(4) [OF s]]
    post_read [OF records_servesD(7) [OF s]] post_check
    receipt_store.post_completed [OF records_servesD(4) [OF s] records_servesD(5) [OF s]])
  fix w1 now w2 r w3
  assume new: "x_receipts (view w) (record_call_scope (CreateRecordCall prin input)) = None" and v: "view w1 = view w" "view w2 = view w1"
  show "x_receipts (view w2) (record_call_scope (CreateRecordCall prin input)) = None" using new v by simp
  assume "bindG (records_CreateRecord (rv_db s) (new_record prin input table tags relations now))
    (\<lambda>_. ret (new_record prin input table tags relations now)) w2 = (Inr r, w3)"
  then show "record_effect s M (CreateRecordCall prin input) (view w2) r (view w3)
      (record_entry prin input ''record.create'' r [] (hashRecord s r) now)
    \<and> x_receipts (view w3) = x_receipts (view w2) \<and> x_audit (view w3) = x_audit (view w2)"
    using g c v by (auto simp: go_success dest!: records_CreateRecord_Inr [OF s]) blast
qed

lemma commit_update_post:
  assumes s: "records_serves s M view" and w: "keyed_records (view w)" and n: "1 \<le> n"
    and g: "granted M prin (ri_TenantID input) (ri_WorkspaceID input) ActionRecordWrite"
    and c: "custom_table (view w) input table" "accepted s input table tags relations"
  shows "post view (record_outcome s M (UpdateRecordCall prin input n)) (commit_update s prin input n tags relations h) w"
  unfolding commit_update_def recordReceipt_def completeRecord_def Let_def record_scope_calls(2) [of input prin n]
proof (rule post_outcome [where h = h], intro receipt_store.post_receipt [OF records_servesD(4) [OF s]]
    post_read [OF GetRecord_keeps [OF s]] post_if post_fail post_read [OF records_servesD(7) [OF s]] post_check
    receipt_store.post_completed [OF records_servesD(4) [OF s] records_servesD(5) [OF s]])
  fix w1 existing w2 now w3 r w4
  let ?call = "UpdateRecordCall prin input n" and ?upd = "updated_record prin input tags relations now existing"
  assume new: "x_receipts (view w) (record_call_scope ?call) = None"
    and v: "view w1 = view w" "view w2 = view w1" "view w3 = view w2"
    and get: "records_GetRecord (rv_db s) (ri_TenantID input) (ri_WorkspaceID input) (ri_ID input) w1 = (Inr existing, w2)"
    and table: "\<not> rec_TableID existing \<noteq> ri_TableID input"
  show "x_receipts (view w3) (record_call_scope ?call) = None" using new v by simp
  assume upd: "records_UpdateRecord (rv_db s) ?upd n w3 = (Inr r, w4)"
  obtain m where m: "x_records (view w) m (ri_TenantID input, ri_WorkspaceID input, ri_ID input) = Some existing"
    using GetRecord_Inr [OF s get] v by auto
  from keyed_recordsD [OF w m] have key: "rec_TenantID existing = ri_TenantID input" "rec_WorkspaceID existing = ri_WorkspaceID input"
    by (simp_all add: doc_key_def)
  let ?n = "active_name (view w) (ri_TenantID input) (ri_WorkspaceID input) (ri_TableID input)"
  from records_UpdateRecord_Inr [OF s upd] v key table obtain old where "x_records (view w) ?n (doc_key existing) = Some old"
    "rec_RecordVersion old = n" "r = set_record ?upd old" "view w4 = record_put ?n (doc_key existing) (Some r) (view w)" by auto
  moreover have "found_in (view w) input existing" using m table by (auto simp: found_in_def)
  moreover from calculation(3) have "rec_UpdatedAt r = now" by simp
  ultimately show "record_effect s M ?call (view w3) r (view w4)
      (record_entry prin input ''record.update'' r (hashRecord s existing) (hashRecord s r) (rec_UpdatedAt r))
    \<and> x_receipts (view w4) = x_receipts (view w3) \<and> x_audit (view w4) = x_audit (view w3)"
    using g c n v by (simp del: fun_upd_apply) blast
qed

lemma commit_delete_post:
  assumes s: "records_serves s M view" and n: "1 \<le> n"
    and g: "granted M prin (ri_TenantID input) (ri_WorkspaceID input) ActionRecordWrite"
    and c: "custom_table (view w) input table"
  shows "post view (record_outcome s M (DeleteRecordCall prin input n)) (commit_delete s prin input n h) w"
  unfolding commit_delete_def recordReceipt_def completeRecord_def Let_def record_scope_calls(3) [of input prin n]
proof (rule post_outcome [where h = h], intro receipt_store.post_receipt [OF records_servesD(4) [OF s]]
    post_read [OF GetRecord_keeps [OF s]] post_if post_fail
    receipt_store.post_completed [OF records_servesD(4) [OF s] records_servesD(5) [OF s]])
  fix w1 existing w2 now w3
  let ?call = "DeleteRecordCall prin input n" and ?k = "(ri_TenantID input, ri_WorkspaceID input, ri_ID input)"
  assume new: "x_receipts (view w) (record_call_scope ?call) = None" and v: "view w1 = view w" "view w2 = view w1"
    and get: "records_GetRecord (rv_db s) (ri_TenantID input) (ri_WorkspaceID input) (ri_ID input) w1 = (Inr existing, w2)"
    and table: "\<not> rec_TableID existing \<noteq> ri_TableID input"
  show "x_receipts (view w2) (record_call_scope ?call) = None" using new v by simp
  assume "bindG (records_DeleteRecord (rv_db s) (ri_TenantID input) (ri_WorkspaceID input) (ri_ID input) n)
    (\<lambda>_. nowG (rv_Now s)) w2 = (Inr now, w3)"
  then obtain w' where del: "records_DeleteRecord (rv_db s) (ri_TenantID input) (ri_WorkspaceID input) (ri_ID input) n w2 = (Inr (), w')"
    and t: "nowG (rv_Now s) w' = (Inr now, w3)" by (auto simp: bindG_Inr)
  from records_DeleteRecord_Inr [OF s del] keepsD [OF records_servesD(7) [OF s] t] v
  obtain old where "x_records (view w) records_collection ?k = Some old" "rec_RecordVersion old = n"
    "view w3 = record_put records_collection ?k None (view w)" by auto
  moreover have "found_in (view w) input existing"
    using GetRecord_Inr [OF s get] table v by (auto simp: found_in_def)
  ultimately show "record_effect s M ?call (view w2) existing (view w3)
      (record_entry prin input ''record.delete'' existing (hashRecord s existing) [] now)
    \<and> x_receipts (view w3) = x_receipts (view w2) \<and> x_audit (view w3) = x_audit (view w2)"
    using g c n v by (simp del: fun_upd_apply) blast
qed

lemma writableTable_custom:
  "records_serves s M view \<Longrightarrow>
     writableTable s (ri_TenantID input) (ri_WorkspaceID input) (ri_TableID input) w = (Inr table, w') \<Longrightarrow>
     custom_table (view w) input table"
  by (drule (1) writableTable_Inr) (simp add: custom_table_def)

lemma record_body_post:
  assumes s: "records_serves s M view" and w: "keyed_records (view w)"
  shows "post view (record_outcome s M call) (record_body s call) w"
proof (cases call)
  case (CreateRecordCall prin input)
  show ?thesis unfolding CreateRecordCall record_body.simps create_or_replay_def
  proof (intro post_read [OF recordDependencies_keeps [OF s]] post_read [OF writableTable_keeps [OF s]]
      post_read [OF require_record_key_keeps] post_read [OF check_record_input_keeps [OF s]] post_split post_pure commit_create_post [OF s])
    fix u w1 table w2 u' w3 p w4 d y tags relations
    assume "recordDependencies (Some s) prin (ri_TenantID input) (ri_WorkspaceID input) ActionRecordWrite w = (Inr u, w1)"
    then show "granted M prin (ri_TenantID input) (ri_WorkspaceID input) ActionRecordWrite" by (rule recordDependencies_granted [OF s])
    assume "writableTable s (ri_TenantID input) (ri_WorkspaceID input) (ri_TableID input) w1 = (Inr table, w2)"
      and "view w1 = view w" "view w2 = view w1" "view w3 = view w2" "view w4 = view w3"
    with writableTable_custom [OF s this(1)] show "custom_table (view w4) input table" by simp
    assume "check_record_input s input table w3 = (Inr p, w4)" "p = (d, y)" "y = (tags, relations)"
    then show "accepted s input table tags relations"
      using check_record_input_Inr [of s input table w3 d tags relations w4] by simp
  qed
next
  case (UpdateRecordCall prin input n)
  show ?thesis unfolding UpdateRecordCall record_body.simps update_or_replay_def
  proof (intro post_read [OF recordDependencies_keeps [OF s]] post_read [OF writableTable_keeps [OF s]] post_if post_fail
      post_read [OF require_record_key_keeps] post_read [OF check_record_input_keeps [OF s]] post_split post_pure commit_update_post [OF s])
    fix u w1 table w2 u' w3 p w4 d y tags relations
    assume "recordDependencies (Some s) prin (ri_TenantID input) (ri_WorkspaceID input) ActionRecordWrite w = (Inr u, w1)"
    then show "granted M prin (ri_TenantID input) (ri_WorkspaceID input) ActionRecordWrite" by (rule recordDependencies_granted [OF s])
    assume "writableTable s (ri_TenantID input) (ri_WorkspaceID input) (ri_TableID input) w1 = (Inr table, w2)"
      and v: "view w1 = view w" "view w2 = view w1" "view w3 = view w2" "view w4 = view w3"
    with writableTable_custom [OF s this(1)] show "custom_table (view w4) input table" by simp
    show "keyed_records (view w4)" using w v by simp
    assume "\<not> n < 1" then show "1 \<le> n" by simp
    assume "check_record_input s input table w3 = (Inr p, w4)" "p = (d, y)" "y = (tags, relations)"
    then show "accepted s input table tags relations"
      using check_record_input_Inr [of s input table w3 d tags relations w4] by simp
  qed
next
  case (DeleteRecordCall prin input n)
  show ?thesis unfolding DeleteRecordCall record_body.simps delete_or_replay_def
  proof (intro post_read [OF recordDependencies_keeps [OF s]] post_read [OF writableTable_keeps [OF s]] post_if post_fail
      post_read [OF require_record_key_keeps] post_pure commit_delete_post [OF s])
    fix u w1 table w2 u' w3
    assume "recordDependencies (Some s) prin (ri_TenantID input) (ri_WorkspaceID input) ActionRecordWrite w = (Inr u, w1)"
    then show "granted M prin (ri_TenantID input) (ri_WorkspaceID input) ActionRecordWrite" by (rule recordDependencies_granted [OF s])
    assume "\<not> n < 1" then show "1 \<le> n" by simp
    assume "writableTable s (ri_TenantID input) (ri_WorkspaceID input) (ri_TableID input) w1 = (Inr table, w2)"
      and "view w1 = view w" "view w2 = view w1" "view w3 = view w2"
    with writableTable_custom [OF s this(1)] show "custom_table (view w3) input table" by simp
  qed
qed

end
