(* ===== verification/RecordRuns.thy ===== *)
theory RecordRuns
  imports Records
begin

text \<open>
  Sequences of record calls: what is never lost, what a repeated call answers, what reaches the
  feed, and that records of projection tables are left alone. A database in memory shows that
  the hypotheses can hold.
\<close>

section \<open>One call with its publication\<close>

definition with_published :: "('w, 'v) RecordService \<Rightarrow> record_call \<Rightarrow> Record \<Rightarrow> RecordsDB \<Rightarrow> RecordsDB" where
  "with_published s call r v =
     (case rv_feed s of None \<Rightarrow> v | Some _ \<Rightarrow> v\<lparr>x_published := x_published v @ [record_call_change call r]\<rparr>)"

lemma with_published_simps [simp]:
  "x_records (with_published s call r v) = x_records v" "x_receipts (with_published s call r v) = x_receipts v"
  "x_tables (with_published s call r v) = x_tables v" "x_pointers (with_published s call r v) = x_pointers v"
  "x_audit (with_published s call r v) = x_audit v"
  by (simp_all add: with_published_def split: option.split)

lemma record_exec_run:
  "record_exec s call w = (case record_body s call w of
      (Inl e, w') \<Rightarrow> (Inl e, w')
    | (Inr r, w') \<Rightarrow> (Inr r, case rv_feed s of None \<Rightarrow> w' | Some publish \<Rightarrow> publish (record_call_change call r) w'))"
  by (cases call) (auto simp: CreateRecord_def UpdateRecord_def DeleteRecord_def bindG_def publishRecordChange_def ret_def
      split: prod.split sum.split option.split)

lemma record_exec_effect:
  assumes s: "records_serves s M view" and k: "keyed_records (view w)" and run: "record_exec s call w = (x, w')"
  shows "case x of
      Inr r \<Rightarrow> \<exists>v. record_outcome s M call (view w) r v \<and> view w' = with_published s call r v
    | Inl e \<Rightarrow> view w' = view w \<or> (\<exists>m r. e = External m \<and> record_outcome s M call (view w) r (view w'))"
proof (cases "record_body s call" w rule: run_cases)
  case (failed e w1)
  with run postD [OF record_body_post [OF s k] failed] show ?thesis by (auto simp: record_exec_run)
next
  case (finished r w1)
  with run have x: "x = Inr r" and w': "w' = (case rv_feed s of None \<Rightarrow> w1 | Some publish \<Rightarrow> publish (record_call_change call r) w1)"
    by (simp_all add: record_exec_run)
  from postD [OF record_body_post [OF s k] finished] have "record_outcome s M call (view w) r (view w1)" by simp
  moreover have "view w' = with_published s call r (view w1)"
    using records_servesD(11) [OF s] by (simp add: w' with_published_def split: option.split)
  ultimately show ?thesis unfolding x by auto
qed

section \<open>What every call keeps\<close>

definition projection_table :: "RecordsDB \<Rightarrow> Record \<Rightarrow> bool" where
  "projection_table v r \<longleftrightarrow>
     (\<exists>table. x_tables v (rec_TenantID r, rec_WorkspaceID r, rec_TableID r) = Some table \<and> tb_Kind table = TableKindProjection)"

text \<open>
  Staged collections have records of projection tables only, and only projection tables have an
  active read pointer.
\<close>

definition separated :: "RecordsDB \<Rightarrow> bool" where
  "separated v \<longleftrightarrow>
     (\<forall>n k r. x_records v n k = Some r \<longrightarrow> n \<noteq> records_collection \<longrightarrow> projection_table v r)
     \<and> (\<forall>t ws tb p. x_pointers v (t, ws, tb, ProjectionReadPointerActive) = Some p \<longrightarrow>
          (\<exists>table. x_tables v (t, ws, tb) = Some table \<and> tb_Kind table = TableKindProjection))"

definition records_grow :: "RecordsDB \<Rightarrow> RecordsDB \<Rightarrow> bool" where
  "records_grow v v' \<longleftrightarrow> x_receipts v \<subseteq>\<^sub>m x_receipts v' \<and> (\<exists>entries. x_audit v' = x_audit v @ entries)
     \<and> x_tables v' = x_tables v \<and> x_pointers v' = x_pointers v"

definition same_projections :: "RecordsDB \<Rightarrow> RecordsDB \<Rightarrow> bool" where
  "same_projections v v' \<longleftrightarrow> (\<forall>n k r. projection_table v r \<longrightarrow> (x_records v' n k = Some r \<longleftrightarrow> x_records v n k = Some r))"

lemma records_grow_refl: "records_grow v v"
  by (simp add: records_grow_def)

lemma records_grow_trans: "records_grow a b \<Longrightarrow> records_grow b c \<Longrightarrow> records_grow a c"
  unfolding records_grow_def using map_le_trans by (smt (verit) append_assoc)

lemma projection_table_cong: "x_tables v' = x_tables v \<Longrightarrow> projection_table v' = projection_table v"
  by (simp add: projection_table_def fun_eq_iff)

text \<open>An effect replaces one record, of a custom table, in the base collection.\<close>

lemma custom_not_projection:
  "custom_table v input table \<Longrightarrow> rec_TenantID r = ri_TenantID input \<Longrightarrow> rec_WorkspaceID r = ri_WorkspaceID input \<Longrightarrow>
     rec_TableID r = ri_TableID input \<Longrightarrow> \<not> projection_table v r"
  by (auto simp: custom_table_def projection_table_def)

lemma custom_in_base:
  assumes "separated v" "custom_table v input table"
  shows "active_name v (ri_TenantID input) (ri_WorkspaceID input) (ri_TableID input) = records_collection"
    and "keyed_records v \<Longrightarrow> found_in v input r \<Longrightarrow>
      x_records v records_collection (ri_TenantID input, ri_WorkspaceID input, ri_ID input) = Some r \<and> \<not> projection_table v r"
proof -
  have "x_pointers v (ri_TenantID input, ri_WorkspaceID input, ri_TableID input, ProjectionReadPointerActive) = None"
    using assms unfolding separated_def custom_table_def by (metis option.exhaust option.inject)
  then show "active_name v (ri_TenantID input) (ri_WorkspaceID input) (ri_TableID input) = records_collection"
    by (simp add: active_name_def)
  assume k: "keyed_records v" and "found_in v input r"
  then obtain n where n: "x_records v n (ri_TenantID input, ri_WorkspaceID input, ri_ID input) = Some r"
    and t: "rec_TableID r = ri_TableID input" unfolding found_in_def by blast
  from keyed_recordsD [OF k n] have "rec_TenantID r = ri_TenantID input" "rec_WorkspaceID r = ri_WorkspaceID input"
    by (simp_all add: doc_key_def)
  with custom_not_projection [OF assms(2)] t have np: "\<not> projection_table v r" by blast
  with assms(1) n have "n = records_collection" unfolding separated_def by blast
  with n np show "x_records v records_collection (ri_TenantID input, ri_WorkspaceID input, ri_ID input) = Some r \<and> \<not> projection_table v r"
    by simp
qed

lemma record_effect_put:
  assumes "record_effect s M call v r v' entry" "keyed_records v"
  obtains n k d where "v' = record_put n k d v" "\<And>d'. d = Some d' \<Longrightarrow> doc_key d' = k"
    "separated v \<Longrightarrow> n = records_collection \<and> (\<forall>d'. d = Some d' \<or> x_records v n k = Some d' \<longrightarrow> \<not> projection_table v d')"
proof (cases call)
  case (CreateRecordCall p i)
  with assms(1) obtain table tags rels now where c: "custom_table v i table" "r = new_record p i table tags rels now"
    "x_records v records_collection (doc_key r) = None" "v' = record_put records_collection (doc_key r) (Some r) v" by auto
  moreover have "\<not> projection_table v r" using custom_not_projection [OF c(1)] by (simp add: c(2) new_record_def)
  ultimately show ?thesis by (intro that) auto
next
  case (UpdateRecordCall p i m)
  let ?n = "active_name v (ri_TenantID i) (ri_WorkspaceID i) (ri_TableID i)"
  from UpdateRecordCall assms(1) obtain table tags rels now existing old where c: "custom_table v i table"
    "found_in v i existing" "x_records v ?n (doc_key existing) = Some old"
    "r = set_record (updated_record p i tags rels now existing) old" "v' = record_put ?n (doc_key existing) (Some r) v" by auto
  from keyed_recordsD [OF assms(2) c(3)] have key: "doc_key old = doc_key existing" .
  have "rec_TenantID r = rec_TenantID old" "rec_WorkspaceID r = rec_WorkspaceID old" "rec_TableID r = rec_TableID old"
    by (simp_all add: c(4) set_record_def)
  then have same: "projection_table v r = projection_table v old" by (simp add: projection_table_def)
  have "?n = records_collection \<and> (\<forall>d'. Some r = Some d' \<or> x_records v ?n (doc_key existing) = Some d' \<longrightarrow> \<not> projection_table v d')"
    if sep: "separated v"
  proof -
    from custom_in_base [OF sep c(1)] assms(2) c(2) have n: "?n = records_collection"
      and e: "x_records v records_collection (ri_TenantID i, ri_WorkspaceID i, ri_ID i) = Some existing" "\<not> projection_table v existing"
      by auto
    from keyed_recordsD [OF assms(2) e(1)] e(1) c(3) n have "old = existing" by simp
    with e(2) n c(3) same show ?thesis by auto
  qed
  with c(5) key show ?thesis by (intro that [of ?n "doc_key existing" "Some r"]) (auto simp: c(4))
next
  case (DeleteRecordCall p i m)
  let ?k = "(ri_TenantID i, ri_WorkspaceID i, ri_ID i)"
  from DeleteRecordCall assms(1) obtain table where c: "custom_table v i table" "found_in v i r"
    "v' = record_put records_collection ?k None v" by auto
  show ?thesis
  proof (rule that [OF c(3)])
    assume "separated v"
    from custom_in_base(2) [OF this c(1) assms(2) c(2)]
    show "records_collection = records_collection
      \<and> (\<forall>d'. None = Some d' \<or> x_records v records_collection ?k = Some d' \<longrightarrow> \<not> projection_table v d')" by simp
  qed simp
qed

definition record_keeps :: "RecordsDB \<Rightarrow> RecordsDB \<Rightarrow> bool" where
  "record_keeps v v' \<longleftrightarrow> keyed_records v' \<and> records_grow v v' \<and> (separated v \<longrightarrow> separated v' \<and> same_projections v v')"

lemma record_keeps_refl: "keyed_records v \<Longrightarrow> record_keeps v v"
  by (simp add: record_keeps_def records_grow_refl same_projections_def)

lemma record_keeps_trans: "record_keeps a b \<Longrightarrow> record_keeps b c \<Longrightarrow> record_keeps a c"
proof -
  assume "record_keeps a b" "record_keeps b c"
  moreover from this have "x_tables b = x_tables a" by (simp add: record_keeps_def records_grow_def)
  then have "projection_table b = projection_table a" by (rule projection_table_cong)
  ultimately show ?thesis unfolding record_keeps_def same_projections_def using records_grow_trans by (metis (no_types))
qed

lemma record_keeps_published:
  "record_keeps v v' \<Longrightarrow> record_keeps v (with_published s call r v')"
proof -
  let ?v = "with_published s call r v'"
  have "projection_table ?v = projection_table v'" by (rule projection_table_cong) simp
  then have "separated ?v = separated v'" "keyed_records ?v = keyed_records v'" "same_projections v ?v = same_projections v v'"
    "records_grow v ?v = records_grow v v'"
    unfolding separated_def keyed_records_def same_projections_def records_grow_def with_published_simps by (rule arg_cong refl | simp only:)+
  then show "record_keeps v v' \<Longrightarrow> record_keeps v ?v" unfolding record_keeps_def by blast
qed

lemma record_keeps_put:
  assumes "keyed_records v" "\<And>d'. d = Some d' \<Longrightarrow> doc_key d' = k" "x_receipts v key = None"
    and "separated v \<Longrightarrow> n = records_collection \<and> (\<forall>d'. d = Some d' \<or> x_records v n k = Some d' \<longrightarrow> \<not> projection_table v d')"
  shows "record_keeps v (recorded entry (receipt_for key h r) (record_put n k d v))"
proof -
  let ?v = "recorded entry (receipt_for key h r) (record_put n k d v)"
  have x: "x_records ?v = (x_records v)(n := (x_records v n)(k := d))" "x_tables ?v = x_tables v" "x_pointers ?v = x_pointers v"
    "x_receipts ?v = (x_receipts v)(key \<mapsto> receipt_for key h r)" "x_audit ?v = x_audit v @ [entry]" by simp_all
  have p: "projection_table ?v = projection_table v" using x(2) by (rule projection_table_cong)
  have "keyed_records ?v" using assms(1,2) unfolding keyed_records_def x by auto
  moreover have "records_grow v ?v" using assms(3) unfolding records_grow_def x by (auto simp: map_le_def)
  moreover have "separated ?v \<and> same_projections v ?v" if sep: "separated v"
  proof -
    from assms(4) [OF sep] have n: "n = records_collection" and d: "\<And>d'. d = Some d' \<Longrightarrow> \<not> projection_table v d'"
      "\<And>d'. x_records v n k = Some d' \<Longrightarrow> \<not> projection_table v d'" by blast+
    have "separated ?v" using sep n unfolding separated_def p x by simp
    moreover have "x_records ?v m j = Some q \<longleftrightarrow> x_records v m j = Some q" if "projection_table v q" for m j q
      using that d by (cases "m = n \<and> j = k") (auto simp: x)
    ultimately show ?thesis unfolding same_projections_def by blast
  qed
  ultimately show ?thesis unfolding record_keeps_def by blast
qed

lemma record_outcome_keeps:
  assumes "record_outcome s M call v r v'" "keyed_records v"
  shows "record_keeps v v'"
proof -
  from assms(1) obtain h where h: "receipted (record_call_scope call) h (record_effect s M call) v r v'"
    unfolding record_outcome_def by blast
  show ?thesis
  proof (cases "x_receipts v (record_call_scope call)")
    case None
    with h obtain v1 entry where e: "record_effect s M call v r v1 entry"
      and v': "v' = recorded entry (receipt_for (record_call_scope call) h r) v1" by (auto simp: receipted_def)
    show ?thesis
    proof (rule record_effect_put [OF e assms(2)])
      fix n k d assume "v1 = record_put n k d v" "\<And>d'. d = Some d' \<Longrightarrow> doc_key d' = k"
        "separated v \<Longrightarrow> n = records_collection \<and> (\<forall>d'. d = Some d' \<or> x_records v n k = Some d' \<longrightarrow> \<not> projection_table v d')"
      with record_keeps_put [OF assms(2) _ None] show ?thesis unfolding v' by blast
    qed
  next
    case (Some x)
    with h record_keeps_refl [OF assms(2)] show ?thesis by (simp add: receipted_def)
  qed
qed

lemma record_exec_keeps:
  assumes s: "records_serves s M view" and k: "keyed_records (view w)"
  shows "record_keeps (view w) (view (snd (record_exec s call w)))"
proof -
  obtain x w' where run: "record_exec s call w = (x, w')" by force
  from record_exec_effect [OF s k run] show ?thesis
    using record_outcome_keeps [OF _ k] record_keeps_published record_keeps_refl [OF k] run by (cases x) fastforce+
qed

lemma record_run_keeps:
  assumes s: "records_serves s M view"
  shows "keyed_records (view w) \<Longrightarrow> record_keeps (view w) (view (record_run s calls w))"
proof (induction calls arbitrary: w)
  case Nil
  then show ?case by (simp add: record_run_def record_keeps_refl)
next
  case (Cons call calls)
  have r: "record_run s (call # calls) w = record_run s calls (snd (record_exec s call w))" by (simp add: record_run_def)
  note one = record_exec_keeps [OF s Cons.prems, of call]
  with Cons.IH have "record_keeps (view (snd (record_exec s call w))) (view (record_run s calls (snd (record_exec s call w))))"
    by (simp add: record_keeps_def)
  with one show ?case unfolding r by (rule record_keeps_trans)
qed

section \<open>The properties\<close>

text \<open>
  C14: Whatever record calls are made, by anyone and with any failures of the database, the
  records of projection tables stay exactly as they are, in every collection; and tables and
  read pointers stay separated, so this holds for the next calls too.
\<close>

theorem projection_read_only:
  assumes "records_serves s M view" "keyed_records (view w)" "separated (view w)" "w' = record_run s calls w"
  shows "separated (view w') \<and> (\<forall>n k r. projection_table (view w) r \<longrightarrow>
    (x_records (view w') n k = Some r \<longleftrightarrow> x_records (view w) n k = Some r))"
  using record_run_keeps [OF assms(1,2), of calls] assms(3) unfolding assms(4) record_keeps_def same_projections_def by blast

text \<open>
  C13: After a record call succeeded, the same call made again after any other calls either
  reports an error and changes nothing, or answers the same record and changes nothing but that
  the change is handed to the feed again, with the same deduplication key. The first time, it
  had been answered from a receipt, or the record was changed as \<open>record_effect\<close> says,
  together with its audit entry and its receipt.
\<close>

theorem record_replay:
  assumes "records_serves s M view" "keyed_records (view w)"
    and "record_exec s call w = (Inr r, w1)" "w2 = record_run s calls w1" "record_exec s call w2 = (x, w3)"
  shows "(case x of Inl e \<Rightarrow> view w3 = view w2 | Inr r' \<Rightarrow> r' = r \<and> view w3 = with_published s call r (view w2))
    \<and> (view w1 = with_published s call r (view w)
       \<or> (\<exists>v entry h. record_effect s M call (view w) r v entry
            \<and> view w1 = with_published s call r (recorded entry (receipt_for (record_call_scope call) h r) v)))"
proof -
  let ?k = "record_call_scope call" and ?E = "record_effect s M call"
  from record_exec_effect [OF assms(1-3)] obtain v h where first: "receipted ?k h ?E (view w) r v"
    and w1: "view w1 = with_published s call r v" unfolding record_outcome_def by auto
  from record_exec_keeps [OF assms(1,2), of call] assms(3) have k1: "keyed_records (view w1)" by (simp add: record_keeps_def)
  from record_run_keeps [OF assms(1) k1, of calls] have k2: "keyed_records (view w2)" and g: "x_receipts (view w1) \<subseteq>\<^sub>m x_receipts (view w2)"
    unfolding assms(4) record_keeps_def records_grow_def by blast+
  from receipted_receipts [OF first] g w1 obtain y where y: "x_receipts (view w2) ?k = Some y" "rcp_Result y = r"
    unfolding map_le_def by (metis domI with_published_simps(2))
  have again: "a = r \<and> v' = view w2" if "record_outcome s M call (view w2) a v'" for a v'
    using that receipted_again [OF _ y(1)] y(2) unfolding record_outcome_def by blast
  have "case x of Inl e \<Rightarrow> view w3 = view w2 | Inr r' \<Rightarrow> r' = r \<and> view w3 = with_published s call r (view w2)"
    using record_exec_effect [OF assms(1) k2 assms(5)] again by (cases x) auto
  moreover have "v = view w \<or> (\<exists>v1 entry. ?E (view w) r v1 entry \<and> v = recorded entry (receipt_for ?k h r) v1)"
    using first by (auto simp: receipted_def split: option.splits)
  ultimately show ?thesis unfolding w1 by blast
qed

section \<open>A database in memory\<close>

definition memory_query :: "('v \<Rightarrow> 'q \<Rightarrow> 'd list) \<Rightarrow> ('v, 'q, 'd) query" where
  "memory_query run q v = (Inr (run v q), v)"

definition no_collection :: "('v, 'k, 'd) collection" where
  "no_collection = memory_collection (\<lambda>_. undefined) (\<lambda>_. Map.empty) (\<lambda>_ v. v)"

definition sample_custom :: TableDefinition where
  "sample_custom = \<lparr>tb_ID = ''tb'', tb_TenantID = ''t'', tb_WorkspaceID = ''w'', tb_Name = ''n'', tb_Kind = TableKindCustom,
     tb_SchemaID = ''s'', tb_SchemaVersion = 1, tb_SourcePolicy = None, tb_Version = 1, tb_CreatedBy = identityKey sample_owner,
     tb_UpdatedBy = identityKey sample_owner, tb_CreatedAt = 1, tb_UpdatedAt = 1\<rparr>"

definition sample_projected :: TableDefinition where
  "sample_projected = sample_custom\<lparr>tb_ID := ''p'', tb_Kind := TableKindProjection\<rparr>"

definition memory_records :: "RecordsDB records_database" where
  "memory_records =
     \<lparr>rd_workspaces = no_collection, rd_ListWorkspaces = memory_query (\<lambda>_ _. []),
      rd_tables = memory_collection table_key x_tables put_x_tables, rd_ListTables = memory_query (\<lambda>_ _. []),
      rd_records = (\<lambda>n. memory_collection doc_key (get_collection n) (put_collection n)),
      rd_DeleteRecord = (\<lambda>n. memory_delete (get_collection n) (put_collection n)), rd_FindSource = (\<lambda>_ _ v. (NoDocuments, v)),
      rd_readPointers = Some (memory_collection pointer_key x_pointers put_x_pointers), rd_ActivePointers = memory_query (\<lambda>_ _. []),
      rd_views = no_collection, rd_ListViews = memory_query (\<lambda>_ _. []), rd_indexes = no_collection,
      rd_ListIndexes = memory_query (\<lambda>_ _. []), rd_DeleteIndex = (\<lambda>_ _ v. (Inr 0, v)),
      rd_CreatePhysicalIndex = (\<lambda>_ _ _ v. (None, v)), rd_dictionaries = no_collection,
      rd_ListDictionaries = memory_query (\<lambda>_ _. []), rd_IsDuplicateKeyError = (\<lambda>_. False),
      rd_Transaction = memory_transaction, rd_bson = (\<lambda>_. True)\<rparr>"

definition sample_json_schema :: string where
  "sample_json_schema = [CHR ''{'', CHR 0x22] @ ''$schema'' @ [CHR 0x22, CHR '':'', CHR 0x22] @ Draft202012URI @ [CHR 0x22, CHR ''}'']"

definition sample_definition :: SchemaDefinition where
  "sample_definition = \<lparr>sd_TenantID = ''t'', sd_SchemaID = ''s'', sd_Name = ''n'', sd_Version = 1, sd_Revision = 2,
     sd_Status = SchemaPublished, sd_JSONSchema = sample_json_schema, sd_SemanticTypes = [], sd_ContentHash = [],
     sd_CreatedBy = identityKey sample_owner, sd_PublishedBy = None, sd_CreatedAt = 1, sd_UpdatedAt = 1, sd_PublishedAt = None\<rparr>"

definition sample_record_service :: "(RecordsDB, unit) RecordService" where
  "sample_record_service =
     \<lparr>rv_db = memory_records, rv_schemas = (\<lambda>_ _ _. ret sample_definition), rv_members = (\<lambda>_ _ _. ret sample_membership),
      rv_receipts = memory_receipts, rv_audit = memory_audit_writer, rv_Now = (\<lambda>v. (5, v)), rv_ext_json = Inr,
      rv_library = \<lparr>lib_compile = (\<lambda>_ _. Inr ()), lib_validate = (\<lambda>_ _. None)\<rparr>, rv_marshal = (\<lambda>_. []),
      rv_controlledTags = False, rv_feed = Some (\<lambda>c v. v\<lparr>x_published := x_published v @ [c]\<rparr>)\<rparr>"

text \<open>The receipt store on the database, as the interface of the services has it.\<close>

interpretation record_store: receipt_store "receipt_Find record_receipts memory_receipts"
  "receipt_Save record_receipts memory_receipts" memory_audit_writer "rk_NotFound record_receipts" "\<lambda>v. v"
  by (rule mongo_receipt_store [OF realises_memory [OF part_receipts] memory_audit_adds]) (simp add: record_receipts_def)

definition sample_input :: RecordInput where
  "sample_input = \<lparr>ri_TenantID = ''t'', ri_WorkspaceID = ''w'', ri_TableID = ''tb'', ri_ID = ''r'', ri_Data = ''{}'', ri_Tags = [],
     ri_Relations = None, ri_RequestID = [], ri_IdempotencyKey = ''k''\<rparr>"

definition staged_record :: Record where
  "staged_record = (new_record sample_owner (sample_input\<lparr>ri_ID := ''q'', ri_TableID := ''p''\<rparr>) sample_projected [] [] 3)"

definition sample_records :: RecordsDB where
  "sample_records =
     \<lparr>x_receipts = Map.empty, x_audit = [], x_records = (\<lambda>_. Map.empty)(''staged'' := [doc_key staged_record \<mapsto> staged_record]),
      x_pointers = Map.empty, x_tables = [table_key sample_custom \<mapsto> sample_custom, table_key sample_projected \<mapsto> sample_projected],
      x_published = []\<rparr>"

lemma reads_only_query: "reads_only (memory_query run) (\<lambda>v. v)"
  by (simp add: reads_only_def memory_query_def)

lemma sample_records_serves: "records_serves sample_record_service {sample_membership} (\<lambda>v. v)"
  by (simp add: records_serves_def sample_record_service_def memory_records_def realises_memory records_parts part_receipts
      memory_delete_laws memory_audit_adds memory_transaction_laws reads_members_def ret_def reads_only_query)
     (simp add: reads_only_def)

lemma sample_records_keyed: "keyed_records sample_records"
  unfolding keyed_records_def by (simp add: sample_records_def)

lemma sample_record_tables:
  "x_tables sample_records (''t'', ''w'', ''tb'') = Some sample_custom" "x_tables sample_records (''t'', ''w'', ''p'') = Some sample_projected"
  by (simp_all add: sample_records_def table_key_def sample_custom_def sample_projected_def)

lemma staged_projection: "projection_table sample_records staged_record"
  using sample_record_tables by (simp add: projection_table_def staged_record_def new_record_def sample_input_def sample_projected_def)

lemma sample_records_separated: "separated sample_records"
proof -
  have "projection_table sample_records r" if "x_records sample_records n k = Some r" for n k r
    using that staged_projection by (auto simp: sample_records_def split: if_splits)
  then show ?thesis unfolding separated_def by (auto simp: sample_records_def)
qed

theorem projection_read_only_witness:
  "x_records (record_run sample_record_service
       [CreateRecordCall sample_owner sample_input, DeleteRecordCall sample_owner (sample_input\<lparr>ri_ID := ''q'', ri_TableID := ''p''\<rparr>) 1]
       sample_records) ''staged'' (doc_key staged_record) = Some staged_record"
proof -
  have "x_records sample_records ''staged'' (doc_key staged_record) = Some staged_record" by (simp add: sample_records_def)
  with projection_read_only [OF sample_records_serves sample_records_keyed sample_records_separated refl] staged_projection
  show ?thesis by blast
qed

lemma sample_data_valid:
  "validateRecordData Inr \<lparr>lib_compile = (\<lambda>_ _. Inr ()), lib_validate = (\<lambda>_ _. None)\<rparr> sample_definition ''{}'' = None"
  by code_simp

lemma sample_canonical: "CanonicalizeJSON ''{}'' = Inr ''{}''"
  by code_simp

lemma sample_record_created:
  "\<exists>r w. record_exec sample_record_service (CreateRecordCall sample_owner sample_input) sample_records = (Inr r, w)"
proof -
  let ?s = sample_record_service and ?i = sample_input
  let ?r = "new_record sample_owner ?i sample_custom [] [] 5"
  let ?put = "record_put records_collection (doc_key ?r) (Some ?r) sample_records"
  note parts = sample_record_service_def memory_records_def
  have i: "ri_TenantID ?i = ''t''" "ri_WorkspaceID ?i = ''w''" "ri_TableID ?i = ''tb''" "ri_IdempotencyKey ?i = ''k''"
    "ri_Tags ?i = []" "ri_Data ?i = ''{}''" "ri_Relations ?i = None" by (simp_all add: sample_input_def)
  have a: "recordDependencies (Some ?s) sample_owner ''t'' ''w'' ActionRecordWrite v = (Inr (), v)" for v
    by (simp add: recordDependencies_def sample_record_service_def sample_authorized go_simps)
  have t: "writableTable ?s ''t'' ''w'' ''tb'' sample_records = (Inr sample_custom, sample_records)"
    by (simp add: writableTable_def records_GetTable_def FindG_def parts memory_collection_def sample_record_tables go_simps)
       (simp add: sample_custom_def)
  have c: "check_record_input ?s ?i sample_custom sample_records = (Inr (sample_definition, [], []), sample_records)"
    using sample_data_valid
    by (simp add: check_record_input_def i publishedSchema_def normalizeRecordTags_def normalizeTags_def normalizeRelations_def
        usable_schema_def sample_definition_def sample_custom_def sample_record_service_def go_simps)
  obtain h where h: "recordRequestHash (rv_ext_json ?s) ''record.create'' (?i\<lparr>ri_Relations := Some []\<rparr>) 0 [] = Inr h"
    by (simp add: recordRequestHash_def i sample_record_service_def sample_canonical)
  have f: "recordReceipt ?s ?i op h sample_records = (Inr None, sample_records)" for op h
    unfolding recordReceipt_def by (simp add: sample_record_service_def memory_find_receipt record_receipts_def sample_records_def)
  have n: "nowG (rv_Now ?s) v = (Inr 5, v)" for v by (simp add: sample_record_service_def nowG_def)
  have v: "Record_Validate (rd_bson (rv_db ?s)) ?r = None"
    by (simp add: Record_Validate_def new_record_def parts sample_input_def sample_custom_def sample_owner_def identityKey_def
        unset_identity_def IsZero_def trim_simps)
  have m: "records_CreateRecord (rv_db ?s) ?r sample_records = (Inr (), ?put)"
    using v by (simp add: records_CreateRecord_def go_simps InsertNew_def parts memory_collection_def record_put_def get_collection_def
        del: fun_upd_apply) (simp add: sample_records_def records_collection_def)
  have tx: "rd_Transaction (rv_db ?s) = memory_transaction" by (simp add: parts)
  let ?e = "record_entry sample_owner ?i ''record.create'' ?r [] (hashRecord ?s ?r) 5"
  have e: "complete_entry ?e"
    by (simp add: complete_entry_def record_entry_def sample_owner_def identityKey_def sample_input_def new_record_def IsZero_def trim_simps)
  have "h \<noteq> []" using h by (auto simp: recordRequestHash_def Let_def i sample_record_service_def sample_canonical)
  then have k: "rk_Check record_receipts (receipt_for (record_scope ?i ''record.create'') h ?r) = None"
    by (simp add: record_receipts_def incomplete_receipt_def receipt_for_def record_scope_def i)
  have "completeRecord ?s ?e (receipt_for (record_scope ?i ''record.create'') h ?r) ?put
      = (Inr ?r, recorded ?e (receipt_for (record_scope ?i ''record.create'') h ?r) ?put)"
    using memory_complete [OF e k, of ?put] by (simp add: completeRecord_def sample_record_service_def sample_records_def)
  then have cm: "commit_create ?s sample_owner ?i sample_custom [] [] h sample_records
      = (Inr ?r, recorded ?e (receipt_for (record_scope ?i ''record.create'') h ?r) ?put)"
    by (simp add: commit_create_def Let_def go_simps f n v m tx memory_transaction_def)
  have "\<exists>w. create_or_replay ?s sample_owner ?i sample_records = (Inr ?r, w)"
    using c h cm by (simp add: create_or_replay_def require_record_key_def i go_simps a t)
  then show ?thesis by (auto simp: record_exec_run simp del: record_exec.simps)
qed

theorem record_replay_witness:
  "\<exists>r w x w'. record_exec sample_record_service (CreateRecordCall sample_owner sample_input) sample_records = (Inr r, w)
     \<and> record_exec sample_record_service (CreateRecordCall sample_owner sample_input)
         (record_run sample_record_service [DeleteRecordCall sample_owner sample_input 1] w) = (x, w')
     \<and> (\<forall>r'. x = Inr r' \<longrightarrow> r' = r)"
proof -
  obtain r w where c: "record_exec sample_record_service (CreateRecordCall sample_owner sample_input) sample_records = (Inr r, w)"
    using sample_record_created by blast
  obtain x w' where "record_exec sample_record_service (CreateRecordCall sample_owner sample_input)
      (record_run sample_record_service [DeleteRecordCall sample_owner sample_input 1] w) = (x, w')" by force
  with record_replay [OF sample_records_serves sample_records_keyed c refl this] c show ?thesis by (fastforce split: sum.splits)
qed

end
