(* ===== verification/Base64.thy ===== *)
theory Base64
  imports GoPrelude
begin

text \<open>
  \<open>base64.RawURLEncoding\<close> of Go's standard library, which the cursors of record pages and the
  session cookies use: the URL alphabet without padding. The decoder skips line ends, ignores
  left-over bits and refuses other bytes and a single left-over character.
\<close>

definition url_alphabet :: string where
  "url_alphabet = ''ABCDEFGHIJKLMNOPQRSTUVWXYZabcdefghijklmnopqrstuvwxyz0123456789-_''"

definition sextet_char :: "nat \<Rightarrow> char" where
  "sextet_char n = url_alphabet ! n"

fun find_index :: "char \<Rightarrow> string \<Rightarrow> nat option" where
  "find_index c [] = None"
| "find_index c (d # ds) = (if c = d then Some 0 else map_option Suc (find_index c ds))"

definition char_sextet :: "char \<Rightarrow> nat option" where
  "char_sextet c = find_index c url_alphabet"

fun to_sextets :: "nat list \<Rightarrow> nat list" where
  "to_sextets [] = []"
| "to_sextets [a] = [a div 4, a mod 4 * 16]"
| "to_sextets [a, b] = [a div 4, a mod 4 * 16 + b div 16, b mod 16 * 4]"
| "to_sextets (a # b # c # bs) = a div 4 # (a mod 4 * 16 + b div 16) # (b mod 16 * 4 + c div 64) # c mod 64 # to_sextets bs"

fun from_sextets :: "nat list \<Rightarrow> nat list option" where
  "from_sextets [] = Some []"
| "from_sextets [v] = None"
| "from_sextets [v, x] = Some [v * 4 + x div 16]"
| "from_sextets [v, x, y] = Some [v * 4 + x div 16, x mod 16 * 16 + y div 4]"
| "from_sextets (v # x # y # z # vs) =
     map_option (\<lambda>bs. (v * 4 + x div 16) # (x mod 16 * 16 + y div 4) # (y mod 4 * 64 + z) # bs) (from_sextets vs)"

fun all_sextets :: "string \<Rightarrow> nat list option" where
  "all_sextets [] = Some []"
| "all_sextets (c # cs) =
     (case char_sextet c of None \<Rightarrow> None | Some v \<Rightarrow> map_option (\<lambda>vs. v # vs) (all_sextets cs))"

definition EncodeToString :: "string \<Rightarrow> string" where
  "EncodeToString s = map sextet_char (to_sextets (map of_char s))"

definition DecodeString :: "string \<Rightarrow> string option" where
  "DecodeString s =
     (case all_sextets (filter (\<lambda>c. c \<noteq> CHR 0x0A \<and> c \<noteq> CHR 0x0D) s) of
        None \<Rightarrow> None
      | Some vs \<Rightarrow> map_option (map char_of) (from_sextets vs))"

section \<open>Decoding what was encoded\<close>

lemma sextet_table: "\<forall>n \<in> set [0..<64]. char_sextet (sextet_char n) = Some n \<and> sextet_char n \<notin> {CHR 0x0A, CHR 0x0D}"
  by code_simp

lemma sextet_char_inverse: "n < 64 \<Longrightarrow> char_sextet (sextet_char n) = Some n"
  and sextet_char_line: "n < 64 \<Longrightarrow> sextet_char n \<noteq> CHR 0x0A \<and> sextet_char n \<noteq> CHR 0x0D"
  using sextet_table by auto

lemma to_sextets_bound: "\<forall>a \<in> set bs. a < 256 \<Longrightarrow> v \<in> set (to_sextets bs) \<Longrightarrow> v < 64"
  by (induction bs rule: to_sextets.induct) auto

lemma sextet_bytes:
  "b < 256 \<Longrightarrow> a div 4 * 4 + (a mod 4 * 16 + b div 16) div 16 = (a::nat)"
  "b < 256 \<Longrightarrow> c < 256 \<Longrightarrow> (a mod 4 * 16 + b div 16) mod 16 * 16 + (b mod 16 * 4 + c div 64) div 4 = b"
  "c < 256 \<Longrightarrow> (b mod 16 * 4 + c div 64) mod 4 * 64 + c mod 64 = (c::nat)"
proof -
  have d: "(x * 16 + y) div 16 = x \<and> (x * 16 + y) mod 16 = y" if "y < 16" for x y :: nat using that by simp
  have q: "(x * 4 + y) div 4 = x \<and> (x * 4 + y) mod 4 = y" if "y < 4" for x y :: nat using that by simp
  { assume "b < 256"
    then have "b div 16 < 16" by auto
    from d [OF this, of "a mod 4"] show "a div 4 * 4 + (a mod 4 * 16 + b div 16) div 16 = a" by simp }
  { assume "b < 256" "c < 256"
    then have "b div 16 < 16" "c div 64 < 4" by auto
    from d [OF this(1), of "a mod 4"] q [OF this(2), of "b mod 16"]
    show "(a mod 4 * 16 + b div 16) mod 16 * 16 + (b mod 16 * 4 + c div 64) div 4 = b" by simp }
  { assume "c < 256"
    then have "c div 64 < 4" by auto
    from q [OF this, of "b mod 16"] show "(b mod 16 * 4 + c div 64) mod 4 * 64 + c mod 64 = c" by simp }
qed

lemma from_to_sextets: "\<forall>a \<in> set bs. a < 256 \<Longrightarrow> from_sextets (to_sextets bs) = Some bs"
proof (induction bs rule: to_sextets.induct)
  case (2 a)
  with sextet_bytes(1) [of 0 a] show ?case by simp
next
  case (3 a b)
  with sextet_bytes(1) [of b a] sextet_bytes(2) [of b 0 a] show ?case by simp
next
  case (4 a b c bs)
  have e: "from_sextets (to_sextets (a # b # c # bs))
      = map_option (\<lambda>r. (a div 4 * 4 + (a mod 4 * 16 + b div 16) div 16)
          # ((a mod 4 * 16 + b div 16) mod 16 * 16 + (b mod 16 * 4 + c div 64) div 4)
          # ((b mod 16 * 4 + c div 64) mod 4 * 64 + c mod 64) # r) (from_sextets (to_sextets bs))"
    by (simp only: to_sextets.simps from_sextets.simps)
  from 4 show ?case unfolding e by (simp only: sextet_bytes list.set insert_iff ball_simps simp_thms) simp
qed simp

lemma all_sextets_map: "\<forall>v \<in> set vs. v < 64 \<Longrightarrow> all_sextets (map sextet_char vs) = Some vs"
  by (induction vs) (simp_all add: sextet_char_inverse)

lemma to_sextets_empty [simp]: "to_sextets bs = [] \<longleftrightarrow> bs = []"
  by (induction bs rule: to_sextets.induct) simp_all

lemma EncodeToString_empty [simp]: "EncodeToString s = [] \<longleftrightarrow> s = []"
  by (simp add: EncodeToString_def)

lemma Decode_Encode [simp]: "DecodeString (EncodeToString s) = Some s"
proof -
  let ?bs = "map of_char s :: nat list"
  have b: "\<forall>a \<in> set ?bs. a < 256" by auto
  then have v: "\<forall>v \<in> set (to_sextets ?bs). v < 64" using to_sextets_bound by blast
  then have "filter (\<lambda>c. c \<noteq> CHR 0x0A \<and> c \<noteq> CHR 0x0D) (EncodeToString s) = EncodeToString s"
    unfolding EncodeToString_def by (intro filter_True) (auto simp: sextet_char_line)
  then show ?thesis
    using all_sextets_map [OF v] from_to_sextets [OF b] by (simp add: DecodeString_def EncodeToString_def o_def)
qed

end
