(* ===== verification/RecordQueries.thy ===== *)
theory RecordQueries
  imports RecordRuns Base64
begin

text \<open>
  Pages of records: \<open>ListRecords\<close> of \<open>records/repository.go\<close> and \<open>records/service.go\<close> with the
  query budget of \<open>observability/budgets.go\<close>. A view filters and sorts; a page ends with a
  cursor that has the sort values of its last record, and the next page starts after them. What
  MongoDB does with a query is a parameter, as are BSON and the lookup in BSON data.
\<close>

section \<open>Queries\<close>

text \<open>
  Values of records that sorting and cursors use; a missing value is \<open>BNull\<close>, and \<open>BData\<close> is a
  value of the data with its BSON type.
\<close>

datatype bson_value =
    BNull
  | BString string
  | BInt int
  | BTime time
  | BTags "string list"
  | BData nat string

datatype query_op = QEq | QNe | QRegex | QIn | QGt | QGte | QLt | QLte

type_synonym bson_lookup = "string \<Rightarrow> string list \<Rightarrow> bson_value"

record record_query =
  rq_TenantID :: string
  rq_WorkspaceID :: string
  rq_TableID :: string
  rq_View :: "(string \<times> (query_op \<times> view_value) list) list"
  rq_After :: "(string \<times> query_op \<times> bson_value) list list option"
  rq_Sort :: "(string \<times> int) list"
  rq_Limit :: int

record RecordPage =
  rp_Items :: "Record list"
  rp_NextCursor :: string

record 'w record_pages =
  pg_Find :: "string \<Rightarrow> ('w, record_query, Record) query"
  pg_Lookup :: bson_lookup
  pg_Marshal :: "bson_value list \<Rightarrow> string + string"
  pg_Unmarshal :: "string \<Rightarrow> bson_value list option"

definition viewMongoField :: "string \<Rightarrow> string" where
  "viewMongoField field =
     (if field \<in> set [''id'', ''_id''] then ''_id''
      else if field \<in> set [''recordVersion'', ''schemaVersion'', ''createdAt'', ''updatedAt'', ''tags''] then field
      else ''data.'' @ TrimPrefix field ''data.'')"

definition recordSortValue :: "bson_lookup \<Rightarrow> Record \<Rightarrow> string \<Rightarrow> bson_value" where
  "recordSortValue look r field =
     (if field \<in> set [''id'', ''_id''] then BString (rec_ID r)
      else if field = ''recordVersion'' then BInt (rec_RecordVersion r)
      else if field = ''schemaVersion'' then BInt (rec_SchemaVersion r)
      else if field = ''createdAt'' then BTime (rec_CreatedAt r)
      else if field = ''updatedAt'' then BTime (rec_UpdatedAt r)
      else if field = ''tags'' then BTags (rec_Tags r)
      else look (rec_Data r) (SplitOn (CHR ''.'') (TrimPrefix field ''data.'')))"

definition viewSorts :: "ViewSort list \<Rightarrow> ViewSort list" where
  "viewSorts sorts =
     (if list_ex (\<lambda>s. vs_Field s = ''id'' \<or> vs_Field s = ''_id'') sorts then sorts
      else sorts @ [\<lparr>vs_Field = ''id'', vs_Direction = SortAscending\<rparr>])"

definition mongoSort :: "ViewSort list \<Rightarrow> (string \<times> int) list" where
  "mongoSort = map (\<lambda>s. (viewMongoField (vs_Field s), if vs_Direction s = SortDescending then -1 else 1))"

text \<open>\<open>regexp.QuoteMeta\<close>.\<close>

definition QuoteMeta :: "string \<Rightarrow> string" where
  "QuoteMeta s = concat (map (\<lambda>c. if c \<in> set (CHR 0x5C # ''.+*?()|[]{}^$'') then [CHR 0x5C, c] else [c]) s)"

text \<open>The operator of a filter that passed its check, with its value.\<close>

definition mongo_operator :: "ViewFilter \<Rightarrow> goerr + query_op \<times> view_value" where
  "mongo_operator flt =
     (case vf_Operator flt of
        FilterEqual \<Rightarrow> Inr (QEq, vf_Value flt)
      | FilterNotEqual \<Rightarrow> Inr (QNe, vf_Value flt)
      | FilterContains \<Rightarrow> Inr (QRegex, case vf_Value flt of VString s \<Rightarrow> VString (QuoteMeta s) | v \<Rightarrow> v)
      | FilterIn \<Rightarrow> Inr (QIn, vf_Value flt)
      | FilterGreater \<Rightarrow> Inr (QGt, vf_Value flt)
      | FilterAtLeast \<Rightarrow> Inr (QGte, vf_Value flt)
      | FilterLess \<Rightarrow> Inr (QLt, vf_Value flt)
      | FilterAtMost \<Rightarrow> Inr (QLte, vf_Value flt)
      | OtherFilterOperator _ \<Rightarrow> Inl (Anon ''unsupported view filter operator''))"

text \<open>The map of conditions by path, in the order of the paths' first filters; all of them must hold.\<close>

fun add_condition :: "string \<Rightarrow> 'c \<Rightarrow> (string \<times> 'c list) list \<Rightarrow> (string \<times> 'c list) list" where
  "add_condition path c [] = [(path, [c])]"
| "add_condition path c ((p, cs) # rest) = (if p = path then (p, cs @ [c]) # rest else (p, cs) # add_condition path c rest)"

fun collect_conditions ::
  "(string \<times> (query_op \<times> view_value) list) list \<Rightarrow> ViewFilter list
     \<Rightarrow> goerr + (string \<times> (query_op \<times> view_value) list) list" where
  "collect_conditions conditions [] = Inr conditions"
| "collect_conditions conditions (flt # filters) =
     (case validateFilter flt of
        Some e \<Rightarrow> Inl e
      | None \<Rightarrow>
          (case mongo_operator flt of
             Inl e \<Rightarrow> Inl e
           | Inr c \<Rightarrow> collect_conditions (add_condition (viewMongoField (vf_Field flt)) c conditions) filters))"

definition mongoViewFilters :: "ViewFilter list \<Rightarrow> goerr + (string \<times> (query_op \<times> view_value) list) list" where
  "mongoViewFilters filters = collect_conditions [] filters"

section \<open>Cursors\<close>

definition encodeRecordCursor :: "'w record_pages \<Rightarrow> Record \<Rightarrow> ViewSort list \<Rightarrow> goerr + string" where
  "encodeRecordCursor pages r sorts =
     (case pg_Marshal pages (map (\<lambda>s. recordSortValue (pg_Lookup pages) r (vs_Field s)) sorts) of
        Inl m \<Rightarrow> Inl (Wrap ''encode record cursor'' (External m))
      | Inr payload \<Rightarrow> Inr (EncodeToString payload))"

definition decodeRecordCursor :: "'w record_pages \<Rightarrow> string \<Rightarrow> goerr + bson_value list" where
  "decodeRecordCursor pages value =
     (case DecodeString value of
        None \<Rightarrow> Inl (RecordsErr ErrInvalidCursor)
      | Some payload \<Rightarrow>
          (case pg_Unmarshal pages payload of
             None \<Rightarrow> Inl (RecordsErr ErrInvalidCursor)
           | Some values \<Rightarrow> if values = [] then Inl (RecordsErr ErrInvalidCursor) else Inr values))"

text \<open>
  The alternatives of \<open>$or\<close>: for every sort, the earlier sorts' values are those of the cursor
  and its own is beyond.
\<close>

fun cursor_conditions ::
  "(string \<times> query_op \<times> bson_value) list \<Rightarrow> ViewSort list \<Rightarrow> bson_value list \<Rightarrow> (string \<times> query_op \<times> bson_value) list list" where
  "cursor_conditions previous (s # sorts) (v # vs) =
     (previous @ [(viewMongoField (vs_Field s), if vs_Direction s = SortDescending then QLt else QGt, v)])
     # cursor_conditions (previous @ [(viewMongoField (vs_Field s), QEq, v)]) sorts vs"
| "cursor_conditions previous _ _ = []"

definition after_cursor ::
  "'w record_pages \<Rightarrow> ViewSort list \<Rightarrow> string \<Rightarrow> goerr + (string \<times> query_op \<times> bson_value) list list option" where
  "after_cursor pages sorts cursorValue =
     (if cursorValue = [] then Inr None
      else case decodeRecordCursor pages cursorValue of
        Inl e \<Rightarrow> Inl e
      | Inr values \<Rightarrow>
          if length values \<noteq> length sorts then Inl (RecordsErr ErrInvalidCursor)
          else Inr (Some (cursor_conditions [] sorts values)))"

section \<open>Listing records\<close>

definition records_ListRecords ::
  "'w records_database \<Rightarrow> 'w record_pages \<Rightarrow> string \<Rightarrow> string \<Rightarrow> string \<Rightarrow> ViewDefinition \<Rightarrow> string \<Rightarrow> int \<Rightarrow> ('w, RecordPage) go" where
  "records_ListRecords db pages tenantID workspaceID tableID view cursorValue limit =
     (if limit < 1 \<or> limit > 100 then fail (Anon ''record page limit must be between 1 and 100'')
      else bindG (pureG (mongoViewFilters (vd_Filters view))) (\<lambda>viewFilters.
        let sorts = viewSorts (vd_Sorts view) in
        bindG (pureG (after_cursor pages sorts cursorValue)) (\<lambda>after.
        bindG (activeRecordCollection db tenantID workspaceID tableID) (\<lambda>n.
        bindG (QueryG (pg_Find pages n)
            \<lparr>rq_TenantID = tenantID, rq_WorkspaceID = workspaceID, rq_TableID = tableID, rq_View = viewFilters,
             rq_After = after, rq_Sort = mongoSort sorts, rq_Limit = limit + 1\<rparr>
            ''list records'' ''decode records'') (\<lambda>rs.
          if int (length rs) \<le> limit then ret \<lparr>rp_Items = rs, rp_NextCursor = []\<rparr>
          else let items = take (nat limit) rs in
            bindG (pureG (encodeRecordCursor pages (last items) sorts)) (\<lambda>next.
              ret \<lparr>rp_Items = items, rp_NextCursor = next\<rparr>))))))"

definition records_GetView :: "'w records_database \<Rightarrow> string \<Rightarrow> string \<Rightarrow> string \<Rightarrow> string \<Rightarrow> ('w, ViewDefinition) go" where
  "records_GetView db tenantID workspaceID tableID viewID =
     bindG (FindG (rd_views db) (tenantID, workspaceID, tableID, viewID) ''find view'') (\<lambda>found. case found of
         None \<Rightarrow> fail (RecordsErr ErrViewNotFound)
       | Some view \<Rightarrow> ret view)"

text \<open>The budget of a query; durations are nanoseconds.\<close>

record QueryBudget =
  qb_MaxPageRows :: int
  qb_MaxResponseBytes :: int
  qb_MaxDuration :: int

definition DefaultQueryBudget :: QueryBudget where
  "DefaultQueryBudget = \<lparr>qb_MaxPageRows = 100, qb_MaxResponseBytes = 1048576, qb_MaxDuration = 2000000000\<rparr>"

definition QueryBudget_Validate :: "QueryBudget \<Rightarrow> goerr option" where
  "QueryBudget_Validate budget =
     (if qb_MaxPageRows budget < 1 \<or> qb_MaxPageRows budget > 1000
      then Some (Anon ''query max page rows must be between 1 and 1000'')
      else if qb_MaxResponseBytes budget < 1024 \<or> qb_MaxResponseBytes budget > 16777216
      then Some (Anon ''query max response bytes must be between 1024 and 16777216'')
      else if qb_MaxDuration budget < 10000000 \<or> qb_MaxDuration budget > 30000000000
      then Some (Anon ''query max duration must be between 10ms and 30s'')
      else None)"

text \<open>
  The service with its views. \<open>qs_Bounded\<close> runs a query under the time limit: \<open>Inl (Some e)\<close> is
  the error of the query and \<open>Inl None\<close> that the limit passed while the caller's own has not.
\<close>

record ('w, 'v) QueryService =
  qs_service :: "('w, 'v) RecordService"
  qs_pages :: "'w record_pages"
  qs_budget :: QueryBudget
  qs_Bounded :: "int \<Rightarrow> ('w, RecordPage) go \<Rightarrow> 'w \<Rightarrow> (goerr option + RecordPage) \<times> 'w"
  qs_MarshalPage :: "RecordPage \<Rightarrow> string + string"

definition cost_exceeded :: "string \<Rightarrow> goerr" where
  "cost_exceeded message = Wrap message QueryBudgetExceeded"

definition ListRecords ::
  "('w, 'v) QueryService option \<Rightarrow> Principal \<Rightarrow> string \<Rightarrow> string \<Rightarrow> string \<Rightarrow> string \<Rightarrow> string \<Rightarrow> int \<Rightarrow> ('w, RecordPage) go" where
  "ListRecords service prin tenantID workspaceID tableID viewID cursor limit =
     bindG (recordDependencies (map_option qs_service service) prin tenantID workspaceID ActionRecordRead) (\<lambda>_.
       case service of
         None \<Rightarrow> fail (IdentityErr ErrForbidden)
       | Some s \<Rightarrow> (let db = rv_db (qs_service s); budget = qs_budget s in
           bindG (checkG (QueryBudget_Validate budget)) (\<lambda>_.
           (if limit < 1 \<or> limit > qb_MaxPageRows budget then fail (cost_exceeded ''page rows'')
            else bindG (if viewID \<noteq> [] then records_GetView db tenantID workspaceID tableID viewID
                        else ret \<lparr>vd_ID = [], vd_TenantID = tenantID, vd_WorkspaceID = workspaceID, vd_TableID = tableID,
                               vd_Name = [], vd_Columns = [], vd_Filters = [],
                               vd_Sorts = [\<lparr>vs_Field = ''id'', vs_Direction = SortAscending\<rparr>], vd_Version = 0,
                               vd_CreatedBy = \<lparr>ik_Issuer = [], ik_Subject = []\<rparr>, vd_UpdatedBy = \<lparr>ik_Issuer = [], ik_Subject = []\<rparr>,
                               vd_CreatedAt = 0, vd_UpdatedAt = 0\<rparr>) (\<lambda>view.
                 bindG (\<lambda>w. case qs_Bounded s (qb_MaxDuration budget)
                              (records_ListRecords db (qs_pages s) tenantID workspaceID tableID view cursor limit) w of
                          (Inr page, w') \<Rightarrow> (Inr page, w')
                        | (Inl None, w') \<Rightarrow> (Inl (cost_exceeded ''execution time''), w')
                        | (Inl (Some e), w') \<Rightarrow> (Inl e, w')) (\<lambda>page.
                   case qs_MarshalPage s page of
                     Inl m \<Rightarrow> fail (Wrap ''measure record page cost'' (External m))
                   | Inr encoded \<Rightarrow>
                       if int (length encoded) > qb_MaxResponseBytes budget then fail (cost_exceeded ''response bytes'')
                       else ret page))))))"

section \<open>What a query means\<close>

text \<open>
  The value of a stored record at a path, and the order of the sort specification over an order
  \<open>lt\<close> of values; \<open>sees\<close> is what MongoDB makes of the conditions of a view.
\<close>

definition path_value :: "bson_lookup \<Rightarrow> Record \<Rightarrow> string \<Rightarrow> bson_value" where
  "path_value look r path =
     (if path = ''_id'' then BString (rec_ID r)
      else if path = ''recordVersion'' then BInt (rec_RecordVersion r)
      else if path = ''schemaVersion'' then BInt (rec_SchemaVersion r)
      else if path = ''createdAt'' then BTime (rec_CreatedAt r)
      else if path = ''updatedAt'' then BTime (rec_UpdatedAt r)
      else if path = ''tags'' then BTags (rec_Tags r)
      else case strip_prefix ''data.'' path of
        Some rest \<Rightarrow> look (rec_Data r) (SplitOn (CHR ''.'') rest)
      | None \<Rightarrow> BNull)"

text \<open>\<open>$gt\<close> and \<open>$lt\<close> compare values of one kind only, and never with \<open>null\<close>; all numbers are one kind.\<close>

fun bson_kind :: "bson_value \<Rightarrow> nat" where
  "bson_kind BNull = 10"
| "bson_kind (BString _) = 2"
| "bson_kind (BInt _) = 1"
| "bson_kind (BTime _) = 9"
| "bson_kind (BTags _) = 4"
| "bson_kind (BData t _) = (if t \<in> {16, 18, 19} then 1 else t)"

definition same_kind :: "bson_value \<Rightarrow> bson_value \<Rightarrow> bool" where
  "same_kind u v \<longleftrightarrow> bson_kind u = bson_kind v \<and> bson_kind u \<noteq> 10"

fun condition_holds :: "(bson_value \<Rightarrow> bson_value \<Rightarrow> bool) \<Rightarrow> bson_lookup \<Rightarrow> Record \<Rightarrow> string \<times> query_op \<times> bson_value \<Rightarrow> bool" where
  "condition_holds lt look r (path, QEq, v) = (path_value look r path = v)"
| "condition_holds lt look r (path, QGt, v) = (lt v (path_value look r path) \<and> same_kind v (path_value look r path))"
| "condition_holds lt look r (path, QLt, v) = (lt (path_value look r path) v \<and> same_kind v (path_value look r path))"
| "condition_holds lt look r (path, _, v) = False"

fun sorted_before :: "(bson_value \<Rightarrow> bson_value \<Rightarrow> bool) \<Rightarrow> bson_lookup \<Rightarrow> (string \<times> int) list \<Rightarrow> Record \<Rightarrow> Record \<Rightarrow> bool" where
  "sorted_before lt look [] a b = False"
| "sorted_before lt look ((path, d) # s) a b =
     (let u = path_value look a path; v = path_value look b path
      in (if d = -1 then lt v u else lt u v) \<or> (u = v \<and> sorted_before lt look s a b))"

definition query_matches ::
  "(bson_value \<Rightarrow> bson_value \<Rightarrow> bool) \<Rightarrow> ((string \<times> (query_op \<times> view_value) list) list \<Rightarrow> Record \<Rightarrow> bool) \<Rightarrow> bson_lookup
     \<Rightarrow> record_query \<Rightarrow> Record \<Rightarrow> bool" where
  "query_matches lt sees look q r \<longleftrightarrow>
     rec_TenantID r = rq_TenantID q \<and> rec_WorkspaceID r = rq_WorkspaceID q \<and> rec_TableID r = rq_TableID q
     \<and> sees (rq_View q) r
     \<and> (case rq_After q of None \<Rightarrow> True | Some alternatives \<Rightarrow> list_ex (list_all (condition_holds lt look r)) alternatives)"

lemma path_value_field: "path_value look r (viewMongoField field) = recordSortValue look r field"
proof -
  have "strip_prefix ''data.'' (''data.'' @ f) = Some f" for f by (simp add: strip_prefix_Some)
  then show ?thesis by (simp add: viewMongoField_def recordSortValue_def path_value_def)
qed

lemma cursor_conditions_false:
  "\<not> list_all P previous \<Longrightarrow> \<not> list_ex (list_all P) (cursor_conditions previous sorts vs)"
  by (induction previous sorts vs rule: cursor_conditions.induct) auto

lemma cursor_conditions_hold:
  "\<forall>s \<in> set sorts. same_kind (recordSortValue look c (vs_Field s)) (recordSortValue look r (vs_Field s)) \<Longrightarrow>
     list_all (condition_holds lt look r) previous \<Longrightarrow>
     list_ex (list_all (condition_holds lt look r))
       (cursor_conditions previous sorts (map (\<lambda>s. recordSortValue look c (vs_Field s)) sorts))
     \<longleftrightarrow> sorted_before lt look (mongoSort sorts) c r"
proof (induction sorts arbitrary: previous)
  case (Cons s sorts)
  let ?p = "viewMongoField (vs_Field s)" and ?v = "recordSortValue look c (vs_Field s)"
  have v: "?v = path_value look c ?p" by (simp add: path_value_field)
  have k: "same_kind ?v (path_value look r ?p)" using Cons.prems(1) by (simp add: path_value_field)
  show ?case
  proof (cases "path_value look r ?p = ?v")
    case True
    with Cons.prems have "list_all (condition_holds lt look r) (previous @ [(?p, QEq, ?v)])" by simp
    from Cons.IH [OF _ this] Cons.prems True k show ?thesis by (auto simp: mongoSort_def v Let_def)
  next
    case False
    then have "\<not> list_all (condition_holds lt look r) (previous @ [(?p, QEq, ?v)])" by simp
    from cursor_conditions_false [OF this] Cons.prems False k show ?thesis by (auto simp: mongoSort_def v Let_def)
  qed
qed (simp add: mongoSort_def)

section \<open>Pages of one listing\<close>

text \<open>Lists sorted by a strict order: one per set, and what follows an element is its suffix.\<close>

definition strictly_ordered :: "('a \<Rightarrow> 'a \<Rightarrow> bool) \<Rightarrow> 'a set \<Rightarrow> bool" where
  "strictly_ordered P A \<longleftrightarrow> (\<forall>a \<in> A. \<forall>b \<in> A. (P a b \<longrightarrow> \<not> P b a) \<and> (a = b \<or> P a b \<or> P b a))"

lemma strictly_ordered_subset: "strictly_ordered P A \<Longrightarrow> B \<subseteq> A \<Longrightarrow> strictly_ordered P B"
  unfolding strictly_ordered_def by blast

lemma sorted_wrt_strict:
  "strictly_ordered P (set xs) \<Longrightarrow> distinct xs \<Longrightarrow> sorted_wrt (\<lambda>a b. \<not> P b a) xs \<Longrightarrow> sorted_wrt P xs"
  by (induction xs) (auto simp: strictly_ordered_def)

lemma sorted_wrt_unique:
  "strictly_ordered P (set xs) \<Longrightarrow> sorted_wrt P xs \<Longrightarrow> sorted_wrt P ys \<Longrightarrow> set xs = set ys \<Longrightarrow> xs = ys"
proof (induction xs arbitrary: ys)
  case (Cons x xs)
  from Cons.prems(4) obtain y zs where ys: "ys = y # zs" by (cases ys) auto
  have anti: "\<not> P b a" if "P a b" "a \<in> insert x (set xs)" "b \<in> insert x (set xs)" for a b
    using Cons.prems(1) that unfolding strictly_ordered_def by auto
  have "x = y"
  proof (rule ccontr)
    assume "x \<noteq> y"
    then have "P x y" "P y x" using Cons.prems(2-4) ys by auto
    with anti Cons.prems(4) ys show False by auto
  qed
  have "\<not> P x x" using anti [of x x] by blast
  then have "x \<notin> set xs" "x \<notin> set zs" using Cons.prems(2,3) ys \<open>x = y\<close> by auto
  with Cons.prems(4) ys \<open>x = y\<close> have "set xs = set zs" by auto
  moreover have "strictly_ordered P (set xs)" by (rule strictly_ordered_subset [OF Cons.prems(1)]) auto
  moreover have "sorted_wrt P xs" "sorted_wrt P zs" using Cons.prems(2,3) ys by simp_all
  ultimately have "xs = zs" by (intro Cons.IH)
  with ys \<open>x = y\<close> show ?case by simp
qed simp

lemma sorted_wrt_suffix:
  assumes "strictly_ordered P (set xs)" "sorted_wrt P xs" "i < length xs"
  shows "{a \<in> set xs. P (xs ! i) a} = set (drop (Suc i) xs)"
proof -
  have "P (xs ! i) (xs ! j) \<longleftrightarrow> i < j" if "j < length xs" for j
  proof (cases i j rule: linorder_cases)
    case less
    with assms(2) that show ?thesis by (auto simp: sorted_wrt_iff_nth_less)
  next
    case equal
    with assms(1,3) show ?thesis unfolding strictly_ordered_def by (metis less_irrefl nth_mem)
  next
    case greater
    then have "P (xs ! j) (xs ! i)" using assms(2,3) by (auto simp: sorted_wrt_iff_nth_less)
    with assms(1,3) that greater show ?thesis unfolding strictly_ordered_def by (metis not_less_iff_gr_or_eq nth_mem)
  qed
  then have "{a \<in> set xs. P (xs ! i) a} = (\<lambda>j. xs ! j) ` {Suc i..<length xs}"
    by (auto simp: set_conv_nth image_iff)
  also have "\<dots> = set (drop (Suc i) xs)"
  proof (rule set_eqI)
    fix a show "a \<in> (\<lambda>j. xs ! j) ` {Suc i..<length xs} \<longleftrightarrow> a \<in> set (drop (Suc i) xs)"
    proof
      assume "a \<in> (\<lambda>j. xs ! j) ` {Suc i..<length xs}"
      then obtain j where j: "Suc i \<le> j" "j < length xs" "a = xs ! j" by auto
      then have "drop (Suc i) xs ! (j - Suc i) = a" "j - Suc i < length (drop (Suc i) xs)" by auto
      then show "a \<in> set (drop (Suc i) xs)" by (metis nth_mem)
    next
      assume "a \<in> set (drop (Suc i) xs)"
      then obtain j where "j < length (drop (Suc i) xs)" "drop (Suc i) xs ! j = a" by (metis in_set_conv_nth)
      then show "a \<in> (\<lambda>j. xs ! j) ` {Suc i..<length xs}" by (intro image_eqI [where x = "Suc i + j"]) auto
    qed
  qed
  finally show ?thesis .
qed

text \<open>The order of the sort specification is strict where the values of every sort are of one kind and ordered.\<close>

definition linear_values :: "(bson_value \<Rightarrow> bson_value \<Rightarrow> bool) \<Rightarrow> bson_value set \<Rightarrow> bool" where
  "linear_values lt V \<longleftrightarrow> strictly_ordered lt V \<and> (\<forall>u \<in> V. \<forall>v \<in> V. same_kind u v)"

definition sortable ::
  "(bson_value \<Rightarrow> bson_value \<Rightarrow> bool) \<Rightarrow> bson_lookup \<Rightarrow> ViewSort list \<Rightarrow> Record set \<Rightarrow> bool" where
  "sortable lt look sorts R \<longleftrightarrow>
     (\<forall>s \<in> set sorts. linear_values lt ((\<lambda>r. recordSortValue look r (vs_Field s)) ` R))"

lemma sortableD:
  assumes "sortable lt look sorts R" "s \<in> set sorts" "a \<in> R" "b \<in> R"
  defines "u \<equiv> recordSortValue look a (vs_Field s)" and "v \<equiv> recordSortValue look b (vs_Field s)"
  shows "same_kind u v" "lt u v \<Longrightarrow> \<not> lt v u" "u = v \<or> lt u v \<or> lt v u"
  using assms unfolding sortable_def linear_values_def strictly_ordered_def by blast+

lemma sorted_before_strict:
  assumes "sortable lt look sorts R" "a \<in> R" "b \<in> R"
  shows "sorted_before lt look (mongoSort sorts) a b \<Longrightarrow> \<not> sorted_before lt look (mongoSort sorts) b a"
    and "\<exists>s \<in> set sorts. recordSortValue look a (vs_Field s) \<noteq> recordSortValue look b (vs_Field s) \<Longrightarrow>
      sorted_before lt look (mongoSort sorts) a b \<or> sorted_before lt look (mongoSort sorts) b a"
proof -
  have d: "same_kind u v" "lt u v \<Longrightarrow> \<not> lt v u" "lt v u \<Longrightarrow> \<not> lt u v" "u = v \<or> lt u v \<or> lt v u" "\<not> lt u u"
    if "s \<in> set sorts" "u = recordSortValue look a (vs_Field s)" "v = recordSortValue look b (vs_Field s)" for s u v
    using sortableD [OF assms(1) that(1) assms(2,3)] sortableD [OF assms(1) that(1) assms(3,2)]
      sortableD [OF assms(1) that(1) assms(2,2)] that(2,3) by auto
  have "(sorted_before lt look (mongoSort ss) a b \<longrightarrow> \<not> sorted_before lt look (mongoSort ss) b a)
    \<and> ((\<exists>s \<in> set ss. recordSortValue look a (vs_Field s) \<noteq> recordSortValue look b (vs_Field s)) \<longrightarrow>
        sorted_before lt look (mongoSort ss) a b \<or> sorted_before lt look (mongoSort ss) b a)" if "set ss \<subseteq> set sorts" for ss
    using that
  proof (induction ss)
    case (Cons s ss)
    let ?u = "recordSortValue look a (vs_Field s)" and ?v = "recordSortValue look b (vs_Field s)"
    note e = d [of s ?u ?v, OF _ refl refl] and ih = Cons.IH
    from Cons.prems have s: "s \<in> set sorts" and ss: "set ss \<subseteq> set sorts" by auto
    have eq: "sorted_before lt look (mongoSort (s # ss)) x y
        \<longleftrightarrow> (if vs_Direction s = SortDescending then lt (recordSortValue look y (vs_Field s)) (recordSortValue look x (vs_Field s))
            else lt (recordSortValue look x (vs_Field s)) (recordSortValue look y (vs_Field s)))
          \<or> (recordSortValue look x (vs_Field s) = recordSortValue look y (vs_Field s) \<and> sorted_before lt look (mongoSort ss) x y)" for x y
      by (simp add: mongoSort_def path_value_field Let_def)
    from e(4) [OF s] consider "?u = ?v" | "lt ?u ?v" "?u \<noteq> ?v" | "lt ?v ?u" "?u \<noteq> ?v" by blast
    then show ?case
    proof cases
      case 1
      with ih [OF ss] e(5) [OF s] show ?thesis unfolding eq by auto
    next
      case 2
      with e(2) [OF s] show ?thesis unfolding eq by (auto split: if_splits)
    next
      case 3
      with e(3) [OF s] show ?thesis unfolding eq by (auto split: if_splits)
    qed
  qed (simp add: mongoSort_def)
  then show "sorted_before lt look (mongoSort sorts) a b \<Longrightarrow> \<not> sorted_before lt look (mongoSort sorts) b a"
    and "\<exists>s \<in> set sorts. recordSortValue look a (vs_Field s) \<noteq> recordSortValue look b (vs_Field s) \<Longrightarrow>
      sorted_before lt look (mongoSort sorts) a b \<or> sorted_before lt look (mongoSort sorts) b a" by blast+
qed

section \<open>What pages contain\<close>

text \<open>
  What MongoDB is relied on for: a query leaves the state alone, and its documents are the first
  of a listing of the records that match, in the order of the sort specification.
\<close>

definition listing ::
  "(bson_value \<Rightarrow> bson_value \<Rightarrow> bool) \<Rightarrow> ((string \<times> (query_op \<times> view_value) list) list \<Rightarrow> Record \<Rightarrow> bool) \<Rightarrow> bson_lookup
     \<Rightarrow> record_query \<Rightarrow> (doc_key \<rightharpoonup> Record) \<Rightarrow> Record list \<Rightarrow> bool" where
  "listing lt sees look q docs ms \<longleftrightarrow>
     distinct ms \<and> set ms = {r \<in> ran docs. query_matches lt sees look q r}
     \<and> sorted_wrt (\<lambda>a b. \<not> sorted_before lt look (rq_Sort q) b a) ms"

definition answers_queries ::
  "(bson_value \<Rightarrow> bson_value \<Rightarrow> bool) \<Rightarrow> ((string \<times> (query_op \<times> view_value) list) list \<Rightarrow> Record \<Rightarrow> bool)
     \<Rightarrow> 'w record_pages \<Rightarrow> ('w \<Rightarrow> RecordsDB) \<Rightarrow> bool" where
  "answers_queries lt sees pages view \<longleftrightarrow>
     (\<forall>n q w x w'. pg_Find pages n q w = (x, w') \<longrightarrow>
        view w' = view w
        \<and> (finite (dom (x_records (view w) n)) \<longrightarrow>
             (\<exists>ms. listing lt sees (pg_Lookup pages) q (x_records (view w) n) ms
                   \<and> (\<forall>ds. x = Inr ds \<longrightarrow> ds = take (nat (rq_Limit q)) ms))))"

definition base_query :: "string \<Rightarrow> string \<Rightarrow> string \<Rightarrow> (string \<times> (query_op \<times> view_value) list) list \<Rightarrow> ViewSort list \<Rightarrow> record_query" where
  "base_query tenantID workspaceID tableID viewFilters sorts =
     \<lparr>rq_TenantID = tenantID, rq_WorkspaceID = workspaceID, rq_TableID = tableID, rq_View = viewFilters,
      rq_After = None, rq_Sort = mongoSort sorts, rq_Limit = 1\<rparr>"

definition sort_values :: "'w record_pages \<Rightarrow> ViewSort list \<Rightarrow> Record \<Rightarrow> bson_value list" where
  "sort_values pages sorts r = map (\<lambda>s. recordSortValue (pg_Lookup pages) r (vs_Field s)) sorts"

text \<open>Records that can be listed page by page: sortable values that survive the cursor.\<close>

definition pageable ::
  "(bson_value \<Rightarrow> bson_value \<Rightarrow> bool) \<Rightarrow> 'w record_pages \<Rightarrow> ViewSort list \<Rightarrow> Record set \<Rightarrow> bool" where
  "pageable lt pages sorts R \<longleftrightarrow>
     sortable lt (pg_Lookup pages) sorts R
     \<and> (\<forall>r \<in> R. \<exists>payload. pg_Marshal pages (sort_values pages sorts r) = Inr payload \<and> payload \<noteq> []
          \<and> pg_Unmarshal pages payload = Some (sort_values pages sorts r))"

lemma viewSorts_id: "\<exists>s \<in> set (viewSorts sorts). vs_Field s = ''id'' \<or> vs_Field s = ''_id''"
  by (auto simp: viewSorts_def list_ex_iff)

lemma viewSorts_nonempty [simp]: "viewSorts sorts \<noteq> []"
  using viewSorts_id [of sorts] by auto

text \<open>Records of one workspace differ by identifier, so a sort with the identifier separates them.\<close>

lemma listing_strict:
  assumes "keyed_records v" "sortable lt look (viewSorts sorts) R" "R \<subseteq> {r \<in> ran (x_records v n). rec_TenantID r = t \<and> rec_WorkspaceID r = ws}"
  shows "strictly_ordered (sorted_before lt look (mongoSort (viewSorts sorts))) R"
  unfolding strictly_ordered_def
proof (intro ballI conjI)
  fix a b assume ab: "a \<in> R" "b \<in> R"
  show "sorted_before lt look (mongoSort (viewSorts sorts)) a b \<longrightarrow> \<not> sorted_before lt look (mongoSort (viewSorts sorts)) b a"
    using sorted_before_strict(1) [OF assms(2) ab] by blast
  show "a = b \<or> sorted_before lt look (mongoSort (viewSorts sorts)) a b \<or> sorted_before lt look (mongoSort (viewSorts sorts)) b a"
  proof (cases "rec_ID a = rec_ID b")
    case True
    obtain k where k: "x_records v n k = Some a" using ab(1) assms(3) by (auto simp: ran_def)
    obtain j where j: "x_records v n j = Some b" using ab(2) assms(3) by (auto simp: ran_def)
    from keyed_recordsD [OF assms(1) k] keyed_recordsD [OF assms(1) j] True ab assms(3) have "k = j" by (auto simp: doc_key_def)
    with k j show ?thesis by simp
  next
    case False
    obtain s where s: "s \<in> set (viewSorts sorts)" "vs_Field s = ''id'' \<or> vs_Field s = ''_id''" using viewSorts_id by blast
    with False have "recordSortValue look a (vs_Field s) \<noteq> recordSortValue look b (vs_Field s)" by (auto simp: recordSortValue_def)
    with sorted_before_strict(2) [OF assms(2) ab] s(1) show ?thesis by blast
  qed
qed

lemma encode_decode_cursor:
  assumes "pageable lt pages sorts R" "r \<in> R" "sorts \<noteq> []"
  obtains cursor where "encodeRecordCursor pages r sorts = Inr cursor" "cursor \<noteq> []"
    "decodeRecordCursor pages cursor = Inr (sort_values pages sorts r)"
proof -
  from assms(1,2) obtain payload where "pg_Marshal pages (sort_values pages sorts r) = Inr payload" "payload \<noteq> []"
    "pg_Unmarshal pages payload = Some (sort_values pages sorts r)" unfolding pageable_def by blast
  with assms(3) that [of "EncodeToString payload"] show ?thesis
    by (simp add: encodeRecordCursor_def decodeRecordCursor_def sort_values_def)
qed

text \<open>The listing behind a page with a cursor is a suffix of the whole listing.\<close>

lemma listing_after:
  assumes "keyed_records v" and p: "pageable lt pages (viewSorts sorts) (set ms)"
    and whole: "listing lt sees (pg_Lookup pages) (base_query t ws tb vf (viewSorts sorts)) (x_records v n) ms"
    and part: "listing lt sees (pg_Lookup pages) (base_query t ws tb vf (viewSorts sorts)\<lparr>rq_After := after, rq_Limit := l\<rparr>) (x_records v n) ms'"
    and i: "(i = 0 \<and> after = None) \<or> (0 < i \<and> i \<le> length ms
      \<and> after = Some (cursor_conditions [] (viewSorts sorts) (sort_values pages (viewSorts sorts) (ms ! (i - 1)))))"
  shows "ms' = drop i ms"
proof -
  let ?look = "pg_Lookup pages" and ?s = "viewSorts sorts"
  let ?before = "sorted_before lt ?look (mongoSort ?s)"
  from p have so: "sortable lt ?look ?s (set ms)" unfolding pageable_def by blast
  have ws: "set ms \<subseteq> {r \<in> ran (x_records v n). rec_TenantID r = t \<and> rec_WorkspaceID r = ws}"
    using whole by (auto simp: listing_def query_matches_def base_query_def)
  note strict = listing_strict [OF assms(1) so ws]
  have sorted: "sorted_wrt ?before ms"
    by (rule sorted_wrt_strict [OF strict]) (use whole in \<open>simp_all add: listing_def base_query_def\<close>)
  have "set ms' = set (drop i ms)"
  proof (cases "i = 0")
    case True
    with i part whole show ?thesis by (simp add: listing_def query_matches_def base_query_def)
  next
    case False
    with i have i': "i - 1 < length ms" and a: "after = Some (cursor_conditions [] ?s (sort_values pages ?s (ms ! (i - 1))))" by auto
    let ?c = "ms ! (i - 1)"
    have c: "?c \<in> set ms" using i' by simp
    have after: "list_ex (list_all (condition_holds lt ?look r)) (cursor_conditions [] ?s (sort_values pages ?s ?c)) \<longleftrightarrow> ?before ?c r"
      if "r \<in> set ms" for r
      unfolding sort_values_def by (rule cursor_conditions_hold) (use sortableD(1) [OF so _ c that] in auto)
    let ?q = "base_query t ws tb vf ?s" and ?alts = "cursor_conditions [] ?s (sort_values pages ?s ?c)"
    have "query_matches lt sees ?look (?q\<lparr>rq_After := after, rq_Limit := l\<rparr>) r
        \<longleftrightarrow> query_matches lt sees ?look ?q r \<and> list_ex (list_all (condition_holds lt ?look r)) ?alts" for r
      by (simp add: query_matches_def base_query_def a)
    then have "set ms' = {r \<in> ran (x_records v n). query_matches lt sees ?look ?q r \<and> list_ex (list_all (condition_holds lt ?look r)) ?alts}"
      using part unfolding listing_def by simp
    also have "\<dots> = {r \<in> set ms. list_ex (list_all (condition_holds lt ?look r)) ?alts}"
      using whole unfolding listing_def by simp
    also have "\<dots> = {r \<in> set ms. ?before ?c r}" using after by (simp cong: conj_cong)
    finally have "set ms' = {r \<in> set ms. ?before ?c r}" .
    also have "\<dots> = set (drop (Suc (i - 1)) ms)" by (rule sorted_wrt_suffix [OF strict sorted i'])
    finally show ?thesis using False by simp
  qed
  moreover from this have sub: "set ms' \<subseteq> set ms" by (simp add: set_drop_subset)
  from strict have strict': "strictly_ordered ?before (set ms')" by (rule strictly_ordered_subset) (rule sub)
  from part have "distinct ms'" "sorted_wrt (\<lambda>a b. \<not> ?before b a) ms'"
    unfolding listing_def by (simp_all add: base_query_def)
  from sorted_wrt_strict [OF strict' this] have "sorted_wrt ?before ms'" .
  moreover have "sorted_wrt ?before (drop i ms)" using sorted by (rule sorted_wrt_drop)
  ultimately show ?thesis by (intro sorted_wrt_unique [OF strict'])
qed

text \<open>Whatever the database does, a page with a cursor is full.\<close>

lemma ListRecords_full:
  assumes "records_ListRecords db pages t ws tb view cursor limit w = (Inr page, w')"
  shows "int (length (rp_Items page)) \<le> limit" "rp_NextCursor page \<noteq> [] \<Longrightarrow> int (length (rp_Items page)) = limit"
  using assms by (auto simp: records_ListRecords_def go_success Let_def split: if_splits)

definition full_listing ::
  "(bson_value \<Rightarrow> bson_value \<Rightarrow> bool) \<Rightarrow> ((string \<times> (query_op \<times> view_value) list) list \<Rightarrow> Record \<Rightarrow> bool)
     \<Rightarrow> 'w record_pages \<Rightarrow> ViewDefinition \<Rightarrow> RecordsDB \<Rightarrow> string \<Rightarrow> string \<Rightarrow> string \<Rightarrow> Record list \<Rightarrow> bool" where
  "full_listing lt sees pages vd v t ws tb ms \<longleftrightarrow>
     (\<exists>vf. mongoViewFilters (vd_Filters vd) = Inr vf
        \<and> listing lt sees (pg_Lookup pages) (base_query t ws tb vf (viewSorts (vd_Sorts vd))) (x_records v (active_name v t ws tb)) ms)"

lemma ListRecords_page:
  assumes s: "records_serves s M view" and a: "answers_queries lt sees pages view"
    and k: "keyed_records (view w)" and fin: "finite (dom (x_records (view w) (active_name (view w) t ws tb)))"
    and ms: "full_listing lt sees pages vd (view w) t ws tb ms" and p: "pageable lt pages (viewSorts (vd_Sorts vd)) (set ms)"
    and cursor: "(i = 0 \<and> cursor = []) \<or> (0 < i \<and> i \<le> length ms
      \<and> encodeRecordCursor pages (ms ! (i - 1)) (viewSorts (vd_Sorts vd)) = Inr cursor)"
    and run: "records_ListRecords (rv_db s) pages t ws tb vd cursor limit w = (Inr page, w')"
  shows "view w' = view w \<and> rp_Items page = take (nat limit) (drop i ms)
    \<and> (if length ms \<le> i + nat limit then rp_NextCursor page = []
       else rp_NextCursor page \<noteq> []
         \<and> encodeRecordCursor pages (ms ! (i + nat limit - 1)) (viewSorts (vd_Sorts vd)) = Inr (rp_NextCursor page))"
proof -
  let ?s = "viewSorts (vd_Sorts vd)" and ?n = "active_name (view w) t ws tb"
  from run obtain vf after n w1 rs w2 where limit: "1 \<le> limit" and vf: "mongoViewFilters (vd_Filters vd) = Inr vf"
    and after: "after_cursor pages ?s cursor = Inr after"
    and n: "activeRecordCollection (rv_db s) t ws tb w = (Inr n, w1)"
    and find: "QueryG (pg_Find pages n) (base_query t ws tb vf ?s\<lparr>rq_After := after, rq_Limit := limit + 1\<rparr>)
      ''list records'' ''decode records'' w1 = (Inr rs, w2)"
    and rest: "(if int (length rs) \<le> limit then ret \<lparr>rp_Items = rs, rp_NextCursor = []\<rparr>
      else bindG (pureG (encodeRecordCursor pages (last (take (nat limit) rs)) ?s))
        (\<lambda>next. ret \<lparr>rp_Items = take (nat limit) rs, rp_NextCursor = next\<rparr>)) w2 = (Inr page, w')"
    by (auto simp: records_ListRecords_def bindG_Inr pureG_Inr Let_def base_query_def fail_Inr split: if_splits)
  have nn: "n = ?n" using activeRecordCollection_Inr [OF s n] .
  have v1: "view w1 = view w" using keepsD [OF activeRecordCollection_keeps [OF s] n] .
  let ?q = "base_query t ws tb vf ?s\<lparr>rq_After := after, rq_Limit := limit + 1\<rparr>"
  from find have "pg_Find pages n ?q w1 = (Inr rs, w2)" by (auto simp: QueryG_def split: prod.splits sum.splits query_error.splits)
  with a [unfolded answers_queries_def, THEN spec, THEN spec, THEN spec, THEN spec, THEN spec, THEN mp, OF this] fin v1 nn
  obtain ms' where v2: "view w2 = view w" and l: "listing lt sees (pg_Lookup pages) ?q (x_records (view w) ?n) ms'"
    and rs: "rs = take (nat (limit + 1)) ms'" by (auto simp: base_query_def)
  from ms vf have whole: "listing lt sees (pg_Lookup pages) (base_query t ws tb vf ?s) (x_records (view w) ?n) ms"
    by (auto simp: full_listing_def)
  have "ms' = drop i ms"
  proof (rule listing_after [OF k p whole l])
    show "i = 0 \<and> after = None \<or> 0 < i \<and> i \<le> length ms
      \<and> after = Some (cursor_conditions [] ?s (sort_values pages ?s (ms ! (i - 1))))"
    proof (cases "i = 0")
      case True
      with cursor after show ?thesis by (simp add: after_cursor_def)
    next
      case False
      with cursor have i: "0 < i" "i \<le> length ms" and e: "encodeRecordCursor pages (ms ! (i - 1)) ?s = Inr cursor" by auto
      from i have "ms ! (i - 1) \<in> set ms" by auto
      from encode_decode_cursor [OF p this viewSorts_nonempty] e
      have "cursor \<noteq> []" "decodeRecordCursor pages cursor = Inr (sort_values pages ?s (ms ! (i - 1)))" by auto
      with after i show ?thesis by (simp add: after_cursor_def sort_values_def)
    qed
  qed
  with rs have rs: "rs = take (nat (limit + 1)) (drop i ms)" by simp
  show ?thesis
  proof (cases "length ms \<le> i + nat limit")
    case True
    then have "int (length rs) \<le> limit" "rs = drop i ms" using limit by (auto simp: rs)
    with rest v2 True show ?thesis by (auto simp: ret_Inr)
  next
    case False
    then have long: "\<not> int (length rs) \<le> limit" and t: "take (nat limit) rs = take (nat limit) (drop i ms)"
      using limit by (auto simp: rs min_def)
    have l: "last (take (nat limit) (drop i ms)) = ms ! (i + nat limit - 1)"
      using False limit by (subst last_conv_nth) (auto simp: min_def)
    then have in_ms: "ms ! (i + nat limit - 1) \<in> set ms" using False limit by auto
    from rest long t l v2 have "rp_Items page = take (nat limit) (drop i ms)" "view w' = view w"
      "encodeRecordCursor pages (ms ! (i + nat limit - 1)) ?s = Inr (rp_NextCursor page)"
      by (auto simp: go_success)
    moreover from encode_decode_cursor [OF p in_ms viewSorts_nonempty] this(3) have "rp_NextCursor page \<noteq> []" by auto
    ultimately show ?thesis using False by simp
  qed
qed


section \<open>A database in memory\<close>

text \<open>An order of all values, by kind first, and the sort that MongoDB makes with it.\<close>

fun bson_rank :: "bson_value \<Rightarrow> nat \<times> int \<times> string \<times> string list" where
  "bson_rank BNull = (0, 0, [], [])"
| "bson_rank (BInt i) = (1, i, [], [])"
| "bson_rank (BString s) = (2, 0, s, [])"
| "bson_rank (BTime t) = (3, t, [], [])"
| "bson_rank (BTags ts) = (4, 0, [], ts)"
| "bson_rank (BData t s) = (5 + t, 0, s, [])"

fun rank_less :: "nat \<times> int \<times> string \<times> string list \<Rightarrow> nat \<times> int \<times> string \<times> string list \<Rightarrow> bool" where
  "rank_less (a, i, s, ts) (b, j, s', ts') \<longleftrightarrow>
     a < b \<or> (a = b \<and> (i < j \<or> (i = j \<and> (s < s' \<or> (s = s' \<and> ts < ts')))))"

definition bson_less :: "bson_value \<Rightarrow> bson_value \<Rightarrow> bool" where
  "bson_less u v = rank_less (bson_rank u) (bson_rank v)"

lemma bson_rank_inject: "bson_rank u = bson_rank v \<longleftrightarrow> u = v"
  by (cases u; cases v) auto

lemma rank_less_linear:
  "\<not> rank_less p p" "rank_less p q \<Longrightarrow> rank_less q r \<Longrightarrow> rank_less p r" "p = q \<or> rank_less p q \<or> rank_less q p"
proof -
  obtain a i s ts b j s' ts' c k s'' ts'' where t: "p = (a, i, s, ts)" "q = (b, j, s', ts')" "r = (c, k, s'', ts'')"
    by (metis surj_pair)
  show "\<not> rank_less p p" by (simp add: t)
  show "rank_less p q \<Longrightarrow> rank_less q r \<Longrightarrow> rank_less p r"
    unfolding t rank_less.simps by (elim disjE conjE; simp) (metis less_trans)+
  show "p = q \<or> rank_less p q \<or> rank_less q p" unfolding t rank_less.simps Pair_inject by (metis linorder_less_linear)
qed

lemma bson_less_linear:
  "\<not> bson_less u u" "bson_less u v \<Longrightarrow> bson_less v w \<Longrightarrow> bson_less u w" "u = v \<or> bson_less u v \<or> bson_less v u"
  using rank_less_linear bson_rank_inject unfolding bson_less_def by blast+

lemma sorted_before_trans:
  "\<not> sorted_before bson_less look s b a \<Longrightarrow> \<not> sorted_before bson_less look s c b \<Longrightarrow> \<not> sorted_before bson_less look s c a"
proof (induction s)
  case (Cons pd s)
  obtain path d where pd: "pd = (path, d)" by force
  let ?u = "path_value look a path" and ?v = "path_value look b path" and ?w = "path_value look c path"
  note lin = bson_less_linear
  from Cons.prems have one: "\<not> (if d = -1 then bson_less ?u ?v else bson_less ?v ?u)"
    "?v = ?u \<Longrightarrow> \<not> sorted_before bson_less look s b a"
    "\<not> (if d = -1 then bson_less ?v ?w else bson_less ?w ?v)" "?w = ?v \<Longrightarrow> \<not> sorted_before bson_less look s c b"
    unfolding pd by (simp_all add: Let_def)
  have "\<not> (if d = -1 then bson_less ?u ?w else bson_less ?w ?u)"
    using one(1,3) lin(1)[of ?u] lin(2)[of ?u ?w ?v] lin(2)[of ?v ?u ?w] lin(2)[of ?w ?u ?v] lin(2)[of ?v ?w ?u] lin(3)[of ?u ?v] lin(3)[of ?v ?w]
    by (metis (full_types))
  moreover have "?w = ?u \<Longrightarrow> \<not> sorted_before bson_less look s c a"
    using one Cons.IH lin(1)[of ?u] lin(3)[of ?u ?v] by (metis (full_types))
  ultimately show ?case unfolding pd by (simp add: Let_def)
qed simp

fun insert_before :: "('a \<Rightarrow> 'a \<Rightarrow> bool) \<Rightarrow> 'a \<Rightarrow> 'a list \<Rightarrow> 'a list" where
  "insert_before P x [] = [x]"
| "insert_before P x (y # ys) = (if P y x then y # insert_before P x ys else x # y # ys)"

lemma insert_before_mset: "set (insert_before P x ys) = insert x (set ys)" "distinct (insert_before P x ys) = (x \<notin> set ys \<and> distinct ys)"
  by (induction ys) auto

lemma insert_before_sorted:
  assumes "\<And>a b c. \<not> P b a \<Longrightarrow> \<not> P c b \<Longrightarrow> \<not> P c a" "\<And>a b. P a b \<Longrightarrow> \<not> P b a"
  shows "sorted_wrt (\<lambda>a b. \<not> P b a) ys \<Longrightarrow> sorted_wrt (\<lambda>a b. \<not> P b a) (insert_before P x ys)"
proof (induction ys)
  case (Cons y ys)
  show ?case
  proof (cases "P y x")
    case True
    with Cons assms(2) [OF True] show ?thesis by (auto simp: insert_before_mset)
  next
    case False
    with Cons.prems assms(1) [OF False] show ?thesis by auto
  qed
qed simp

definition memory_listing ::
  "((string \<times> (query_op \<times> view_value) list) list \<Rightarrow> Record \<Rightarrow> bool) \<Rightarrow> bson_lookup \<Rightarrow> record_query \<Rightarrow> Record list \<Rightarrow> Record list" where
  "memory_listing sees look q rs =
     foldr (insert_before (sorted_before bson_less look (rq_Sort q))) (filter (query_matches bson_less sees look q) rs) []"

lemma sorted_before_asym: "sorted_before bson_less look s a b \<Longrightarrow> \<not> sorted_before bson_less look s b a"
proof (induction s)
  case (Cons pd s)
  obtain path d where pd: "pd = (path, d)" by force
  from Cons bson_less_linear(1,2) show ?case unfolding pd by (simp add: Let_def) (metis (full_types))
qed simp

lemma memory_listing_facts:
  assumes "distinct rs" "set rs = ran docs"
  shows "listing bson_less sees look q docs (memory_listing sees look q rs)"
proof -
  let ?P = "sorted_before bson_less look (rq_Sort q)"
  have "distinct xs \<Longrightarrow> set (foldr (insert_before ?P) xs []) = set xs \<and> distinct (foldr (insert_before ?P) xs [])
      \<and> sorted_wrt (\<lambda>a b. \<not> ?P b a) (foldr (insert_before ?P) xs [])" for xs
  proof (induction xs)
    case (Cons x xs)
    then show ?case using insert_before_sorted [of ?P, OF sorted_before_trans sorted_before_asym]
      by (simp add: insert_before_mset)
  qed simp
  from this [of "filter (query_matches bson_less sees look q) rs"] assms show ?thesis
    unfolding listing_def memory_listing_def by auto
qed


end
