(* ===== verification/Export.thy ===== *)
theory Export
  imports RecordQueries GoTime GoMap "HOL-Library.Product_Lexorder"
begin

text \<open>
  \<open>records/export.go\<close>: a bounded export of the records of a view as JSON lines or CSV. The loop
  over the pages is \<open>export_loop\<close>, a partial function, so that its termination is a theorem. The
  data of a record as a Go map and the audit writer are parameters.
\<close>

section \<open>Columns and values\<close>

definition maxExportRows :: nat where
  "maxExportRows = 10000"

definition maxExportBytes :: nat where
  "maxExportBytes = 10485760"

definition exportPageSize :: int where
  "exportPageSize = 100"

record ExportInput =
  xi_TenantID :: string
  xi_WorkspaceID :: string
  xi_TableID :: string
  xi_ViewID :: string
  xi_Format :: string
  xi_RequestID :: string

record ExportResult =
  xr_ExportID :: string
  xr_ContentType :: string
  xr_Body :: string
  xr_RowCount :: int
  xr_RedactedFields :: "string list"

definition forbiddenExportFields :: "string list" where
  "forbiddenExportFields =
     [''rawpayload'', ''workflowinput'', ''accesstoken'', ''refreshtoken'', ''privatekey'', ''secret'', ''sealedbid'',
      ''quote'', ''bankaccount'', ''invoiceattachment'']"

definition isForbiddenExportField :: "string \<Rightarrow> bool" where
  "isForbiddenExportField field =
     (last (SplitOn (CHR ''.'') (TrimPrefix (ToLower (TrimSpace field)) ''data.'')) \<in> set forbiddenExportFields)"

text \<open>The columns of a view, without blank, forbidden and repeated ones; and the forbidden ones.\<close>

fun allowed_columns :: "string set \<Rightarrow> string list \<Rightarrow> string list" where
  "allowed_columns seen [] = []"
| "allowed_columns seen (raw # columns) =
     (let column = TrimSpace raw
      in if column = [] \<or> isForbiddenExportField column \<or> column \<in> seen then allowed_columns seen columns
         else column # allowed_columns (insert column seen) columns)"

definition exportColumns :: "string list \<Rightarrow> string list \<times> string list" where
  "exportColumns columns =
     (let allowed = allowed_columns {} columns
      in (if ''id'' \<in> set allowed then allowed else ''id'' # allowed,
          sort (remdups (filter isForbiddenExportField (filter (\<lambda>c. c \<noteq> []) (map TrimSpace columns))))))"

text \<open>A value in the data: maps are objects, and only maps have members.\<close>

fun walk_path :: "json \<Rightarrow> string list \<Rightarrow> json option" where
  "walk_path v [] = Some v"
| "walk_path (JObject kvs) (p # ps) = (case map_of kvs p of None \<Rightarrow> None | Some v \<Rightarrow> walk_path v ps)"
| "walk_path _ (p # ps) = None"

definition exportValue :: "(string \<Rightarrow> (string \<times> json) list option) \<Rightarrow> Record \<Rightarrow> string \<Rightarrow> json option" where
  "exportValue document r column =
     (if column = ''id'' then Some (JString (rec_ID r))
      else if column = ''tags'' then Some (JArray (map JString (rec_Tags r)))
      else if column = ''recordVersion'' then Some (JNumber (itoa (rec_RecordVersion r)))
      else if column = ''schemaVersion'' then Some (JNumber (itoa (rec_SchemaVersion r)))
      else if column = ''createdAt'' then Some (JString (RFC3339Nano (rec_CreatedAt r)))
      else if column = ''updatedAt'' then Some (JString (RFC3339Nano (rec_UpdatedAt r)))
      else case strip_prefix ''data.'' column of
        None \<Rightarrow> None
      | Some path \<Rightarrow>
          (case document (rec_Data r) of
             None \<Rightarrow> None
           | Some d \<Rightarrow> walk_path (JObject d) (SplitOn (CHR ''.'') path)))"

type_synonym export_row = "(string \<times> json) list"

definition export_row :: "(string \<Rightarrow> (string \<times> json) list option) \<Rightarrow> string list \<Rightarrow> Record \<Rightarrow> export_row" where
  "export_row document columns r =
     fold (\<lambda>column row. case exportValue document r column of None \<Rightarrow> row | Some v \<Rightarrow> map_set column v row) columns []"

section \<open>Encoding\<close>

text \<open>\<open>json.Marshal\<close> refuses numbers that JSON does not have, such as infinities.\<close>

fun json_numbers :: "json \<Rightarrow> bool" where
  "json_numbers (JNumber n) = (parse_number n = Some (n, []))"
| "json_numbers (JArray vs) = list_all json_numbers vs"
| "json_numbers (JObject kvs) = list_all (\<lambda>kv. json_numbers (snd kv)) kvs"
| "json_numbers _ = True"

definition Marshal :: "json \<Rightarrow> string option" where
  "Marshal v = (if json_numbers v then Some (marshal v) else None)"

text \<open>Fields and lines of \<open>encoding/csv\<close>.\<close>

definition fieldNeedsQuotes :: "string \<Rightarrow> bool" where
  "fieldNeedsQuotes field =
     (field \<noteq> [] \<and> (field = [CHR 0x5C, CHR ''.'']
        \<or> list_ex (\<lambda>c. c \<in> {CHR 0x0A, CHR 0x0D, CHR 0x22, CHR '',''}) field \<or> strip_any space_runes field \<noteq> None))"

definition csv_field :: "string \<Rightarrow> string" where
  "csv_field field =
     (if fieldNeedsQuotes field
      then [CHR 0x22] @ concat (map (\<lambda>c. if c = CHR 0x22 then [CHR 0x22, CHR 0x22] else [c]) field) @ [CHR 0x22]
      else field)"

definition csv_line :: "string list \<Rightarrow> string" where
  "csv_line fs = JoinWith '','' (map csv_field fs) @ [CHR 0x0A]"

fun encode_lines :: "export_row list \<Rightarrow> string option" where
  "encode_lines [] = Some []"
| "encode_lines (row # rows) =
     (case Marshal (JObject row) of
        None \<Rightarrow> None
      | Some encoded \<Rightarrow> map_option (\<lambda>rest. encoded @ [CHR 0x0A] @ rest) (encode_lines rows))"

fun encode_values :: "export_row \<Rightarrow> string list \<Rightarrow> string list option" where
  "encode_values row [] = Some []"
| "encode_values row (column # columns) =
     (case map_of row column of
        None \<Rightarrow> map_option (\<lambda>rest. [] # rest) (encode_values row columns)
      | Some v \<Rightarrow>
          (case Marshal v of
             None \<Rightarrow> None
           | Some encoded \<Rightarrow> map_option (\<lambda>rest. encoded # rest) (encode_values row columns)))"

fun encode_csv :: "string list \<Rightarrow> export_row list \<Rightarrow> string option" where
  "encode_csv columns [] = Some []"
| "encode_csv columns (row # rows) =
     (case encode_values row columns of
        None \<Rightarrow> None
      | Some values \<Rightarrow> map_option (\<lambda>rest. csv_line values @ rest) (encode_csv columns rows))"

definition encodeExport :: "export_row list \<Rightarrow> string list \<Rightarrow> string \<Rightarrow> goerr + string \<times> string" where
  "encodeExport rows columns format =
     (if format = ''jsonl''
      then (case encode_lines rows of
          None \<Rightarrow> Inl (Wrap ''encode JSONL export'' (External ''unsupported value''))
        | Some body \<Rightarrow> Inr (body, ''application/x-ndjson''))
      else (case encode_csv columns rows of
          None \<Rightarrow> Inl (Wrap ''encode CSV value'' (External ''unsupported value''))
        | Some body \<Rightarrow> Inr (csv_line columns @ body, ''text/csv; charset=utf-8'')))"

section \<open>The loop over the pages\<close>

fun add_rows :: "(Record \<Rightarrow> export_row) \<Rightarrow> export_row list \<Rightarrow> Record list \<Rightarrow> goerr + export_row list" where
  "add_rows row rows [] = Inr rows"
| "add_rows row rows (r # rs) =
     (if length rows \<ge> maxExportRows then Inl (RecordsErr ErrExportTooLarge) else add_rows row (rows @ [row r]) rs)"

partial_function (option) export_loop ::
  "(string \<Rightarrow> ('w, RecordPage) go) \<Rightarrow> (Record \<Rightarrow> export_row) \<Rightarrow> export_row list \<Rightarrow> string \<Rightarrow> 'w
     \<Rightarrow> ((goerr + export_row list) \<times> 'w) option" where
  "export_loop read row rows cursor w =
     (case read cursor w of
        (Inl e, w') \<Rightarrow> Some (Inl e, w')
      | (Inr page, w') \<Rightarrow>
          (case add_rows row rows (rp_Items page) of
             Inl e \<Rightarrow> Some (Inl e, w')
           | Inr rows' \<Rightarrow>
               if rp_NextCursor page = [] then Some (Inr rows', w')
               else export_loop read row rows' (rp_NextCursor page) w'))"

section \<open>The export\<close>

definition unix_nano :: "time \<Rightarrow> int" where
  "unix_nano t = t - 62135596800000000000"

definition exportID :: "ExportInput \<Rightarrow> string \<Rightarrow> time \<Rightarrow> string" where
  "exportID input viewID now =
     ''export-'' @ take 24 (sha256_hex (JoinWith [CHR 0x00]
        [xi_TenantID input, xi_WorkspaceID input, xi_TableID input, viewID, xi_RequestID input, itoa (unix_nano now)]))"

definition auditEntryForExport ::
  "ExportInput \<Rightarrow> Principal \<Rightarrow> string \<Rightarrow> int \<Rightarrow> string list \<Rightarrow> string list \<Rightarrow> string \<Rightarrow> time \<Rightarrow> AuditEntry" where
  "auditEntryForExport input prin ident rowCount fieldSet redacted afterHash occurredAt =
     empty_AuditEntry\<lparr>ae_TenantID := xi_TenantID input, ae_WorkspaceID := xi_WorkspaceID input, ae_Action := ''record.export'',
       ae_Actor := identityKey prin, ae_ResourceType := ''redacted_export'', ae_ResourceID := ident,
       ae_ResourceVersion := rowCount, ae_RequestID := xi_RequestID input,
       ae_BeforeHash := sha256_ref (JoinWith [CHR 0x00]
         [xi_TenantID input, xi_WorkspaceID input, xi_TableID input, xi_ViewID input]),
       ae_AfterHash := afterHash, ae_ViewID := xi_ViewID input, ae_FieldSet := fieldSet, ae_RedactedFields := redacted,
       ae_CreatedAt := occurredAt\<rparr>"

text \<open>What follows the loop: encoding, the size limit and the audit entry.\<close>

definition finish_export ::
  "('w, 'v) RecordService \<Rightarrow> Principal \<Rightarrow> ExportInput \<Rightarrow> string list \<Rightarrow> string list \<Rightarrow> string \<Rightarrow> export_row list
     \<Rightarrow> ('w, ExportResult) go" where
  "finish_export s prin input columns redacted format rows =
     bindG (pureG (encodeExport rows columns format)) (\<lambda>(body, contentType).
       if length body > maxExportBytes then fail (RecordsErr ErrExportTooLarge)
       else bindG (nowG (rv_Now s)) (\<lambda>now.
         let ident = exportID input (xi_ViewID input) now in
         bindG (nowG (rv_Now s)) (\<lambda>occurredAt.
         bindG (wrapG ''append export audit''
             (rv_audit s (auditEntryForExport input prin ident (int (length rows)) columns redacted (sha256_ref body) occurredAt))) (\<lambda>_.
           ret \<lparr>xr_ExportID = ident, xr_ContentType = contentType, xr_Body = body, xr_RowCount = int (length rows),
                xr_RedactedFields = redacted\<rparr>))))"

definition export_view :: "('w, 'v) RecordService \<Rightarrow> Principal \<Rightarrow> ExportInput \<Rightarrow> ('w, string \<times> ViewDefinition) go" where
  "export_view s prin input =
     bindG (Authorize (Some (rv_members s)) prin (xi_TenantID input) (xi_WorkspaceID input) ActionExportRead) (\<lambda>_.
       if blank (xi_ViewID input) then fail (RecordsErr ErrExportViewRequired)
       else let format = ToLower (TrimSpace (xi_Format input)) in
         if format \<noteq> ''jsonl'' \<and> format \<noteq> ''csv'' then fail (RecordsErr ErrExportFormat)
         else bindG (records_GetView (rv_db s) (xi_TenantID input) (xi_WorkspaceID input) (xi_TableID input) (xi_ViewID input))
           (\<lambda>vd. ret (format, vd)))"

definition export_read :: "('w, 'v) RecordService \<Rightarrow> 'w record_pages \<Rightarrow> ExportInput \<Rightarrow> ViewDefinition \<Rightarrow> string \<Rightarrow> ('w, RecordPage) go" where
  "export_read s pages input vd cursor =
     records_ListRecords (rv_db s) pages (xi_TenantID input) (xi_WorkspaceID input) (xi_TableID input) vd cursor exportPageSize"

definition ExportRecords ::
  "('w, 'v) RecordService \<Rightarrow> 'w record_pages \<Rightarrow> (string \<Rightarrow> (string \<times> json) list option) \<Rightarrow> Principal \<Rightarrow> ExportInput
     \<Rightarrow> 'w \<Rightarrow> ((goerr + ExportResult) \<times> 'w) option" where
  "ExportRecords s pages document prin input w =
     (case export_view s prin input w of
        (Inl e, w') \<Rightarrow> Some (Inl e, w')
      | (Inr (format, vd), w') \<Rightarrow>
          (let (columns, redacted) = exportColumns (vd_Columns vd)
           in case export_loop (export_read s pages input vd) (export_row document columns) [] [] w' of
                None \<Rightarrow> None
              | Some (Inl e, w2) \<Rightarrow> Some (Inl e, w2)
              | Some (Inr rows, w2) \<Rightarrow> Some (finish_export s prin input columns redacted format rows w2)))"

section \<open>Termination\<close>

lemma add_rows_Inr: "add_rows row rows rs = Inr rows' \<longleftrightarrow> rows' = rows @ map row rs \<and> (rs = [] \<or> length rows' \<le> maxExportRows)"
proof (induction row rows rs rule: add_rows.induct)
  case (2 row rows r rs)
  then show ?case by (cases rs) auto
qed auto

lemma export_loop_terminates:
  assumes "\<And>cursor w page w'. read cursor w = (Inr page, w') \<Longrightarrow> rp_NextCursor page \<noteq> [] \<Longrightarrow> rp_Items page \<noteq> []"
  shows "\<exists>y. export_loop read row rows cursor w = Some y"
proof (induction "Suc maxExportRows - length rows" arbitrary: rows cursor w rule: less_induct)
  case less
  show ?case
  proof (cases "read cursor" w rule: run_cases)
    case (failed e w')
    then show ?thesis by (simp add: export_loop.simps)
  next
    case (finished page w')
    show ?thesis
    proof (cases "add_rows row rows (rp_Items page)")
      case (Inl e)
      with finished show ?thesis by (simp add: export_loop.simps)
    next
      case (Inr rows')
      show ?thesis
      proof (cases "rp_NextCursor page = []")
        case True
        with finished Inr show ?thesis by (simp add: export_loop.simps)
      next
        case False
        with assms finished have "rp_Items page \<noteq> []" by blast
        with Inr [unfolded add_rows_Inr] have "Suc maxExportRows - length rows' < Suc maxExportRows - length rows"
          by (cases "rp_Items page") auto
        from less [OF this, of "rp_NextCursor page" w'] finished Inr False show ?thesis
          by (subst export_loop.simps) simp
      qed
    qed
  qed
qed

text \<open>
  C20: An export always ends, whatever the database answers: every page with a cursor is full, so
  the loop stops at the latest when the limit of rows is passed.
\<close>

theorem ExportRecords_terminates: "\<exists>y. ExportRecords s pages document prin input w = Some y"
proof -
  have loop: "\<exists>y. export_loop (export_read s pages input vd) row [] [] w' = Some y" for vd row w'
  proof (rule export_loop_terminates)
    fix cursor w page w' assume "export_read s pages input vd cursor w = (Inr page, w')" "rp_NextCursor page \<noteq> []"
    with ListRecords_full(2) show "rp_Items page \<noteq> []" unfolding export_read_def exportPageSize_def by fastforce
  qed
  show ?thesis
  proof (cases "export_view s prin input" w rule: run_cases)
    case (finished fv w')
    obtain format vd columns redacted where f: "fv = (format, vd)" "exportColumns (vd_Columns vd) = (columns, redacted)"
      by (metis surj_pair)
    obtain x w2 where "export_loop (export_read s pages input vd) (export_row document columns) [] [] w' = Some (x, w2)"
      using loop by (metis surj_pair)
    with finished f show ?thesis by (cases x) (simp_all add: ExportRecords_def)
  qed (simp add: ExportRecords_def)
qed

section \<open>What an export contains\<close>

lemma allowed_columns_facts:
  "(\<forall>c \<in> set (allowed_columns seen cs). c \<noteq> [] \<and> \<not> isForbiddenExportField c \<and> c \<in> TrimSpace ` set cs \<and> c \<notin> seen)
     \<and> distinct (allowed_columns seen cs)"
proof (induction seen cs rule: allowed_columns.induct)
  case (2 seen raw columns)
  define c where "c = TrimSpace raw"
  have e: "allowed_columns seen (raw # columns) =
      (if c = [] \<or> isForbiddenExportField c \<or> c \<in> seen then allowed_columns seen columns
       else c # allowed_columns (insert c seen) columns)" by (simp add: c_def Let_def)
  note ih = 2 [OF c_def]
  show ?case
  proof (cases "c = [] \<or> isForbiddenExportField c \<or> c \<in> seen")
    case True
    from ih(1) [OF True] True show ?thesis unfolding e by simp
  next
    case False
    from ih(2) [OF False] False show ?thesis unfolding e by (auto simp: c_def [symmetric])
  qed
qed simp

lemma id_allowed: "\<not> isForbiddenExportField ''id''"
  by code_simp

lemma exportColumns_facts:
  assumes "exportColumns cs = (columns, redacted)"
  shows "\<forall>c \<in> set columns. \<not> isForbiddenExportField c" "distinct columns" "''id'' \<in> set columns"
    "set redacted = {c \<in> TrimSpace ` set cs. c \<noteq> [] \<and> isForbiddenExportField c}" "sorted redacted \<and> distinct redacted"
proof -
  let ?a = "allowed_columns {} cs"
  from assms have c: "columns = (if ''id'' \<in> set ?a then ?a else ''id'' # ?a)"
    and r: "redacted = sort (remdups (filter isForbiddenExportField (filter (\<lambda>c. c \<noteq> []) (map TrimSpace cs))))"
    by (simp_all add: exportColumns_def Let_def)
  note a = allowed_columns_facts [of "{}" cs]
  show "\<forall>c \<in> set columns. \<not> isForbiddenExportField c" unfolding c using a id_allowed by simp
  show "distinct columns" "''id'' \<in> set columns" unfolding c using a by simp_all
  show "set redacted = {c \<in> TrimSpace ` set cs. c \<noteq> [] \<and> isForbiddenExportField c}" unfolding r by auto
  show "sorted redacted \<and> distinct redacted" unfolding r by simp
qed

lemma map_set_keys: "set (map fst (map_set k v kvs)) = insert k (set (map fst kvs))"
  by (induction k v kvs rule: map_set.induct) auto

lemma export_row_keys: "set (map fst (export_row document columns r)) \<subseteq> set columns"
proof -
  have "set (map fst (fold (\<lambda>c row. case exportValue document r c of None \<Rightarrow> row | Some v \<Rightarrow> map_set c v row) cs acc))
      \<subseteq> set (map fst acc) \<union> set cs" for cs acc
  proof (induction cs arbitrary: acc)
    case (Cons c cs)
    show ?case using Cons [of "case exportValue document r c of None \<Rightarrow> acc | Some v \<Rightarrow> map_set c v acc"] map_set_keys [of c _ acc]
      by (cases "exportValue document r c") auto
  qed simp
  from this [of columns "[]"] show ?thesis by (simp add: export_row_def)
qed

text \<open>The loop over pages that list \<open>ms\<close>: \<open>at i cursor\<close> is a cursor for what follows the first \<open>i\<close>.\<close>

lemma export_loop_lists:
  assumes read: "\<And>i cursor w page w'. at i cursor \<Longrightarrow> i \<le> length ms \<Longrightarrow> view w = v \<Longrightarrow> read cursor w = (Inr page, w') \<Longrightarrow>
      view w' = v \<and> rp_Items page = take 100 (drop i ms)
      \<and> (if length ms \<le> i + 100 then rp_NextCursor page = [] else rp_NextCursor page \<noteq> [] \<and> at (i + 100) (rp_NextCursor page))"
  shows "at i cursor \<Longrightarrow> i \<le> length ms \<Longrightarrow> i \<le> maxExportRows \<Longrightarrow> view w = v \<Longrightarrow>
    export_loop read row (map row (take i ms)) cursor w = Some (Inr rows, w') \<Longrightarrow>
    rows = map row ms \<and> length ms \<le> maxExportRows \<and> view w' = v"
proof (induction "length ms - i" arbitrary: i cursor w rule: less_induct)
  case less
  from less.prems(5) obtain page w1 where page: "read cursor w = (Inr page, w1)"
    by (subst (asm) export_loop.simps) (auto split: prod.splits sum.splits)
  note r = read [OF less.prems(1,2,4) page]
  from r have "map row (take i ms) @ map row (rp_Items page) = map row (take (i + 100) ms)" by (simp add: take_add)
  with less.prems(5) page obtain rows1 where rows1: "add_rows row (map row (take i ms)) (rp_Items page) = Inr rows1"
    "rows1 = map row (take (i + 100) ms)"
    and rest: "(if rp_NextCursor page = [] then Some (Inr rows1, w1) else export_loop read row rows1 (rp_NextCursor page) w1) = Some (Inr rows, w')"
    by (subst (asm) export_loop.simps) (auto simp: add_rows_Inr split: sum.splits)
  from rows1(1) have "rp_Items page = [] \<or> length rows1 \<le> maxExportRows" unfolding add_rows_Inr by blast
  then have len: "length (take (i + 100) ms) \<le> maxExportRows" using r less.prems(2,3) rows1(2) by (auto simp: take_add)
  show ?case
  proof (cases "length ms \<le> i + 100")
    case True
    with rest rows1(2) r len show ?thesis by simp
  next
    case False
    from less.hyps [of "i + 100" "rp_NextCursor page" w1] False r rest rows1(2) len show ?thesis by (simp add: min_def split: if_splits)
  qed
qed

lemmas export_loop_induct = export_loop.raw_induct [rotated, consumes 1, case_names step]

lemma export_loop_keeps:
  assumes "export_loop read row rows cursor w = Some y" "\<And>cursor w x w'. read cursor w = (x, w') \<Longrightarrow> view w' = view w"
  shows "view (snd y) = view w"
  using assms
proof (induction rule: export_loop_induct)
  case (step loop read row rows cursor w y)
  obtain x w1 where r: "read cursor w = (x, w1)" by force
  with step.prems have v: "view w1 = view w" by blast
  show ?case
  proof (cases x)
    case (Inl e)
    with step.hyps r v show ?thesis by auto
  next
    case page: (Inr page)
    show ?thesis
    proof (cases "add_rows row rows (rp_Items page)")
      case (Inl e)
      with step.hyps r v page show ?thesis by auto
    next
      case (Inr rows')
      from step.hyps r v page Inr step.IH [OF _ step.prems] show ?thesis by (auto split: if_splits)
    qed
  qed
qed

lemma export_loop_rows:
  assumes "export_loop read row rows cursor w = Some y" "set rows \<subseteq> range row" "length rows \<le> maxExportRows" "fst y = Inr rows'"
  shows "set rows' \<subseteq> range row \<and> length rows' \<le> maxExportRows"
  using assms
proof (induction rule: export_loop_induct)
  case (step loop read row rows cursor w y)
  from step.hyps step.prems(3) obtain page :: RecordPage and w1 rows1 where a: "add_rows row rows (rp_Items page) = Inr rows1"
    and rest: "(if rp_NextCursor page = [] then Some (Inr rows1, w1) else loop read row rows1 (rp_NextCursor page) w1) = Some y"
    by (simp split: prod.splits sum.splits; (blast | auto))
  from a step.prems(1,2) have one: "set rows1 \<subseteq> range row" "length rows1 \<le> maxExportRows"
    unfolding add_rows_Inr by auto
  show ?case
  proof (cases "rp_NextCursor page = []")
    case True
    with rest one step.prems(3) show ?thesis by auto
  next
    case False
    with rest have "loop read row rows1 (rp_NextCursor page) w1 = Some y" by simp
    from step.IH [OF this one step.prems(3)] show ?thesis .
  qed
qed

text \<open>Reading a view leaves the records alone.\<close>

definition views_apart :: "('w, 'v) RecordService \<Rightarrow> ('w \<Rightarrow> RecordsDB) \<Rightarrow> bool" where
  "views_apart s view \<longleftrightarrow> reads_only (c_FindOne (rd_views (rv_db s))) view"

lemma export_view_run:
  assumes s: "records_serves s M view" and "views_apart s view" and run: "export_view s prin input w = (x, w')"
  shows "view w' = view w"
    and "x = Inr (format, vd) \<Longrightarrow> granted M prin (xi_TenantID input) (xi_WorkspaceID input) ActionExportRead
      \<and> format = ToLower (TrimSpace (xi_Format input)) \<and> format \<in> {''jsonl'', ''csv''}
      \<and> (\<exists>w0. records_GetView (rv_db s) (xi_TenantID input) (xi_WorkspaceID input) (xi_TableID input) (xi_ViewID input) w0 = (Inr vd, w'))"
proof -
  have "keeps view (FindG (rd_views (rv_db s)) k l)" for k l
  proof (rule keepsI)
    fix w r w' assume r: "FindG (rd_views (rv_db s)) k l w = (r, w')"
    obtain y w1 where y: "c_FindOne (rd_views (rv_db s)) k w = (y, w1)" by force
    with assms(2) have "view w1 = view w" unfolding views_apart_def reads_only_def by (metis snd_conv)
    with r y show "view w' = view w" by (cases y) (auto simp: FindG_def)
  qed
  then have "keeps view (records_GetView (rv_db s) t ws tb i)" for t ws tb i
    unfolding records_GetView_def by (rule keeps_bindG) (intro keeping)
  then have "keeps view (export_view s prin input)"
    unfolding export_view_def Let_def by (intro keeping Authorize_keeps [OF records_servesD(6) [OF s]])
  then show "view w' = view w" using run by (rule keepsD)
  show "x = Inr (format, vd) \<Longrightarrow> granted M prin (xi_TenantID input) (xi_WorkspaceID input) ActionExportRead
      \<and> format = ToLower (TrimSpace (xi_Format input)) \<and> format \<in> {''jsonl'', ''csv''}
      \<and> (\<exists>w0. records_GetView (rv_db s) (xi_TenantID input) (xi_WorkspaceID input) (xi_TableID input) (xi_ViewID input) w0 = (Inr vd, w'))"
    using run Authorize_granted [OF records_servesD(6) [OF s]]
    by (auto simp: export_view_def bindG_Inr fail_Inr ret_Inr Let_def split: if_splits)
qed

lemma export_read_keeps:
  assumes s: "records_serves s M view" and a: "answers_queries lt sees pages view"
    and run: "export_read s pages input vd cursor w = (x, w')"
  shows "view w' = view w"
proof -
  have "view (snd (pg_Find pages n q w)) = view w" for n q w
    using a unfolding answers_queries_def by (metis prod.collapse)
  then have "reads_only (pg_Find pages n) view" for n by (simp add: reads_only_def)
  then have "keeps view (export_read s pages input vd cursor)"
    unfolding export_read_def records_ListRecords_def Let_def by (intro keeping activeRecordCollection_keeps [OF s])
  then show ?thesis using run by (rule keepsD)
qed

lemma finish_export_Inr:
  assumes s: "records_serves s M view" and run: "finish_export s prin input columns redacted format rows w = (Inr result, w')"
  shows "encodeExport rows columns format = Inr (xr_Body result, xr_ContentType result)
    \<and> length (xr_Body result) \<le> maxExportBytes \<and> xr_RowCount result = int (length rows) \<and> xr_RedactedFields result = redacted
    \<and> (\<exists>occurredAt. view w' = (view w)\<lparr>x_audit := x_audit (view w) @ [auditEntryForExport input prin (xr_ExportID result)
          (int (length rows)) columns redacted (sha256_ref (xr_Body result)) occurredAt]\<rparr>)"
proof -
  from run obtain body ct now w1 at w2 u where e: "encodeExport rows columns format = Inr (body, ct)" "length body \<le> maxExportBytes"
    and t: "nowG (rv_Now s) w = (Inr now, w1)" "nowG (rv_Now s) w1 = (Inr at, w2)"
    and a: "rv_audit s (auditEntryForExport input prin (exportID input (xi_ViewID input) now) (int (length rows)) columns redacted
      (sha256_ref body) at) w2 = (Inr u, w')"
    and r: "result = \<lparr>xr_ExportID = exportID input (xi_ViewID input) now, xr_ContentType = ct, xr_Body = body,
      xr_RowCount = int (length rows), xr_RedactedFields = redacted\<rparr>"
    by (auto simp: finish_export_def go_success wrapG_Inr Let_def split: if_splits)
  from keepsD [OF records_servesD(7) [OF s] t(1)] keepsD [OF records_servesD(7) [OF s] t(2)] have v: "view w2 = view w" by simp
  from receipt_store.append_adds [OF records_servesD(4) [OF s] a] v e r show ?thesis by auto
qed

lemma ExportRecords_Inr:
  assumes "ExportRecords s pages document prin input w = Some (Inr result, w')"
  obtains format vd w1 columns redacted rows w2 where
    "export_view s prin input w = (Inr (format, vd), w1)" "exportColumns (vd_Columns vd) = (columns, redacted)"
    "export_loop (export_read s pages input vd) (export_row document columns) [] [] w1 = Some (Inr rows, w2)"
    "finish_export s prin input columns redacted format rows w2 = (Inr result, w')"
proof (cases "export_view s prin input" w rule: run_cases)
  case (finished fv w1)
  obtain format vd columns redacted where f: "fv = (format, vd)" "exportColumns (vd_Columns vd) = (columns, redacted)"
    by (metis surj_pair)
  from ExportRecords_terminates obtain x w2 where l:
    "export_loop (export_read s pages input vd) (export_row document columns) [] [] w1 = Some (x, w2)"
    using assms finished f by (auto simp: ExportRecords_def split: option.splits)
  with assms finished f obtain rows where "x = Inr rows" "finish_export s prin input columns redacted format rows w2 = (Inr result, w')"
    by (cases x) (auto simp: ExportRecords_def)
  with that finished f l show ?thesis by blast
qed (use assms in \<open>simp add: ExportRecords_def\<close>)



section \<open>A database in memory\<close>

definition memory_docs :: "string \<Rightarrow> RecordsDB \<Rightarrow> Record list" where
  "memory_docs n v = remdups (map (\<lambda>k. the (x_records v n k)) (sorted_list_of_set (dom (x_records v n))))"

text \<open>A codec for cursors of identifiers.\<close>

definition memory_pages :: "RecordsDB record_pages" where
  "memory_pages =
     \<lparr>pg_Find = (\<lambda>n q v. (Inr (take (nat (rq_Limit q)) (memory_listing (\<lambda>_ _. True) (\<lambda>_ _. BNull) q (memory_docs n v))), v)),
      pg_Lookup = (\<lambda>_ _. BNull),
      pg_Marshal = (\<lambda>vs. case vs of [BString s] \<Rightarrow> Inr (CHR ''i'' # s) | _ \<Rightarrow> Inl ''not an identifier''),
      pg_Unmarshal = (\<lambda>s. case s of [] \<Rightarrow> None | _ # i \<Rightarrow> Some [BString i])\<rparr>"

lemma memory_pages_answer: "answers_queries bson_less (\<lambda>_ _. True) memory_pages (\<lambda>v. v)"
proof -
  have "distinct (memory_docs n v) \<and> set (memory_docs n v) = ran (x_records v n)" if "finite (dom (x_records v n))" for n v
    using that by (force simp: memory_docs_def ran_def dom_def image_iff)
  then show ?thesis
    unfolding answers_queries_def by (auto simp: memory_pages_def intro!: exI memory_listing_facts)
qed

definition sample_view :: ViewDefinition where
  "sample_view = \<lparr>vd_ID = ''v'', vd_TenantID = ''t'', vd_WorkspaceID = ''w'', vd_TableID = ''tb'', vd_Name = ''n'',
     vd_Columns = [''secret''], vd_Filters = [], vd_Sorts = [], vd_Version = 1, vd_CreatedBy = identityKey sample_owner,
     vd_UpdatedBy = identityKey sample_owner, vd_CreatedAt = 1, vd_UpdatedAt = 1\<rparr>"

definition sample_export_service :: "(RecordsDB, unit) RecordService" where
  "sample_export_service = sample_record_service\<lparr>rv_db := memory_records\<lparr>rd_views :=
     memory_collection view_key (\<lambda>_. [(''t'', ''w'', ''tb'', ''v'') \<mapsto> sample_view]) (\<lambda>_ v. v)\<rparr>\<rparr>"

definition exported_record :: Record where
  "exported_record = new_record sample_owner sample_input sample_custom [] [] 5"

definition sample_export_state :: RecordsDB where
  "sample_export_state = sample_records\<lparr>x_records := (\<lambda>_. Map.empty)(records_collection := [doc_key exported_record \<mapsto> exported_record])\<rparr>"

definition sample_export :: ExportInput where
  "sample_export = \<lparr>xi_TenantID = ''t'', xi_WorkspaceID = ''w'', xi_TableID = ''tb'', xi_ViewID = ''v'', xi_Format = ''jsonl'', xi_RequestID = ''q''\<rparr>"

lemma sample_export_serves: "records_serves sample_export_service {sample_membership} (\<lambda>v. v)" "views_apart sample_export_service (\<lambda>v. v)"
  by (simp add: records_serves_def sample_export_service_def sample_record_service_def memory_records_def realises_memory records_parts
      part_receipts memory_delete_laws memory_audit_adds memory_transaction_laws reads_members_def ret_def reads_only_query)
     (simp_all add: reads_only_def views_apart_def sample_export_service_def memory_collection_def)

lemma sample_export_state_facts: "keyed_records sample_export_state" "\<forall>n. finite (dom (x_records sample_export_state n))"
  unfolding keyed_records_def by (simp_all add: sample_export_state_def)

lemma exported_fields: "rec_TenantID exported_record = ''t''" "rec_WorkspaceID exported_record = ''w''"
  "rec_TableID exported_record = ''tb''" "rec_ID exported_record = ''r''"
  by (simp_all add: exported_record_def new_record_def sample_input_def trim_simps)

lemma sample_listing:
  "memory_listing (\<lambda>_ _. True) look (base_query ''t'' ''w'' ''tb'' vf ss\<lparr>rq_After := None, rq_Limit := l\<rparr>) (memory_docs records_collection sample_export_state)
     = [exported_record]"
  by (simp add: memory_listing_def memory_docs_def sample_export_state_def query_matches_def base_query_def exported_fields)

lemma sample_export_page:
  "export_read sample_export_service memory_pages sample_export sample_view [] sample_export_state
     = (Inr \<lparr>rp_Items = [exported_record], rp_NextCursor = []\<rparr>, sample_export_state)"
proof -
  have n: "activeRecordCollection (rv_db sample_export_service) ''t'' ''w'' ''tb'' sample_export_state = (Inr records_collection, sample_export_state)"
    by (simp add: activeRecordCollection_def sample_export_service_def memory_records_def memory_FindG go_simps
        sample_export_state_def sample_records_def)
  show ?thesis
    using sample_listing [where l = 101]
    by (simp add: export_read_def records_ListRecords_def go_simps Let_def sample_export_def sample_view_def mongoViewFilters_def
        after_cursor_def n QueryG_def memory_pages_def exportPageSize_def base_query_def)
qed

lemma sample_columns: "exportColumns (vd_Columns sample_view) = ([''id''], [''secret''])"
  by code_simp

lemma sample_row: "Marshal (JObject [(''id'', JString ''r'')]) = Some (CHR ''{'' # CHR 0x22 # ''id'' @ [CHR 0x22, CHR '':'', CHR 0x22, CHR ''r'', CHR 0x22, CHR ''}''])"
  by code_simp

lemma sample_exported:
  "\<exists>result w. ExportRecords sample_export_service memory_pages (\<lambda>_. None) sample_owner sample_export sample_export_state = Some (Inr result, w)"
proof -
  let ?s = sample_export_service and ?w = sample_export_state
  have v: "export_view ?s sample_owner sample_export ?w = (Inr (''jsonl'', sample_view), ?w)"
  proof -
    have "ToLower (TrimSpace ''jsonl'') = ''jsonl''" "\<not> blank ''v''" by code_simp+
    moreover have "Authorize (Some (rv_members ?s)) sample_owner ''t'' ''w'' ActionExportRead ?w = (Inr sample_membership, ?w)"
      by (auto simp: sample_export_service_def sample_record_service_def Authorize_def sample_owner_def identityKey_def
          sample_membership_def knownAction_def go_simps)
    ultimately show ?thesis
      by (simp add: export_view_def sample_export_def go_simps records_GetView_def sample_export_service_def memory_FindG)
  qed
  have row: "export_row (\<lambda>_. None) [''id''] exported_record = [(''id'', JString ''r'')]"
    by (simp add: export_row_def exportValue_def exported_fields)
  have l: "export_loop (export_read ?s memory_pages sample_export sample_view) (export_row (\<lambda>_. None) [''id'']) [] [] ?w
      = Some (Inr [[(''id'', JString ''r'')]], ?w)"
    by (subst export_loop.simps) (simp add: sample_export_page row maxExportRows_def)
  have e: "encodeExport [[(''id'', JString ''r'')]] [''id''] ''jsonl'' = Inr (the (Marshal (JObject [(''id'', JString ''r'')])) @ [CHR 0x0A], ''application/x-ndjson'')"
    by (simp add: encodeExport_def sample_row)
  have "complete_entry (auditEntryForExport sample_export sample_owner i n fs red h 5)" if "i \<noteq> []" for i n fs red h
    using that by (simp add: complete_entry_def auditEntryForExport_def sample_export_def sample_owner_def identityKey_def IsZero_def empty_AuditEntry_def)
  then have "\<exists>result w. finish_export ?s sample_owner sample_export [''id''] [''secret''] ''jsonl'' [[(''id'', JString ''r'')]] ?w = (Inr result, w)"
    by (simp add: finish_export_def e sample_row go_simps Let_def nowG_def sample_export_service_def sample_record_service_def maxExportBytes_def
        wrapG_def memory_audit_writer_def mongo_audit_Append_def exportID_def)
  then obtain result w where "finish_export ?s sample_owner sample_export [''id''] [''secret''] ''jsonl'' [[(''id'', JString ''r'')]] ?w = (Inr result, w)"
    by blast
  with v l sample_columns show ?thesis by (simp add: ExportRecords_def)
qed



end
