(* ===== verification/RecordAdmin.thy ===== *)
theory RecordAdmin
  imports RecordQueries
begin

text \<open>
  The rest of \<open>records/service.go\<close> and \<open>records/repository.go\<close>: workspaces, tables, tag
  dictionaries, views and indexes. None of these calls uses a transaction; \<open>admin_effect\<close> says
  what document a call stores, and the lemma \<open>admin_exec_effect\<close> what can be left behind by one
  that fails.
\<close>

section \<open>Views and indexes in the repository\<close>

definition records_CreateView :: "'w records_database \<Rightarrow> ViewDefinition \<Rightarrow> ('w, unit) go" where
  "records_CreateView db vd =
     bindG (checkG (ViewDefinition_Validate vd)) (\<lambda>_. InsertNew (rd_views db) vd (RecordsErr ErrViewExists) ''insert view'')"

definition set_view :: "ViewDefinition \<Rightarrow> ViewDefinition \<Rightarrow> ViewDefinition" where
  "set_view vd old = old\<lparr>vd_Name := vd_Name vd, vd_Columns := vd_Columns vd, vd_Filters := vd_Filters vd, vd_Sorts := vd_Sorts vd,
     vd_UpdatedBy := vd_UpdatedBy vd, vd_UpdatedAt := vd_UpdatedAt vd, vd_Version := vd_Version old + 1\<rparr>"

definition records_UpdateView :: "'w records_database \<Rightarrow> ViewDefinition \<Rightarrow> int \<Rightarrow> ('w, ViewDefinition) go" where
  "records_UpdateView db vd expectedVersion =
     bindG (checkG (ViewDefinition_Validate vd)) (\<lambda>_.
     bindG (FindAndUpdateG (rd_views db) (view_key vd) (\<lambda>old. vd_Version old = expectedVersion) (set_view vd) ''update view'')
       (\<lambda>found. case found of
          Some changed \<Rightarrow> ret changed
        | None \<Rightarrow> bindG (records_GetView db (vd_TenantID vd) (vd_WorkspaceID vd) (vd_TableID vd) (vd_ID vd))
                    (\<lambda>_. fail (RecordsErr ErrViewVersionConflict))))"

definition records_ListViews :: "'w records_database \<Rightarrow> string \<Rightarrow> string \<Rightarrow> string \<Rightarrow> ('w, ViewDefinition list) go" where
  "records_ListViews db tenantID workspaceID tableID =
     QueryG (rd_ListViews db) (tenantID, workspaceID, tableID) ''list views'' ''decode views''"

text \<open>The definition is removed again, as far as that works, when the index itself cannot be made.\<close>

definition records_CreateIndex :: "'w records_database \<Rightarrow> IndexDefinition \<Rightarrow> ('w, unit) go" where
  "records_CreateIndex db given =
     (let normal = given\<lparr>ix_Field := normalizeIndexField (ix_Field given)\<rparr>;
          d = (if ix_Name normal = [] then normal\<lparr>ix_Name := physicalIndexName (ix_Field normal) (ix_Direction normal)\<rparr> else normal)
      in bindG (checkG (IndexDefinition_Validate d)) (\<lambda>_.
         bindG (InsertNew (rd_indexes db) d (RecordsErr ErrIndexExists) ''insert index definition'') (\<lambda>_ w.
           case rd_CreatePhysicalIndex db (''data.'' @ ix_Field d) (if ix_Direction d = IndexDescending then -1 else 1) (ix_Name d) w of
             (None, w') \<Rightarrow> (Inr (), w')
           | (Some m, w') \<Rightarrow>
               (Inl (Wrap ''create record index'' (External m)), snd (rd_DeleteIndex db (index_key d) (\<lambda>_. True) w')))))"

definition records_ListIndexes :: "'w records_database \<Rightarrow> string \<Rightarrow> string \<Rightarrow> string \<Rightarrow> ('w, IndexDefinition list) go" where
  "records_ListIndexes db tenantID workspaceID tableID =
     QueryG (rd_ListIndexes db) (tenantID, workspaceID, tableID) ''list indexes'' ''decode indexes''"

section \<open>The service\<close>

definition requireUser :: "Principal \<Rightarrow> goerr option" where
  "requireUser prin =
     (if p_Kind prin \<noteq> PrincipalUser \<or> p_Issuer prin = [] \<or> p_Subject prin = []
      then Some (Anon ''authenticated user is required'') else None)"

definition records_authorize :: "('w, 'v) RecordService \<Rightarrow> Principal \<Rightarrow> string \<Rightarrow> string \<Rightarrow> Action \<Rightarrow> ('w, unit) go" where
  "records_authorize s prin tenantID workspaceID action =
     bindG (Authorize (Some (rv_members s)) prin tenantID workspaceID action) (\<lambda>_. ret ())"

record WorkspaceInput =
  wi_TenantID :: string
  wi_ID :: string
  wi_Name :: string

definition new_workspace :: "Principal \<Rightarrow> WorkspaceInput \<Rightarrow> time \<Rightarrow> time \<Rightarrow> Workspace" where
  "new_workspace prin input created stamped =
     \<lparr>wk_ID = TrimSpace (wi_ID input), wk_TenantID = TrimSpace (wi_TenantID input), wk_Name = TrimSpace (wi_Name input),
      wk_Version = 1, wk_CreatedBy = identityKey prin, wk_CreatedAt = created, wk_UpdatedAt = stamped\<rparr>"

definition CreateWorkspace :: "('w, 'v) RecordService \<Rightarrow> Principal \<Rightarrow> WorkspaceInput \<Rightarrow> ('w, Workspace) go" where
  "CreateWorkspace s prin input =
     bindG (checkG (requireUser prin)) (\<lambda>_.
     bindG (nowG (rv_Now s)) (\<lambda>created.
     bindG (nowG (rv_Now s)) (\<lambda>stamped.
     (let workspace = new_workspace prin input created stamped in
     bindG (checkG (Workspace_Validate workspace)) (\<lambda>_.
     bindG (records_CreateWorkspace (rv_db s) workspace) (\<lambda>_. ret workspace))))))"

definition ListWorkspaces :: "('w, 'v) RecordService \<Rightarrow> Principal \<Rightarrow> string \<Rightarrow> ('w, Workspace list) go" where
  "ListWorkspaces s prin tenantID =
     bindG (checkG (requireUser prin)) (\<lambda>_.
       if blank tenantID then fail (IdentityErr ErrForbidden)
       else records_ListWorkspaces (rv_db s) tenantID (identityKey prin))"

record TableInput =
  ti_TenantID :: string
  ti_WorkspaceID :: string
  ti_ID :: string
  ti_Name :: string
  ti_Kind :: TableKind
  ti_SchemaID :: string
  ti_SchemaVersion :: int
  ti_SourcePolicy :: "SourcePolicy option"

definition new_table :: "Principal \<Rightarrow> TableInput \<Rightarrow> time \<Rightarrow> TableDefinition" where
  "new_table prin input now =
     \<lparr>tb_ID = TrimSpace (ti_ID input), tb_TenantID = TrimSpace (ti_TenantID input),
      tb_WorkspaceID = TrimSpace (ti_WorkspaceID input), tb_Name = TrimSpace (ti_Name input), tb_Kind = ti_Kind input,
      tb_SchemaID = TrimSpace (ti_SchemaID input), tb_SchemaVersion = ti_SchemaVersion input,
      tb_SourcePolicy = ti_SourcePolicy input, tb_Version = 1, tb_CreatedBy = identityKey prin,
      tb_UpdatedBy = identityKey prin, tb_CreatedAt = now, tb_UpdatedAt = now\<rparr>"

definition CreateTable :: "('w, 'v) RecordService \<Rightarrow> Principal \<Rightarrow> TableInput \<Rightarrow> ('w, TableDefinition) go" where
  "CreateTable s prin input =
     bindG (records_authorize s prin (ti_TenantID input) (ti_WorkspaceID input) ActionWorkspaceManage) (\<lambda>_.
     catchG (rv_schemas s (ti_TenantID input) (ti_SchemaID input) (ti_SchemaVersion input))
       (\<lambda>_. fail (RecordsErr ErrSchemaUnavailable))
       (\<lambda>d. if sd_Status d \<noteq> SchemaPublished then fail (RecordsErr ErrSchemaUnavailable)
            else bindG (nowG (rv_Now s)) (\<lambda>now.
              let table = new_table prin input now in
              bindG (checkG (TableDefinition_Validate table)) (\<lambda>_.
              bindG (records_CreateTable (rv_db s) table) (\<lambda>_. ret table)))))"

definition ListTables :: "('w, 'v) RecordService \<Rightarrow> Principal \<Rightarrow> string \<Rightarrow> string \<Rightarrow> ('w, TableDefinition list) go" where
  "ListTables s prin tenantID workspaceID =
     bindG (records_authorize s prin tenantID workspaceID ActionWorkspaceRead) (\<lambda>_. records_ListTables (rv_db s) tenantID workspaceID)"

definition GetTable :: "('w, 'v) RecordService \<Rightarrow> Principal \<Rightarrow> string \<Rightarrow> string \<Rightarrow> string \<Rightarrow> ('w, TableDefinition) go" where
  "GetTable s prin tenantID workspaceID tableID =
     bindG (records_authorize s prin tenantID workspaceID ActionWorkspaceRead) (\<lambda>_. records_GetTable (rv_db s) tenantID workspaceID tableID)"

section \<open>Tag dictionaries\<close>

record TagDictionaryInput =
  tdi_TenantID :: string
  tdi_WorkspaceID :: string
  tdi_TableID :: string
  tdi_Revision :: int
  tdi_Entries :: "ControlledTag list"

text \<open>\<open>sort.Slice\<close> by specificity, as in \<open>resolve_dictionaries\<close>.\<close>

definition ListTagDictionaries :: "('w, 'v) RecordService \<Rightarrow> Principal \<Rightarrow> string \<Rightarrow> string \<Rightarrow> string \<Rightarrow> ('w, TagDictionary list) go" where
  "ListTagDictionaries s prin tenantID workspaceID tableID =
     bindG (records_authorize s prin tenantID workspaceID ActionTagRead) (\<lambda>_.
       if \<not> rv_controlledTags s then ret []
       else catchG (records_ListTagDictionaries (rv_db s) tenantID)
         (\<lambda>err. if errors_is err (RecordsErr ErrTagDictionaryNotFound) then ret [] else fail err)
         (\<lambda>ds. ret (sort_key tagDictionarySpecificity (filter (applies_to workspaceID tableID) ds))))"

definition dictionary_revision :: "TagDictionaryInput \<Rightarrow> int \<Rightarrow> int" where
  "dictionary_revision input expectedRevision =
     (if expectedRevision = 0 \<and> tdi_Revision input > 0 then tdi_Revision input else incr64 expectedRevision)"

definition new_dictionary :: "TagDictionaryInput \<Rightarrow> int \<Rightarrow> TagDictionary" where
  "new_dictionary input expectedRevision =
     \<lparr>td_TenantID = TrimSpace (tdi_TenantID input), td_WorkspaceID = TrimSpace (tdi_WorkspaceID input),
      td_TableID = TrimSpace (tdi_TableID input), td_Revision = dictionary_revision input expectedRevision,
      td_Entries = tdi_Entries input\<rparr>"

definition empty_dictionary :: TagDictionary where
  "empty_dictionary = \<lparr>td_TenantID = [], td_WorkspaceID = [], td_TableID = [], td_Revision = 0, td_Entries = []\<rparr>"

text \<open>\<open>bytes\<close> is \<open>bson.Marshal\<close> of a dictionary.\<close>

definition hashTagDictionary :: "(TagDictionary \<Rightarrow> string) \<Rightarrow> TagDictionary \<Rightarrow> string" where
  "hashTagDictionary bytes d = sha256_ref (bytes d)"

definition dictionary_entry :: "(TagDictionary \<Rightarrow> string) \<Rightarrow> Principal \<Rightarrow> TagDictionary \<Rightarrow> TagDictionary \<Rightarrow> time \<Rightarrow> AuditEntry" where
  "dictionary_entry bytes prin before d now =
     empty_AuditEntry\<lparr>ae_TenantID := td_TenantID d, ae_WorkspaceID := td_WorkspaceID d, ae_Action := ''tag.dictionary.write'',
       ae_Actor := identityKey prin, ae_ResourceType := ''tag_dictionary'', ae_ResourceID := dictionary_key d,
       ae_ResourceVersion := td_Revision d, ae_BeforeHash := hashTagDictionary bytes before,
       ae_AfterHash := hashTagDictionary bytes d, ae_CreatedAt := now\<rparr>"

definition SaveTagDictionary ::
  "('w, 'v) RecordService \<Rightarrow> (TagDictionary \<Rightarrow> string) \<Rightarrow> Principal \<Rightarrow> TagDictionaryInput \<Rightarrow> int \<Rightarrow> ('w, TagDictionary) go" where
  "SaveTagDictionary s bytes prin input expectedRevision =
     bindG (records_authorize s prin (tdi_TenantID input) (tdi_WorkspaceID input) ActionTagDictionaryWrite) (\<lambda>_.
       if \<not> rv_controlledTags s then fail (IdentityErr ErrForbidden)
       else if blank (tdi_TenantID input) \<or> blank (tdi_WorkspaceID input) then fail (RecordsErr ErrTagDictionaryScope)
       else if expectedRevision < 0 then fail (RecordsErr ErrTagDictionaryVersionConflict)
       else let d = new_dictionary input expectedRevision in
         bindG (checkG (TagDictionary_Validate d)) (\<lambda>_.
         bindG (catchG (GetTagDictionary (rv_db s) (td_TenantID d) (td_WorkspaceID d) (td_TableID d))
             (\<lambda>err. if errors_is err (RecordsErr ErrTagDictionaryNotFound) then ret empty_dictionary else fail err) ret) (\<lambda>before.
         bindG (records_SaveTagDictionary (rv_db s) d expectedRevision) (\<lambda>_.
         bindG (nowG (rv_Now s)) (\<lambda>now.
         bindG (wrapG ''append tag dictionary audit'' (rv_audit s (dictionary_entry bytes prin before d now))) (\<lambda>_. ret d))))))"

section \<open>Views\<close>

record ViewInput =
  vi_TenantID :: string
  vi_WorkspaceID :: string
  vi_TableID :: string
  vi_ID :: string
  vi_Name :: string
  vi_Columns :: "string list"
  vi_Filters :: "ViewFilter list"
  vi_Sorts :: "ViewSort list"

text \<open>What \<open>CreateView\<close> and \<open>UpdateView\<close> require of the table and its schema.\<close>

definition check_view_input :: "('w, 'v) RecordService \<Rightarrow> ViewInput \<Rightarrow> ('w, unit) go" where
  "check_view_input s input =
     bindG (records_GetTable (rv_db s) (vi_TenantID input) (vi_WorkspaceID input) (vi_TableID input)) (\<lambda>table.
     bindG (publishedSchema s (vi_TenantID input) (tb_SchemaID table) (tb_SchemaVersion table)) (\<lambda>d.
       checkG (validateViewSchemaFields (rv_ext_json s) (vi_Columns input) (vi_Filters input) (vi_Sorts input) d)))"

definition new_view :: "Principal \<Rightarrow> ViewInput \<Rightarrow> time \<Rightarrow> ViewDefinition" where
  "new_view prin input now =
     \<lparr>vd_ID = TrimSpace (vi_ID input), vd_TenantID = TrimSpace (vi_TenantID input),
      vd_WorkspaceID = TrimSpace (vi_WorkspaceID input), vd_TableID = TrimSpace (vi_TableID input),
      vd_Name = TrimSpace (vi_Name input), vd_Columns = vi_Columns input, vd_Filters = vi_Filters input,
      vd_Sorts = vi_Sorts input, vd_Version = 1, vd_CreatedBy = identityKey prin, vd_UpdatedBy = identityKey prin,
      vd_CreatedAt = now, vd_UpdatedAt = now\<rparr>"

definition CreateView :: "('w, 'v) RecordService \<Rightarrow> Principal \<Rightarrow> ViewInput \<Rightarrow> ('w, ViewDefinition) go" where
  "CreateView s prin input =
     bindG (records_authorize s prin (vi_TenantID input) (vi_WorkspaceID input) ActionViewWrite) (\<lambda>_.
     bindG (check_view_input s input) (\<lambda>_.
     bindG (nowG (rv_Now s)) (\<lambda>now.
     (let vd = new_view prin input now in
     bindG (checkG (ViewDefinition_Validate vd)) (\<lambda>_.
     bindG (records_CreateView (rv_db s) vd) (\<lambda>_. ret vd))))))"

definition edited_view :: "Principal \<Rightarrow> ViewInput \<Rightarrow> time \<Rightarrow> ViewDefinition \<Rightarrow> ViewDefinition" where
  "edited_view prin input now existing =
     existing\<lparr>vd_Name := TrimSpace (vi_Name input), vd_Columns := vi_Columns input, vd_Filters := vi_Filters input,
       vd_Sorts := vi_Sorts input, vd_UpdatedBy := identityKey prin, vd_UpdatedAt := now\<rparr>"

definition UpdateView :: "('w, 'v) RecordService \<Rightarrow> Principal \<Rightarrow> ViewInput \<Rightarrow> int \<Rightarrow> ('w, ViewDefinition) go" where
  "UpdateView s prin input expectedVersion =
     bindG (records_authorize s prin (vi_TenantID input) (vi_WorkspaceID input) ActionViewWrite) (\<lambda>_.
       if expectedVersion < 1 then fail (RecordsErr ErrViewVersionConflict)
       else bindG (check_view_input s input) (\<lambda>_.
         bindG (records_GetView (rv_db s) (vi_TenantID input) (vi_WorkspaceID input) (vi_TableID input) (vi_ID input)) (\<lambda>existing.
         bindG (nowG (rv_Now s)) (\<lambda>now.
         (let vd = edited_view prin input now existing in
         bindG (checkG (ViewDefinition_Validate vd)) (\<lambda>_. records_UpdateView (rv_db s) vd expectedVersion))))))"

definition ListViews :: "('w, 'v) RecordService \<Rightarrow> Principal \<Rightarrow> string \<Rightarrow> string \<Rightarrow> string \<Rightarrow> ('w, ViewDefinition list) go" where
  "ListViews s prin tenantID workspaceID tableID =
     bindG (records_authorize s prin tenantID workspaceID ActionViewRead) (\<lambda>_. records_ListViews (rv_db s) tenantID workspaceID tableID)"

section \<open>Indexes\<close>

record IndexInput =
  ii_TenantID :: string
  ii_WorkspaceID :: string
  ii_TableID :: string
  ii_ID :: string
  ii_Field :: string
  ii_Direction :: IndexDirection

definition new_index :: "Principal \<Rightarrow> IndexInput \<Rightarrow> time \<Rightarrow> IndexDefinition" where
  "new_index prin input now =
     (let field = normalizeIndexField (ii_Field input)
      in \<lparr>ix_ID = TrimSpace (ii_ID input), ix_TenantID = TrimSpace (ii_TenantID input),
          ix_WorkspaceID = TrimSpace (ii_WorkspaceID input), ix_TableID = TrimSpace (ii_TableID input), ix_Field = field,
          ix_Direction = ii_Direction input, ix_Name = physicalIndexName field (ii_Direction input), ix_Version = 1,
          ix_CreatedBy = identityKey prin, ix_CreatedAt = now, ix_UpdatedAt = now\<rparr>)"

definition check_index_input :: "('w, 'v) RecordService \<Rightarrow> IndexInput \<Rightarrow> ('w, unit) go" where
  "check_index_input s input =
     bindG (records_GetTable (rv_db s) (ii_TenantID input) (ii_WorkspaceID input) (ii_TableID input)) (\<lambda>table.
     bindG (publishedSchema s (ii_TenantID input) (tb_SchemaID table) (tb_SchemaVersion table)) (\<lambda>d.
     bindG (checkG (validateIndexSchemaField (rv_ext_json s) (normalizeIndexField (ii_Field input)) d)) (\<lambda>_.
     bindG (records_ListIndexes (rv_db s) (ii_TenantID input) (ii_WorkspaceID input) (ii_TableID input)) (\<lambda>current.
       if list_ex (\<lambda>x. indexKey (ix_Field x) (ix_Direction x) = indexKey (normalizeIndexField (ii_Field input)) (ii_Direction input)) current
       then fail (RecordsErr ErrIndexExists)
       else if length current \<ge> maxIndexesPerTable then fail (RecordsErr ErrIndexLimit)
       else ret ()))))"

definition CreateIndex :: "('w, 'v) RecordService \<Rightarrow> Principal \<Rightarrow> IndexInput \<Rightarrow> ('w, IndexDefinition) go" where
  "CreateIndex s prin input =
     bindG (records_authorize s prin (ii_TenantID input) (ii_WorkspaceID input) ActionWorkspaceManage) (\<lambda>_.
     bindG (check_index_input s input) (\<lambda>_.
     bindG (nowG (rv_Now s)) (\<lambda>now.
     (let d = new_index prin input now in
     bindG (checkG (IndexDefinition_Validate d)) (\<lambda>_.
     bindG (records_CreateIndex (rv_db s) d) (\<lambda>_. ret d))))))"

definition ListIndexes :: "('w, 'v) RecordService \<Rightarrow> Principal \<Rightarrow> string \<Rightarrow> string \<Rightarrow> string \<Rightarrow> ('w, IndexDefinition list) go" where
  "ListIndexes s prin tenantID workspaceID tableID =
     bindG (records_authorize s prin tenantID workspaceID ActionWorkspaceRead) (\<lambda>_. records_ListIndexes (rv_db s) tenantID workspaceID tableID)"

end
