(* ===== verification/AdminRuns.thy ===== *)
theory AdminRuns
  imports RecordAdmin "HOL-Library.Product_Lexorder"
begin

text \<open>
  What the calls of \<open>RecordAdmin\<close> do to the database, success or not, and what every sequence of
  them keeps: documents are stored by valid keys, a version of a view counts its changes, and a
  table has a bounded number of indexes on different fields.
\<close>

section \<open>Calls without a transaction\<close>

text \<open>
  The call succeeds with \<open>P\<close>, or fails and leaves the state alone, or fails half-way with \<open>P\<close> of
  \<open>False\<close>.
\<close>

definition attempt :: "('w \<Rightarrow> 'v) \<Rightarrow> ('v \<Rightarrow> 'v \<Rightarrow> bool \<Rightarrow> bool) \<Rightarrow> ('w, 'a) go \<Rightarrow> 'w \<Rightarrow> bool" where
  "attempt view P m w \<longleftrightarrow>
     (case m w of (Inr a, w') \<Rightarrow> P (view w) (view w') True | (Inl e, w') \<Rightarrow> view w' = view w \<or> P (view w) (view w') False)"

lemma attempt_read:
  assumes "keeps view m" "\<And>a w1. m w = (Inr a, w1) \<Longrightarrow> view w1 = view w \<Longrightarrow> attempt view P (f a) w1"
  shows "attempt view P (bindG m f) w"
proof (cases m w rule: run_cases)
  case (failed e w1)
  with keepsD [OF assms(1) failed] show ?thesis by (simp add: attempt_def bindG_def)
next
  case (finished a w1)
  note v = keepsD [OF assms(1) finished]
  from assms(2) [OF finished v] v finished show ?thesis by (simp add: attempt_def bindG_def split: prod.splits sum.splits)
qed

lemma attempt_fail: "attempt view P (fail e) w"
  by (simp add: attempt_def fail_def)

lemma attempt_if: "(b \<Longrightarrow> attempt view P m w) \<Longrightarrow> (\<not> b \<Longrightarrow> attempt view P m' w) \<Longrightarrow> attempt view P (if b then m else m') w"
  by simp

lemma attempt_check: "(c = None \<Longrightarrow> attempt view P (f ()) w) \<Longrightarrow> attempt view P (bindG (checkG c) f) w"
  by (cases c) (simp_all add: attempt_def bindG_def checkG_def ret_def fail_def)

lemma attempt_catch_read:
  assumes "keeps view m" "\<And>e w1. m w = (Inl e, w1) \<Longrightarrow> view w1 = view w \<Longrightarrow> attempt view P (h e) w1"
    and "\<And>a w1. m w = (Inr a, w1) \<Longrightarrow> view w1 = view w \<Longrightarrow> attempt view P (f a) w1"
  shows "attempt view P (catchG m h f) w"
proof (cases m w rule: run_cases)
  case (failed e w1)
  note v = keepsD [OF assms(1) failed]
  from assms(2) [OF failed v] v failed show ?thesis by (simp add: attempt_def catchG_def split: prod.splits sum.splits)
next
  case (finished a w1)
  note v = keepsD [OF assms(1) finished]
  from assms(3) [OF finished v] v finished show ?thesis by (simp add: attempt_def catchG_def split: prod.splits sum.splits)
qed

lemma attempt_ret_after:
  "attempt view P m w \<Longrightarrow> attempt view P (bindG m (\<lambda>_. ret a)) w"
  by (simp add: attempt_def bindG_def ret_def split: prod.splits sum.splits)

text \<open>A change, and what comes after it.\<close>

lemma attempt_then:
  assumes "attempt view (\<lambda>v v' _. Q v v') m w" "\<And>v v'. Q v v' \<Longrightarrow> P v v' False"
    and "\<And>a w1. m w = (Inr a, w1) \<Longrightarrow> Q (view w) (view w1) \<Longrightarrow>
      (case f a w1 of (Inr b, w2) \<Rightarrow> P (view w) (view w2) True | (Inl e, w2) \<Rightarrow> P (view w) (view w2) False)"
  shows "attempt view P (bindG m f) w"
proof (cases m w rule: run_cases)
  case (failed e w1)
  with assms(1,2) show ?thesis by (auto simp: attempt_def bindG_def)
next
  case (finished a w1)
  with assms(1) have "Q (view w) (view w1)" by (simp add: attempt_def)
  with assms(3) [OF finished this] finished show ?thesis by (auto simp: attempt_def bindG_def split: prod.splits sum.splits)
qed

lemma InsertNew_Inl:
  assumes "realises c keyof get put view" "InsertNew c d e l w = (Inl err, w')"
  shows "view w' = view w"
proof -
  obtain s w1 where i: "c_InsertOne c d w = (s, w1)" by force
  note law = InsertOne_law [OF assms(1) [unfolded realises_def, THEN conjunct2] i]
  have id: "put (get (view w)) (view w) = view w" using assms(1) by (simp add: realises_def part_def)
  have "s \<noteq> Inserted" "w1 = w'" using assms(2) i by (cases s; simp add: InsertNew_def)+
  with law(3,4) id realises_view [OF assms(1) law(1)] show ?thesis by (cases s) simp_all
qed

lemma attempt_insert:
  assumes r: "realises c keyof get put view"
    and "get (view w) (keyof d) = None \<Longrightarrow> P (view w) (put ((get (view w))(keyof d \<mapsto> d)) (view w)) True"
  shows "attempt view P (InsertNew c d e l) w"
proof -
  obtain x w' where run: "InsertNew c d e l w = (x, w')" by force
  show ?thesis
  proof (cases x)
    case (Inl err)
    with InsertNew_Inl [OF r] run show ?thesis by (auto simp: attempt_def)
  next
    case (Inr u)
    with InsertNew_Inr [OF r] run assms(2) show ?thesis by (auto simp: attempt_def simp del: fun_upd_apply)
  qed
qed

lemma attempt_find_update:
  assumes r: "realises c keyof get put view"
    and "\<And>old. get (view w) k = Some old \<Longrightarrow> M old \<Longrightarrow> P (view w) (put ((get (view w))(k \<mapsto> f old)) (view w)) True"
    and "\<And>w1. view w1 = view w \<Longrightarrow> attempt view P miss w1"
  shows "attempt view P (bindG (FindAndUpdateG c k M f l) (\<lambda>found. case found of Some d \<Rightarrow> ret d | None \<Rightarrow> miss)) w"
proof -
  obtain s w1 where i: "c_FindOneAndUpdate c k M f w = (s, w1)" by force
  note law = FindOneAndUpdate_law [OF r [unfolded realises_def, THEN conjunct2] i]
  note v = realises_view [OF r law(1)]
  have id: "put (get (view w)) (view w) = view w" using r by (simp add: realises_def part_def)
  show ?thesis
  proof (cases s)
    case NoDocuments
    with law(3) v id have "view w1 = view w" by simp
    from assms(3) [OF this] this NoDocuments i show ?thesis
      by (simp add: attempt_def bindG_def FindAndUpdateG_def split: prod.splits sum.splits)
  next
    case (FindError m)
    with law(2) v id i show ?thesis by (simp add: attempt_def bindG_def FindAndUpdateG_def)
  next
    case (Found d)
    with law(4) [OF Found] v assms(2) i show ?thesis
      by (auto simp: attempt_def bindG_def FindAndUpdateG_def ret_def simp del: fun_upd_apply)
  qed
qed

section \<open>The state\<close>

record AdminDB = "Record ReceiptDB" +
  m_workspaces :: "string \<times> string \<rightharpoonup> Workspace"
  m_tables :: "doc_key \<rightharpoonup> TableDefinition"
  m_views :: "part_key \<rightharpoonup> ViewDefinition"
  m_indexes :: "part_key \<rightharpoonup> IndexDefinition"
  m_dictionaries :: "string \<rightharpoonup> TagDictionary"

definition put_m_workspaces :: "(string \<times> string \<rightharpoonup> Workspace) \<Rightarrow> AdminDB \<Rightarrow> AdminDB" where
  "put_m_workspaces m v = v\<lparr>m_workspaces := m\<rparr>"

definition put_m_tables :: "(doc_key \<rightharpoonup> TableDefinition) \<Rightarrow> AdminDB \<Rightarrow> AdminDB" where
  "put_m_tables m v = v\<lparr>m_tables := m\<rparr>"

definition put_m_views :: "(part_key \<rightharpoonup> ViewDefinition) \<Rightarrow> AdminDB \<Rightarrow> AdminDB" where
  "put_m_views m v = v\<lparr>m_views := m\<rparr>"

definition put_m_indexes :: "(part_key \<rightharpoonup> IndexDefinition) \<Rightarrow> AdminDB \<Rightarrow> AdminDB" where
  "put_m_indexes m v = v\<lparr>m_indexes := m\<rparr>"

definition put_m_dictionaries :: "(string \<rightharpoonup> TagDictionary) \<Rightarrow> AdminDB \<Rightarrow> AdminDB" where
  "put_m_dictionaries m v = v\<lparr>m_dictionaries := m\<rparr>"

lemma admin_parts:
  "part m_workspaces put_m_workspaces" "part m_tables put_m_tables" "part m_views put_m_views" "part m_indexes put_m_indexes"
  "part m_dictionaries put_m_dictionaries"
  by (simp_all add: part_def put_m_workspaces_def put_m_tables_def put_m_views_def put_m_indexes_def put_m_dictionaries_def)

definition table_indexes :: "AdminDB \<Rightarrow> string \<Rightarrow> string \<Rightarrow> string \<Rightarrow> IndexDefinition set" where
  "table_indexes v t ws tb = {d \<in> ran (m_indexes v). ix_TenantID d = t \<and> ix_WorkspaceID d = ws \<and> ix_TableID d = tb}"

text \<open>A database that serves the state; the list of indexes is the first 16 of those of the table.\<close>

definition admin_serves :: "('w, 'v) RecordService \<Rightarrow> WorkspaceMembership set \<Rightarrow> ('w \<Rightarrow> AdminDB) \<Rightarrow> bool" where
  "admin_serves s M view \<longleftrightarrow>
     realises (rd_workspaces (rv_db s)) workspace_key m_workspaces put_m_workspaces view
     \<and> realises (rd_tables (rv_db s)) table_key m_tables put_m_tables view
     \<and> realises (rd_views (rv_db s)) view_key m_views put_m_views view
     \<and> realises (rd_indexes (rv_db s)) index_key m_indexes put_m_indexes view
     \<and> realises (rd_dictionaries (rv_db s)) dictionary_key m_dictionaries put_m_dictionaries view
     \<and> delete_laws (rd_DeleteIndex (rv_db s)) m_indexes put_m_indexes view
     \<and> (\<forall>p d n w. view (snd (rd_CreatePhysicalIndex (rv_db s) p d n w)) = view w)
     \<and> reads_only (rd_ListIndexes (rv_db s)) view
     \<and> (\<forall>t ws tb w ds w'. rd_ListIndexes (rv_db s) (t, ws, tb) w = (Inr ds, w') \<longrightarrow> finite (dom (m_indexes (view w))) \<longrightarrow>
          (\<exists>all. set all = table_indexes (view w) t ws tb \<and> ds = take maxIndexesPerTable all))
     \<and> (\<forall>t i. reads_only (rv_schemas s t i) view) \<and> (\<forall>w. view (snd (rv_Now s w)) = view w)
     \<and> audit_adds (rv_audit s) view \<and> reads_members (rv_members s) M view"

lemma admin_servesD:
  assumes "admin_serves s M view"
  shows "realises (rd_workspaces (rv_db s)) workspace_key m_workspaces put_m_workspaces view"
    and "realises (rd_tables (rv_db s)) table_key m_tables put_m_tables view"
    and "realises (rd_views (rv_db s)) view_key m_views put_m_views view"
    and "realises (rd_indexes (rv_db s)) index_key m_indexes put_m_indexes view"
    and "realises (rd_dictionaries (rv_db s)) dictionary_key m_dictionaries put_m_dictionaries view"
    and "delete_laws (rd_DeleteIndex (rv_db s)) m_indexes put_m_indexes view"
    and "view (snd (rd_CreatePhysicalIndex (rv_db s) p d n w)) = view w"
    and "reads_only (rd_ListIndexes (rv_db s)) view"
    and "rd_ListIndexes (rv_db s) (t, ws, tb) w = (Inr ds, w') \<Longrightarrow> finite (dom (m_indexes (view w))) \<Longrightarrow>
          \<exists>all. set all = table_indexes (view w) t ws tb \<and> ds = take maxIndexesPerTable all"
    and "keeps view (rv_schemas s t i ver)" "keeps view (nowG (rv_Now s))" "audit_adds (rv_audit s) view"
    and "reads_members (rv_members s) M view"
proof -
  show "keeps view (rv_schemas s t i ver)" using assms by (simp add: admin_serves_def reads_only_def keeps_def)
  show "keeps view (nowG (rv_Now s))" using assms by (intro keeps_nowG) (simp add: admin_serves_def)
  show "rd_ListIndexes (rv_db s) (t, ws, tb) w = (Inr ds, w') \<Longrightarrow> finite (dom (m_indexes (view w))) \<Longrightarrow>
          \<exists>all. set all = table_indexes (view w) t ws tb \<and> ds = take maxIndexesPerTable all"
    using assms unfolding admin_serves_def by blast
qed (use assms in \<open>simp_all add: admin_serves_def\<close>)

section \<open>The calls\<close>

datatype admin_call =
    WorkspaceCall Principal WorkspaceInput
  | TableCall Principal TableInput
  | TagsCall Principal TagDictionaryInput int
  | ViewCall Principal ViewInput
  | ViewUpdateCall Principal ViewInput int
  | IndexCall Principal IndexInput

fun admin_exec :: "('w, 'v) RecordService \<Rightarrow> (TagDictionary \<Rightarrow> string) \<Rightarrow> admin_call \<Rightarrow> ('w, unit) go" where
  "admin_exec s bytes (WorkspaceCall prin input) = bindG (CreateWorkspace s prin input) (\<lambda>_. ret ())"
| "admin_exec s bytes (TableCall prin input) = bindG (CreateTable s prin input) (\<lambda>_. ret ())"
| "admin_exec s bytes (TagsCall prin input n) = bindG (SaveTagDictionary s bytes prin input n) (\<lambda>_. ret ())"
| "admin_exec s bytes (ViewCall prin input) = bindG (CreateView s prin input) (\<lambda>_. ret ())"
| "admin_exec s bytes (ViewUpdateCall prin input n) = bindG (UpdateView s prin input n) (\<lambda>_. ret ())"
| "admin_exec s bytes (IndexCall prin input) = bindG (CreateIndex s prin input) (\<lambda>_. ret ())"

text \<open>What a call does; \<open>complete\<close> is false where it failed after it stored its document.\<close>

fun admin_effect ::
  "('w, 'v) RecordService \<Rightarrow> (TagDictionary \<Rightarrow> string) \<Rightarrow> WorkspaceMembership set \<Rightarrow> admin_call \<Rightarrow> AdminDB \<Rightarrow> AdminDB \<Rightarrow> bool \<Rightarrow> bool" where
  "admin_effect s bytes M (WorkspaceCall prin input) v v' complete \<longleftrightarrow> complete \<and> requireUser prin = None
     \<and> (\<exists>d created stamped. d = new_workspace prin input created stamped \<and> Workspace_Validate d = None
          \<and> m_workspaces v (workspace_key d) = None \<and> v' = put_m_workspaces ((m_workspaces v)(workspace_key d \<mapsto> d)) v)"
| "admin_effect s bytes M (TableCall prin input) v v' complete \<longleftrightarrow> complete
     \<and> granted M prin (ti_TenantID input) (ti_WorkspaceID input) ActionWorkspaceManage
     \<and> (\<exists>d now. d = new_table prin input now \<and> TableDefinition_Validate d = None
          \<and> m_tables v (table_key d) = None \<and> v' = put_m_tables ((m_tables v)(table_key d \<mapsto> d)) v)"
| "admin_effect s bytes M (TagsCall prin input n) v v' complete \<longleftrightarrow>
     granted M prin (tdi_TenantID input) (tdi_WorkspaceID input) ActionTagDictionaryWrite \<and> 0 \<le> n
     \<and> (\<exists>d now. d = new_dictionary input n \<and> TagDictionary_Validate d = None
          \<and> (if n = 0 then m_dictionaries v (dictionary_key d) = None
             else \<exists>old. m_dictionaries v (dictionary_key d) = Some old \<and> td_Revision old = n)
          \<and> v' = (let stored = put_m_dictionaries ((m_dictionaries v)(dictionary_key d \<mapsto> d)) v;
                     before = (case m_dictionaries v (dictionary_key d) of None \<Rightarrow> empty_dictionary | Some old \<Rightarrow> old)
                 in if complete then stored\<lparr>x_audit := x_audit v @ [dictionary_entry bytes prin before d now]\<rparr> else stored))"
| "admin_effect s bytes M (ViewCall prin input) v v' complete \<longleftrightarrow> complete
     \<and> granted M prin (vi_TenantID input) (vi_WorkspaceID input) ActionViewWrite
     \<and> m_tables v (vi_TenantID input, vi_WorkspaceID input, vi_TableID input) \<noteq> None
     \<and> (\<exists>d now. d = new_view prin input now \<and> ViewDefinition_Validate d = None
          \<and> m_views v (view_key d) = None \<and> v' = put_m_views ((m_views v)(view_key d \<mapsto> d)) v)"
| "admin_effect s bytes M (ViewUpdateCall prin input n) v v' complete \<longleftrightarrow> complete
     \<and> granted M prin (vi_TenantID input) (vi_WorkspaceID input) ActionViewWrite \<and> 1 \<le> n
     \<and> (\<exists>existing old now. m_views v (vi_TenantID input, vi_WorkspaceID input, vi_TableID input, vi_ID input) = Some existing
          \<and> ViewDefinition_Validate (edited_view prin input now existing) = None
          \<and> m_views v (view_key existing) = Some old \<and> vd_Version old = n
          \<and> v' = put_m_views ((m_views v)(view_key existing \<mapsto> set_view (edited_view prin input now existing) old)) v)"
| "admin_effect s bytes M (IndexCall prin input) v v' complete \<longleftrightarrow>
     granted M prin (ii_TenantID input) (ii_WorkspaceID input) ActionWorkspaceManage
     \<and> m_tables v (ii_TenantID input, ii_WorkspaceID input, ii_TableID input) \<noteq> None
     \<and> (\<exists>d now. d = (new_index prin input now)\<lparr>ix_Field := normalizeIndexField (normalizeIndexField (ii_Field input))\<rparr>
          \<and> IndexDefinition_Validate (new_index prin input now) = None \<and> IndexDefinition_Validate d = None
          \<and> m_indexes v (index_key d) = None \<and> v' = put_m_indexes ((m_indexes v)(index_key d \<mapsto> d)) v
          \<and> (let others = table_indexes v (ii_TenantID input) (ii_WorkspaceID input) (ii_TableID input)
             in finite (dom (m_indexes v)) \<longrightarrow> card others < maxIndexesPerTable
                \<and> (\<forall>x \<in> others. indexKey (ix_Field x) (ix_Direction x)
                     \<noteq> indexKey (normalizeIndexField (ii_Field input)) (ii_Direction input))))"

section \<open>The proof that they do it\<close>

lemma records_authorize_keeps: "admin_serves s M view \<Longrightarrow> keeps view (records_authorize s prin t ws a)"
  unfolding records_authorize_def by (intro keeping Authorize_keeps admin_servesD(13))

lemma records_authorize_granted:
  "admin_serves s M view \<Longrightarrow> records_authorize s prin t ws a w = (Inr u, w') \<Longrightarrow> granted M prin t ws a"
  by (auto simp: records_authorize_def go_success dest!: Authorize_granted [OF admin_servesD(13)])

lemma admin_GetTable_keeps: "admin_serves s M view \<Longrightarrow> keeps view (records_GetTable (rv_db s) t ws tb)"
  unfolding records_GetTable_def by (intro keeping) (rule admin_servesD(2))

lemma admin_GetTable_Inr:
  assumes "admin_serves s M view" "records_GetTable (rv_db s) t ws tb w = (Inr d, w')"
  shows "m_tables (view w) (t, ws, tb) = Some d"
proof -
  from assms(2) have "FindG (rd_tables (rv_db s)) (t, ws, tb) ''find table'' w = (Inr (Some d), w')"
    by (auto simp: records_GetTable_def go_success split: option.splits)
  from FindG_Inr [OF admin_servesD(2) [OF assms(1)] this] show ?thesis by simp
qed

lemma admin_GetView_keeps: "admin_serves s M view \<Longrightarrow> keeps view (records_GetView (rv_db s) t ws tb i)"
  unfolding records_GetView_def by (intro keeping) (rule admin_servesD(3))

lemma admin_GetView_Inr:
  assumes "admin_serves s M view" "records_GetView (rv_db s) t ws tb i w = (Inr d, w')"
  shows "m_views (view w) (t, ws, tb, i) = Some d"
proof -
  from assms(2) have "FindG (rd_views (rv_db s)) (t, ws, tb, i) ''find view'' w = (Inr (Some d), w')"
    by (auto simp: records_GetView_def go_success split: option.splits)
  from FindG_Inr [OF admin_servesD(3) [OF assms(1)] this] show ?thesis by simp
qed

lemma admin_schema_keeps: "admin_serves s M view \<Longrightarrow> keeps view (publishedSchema s t i n)"
  unfolding publishedSchema_def by (intro keeping) (rule admin_servesD(10))

lemma check_view_input_keeps: "admin_serves s M view \<Longrightarrow> keeps view (check_view_input s input)"
  unfolding check_view_input_def by (intro keeping admin_GetTable_keeps admin_schema_keeps)

lemma check_view_input_Inr:
  "admin_serves s M view \<Longrightarrow> check_view_input s input w = (Inr u, w') \<Longrightarrow>
     m_tables (view w) (vi_TenantID input, vi_WorkspaceID input, vi_TableID input) \<noteq> None"
  by (auto simp: check_view_input_def go_success dest!: admin_GetTable_Inr)

lemma check_index_input_keeps:
  assumes s: "admin_serves s M view" shows "keeps view (check_index_input s input)"
  unfolding check_index_input_def records_ListIndexes_def
  by (intro keeping admin_GetTable_keeps [OF s] admin_schema_keeps [OF s] admin_servesD(8) [OF s])

lemma check_index_input_Inr:
  assumes s: "admin_serves s M view" and run: "check_index_input s input w = (Inr u, w')"
  defines "others \<equiv> table_indexes (view w) (ii_TenantID input) (ii_WorkspaceID input) (ii_TableID input)"
  shows "m_tables (view w) (ii_TenantID input, ii_WorkspaceID input, ii_TableID input) \<noteq> None"
    and "finite (dom (m_indexes (view w))) \<Longrightarrow> card others < maxIndexesPerTable
      \<and> (\<forall>x \<in> others. indexKey (ix_Field x) (ix_Direction x) \<noteq> indexKey (normalizeIndexField (ii_Field input)) (ii_Direction input))"
proof -
  from run obtain table w1 d w2 w3 current where t: "records_GetTable (rv_db s) (ii_TenantID input) (ii_WorkspaceID input) (ii_TableID input) w = (Inr table, w1)"
    and d: "publishedSchema s (ii_TenantID input) (tb_SchemaID table) (tb_SchemaVersion table) w1 = (Inr d, w2)"
    and l: "records_ListIndexes (rv_db s) (ii_TenantID input) (ii_WorkspaceID input) (ii_TableID input) w2 = (Inr current, w3)"
    and c: "\<not> list_ex (\<lambda>x. indexKey (ix_Field x) (ix_Direction x) = indexKey (normalizeIndexField (ii_Field input)) (ii_Direction input)) current"
      "length current < maxIndexesPerTable"
    by (auto simp: check_index_input_def bindG_Inr checkG_Inr fail_Inr split: if_splits)
  from admin_GetTable_Inr [OF s t] show "m_tables (view w) (ii_TenantID input, ii_WorkspaceID input, ii_TableID input) \<noteq> None" by simp
  from keepsD [OF admin_GetTable_keeps [OF s] t] keepsD [OF admin_schema_keeps [OF s] d] have v: "view w2 = view w" by simp
  assume "finite (dom (m_indexes (view w)))"
  then have fin: "finite (dom (m_indexes (view w2)))" by (simp add: v)
  from l have "rd_ListIndexes (rv_db s) (ii_TenantID input, ii_WorkspaceID input, ii_TableID input) w2 = (Inr current, w3)"
    by (auto simp: records_ListIndexes_def QueryG_def split: prod.splits sum.splits query_error.splits)
  from admin_servesD(9) [OF s this fin] obtain all where "set all = others" "current = take maxIndexesPerTable all"
    by (auto simp: v others_def)
  with c(2) have "set current = others" by (auto simp: min_def split: if_splits)
  with c card_length [of current] show "card others < maxIndexesPerTable
      \<and> (\<forall>x \<in> others. indexKey (ix_Field x) (ix_Direction x) \<noteq> indexKey (normalizeIndexField (ii_Field input)) (ii_Direction input))"
    by (auto simp: list_ex_iff)
qed

lemma set_dictionary_all [simp]: "set_dictionary d old = d"
  by (simp add: set_dictionary_def)

text \<open>A field that passed validation is normal after the second time.\<close>

lemma viewFieldPattern_edge: "viewFieldPattern t \<Longrightarrow> list_all edge_char t \<and> t \<noteq> []"
  by (cases t) (auto simp: viewFieldPattern_def list_all_iff edge_char_def ascii_letter_def ascii_digit_def less_eq_char_def)

lemma normalizeIndexField_valid:
  assumes "IndexDefinition_Validate d = None"
  shows "normalizeIndexField (normalizeIndexField (ix_Field d)) = normalizeIndexField (ix_Field d)"
proof -
  let ?t = "TrimSpace (ix_Field d)" and ?f = "normalizeIndexField (ix_Field d)"
  note valid = assms [unfolded IndexDefinition_Validate_None Let_def]
  from valid have "validateViewField (ix_Field d) = None" by blast
  then have p: "viewFieldPattern ?t" by (simp add: validateViewField_def split: if_splits)
  from valid have f: "?f \<noteq> []" "CHR ''.'' \<notin> set ?f" unfolding normalizeIndexField_def by blast+
  have "set ?f \<subseteq> set ?t"
    unfolding normalizeIndexField_def by (cases "strip_prefix ''data.'' ?t") (auto simp: TrimPrefix_def strip_prefix_Some)
  moreover have "\<forall>c \<in> set ?t. edge_char c" using viewFieldPattern_edge [OF p] by (simp add: list_all_iff)
  ultimately have "edge_char (hd ?f)" "edge_char (last ?f)" using hd_in_set [OF f(1)] last_in_set [OF f(1)] by blast+
  then have "TrimSpace ?f = ?f" by (intro TrimSpace_trimmed trimmed_edge)
  moreover have "strip_prefix ''data.'' ?f = None" using f(2) by (auto simp: strip_prefix_None)
  ultimately show ?thesis unfolding normalizeIndexField_def [of ?f] by (simp add: TrimPrefix_def)
qed

lemma new_index_fields [simp]:
  "ix_Field (new_index p i now) = normalizeIndexField (ii_Field i)" "ix_Name (new_index p i now) \<noteq> []"
  "ix_Direction (new_index p i now) = ii_Direction i" "ix_TenantID (new_index p i now) = TrimSpace (ii_TenantID i)"
  "ix_WorkspaceID (new_index p i now) = TrimSpace (ii_WorkspaceID i)" "ix_TableID (new_index p i now) = TrimSpace (ii_TableID i)"
  by (simp_all add: new_index_def Let_def physicalIndexName_def)

section \<open>Each call\<close>

lemma records_CreateIndex_attempt:
  assumes s: "admin_serves s M view" and given: "ix_Name given \<noteq> []"
  defines "d \<equiv> given\<lparr>ix_Field := normalizeIndexField (ix_Field given)\<rparr>"
  shows "attempt view (\<lambda>v v' _. IndexDefinition_Validate d = None \<and> m_indexes v (index_key d) = None
    \<and> v' = put_m_indexes ((m_indexes v)(index_key d \<mapsto> d)) v) (records_CreateIndex (rv_db s) given) w"
proof -
  let ?cleanup = "\<lambda>u w. case rd_CreatePhysicalIndex (rv_db s) (''data.'' @ ix_Field d) (if ix_Direction d = IndexDescending then -1 else 1) (ix_Name d) w of
      (None, w') \<Rightarrow> (Inr (), w')
    | (Some m, w') \<Rightarrow> (Inl (Wrap ''create record index'' (External m)), snd (rd_DeleteIndex (rv_db s) (index_key d) (\<lambda>_. True) w'))"
  let ?insert = "InsertNew (rd_indexes (rv_db s)) d (RecordsErr ErrIndexExists) ''insert index definition''"
  have run: "records_CreateIndex (rv_db s) given = bindG (checkG (IndexDefinition_Validate d)) (\<lambda>_. bindG ?insert ?cleanup)"
    unfolding records_CreateIndex_def Let_def d_def by (simp add: given cong: if_cong)
  obtain x w1 where i: "?insert w = (x, w1)" by force
  have "attempt view (\<lambda>v v' _. IndexDefinition_Validate d = None \<and> m_indexes v (index_key d) = None
      \<and> v' = put_m_indexes ((m_indexes v)(index_key d \<mapsto> d)) v) (bindG ?insert ?cleanup) w" if valid: "IndexDefinition_Validate d = None"
  proof (cases x)
    case (Inl e)
    with i InsertNew_Inl [OF admin_servesD(4) [OF s]] show ?thesis by (auto simp: attempt_def bindG_def)
  next
    case (Inr u)
    with i InsertNew_Inr [OF admin_servesD(4) [OF s]] have new: "m_indexes (view w) (index_key d) = None"
      and v1: "view w1 = put_m_indexes ((m_indexes (view w))(index_key d \<mapsto> d)) (view w)" by (auto simp del: fun_upd_apply)
    obtain y w2 where p: "rd_CreatePhysicalIndex (rv_db s) (''data.'' @ ix_Field d) (if ix_Direction d = IndexDescending then -1 else 1)
        (ix_Name d) w1 = (y, w2)" by force
    with admin_servesD(7) [OF s] have v2: "view w2 = view w1" by (metis snd_conv)
    show ?thesis
    proof (cases y)
      case None
      with Inr i p v1 v2 new valid show ?thesis by (simp add: attempt_def bindG_def del: fun_upd_apply)
    next
      case (Some m)
      obtain z w3 where del: "rd_DeleteIndex (rv_db s) (index_key d) (\<lambda>_. True) w2 = (z, w3)" by force
      have restore: "put_m_indexes ((m_indexes (view w2))(index_key d := None)) (view w2) = view w"
      proof -
        have "(m_indexes (view w))(index_key d := None) = m_indexes (view w)" using new by (rule fun_upd_idem)
        then show ?thesis by (simp add: v2 v1 put_m_indexes_def)
      qed
      from admin_servesD(6) [OF s, unfolded delete_laws_def, THEN spec, THEN spec, THEN spec, THEN spec, THEN spec, THEN mp, OF del]
      have "view w3 = view w2 \<or> view w3 = view w"
        using restore by (auto split: sum.splits option.splits simp del: fun_upd_apply)
      with Inr i p Some del v1 v2 new valid show ?thesis by (auto simp: attempt_def bindG_def simp del: fun_upd_apply)
    qed
  qed
  then show ?thesis unfolding run by (rule attempt_check)
qed

lemma attempt_weaken:
  "attempt view P m w \<Longrightarrow> (\<And>v' c. P (view w) v' c \<Longrightarrow> Q (view w) v' c) \<Longrightarrow> attempt view Q m w"
  by (auto simp: attempt_def split: prod.splits sum.splits)

lemma WorkspaceCall_attempt:
  assumes s: "admin_serves s M view"
  shows "attempt view (admin_effect s bytes M (WorkspaceCall prin input)) (CreateWorkspace s prin input) w"
  unfolding CreateWorkspace_def records_CreateWorkspace_def Let_def
proof (intro attempt_check attempt_read [OF admin_servesD(11) [OF s]] attempt_ret_after attempt_insert [OF admin_servesD(1) [OF s]])
  fix created w1 stamped w2
  assume "requireUser prin = None" "Workspace_Validate (new_workspace prin input created stamped) = None"
    and v: "view w1 = view w" "view w2 = view w1"
    and "m_workspaces (view w2) (workspace_key (new_workspace prin input created stamped)) = None"
  then show "admin_effect s bytes M (WorkspaceCall prin input) (view w2)
      (put_m_workspaces ((m_workspaces (view w2))(workspace_key (new_workspace prin input created stamped)
        \<mapsto> new_workspace prin input created stamped)) (view w2)) True"
    unfolding admin_effect.simps by blast
qed

lemma TableCall_attempt:
  assumes s: "admin_serves s M view"
  shows "attempt view (admin_effect s bytes M (TableCall prin input)) (CreateTable s prin input) w"
  unfolding CreateTable_def records_CreateTable_def Let_def
proof (intro attempt_read [OF records_authorize_keeps [OF s]] attempt_catch_read [OF admin_servesD(10) [OF s]] attempt_fail attempt_if
    attempt_read [OF admin_servesD(11) [OF s]] attempt_check attempt_ret_after attempt_insert [OF admin_servesD(2) [OF s]])
  fix u w1 d w2 now w3
  assume auth: "records_authorize s prin (ti_TenantID input) (ti_WorkspaceID input) ActionWorkspaceManage w = (Inr u, w1)"
    and "TableDefinition_Validate (new_table prin input now) = None" "view w1 = view w" "view w2 = view w1" "view w3 = view w2"
    and "m_tables (view w3) (table_key (new_table prin input now)) = None"
  with records_authorize_granted [OF s auth] show "admin_effect s bytes M (TableCall prin input) (view w3)
      (put_m_tables ((m_tables (view w3))(table_key (new_table prin input now) \<mapsto> new_table prin input now)) (view w3)) True"
    unfolding admin_effect.simps by blast
qed

lemma ViewCall_attempt:
  assumes s: "admin_serves s M view"
  shows "attempt view (admin_effect s bytes M (ViewCall prin input)) (CreateView s prin input) w"
  unfolding CreateView_def records_CreateView_def Let_def
proof (intro attempt_read [OF records_authorize_keeps [OF s]] attempt_read [OF check_view_input_keeps [OF s]]
    attempt_read [OF admin_servesD(11) [OF s]] attempt_check attempt_ret_after attempt_insert [OF admin_servesD(3) [OF s]])
  fix u w1 u' w2 now w3
  assume auth: "records_authorize s prin (vi_TenantID input) (vi_WorkspaceID input) ActionViewWrite w = (Inr u, w1)"
    and chk: "check_view_input s input w1 = (Inr u', w2)"
    and "ViewDefinition_Validate (new_view prin input now) = None" and v: "view w1 = view w" "view w2 = view w1" "view w3 = view w2"
    and "m_views (view w3) (view_key (new_view prin input now)) = None"
  moreover from check_view_input_Inr [OF s chk] v
  have "m_tables (view w3) (vi_TenantID input, vi_WorkspaceID input, vi_TableID input) \<noteq> None" by simp
  ultimately show "admin_effect s bytes M (ViewCall prin input) (view w3)
      (put_m_views ((m_views (view w3))(view_key (new_view prin input now) \<mapsto> new_view prin input now)) (view w3)) True"
    using records_authorize_granted [OF s auth] unfolding admin_effect.simps by blast
qed

lemma edited_view_key [simp]: "view_key (edited_view prin input now existing) = view_key existing"
  by (simp add: view_key_def edited_view_def)

lemma ViewUpdateCall_attempt:
  assumes s: "admin_serves s M view"
  shows "attempt view (admin_effect s bytes M (ViewUpdateCall prin input n)) (UpdateView s prin input n) w"
  unfolding UpdateView_def records_UpdateView_def Let_def
proof (intro attempt_read [OF records_authorize_keeps [OF s]] attempt_if attempt_fail attempt_read [OF check_view_input_keeps [OF s]]
    attempt_read [OF admin_GetView_keeps [OF s]] attempt_read [OF admin_servesD(11) [OF s]] attempt_check
    attempt_find_update [OF admin_servesD(3) [OF s]])
  fix u w1 u' w2 existing w3 now w4 old
  let ?d = "edited_view prin input now existing"
  assume auth: "records_authorize s prin (vi_TenantID input) (vi_WorkspaceID input) ActionViewWrite w = (Inr u, w1)"
    and n: "\<not> n < 1" and v: "view w1 = view w" "view w2 = view w1" "view w3 = view w2" "view w4 = view w3"
    and get: "records_GetView (rv_db s) (vi_TenantID input) (vi_WorkspaceID input) (vi_TableID input) (vi_ID input) w2 = (Inr existing, w3)"
    and valid: "ViewDefinition_Validate ?d = None"
    and old: "m_views (view w4) (view_key ?d) = Some old" "vd_Version old = n"
  from n have "1 \<le> n" by simp
  moreover have "m_views (view w4) (vi_TenantID input, vi_WorkspaceID input, vi_TableID input, vi_ID input) = Some existing"
    using admin_GetView_Inr [OF s get] v by simp
  ultimately show "admin_effect s bytes M (ViewUpdateCall prin input n) (view w4)
      (put_m_views ((m_views (view w4))(view_key ?d \<mapsto> set_view ?d old)) (view w4)) True"
    using records_authorize_granted [OF s auth] valid old unfolding admin_effect.simps edited_view_key by blast
qed

lemma IndexCall_attempt:
  assumes s: "admin_serves s M view"
  shows "attempt view (admin_effect s bytes M (IndexCall prin input)) (CreateIndex s prin input) w"
  unfolding CreateIndex_def Let_def
proof (intro attempt_read [OF records_authorize_keeps [OF s]] attempt_read [OF check_index_input_keeps [OF s]]
    attempt_read [OF admin_servesD(11) [OF s]] attempt_check attempt_ret_after)
  fix u w1 u' w2 now w3
  let ?d = "new_index prin input now"
  assume auth: "records_authorize s prin (ii_TenantID input) (ii_WorkspaceID input) ActionWorkspaceManage w = (Inr u, w1)"
    and chk: "check_index_input s input w1 = (Inr u', w2)" and valid: "IndexDefinition_Validate ?d = None"
    and v: "view w1 = view w" "view w2 = view w1" "view w3 = view w2"
  show "attempt view (admin_effect s bytes M (IndexCall prin input)) (records_CreateIndex (rv_db s) ?d) w3"
  proof (rule attempt_weaken [OF records_CreateIndex_attempt [OF s]])
    fix v' c assume e: "IndexDefinition_Validate (?d\<lparr>ix_Field := normalizeIndexField (ix_Field ?d)\<rparr>) = None
      \<and> m_indexes (view w3) (index_key (?d\<lparr>ix_Field := normalizeIndexField (ix_Field ?d)\<rparr>)) = None
      \<and> v' = put_m_indexes ((m_indexes (view w3))(index_key (?d\<lparr>ix_Field := normalizeIndexField (ix_Field ?d)\<rparr>)
          \<mapsto> ?d\<lparr>ix_Field := normalizeIndexField (ix_Field ?d)\<rparr>)) (view w3)"
    from check_index_input_Inr [OF s chk] v
    have "m_tables (view w3) (ii_TenantID input, ii_WorkspaceID input, ii_TableID input) \<noteq> None"
      and "let others = table_indexes (view w3) (ii_TenantID input) (ii_WorkspaceID input) (ii_TableID input)
        in finite (dom (m_indexes (view w3))) \<longrightarrow> card others < maxIndexesPerTable
          \<and> (\<forall>x \<in> others. indexKey (ix_Field x) (ix_Direction x) \<noteq> indexKey (normalizeIndexField (ii_Field input)) (ii_Direction input))"
      by (simp_all add: Let_def)
    with e valid records_authorize_granted [OF s auth] show "admin_effect s bytes M (IndexCall prin input) (view w3) v' c"
      unfolding admin_effect.simps new_index_fields by blast
  qed simp
qed

lemma records_SaveTagDictionary_attempt:
  assumes s: "admin_serves s M view"
  shows "attempt view (\<lambda>v v' _. (if n = 0 then m_dictionaries v (dictionary_key d) = None
        else \<exists>old. m_dictionaries v (dictionary_key d) = Some old \<and> td_Revision old = n)
      \<and> v' = put_m_dictionaries ((m_dictionaries v)(dictionary_key d \<mapsto> d)) v) (records_SaveTagDictionary (rv_db s) d n) w"
proof -
  note r = admin_servesD(5) [OF s]
  let ?Q = "\<lambda>v v' (_::bool). (if n = 0 then m_dictionaries v (dictionary_key d) = None
        else \<exists>old. m_dictionaries v (dictionary_key d) = Some old \<and> td_Revision old = n)
      \<and> v' = put_m_dictionaries ((m_dictionaries v)(dictionary_key d \<mapsto> d)) v"
  have "attempt view ?Q (bindG (UpdateG (rd_dictionaries (rv_db s)) (dictionary_key d) (\<lambda>old. td_Revision old = n) (set_dictionary d)
      ''update tag dictionary'') (\<lambda>matched. if matched \<noteq> 1 then fail (RecordsErr ErrTagDictionaryVersionConflict) else ret ())) w"
    if "n \<noteq> 0"
  proof -
    obtain x w1 where u: "c_UpdateOne (rd_dictionaries (rv_db s)) (dictionary_key d) (\<lambda>old. td_Revision old = n) (set_dictionary d) w = (x, w1)"
      by force
    note law = UpdateOne_law [OF r [unfolded realises_def, THEN conjunct2] u]
    note v = realises_view [OF r law(1)]
    have id: "put_m_dictionaries (m_dictionaries (view w)) (view w) = view w" by (simp add: put_m_dictionaries_def)
    show ?thesis
    proof (cases x)
      case (Inl e)
      with law(2) v id u show ?thesis by (simp add: attempt_def bindG_def UpdateG_def)
    next
      case (Inr k)
      note d = law(3,4) [OF Inr]
      show ?thesis
      proof (cases "matching (m_dictionaries (view w)) (dictionary_key d) (\<lambda>old. td_Revision old = n)")
        case None
        with d have "m_dictionaries (view w1) = m_dictionaries (view w)" "k = 0" by (simp_all add: updated_def)
        with v id Inr u show ?thesis by (simp add: attempt_def bindG_def UpdateG_def fail_def)
      next
        case (Some old)
        with d v have new: "view w1 = put_m_dictionaries ((m_dictionaries (view w))(dictionary_key d \<mapsto> d)) (view w)"
          by (simp add: updated_def del: fun_upd_apply)
        have stored: "view w1 = view w" if "k \<noteq> 1"
          using that d id v by (cases k) auto
        from Some that have "\<exists>old. m_dictionaries (view w) (dictionary_key d) = Some old \<and> td_Revision old = n"
          by (auto simp: matching_Some)
        with new stored Inr u that show ?thesis
          by (simp add: attempt_def bindG_def UpdateG_def fail_def ret_def del: fun_upd_apply)
      qed
    qed
  qed
  then show ?thesis
    unfolding records_SaveTagDictionary_def
    by (intro attempt_check attempt_if attempt_fail attempt_insert [OF r]) (simp_all del: fun_upd_apply)
qed

lemma TagsCall_attempt:
  assumes s: "admin_serves s M view"
  shows "attempt view (admin_effect s bytes M (TagsCall prin input n)) (SaveTagDictionary s bytes prin input n) w"
proof -
  let ?d = "new_dictionary input n"
  have get: "keeps view (GetTagDictionary (rv_db s) t ws tb)" for t ws tb
    unfolding GetTagDictionary_def by (intro keeping) (rule admin_servesD(5) [OF s])
  let ?read = "catchG (GetTagDictionary (rv_db s) (td_TenantID ?d) (td_WorkspaceID ?d) (td_TableID ?d))
      (\<lambda>err. if errors_is err (RecordsErr ErrTagDictionaryNotFound) then ret empty_dictionary else fail err) ret"
  have read: "keeps view ?read" by (intro keeping get)
  show ?thesis
    unfolding SaveTagDictionary_def Let_def
  proof (intro attempt_read [OF records_authorize_keeps [OF s]] attempt_if attempt_fail attempt_check attempt_read [OF read])
    fix u w1 before w2
    assume auth: "records_authorize s prin (tdi_TenantID input) (tdi_WorkspaceID input) ActionTagDictionaryWrite w = (Inr u, w1)"
      and n: "\<not> n < 0" and valid: "TagDictionary_Validate ?d = None" and v: "view w1 = view w" "view w2 = view w1"
      and b: "?read w1 = (Inr before, w2)"
    note g = records_authorize_granted [OF s auth]
    let ?before = "case m_dictionaries (view w2) (dictionary_key ?d) of None \<Rightarrow> empty_dictionary | Some old \<Rightarrow> old"
    have before: "before = ?before"
    proof -
      obtain x w' where f: "FindG (rd_dictionaries (rv_db s)) (dictionary_key ?d) ''find tag dictionary'' w1 = (x, w')" by force
      show ?thesis
      proof (cases x)
        case (Inl e)
        from f Inl have "\<exists>m. e = Wrap ''find tag dictionary'' (External m)"
          by (auto simp: FindG_def split: find_result.splits prod.splits)
        with b f Inl show ?thesis
          by (auto simp: GetTagDictionary_def dictionary_key_def go_success catchG_def bindG_def fail_def ret_def)
      next
        case (Inr found)
        with FindG_Inr [OF admin_servesD(5) [OF s], of "dictionary_key ?d" _ w1 found w'] f
        have "found = m_dictionaries (view w1) (dictionary_key ?d)" by simp
        with b f Inr v show ?thesis
          by (cases "m_dictionaries (view w1) (dictionary_key ?d)")
             (auto simp: GetTagDictionary_def dictionary_key_def catchG_def bindG_def fail_def ret_def)
      qed
    qed
    let ?Q = "\<lambda>v v'. (if n = 0 then m_dictionaries v (dictionary_key ?d) = None
        else \<exists>old. m_dictionaries v (dictionary_key ?d) = Some old \<and> td_Revision old = n)
      \<and> v' = put_m_dictionaries ((m_dictionaries v)(dictionary_key ?d \<mapsto> ?d)) v"
    show "attempt view (admin_effect s bytes M (TagsCall prin input n))
      (bindG (records_SaveTagDictionary (rv_db s) ?d n) (\<lambda>_. bindG (nowG (rv_Now s)) (\<lambda>now.
         bindG (wrapG ''append tag dictionary audit'' (rv_audit s (dictionary_entry bytes prin before ?d now))) (\<lambda>_. ret ?d)))) w2"
    proof (rule attempt_then [where Q = "\<lambda>v v'. v = view w2 \<and> ?Q v v'"])
      show "attempt view (\<lambda>v v' _. v = view w2 \<and> ?Q v v') (records_SaveTagDictionary (rv_db s) ?d n) w2"
        by (rule attempt_weaken [OF records_SaveTagDictionary_attempt [OF s]]) simp
      show stored: "admin_effect s bytes M (TagsCall prin input n) v v' False" if "v = view w2 \<and> ?Q v v'" for v v'
        using that g n valid unfolding admin_effect.simps by (auto simp: Let_def simp del: fun_upd_apply)
      fix a w3 assume q: "view w2 = view w2 \<and> ?Q (view w2) (view w3)"
      have recorded: "admin_effect s bytes M (TagsCall prin input n) (view w2)
          ((view w3)\<lparr>x_audit := x_audit (view w2) @ [dictionary_entry bytes prin before ?d now]\<rparr>) True" for now
      proof -
        from q have q1: "if n = 0 then m_dictionaries (view w2) (dictionary_key ?d) = None
            else \<exists>old. m_dictionaries (view w2) (dictionary_key ?d) = Some old \<and> td_Revision old = n"
          and q2: "view w3 = put_m_dictionaries ((m_dictionaries (view w2))(dictionary_key ?d \<mapsto> ?d)) (view w2)" by blast+
        show ?thesis
          unfolding admin_effect.simps Let_def if_True before [symmetric] q2 using n
          by (intro conjI exI [of _ ?d] exI [of _ now] refl g valid q1) (simp_all add: before)
      qed
      have same: "x_audit (view w3) = x_audit (view w2)" using q by (simp add: put_m_dictionaries_def)
      obtain now w4 where t: "nowG (rv_Now s) w3 = (Inr now, w4)" by (cases "rv_Now s w3") (simp add: nowG_def)
      with keepsD [OF admin_servesD(11) [OF s]] have v4: "view w4 = view w3" by blast
      obtain y w5 where a: "rv_audit s (dictionary_entry bytes prin before ?d now) w4 = (y, w5)" by force
      from admin_servesD(12) [OF s, unfolded audit_adds_def, THEN spec, THEN spec, THEN spec, THEN spec, THEN mp, OF a]
      have v5: "view w5 = (case y of Inr _ \<Rightarrow> (view w4)\<lparr>x_audit := x_audit (view w4) @ [dictionary_entry bytes prin before ?d now]\<rparr> | Inl _ \<Rightarrow> view w4)" .
      show "case bindG (nowG (rv_Now s)) (\<lambda>now. bindG (wrapG ''append tag dictionary audit''
            (rv_audit s (dictionary_entry bytes prin before ?d now))) (\<lambda>_. ret ?d)) w3 of
          (Inr b, w2') \<Rightarrow> admin_effect s bytes M (TagsCall prin input n) (view w2) (view w2') True
        | (Inl e, w2') \<Rightarrow> admin_effect s bytes M (TagsCall prin input n) (view w2) (view w2') False"
      proof (cases y)
        case (Inl e)
        from stored [OF q] v4 v5 Inl have "admin_effect s bytes M (TagsCall prin input n) (view w2) (view w5) False" by (simp del: admin_effect.simps)
        with t a Inl show ?thesis by (simp add: bindG_def wrapG_def catchG_def fail_def del: admin_effect.simps)
      next
        case (Inr u)
        from recorded [of now] v4 v5 Inr same have "admin_effect s bytes M (TagsCall prin input n) (view w2) (view w5) True" by (simp del: admin_effect.simps)
        with t a Inr show ?thesis by (simp add: bindG_def wrapG_def catchG_def ret_def del: admin_effect.simps)
      qed
    qed
  qed
qed

lemma admin_exec_attempt:
  "admin_serves s M view \<Longrightarrow> attempt view (admin_effect s bytes M call) (admin_exec s bytes call) w"
  by (cases call)
     (simp_all only: admin_exec.simps attempt_ret_after WorkspaceCall_attempt TableCall_attempt TagsCall_attempt ViewCall_attempt
        ViewUpdateCall_attempt IndexCall_attempt)

section \<open>What every sequence of calls keeps\<close>

definition admin_run :: "('w, 'v) RecordService \<Rightarrow> (TagDictionary \<Rightarrow> string) \<Rightarrow> admin_call list \<Rightarrow> 'w \<Rightarrow> 'w" where
  "admin_run s bytes calls w = fold (\<lambda>call w. snd (admin_exec s bytes call w)) calls w"

text \<open>
  Tables have keys without outer white space, and the indexes of a table are at most 16, on
  different fields or in different directions.
\<close>

definition same_table :: "IndexDefinition \<Rightarrow> IndexDefinition \<Rightarrow> bool" where
  "same_table d d' \<longleftrightarrow> ix_TenantID d = ix_TenantID d' \<and> ix_WorkspaceID d = ix_WorkspaceID d' \<and> ix_TableID d = ix_TableID d'"

definition bounded_indexes :: "AdminDB \<Rightarrow> bool" where
  "bounded_indexes v \<longleftrightarrow> finite (dom (m_indexes v))
     \<and> (\<forall>t ws tb. card (table_indexes v t ws tb) \<le> maxIndexesPerTable)
     \<and> (\<forall>d \<in> ran (m_indexes v). \<forall>d' \<in> ran (m_indexes v). same_table d d' \<longrightarrow>
          indexKey (ix_Field d) (ix_Direction d) = indexKey (ix_Field d') (ix_Direction d') \<longrightarrow> d = d')"

definition trimmed_tables :: "AdminDB \<Rightarrow> bool" where
  "trimmed_tables v \<longleftrightarrow> (\<forall>t ws tb. m_tables v (t, ws, tb) \<noteq> None \<longrightarrow> TrimSpace t = t \<and> TrimSpace ws = ws \<and> TrimSpace tb = tb)"

lemma put_indexes_simps [simp]: "m_indexes (put_m_indexes m v) = m" "m_tables (put_m_indexes m v) = m_tables v"
  by (simp_all add: put_m_indexes_def)

lemma bounded_indexes_insert:
  assumes b: "bounded_indexes v" and new: "m_indexes v (index_key d) = None"
    and card: "card (table_indexes v (ix_TenantID d) (ix_WorkspaceID d) (ix_TableID d)) < maxIndexesPerTable"
    and key: "\<forall>x \<in> table_indexes v (ix_TenantID d) (ix_WorkspaceID d) (ix_TableID d).
      indexKey (ix_Field x) (ix_Direction x) \<noteq> indexKey (ix_Field d) (ix_Direction d)"
  shows "bounded_indexes (put_m_indexes ((m_indexes v)(index_key d \<mapsto> d)) v)"
proof -
  let ?v = "put_m_indexes ((m_indexes v)(index_key d \<mapsto> d)) v"
  have ran: "ran (m_indexes ?v) = insert d (ran (m_indexes v))" using new by simp
  then have part: "table_indexes ?v t ws tb = (if ix_TenantID d = t \<and> ix_WorkspaceID d = ws \<and> ix_TableID d = tb
      then insert d (table_indexes v t ws tb) else table_indexes v t ws tb)" for t ws tb
    unfolding table_indexes_def by auto
  have "card (insert d A) \<le> maxIndexesPerTable" if "card A < maxIndexesPerTable" for A
    using that card_insert_le_m1 [of maxIndexesPerTable A d] by (simp add: maxIndexesPerTable_def)
  with b card part have "card (table_indexes ?v t ws tb) \<le> maxIndexesPerTable" for t ws tb
    unfolding bounded_indexes_def by (cases "ix_TenantID d = t \<and> ix_WorkspaceID d = ws \<and> ix_TableID d = tb") auto
  moreover have "finite (dom (m_indexes ?v))" using b unfolding bounded_indexes_def by simp
  moreover have "a = c" if "a \<in> ran (m_indexes ?v)" "c \<in> ran (m_indexes ?v)" "same_table a c"
    "indexKey (ix_Field a) (ix_Direction a) = indexKey (ix_Field c) (ix_Direction c)" for a c
  proof -
    have "x \<in> table_indexes v (ix_TenantID d) (ix_WorkspaceID d) (ix_TableID d)"
      if "x \<in> ran (m_indexes v)" "same_table x d \<or> same_table d x" for x
      using that unfolding table_indexes_def same_table_def by auto
    with key that b ran show ?thesis unfolding bounded_indexes_def by (metis insert_iff)
  qed
  ultimately show ?thesis unfolding bounded_indexes_def by blast
qed

lemma bounded_indexes_cong:
  "m_indexes v' = m_indexes v \<Longrightarrow> m_tables v' = m_tables v \<Longrightarrow>
     bounded_indexes v \<Longrightarrow> trimmed_tables v \<Longrightarrow> bounded_indexes v' \<and> trimmed_tables v'"
  by (simp add: bounded_indexes_def table_indexes_def trimmed_tables_def)

lemma admin_effect_bounded:
  assumes e: "admin_effect s bytes M call v v' c" and b: "bounded_indexes v" and t: "trimmed_tables v"
  shows "bounded_indexes v' \<and> trimmed_tables v'"
proof (cases call)
  case (IndexCall prin input)
  let ?ti = "table_indexes v (ii_TenantID input) (ii_WorkspaceID input) (ii_TableID input)"
  from e IndexCall obtain now where table: "m_tables v (ii_TenantID input, ii_WorkspaceID input, ii_TableID input) \<noteq> None"
    and valid: "IndexDefinition_Validate (new_index prin input now) = None"
    and d: "m_indexes v (index_key ((new_index prin input now)\<lparr>ix_Field := normalizeIndexField (normalizeIndexField (ii_Field input))\<rparr>)) = None"
    "v' = put_m_indexes ((m_indexes v)(index_key ((new_index prin input now)\<lparr>ix_Field := normalizeIndexField (normalizeIndexField (ii_Field input))\<rparr>)
       \<mapsto> (new_index prin input now)\<lparr>ix_Field := normalizeIndexField (normalizeIndexField (ii_Field input))\<rparr>)) v"
    and o: "finite (dom (m_indexes v)) \<Longrightarrow> card ?ti < maxIndexesPerTable" "finite (dom (m_indexes v)) \<Longrightarrow> x \<in> ?ti \<Longrightarrow>
       indexKey (ix_Field x) (ix_Direction x) \<noteq> indexKey (normalizeIndexField (ii_Field input)) (ii_Direction input)" for x
    unfolding IndexCall admin_effect.simps Let_def by blast
  let ?d = "(new_index prin input now)\<lparr>ix_Field := normalizeIndexField (normalizeIndexField (ii_Field input))\<rparr>"
  have fin: "finite (dom (m_indexes v))" using b unfolding bounded_indexes_def by simp
  from t table have ids: "ix_TenantID ?d = ii_TenantID input" "ix_WorkspaceID ?d = ii_WorkspaceID input" "ix_TableID ?d = ii_TableID input"
    unfolding trimmed_tables_def by auto
  from normalizeIndexField_valid [OF valid]
  have "indexKey (ix_Field ?d) (ix_Direction ?d) = indexKey (normalizeIndexField (ii_Field input)) (ii_Direction input)"
    by (simp add: indexKey_def)
  with o fin have "bounded_indexes v'" unfolding d(2) by (intro bounded_indexes_insert b d(1)) (auto simp: ids)
  moreover have "trimmed_tables v'" using t unfolding d(2) trimmed_tables_def by simp
  ultimately show ?thesis by blast
next
  case (TableCall prin input)
  with e obtain d now where d: "d = new_table prin input now" "v' = put_m_tables ((m_tables v)(table_key d \<mapsto> d)) v"
    unfolding TableCall admin_effect.simps by blast
  have "trimmed_tables v'" using t unfolding d trimmed_tables_def by (auto simp: put_m_tables_def table_key_def new_table_def)
  moreover have "bounded_indexes v'" using b unfolding d(2) by (simp add: bounded_indexes_def table_indexes_def put_m_tables_def)
  ultimately show ?thesis by blast
next
  case (WorkspaceCall prin input)
  with e obtain m where "v' = put_m_workspaces m v" unfolding WorkspaceCall admin_effect.simps by blast
  then show ?thesis by (intro bounded_indexes_cong [OF _ _ b t]) (simp_all add: put_m_workspaces_def)
next
  case (TagsCall prin input n)
  with e obtain m a where "v' = put_m_dictionaries m v \<or> v' = (put_m_dictionaries m v)\<lparr>x_audit := a\<rparr>"
    unfolding TagsCall admin_effect.simps Let_def by (cases c) auto
  then have "m_indexes v' = m_indexes v" "m_tables v' = m_tables v" by (auto simp: put_m_dictionaries_def)
  then show ?thesis by (rule bounded_indexes_cong [OF _ _ b t])
next
  case (ViewCall prin input)
  with e obtain m where "v' = put_m_views m v" unfolding ViewCall admin_effect.simps by blast
  then show ?thesis by (intro bounded_indexes_cong [OF _ _ b t]) (simp_all add: put_m_views_def)
next
  case (ViewUpdateCall prin input n)
  with e obtain m where "v' = put_m_views m v" unfolding ViewUpdateCall admin_effect.simps by blast
  then show ?thesis by (intro bounded_indexes_cong [OF _ _ b t]) (simp_all add: put_m_views_def)
qed

section \<open>A database in memory\<close>

definition memory_indexes :: "AdminDB \<Rightarrow> string \<times> string \<times> string \<Rightarrow> IndexDefinition list" where
  "memory_indexes v = (\<lambda>(t, ws, tb). take maxIndexesPerTable
     (filter (\<lambda>d. ix_TenantID d = t \<and> ix_WorkspaceID d = ws \<and> ix_TableID d = tb)
       (map (\<lambda>k. the (m_indexes v k)) (sorted_list_of_set (dom (m_indexes v))))))"

definition memory_admin :: "AdminDB records_database" where
  "memory_admin =
     \<lparr>rd_workspaces = memory_collection workspace_key m_workspaces put_m_workspaces, rd_ListWorkspaces = memory_query (\<lambda>_ _. []),
      rd_tables = memory_collection table_key m_tables put_m_tables, rd_ListTables = memory_query (\<lambda>_ _. []),
      rd_records = (\<lambda>_. no_collection), rd_DeleteRecord = (\<lambda>_ _ _ v. (Inr 0, v)), rd_FindSource = (\<lambda>_ _ v. (NoDocuments, v)),
      rd_readPointers = None, rd_ActivePointers = memory_query (\<lambda>_ _. []),
      rd_views = memory_collection view_key m_views put_m_views, rd_ListViews = memory_query (\<lambda>_ _. []),
      rd_indexes = memory_collection index_key m_indexes put_m_indexes, rd_ListIndexes = memory_query memory_indexes,
      rd_DeleteIndex = memory_delete m_indexes put_m_indexes, rd_CreatePhysicalIndex = (\<lambda>_ _ _ v. (None, v)),
      rd_dictionaries = memory_collection dictionary_key m_dictionaries put_m_dictionaries,
      rd_ListDictionaries = memory_query (\<lambda>_ _. []), rd_IsDuplicateKeyError = (\<lambda>_. False),
      rd_Transaction = memory_transaction, rd_bson = (\<lambda>_. True)\<rparr>"

definition sample_admin_service :: "(AdminDB, unit) RecordService" where
  "sample_admin_service =
     \<lparr>rv_db = memory_admin, rv_schemas = (\<lambda>_ _ _. ret sample_definition), rv_members = (\<lambda>_ _ _. ret sample_membership),
      rv_receipts = memory_receipts, rv_audit = memory_audit_writer, rv_Now = (\<lambda>v. (5, v)), rv_ext_json = Inr,
      rv_library = \<lparr>lib_compile = (\<lambda>_ _. Inr ()), lib_validate = (\<lambda>_ _. None)\<rparr>, rv_marshal = (\<lambda>_. []),
      rv_controlledTags = False, rv_feed = None\<rparr>"

lemma sample_admin_serves: "admin_serves sample_admin_service {sample_membership} (\<lambda>v. v)"
proof -
  have "\<exists>all. set all = table_indexes v t ws tb \<and> memory_indexes v (t, ws, tb) = take maxIndexesPerTable all"
    if "finite (dom (m_indexes v))" for v t ws tb
    using that by (intro exI [of _ "filter (\<lambda>d. ix_TenantID d = t \<and> ix_WorkspaceID d = ws \<and> ix_TableID d = tb)
       (map (\<lambda>k. the (m_indexes v k)) (sorted_list_of_set (dom (m_indexes v))))"])
      (force simp: memory_indexes_def table_indexes_def ran_def dom_def image_iff)
  then show ?thesis
    unfolding admin_serves_def
    by (simp add: sample_admin_service_def memory_admin_def realises_memory admin_parts
        memory_delete_laws memory_audit_adds reads_members_def ret_def reads_only_query)
       (simp add: reads_only_def memory_query_def)
qed

definition sample_index_input :: IndexInput where
  "sample_index_input = \<lparr>ii_TenantID = ''t'', ii_WorkspaceID = ''w'', ii_TableID = ''tb'', ii_ID = ''i'', ii_Field = ''data.n'',
     ii_Direction = IndexAscending\<rparr>"

definition sample_workspace_input :: WorkspaceInput where
  "sample_workspace_input = \<lparr>wi_TenantID = ''t'', wi_ID = ''w'', wi_Name = ''n''\<rparr>"

definition sample_index :: IndexDefinition where
  "sample_index = new_index sample_owner sample_index_input 5"

definition sample_admin :: AdminDB where
  "sample_admin =
     \<lparr>x_receipts = Map.empty, x_audit = [], m_workspaces = Map.empty, m_tables = [table_key sample_custom \<mapsto> sample_custom],
      m_views = Map.empty, m_indexes = [index_key sample_index \<mapsto> sample_index], m_dictionaries = Map.empty\<rparr>"

section \<open>Properties\<close>



text \<open>
  C24: Over any sequence of these calls, successful or not, a table never has more than 16
  indexes, and never two on the same field in the same direction.
\<close>

theorem indexes_bounded:
  assumes "admin_serves s M view" "bounded_indexes (view w)" "trimmed_tables (view w)" "w' = admin_run s bytes calls w"
  shows "card (table_indexes (view w') t ws tb) \<le> 16
    \<and> (\<forall>d \<in> table_indexes (view w') t ws tb. \<forall>d' \<in> table_indexes (view w') t ws tb.
        indexKey (ix_Field d) (ix_Direction d) = indexKey (ix_Field d') (ix_Direction d') \<longrightarrow> d = d')"
proof -
  have "bounded_indexes (view (admin_run s bytes calls w)) \<and> trimmed_tables (view (admin_run s bytes calls w))"
    using assms(2,3)
  proof (induction calls arbitrary: w)
    case Nil
    then show ?case by (simp add: admin_run_def)
  next
    case (Cons call calls)
    obtain x w1 where x: "admin_exec s bytes call w = (x, w1)" by force
    with admin_exec_attempt [OF assms(1), of bytes call w]
    have "view w1 = view w \<or> (\<exists>c. admin_effect s bytes M call (view w) (view w1) c)" by (cases x) (auto simp: attempt_def)
    then have "bounded_indexes (view w1) \<and> trimmed_tables (view w1)"
      using Cons.prems admin_effect_bounded [OF _ Cons.prems] by (elim disjE exE) (simp, blast)
    with Cons.IH [of w1] x show ?case by (simp add: admin_run_def)
  qed
  then show ?thesis unfolding assms(4) [symmetric] bounded_indexes_def table_indexes_def same_table_def maxIndexesPerTable_def by auto
qed

lemma sample_admin_bounded: "bounded_indexes sample_admin" "trimmed_tables sample_admin"
proof -
  have "table_indexes sample_admin t ws tb \<subseteq> {sample_index}" for t ws tb
    by (auto simp: table_indexes_def sample_admin_def)
  then have "card (table_indexes sample_admin t ws tb) \<le> card {sample_index}" for t ws tb by (intro card_mono) simp_all
  then show "bounded_indexes sample_admin"
    by (simp add: bounded_indexes_def maxIndexesPerTable_def sample_admin_def order_trans [of _ 1 16])
  show "trimmed_tables sample_admin"
    by (auto simp: trimmed_tables_def sample_admin_def table_key_def sample_custom_def trim_simps)
qed

theorem indexes_bounded_witness:
  "table_indexes sample_admin ''t'' ''w'' ''tb'' = {sample_index}
     \<and> card (table_indexes (admin_run sample_admin_service (\<lambda>_. []) [IndexCall sample_owner (sample_index_input\<lparr>ii_Field := ''m''\<rparr>)]
         sample_admin) ''t'' ''w'' ''tb'') \<le> 16"
  using indexes_bounded [OF sample_admin_serves sample_admin_bounded refl]
  by (auto simp: table_indexes_def sample_admin_def sample_index_def sample_index_input_def trim_simps)

end
