(* ===== verification/JsonRoundtrip.thy ===== *)
theory JsonRoundtrip
  imports Json
begin

text \<open>
  The decoder of \<open>Json\<close> reads back what \<open>json.Marshal\<close> writes: every value whose strings are
  valid UTF-8 and whose numbers are number literals. The session cookies of the server and the
  hashes of its requests rest on it.
\<close>

section \<open>Strings\<close>

lemma prepend_simps [simp]:
  "prepend p None = None" "prepend p (Some (s, r)) = Some (p @ s, r)" "prepend [] x = x"
  "prepend p (prepend q x) = prepend (p @ q) x"
  by (cases x; simp add: prepend_def split: prod.splits)+

lemma byte_in_char: "byte_in lo hi (char_of n) \<longleftrightarrow> lo \<le> n mod 256 \<and> n mod 256 \<le> hi"
  by (simp add: byte_in_def)

lemma parse_string_plain: "c \<noteq> CHR 0x22 \<Longrightarrow> c \<noteq> CHR 0x5C \<Longrightarrow> \<not> byte_in 0 31 c \<Longrightarrow> parse_string (c # t) = prepend [c] (parse_string t)"
  by (simp add: parse_string.simps)

lemma high_byte_plain: "byte_in 128 255 c \<Longrightarrow> c \<noteq> CHR 0x22 \<and> c \<noteq> CHR 0x5C \<and> \<not> byte_in 0 31 c"
  by (auto simp: byte_in_def)

lemma parse_string_high: "list_all (byte_in 128 255) p \<Longrightarrow> parse_string (p @ t) = prepend p (parse_string t)"
  by (induction p) (simp_all add: parse_string_plain high_byte_plain)

lemma marshal_hex_value: "n < 16 \<Longrightarrow> hex_value (marshal_hex n) = Some n"
proof -
  assume "n < 16"
  then have "n \<in> set [0..<16]" by simp
  moreover have "list_all (\<lambda>n. hex_value (marshal_hex n) = Some n) [0..<16]" by code_simp
  ultimately show ?thesis by (simp only: list_all_iff)
qed

lemma parse_escape_u:
  assumes "hex4 h = Some n" "length h = 4" "n < 0xD800"
  shows "parse_string (CHR 0x5C # CHR ''u'' # h @ t) = prepend (utf8_encode n) (parse_string t)"
  using assms by (simp add: parse_string.simps)

lemma parse_u_escape:
  assumes "byte_in 0 127 c"
  shows "parse_string (u_escape c @ t) = prepend [c] (parse_string t)"
proof -
  let ?h = "[CHR ''0'', CHR ''0'', marshal_hex (of_char c div 16), marshal_hex (of_char c mod 16)]"
  have b: "(of_char c :: nat) < 128" using assms by (simp add: byte_in_def)
  have z: "hex_value CHR ''0'' = Some 0" by code_simp
  have "hex4 ?h = Some (of_char c)" using b by (simp add: hex4_def z marshal_hex_value)
  then have "parse_string (CHR 0x5C # CHR ''u'' # ?h @ t) = prepend (utf8_encode (of_char c)) (parse_string t)"
    using b by (intro parse_escape_u) simp_all
  then show ?thesis using b by (simp add: u_escape_def utf8_encode_def)
qed

lemma parse_marshal_char:
  assumes "byte_in 0 127 c"
  shows "parse_string (marshal_char c @ t) = prepend [c] (parse_string t)"
proof -
  have e: "parse_string (CHR 0x5C # e # t) = prepend [x] (parse_string t)" if "e \<noteq> CHR ''u''" "simple_escape e = Some x" for e x
    using that by (simp add: parse_string.simps)
  show ?thesis
    unfolding marshal_char_def using parse_u_escape [OF assms, of t] parse_string_plain [of c t]
    by (simp add: e simple_escape_def)
qed

lemma rune_len_one: "rune_len (c # cs) = 1 \<Longrightarrow> byte_in 0 127 c"
  by (cases "c # cs" rule: rune_len.cases) (auto simp: rune_len.simps split: if_splits)

lemma high_ranges:
  "byte_in 0xC2 0xDF x \<Longrightarrow> byte_in 128 255 x" "byte_in 0x80 0xBF x \<Longrightarrow> byte_in 128 255 x" "byte_in 0xE0 0xE0 x \<Longrightarrow> byte_in 128 255 x"
  "byte_in 0xA0 0xBF x \<Longrightarrow> byte_in 128 255 x" "byte_in 0xE1 0xEC x \<Longrightarrow> byte_in 128 255 x" "byte_in 0xEE 0xEF x \<Longrightarrow> byte_in 128 255 x"
  "byte_in 0xED 0xED x \<Longrightarrow> byte_in 128 255 x" "byte_in 0x80 0x9F x \<Longrightarrow> byte_in 128 255 x" "byte_in 0xF0 0xF0 x \<Longrightarrow> byte_in 128 255 x"
  "byte_in 0x90 0xBF x \<Longrightarrow> byte_in 128 255 x" "byte_in 0xF1 0xF3 x \<Longrightarrow> byte_in 128 255 x" "byte_in 0xF4 0xF4 x \<Longrightarrow> byte_in 128 255 x"
  "byte_in 0x80 0x8F x \<Longrightarrow> byte_in 128 255 x"
  unfolding byte_in_def by linarith+

lemma if_chain:
  "(if a then 1 else if b then 2 else if c then 3 else if d then 4 else (0::nat)) = n \<Longrightarrow> n \<noteq> 0 \<Longrightarrow> n \<noteq> 1 \<Longrightarrow>
     n = 2 \<and> b \<or> n = 3 \<and> c \<or> n = 4 \<and> d"
  by (cases a; cases b; cases c; cases d) simp_all

lemma rune_len_high:
  assumes n: "n \<noteq> 0" "n \<noteq> 1"
  shows "rune_len s = n \<Longrightarrow> list_all (byte_in 128 255) (take n s)"
proof (cases s rule: rune_len.cases)
  case (1 a b c d r)
  assume "rune_len s = n"
  from if_chain [OF this [unfolded 1 rune_len.simps] n] show ?thesis
    by (elim disjE conjE) (simp_all add: 1 high_ranges)
next
  case (2 a b c)
  assume "rune_len s = n"
  with n consider "n = 2" "byte_in 128 255 a" "byte_in 128 255 b"
    | "n = 3" "byte_in 128 255 a" "byte_in 128 255 b" "byte_in 128 255 c"
    unfolding 2 rune_len.simps by (metis high_ranges)
  then show ?thesis by cases (simp_all add: 2)
next
  case (3 a b)
  assume "rune_len s = n"
  with n have "n = 2" "byte_in 128 255 a" "byte_in 128 255 b" unfolding 3 rune_len.simps by (metis high_ranges)+
  then show ?thesis by (simp add: 3)
qed (use n in \<open>simp_all add: rune_len.simps split: if_splits\<close>)

lemma line_separators:
  "hex4 ''2028'' = Some 0x2028" "hex4 ''2029'' = Some 0x2029" "utf8_encode 0x2028 = [CHR 0xE2, CHR 0x80, CHR 0xA8]"
  "utf8_encode 0x2029 = [CHR 0xE2, CHR 0x80, CHR 0xA9]"
  by (simp_all add: hex4_def hex_value_def byte_in_def utf8_encode_def char_of_def bit_iff_odd)

theorem parse_marshal_body:
  "utf8_valid s \<Longrightarrow> parse_string (marshal_body s @ t) = prepend s (parse_string t)"
proof (induction s rule: marshal_body.induct)
  case 1
  then show ?case by (simp add: marshal_body.simps)
next
  case (2 c cs)
  let ?n = "rune_len (c # cs)"
  from 2 have n: "?n \<noteq> 0" and v: "utf8_valid (drop (?n - 1) cs)" by (simp_all add: utf8_valid.simps)
  show ?case
  proof (cases "?n = 1")
    case True
    with 2(2) [OF refl] v have "parse_string (marshal_body cs @ t) = prepend cs (parse_string t)" by simp
    with True rune_len_one [OF True] show ?thesis by (simp add: marshal_body.simps parse_marshal_char)
  next
    case False
    let ?rune = "take ?n (c # cs)"
    have split: "?rune @ drop (?n - 1) cs = c # cs" using n by (cases ?n) simp_all
    from 2(3) [OF refl n False] v
    have ih: "parse_string (marshal_body (drop (?n - 1) cs) @ t) = prepend (drop (?n - 1) cs) (parse_string t)" by simp
    have e: "parse_string (CHR 0x5C # CHR ''u'' # h @ u) = prepend ?rune (parse_string u)"
      if "hex4 h = Some k" "length h = 4" "k < 0xD800" "utf8_encode k = ?rune" for h k u
      using parse_escape_u [OF that(1-3)] that(4) by simp
    note h = line_separators
    have "parse_string (marshal_body (c # cs) @ t) = prepend ?rune (parse_string (marshal_body (drop (?n - 1) cs) @ t))"
    proof -
      let ?rest = "marshal_body (drop (?n - 1) cs)"
      consider "?rune = [CHR 0xE2, CHR 0x80, CHR 0xA8]" | "?rune = [CHR 0xE2, CHR 0x80, CHR 0xA9]"
        | "?rune \<noteq> [CHR 0xE2, CHR 0x80, CHR 0xA8]" "?rune \<noteq> [CHR 0xE2, CHR 0x80, CHR 0xA9]" by blast
      then show ?thesis
      proof cases
        case 1
        then have "marshal_body (c # cs) @ t = CHR 0x5C # CHR ''u'' # ''2028'' @ ?rest @ t"
          using n False by (simp add: marshal_body.simps del: take_Suc_Cons)
        with e [OF h(1), of "?rest @ t"] 1 h(3) show ?thesis by simp
      next
        case 2
        then have "marshal_body (c # cs) @ t = CHR 0x5C # CHR ''u'' # ''2029'' @ ?rest @ t"
          using n False by (simp add: marshal_body.simps del: take_Suc_Cons)
        with e [OF h(2), of "?rest @ t"] 2 h(4) show ?thesis by simp
      next
        case 3
        then have "marshal_body (c # cs) @ t = ?rune @ ?rest @ t"
          using n False by (simp add: marshal_body.simps Let_def del: take_Suc_Cons)
        with parse_string_high [OF rune_len_high [OF n False refl]] show ?thesis by simp
      qed
    qed
    then show ?thesis unfolding ih prepend_simps(4) split .
  qed
qed

section \<open>Numbers\<close>

text \<open>What may follow a number.\<close>

definition ends_number :: "string \<Rightarrow> bool" where
  "ends_number r = (case r of [] \<Rightarrow> True | c # _ \<Rightarrow> \<not> is_digit c \<and> c \<noteq> CHR ''.'' \<and> c \<noteq> CHR ''e'' \<and> c \<noteq> CHR ''E'')"

lemma digits_append:
  "(dropWhile is_digit s = [] \<Longrightarrow> ends_number r) \<Longrightarrow>
     takeWhile is_digit (s @ r) = takeWhile is_digit s \<and> dropWhile is_digit (s @ r) = dropWhile is_digit s @ r"
  by (induction s) (auto simp: ends_number_def split: list.splits if_splits)

lemma scan_int_append:
  "scan_int s = Some (i, q) \<Longrightarrow> (q = [] \<Longrightarrow> ends_number r) \<Longrightarrow> scan_int (s @ r) = Some (i, q @ r)"
  using digits_append [of s r] by (auto simp: scan_int_def split: list.splits if_splits)

lemma scan_frac_append:
  "scan_frac s = Some (f, q) \<Longrightarrow> (q = [] \<Longrightarrow> ends_number r) \<Longrightarrow> scan_frac (s @ r) = Some (f, q @ r)"
  using digits_append [of "tl s" r]
  by (cases s) (auto simp: scan_frac_def ends_number_def split: list.splits if_splits)

lemma scan_exp_append:
  "scan_exp s = Some (e, q) \<Longrightarrow> (q = [] \<Longrightarrow> ends_number r) \<Longrightarrow> scan_exp (s @ r) = Some (e, q @ r)"
  using digits_append [of "tl s" r] digits_append [of "tl (tl s)" r]
  by (cases s; cases "tl s") (auto simp: scan_exp_def ends_number_def split: list.splits if_splits)

lemma parse_number_append:
  assumes "parse_number s = Some (n, [])" "ends_number r"
  shows "parse_number (s @ r) = Some (n, r)"
proof -
  let ?sign = "\<lambda>s. case s of c # r \<Rightarrow> if c = CHR ''-'' then ([c], r) else ([], s) | [] \<Rightarrow> ([], [])"
  obtain sg s1 where sg: "?sign s = (sg, s1)" by force
  with assms(1) obtain i s2 f s3 e where p: "scan_int s1 = Some (i, s2)" "scan_frac s2 = Some (f, s3)" "scan_exp s3 = Some (e, [])"
    "n = sg @ i @ f @ e"
    by (auto simp: parse_number_def split: option.splits prod.splits)
  then have "s1 \<noteq> []" by (auto simp: scan_int_def)
  with sg have "?sign (s @ r) = (sg, s1 @ r)" by (auto split: list.splits if_splits)
  moreover have "scan_int (s1 @ r) = Some (i, s2 @ r)" "scan_frac (s2 @ r) = Some (f, s3 @ r)" "scan_exp (s3 @ r) = Some (e, r)"
    using scan_int_append [OF p(1)] scan_frac_append [OF p(2)] scan_exp_append [OF p(3), of r] assms(2) by simp_all
  ultimately show ?thesis by (simp add: parse_number_def p(4))
qed

lemma parse_number_head: "parse_number s = Some (n, q) \<Longrightarrow> \<exists>c r. s = c # r \<and> (c = CHR ''-'' \<or> is_digit c)"
  by (cases s) (auto simp: parse_number_def scan_int_def is_digit_def byte_in_def split: option.splits list.splits if_splits)

section \<open>Values\<close>

text \<open>A value that \<open>json.Marshal\<close> writes without loss.\<close>

fun encodable :: "json \<Rightarrow> bool" where
  "encodable (JNumber n) = (parse_number n = Some (n, []))"
| "encodable (JString s) = utf8_valid s"
| "encodable (JArray vs) = list_all encodable vs"
| "encodable (JObject kvs) = list_all (\<lambda>kv. utf8_valid (fst kv) \<and> encodable (snd kv)) kvs"
| "encodable _ = True"

lemma parse_marshal_string: "utf8_valid s \<Longrightarrow> parse_string (marshal_body s @ CHR 0x22 # t) = Some (s, t)"
  by (simp add: parse_marshal_body parse_string.simps)

definition value_start :: "char \<Rightarrow> bool" where
  "value_start c \<longleftrightarrow> \<not> is_json_space c \<and> c \<noteq> CHR '']'' \<and> c \<noteq> CHR ''}''"

lemma value_start_simps [simp]:
  "value_start CHR ''{''" "value_start CHR ''[''" "value_start CHR 0x22" "value_start CHR ''t''" "value_start CHR ''f''"
  "value_start CHR ''n''" "value_start CHR ''-''" "is_digit c \<Longrightarrow> value_start c"
  by (auto simp: value_start_def is_json_space_def is_digit_def byte_in_def)

lemma marshal_head: "encodable v \<Longrightarrow> \<exists>c r. marshal v = c # r \<and> value_start c"
  by (cases v) (auto dest: parse_number_head)

lemma skip_space_start: "value_start c \<Longrightarrow> skip_space (c # r) = c # r"
  by (simp add: skip_space_def value_start_def)

lemma skip_space_simps [simp]:
  "skip_space (CHR '','' # r) = CHR '','' # r" "skip_space (CHR '']'' # r) = CHR '']'' # r" "skip_space (CHR ''}'' # r) = CHR ''}'' # r"
  "skip_space (CHR '':'' # r) = CHR '':'' # r" "skip_space (CHR 0x22 # r) = CHR 0x22 # r" "skip_space [] = []"
  "skip_space (CHR ''{'' # r) = CHR ''{'' # r" "skip_space (CHR ''['' # r) = CHR ''['' # r"
  by (simp_all add: skip_space_def is_json_space_def)

lemma ends_number_simps [simp]:
  "ends_number []" "ends_number (CHR '','' # r)" "ends_number (CHR '']'' # r)" "ends_number (CHR ''}'' # r)"
  by (simp_all add: ends_number_def is_digit_def byte_in_def)

lemma parse_elems_marshal:
  assumes "\<And>v r. v \<in> set vs \<Longrightarrow> ends_number r \<Longrightarrow> parse_value (marshal v @ r) = Some (v, r)" "list_all encodable vs" "vs \<noteq> []"
  shows "parse_elems first (JoinWith '','' (map marshal vs) @ CHR '']'' # r) = Some (vs, r)"
  using assms
proof (induction vs arbitrary: first)
  case (Cons v vs)
  from Cons.prems(2) marshal_head obtain c m where m: "marshal v = c # m" "value_start c" by force
  show ?case
  proof (cases "vs = []")
    case True
    with Cons.prems(1) [of v "CHR '']'' # r"] m show ?thesis
      by (simp add: parse_elems.simps [of _ "c # _"] skip_space_start) (simp add: value_start_def)
  next
    case False
    let ?rest = "JoinWith '','' (map marshal vs) @ CHR '']'' # r"
    from Cons.IH [of False] Cons.prems False have ih: "parse_elems False ?rest = Some (vs, r)" by simp
    from Cons.prems(1) [of v "CHR '','' # ?rest"] have "parse_value (c # m @ CHR '','' # ?rest) = Some (v, CHR '','' # ?rest)" using m by simp
    with ih m False show ?thesis
      by (simp add: JoinWith_Cons parse_elems.simps [of _ "c # _"] skip_space_start) (simp add: value_start_def)
  qed
qed simp

lemma parse_members_marshal:
  assumes "\<And>kv r. kv \<in> set kvs \<Longrightarrow> ends_number r \<Longrightarrow> parse_value (marshal (snd kv) @ r) = Some (snd kv, r)"
    and "list_all (\<lambda>kv. utf8_valid (fst kv) \<and> encodable (snd kv)) kvs" "kvs \<noteq> []"
  shows "parse_members first (JoinWith '',''
      (map (\<lambda>kv. [CHR 0x22] @ marshal_body (fst kv) @ [CHR 0x22] @ '':'' @ marshal (snd kv)) kvs) @ CHR ''}'' # r) = Some (kvs, r)"
  using assms
proof (induction kvs arbitrary: first)
  case (Cons kv kvs)
  from Cons.prems(2) have u: "utf8_valid (fst kv)" by simp
  show ?case
  proof (cases "kvs = []")
    case True
    with Cons.prems(1) [of kv "CHR ''}'' # r"] parse_marshal_string [OF u] show ?thesis
      by (simp add: parse_members.simps [of _ "CHR 0x22 # _"])
  next
    case False
    let ?rest = "JoinWith '','' (map (\<lambda>kv. [CHR 0x22] @ marshal_body (fst kv) @ [CHR 0x22] @ '':'' @ marshal (snd kv)) kvs) @ CHR ''}'' # r"
    from Cons.IH [of False] Cons.prems False have ih: "parse_members False ?rest = Some (kvs, r)" by simp
    from Cons.prems(1) [of kv "CHR '','' # ?rest"]
    have "parse_value (marshal (snd kv) @ CHR '','' # ?rest) = Some (snd kv, CHR '','' # ?rest)" by simp
    with ih False parse_marshal_string [OF u] show ?thesis
      by (simp add: JoinWith_Cons parse_members.simps [of _ "CHR 0x22 # _"])
  qed
qed simp

theorem parse_marshal: "encodable v \<Longrightarrow> ends_number r \<Longrightarrow> parse_value (marshal v @ r) = Some (v, r)"
proof (induction v arbitrary: r)
  case (JNumber n)
  then have p: "parse_number n = Some (n, [])" by simp
  then obtain c m where n: "n = c # m" "c = CHR ''-'' \<or> is_digit c" using parse_number_head by blast
  then have "skip_space (n @ r) = n @ r" "c \<noteq> CHR ''{''" "c \<noteq> CHR ''[''" "c \<noteq> CHR 0x22"
    by (auto simp: skip_space_start is_digit_def byte_in_def)
  with n parse_number_append [OF p JNumber(2)] show ?case by (simp add: parse_value.simps)
next
  case (JArray vs)
  then show ?case
    using parse_elems_marshal [of vs True r]
    by (cases "vs = []") (auto simp: parse_value.simps parse_elems.simps [of True "CHR '']'' # _"] list_all_iff)
next
  case (JObject kvs)
  have "parse_value (marshal (snd kv) @ r) = Some (snd kv, r)" if "kv \<in> set kvs" "ends_number r" for kv r
    using JObject(1) [OF that(1)] JObject(2) that by (cases kv) (auto simp: list_all_iff)
  with JObject(2) show ?case
    using parse_members_marshal [of kvs True r]
    by (cases "kvs = []") (auto simp: parse_value.simps parse_members.simps [of True "CHR ''}'' # _"])
next
  case (JString s)
  then show ?case using parse_marshal_string [of s r] by (simp add: parse_value.simps)
qed (auto simp: parse_value.simps skip_space_def is_json_space_def is_digit_def byte_in_def)

text \<open>Reading what was written gives the value back.\<close>

theorem json_roundtrip: "encodable v \<Longrightarrow> parse_json (marshal v) = Some v"
  using parse_marshal [of v "[]"] by (simp add: parse_json_def)

end
