(* ===== verification/JsonStruct.thy ===== *)
theory JsonStruct
  imports JsonRoundtrip Canonical
begin

text \<open>
  How \<open>json.Unmarshal\<close> fills a struct: the members of the object one after the other, each into
  the field whose name folds to the same text as its key; unknown members are skipped, \<open>null\<close>
  leaves a field as it is, and a value of another type is an error. Also the integers of
  \<open>json.Marshal\<close>.
\<close>

section \<open>Text and integers\<close>

text \<open>A byte that starts no code point reads as U+FFFD.\<close>

function decode_text :: "string \<Rightarrow> string" where
  "decode_text [] = []"
| "decode_text (c # cs) =
     (if rune_len (c # cs) = 0 then [CHR 0xEF, CHR 0xBF, CHR 0xBD] @ decode_text cs
      else take (rune_len (c # cs)) (c # cs) @ decode_text (drop (rune_len (c # cs) - 1) cs))"
  by pat_completeness auto
termination
  by (relation "measure length") auto

declare decode_text.simps [simp del]

lemma decode_text_valid [simp]: "utf8_valid s \<Longrightarrow> decode_text s = s"
proof (induction s rule: decode_text.induct)
  case (2 c cs)
  then have n: "rune_len (c # cs) \<noteq> 0" "utf8_valid (drop (rune_len (c # cs) - 1) cs)" by (simp_all add: utf8_valid.simps)
  with 2(2) have "decode_text (c # cs) = take (rune_len (c # cs)) (c # cs) @ drop (rune_len (c # cs) - 1) cs"
    by (simp add: decode_text.simps)
  also have "\<dots> = c # cs" using n(1) by (cases "rune_len (c # cs)") simp_all
  finally show ?case .
qed (simp add: decode_text.simps)

text \<open>The key of a member as the decoder compares it (the code points U+017F and U+212A fold to letters).\<close>

definition upper_char :: "char \<Rightarrow> char" where
  "upper_char c = (if byte_in 97 122 c then char_of (of_char c - 32 :: nat) else c)"

fun fold_name :: "string \<Rightarrow> string" where
  "fold_name [] = []"
| "fold_name (c # r) =
     (if c = CHR 0xC5 \<and> take 1 r = [CHR 0xBF] then CHR ''S'' # fold_name (drop 1 r)
      else if c = CHR 0xE2 \<and> take 2 r = [CHR 0x84, CHR 0xAA] then CHR ''K'' # fold_name (drop 2 r)
      else upper_char c # fold_name r)"

declare fold_name.simps [simp del]

text \<open>An integer literal; one with a fraction or an exponent, or out of range, is an error.\<close>

definition decode_int64 :: "int \<Rightarrow> json \<Rightarrow> int option" where
  "decode_int64 old v = (case v of JNull \<Rightarrow> Some old | JNumber n \<Rightarrow> Atoi n | _ \<Rightarrow> None)"

definition decode_string :: "string \<Rightarrow> json \<Rightarrow> string option" where
  "decode_string old v = (case v of JNull \<Rightarrow> Some old | JString s \<Rightarrow> Some (decode_text s) | _ \<Rightarrow> None)"

text \<open>A slice of strings is filled in place, so a \<open>null\<close> keeps the element that was there.\<close>

fun decode_elements :: "string list \<Rightarrow> json list \<Rightarrow> string list option" where
  "decode_elements olds [] = Some []"
| "decode_elements olds (v # vs) =
     (case (decode_string (case olds of [] \<Rightarrow> [] | s # _ \<Rightarrow> s) v, decode_elements (drop 1 olds) vs) of
        (Some s, Some ss) \<Rightarrow> Some (s # ss)
      | _ \<Rightarrow> None)"

definition decode_strings :: "string list \<Rightarrow> json \<Rightarrow> string list option" where
  "decode_strings olds v = (case v of JNull \<Rightarrow> Some [] | JArray vs \<Rightarrow> decode_elements olds vs | _ \<Rightarrow> None)"

section \<open>Structs\<close>

fun fill_fields :: "(string \<Rightarrow> json \<Rightarrow> 'a \<Rightarrow> 'a option) \<Rightarrow> (string \<times> json) list \<Rightarrow> 'a \<Rightarrow> 'a option" where
  "fill_fields set_field [] a = Some a"
| "fill_fields set_field (kv # kvs) a =
     (case set_field (fold_name (fst kv)) (snd kv) a of None \<Rightarrow> None | Some b \<Rightarrow> fill_fields set_field kvs b)"

definition Unmarshal :: "(string \<Rightarrow> json \<Rightarrow> 'a \<Rightarrow> 'a option) \<Rightarrow> 'a \<Rightarrow> string \<Rightarrow> 'a option" where
  "Unmarshal set_field zero text =
     (case parse_json text of
        Some (JObject kvs) \<Rightarrow> if json_depth (JObject kvs) \<le> 10000 then fill_fields set_field kvs zero else None
      | Some JNull \<Rightarrow> Some zero
      | _ \<Rightarrow> None)"

section \<open>Lemmas\<close>

lemma decode_string_valid [simp]: "utf8_valid s \<Longrightarrow> decode_string old (JString s) = Some s"
  by (simp add: decode_string_def)

lemma decode_elements_valid: "list_all utf8_valid ss \<Longrightarrow> decode_elements [] (map JString ss) = Some ss"
  by (induction ss) simp_all

lemma decode_strings_valid [simp]: "list_all utf8_valid ss \<Longrightarrow> decode_strings [] (JArray (map JString ss)) = Some ss"
  by (simp add: decode_strings_def decode_elements_valid)

lemma digit_char_value: "d < 10 \<Longrightarrow> is_digit (digit_char d) \<and> digit_val (digit_char d) = d"
proof -
  assume "d < 10"
  then have "d \<in> set [0..<10]" by simp
  moreover have "list_all (\<lambda>d. is_digit (digit_char d) \<and> digit_val (digit_char d) = d) [0..<10]" by code_simp
  ultimately show ?thesis by (simp only: list_all_iff)
qed

lemma nat_dec_digits: "list_all is_digit (nat_dec n)"
  using set_nat_dec [of _ n] digit_char_value by (auto simp: list_all_iff)

lemma dec_value_nat_dec [simp]: "dec_value (nat_dec n) = n"
proof (induction n rule: nat_dec.induct)
  case (1 n)
  show ?case
  proof (cases "n < 10")
    case True
    then show ?thesis by (simp add: nat_dec.simps [of n] dec_value_def digit_char_value)
  next
    case False
    with 1 have "dec_value (nat_dec (n div 10)) = n div 10" by simp
    with False show ?thesis by (simp add: nat_dec.simps [of n] dec_value_def digit_char_value)
  qed
qed

lemma Atoi_itoa: "- (2 ^ 63) \<le> i \<Longrightarrow> i < 2 ^ 63 \<Longrightarrow> Atoi (itoa i) = Some i"
proof -
  assume "- (2 ^ 63) \<le> i" "i < 2 ^ 63"
  moreover have "\<exists>c r. nat_dec n = c # r \<and> is_digit c" for n
    using nat_dec_digits [of n] nat_dec_nonempty [of n] by (cases "nat_dec n") simp_all
  then obtain c r where "nat_dec (nat i) = c # r" "is_digit c" by blast
  ultimately show ?thesis
    using nat_dec_digits [of "nat i"] nat_dec_digits [of "nat (- i)"] dec_value_nat_dec [of "nat i"]
    by (auto simp: Atoi_def itoa_def is_digit_def byte_in_def)
qed

lemma nat_dec_leading: "n \<noteq> 0 \<Longrightarrow> hd (nat_dec n) \<noteq> CHR ''0''"
proof (induction n rule: nat_dec.induct)
  case (1 n)
  have "digit_char d \<noteq> CHR ''0''" if "0 < d" "d < 10" for d
    using digit_char_inj [of d 0] that by (simp add: digit_char_def)
  with 1 show ?case by (cases "n < 10") (simp_all add: nat_dec.simps [of n])
qed

lemma takeWhile_digits: "list_all P s \<Longrightarrow> takeWhile P s = s \<and> dropWhile P s = []"
  by (simp add: list_all_iff)

lemma parse_number_itoa: "parse_number (itoa i) = Some (itoa i, [])"
proof -
  have s: "scan_int (nat_dec n) = Some (nat_dec n, [])" for n
  proof (cases "n = 0")
    case True
    then show ?thesis by (simp add: nat_dec.simps scan_int_def digit_char_def)
  next
    case False
    obtain c r where n: "nat_dec n = c # r" using nat_dec_nonempty by (cases "nat_dec n") simp_all
    with nat_dec_leading [OF False] nat_dec_digits [of n] takeWhile_digits [OF nat_dec_digits [of n]] show ?thesis
      by (simp add: scan_int_def)
  qed
  have h: "\<exists>c r. nat_dec n = c # r \<and> c \<noteq> CHR ''-''" for n
    using hd_nat_dec_not_minus [of n] nat_dec_nonempty [of n] by (cases "nat_dec n") auto
  then obtain c r where c: "nat_dec (nat i) = c # r" "c \<noteq> CHR ''-''" by blast
  show ?thesis
  proof (cases "i < 0")
    case True
    with s show ?thesis by (simp add: parse_number_def itoa_def scan_frac_def scan_exp_def)
  next
    case False
    with s [of "nat i"] c show ?thesis by (simp add: parse_number_def itoa_def scan_frac_def scan_exp_def)
  qed
qed

lemma encodable_itoa [simp]: "encodable (JNumber (itoa i))"
  by (simp add: parse_number_itoa)

lemma decode_int64_itoa [simp]: "- (2 ^ 63) \<le> i \<Longrightarrow> i < 2 ^ 63 \<Longrightarrow> decode_int64 old (JNumber (itoa i)) = Some i"
  by (simp add: decode_int64_def Atoi_itoa)

lemma Unmarshal_marshal:
  "encodable (JObject kvs) \<Longrightarrow> json_depth (JObject kvs) \<le> 10000 \<Longrightarrow>
     Unmarshal set_field zero (marshal (JObject kvs)) = fill_fields set_field kvs zero"
  by (simp only: Unmarshal_def json_roundtrip option.case json.case if_True)

end
