(* ===== verification/Session.thy ===== *)
theory Session
  imports JsonStruct Base64 Identity "HOL-Library.AList"
begin

text \<open>
  \<open>web/session.go\<close>: the signed cookies of the browser and the pending OIDC logins. A cookie is
  the base64 of a JSON object, a dot, and the base64 of the HMAC of its kind and its body. The
  state is the map of pending logins, the cookies set so far, whether the response of the request
  is written (a cookie set after that is lost), and the world the clock and the random source
  read.
\<close>

section \<open>HMAC-SHA256\<close>

definition xor_byte :: "nat \<Rightarrow> char \<Rightarrow> char" where
  "xor_byte k c = char_of ((of_char c :: nat) XOR k)"

definition hmac_key :: "string \<Rightarrow> string" where
  "hmac_key secret =
     (let k = (if length secret > 64 then sha256 secret else secret) in k @ replicate (64 - length k) (CHR 0x00))"

definition hmac_sha256 :: "string \<Rightarrow> string \<Rightarrow> string" where
  "hmac_sha256 secret message =
     sha256 (map (xor_byte 0x5C) (hmac_key secret) @ sha256 (map (xor_byte 0x36) (hmac_key secret) @ message))"

section \<open>The manager\<close>

definition SessionCookieName :: string where
  "SessionCookieName = ''record_hub_session''"

definition PendingCookieName :: string where
  "PendingCookieName = ''record_hub_oidc_state''"

definition CSRFCookieName :: string where
  "CSRFCookieName = ''record_hub_csrf''"

definition maxPendingStates :: nat where
  "maxPendingStates = 1024"

definition defaultPendingTTL :: int where
  "defaultPendingTTL = 600 * 1000000000"

record pendingState =
  ps_nonce :: string
  ps_codeVerifier :: string
  ps_expiresAt :: time

record set_cookie =
  ck_Name :: string
  ck_Value :: string
  ck_Expires :: "time option"
  ck_MaxAge :: int
  ck_HttpOnly :: bool
  ck_Secure :: bool

text \<open>\<open>sm_clock\<close> is \<open>time.Now\<close>, \<open>sm_rand\<close> reads random bytes; \<open>SameSite=Lax\<close> and the path are constants.\<close>

record 'w SessionManager =
  sm_secret :: string
  sm_ttl :: int
  sm_secure :: bool
  sm_now :: "'w \<Rightarrow> time \<times> 'w"
  sm_rand :: "nat \<Rightarrow> 'w \<Rightarrow> (string + string) \<times> 'w"
  sm_clock :: "'w \<Rightarrow> time \<times> 'w"

record 'w web_state =
  sv_pending :: "(string \<times> pendingState) list"
  sv_cookies :: "set_cookie list"
  sv_wrote :: bool
  sv_world :: 'w

definition NewSessionManager ::
  "string \<Rightarrow> int \<Rightarrow> bool \<Rightarrow> ('w \<Rightarrow> time \<times> 'w) \<Rightarrow> (nat \<Rightarrow> 'w \<Rightarrow> (string + string) \<times> 'w) \<Rightarrow> goerr + 'w SessionManager" where
  "NewSessionManager secret ttl secure now rand =
     (if length secret < 32 then Inl (Anon ''web session secret must contain at least 32 bytes'')
      else if ttl \<le> 0 \<or> ttl > 24 * 3600 * 1000000000 then Inl (Anon ''web session TTL must be between 1 second and 24 hours'')
      else Inr \<lparr>sm_secret = secret, sm_ttl = ttl, sm_secure = secure, sm_now = now, sm_rand = rand, sm_clock = now\<rparr>)"

definition worldly :: "('w \<Rightarrow> 'a \<times> 'w) \<Rightarrow> ('w web_state, 'a) go" where
  "worldly f s = (let (a, w) = f (sv_world s) in (Inr a, s\<lparr>sv_world := w\<rparr>))"

definition pendingTTL :: "'w SessionManager \<Rightarrow> int" where
  "pendingTTL m = (if sm_ttl m < defaultPendingTTL then sm_ttl m else defaultPendingTTL)"

text \<open>\<open>Time.Unix\<close>.\<close>

definition unix_seconds :: "time \<Rightarrow> int" where
  "unix_seconds t = t div 1000000000 - 62135596800"

section \<open>Sealing\<close>

definition signed_message :: "string \<Rightarrow> string \<Rightarrow> string" where
  "signed_message kind body = kind @ ''.'' @ body"

text \<open>\<open>json.Marshal\<close> of the three structs cannot fail.\<close>

definition seal :: "'w SessionManager \<Rightarrow> string \<Rightarrow> json \<Rightarrow> string" where
  "seal m kind v =
     (let body = EncodeToString (marshal v)
      in body @ ''.'' @ EncodeToString (hmac_sha256 (sm_secret m) (signed_message kind body)))"

definition unseal :: "'w SessionManager \<Rightarrow> string \<Rightarrow> string \<Rightarrow> (string \<Rightarrow> 'a option) \<Rightarrow> goerr + 'a" where
  "unseal m kind encoded decode =
     (case SplitOn (CHR ''.'') encoded of
        [part0, part1] \<Rightarrow>
          if part0 = [] \<or> part1 = [] then Inl (WebErr ErrInvalidSession)
          else (case (DecodeString part0, DecodeString part1) of
              (Some body, Some expected) \<Rightarrow>
                if expected \<noteq> hmac_sha256 (sm_secret m) (signed_message kind part0) then Inl (WebErr ErrInvalidSession)
                else if length body > 4096 then Inl (WebErr ErrInvalidSession)
                else (case decode body of None \<Rightarrow> Inl (WebErr ErrInvalidSession) | Some a \<Rightarrow> Inr a)
            | _ \<Rightarrow> Inl (WebErr ErrInvalidSession))
      | _ \<Rightarrow> Inl (WebErr ErrInvalidSession))"

definition randomURLValue :: "'w SessionManager \<Rightarrow> nat \<Rightarrow> ('w web_state, string) go" where
  "randomURLValue m n =
     bindG (worldly (sm_rand m n)) (\<lambda>r. case r of Inl e \<Rightarrow> fail (External e) | Inr v \<Rightarrow> ret (EncodeToString v))"

text \<open>\<open>http.SetCookie\<close> changes the header, which has no effect once the response is written.\<close>

definition add_cookie :: "set_cookie \<Rightarrow> ('w web_state, unit) go" where
  "add_cookie c s = (Inr (), if sv_wrote s then s else s\<lparr>sv_cookies := sv_cookies s @ [c]\<rparr>)"

definition setCookie :: "'w SessionManager \<Rightarrow> string \<Rightarrow> string \<Rightarrow> time \<Rightarrow> bool \<Rightarrow> ('w web_state, unit) go" where
  "setCookie m name v expiresAt httpOnly =
     bindG (worldly (sm_clock m)) (\<lambda>now.
       add_cookie \<lparr>ck_Name = name, ck_Value = v, ck_Expires = Some expiresAt,
         ck_MaxAge = max 1 ((expiresAt - now) div 1000000000), ck_HttpOnly = httpOnly, ck_Secure = sm_secure m\<rparr>)"

definition clearCookie :: "'w SessionManager \<Rightarrow> string \<Rightarrow> ('w web_state, unit) go" where
  "clearCookie m name =
     add_cookie \<lparr>ck_Name = name, ck_Value = [], ck_Expires = None, ck_MaxAge = -1, ck_HttpOnly = True, ck_Secure = sm_secure m\<rparr>"

section \<open>The payloads\<close>

record pendingCookie =
  pc_State :: string
  pc_ExpiresAt :: int

record sessionCookie =
  sc_Kind :: string
  sc_Issuer :: string
  sc_Subject :: string
  sc_Audience :: "string list"
  sc_ExpiresAt :: int

record csrfCookie =
  cc_Token :: string
  cc_ExpiresAt :: int

definition pendingCookie_json :: "pendingCookie \<Rightarrow> json" where
  "pendingCookie_json c = JObject [(''state'', JString (pc_State c)), (''exp'', JNumber (itoa (pc_ExpiresAt c)))]"

definition sessionCookie_json :: "sessionCookie \<Rightarrow> json" where
  "sessionCookie_json c =
     JObject ([(''kind'', JString (sc_Kind c)), (''iss'', JString (sc_Issuer c)), (''sub'', JString (sc_Subject c))]
       @ (if sc_Audience c = [] then [] else [(''aud'', JArray (map JString (sc_Audience c)))])
       @ [(''exp'', JNumber (itoa (sc_ExpiresAt c)))])"

definition csrfCookie_json :: "csrfCookie \<Rightarrow> json" where
  "csrfCookie_json c = JObject [(''token'', JString (cc_Token c)), (''exp'', JNumber (itoa (cc_ExpiresAt c)))]"

definition set_pending_field :: "string \<Rightarrow> json \<Rightarrow> pendingCookie \<Rightarrow> pendingCookie option" where
  "set_pending_field name v c =
     (if name = ''STATE'' then map_option (\<lambda>x. c\<lparr>pc_State := x\<rparr>) (decode_string (pc_State c) v)
      else if name = ''EXP'' then map_option (\<lambda>x. c\<lparr>pc_ExpiresAt := x\<rparr>) (decode_int64 (pc_ExpiresAt c) v)
      else Some c)"

definition set_session_field :: "string \<Rightarrow> json \<Rightarrow> sessionCookie \<Rightarrow> sessionCookie option" where
  "set_session_field name v c =
     (if name = ''KIND'' then map_option (\<lambda>x. c\<lparr>sc_Kind := x\<rparr>) (decode_string (sc_Kind c) v)
      else if name = ''ISS'' then map_option (\<lambda>x. c\<lparr>sc_Issuer := x\<rparr>) (decode_string (sc_Issuer c) v)
      else if name = ''SUB'' then map_option (\<lambda>x. c\<lparr>sc_Subject := x\<rparr>) (decode_string (sc_Subject c) v)
      else if name = ''AUD'' then map_option (\<lambda>x. c\<lparr>sc_Audience := x\<rparr>) (decode_strings (sc_Audience c) v)
      else if name = ''EXP'' then map_option (\<lambda>x. c\<lparr>sc_ExpiresAt := x\<rparr>) (decode_int64 (sc_ExpiresAt c) v)
      else Some c)"

definition set_csrf_field :: "string \<Rightarrow> json \<Rightarrow> csrfCookie \<Rightarrow> csrfCookie option" where
  "set_csrf_field name v c =
     (if name = ''TOKEN'' then map_option (\<lambda>x. c\<lparr>cc_Token := x\<rparr>) (decode_string (cc_Token c) v)
      else if name = ''EXP'' then map_option (\<lambda>x. c\<lparr>cc_ExpiresAt := x\<rparr>) (decode_int64 (cc_ExpiresAt c) v)
      else Some c)"

definition decode_pending :: "string \<Rightarrow> pendingCookie option" where
  "decode_pending = Unmarshal set_pending_field \<lparr>pc_State = [], pc_ExpiresAt = 0\<rparr>"

definition decode_session :: "string \<Rightarrow> sessionCookie option" where
  "decode_session = Unmarshal set_session_field
     \<lparr>sc_Kind = [], sc_Issuer = [], sc_Subject = [], sc_Audience = [], sc_ExpiresAt = 0\<rparr>"

definition decode_csrf :: "string \<Rightarrow> csrfCookie option" where
  "decode_csrf = Unmarshal set_csrf_field \<lparr>cc_Token = [], cc_ExpiresAt = 0\<rparr>"

section \<open>Logins\<close>

text \<open>A request: its cookies by name, method, host, headers, query and the principal of its context.\<close>

record web_request =
  rq_Cookie :: "string \<Rightarrow> string option"
  rq_Method :: string
  rq_Host :: string
  rq_Header :: "string \<Rightarrow> string"
  rq_Query :: "string \<Rightarrow> string"
  rq_Principal :: "Principal option"

definition live_states :: "time \<Rightarrow> (string \<times> pendingState) list \<Rightarrow> (string \<times> pendingState) list" where
  "live_states now pending = filter (\<lambda>(k, p). ps_expiresAt p > now) pending"

text \<open>The part under the lock: expired logins are dropped, and the new one is added if there is room.\<close>

definition add_pending ::
  "'w SessionManager \<Rightarrow> string \<Rightarrow> pendingState \<Rightarrow> ('w web_state, unit) go" where
  "add_pending m state p =
     bindG (worldly (sm_now m)) (\<lambda>now s.
       (let live = live_states now (sv_pending s)
        in if length live \<ge> maxPendingStates
           then (Inl (Anon ''too many pending OIDC authorizations''), s\<lparr>sv_pending := live\<rparr>)
           else (Inr (), s\<lparr>sv_pending := AList.update state p live\<rparr>)))"

definition beginPending :: "'w SessionManager \<Rightarrow> ('w web_state, string \<times> string \<times> string \<times> string) go" where
  "beginPending m =
     bindG (wrapG ''generate OIDC state'' (randomURLValue m 32)) (\<lambda>state.
     bindG (wrapG ''generate OIDC nonce'' (randomURLValue m 32)) (\<lambda>nonce.
     bindG (wrapG ''generate PKCE verifier'' (randomURLValue m 32)) (\<lambda>verifier.
     bindG (worldly (sm_now m)) (\<lambda>now.
     (let challenge = EncodeToString (sha256 verifier); expiresAt = now + pendingTTL m in
     bindG (add_pending m state \<lparr>ps_nonce = nonce, ps_codeVerifier = verifier, ps_expiresAt = expiresAt\<rparr>) (\<lambda>_.
     bindG (setCookie m PendingCookieName
         (seal m ''oidc-state'' (pendingCookie_json \<lparr>pc_State = state, pc_ExpiresAt = unix_seconds expiresAt\<rparr>)) expiresAt True) (\<lambda>_.
       ret (state, nonce, verifier, challenge))))))))"

definition consumePending :: "'w SessionManager \<Rightarrow> web_request \<Rightarrow> string \<Rightarrow> ('w web_state, pendingState) go" where
  "consumePending m r state =
     (case rq_Cookie r PendingCookieName of
        None \<Rightarrow> fail (WebErr ErrInvalidState)
      | Some cookie \<Rightarrow>
          (case unseal m ''oidc-state'' cookie decode_pending of
             Inl _ \<Rightarrow> fail (WebErr ErrInvalidState)
           | Inr sealed \<Rightarrow>
               if pc_State sealed = [] \<or> state = [] \<or> pc_State sealed \<noteq> state then fail (WebErr ErrInvalidState)
               else bindG (worldly (sm_now m)) (\<lambda>now.
                 if pc_ExpiresAt sealed \<le> unix_seconds now then fail (WebErr ErrInvalidState)
                 else (\<lambda>s. (case map_of (sv_pending s) state of
                     None \<Rightarrow> fail (WebErr ErrInvalidState)
                   | Some p \<Rightarrow> bindG (worldly (sm_now m)) (\<lambda>now'.
                       if \<not> ps_expiresAt p > now' then fail (WebErr ErrInvalidState) else ret p))
                   (s\<lparr>sv_pending := AList.delete state (sv_pending s)\<rparr>)))))"

definition clearPending :: "'w SessionManager \<Rightarrow> ('w web_state, unit) go" where
  "clearPending m = clearCookie m PendingCookieName"

section \<open>Sessions\<close>

definition session_payload :: "Principal \<Rightarrow> time \<Rightarrow> sessionCookie" where
  "session_payload prin expiresAt =
     \<lparr>sc_Kind = ''user'', sc_Issuer = p_Issuer prin, sc_Subject = p_Subject prin, sc_Audience = p_Audience prin,
      sc_ExpiresAt = unix_seconds expiresAt\<rparr>"

definition SetSession :: "'w SessionManager \<Rightarrow> Principal \<Rightarrow> ('w web_state, unit) go" where
  "SetSession m prin =
     (if p_Kind prin \<noteq> PrincipalUser \<or> blank (p_Issuer prin) \<or> blank (p_Subject prin) then fail (WebErr ErrInvalidSession)
      else bindG (worldly (sm_now m)) (\<lambda>now.
        (let expiresAt = now + sm_ttl m
         in setCookie m SessionCookieName
              (seal m ''session'' (sessionCookie_json (session_payload prin expiresAt))) expiresAt True)))"

text \<open>The clock is only read for a cookie that was signed here.\<close>

definition session_principal :: "sessionCookie \<Rightarrow> Principal" where
  "session_principal c =
     \<lparr>p_Kind = PrincipalUser, p_Issuer = sc_Issuer c, p_Subject = sc_Subject c, p_Audience = sc_Audience c, p_Email = [],
      p_EmailVerified = False, p_Name = [], p_PreferredUsername = [], p_Groups = [], p_Scopes = []\<rparr>"

definition PrincipalFromRequest :: "'w SessionManager \<Rightarrow> web_request \<Rightarrow> ('w web_state, Principal option) go" where
  "PrincipalFromRequest m r =
     (case rq_Cookie r SessionCookieName of
        None \<Rightarrow> ret None
      | Some cookie \<Rightarrow>
          (case unseal m ''session'' cookie decode_session of
             Inl _ \<Rightarrow> ret None
           | Inr sealed \<Rightarrow> bindG (worldly (sm_now m)) (\<lambda>now.
               if sc_ExpiresAt sealed \<le> unix_seconds now \<or> sc_Kind sealed \<noteq> ''user'' \<or> sc_Issuer sealed = [] \<or> sc_Subject sealed = []
               then ret None
               else ret (Some (session_principal sealed)))))"

definition ClearSession :: "'w SessionManager \<Rightarrow> ('w web_state, unit) go" where
  "ClearSession m = clearCookie m SessionCookieName"

section \<open>What is sealed can be read\<close>

lemma EncodeToString_no_dot: "CHR ''.'' \<notin> set (EncodeToString s)"
proof -
  have "list_all (\<lambda>v. sextet_char v \<noteq> CHR ''.'') [0..<64]" by code_simp
  then have "v < 64 \<Longrightarrow> sextet_char v \<noteq> CHR ''.''" for v by (simp add: list_all_iff)
  moreover have "\<forall>v \<in> set (to_sextets (map of_char s)). v < 64"
    using to_sextets_bound [of "map of_char s :: nat list"] by auto
  ultimately show ?thesis unfolding EncodeToString_def by (metis imageE set_map)
qed

lemma SplitOn_whole: "sep \<notin> set p \<Longrightarrow> SplitOn sep p = [p]"
  by (induction p) auto

lemma seal_split:
  "seal m kind v = EncodeToString a @ ''.'' @ EncodeToString b \<Longrightarrow>
     SplitOn (CHR ''.'') (seal m kind v) = [EncodeToString a, EncodeToString b]"
  by (simp add: SplitOn_append EncodeToString_no_dot SplitOn_whole)

lemma marshal_nonempty: "encodable v \<Longrightarrow> marshal v \<noteq> []"
  using marshal_head [of v] by auto

lemma hmac_nonempty [simp]: "hmac_sha256 secret message \<noteq> []"
  unfolding hmac_sha256_def by (metis length_sha256 list.size(3) zero_neq_numeral)

lemma unseal_seal:
  assumes "encodable v" "length (marshal v) \<le> 4096"
  shows "unseal m kind (seal m kind v) decode = (case decode (marshal v) of None \<Rightarrow> Inl (WebErr ErrInvalidSession) | Some a \<Rightarrow> Inr a)"
  using assms(2) marshal_nonempty [OF assms(1)] seal_split [of m kind v, OF seal_def [unfolded Let_def]]
  by (simp add: unseal_def Let_def)

text \<open>What a cookie that is accepted was signed as.\<close>

lemma unseal_Inr:
  assumes "unseal m kind encoded decode = Inr a"
  shows "\<exists>part0 part1 body. SplitOn (CHR ''.'') encoded = [part0, part1] \<and> DecodeString part0 = Some body
    \<and> DecodeString part1 = Some (hmac_sha256 (sm_secret m) (signed_message kind part0)) \<and> length body \<le> 4096 \<and> decode body = Some a"
  using assms by (auto simp: unseal_def split: list.splits option.splits if_splits)

lemma fold_names [simp]:
  "fold_name ''state'' = ''STATE''" "fold_name ''exp'' = ''EXP''" "fold_name ''kind'' = ''KIND''" "fold_name ''iss'' = ''ISS''"
  "fold_name ''sub'' = ''SUB''" "fold_name ''aud'' = ''AUD''" "fold_name ''token'' = ''TOKEN''"
  by code_simp+

lemma ascii_valid [simp]:
  "utf8_valid ''state''" "utf8_valid ''exp''" "utf8_valid ''kind''" "utf8_valid ''iss''" "utf8_valid ''sub''" "utf8_valid ''aud''"
  "utf8_valid ''token''" "utf8_valid ''user''"
  by code_simp+

definition int64 :: "int \<Rightarrow> bool" where
  "int64 i \<longleftrightarrow> - (2 ^ 63) \<le> i \<and> i < 2 ^ 63"

declare utf8_valid.simps [simp del]

lemma decode_session_json:
  assumes "utf8_valid (sc_Kind c)" "utf8_valid (sc_Issuer c)" "utf8_valid (sc_Subject c)" "list_all utf8_valid (sc_Audience c)"
    and "int64 (sc_ExpiresAt c)"
  shows "encodable (sessionCookie_json c) \<and> decode_session (marshal (sessionCookie_json c)) = Some c"
proof -
  let ?kvs = "[(''kind'', JString (sc_Kind c)), (''iss'', JString (sc_Issuer c)), (''sub'', JString (sc_Subject c))]
    @ (if sc_Audience c = [] then [] else [(''aud'', JArray (map JString (sc_Audience c)))])
    @ [(''exp'', JNumber (itoa (sc_ExpiresAt c)))]"
  have j: "sessionCookie_json c = JObject ?kvs" by (simp add: sessionCookie_json_def)
  have e: "encodable (JObject ?kvs)" using assms by (simp add: list_all_iff parse_number_itoa)
  have "fold (\<lambda>x. max 0) xs 0 = (0::nat)" for xs :: "string list" by (induction xs) simp_all
  then have d: "json_depth (JObject ?kvs) \<le> 10000" by (simp add: fold_map o_def)
  have "fill_fields set_session_field ?kvs \<lparr>sc_Kind = [], sc_Issuer = [], sc_Subject = [], sc_Audience = [], sc_ExpiresAt = 0\<rparr> = Some c"
    using assms by (simp add: set_session_field_def int64_def)
  then show ?thesis using e by (simp only: j decode_session_def Unmarshal_marshal [OF e d] simp_thms)
qed

lemma decode_pending_json:
  assumes "utf8_valid (pc_State c)" "int64 (pc_ExpiresAt c)"
  shows "encodable (pendingCookie_json c) \<and> decode_pending (marshal (pendingCookie_json c)) = Some c"
proof -
  let ?kvs = "[(''state'', JString (pc_State c)), (''exp'', JNumber (itoa (pc_ExpiresAt c)))]"
  have e: "encodable (JObject ?kvs)" using assms by (simp add: parse_number_itoa)
  have d: "json_depth (JObject ?kvs) \<le> 10000" by simp
  have "fill_fields set_pending_field ?kvs \<lparr>pc_State = [], pc_ExpiresAt = 0\<rparr> = Some c"
    using assms by (simp add: set_pending_field_def int64_def)
  then show ?thesis using e by (simp only: pendingCookie_json_def decode_pending_def Unmarshal_marshal [OF e d] simp_thms)
qed

lemma decode_csrf_json:
  assumes "utf8_valid (cc_Token c)" "int64 (cc_ExpiresAt c)"
  shows "encodable (csrfCookie_json c) \<and> decode_csrf (marshal (csrfCookie_json c)) = Some c"
proof -
  let ?kvs = "[(''token'', JString (cc_Token c)), (''exp'', JNumber (itoa (cc_ExpiresAt c)))]"
  have e: "encodable (JObject ?kvs)" using assms by (simp add: parse_number_itoa)
  have d: "json_depth (JObject ?kvs) \<le> 10000" by simp
  have "fill_fields set_csrf_field ?kvs \<lparr>cc_Token = [], cc_ExpiresAt = 0\<rparr> = Some c"
    using assms by (simp add: set_csrf_field_def int64_def)
  then show ?thesis using e by (simp only: csrfCookie_json_def decode_csrf_def Unmarshal_marshal [OF e d] simp_thms)
qed

lemma SetSession_cookie:
  assumes "SetSession m prin s = (Inr (), s')" "\<not> sv_wrote s"
  shows "\<not> blank (p_Issuer prin) \<and> \<not> blank (p_Subject prin) \<and> (\<exists>c. sv_cookies s' = sv_cookies s @ [c] \<and> ck_Name c = SessionCookieName
    \<and> ck_Value c = seal m ''session'' (sessionCookie_json (session_payload prin (fst (sm_now m (sv_world s)) + sm_ttl m))))"
  using assms by (auto simp: SetSession_def setCookie_def add_cookie_def worldly_def go_success Let_def split: prod.splits if_splits)

lemma blank_empty [simp]: "blank []"
  by (simp add: blank_def)


end
