(* ===== verification/WebAuth.thy ===== *)
theory WebAuth
  imports Session Schemas
begin

text \<open>
  \<open>web/auth.go\<close>: the routes of the browser login, the exchange of an authorization code, the
  validation of their configuration, the CSRF protection, and the middleware that gives requests
  their principal. A response is the value of a call; writing it fixes the cookies. The URL
  library (\<open>url.Parse\<close> and setting the query of a URL), the identity provider and the verifier
  of ID tokens are arguments.
\<close>

declare utf8_valid.simps [simp del]

section \<open>Configuration\<close>

record WebConfig =
  wc_AuthorizationEndpoint :: string
  wc_ClientID :: string
  wc_RedirectURL :: string
  wc_SuccessRedirectURL :: string
  wc_PostLogoutRedirectURL :: string
  wc_Scope :: string
  wc_AllowInsecureEndpoints :: bool
  wc_SecureCookies :: bool
  wc_SessionTTL :: int

type_synonym url_library = "string \<Rightarrow> URL option"

definition validateAbsoluteHTTPURL :: "url_library \<Rightarrow> string \<Rightarrow> bool \<Rightarrow> goerr option" where
  "validateAbsoluteHTTPURL url_parse raw_url allowInsecure =
     (case url_parse (TrimSpace raw_url) of
        None \<Rightarrow> Some (Anon ''must be an absolute HTTP(S) URL without userinfo'')
      | Some u \<Rightarrow>
          if url_Host u = [] \<or> url_HasUser u \<or> (url_Scheme u \<noteq> ''https'' \<and> url_Scheme u \<noteq> ''http'')
          then Some (Anon ''must be an absolute HTTP(S) URL without userinfo'')
          else if url_Scheme u \<noteq> ''https'' \<and> \<not> allowInsecure then Some (Anon ''must use HTTPS'')
          else None)"

definition validateRedirectURL :: "url_library \<Rightarrow> string \<Rightarrow> bool \<Rightarrow> goerr option" where
  "validateRedirectURL url_parse raw_url allowInsecure =
     (case validateAbsoluteHTTPURL url_parse raw_url allowInsecure of
        Some e \<Rightarrow> Some e
      | None \<Rightarrow> (case url_parse raw_url of
          Some u \<Rightarrow> if url_Fragment u \<noteq> [] then Some (Anon ''must not contain a fragment'') else None
        | None \<Rightarrow> Some (Anon ''nil pointer dereference'')))"

definition validateRelativeRedirect :: "url_library \<Rightarrow> string \<Rightarrow> goerr option" where
  "validateRelativeRedirect url_parse raw_url =
     (case url_parse raw_url of
        None \<Rightarrow> Some (Anon ''must be a same-origin path'')
      | Some u \<Rightarrow>
          if url_Scheme u \<noteq> [] \<or> url_Host u \<noteq> [] \<or> \<not> HasPrefix (url_Path u) ''/'' \<or> HasPrefix (url_Path u) ''//'' \<or> url_Fragment u \<noteq> []
          then Some (Anon ''must be a same-origin path'') else None)"

definition wrap_error :: "string \<Rightarrow> goerr option \<Rightarrow> goerr option" where
  "wrap_error label e = map_option (Wrap label) e"

definition validateConfig :: "url_library \<Rightarrow> WebConfig \<Rightarrow> goerr option" where
  "validateConfig url_parse cfg =
     (if blank (wc_ClientID cfg) then Some (Anon ''OIDC client ID is required'')
      else if \<not> wc_AllowInsecureEndpoints cfg \<and> \<not> wc_SecureCookies cfg
      then Some (Anon ''secure cookies are required when insecure endpoints are disabled'')
      else case wrap_error ''authorization endpoint''
          (validateAbsoluteHTTPURL url_parse (wc_AuthorizationEndpoint cfg) (wc_AllowInsecureEndpoints cfg)) of
        Some e \<Rightarrow> Some e
      | None \<Rightarrow> (case wrap_error ''redirect URL'' (validateRedirectURL url_parse (wc_RedirectURL cfg) (wc_AllowInsecureEndpoints cfg)) of
          Some e \<Rightarrow> Some e
        | None \<Rightarrow> (case wrap_error ''success redirect'' (validateRelativeRedirect url_parse
              (if wc_SuccessRedirectURL cfg = [] then ''/'' else wc_SuccessRedirectURL cfg)) of
            Some e \<Rightarrow> Some e
          | None \<Rightarrow> if wc_PostLogoutRedirectURL cfg \<noteq> []
              then wrap_error ''post-logout redirect'' (validateRelativeRedirect url_parse (wc_PostLogoutRedirectURL cfg)) else None)))"

section \<open>The handler\<close>

text \<open>\<open>ex_call\<close> is the code exchanger: code, PKCE verifier and nonce.\<close>

type_synonym 'w exchanger = "string \<Rightarrow> string \<Rightarrow> string \<Rightarrow> 'w \<Rightarrow> (goerr + Principal) \<times> 'w"

record 'w Handler =
  hd_cfg :: WebConfig
  hd_sessions :: "'w SessionManager"
  hd_exchange :: "'w exchanger"

definition web_NewHandler ::
  "url_library \<Rightarrow> WebConfig \<Rightarrow> 'w SessionManager option \<Rightarrow> 'w exchanger option \<Rightarrow> goerr + 'w Handler" where
  "web_NewHandler url_parse cfg0 sessions exchange =
     (case sessions of None \<Rightarrow> Inl (Anon ''web session manager is required'')
      | Some m \<Rightarrow> (case exchange of None \<Rightarrow> Inl (Anon ''OIDC code exchanger is required'')
        | Some ex \<Rightarrow>
            let cfg1 = (if wc_SessionTTL cfg0 = 0 then cfg0\<lparr>wc_SessionTTL := sm_ttl m\<rparr> else cfg0)
            in if wc_SessionTTL cfg1 \<noteq> sm_ttl m then Inl (Anon ''web session TTL must match session manager TTL'')
               else let cfg2 = (if wc_Scope cfg1 = [] then cfg1\<lparr>wc_Scope := ''openid profile email''\<rparr> else cfg1);
                        cfg = (if wc_SuccessRedirectURL cfg2 = [] then cfg2\<lparr>wc_SuccessRedirectURL := ''/''\<rparr> else cfg2)
                 in case validateConfig url_parse cfg of
                      Some e \<Rightarrow> Inl e
                    | None \<Rightarrow> Inr \<lparr>hd_cfg = cfg, hd_sessions = m, hd_exchange = ex\<rparr>))"

section \<open>Responses\<close>

text \<open>
  An error status, a redirect to a URL whose query has been set, 204, the session as JSON, or the
  request given to the next handler.
\<close>

datatype web_response =
    HttpError nat string
  | Redirect nat string "(string \<times> string) list"
  | NoContent
  | SessionJSON string string
  | Passed web_request

definition respond :: "web_response \<Rightarrow> ('w web_state, web_response) go" where
  "respond x s = (Inr x, s\<lparr>sv_wrote := True\<rparr>)"

section \<open>CSRF protection\<close>

definition csrf_Ensure :: "'w SessionManager \<Rightarrow> web_request \<Rightarrow> ('w web_state, unit) go" where
  "csrf_Ensure m r =
     (let issue =
        catchG (randomURLValue m 32) (\<lambda>_. ret ()) (\<lambda>token.
        bindG (worldly (sm_now m)) (\<lambda>now.
        (let expiresAt = now + sm_ttl m
         in setCookie m CSRFCookieName
              (seal m ''csrf'' (csrfCookie_json \<lparr>cc_Token = token, cc_ExpiresAt = unix_seconds expiresAt\<rparr>)) expiresAt False)))
      in case rq_Cookie r CSRFCookieName of
           None \<Rightarrow> issue
         | Some cookie \<Rightarrow> (case unseal m ''csrf'' cookie decode_csrf of
             Inl _ \<Rightarrow> issue
           | Inr sealed \<Rightarrow>
               if cc_Token sealed = [] then issue
               else bindG (worldly (sm_now m)) (\<lambda>now. if cc_ExpiresAt sealed > unix_seconds now then ret () else issue)))"

fun sameOrigin_headers :: "url_library \<Rightarrow> web_request \<Rightarrow> string list \<Rightarrow> bool" where
  "sameOrigin_headers url_parse r [] = True"
| "sameOrigin_headers url_parse r (h # hs) =
     (let v = TrimSpace (rq_Header r h)
      in if v = [] then sameOrigin_headers url_parse r hs
         else case url_parse v of
           None \<Rightarrow> False
         | Some u \<Rightarrow> url_Host u \<noteq> [] \<and> url_Scheme u \<noteq> [] \<and> url_Host u = rq_Host r \<and> (url_Scheme u = ''https'' \<or> url_Scheme u = ''http''))"

definition sameOrigin :: "url_library \<Rightarrow> web_request \<Rightarrow> bool" where
  "sameOrigin url_parse r = sameOrigin_headers url_parse r [''Origin'', ''Referer'']"

definition csrf_Validate :: "url_library \<Rightarrow> 'w SessionManager \<Rightarrow> web_request \<Rightarrow> ('w web_state, unit) go" where
  "csrf_Validate url_parse m r =
     (if \<not> sameOrigin url_parse r then fail (WebErr ErrCSRF)
      else case rq_Cookie r CSRFCookieName of
        None \<Rightarrow> fail (WebErr ErrCSRF)
      | Some cookie \<Rightarrow> (case unseal m ''csrf'' cookie decode_csrf of
          Inl _ \<Rightarrow> fail (WebErr ErrCSRF)
        | Inr sealed \<Rightarrow>
            if cc_Token sealed = [] then fail (WebErr ErrCSRF)
            else bindG (worldly (sm_now m)) (\<lambda>now.
              if cc_ExpiresAt sealed \<le> unix_seconds now then fail (WebErr ErrCSRF)
              else if rq_Header r ''X-CSRF-Token'' = [] \<or> rq_Header r ''X-CSRF-Token'' \<noteq> cc_Token sealed then fail (WebErr ErrCSRF)
              else ret ())))"

definition safe_methods :: "string list" where
  "safe_methods = [''GET'', ''HEAD'', ''OPTIONS'', ''TRACE'']"

definition csrf_Middleware :: "url_library \<Rightarrow> 'w SessionManager \<Rightarrow> web_request \<Rightarrow> ('w web_state, web_response) go" where
  "csrf_Middleware url_parse m r =
     bindG (csrf_Ensure m r) (\<lambda>_.
       if (case rq_Principal r of Some prin \<Rightarrow> p_Kind prin = PrincipalService | None \<Rightarrow> False) then ret (Passed r)
       else if rq_Method r \<notin> set safe_methods
       then catchG (csrf_Validate url_parse m r) (\<lambda>_. respond (HttpError 403 ''CSRF validation failed'')) (\<lambda>_. ret (Passed r))
       else ret (Passed r))"

section \<open>Routes\<close>

definition SessionMiddleware :: "'w Handler \<Rightarrow> web_request \<Rightarrow> ('w web_state, web_request) go" where
  "SessionMiddleware h r =
     (case rq_Principal r of
        Some _ \<Rightarrow> ret r
      | None \<Rightarrow> bindG (PrincipalFromRequest (hd_sessions h) r) (\<lambda>found.
          case found of None \<Rightarrow> ret r | Some prin \<Rightarrow> ret (r\<lparr>rq_Principal := Some prin\<rparr>)))"

definition web_Middleware :: "url_library \<Rightarrow> 'w Handler \<Rightarrow> web_request \<Rightarrow> ('w web_state, web_response) go" where
  "web_Middleware url_parse h r = bindG (SessionMiddleware h r) (\<lambda>r'. csrf_Middleware url_parse (hd_sessions h) r')"

definition web_login :: "'w Handler \<Rightarrow> web_request \<Rightarrow> ('w web_state, web_response) go" where
  "web_login h r =
     (if rq_Method r \<noteq> ''GET'' then respond (HttpError 405 ''method not allowed'')
      else catchG (beginPending (hd_sessions h)) (\<lambda>_. respond (HttpError 503 ''authentication unavailable'')) (\<lambda>(state, nonce, _, challenge).
        respond (Redirect 302 (wc_AuthorizationEndpoint (hd_cfg h))
          [(''client_id'', wc_ClientID (hd_cfg h)), (''redirect_uri'', wc_RedirectURL (hd_cfg h)), (''response_type'', ''code''),
           (''scope'', wc_Scope (hd_cfg h)), (''state'', state), (''nonce'', nonce), (''code_challenge'', challenge),
           (''code_challenge_method'', ''S256'')])))"

definition exchange_code :: "'w Handler \<Rightarrow> pendingState \<Rightarrow> string \<Rightarrow> ('w web_state, web_response) go" where
  "exchange_code h pending code =
     bindG (worldly (hd_exchange h code (ps_codeVerifier pending) (ps_nonce pending))) (\<lambda>result. case result of
       Inl _ \<Rightarrow> respond (HttpError 401 ''authentication failed'')
     | Inr prin \<Rightarrow>
         if p_Kind prin \<noteq> PrincipalUser \<or> p_Issuer prin = [] \<or> p_Subject prin = []
         then respond (HttpError 401 ''authentication failed'')
         else catchG (SetSession (hd_sessions h) prin) (\<lambda>_. respond (HttpError 401 ''authentication failed''))
           (\<lambda>_. respond (Redirect 303 (wc_SuccessRedirectURL (hd_cfg h)) [])))"

text \<open>The deferred \<open>clearPending\<close> runs after the response is written.\<close>

definition web_callback :: "'w Handler \<Rightarrow> web_request \<Rightarrow> ('w web_state, web_response) go" where
  "web_callback h r =
     (if rq_Method r \<noteq> ''GET'' then respond (HttpError 405 ''method not allowed'')
      else catchG (consumePending (hd_sessions h) r (rq_Query r ''state'')) (\<lambda>_. respond (HttpError 400 ''invalid authentication state''))
        (\<lambda>pending.
          (let code = TrimSpace (rq_Query r ''code'')
           in bindG (if code = [] then respond (HttpError 400 ''authentication failed'') else exchange_code h pending code)
                (\<lambda>x. bindG (clearPending (hd_sessions h)) (\<lambda>_. ret x)))))"

definition web_logout :: "'w Handler \<Rightarrow> web_request \<Rightarrow> ('w web_state, web_response) go" where
  "web_logout h r =
     (if rq_Method r \<noteq> ''POST'' then respond (HttpError 405 ''method not allowed'')
      else bindG (ClearSession (hd_sessions h)) (\<lambda>_.
        if wc_PostLogoutRedirectURL (hd_cfg h) \<noteq> [] then respond (Redirect 303 (wc_PostLogoutRedirectURL (hd_cfg h)) [])
        else respond NoContent))"

definition web_session :: "'w Handler \<Rightarrow> web_request \<Rightarrow> ('w web_state, web_response) go" where
  "web_session h r =
     (if rq_Method r \<noteq> ''GET'' then respond (HttpError 405 ''method not allowed'')
      else bindG (PrincipalFromRequest (hd_sessions h) r) (\<lambda>found. case found of
          None \<Rightarrow> respond (HttpError 401 ''authentication required'')
        | Some prin \<Rightarrow> respond (SessionJSON (p_Issuer prin) (p_Subject prin))))"

section \<open>Exchanging a code over HTTP\<close>

text \<open>
  \<open>cx_post\<close> sends the form to the token endpoint and gives the status and the first megabyte of
  the body, or the error of the transport; \<open>cx_verify\<close> is the verifier of ID tokens. The decoder
  reads the first value of the body.
\<close>

record 'w CodeExchanger =
  cx_TokenEndpoint :: string
  cx_ClientID :: string
  cx_ClientSecret :: string
  cx_RedirectURL :: string
  cx_AllowInsecureEndpoint :: bool
  cx_post :: "(string \<times> string) list \<Rightarrow> 'w \<Rightarrow> (string + nat \<times> string) \<times> 'w"
  cx_verify :: "(string \<Rightarrow> string \<Rightarrow> 'w \<Rightarrow> (goerr + Principal) \<times> 'w) option"

definition validateTokenExchange :: "url_library \<Rightarrow> 'w CodeExchanger \<Rightarrow> string \<Rightarrow> string \<Rightarrow> string \<Rightarrow> goerr option" where
  "validateTokenExchange url_parse e code verifier nonce =
     (if list_ex blank [cx_TokenEndpoint e, cx_ClientID e, cx_ClientSecret e, cx_RedirectURL e]
      then Some (Anon ''OIDC token exchange configuration is incomplete'')
      else if cx_verify e = None then Some (Anon ''OIDC nonce verifier is required'')
      else if list_ex blank [code, verifier, nonce] then Some (Anon ''OIDC code, PKCE verifier and nonce are required'')
      else case wrap_error ''token endpoint'' (validateAbsoluteHTTPURL url_parse (cx_TokenEndpoint e) (cx_AllowInsecureEndpoint e)) of
        Some err \<Rightarrow> Some err
      | None \<Rightarrow> wrap_error ''redirect URL'' (validateRedirectURL url_parse (cx_RedirectURL e) (cx_AllowInsecureEndpoint e)))"

definition set_token_field :: "string \<Rightarrow> json \<Rightarrow> string \<Rightarrow> string option" where
  "set_token_field name v token = (if name = ''ID_TOKEN'' then decode_string token v else Some token)"

definition decode_token :: "string \<Rightarrow> string option" where
  "decode_token body =
     (case parse_value body of
        Some (JObject kvs, _) \<Rightarrow> if json_depth (JObject kvs) \<le> 10000 then fill_fields set_token_field kvs [] else None
      | Some (JNull, _) \<Rightarrow> Some []
      | _ \<Rightarrow> None)"

definition token_form :: "'w CodeExchanger \<Rightarrow> string \<Rightarrow> string \<Rightarrow> (string \<times> string) list" where
  "token_form e code verifier =
     [(''grant_type'', ''authorization_code''), (''code'', code), (''redirect_uri'', cx_RedirectURL e),
      (''client_id'', cx_ClientID e), (''client_secret'', cx_ClientSecret e), (''code_verifier'', verifier)]"

definition http_Exchange :: "url_library \<Rightarrow> 'w CodeExchanger \<Rightarrow> 'w exchanger" where
  "http_Exchange url_parse e code verifier nonce =
     (case validateTokenExchange url_parse e code verifier nonce of
        Some err \<Rightarrow> fail err
      | None \<Rightarrow> (\<lambda>w. case cx_post e (token_form e code verifier) w of
          (Inl err, w') \<Rightarrow> (Inl (Wrap ''token exchange request'' (External err)), w')
        | (Inr (status, body), w') \<Rightarrow>
            if status < 200 \<or> status \<ge> 300 then (Inl (Anon (''token exchange returned HTTP '' @ itoa (int status))), w')
            else (case decode_token (take 1048576 body) of
                None \<Rightarrow> (Inl (Anon ''token exchange response did not contain an ID token''), w')
              | Some token \<Rightarrow>
                  if blank token then (Inl (Anon ''token exchange response did not contain an ID token''), w')
                  else wrapG ''verify OIDC ID token'' (the (cx_verify e) token nonce) w')))"

lemma http_Exchange_verified:
  assumes "http_Exchange url_parse e code verifier nonce w = (Inr prin, w')"
  shows "\<exists>verify token w1. cx_verify e = Some verify \<and> \<not> blank token \<and> \<not> blank nonce \<and> verify token nonce w1 = (Inr prin, w')"
  using assms
  by (auto simp: http_Exchange_def validateTokenExchange_def wrapG_Inr fail_def split: option.splits prod.splits sum.splits if_splits)

end
