(* ===== verification/WebRuns.thy ===== *)
theory WebRuns
  imports WebAuth
begin

text \<open>
  What holds over sequences of requests to the login routes and the middleware: sessions only come
  from logins, a login is used once, and an unsafe request of a browser carries the CSRF token.
\<close>

section \<open>Requests in sequence\<close>

datatype web_call =
    LoginCall web_request
  | CallbackCall web_request
  | LogoutCall web_request
  | SessionCall web_request
  | MiddlewareCall web_request

fun web_exec :: "url_library \<Rightarrow> 'w Handler \<Rightarrow> web_call \<Rightarrow> ('w web_state, web_response) go" where
  "web_exec u h (LoginCall r) = web_login h r"
| "web_exec u h (CallbackCall r) = web_callback h r"
| "web_exec u h (LogoutCall r) = web_logout h r"
| "web_exec u h (SessionCall r) = web_session h r"
| "web_exec u h (MiddlewareCall r) = web_Middleware u h r"

definition web_step :: "url_library \<Rightarrow> 'w Handler \<Rightarrow> web_call \<Rightarrow> 'w web_state \<Rightarrow> 'w web_state" where
  "web_step u h call s = snd (web_exec u h call (s\<lparr>sv_wrote := False\<rparr>))"

definition web_run :: "url_library \<Rightarrow> 'w Handler \<Rightarrow> web_call list \<Rightarrow> 'w web_state \<Rightarrow> 'w web_state" where
  "web_run u h calls s = fold (web_step u h) calls s"

text \<open>The user of a callback that succeeds: the state is pending, and the provider answers for its nonce and verifier.\<close>

definition callback_login :: "'w Handler \<Rightarrow> web_request \<Rightarrow> 'w web_state \<Rightarrow> Principal option" where
  "callback_login h r s =
     (if rq_Method r \<noteq> ''GET'' then None
      else case consumePending (hd_sessions h) r (rq_Query r ''state'') s of
        (Inl e, s1) \<Rightarrow> None
      | (Inr pending, s1) \<Rightarrow>
          let code = TrimSpace (rq_Query r ''code'')
          in if code = [] then None
             else case hd_exchange h code (ps_codeVerifier pending) (ps_nonce pending) (sv_world s1) of
               (Inl e, w) \<Rightarrow> None
             | (Inr prin, w) \<Rightarrow>
                 if p_Kind prin = PrincipalUser \<and> \<not> blank (p_Issuer prin) \<and> \<not> blank (p_Subject prin) then Some prin else None)"

section \<open>The cookies a call adds\<close>

definition adds :: "(set_cookie \<Rightarrow> bool) \<Rightarrow> ('w web_state, 'a) go \<Rightarrow> bool" where
  "adds P m \<longleftrightarrow> (\<forall>s x s'. m s = (x, s') \<longrightarrow> (\<exists>cs. sv_cookies s' = sv_cookies s @ cs \<and> list_all P cs))"

named_theorems adding

lemma adds_ret [adding]: "adds P (ret a)" and adds_fail [adding]: "adds P (fail e)"
  by (auto simp: adds_def go_simps)

lemma adds_worldly [adding]: "adds P (worldly f)"
  by (auto simp: adds_def worldly_def split: prod.splits)

lemma adds_respond [adding]: "adds P (respond x)"
  by (auto simp: adds_def respond_def)

lemma adds_bind [adding]: "adds P m \<Longrightarrow> (\<And>a. adds P (f a)) \<Longrightarrow> adds P (bindG m f)"
  unfolding adds_def bindG_def by (fastforce split: prod.splits sum.splits)

lemma adds_bind_worldly: "(\<And>w. adds P (f (fst (g w)))) \<Longrightarrow> adds P (bindG (worldly g) f)"
proof -
  assume f: "\<And>w. adds P (f (fst (g w)))"
  have "\<exists>cs. sv_cookies s' = sv_cookies s @ cs \<and> list_all P cs" if "bindG (worldly g) f s = (x, s')" for s x s'
  proof -
    obtain a w where g: "g (sv_world s) = (a, w)" by force
    with that have "f a (s\<lparr>sv_world := w\<rparr>) = (x, s')" by (simp add: bindG_def worldly_def)
    with f [of "sv_world s"] g show ?thesis by (fastforce simp: adds_def)
  qed
  then show ?thesis by (simp add: adds_def)
qed

lemma adds_catch [adding]: "adds P m \<Longrightarrow> (\<And>e. adds P (h e)) \<Longrightarrow> (\<And>a. adds P (f a)) \<Longrightarrow> adds P (catchG m h f)"
  unfolding adds_def catchG_def by (fastforce split: prod.splits sum.splits)

lemma adds_if [adding]: "(c \<Longrightarrow> adds P m) \<Longrightarrow> (\<not> c \<Longrightarrow> adds P m') \<Longrightarrow> adds P (if c then m else m')"
  by simp

lemma adds_case_option [adding]: "adds P m \<Longrightarrow> (\<And>a. adds P (f a)) \<Longrightarrow> adds P (case x of None \<Rightarrow> m | Some a \<Rightarrow> f a)"
  by (simp split: option.split)

lemma adds_case_sum [adding]: "(\<And>e. adds P (f e)) \<Longrightarrow> (\<And>a. adds P (g a)) \<Longrightarrow> adds P (case x of Inl e \<Rightarrow> f e | Inr a \<Rightarrow> g a)"
  by (simp split: sum.split)

lemma adds_case_prod [adding]: "(\<And>a b. adds P (f a b)) \<Longrightarrow> adds P (case x of (a, b) \<Rightarrow> f a b)"
  by (simp split: prod.split)

lemma adds_add_cookie: "P c \<Longrightarrow> adds P (add_cookie c)"
  by (simp add: adds_def add_cookie_def)

lemma adds_wrapG [adding]: "adds P m \<Longrightarrow> adds P (wrapG l m)"
  unfolding wrapG_def by (intro adding)

lemma adds_random [adding]: "adds P (randomURLValue m n)"
  unfolding randomURLValue_def by (intro adding)

lemma adds_setCookie [adding]: "(\<And>c. ck_Name c = n \<Longrightarrow> ck_Value c = v \<Longrightarrow> P c) \<Longrightarrow> adds P (setCookie m n v e b)"
  unfolding setCookie_def by (intro adding adds_add_cookie) simp

lemma adds_clearCookie [adding]: "(\<And>c. ck_Value c = [] \<Longrightarrow> P c) \<Longrightarrow> adds P (clearCookie m n)"
  unfolding clearCookie_def by (intro adds_add_cookie) simp

text \<open>A cookie that gives no session.\<close>

definition no_session :: "'w SessionManager \<Rightarrow> set_cookie \<Rightarrow> bool" where
  "no_session m c \<longleftrightarrow> ck_Value c = []
     \<or> ck_Name c = PendingCookieName \<and> (\<exists>v. ck_Value c = seal m ''oidc-state'' v) \<or> ck_Name c = CSRFCookieName \<and> (\<exists>v. ck_Value c = seal m ''csrf'' v)"

lemma adds_add_pending [adding]: "adds P (add_pending m state p)"
proof -
  have "adds P (\<lambda>s. let live = live_states now (sv_pending s) in if length live \<ge> maxPendingStates
      then (Inl (Anon ''too many pending OIDC authorizations''), s\<lparr>sv_pending := live\<rparr>)
      else (Inr (), s\<lparr>sv_pending := AList.update state p live\<rparr>))" for now
    by (auto simp: adds_def Let_def)
  then show ?thesis unfolding add_pending_def by (intro adds_bind adds_worldly)
qed

lemma adds_beginPending [adding]: "adds (no_session m) (beginPending m)"
  unfolding beginPending_def Let_def by (intro adding) (auto simp: no_session_def)

lemma adds_consumePending [adding]: "adds P (consumePending m r state)"
proof -
  have p: "adds P (\<lambda>s. f s (s\<lparr>sv_pending := AList.delete state (sv_pending s)\<rparr>))" if "\<And>t. adds P (f t)"
    for f :: "'a web_state \<Rightarrow> ('a web_state, pendingState) go"
    using that unfolding adds_def by (metis web_state.select_convs(2) web_state.surjective web_state.update_convs(1))
  show ?thesis unfolding consumePending_def by (intro adding p)
qed

lemma adds_PrincipalFromRequest [adding]: "adds P (PrincipalFromRequest m r)"
  unfolding PrincipalFromRequest_def by (intro adding)

lemma adds_csrf_Ensure [adding]: "adds (no_session m) (csrf_Ensure m r)"
  unfolding csrf_Ensure_def Let_def by (intro adding) (auto simp: no_session_def)

lemma adds_csrf_Validate [adding]: "adds P (csrf_Validate u m r)"
  unfolding csrf_Validate_def by (intro adding)

lemma adds_Middleware [adding]: "adds (no_session (hd_sessions h)) (web_Middleware u h r)"
  unfolding web_Middleware_def SessionMiddleware_def csrf_Middleware_def by (intro adding)

lemma adds_routes:
  "adds (no_session (hd_sessions h)) (web_login h r)" "adds (no_session (hd_sessions h)) (web_logout h r)"
  "adds (no_session (hd_sessions h)) (web_session h r)"
  unfolding web_login_def web_logout_def web_session_def ClearSession_def
  by (intro adding; simp add: no_session_def)+

lemma adds_SetSession:
  assumes "\<And>c w. ck_Name c = SessionCookieName \<Longrightarrow> ck_Value c = seal m ''session'' (sessionCookie_json (session_payload prin
      (fst (sm_now m w) + sm_ttl m))) \<Longrightarrow> p_Kind prin = PrincipalUser \<Longrightarrow> \<not> blank (p_Issuer prin) \<Longrightarrow> \<not> blank (p_Subject prin) \<Longrightarrow> P c"
  shows "adds P (SetSession m prin)"
  unfolding SetSession_def Let_def
  by (intro adds_if adds_fail adds_bind_worldly adds_setCookie assms; simp)

text \<open>A session cookie of a login.\<close>

definition login_cookie :: "'w SessionManager \<Rightarrow> Principal \<Rightarrow> set_cookie \<Rightarrow> bool" where
  "login_cookie m prin c \<longleftrightarrow> ck_Name c = SessionCookieName
     \<and> (\<exists>w. ck_Value c = seal m ''session'' (sessionCookie_json (session_payload prin (fst (sm_now m w) + sm_ttl m))))"

lemma callback_cookies:
  assumes run: "web_callback h r s = (x, s')"
  defines "P \<equiv> \<lambda>c. no_session (hd_sessions h) c \<or> (\<exists>prin. callback_login h r s = Some prin \<and> login_cookie (hd_sessions h) prin c)"
  shows "\<exists>cs. sv_cookies s' = sv_cookies s @ cs \<and> list_all P cs"
proof -
  let ?m = "hd_sessions h" and ?code = "TrimSpace (rq_Query r ''code'')"
  have addsD: "adds P m \<Longrightarrow> m t = (y, t') \<Longrightarrow> sv_cookies t = sv_cookies s \<Longrightarrow> ?thesis" if "t' = s'"
    for m :: "('a web_state, web_response) go" and y t t' using that by (fastforce simp: adds_def)
  have clear: "adds P (clearPending ?m)" unfolding clearPending_def by (intro adding) (simp add: P_def no_session_def)
  obtain y s1 where c: "consumePending ?m r (rq_Query r ''state'') s = (y, s1)" by force
  have v: "sv_cookies s1 = sv_cookies s" using adds_consumePending [of "\<lambda>_. False", unfolded adds_def, rule_format, OF c] by (auto simp: list_all_iff)
  consider "rq_Method r \<noteq> ''GET'' \<or> (\<exists>e. y = Inl e) \<or> (\<exists>p. y = Inr p \<and> ?code = [])"
    | p where "rq_Method r = ''GET''" "y = Inr p" "?code \<noteq> []" by (cases y) auto
  then show ?thesis
  proof cases
    case 1
    then have "sv_cookies s' = sv_cookies s"
      using run c v by (cases "rq_Method r = ''GET''")
        (auto simp: web_callback_def respond_def go_simps clearPending_def clearCookie_def add_cookie_def)
    then show ?thesis by simp
  next
    case (2 p)
    obtain z w where e: "hd_exchange h ?code (ps_codeVerifier p) (ps_nonce p) (sv_world s1) = (z, w)" by force
    let ?k = "\<lambda>m. bindG m (\<lambda>x. bindG (clearPending ?m) (\<lambda>_. ret x))"
    have adds_k: "adds P m \<Longrightarrow> adds P (?k m)" for m by (intro adding clear)
    have s1: "sv_cookies (s1\<lparr>sv_world := w\<rparr>) = sv_cookies s" using v by simp
    show ?thesis
    proof (cases z)
      case (Inl err)
      with 2 c e run have "?k (respond (HttpError 401 ''authentication failed'')) (s1\<lparr>sv_world := w\<rparr>) = (x, s')"
        by (simp add: web_callback_def go_simps exchange_code_def worldly_def Let_def)
      from addsD [OF refl adds_k [OF adds_respond] this s1] show ?thesis .
    next
      case (Inr prin)
      let ?body = "if p_Kind prin \<noteq> PrincipalUser \<or> p_Issuer prin = [] \<or> p_Subject prin = []
        then respond (HttpError 401 ''authentication failed'')
        else catchG (SetSession ?m prin) (\<lambda>_. respond (HttpError 401 ''authentication failed''))
          (\<lambda>_. respond (Redirect 303 (wc_SuccessRedirectURL (hd_cfg h)) []))"
      from Inr 2 c e run have k: "?k ?body (s1\<lparr>sv_world := w\<rparr>) = (x, s')"
        by (simp add: web_callback_def go_simps exchange_code_def worldly_def Let_def)
      have "P d" if "ck_Name d = SessionCookieName" "ck_Value d = seal ?m ''session'' (sessionCookie_json (session_payload prin
          (fst (sm_now ?m w') + sm_ttl ?m)))" "p_Kind prin = PrincipalUser" "\<not> blank (p_Issuer prin)" "\<not> blank (p_Subject prin)" for d w'
      proof -
        have "callback_login h r s = Some prin" using 2 c e Inr that(3-5) by (simp add: callback_login_def Let_def)
        with that show ?thesis unfolding P_def login_cookie_def by blast
      qed
      then have "adds P ?body" by (intro adding adds_SetSession) blast
      from addsD [OF refl adds_k [OF this] k s1] show ?thesis .
    qed
  qed
qed

lemma web_exec_cookies:
  assumes run: "web_exec u h call s = (x, s')"
  shows "\<exists>cs. sv_cookies s' = sv_cookies s @ cs \<and> list_all (\<lambda>c. no_session (hd_sessions h) c
    \<or> (\<exists>r prin. call = CallbackCall r \<and> callback_login h r s = Some prin \<and> login_cookie (hd_sessions h) prin c)) cs"
proof (cases call)
  case (CallbackCall r)
  with callback_cookies [of h r s x s'] run show ?thesis by (auto simp: list_all_iff)
next
  case (LoginCall r)
  with adds_routes(1) [of h r] run show ?thesis unfolding adds_def by (fastforce simp: list_all_iff)
next
  case (LogoutCall r)
  with adds_routes(2) [of h r] run show ?thesis unfolding adds_def by (fastforce simp: list_all_iff)
next
  case (SessionCall r)
  with adds_routes(3) [of h r] run show ?thesis unfolding adds_def by (fastforce simp: list_all_iff)
next
  case (MiddlewareCall r)
  with adds_Middleware [of h u r] run show ?thesis unfolding adds_def by (fastforce simp: list_all_iff)
qed

text \<open>The logins of a sequence: their users, with the number of calls before them.\<close>

definition logins :: "url_library \<Rightarrow> 'w Handler \<Rightarrow> web_call list \<Rightarrow> 'w web_state \<Rightarrow> Principal set" where
  "logins u h calls s =
     {prin. \<exists>i < length calls. \<exists>r. calls ! i = CallbackCall r \<and> callback_login h r ((web_run u h (take i calls) s)\<lparr>sv_wrote := False\<rparr>) = Some prin}"

lemma web_run_snoc: "web_run u h (calls @ [call]) s = web_step u h call (web_run u h calls s)"
  by (simp add: web_run_def)

lemma web_run_cookies:
  assumes "sv_cookies s = []"
  shows "list_all (\<lambda>c. no_session (hd_sessions h) c \<or> (\<exists>prin \<in> logins u h calls s. login_cookie (hd_sessions h) prin c))
    (sv_cookies (web_run u h calls s))"
proof (induction calls rule: rev_induct)
  case Nil
  then show ?case using assms by (simp add: web_run_def)
next
  case (snoc call calls)
  let ?s = "(web_run u h calls s)\<lparr>sv_wrote := False\<rparr>"
  obtain x s' where run: "web_exec u h call ?s = (x, s')" by force
  have mono: "logins u h calls s \<subseteq> logins u h (calls @ [call]) s"
  proof
    fix prin assume "prin \<in> logins u h calls s"
    then obtain i r where "i < length calls" "calls ! i = CallbackCall r"
      "callback_login h r ((web_run u h (take i calls) s)\<lparr>sv_wrote := False\<rparr>) = Some prin" unfolding logins_def by blast
    then show "prin \<in> logins u h (calls @ [call]) s"
      unfolding logins_def by (intro CollectI exI [of _ i]) (simp add: nth_append)
  qed
  have new: "prin \<in> logins u h (calls @ [call]) s" if "call = CallbackCall r" "callback_login h r ?s = Some prin" for r prin
    using that unfolding logins_def by (intro CollectI exI [of _ "length calls"]) simp
  from web_exec_cookies [OF run] snoc mono new show ?case
    by (auto simp: web_run_snoc web_step_def run list_all_iff) blast+
qed

section \<open>Sessions come from logins\<close>

definition cookie_kind :: "string \<Rightarrow> string" where
  "cookie_kind n = (if n = SessionCookieName then ''session'' else if n = PendingCookieName then ''oidc-state'' else ''csrf'')"

text \<open>
  Nobody else can sign: what carries a valid signature of a session was signed as one of the cookies that
  were set. This is what HMAC promises for a secret key.
\<close>

definition unforged :: "'w SessionManager \<Rightarrow> set_cookie list \<Rightarrow> string \<Rightarrow> bool" where
  "unforged m cookies encoded \<longleftrightarrow>
     (\<forall>part0 part1. SplitOn (CHR ''.'') encoded = [part0, part1] \<longrightarrow>
        DecodeString part1 = Some (hmac_sha256 (sm_secret m) (signed_message ''session'' part0)) \<longrightarrow>
        (\<exists>c \<in> set cookies. ck_Value c \<noteq> []
           \<and> signed_message ''session'' part0 = signed_message (cookie_kind (ck_Name c)) (hd (SplitOn (CHR ''.'') (ck_Value c)))))"

text \<open>The provider names users in UTF-8, as the decoder of its tokens gives them; clocks stay in range.\<close>

definition utf8_logins :: "'w Handler \<Rightarrow> bool" where
  "utf8_logins h \<longleftrightarrow> (\<forall>code v n w prin w'. hd_exchange h code v n w = (Inr prin, w') \<longrightarrow>
     list_all utf8_valid (p_Issuer prin # p_Subject prin # p_Audience prin))"

definition clock_in_range :: "'w SessionManager \<Rightarrow> bool" where
  "clock_in_range m \<longleftrightarrow> (\<forall>w. int64 (unix_seconds (fst (sm_now m w) + sm_ttl m)))"

lemma signed_message_inj:
  assumes "CHR ''.'' \<notin> set k" "CHR ''.'' \<notin> set k'"
  shows "signed_message k b = signed_message k' b' \<longleftrightarrow> k = k' \<and> b = b'"
proof
  assume "signed_message k b = signed_message k' b'"
  then have "k @ CHR ''.'' # b = k' @ CHR ''.'' # b'" by (simp add: signed_message_def)
  then have "SplitOn (CHR ''.'') (k @ CHR ''.'' # b) = SplitOn (CHR ''.'') (k' @ CHR ''.'' # b')" by simp
  then have "k = k'" by (simp only: SplitOn_append [OF assms(1)] SplitOn_append [OF assms(2)] list.inject)
  with \<open>k @ CHR ''.'' # b = k' @ CHR ''.'' # b'\<close> show "k = k' \<and> b = b'" by simp
qed simp

lemma callback_login_exchange:
  "callback_login h r s = Some prin \<Longrightarrow> \<exists>code v n w w'. hd_exchange h code v n w = (Inr prin, w')"
  unfolding callback_login_def Let_def by (auto split: if_splits prod.splits sum.splits) blast

lemma callback_login_valid:
  "utf8_logins h \<Longrightarrow> callback_login h r s = Some prin \<Longrightarrow> list_all utf8_valid (p_Issuer prin # p_Subject prin # p_Audience prin)"
  unfolding utf8_logins_def using callback_login_exchange by blast

lemma seal_head: "hd (SplitOn (CHR ''.'') (seal m kind v)) = EncodeToString (marshal v)"
  using seal_split [of m kind v, OF seal_def [unfolded Let_def]] by simp

lemma cookie_names [simp]: "SessionCookieName \<noteq> PendingCookieName" "SessionCookieName \<noteq> CSRFCookieName" "PendingCookieName \<noteq> CSRFCookieName"
  by (simp_all add: SessionCookieName_def PendingCookieName_def CSRFCookieName_def)

text \<open>What a session cookie that nobody forged holds.\<close>

lemma unforged_session:
  assumes run: "list_all (\<lambda>c. no_session m c \<or> (\<exists>prin \<in> L. login_cookie m prin c)) cookies"
    and cookie: "unforged m cookies encoded" "unseal m ''session'' encoded decode_session = Inr payload"
    and valid: "\<forall>prin \<in> L. list_all utf8_valid (p_Issuer prin # p_Subject prin # p_Audience prin)" "clock_in_range m"
  shows "\<exists>prin \<in> L. \<exists>w. payload = session_payload prin (fst (sm_now m w) + sm_ttl m)"
proof -
  from unseal_Inr [OF cookie(2)] obtain part0 part1 body where u: "SplitOn (CHR ''.'') encoded = [part0, part1]"
    "DecodeString part0 = Some body" "DecodeString part1 = Some (hmac_sha256 (sm_secret m) (signed_message ''session'' part0))"
    "decode_session body = Some payload" by blast
  with cookie(1) obtain c where c: "c \<in> set cookies" "ck_Value c \<noteq> []"
    "signed_message ''session'' part0 = signed_message (cookie_kind (ck_Name c)) (hd (SplitOn (CHR ''.'') (ck_Value c)))"
    unfolding unforged_def by blast
  have "CHR ''.'' \<notin> set (cookie_kind n)" for n by (simp add: cookie_kind_def)
  with c(3) have k: "cookie_kind (ck_Name c) = ''session''" "part0 = hd (SplitOn (CHR ''.'') (ck_Value c))"
    by (subst (asm) signed_message_inj; simp)+
  from k(1) have "ck_Name c = SessionCookieName" by (simp add: cookie_kind_def split: if_splits)
  then have "\<not> no_session m c" using c(2) by (simp add: no_session_def)
  with run c(1) have "\<exists>prin \<in> L. login_cookie m prin c" unfolding list_all_iff by blast
  then obtain prin w where p: "prin \<in> L"
    "ck_Value c = seal m ''session'' (sessionCookie_json (session_payload prin (fst (sm_now m w) + sm_ttl m)))"
    unfolding login_cookie_def by blast
  let ?c = "session_payload prin (fst (sm_now m w) + sm_ttl m)"
  from k(2) p(2) u(2) have "body = marshal (sessionCookie_json ?c)" by (simp add: seal_head)
  moreover have "decode_session (marshal (sessionCookie_json ?c)) = Some ?c"
    using valid p(1) decode_session_json [of ?c] by (simp add: session_payload_def clock_in_range_def)
  ultimately show ?thesis using u(4) p(1) by auto
qed


section \<open>Pending logins\<close>

text \<open>The state that a call begins, and the one that it consumes.\<close>

definition begins :: "'w Handler \<Rightarrow> web_call \<Rightarrow> 'w web_state \<Rightarrow> string option" where
  "begins h call s =
     (case call of
        LoginCall r \<Rightarrow> if rq_Method r \<noteq> ''GET'' then None
          else (case beginPending (hd_sessions h) s of (Inr (state, _), _) \<Rightarrow> Some state | (Inl e, _) \<Rightarrow> None)
      | _ \<Rightarrow> None)"

definition consumes :: "'w Handler \<Rightarrow> web_call \<Rightarrow> 'w web_state \<Rightarrow> string option" where
  "consumes h call s =
     (case call of
        CallbackCall r \<Rightarrow> if rq_Method r \<noteq> ''GET'' then None
          else (case consumePending (hd_sessions h) r (rq_Query r ''state'') s of
              (Inr p, _) \<Rightarrow> Some (rq_Query r ''state'') | (Inl e, _) \<Rightarrow> None)
      | _ \<Rightarrow> None)"

fun counted :: "url_library \<Rightarrow> 'w Handler \<Rightarrow> ('w Handler \<Rightarrow> web_call \<Rightarrow> 'w web_state \<Rightarrow> string option) \<Rightarrow> string \<Rightarrow>
    web_call list \<Rightarrow> 'w web_state \<Rightarrow> nat" where
  "counted u h what k [] s = 0"
| "counted u h what k (call # calls) s =
     (if what h call (s\<lparr>sv_wrote := False\<rparr>) = Some k then 1 else 0) + counted u h what k calls (web_step u h call s)"

text \<open>Calls that leave the pending logins alone.\<close>

definition same_pending :: "('w web_state, 'a) go \<Rightarrow> bool" where
  "same_pending m \<longleftrightarrow> (\<forall>s. sv_pending (snd (m s)) = sv_pending s)"

lemma same_pendingD: "same_pending m \<Longrightarrow> m s = (x, s') \<Longrightarrow> sv_pending s' = sv_pending s"
  unfolding same_pending_def by (metis snd_conv)

named_theorems pending_rules

lemma same_pending_basic [pending_rules]:
  "same_pending (ret a)" "same_pending (fail e)" "same_pending (worldly f)" "same_pending (respond x)" "same_pending (add_cookie c)"
  by (auto simp: same_pending_def go_simps worldly_def respond_def add_cookie_def split: prod.splits)

lemma same_pending_bind [pending_rules]: "same_pending m \<Longrightarrow> (\<And>a. same_pending (f a)) \<Longrightarrow> same_pending (bindG m f)"
  by (auto simp: same_pending_def bindG_def split: prod.splits sum.splits) (metis snd_conv)+

lemma same_pending_catch [pending_rules]:
  "same_pending m \<Longrightarrow> (\<And>e. same_pending (h e)) \<Longrightarrow> (\<And>a. same_pending (f a)) \<Longrightarrow> same_pending (catchG m h f)"
  by (auto simp: same_pending_def catchG_def split: prod.splits sum.splits) (metis snd_conv)+

lemma same_pending_split [pending_rules]:
  "(c \<Longrightarrow> same_pending m) \<Longrightarrow> (\<not> c \<Longrightarrow> same_pending m') \<Longrightarrow> same_pending (if c then m else m')"
  "same_pending m \<Longrightarrow> (\<And>a. same_pending (f a)) \<Longrightarrow> same_pending (case x of None \<Rightarrow> m | Some a \<Rightarrow> f a)"
  "(\<And>e. same_pending (g e)) \<Longrightarrow> (\<And>a. same_pending (f a)) \<Longrightarrow> same_pending (case y of Inl e \<Rightarrow> g e | Inr a \<Rightarrow> f a)"
  by (simp_all split: option.split sum.split)

lemma same_pending_calls [pending_rules]:
  "same_pending (setCookie m n v e b)" "same_pending (clearCookie m n)" "same_pending (randomURLValue m k)"
  "same_pending (SetSession m prin)" "same_pending (PrincipalFromRequest m r)" "same_pending (csrf_Ensure m r)" "same_pending (csrf_Validate u m r)"
proof -
  show c: "same_pending (setCookie m n v e b)" for n v e b unfolding setCookie_def by (intro pending_rules)
  show r: "same_pending (randomURLValue m k)" for k unfolding randomURLValue_def by (intro pending_rules)
  show "same_pending (clearCookie m n)" unfolding clearCookie_def by (intro pending_rules)
  show "same_pending (SetSession m prin)" unfolding SetSession_def Let_def by (intro pending_rules c)
  show "same_pending (PrincipalFromRequest m r)" unfolding PrincipalFromRequest_def by (intro pending_rules)
  show "same_pending (csrf_Ensure m r)" unfolding csrf_Ensure_def Let_def by (intro pending_rules c r)
  show "same_pending (csrf_Validate u m r)" unfolding csrf_Validate_def by (intro pending_rules)
qed

lemma same_pending_wrapG [pending_rules]: "same_pending m \<Longrightarrow> same_pending (wrapG l m)"
  unfolding wrapG_def by (intro pending_rules)

definition waiting :: "string \<Rightarrow> 'w web_state \<Rightarrow> nat" where
  "waiting k s = (if k \<in> fst ` set (sv_pending s) then 1 else 0)"

definition pending_bounded :: "'w web_state \<Rightarrow> bool" where
  "pending_bounded s \<longleftrightarrow> distinct (map fst (sv_pending s)) \<and> length (sv_pending s) \<le> maxPendingStates"

lemma length_update_le: "length (AList.update k v xs) \<le> Suc (length xs)"
  by (induction xs) auto

lemma keys_update: "fst ` set (AList.update k v xs) = insert k (fst ` set xs)"
  by (induction xs) auto

lemma keys_delete: "fst ` set (AList.delete k xs) = fst ` set xs - {k}"
  by (auto simp: AList.delete_eq)

lemma live_states_facts:
  "fst ` set (live_states now xs) \<subseteq> fst ` set xs" "distinct (map fst xs) \<Longrightarrow> distinct (map fst (live_states now xs))"
  "length (live_states now xs) \<le> length xs"
  by (auto simp: live_states_def distinct_map_filter)

lemma add_pending_effect:
  assumes "add_pending m state p s = (x, s')" "pending_bounded s"
  shows "pending_bounded s' \<and> waiting k s' \<le> waiting k s + (if x = Inr () \<and> k = state then 1 else 0)"
proof -
  obtain now w where n: "sm_now m (sv_world s) = (now, w)" by force
  with assms(1) have "x = Inl (Anon ''too many pending OIDC authorizations'') \<and> sv_pending s' = live_states now (sv_pending s)
      \<or> x = Inr () \<and> length (live_states now (sv_pending s)) < maxPendingStates \<and> sv_pending s' = AList.update state p (live_states now (sv_pending s))"
    by (auto simp: add_pending_def go_simps worldly_def Let_def split: if_splits)
  then show ?thesis
    using assms(2) live_states_facts [where now = now and xs = "sv_pending s"] length_update_le [of state p "live_states now (sv_pending s)"]
      subsetD [OF live_states_facts(1), of k now "sv_pending s"]
    by (elim disjE conjE) (simp_all add: pending_bounded_def waiting_def keys_update AList.distinct_update)
qed

lemma beginPending_effect:
  assumes run: "beginPending m s = (x, s')" and b: "pending_bounded s"
  shows "pending_bounded s' \<and> waiting k s' \<le> waiting k s + (case x of Inr (state, _) \<Rightarrow> if state = k then 1 else 0 | Inl e \<Rightarrow> 0)"
proof -
  have eff: "pending_bounded t' \<and> waiting k t' \<le> waiting k s + c" if "sv_pending t' = sv_pending s" for t' :: "'a web_state" and c
    using that b by (simp add: pending_bounded_def waiting_def)
  have same: "sv_pending t' = sv_pending t" if "same_pending n" "n t = (y, t')" for t t' y and n :: "('a web_state, 'b) go"
    using same_pendingD [OF that] .
  let ?r = "\<lambda>l. wrapG l (randomURLValue m 32)"
  obtain y1 s1 where r1: "?r ''generate OIDC state'' s = (y1, s1)" by force
  obtain y2 s2 where r2: "?r ''generate OIDC nonce'' s1 = (y2, s2)" by force
  obtain y3 s3 where r3: "?r ''generate PKCE verifier'' s2 = (y3, s3)" by force
  have w: "same_pending (?r l)" for l by (intro pending_rules)
  from same_pendingD [OF w r1] same_pendingD [OF w r2] same_pendingD [OF w r3]
  have p: "sv_pending s1 = sv_pending s" "sv_pending s2 = sv_pending s" "sv_pending s3 = sv_pending s" by simp_all
  show ?thesis
  proof (cases "(\<exists>e. y1 = Inl e) \<or> (\<exists>e. y2 = Inl e) \<or> (\<exists>e. y3 = Inl e)")
    case True
    then have "(\<exists>e. x = Inl e) \<and> (s' = s1 \<or> s' = s2 \<or> s' = s3)"
      using run r1 r2 r3 by (cases y1; cases y2; cases y3) (auto simp: beginPending_def go_simps)
    with p eff show ?thesis by auto
  next
    case False
    then obtain state nonce verifier where y: "y1 = Inr state" "y2 = Inr nonce" "y3 = Inr verifier" by (cases y1; cases y2; cases y3) auto
    obtain now s4 where t: "worldly (sm_now m) s3 = (Inr now, s4)" by (cases "sm_now m (sv_world s3)") (simp add: worldly_def)
    then have p4: "sv_pending s4 = sv_pending s" using p(3) by (auto simp: worldly_def split: prod.splits)
    let ?p = "\<lparr>ps_nonce = nonce, ps_codeVerifier = verifier, ps_expiresAt = now + pendingTTL m\<rparr>"
    obtain z s5 where a: "add_pending m state ?p s4 = (z, s5)" by force
    have b4: "pending_bounded s4" "waiting k s4 = waiting k s" using p4 b by (simp_all add: pending_bounded_def waiting_def)
    note add = add_pending_effect [OF a b4(1), of k, unfolded b4(2)]
    show ?thesis
    proof (cases z)
      case (Inl e)
      with run r1 r2 r3 y t a have "x = Inl e" "s' = s5" by (simp_all add: beginPending_def go_simps Let_def)
      with add Inl show ?thesis by simp
    next
      case (Inr u)
      let ?c = "setCookie m PendingCookieName (seal m ''oidc-state'' (pendingCookie_json
        \<lparr>pc_State = state, pc_ExpiresAt = unix_seconds (now + pendingTTL m)\<rparr>)) (now + pendingTTL m) True"
      obtain v s6 where c: "?c s5 = (v, s6)" by force
      have "v = Inr ()" using c by (auto simp: setCookie_def worldly_def add_cookie_def go_simps split: prod.splits)
      with run r1 r2 r3 y t a Inr c have "x = Inr (state, nonce, verifier, EncodeToString (sha256 verifier))" "s' = s6"
        by (simp_all add: beginPending_def go_simps Let_def)
      moreover have "sv_pending s6 = sv_pending s5" using same_pendingD [OF same_pending_calls(1) c] .
      ultimately have "pending_bounded s' = pending_bounded s5" "waiting k s' = waiting k s5" "x = Inr (state, nonce, verifier, EncodeToString (sha256 verifier))"
        by (simp_all add: pending_bounded_def waiting_def)
      with add Inr show ?thesis by (simp split: if_splits)
    qed
  qed
qed

lemma consumePending_effect:
  assumes run: "consumePending m r state s = (x, s')" and b: "pending_bounded s"
  shows "pending_bounded s' \<and> waiting k s' + (case x of Inr p \<Rightarrow> if state = k then 1 else 0 | Inl e \<Rightarrow> 0) \<le> waiting k s"
proof -
  from run consider "sv_pending s' = sv_pending s" "\<exists>e. x = Inl e"
    | "sv_pending s' = AList.delete state (sv_pending s)" "\<exists>e. x = Inl e"
    | "sv_pending s' = AList.delete state (sv_pending s)" "map_of (sv_pending s) state \<noteq> None"
    by (auto simp: consumePending_def go_simps worldly_def split: option.splits sum.splits prod.splits if_splits)
  then show ?thesis
  proof cases
    case 1
    with b show ?thesis by (auto simp: pending_bounded_def waiting_def)
  next
    case 2
    with b order_trans [OF AList.length_delete_le] show ?thesis
      by (auto simp: pending_bounded_def waiting_def keys_delete AList.distinct_delete)
  next
    case 3
    from 3(2) have "state \<in> fst ` set (sv_pending s)" by (simp add: map_of_eq_None_iff)
    with 3(1) b order_trans [OF AList.length_delete_le] show ?thesis
      by (auto simp: pending_bounded_def waiting_def keys_delete AList.distinct_delete split: sum.splits)
  qed
qed

lemma web_step_pending:
  assumes b: "pending_bounded s"
  shows "pending_bounded (web_step u h call s)
    \<and> waiting k (web_step u h call s) + (if consumes h call (s\<lparr>sv_wrote := False\<rparr>) = Some k then 1 else 0)
        \<le> waiting k s + (if begins h call (s\<lparr>sv_wrote := False\<rparr>) = Some k then 1 else 0)"
proof -
  let ?m = "hd_sessions h" and ?s = "s\<lparr>sv_wrote := False\<rparr>"
  have bs: "pending_bounded ?s" "waiting k ?s = waiting k s" using b by (simp_all add: pending_bounded_def waiting_def)
  have as: "pending_bounded t = pending_bounded t'" "waiting k t = waiting k t'" if "sv_pending t = sv_pending t'" for t t' :: "'a web_state"
    using that by (simp_all add: pending_bounded_def waiting_def)
  have keep: ?thesis if "same_pending (web_exec u h call)" "consumes h call ?s = None"
  proof -
    from that(1) have "sv_pending (web_step u h call s) = sv_pending s" by (simp add: same_pending_def web_step_def)
    from as [OF this] b that(2) show ?thesis by simp
  qed
  show ?thesis
  proof (cases call)
    case (LoginCall r)
    show ?thesis
    proof (cases "rq_Method r = ''GET''")
      case True
      obtain x s1 where run: "beginPending ?m ?s = (x, s1)" by force
      have "sv_pending (web_step u h call s) = sv_pending s1"
        using run True LoginCall by (auto simp: web_step_def web_login_def go_simps respond_def split: sum.splits)
      from as [OF this] beginPending_effect [OF run bs(1), of k] bs(2) show ?thesis
        using run True LoginCall by (auto simp: begins_def consumes_def split: sum.splits if_splits)
    next
      case False
      then show ?thesis using LoginCall by (intro keep) (auto simp: web_login_def consumes_def intro: pending_rules)
    qed
  next
    case (CallbackCall r)
    show ?thesis
    proof (cases "rq_Method r = ''GET''")
      case True
      obtain x s1 where run: "consumePending ?m r (rq_Query r ''state'') ?s = (x, s1)" by force
      let ?rest = "\<lambda>p. bindG (if TrimSpace (rq_Query r ''code'') = [] then respond (HttpError 400 ''authentication failed'')
          else exchange_code h p (TrimSpace (rq_Query r ''code''))) (\<lambda>x. bindG (clearPending ?m) (\<lambda>_. ret x))"
      have rest: "same_pending (?rest p)" for p
        unfolding exchange_code_def clearPending_def by (intro pending_rules)
      have "web_exec u h call ?s = (case x of Inl e \<Rightarrow> respond (HttpError 400 ''invalid authentication state'') s1 | Inr p \<Rightarrow> ?rest p s1)"
        using run True CallbackCall by (simp add: web_callback_def catchG_def Let_def split: sum.splits)
      then have "sv_pending (web_step u h call s) = sv_pending s1"
        using rest by (simp add: web_step_def same_pending_def respond_def split: sum.splits)
      from as [OF this] consumePending_effect [OF run bs(1), of k] bs(2) show ?thesis
        using run True CallbackCall by (auto simp: begins_def consumes_def split: sum.splits if_splits)
    next
      case False
      then show ?thesis using CallbackCall by (intro keep) (auto simp: web_callback_def consumes_def intro: pending_rules)
    qed
  next
    case (LogoutCall r)
    have "same_pending (web_logout h r)" unfolding web_logout_def ClearSession_def by (intro pending_rules)
    with LogoutCall show ?thesis by (intro keep) (simp_all add: consumes_def)
  next
    case (SessionCall r)
    have "same_pending (web_session h r)" unfolding web_session_def by (intro pending_rules)
    with SessionCall show ?thesis by (intro keep) (simp_all add: consumes_def)
  next
    case (MiddlewareCall r)
    have "same_pending (web_Middleware u h r)"
      unfolding web_Middleware_def SessionMiddleware_def csrf_Middleware_def by (intro pending_rules)
    with MiddlewareCall show ?thesis by (intro keep) (simp_all add: consumes_def)
  qed
qed

text \<open>
  C16: A login is used at most once. Over any requests, from a manager without pending logins,
  at most as many callbacks succeed with a state as logins have begun with it, and at most 1024
  logins are pending, each under its own state.
\<close>

theorem login_once:
  assumes "sv_pending s0 = []" "s = web_run u h calls s0"
  shows "counted u h consumes k calls s0 \<le> counted u h begins k calls s0
    \<and> length (sv_pending s) \<le> 1024 \<and> distinct (map fst (sv_pending s))"
proof -
  have "pending_bounded t \<Longrightarrow> pending_bounded (web_run u h calls t)
      \<and> waiting k (web_run u h calls t) + counted u h consumes k calls t \<le> waiting k t + counted u h begins k calls t" for t
  proof (induction calls arbitrary: t)
    case Nil
    then show ?case by (simp add: web_run_def)
  next
    case (Cons call calls)
    note step = web_step_pending [OF Cons.prems, of u h call k]
    from Cons.IH [of "web_step u h call t"] step show ?case by (auto simp: web_run_def)
  qed
  from this [of s0] assms show ?thesis
    by (simp add: pending_bounded_def waiting_def maxPendingStates_def)
qed

section \<open>Cross-site requests\<close>


section \<open>A login\<close>

definition sample_instant :: time where
  "sample_instant = 62135596800 * 1000000000"

definition sample_manager :: "unit SessionManager" where
  "sample_manager = \<lparr>sm_secret = replicate 32 (CHR ''k''), sm_ttl = 3600 * 1000000000, sm_secure = True,
     sm_now = (\<lambda>w. (sample_instant, w)), sm_rand = (\<lambda>n w. (Inr (replicate n (CHR ''a'')), w)), sm_clock = (\<lambda>w. (sample_instant, w))\<rparr>"

definition sample_user :: Principal where
  "sample_user = \<lparr>p_Kind = PrincipalUser, p_Issuer = ''i'', p_Subject = ''u'', p_Audience = [''a''], p_Email = [], p_EmailVerified = False,
     p_Name = [], p_PreferredUsername = [], p_Groups = [], p_Scopes = []\<rparr>"

definition sample_handler :: "unit Handler" where
  "sample_handler =
     \<lparr>hd_cfg = \<lparr>wc_AuthorizationEndpoint = ''https://idp/auth'', wc_ClientID = ''c'', wc_RedirectURL = ''https://hub/auth/callback'',
        wc_SuccessRedirectURL = ''/'', wc_PostLogoutRedirectURL = [], wc_Scope = ''openid'', wc_AllowInsecureEndpoints = False,
        wc_SecureCookies = True, wc_SessionTTL = 3600 * 1000000000\<rparr>,
      hd_sessions = sample_manager, hd_exchange = (\<lambda>_ _ _ w. (Inr sample_user, w))\<rparr>"

definition sample_web :: "unit web_state" where
  "sample_web = \<lparr>sv_pending = [], sv_cookies = [], sv_wrote = False, sv_world = ()\<rparr>"

definition plain_request :: web_request where
  "plain_request = \<lparr>rq_Cookie = (\<lambda>_. None), rq_Method = ''GET'', rq_Host = ''hub'', rq_Header = (\<lambda>_. []), rq_Query = (\<lambda>_. []), rq_Principal = None\<rparr>"

definition sample_payload :: sessionCookie where
  "sample_payload = session_payload sample_user (sample_instant + 3600 * 1000000000)"

lemma sample_payload: "sample_payload = \<lparr>sc_Kind = ''user'', sc_Issuer = ''i'', sc_Subject = ''u'', sc_Audience = [''a''], sc_ExpiresAt = 3600\<rparr>"
  by (simp add: sample_payload_def session_payload_def sample_user_def unix_seconds_def sample_instant_def)

lemma sample_payload_small: "length (marshal (sessionCookie_json sample_payload)) \<le> 4096"
  unfolding sample_payload by code_simp

lemma sample_expiry: "int64 (unix_seconds (sample_instant + 3600 * 1000000000))"
  "unix_seconds sample_instant < unix_seconds (sample_instant + 3600 * 1000000000)"
  by (simp_all add: int64_def unix_seconds_def sample_instant_def)

lemma sample_user_valid: "list_all utf8_valid (p_Issuer sample_user # p_Subject sample_user # p_Audience sample_user)"
  by code_simp

definition session_cookie_of :: set_cookie where
  "session_cookie_of = \<lparr>ck_Name = SessionCookieName, ck_Value = seal sample_manager ''session'' (sessionCookie_json sample_payload),
     ck_Expires = Some (sample_instant + 3600 * 1000000000), ck_MaxAge = 3600, ck_HttpOnly = True, ck_Secure = True\<rparr>"

lemma sample_SetSession:
  "\<not> sv_wrote s \<Longrightarrow> SetSession sample_manager sample_user s = (Inr (), s\<lparr>sv_cookies := sv_cookies s @ [session_cookie_of]\<rparr>)"
  by (simp add: SetSession_def setCookie_def add_cookie_def worldly_def go_simps sample_manager_def session_cookie_of_def sample_payload_def Let_def)
     (simp add: sample_user_def blank_def trim_simps)


definition sample_state :: string where
  "sample_state = EncodeToString (replicate 32 (CHR ''a''))"

lemma sample_state_text: "sample_state \<noteq> []" "utf8_valid sample_state"
  unfolding sample_state_def by code_simp+

definition sample_pending :: pendingCookie where
  "sample_pending = \<lparr>pc_State = sample_state, pc_ExpiresAt = 600\<rparr>"

lemma sample_pending_small: "length (marshal (pendingCookie_json sample_pending)) \<le> 4096"
  unfolding sample_pending_def sample_state_def by code_simp

definition pending_cookie_of :: set_cookie where
  "pending_cookie_of = \<lparr>ck_Name = PendingCookieName, ck_Value = seal sample_manager ''oidc-state'' (pendingCookie_json sample_pending),
     ck_Expires = Some (sample_instant + 600 * 1000000000), ck_MaxAge = 600, ck_HttpOnly = True, ck_Secure = True\<rparr>"

definition sample_login :: pendingState where
  "sample_login = \<lparr>ps_nonce = sample_state, ps_codeVerifier = sample_state, ps_expiresAt = sample_instant + 600 * 1000000000\<rparr>"

lemma sample_begin:
  "beginPending sample_manager sample_web = (Inr (sample_state, sample_state, sample_state, EncodeToString (sha256 sample_state)),
     sample_web\<lparr>sv_pending := [(sample_state, sample_login)], sv_cookies := [pending_cookie_of]\<rparr>)"
proof -
  have u: "unix_seconds (sample_instant + 600000000000) = 600" by (simp add: unix_seconds_def sample_instant_def)
  have r: "randomURLValue sample_manager 32 s = (Inr sample_state, s)" for s
    by (simp add: randomURLValue_def worldly_def go_simps sample_manager_def sample_state_def)
  have n: "worldly (sm_now sample_manager) s = (Inr sample_instant, s)" for s by (simp add: worldly_def sample_manager_def)
  have t: "pendingTTL sample_manager = 600 * 1000000000" by (simp add: pendingTTL_def sample_manager_def defaultPendingTTL_def)
  have c: "setCookie sample_manager nm v e b s = (Inr (), if sv_wrote s then s else s\<lparr>sv_cookies := sv_cookies s @ [\<lparr>ck_Name = nm, ck_Value = v,
      ck_Expires = Some e, ck_MaxAge = max 1 ((e - sample_instant) div 1000000000), ck_HttpOnly = b, ck_Secure = True\<rparr>]\<rparr>)" for nm v e b s
    by (simp add: setCookie_def worldly_def add_cookie_def go_simps sample_manager_def)
  show ?thesis
    by (simp add: beginPending_def go_simps wrapG_def r n t c u add_pending_def live_states_def maxPendingStates_def Let_def sample_web_def
        pending_cookie_of_def sample_pending_def sample_login_def)
qed

definition callback_request :: web_request where
  "callback_request = plain_request\<lparr>rq_Cookie := [PendingCookieName \<mapsto> ck_Value pending_cookie_of],
     rq_Query := (\<lambda>k. if k = ''state'' then sample_state else ''c'')\<rparr>"

lemma sample_consume:
  assumes "sv_pending s = [(sample_state, sample_login)]"
  shows "consumePending sample_manager callback_request sample_state s = (Inr sample_login, s\<lparr>sv_pending := []\<rparr>)"
proof -
  have d: "encodable (pendingCookie_json sample_pending) \<and> decode_pending (marshal (pendingCookie_json sample_pending)) = Some sample_pending"
    by (rule decode_pending_json) (simp_all add: sample_pending_def sample_state_text int64_def)
  with unseal_seal [OF _ sample_pending_small, of sample_manager "''oidc-state''" decode_pending]
  have u: "unseal sample_manager ''oidc-state'' (ck_Value pending_cookie_of) decode_pending = Inr sample_pending"
    by (simp add: pending_cookie_of_def)
  have n: "worldly (sm_now sample_manager) t = (Inr sample_instant, t)" for t by (simp add: worldly_def sample_manager_def)
  have z: "\<not> 600 \<le> unix_seconds sample_instant" by (simp add: unix_seconds_def sample_instant_def)
  show ?thesis
    using assms z by (simp add: consumePending_def callback_request_def u sample_pending_def sample_state_text go_simps n sample_login_def)
qed

lemma sample_c: "TrimSpace ''c'' = ''c''"
  by code_simp

lemma sample_web_run:
  "web_run u sample_handler [LoginCall plain_request, CallbackCall callback_request] sample_web
     = sample_web\<lparr>sv_cookies := [pending_cookie_of, session_cookie_of], sv_wrote := True\<rparr>"
proof -
  let ?s1 = "sample_web\<lparr>sv_pending := [(sample_state, sample_login)], sv_cookies := [pending_cookie_of], sv_wrote := True\<rparr>"
  have m: "hd_sessions sample_handler = sample_manager" by (simp add: sample_handler_def)
  have w: "sample_web\<lparr>sv_wrote := False\<rparr> = sample_web" by (simp add: sample_web_def)
  have s1: "web_step u sample_handler (LoginCall plain_request) sample_web = ?s1"
    by (simp add: web_step_def web_login_def plain_request_def go_simps m w sample_begin respond_def)
  have e: "hd_exchange sample_handler c v n w = (Inr sample_user, w)" for c v n w by (simp add: sample_handler_def)
  have k: "p_Kind sample_user = PrincipalUser" "p_Issuer sample_user \<noteq> []" "p_Subject sample_user \<noteq> []" by (simp_all add: sample_user_def)
  have q: "rq_Method callback_request = ''GET''" "rq_Query callback_request ''state'' = sample_state" "rq_Query callback_request ''code'' = ''c''"
    by (simp_all add: callback_request_def plain_request_def)
  have "web_step u sample_handler (CallbackCall callback_request) ?s1
      = sample_web\<lparr>sv_cookies := [pending_cookie_of, session_cookie_of], sv_wrote := True\<rparr>"
    using sample_consume [of "?s1\<lparr>sv_wrote := False\<rparr>"]
    by (simp add: web_step_def web_callback_def go_simps m q exchange_code_def worldly_def e k sample_SetSession respond_def
        clearPending_def clearCookie_def add_cookie_def Let_def sample_c sample_web_def)
  with s1 show ?thesis by (simp add: web_run_def)
qed


theorem login_once_witness:
  "counted (\<lambda>_. None) sample_handler consumes sample_state
       [LoginCall plain_request, CallbackCall callback_request, CallbackCall callback_request] sample_web \<le> 1
     \<and> consumes sample_handler (CallbackCall callback_request)
         (sample_web\<lparr>sv_pending := [(sample_state, sample_login)]\<rparr>) = Some sample_state"
proof -
  let ?calls = "[LoginCall plain_request, CallbackCall callback_request, CallbackCall callback_request]"
  have m: "hd_sessions sample_handler = sample_manager" by (simp add: sample_handler_def)
  have w: "sample_web\<lparr>sv_wrote := False\<rparr> = sample_web" by (simp add: sample_web_def)
  have "rq_Method plain_request = ''GET''" by (simp add: plain_request_def)
  then have "counted (\<lambda>_. None) sample_handler begins sample_state ?calls sample_web = 1"
    by (simp add: begins_def m w sample_begin)
  moreover have "rq_Method callback_request = ''GET''" "rq_Query callback_request ''state'' = sample_state"
    by (simp_all add: callback_request_def plain_request_def)
  then have "consumes sample_handler (CallbackCall callback_request) (sample_web\<lparr>sv_pending := [(sample_state, sample_login)]\<rparr>) = Some sample_state"
    by (simp add: consumes_def m sample_consume)
  ultimately show ?thesis
    using login_once [of sample_web _ "\<lambda>_. None" sample_handler ?calls sample_state, OF _ refl] by (simp add: sample_web_def)
qed

definition sample_token :: csrfCookie where
  "sample_token = \<lparr>cc_Token = ''t'', cc_ExpiresAt = 3600\<rparr>"

definition sample_post :: web_request where
  "sample_post = plain_request\<lparr>rq_Method := ''POST'', rq_Header := (\<lambda>h. if h = ''X-CSRF-Token'' then ''t'' else []),
     rq_Cookie := [CSRFCookieName \<mapsto> seal sample_manager ''csrf'' (csrfCookie_json sample_token)]\<rparr>"


end
