(* ===== verification/Compatibility.thy ===== *)
theory Compatibility
  imports Schemas "HOL-Library.Multiset" "HOL-Library.Product_Lexorder"
begin

text \<open>
  \<open>schema/compatibility.go\<close>: does a candidate schema accept what the published one accepts? The
  comparison of two documents, and what it is worth: a semantics of the keywords it understands,
  for which a compatible report is sound where the candidate declares no further properties and
  the schemas of properties are objects, and a counterexample where it does.

  A Go map is visited in any order and \<open>sort.Slice\<close> is not stable, so the order of changes with
  the same path and kind is not determined: \<open>arrange\<close> stands for both.
\<close>

section \<open>Changes\<close>

record CompatibilityChange =
  ch_Path :: string
  ch_Kind :: string
  ch_Message :: string

record CompatibilityReport =
  cr_Compatible :: bool
  cr_Changes :: "CompatibilityChange list"

definition addChange :: "string \<Rightarrow> string \<Rightarrow> string \<Rightarrow> CompatibilityChange" where
  "addChange path kind message = \<lparr>ch_Path = path, ch_Kind = kind, ch_Message = message\<rparr>"

text \<open>A member of a Go map of type \<open>map[string]interface{}\<close>: absent and \<open>null\<close> are both \<open>nil\<close>.\<close>

definition member :: "(string \<times> json) list \<Rightarrow> string \<Rightarrow> json" where
  "member kvs k = (case map_of kvs k of None \<Rightarrow> JNull | Some v \<Rightarrow> v)"

definition objectValue :: "json \<Rightarrow> (string \<times> json) list" where
  "objectValue v = (case v of JObject kvs \<Rightarrow> kvs | _ \<Rightarrow> [])"

fun json_strings :: "json list \<Rightarrow> string list" where
  "json_strings [] = []"
| "json_strings (v # vs) = (case v of JString s \<Rightarrow> s # json_strings vs | _ \<Rightarrow> json_strings vs)"

definition stringSet :: "json \<Rightarrow> string list" where
  "stringSet v = (case v of JArray vs \<Rightarrow> remdups (json_strings vs) | _ \<Rightarrow> [])"

definition typeSet :: "json \<Rightarrow> string list" where
  "typeSet v = (case v of JString s \<Rightarrow> [s] | JArray vs \<Rightarrow> remdups (json_strings vs) | _ \<Rightarrow> [])"

definition TrimSuffix :: "string \<Rightarrow> string \<Rightarrow> string" where
  "TrimSuffix s suffix = (if HasSuffix s suffix then take (length s - length suffix) s else s)"

definition childPath :: "string \<Rightarrow> string \<Rightarrow> string" where
  "childPath parent child = TrimSuffix parent ''.'' @ ''.properties.'' @ child"

text \<open>\<open>quote\<close> is the verb \<open>%q\<close>.\<close>

definition accepts_type :: "string list \<Rightarrow> string \<Rightarrow> bool" where
  "accepts_type newTypes oldType \<longleftrightarrow> oldType \<in> set newTypes \<or> oldType = ''integer'' \<and> ''number'' \<in> set newTypes"

definition compareTypes :: "(string \<Rightarrow> string) \<Rightarrow> string \<Rightarrow> json \<Rightarrow> json \<Rightarrow> CompatibilityChange list" where
  "compareTypes quote path oldRaw newRaw =
     (let oldTypes = typeSet oldRaw; newTypes = typeSet newRaw
      in if oldTypes = [] then
           (if newTypes \<noteq> [] then [addChange path ''type-narrowed'' ''candidate adds a type constraint''] else [])
         else if newTypes = [] then []
         else map (\<lambda>t. addChange path ''type-narrowed'' (''candidate no longer accepts type '' @ quote t))
                (filter (\<lambda>t. \<not> accepts_type newTypes t) oldTypes))"

definition compareEnum :: "string \<Rightarrow> json \<Rightarrow> json \<Rightarrow> CompatibilityChange list" where
  "compareEnum path oldRaw newRaw =
     (case oldRaw of
        JArray oldEnum \<Rightarrow>
          (case newRaw of
             JArray newEnum \<Rightarrow>
               map (\<lambda>v. addChange path ''enum-narrowed'' (''candidate removes enum value '' @ marshal v))
                 (filter (\<lambda>v. v \<notin> set newEnum) oldEnum)
           | _ \<Rightarrow> [])
      | _ \<Rightarrow> (case newRaw of JArray _ \<Rightarrow> [addChange path ''enum-narrowed'' ''candidate adds an enum constraint''] | _ \<Rightarrow> []))"

definition ignored_keywords :: "string list" where
  "ignored_keywords = [''$schema'', ''$id'', ''title'', ''description'', ''default'', ''examples'', ''type'', ''enum'', ''required'', ''properties'']"

definition constraint_keys :: "(string \<times> json) list \<Rightarrow> (string \<times> json) list \<Rightarrow> string list" where
  "constraint_keys oldSchema newSchema =
     remdups (filter (\<lambda>k. k \<notin> set ignored_keywords) (map fst oldSchema @ map fst newSchema))"

definition compareOtherConstraints ::
  "(string \<Rightarrow> string) \<Rightarrow> string \<Rightarrow> (string \<times> json) list \<Rightarrow> (string \<times> json) list \<Rightarrow> CompatibilityChange list" where
  "compareOtherConstraints quote path oldSchema newSchema =
     map (\<lambda>k. addChange path ''constraint-changed'' (''constraint '' @ quote k @ '' changed and requires a new major version''))
       (filter (\<lambda>k. member oldSchema k \<noteq> member newSchema k) (constraint_keys oldSchema newSchema))"

definition compare_required :: "string \<Rightarrow> (string \<times> json) list \<Rightarrow> (string \<times> json) list \<Rightarrow> CompatibilityChange list" where
  "compare_required path oldSchema newSchema =
     map (\<lambda>name. addChange (childPath path name) ''required-added'' ''candidate requires a field that was previously optional or absent'')
       (filter (\<lambda>name. name \<notin> set (stringSet (member oldSchema ''required''))) (stringSet (member newSchema ''required'')))"

lemma fold_max_start: "n \<le> fold max xs (n :: nat)"
proof (induction xs arbitrary: n)
  case (Cons x xs)
  from Cons.IH [of "max x n"] show ?case by simp
qed simp

lemma fold_max_le: "x \<in> set xs \<Longrightarrow> x \<le> fold max xs (n :: nat)"
proof (induction xs arbitrary: n)
  case (Cons y xs)
  then show ?case using fold_max_start [of "max y n" xs] by auto
qed simp

lemma depth_member: "(k, v) \<in> set kvs \<Longrightarrow> json_depth v < json_depth (JObject kvs)"
  using fold_max_le [of "json_depth v" "map (\<lambda>kv. json_depth (snd kv)) kvs" 0] by force

lemma depth_property:
  assumes "(name, sub) \<in> set (objectValue (member kvs k))"
  shows "json_depth sub < json_depth (JObject kvs)"
proof -
  from assms obtain ps where ps: "member kvs k = JObject ps" by (cases "member kvs k") (auto simp: objectValue_def)
  then have "(k, JObject ps) \<in> set kvs" by (auto simp: member_def dest: map_of_SomeD split: option.splits)
  from depth_member [OF this] depth_member [of name sub ps] ps assms show ?thesis by (simp add: objectValue_def del: json_depth.simps)
qed

function compareSchema ::
  "(string \<Rightarrow> string) \<Rightarrow> string \<Rightarrow> (string \<times> json) list \<Rightarrow> (string \<times> json) list \<Rightarrow> CompatibilityChange list" where
  "compareSchema quote path oldSchema newSchema =
     compareTypes quote path (member oldSchema ''type'') (member newSchema ''type'')
     @ compareEnum path (member oldSchema ''enum'') (member newSchema ''enum'')
     @ compareOtherConstraints quote path oldSchema newSchema
     @ compare_required path oldSchema newSchema
     @ concat (map (\<lambda>(name, oldValue).
         case map_of (objectValue (member newSchema ''properties'')) name of
           None \<Rightarrow> [addChange (childPath path name) ''property-removed'' ''published property is missing from candidate'']
         | Some newValue \<Rightarrow>
             (case (oldValue, newValue) of
                (JObject oldProperty, JObject newProperty) \<Rightarrow> compareSchema quote (childPath path name) oldProperty newProperty
              | _ \<Rightarrow> []))
         (objectValue (member oldSchema ''properties'')))"
  by pat_completeness auto
termination
  by (relation "measure (\<lambda>(quote, path, oldSchema, newSchema). json_depth (JObject oldSchema))")
    (auto dest: depth_property simp del: json_depth.simps)

declare compareSchema.simps [simp del]

definition CheckBackwardCompatibility ::
  "'v schema_library \<Rightarrow> (string \<Rightarrow> string) \<Rightarrow> (CompatibilityChange list \<Rightarrow> CompatibilityChange list) \<Rightarrow> string \<Rightarrow> string
     \<Rightarrow> goerr + CompatibilityReport" where
  "CheckBackwardCompatibility lib quote arrange published candidate =
     (case CompileValidator lib ''urn:record-hub:compatibility:published'' published of
        Inl e \<Rightarrow> Inl (Wrap ''published schema'' e)
      | Inr _ \<Rightarrow>
          (case CompileValidator lib ''urn:record-hub:compatibility:candidate'' candidate of
             Inl e \<Rightarrow> Inl (Wrap ''candidate schema'' e)
           | Inr _ \<Rightarrow>
               (case (decodeJSON published, decodeJSON candidate) of
                  (Inr (JObject oldSchema), Inr (JObject newSchema)) \<Rightarrow>
                    (let changes = compareSchema quote ''$'' oldSchema newSchema
                     in Inr \<lparr>cr_Compatible = (changes = []), cr_Changes = arrange changes\<rparr>)
                | _ \<Rightarrow> Inl (Anon ''interface conversion''))))"

text \<open>The type assertions hold for what the validator compiled.\<close>

lemma CompileValidator_object:
  "CompileValidator lib i s = Inr v \<Longrightarrow> \<exists>kvs. decodeJSON s = Inr (JObject kvs)"
  by (auto simp: CompileValidator_def split: sum.splits json.splits)

definition arranges :: "(CompatibilityChange list \<Rightarrow> CompatibilityChange list) \<Rightarrow> bool" where
  "arranges arrange \<longleftrightarrow> (\<forall>cs. mset (arrange cs) = mset cs
     \<and> sorted_wrt (\<lambda>a b. ch_Path a < ch_Path b \<or> ch_Path a = ch_Path b \<and> ch_Kind a \<le> ch_Kind b) (arrange cs))"

section \<open>What a report is worth\<close>

text \<open>
  A semantics of the keywords the comparison reads: \<open>equal\<close> compares an instance with an element
  of an enumeration, \<open>whole\<close> tells the numbers that are integers, and \<open>other\<close> what all further
  keywords of a schema accept, given its property names.
\<close>

record semantics =
  sem_equal :: "json \<Rightarrow> json \<Rightarrow> bool"
  sem_whole :: "string \<Rightarrow> bool"
  sem_other :: "(string \<Rightarrow> json) \<Rightarrow> string set \<Rightarrow> json \<Rightarrow> bool"

fun has_type :: "(string \<Rightarrow> bool) \<Rightarrow> string \<Rightarrow> json \<Rightarrow> bool" where
  "has_type whole t JNull = (t = ''null'')"
| "has_type whole t (JBool _) = (t = ''boolean'')"
| "has_type whole t (JNumber n) = (t = ''number'' \<or> t = ''integer'' \<and> whole n)"
| "has_type whole t (JString _) = (t = ''string'')"
| "has_type whole t (JArray _) = (t = ''array'')"
| "has_type whole t (JObject _) = (t = ''object'')"

definition other_keywords :: "(string \<times> json) list \<Rightarrow> string \<Rightarrow> json" where
  "other_keywords kvs k = (if k \<in> set ignored_keywords then JNull else member kvs k)"

definition property_names :: "(string \<times> json) list \<Rightarrow> string set" where
  "property_names kvs = fst ` set (objectValue (member kvs ''properties''))"

definition accepts_here :: "semantics \<Rightarrow> (string \<times> json) list \<Rightarrow> json \<Rightarrow> bool" where
  "accepts_here sem kvs v \<longleftrightarrow>
     (typeSet (member kvs ''type'') = [] \<or> list_ex (\<lambda>t. has_type (sem_whole sem) t v) (typeSet (member kvs ''type'')))
     \<and> (case member kvs ''enum'' of JArray es \<Rightarrow> list_ex (\<lambda>e. sem_equal sem e v) es | _ \<Rightarrow> True)
     \<and> (case v of JObject members \<Rightarrow> list_all (\<lambda>name. name \<in> fst ` set members) (stringSet (member kvs ''required'')) | _ \<Rightarrow> True)
     \<and> sem_other sem (other_keywords kvs) (property_names kvs) v"

function accepts :: "semantics \<Rightarrow> json \<Rightarrow> json \<Rightarrow> bool" where
  "accepts sem (JBool b) v = b"
| "accepts sem (JObject kvs) v =
     (accepts_here sem kvs v
      \<and> (case v of
           JObject members \<Rightarrow> list_all (\<lambda>(name, x).
             case map_of (objectValue (member kvs ''properties'')) name of None \<Rightarrow> True | Some sub \<Rightarrow> accepts sem sub x) members
         | _ \<Rightarrow> True))"
| "accepts sem JNull v = False"
| "accepts sem (JNumber n) v = False"
| "accepts sem (JString s) v = False"
| "accepts sem (JArray vs) v = False"
  by pat_completeness auto
termination
  by (relation "measure (\<lambda>(sem, schema, v). json_depth schema)") (auto dest: map_of_SomeD depth_property simp del: json_depth.simps(2))

declare accepts.simps(2) [simp del]

text \<open>The candidate declares no property the published schema does not have, and where a property
  is a boolean it is the same boolean.\<close>

function same_shape :: "json \<Rightarrow> json \<Rightarrow> bool" where
  "same_shape old new =
     (case (old, new) of
        (JObject oldSchema, JObject newSchema) \<Rightarrow>
          property_names newSchema \<subseteq> property_names oldSchema
          \<and> list_all (\<lambda>(name, sub). case map_of (objectValue (member newSchema ''properties'')) name of
                None \<Rightarrow> True | Some sub' \<Rightarrow> same_shape sub sub') (objectValue (member oldSchema ''properties''))
      | _ \<Rightarrow> old = new)"
  by pat_completeness auto
termination
  by (relation "measure (\<lambda>(old, new). json_depth old)") (auto dest: depth_property simp del: json_depth.simps(2))

declare same_shape.simps [simp del]

lemma types_kept:
  assumes "compareTypes quote path old new = []" "typeSet old = [] \<or> list_ex (\<lambda>t. has_type whole t v) (typeSet old)"
  shows "typeSet new = [] \<or> list_ex (\<lambda>t. has_type whole t v) (typeSet new)"
proof (cases "typeSet old = [] \<or> typeSet new = []")
  case False
  with assms(1) have all: "\<forall>t \<in> set (typeSet old). accepts_type (typeSet new) t"
    by (auto simp: compareTypes_def filter_empty_conv)
  from assms(2) False obtain t where t: "t \<in> set (typeSet old)" "has_type whole t v" by (auto simp: list_ex_iff)
  then have "t \<in> set (typeSet new) \<or> ''number'' \<in> set (typeSet new) \<and> has_type whole ''number'' v"
    using all by (cases v) (auto simp: accepts_type_def)
  with t show ?thesis by (auto simp: list_ex_iff)
qed (use assms in \<open>auto simp: compareTypes_def split: if_splits\<close>)

lemma enum_kept:
  assumes "compareEnum path old new = []" "case old of JArray es \<Rightarrow> list_ex P es | _ \<Rightarrow> True"
  shows "case new of JArray es \<Rightarrow> list_ex P es | _ \<Rightarrow> True"
  using assms by (cases old; cases new) (auto simp: compareEnum_def filter_empty_conv list_ex_iff)

lemma others_kept: "compareOtherConstraints quote path old new = [] \<Longrightarrow> other_keywords old = other_keywords new"
proof (rule ext)
  fix k assume "compareOtherConstraints quote path old new = []"
  then have "\<forall>k \<in> set (constraint_keys old new). member old k = member new k"
    by (auto simp: compareOtherConstraints_def filter_empty_conv)
  moreover have "member old k = member new k" if "k \<notin> set (constraint_keys old new)" "k \<notin> set ignored_keywords"
    using that by (auto simp: constraint_keys_def member_def map_of_eq_None_iff split: option.splits dest: map_of_SomeD)
      (metis fst_conv image_eqI map_of_SomeD)+
  ultimately show "other_keywords old k = other_keywords new k" by (auto simp: other_keywords_def)
qed

lemma required_kept:
  "compare_required path old new = [] \<Longrightarrow> set (stringSet (member new ''required'')) \<subseteq> set (stringSet (member old ''required''))"
  by (auto simp: compare_required_def filter_empty_conv)

text \<open>Sound, where the shapes agree.\<close>

lemma compareSchema_sound:
  assumes "compareSchema quote path old new = []" "same_shape (JObject old) (JObject new)" "accepts sem (JObject old) v"
  shows "accepts sem (JObject new) v"
  using assms
proof (induction quote path old new arbitrary: v rule: compareSchema.induct)
  case (1 quote path old new)
  let ?op = "objectValue (member old ''properties'')" and ?np = "objectValue (member new ''properties'')"
  note parts = "1.prems"(1) [unfolded compareSchema.simps [of quote path old new] append_is_Nil_conv]
  have shape: "property_names new \<subseteq> property_names old"
    "\<And>name sub sub'. (name, sub) \<in> set ?op \<Longrightarrow> map_of ?np name = Some sub' \<Longrightarrow> same_shape sub sub'"
    using "1.prems"(2) by (force simp: same_shape.simps [of "JObject old"] list_all_iff)+
  have old_here: "accepts_here sem old v"
    and old_below: "\<And>ms name x sub. v = JObject ms \<Longrightarrow> (name, x) \<in> set ms \<Longrightarrow> map_of ?op name = Some sub \<Longrightarrow> accepts sem sub x"
    using "1.prems"(3) by (force simp: accepts.simps list_all_iff)+
  from parts have each: "\<And>p. p \<in> set ?op \<Longrightarrow> (\<lambda>(name, oldValue).
         case map_of ?np name of
           None \<Rightarrow> [addChange (childPath path name) ''property-removed'' ''published property is missing from candidate'']
         | Some newValue \<Rightarrow>
             (case (oldValue, newValue) of
                (JObject oldProperty, JObject newProperty) \<Rightarrow> compareSchema quote (childPath path name) oldProperty newProperty
              | _ \<Rightarrow> [])) p = []"
    by (simp only: concat_eq_Nil_conv set_map ball_simps)
  have kept: "map_of ?np name \<noteq> None" if "(name, sub) \<in> set ?op" for name sub
    using each [OF that] by (auto split: option.splits)
  then have names: "property_names new = property_names old"
    using shape(1) by (force simp: property_names_def map_of_eq_None_iff)
  have here: "accepts_here sem new v"
    using types_kept [of quote path "member old ''type''" "member new ''type''"] enum_kept [of path "member old ''enum''" "member new ''enum''"]
      others_kept [of quote path old new] required_kept [of path old new] parts old_here names
    unfolding accepts_here_def by (auto simp: list_all_iff split: json.splits)
  have below: "accepts sem sub' x"
    if v: "v = JObject ms" "(name, x) \<in> set ms" and n: "map_of ?np name = Some sub'" for ms name x sub'
  proof -
    from n shape(1) have "name \<in> fst ` set ?op" by (force simp: property_names_def dest: map_of_SomeD)
    then obtain sub where o: "map_of ?op name = Some sub" by (metis map_of_eq_None_iff not_Some_eq)
    then have mem: "(name, sub) \<in> set ?op" by (rule map_of_SomeD)
    note acc = old_below [OF v o] and sh = shape(2) [OF mem n]
    show ?thesis
    proof (cases "\<exists>a b. sub = JObject a \<and> sub' = JObject b")
      case True
      then obtain a b where ab: "sub = JObject a" "sub' = JObject b" by blast
      have "compareSchema quote (childPath path name) a b = []" using each [OF mem] n ab by simp
      from "1.IH" [OF mem [unfolded ab] refl n [unfolded ab] refl refl refl this sh [unfolded ab] acc [unfolded ab]] ab show ?thesis by simp
    next
      case False
      with sh have "sub = sub'" by (auto simp: same_shape.simps [of sub] split: json.splits)
      with acc show ?thesis by simp
    qed
  qed
  from here below show ?case by (auto simp: accepts.simps list_all_iff split: json.splits option.splits)
qed


text \<open>
  Without that proviso the report promises too much: an optional property the candidate adds is
  no change, and yet it may refuse what the published schema, which does not know it, accepted.
\<close>

definition open_schema :: "(string \<times> json) list" where
  "open_schema = [(''type'', JString ''object'')]"

definition closed_schema :: "(string \<times> json) list" where
  "closed_schema = [(''properties'', JObject [(''n'', JObject [(''type'', JString ''string'')])]), (''type'', JString ''object'')]"

lemma added_property_missed:
  "compareSchema quote ''$'' open_schema closed_schema = []
   \<and> (\<exists>sem v. accepts sem (JObject open_schema) v \<and> \<not> accepts sem (JObject closed_schema) v)"
proof
  show "compareSchema quote ''$'' open_schema closed_schema = []"
    by (simp add: compareSchema.simps open_schema_def closed_schema_def member_def compareTypes_def typeSet_def accepts_type_def
        compareEnum_def compareOtherConstraints_def constraint_keys_def ignored_keywords_def compare_required_def stringSet_def objectValue_def)
  let ?sem = "\<lparr>sem_equal = (=), sem_whole = (\<lambda>_. True), sem_other = (\<lambda>_ _ _. True)\<rparr>" and ?v = "JObject [(''n'', JNull)]"
  have "accepts ?sem (JObject open_schema) ?v \<and> \<not> accepts ?sem (JObject closed_schema) ?v"
    by (simp add: accepts.simps accepts_here_def open_schema_def closed_schema_def member_def typeSet_def stringSet_def objectValue_def)
  then show "\<exists>sem v. accepts sem (JObject open_schema) v \<and> \<not> accepts sem (JObject closed_schema) v" by blast
qed

definition sample_library :: "nat schema_library" where
  "sample_library = \<lparr>lib_compile = (\<lambda>_ _. Inr 0), lib_validate = (\<lambda>_ _. None)\<rparr>"

definition sample_published :: string where
  "sample_published = marshal (JObject [(''$schema'', JString Draft202012URI), (''type'', JString ''integer'')])"

definition sample_candidate :: string where
  "sample_candidate = marshal (JObject [(''$schema'', JString Draft202012URI), (''type'', JString ''number'')])"


lemma sample_decoded:
  "decodeJSON sample_published = Inr (JObject [(''$schema'', JString Draft202012URI), (''type'', JString ''integer'')])"
  "decodeJSON sample_candidate = Inr (JObject [(''$schema'', JString Draft202012URI), (''type'', JString ''number'')])"
  by code_simp+

definition sample_arrange :: "CompatibilityChange list \<Rightarrow> CompatibilityChange list" where
  "sample_arrange cs = sort_key (\<lambda>c. (ch_Path c, ch_Kind c)) cs"

lemma sample_arranges: "arranges sample_arrange"
  unfolding arranges_def
proof (intro allI conjI)
  fix cs
  have "sorted (map (\<lambda>c. (ch_Path c, ch_Kind c)) (sample_arrange cs))" by (simp add: sample_arrange_def)
  then have "sorted_wrt (\<lambda>a b. (ch_Path a, ch_Kind a) \<le> (ch_Path b, ch_Kind b)) (sample_arrange cs)"
    by (simp add: sorted_map)
  then show "sorted_wrt (\<lambda>a b. ch_Path a < ch_Path b \<or> ch_Path a = ch_Path b \<and> ch_Kind a \<le> ch_Kind b) (sample_arrange cs)"
    by (rule sorted_wrt_mono_rel [rotated]) auto
qed (simp add: sample_arrange_def)

lemma sample_report:
  "CheckBackwardCompatibility sample_library (\<lambda>s. s) sample_arrange sample_published sample_candidate
     = Inr \<lparr>cr_Compatible = True, cr_Changes = []\<rparr>"
proof -
  have "map_of [(''$schema'', JString Draft202012URI), (''type'', JString t)] ''$schema'' = Some (JString Draft202012URI)" for t by simp
  then have "CompileValidator sample_library i sample_published = Inr 0" "CompileValidator sample_library i sample_candidate = Inr 0"
    if "i \<noteq> []" for i
    using that by (simp_all add: CompileValidator_def sample_decoded sample_library_def)
  moreover have "compareSchema (\<lambda>s. s) ''$'' [(''$schema'', JString Draft202012URI), (''type'', JString ''integer'')]
    [(''$schema'', JString Draft202012URI), (''type'', JString ''number'')] = []"
    by (simp add: compareSchema.simps member_def compareTypes_def typeSet_def accepts_type_def
        compareEnum_def compareOtherConstraints_def constraint_keys_def ignored_keywords_def compare_required_def stringSet_def objectValue_def)
  ultimately show ?thesis
    by (simp add: CheckBackwardCompatibility_def sample_decoded sample_arrange_def)
qed


end
