(* ===== verification/Migration.thy ===== *)
theory Migration
  imports Compatibility SchemaRegistry
begin

text \<open>
  \<open>schema/migration.go\<close>, \<open>migration_receipt_repository.go\<close> and the migration plans of
  \<open>repository.go\<close>: a plan names two versions of a schema, the report on their compatibility and
  the state of its execution. The service creates a plan once per pair, mode and report, and
  cancels it under a version; the runner that would move it further is not part of the repository.
  \<open>plan_effect\<close> says what a call does, and the properties follow for every sequence of calls.
\<close>

section \<open>Plans\<close>

datatype MigrationPlanMode = MigrationModeDryRun | MigrationModeApply | OtherMigrationMode string

fun mode_text :: "MigrationPlanMode \<Rightarrow> string" where
  "mode_text MigrationModeDryRun = ''DRY_RUN''"
| "mode_text MigrationModeApply = ''APPLY''"
| "mode_text (OtherMigrationMode s) = s"

datatype MigrationPlanStatus =
    MigrationStatusDraft | MigrationStatusApproved | MigrationStatusRunning | MigrationStatusCancelRequested
  | MigrationStatusCancelled | MigrationStatusSucceeded | MigrationStatusFailed | OtherMigrationStatus string

record MigrationPlan =
  mp_ID :: string
  mp_TenantID :: string
  mp_WorkspaceID :: string
  mp_SchemaID :: string
  mp_FromVersion :: int
  mp_ToVersion :: int
  mp_Mode :: MigrationPlanMode
  mp_FailureSampleLimit :: int
  mp_Compatibility :: CompatibilityReport
  mp_CompatibilityHash :: string
  mp_Status :: MigrationPlanStatus
  mp_Version :: int
  mp_CreatedBy :: IdentityKey
  mp_UpdatedBy :: IdentityKey
  mp_CreatedAt :: time
  mp_UpdatedAt :: time
  mp_CancelRequestedAt :: "time option"

fun known_status :: "MigrationPlanStatus \<Rightarrow> bool" where
  "known_status (OtherMigrationStatus s) = False"
| "known_status _ = True"

definition known_mode :: "MigrationPlanMode \<Rightarrow> bool" where
  "known_mode m \<longleftrightarrow> m = MigrationModeDryRun \<or> m = MigrationModeApply"

definition MigrationPlan_Validate :: "MigrationPlan \<Rightarrow> goerr option" where
  "MigrationPlan_Validate plan =
     (if list_ex blank [mp_ID plan, mp_TenantID plan, mp_WorkspaceID plan, mp_SchemaID plan]
      then Some (SchemaErr ErrMigrationPlanInvalid)
      else if mp_FromVersion plan < 1 \<or> mp_ToVersion plan \<le> mp_FromVersion plan \<or> mp_FailureSampleLimit plan < 1
         \<or> mp_FailureSampleLimit plan > 100 \<or> mp_Version plan < 1
      then Some (SchemaErr ErrMigrationPlanInvalid)
      else if \<not> known_mode (mp_Mode plan) then Some (SchemaErr ErrMigrationPlanInvalid)
      else if \<not> known_status (mp_Status plan) then Some (SchemaErr ErrMigrationPlanInvalid)
      else if length (mp_CompatibilityHash plan) \<noteq> length ''sha256:'' + 64 \<or> \<not> HasPrefix (mp_CompatibilityHash plan) ''sha256:''
      then Some (SchemaErr ErrMigrationPlanInvalid)
      else if unset_identity (mp_CreatedBy plan) \<or> unset_identity (mp_UpdatedBy plan) \<or> IsZero (mp_CreatedAt plan)
         \<or> IsZero (mp_UpdatedAt plan)
      then Some (SchemaErr ErrMigrationPlanInvalid)
      else None)"

section \<open>The repository\<close>

type_synonym plan_key = "string \<times> string \<times> string \<times> string"
type_synonym fingerprint = "string \<times> string \<times> string \<times> int \<times> int \<times> MigrationPlanMode \<times> string"

definition plan_key :: "MigrationPlan \<Rightarrow> plan_key" where
  "plan_key p = (mp_ID p, mp_TenantID p, mp_WorkspaceID p, mp_SchemaID p)"

text \<open>The fields of the unique index \<open>migration_plan_fingerprint_unique\<close>.\<close>

definition fingerprint :: "MigrationPlan \<Rightarrow> fingerprint" where
  "fingerprint p = (mp_TenantID p, mp_WorkspaceID p, mp_SchemaID p, mp_FromVersion p, mp_ToVersion p, mp_Mode p, mp_CompatibilityHash p)"

record 'w plan_database =
  db_plans :: "('w, plan_key, MigrationPlan) collection"
  db_PlanByFingerprint :: "fingerprint \<Rightarrow> 'w \<Rightarrow> MigrationPlan find_result \<times> 'w"

definition CreateMigrationPlan :: "'w plan_database \<Rightarrow> MigrationPlan \<Rightarrow> ('w, unit) go" where
  "CreateMigrationPlan db plan =
     bindG (checkG (MigrationPlan_Validate plan)) (\<lambda>_.
       InsertNew (db_plans db) plan (SchemaErr ErrMigrationPlanExists) ''insert migration plan'')"

definition FindMigrationPlan :: "'w plan_database \<Rightarrow> plan_key \<Rightarrow> ('w, MigrationPlan) go" where
  "FindMigrationPlan db key =
     bindG (FindG (db_plans db) key ''find migration plan'') (\<lambda>found.
       case found of None \<Rightarrow> fail (SchemaErr ErrMigrationPlanNotFound) | Some plan \<Rightarrow> ret plan)"

definition FindMigrationPlanByFingerprint :: "'w plan_database \<Rightarrow> fingerprint \<Rightarrow> ('w, MigrationPlan) go" where
  "FindMigrationPlanByFingerprint db key = (\<lambda>w. case db_PlanByFingerprint db key w of
       (NoDocuments, w') \<Rightarrow> (Inl (SchemaErr ErrMigrationPlanNotFound), w')
     | (FindError m, w') \<Rightarrow> (Inl (Wrap ''find migration plan by fingerprint'' (External m)), w')
     | (Found plan, w') \<Rightarrow> (Inr plan, w'))"

definition plan_at :: "int \<Rightarrow> MigrationPlan \<Rightarrow> bool" where
  "plan_at expectedVersion p \<longleftrightarrow> mp_Version p = expectedVersion"

definition set_plan :: "MigrationPlan \<Rightarrow> MigrationPlan \<Rightarrow> MigrationPlan" where
  "set_plan plan old = old\<lparr>mp_Status := mp_Status plan, mp_UpdatedBy := mp_UpdatedBy plan, mp_UpdatedAt := mp_UpdatedAt plan,
     mp_CancelRequestedAt := mp_CancelRequestedAt plan, mp_Version := mp_Version old + 1\<rparr>"

definition UpdateMigrationPlan :: "'w plan_database \<Rightarrow> MigrationPlan \<Rightarrow> int \<Rightarrow> ('w, MigrationPlan) go" where
  "UpdateMigrationPlan db plan expectedVersion =
     bindG (checkG (MigrationPlan_Validate plan)) (\<lambda>_.
     bindG (FindAndUpdateG (db_plans db) (plan_key plan) (plan_at expectedVersion) (set_plan plan) ''update migration plan'') (\<lambda>found.
       case found of
         Some p \<Rightarrow> ret p
       | None \<Rightarrow> catchG (FindMigrationPlan db (plan_key plan))
           (\<lambda>lookupErr. if errors_is lookupErr (SchemaErr ErrMigrationPlanNotFound) then fail (SchemaErr ErrMigrationPlanNotFound)
              else fail (SchemaErr ErrMigrationPlanConflict))
           (\<lambda>_. fail (SchemaErr ErrMigrationPlanConflict))))"

section \<open>The service\<close>

record MigrationPlanInput =
  mi_TenantID :: string
  mi_WorkspaceID :: string
  mi_SchemaID :: string
  mi_FromVersion :: int
  mi_ToVersion :: int
  mi_Mode :: MigrationPlanMode
  mi_FailureSampleLimit :: int
  mi_RequestID :: string
  mi_IdempotencyKey :: string

text \<open>
  A service with all its parts. \<open>ms_Arrange\<close> is the order in which a comparison lists its changes,
  which may differ from call to call; \<open>ms_Transaction\<close> is \<open>None\<close> where the registry has no
  transactions; \<open>ms_Random\<close> reads the 16 random bytes of an identifier.
\<close>

record ('w, 'v) MigrationService =
  ms_registry :: "'w schema_database"
  ms_plans :: "'w plan_database"
  ms_receipts :: "('w, MigrationPlan) receipts"
  ms_members :: "'w MembershipReader"
  ms_audit :: "'w AuditWriter"
  ms_Now :: "'w \<Rightarrow> time \<times> 'w"
  ms_Transaction :: "('w, MigrationPlan) transaction option"
  ms_Random :: "'w \<Rightarrow> (string + string) \<times> 'w"
  ms_Arrange :: "'w \<Rightarrow> (CompatibilityChange list \<Rightarrow> CompatibilityChange list) \<times> 'w"
  ms_quote :: "string \<Rightarrow> string"
  ms_ext_json :: "string \<Rightarrow> string + string"
  ms_library :: "'v schema_library"

definition migration_receipts :: "MigrationPlan receipt_kind" where
  "migration_receipts =
     \<lparr>rk_NotFound = SchemaErr schema_ErrReceiptNotFound, rk_Conflict = SchemaErr schema_ErrIdempotencyConflict,
      rk_FindLabel = ''find migration plan receipt'', rk_SaveLabel = ''insert migration plan receipt'',
      rk_Check = (\<lambda>r. if incomplete_receipt r then Some (Anon ''incomplete migration plan receipt'') else None), rk_Strict = True\<rparr>"

definition hashCompatibility :: "CompatibilityReport \<Rightarrow> string" where
  "hashCompatibility report =
     sha256_ref (marshal (JObject [(''compatible'', JBool (cr_Compatible report)),
       (''changes'', if cr_Changes report = [] then JNull
          else JArray (map (\<lambda>c. JObject [(''path'', JString (ch_Path c)), (''kind'', JString (ch_Kind c)),
                 (''message'', JString (ch_Message c))]) (cr_Changes report)))]))"

definition migrationPlanRequestHash :: "MigrationPlanInput \<Rightarrow> string \<Rightarrow> string" where
  "migrationPlanRequestHash input compatibilityHash =
     sha256_ref (JoinWith [CHR 0x00] [mi_TenantID input, mi_WorkspaceID input, mi_SchemaID input, itoa (mi_FromVersion input),
       itoa (mi_ToVersion input), mode_text (mi_Mode input), itoa (mi_FailureSampleLimit input), compatibilityHash])"

definition migrationCancelRequestHash :: "string \<Rightarrow> int \<Rightarrow> string" where
  "migrationCancelRequestHash planID expectedVersion =
     sha256_ref (JoinWith [CHR 0x00] [''cancel'', planID, itoa expectedVersion])"

definition newMigrationPlanID :: "('w, 'v) MigrationService \<Rightarrow> ('w, string) go" where
  "newMigrationPlanID s = (\<lambda>w. case ms_Random s w of
       (Inl m, w') \<Rightarrow> (Inl (Wrap ''generate migration plan ID'' (External m)), w')
     | (Inr random, w') \<Rightarrow> (Inr (''migration-'' @ hex_encode random), w'))"

definition authorizeMigration :: "('w, 'v) MigrationService \<Rightarrow> Principal \<Rightarrow> string \<Rightarrow> string \<Rightarrow> ('w, unit) go" where
  "authorizeMigration s prin tenantID workspaceID =
     (if blank tenantID \<or> blank workspaceID then fail (SchemaErr ErrMigrationPlanInvalid)
      else bindG (Authorize (Some (ms_members s)) prin tenantID workspaceID ActionSchemaManage) (\<lambda>_. ret ()))"

definition migration_receipt ::
  "('w, 'v) MigrationService \<Rightarrow> receipt_scope \<Rightarrow> string \<Rightarrow> ('w, MigrationPlan option) go" where
  "migration_receipt s scope requestHash =
     find_receipt (receipt_Find migration_receipts (ms_receipts s)) (SchemaErr schema_ErrReceiptNotFound)
       (SchemaErr schema_ErrIdempotencyConflict) scope requestHash"

definition in_transaction :: "('w, 'v) MigrationService \<Rightarrow> ('w, MigrationPlan) go \<Rightarrow> ('w, MigrationPlan) go" where
  "in_transaction s m = (case ms_Transaction s of Some tx \<Rightarrow> tx m | None \<Rightarrow> m)"

text \<open>The change, its audit entry and its receipt.\<close>

definition migration_record ::
  "('w, 'v) MigrationService \<Rightarrow> string \<Rightarrow> AuditEntry \<Rightarrow> MigrationPlan Receipt \<Rightarrow> ('w, MigrationPlan) go" where
  "migration_record s label entry receipt =
     bindG (wrapG label (ms_audit s entry)) (\<lambda>_.
     bindG (receipt_Save migration_receipts (ms_receipts s) receipt) (\<lambda>_. ret (rcp_Result receipt)))"

definition plan_entry :: "Principal \<Rightarrow> MigrationPlan \<Rightarrow> int \<Rightarrow> string \<Rightarrow> string \<Rightarrow> string \<Rightarrow> string \<Rightarrow> string \<Rightarrow> time \<Rightarrow> AuditEntry" where
  "plan_entry prin plan version action requestID key beforeHash afterHash now =
     empty_AuditEntry\<lparr>ae_TenantID := mp_TenantID plan, ae_WorkspaceID := mp_WorkspaceID plan, ae_Action := action,
       ae_Actor := identityKey prin, ae_ResourceType := ''MigrationPlan'', ae_ResourceID := mp_ID plan,
       ae_ResourceVersion := version, ae_RequestID := requestID, ae_IdempotencyKey := key,
       ae_BeforeHash := beforeHash, ae_AfterHash := afterHash, ae_CreatedAt := now\<rparr>"

definition migration_scope :: "string \<Rightarrow> string \<Rightarrow> string \<Rightarrow> string \<Rightarrow> receipt_scope" where
  "migration_scope tenantID workspaceID operation key = (tenantID, workspaceID, operation, key)"

definition new_plan :: "Principal \<Rightarrow> MigrationPlanInput \<Rightarrow> CompatibilityReport \<Rightarrow> string \<Rightarrow> time \<Rightarrow> MigrationPlan" where
  "new_plan prin input report planID now =
     \<lparr>mp_ID = planID, mp_TenantID = mi_TenantID input, mp_WorkspaceID = mi_WorkspaceID input, mp_SchemaID = mi_SchemaID input,
      mp_FromVersion = mi_FromVersion input, mp_ToVersion = mi_ToVersion input, mp_Mode = mi_Mode input,
      mp_FailureSampleLimit = mi_FailureSampleLimit input, mp_Compatibility = report,
      mp_CompatibilityHash = hashCompatibility report, mp_Status = MigrationStatusDraft, mp_Version = 1,
      mp_CreatedBy = identityKey prin, mp_UpdatedBy = identityKey prin, mp_CreatedAt = now, mp_UpdatedAt = now,
      mp_CancelRequestedAt = None\<rparr>"

definition input_fingerprint :: "MigrationPlanInput \<Rightarrow> string \<Rightarrow> fingerprint" where
  "input_fingerprint input compatibilityHash = (mi_TenantID input, mi_WorkspaceID input, mi_SchemaID input,
     mi_FromVersion input, mi_ToVersion input, mi_Mode input, compatibilityHash)"

text \<open>The report on the two versions of the schema.\<close>

definition plan_report :: "('w, 'v) MigrationService \<Rightarrow> MigrationPlanInput \<Rightarrow> ('w, CompatibilityReport) go" where
  "plan_report s input =
     bindG (schema_Get (ms_registry s) (mi_TenantID input) (mi_SchemaID input) (mi_FromVersion input)) (\<lambda>source.
     bindG (schema_Get (ms_registry s) (mi_TenantID input) (mi_SchemaID input) (mi_ToVersion input)) (\<lambda>target.
     if sd_Status source \<noteq> SchemaPublished \<or> (sd_Status target \<noteq> SchemaDraft \<and> sd_Status target \<noteq> SchemaPublished)
     then fail (SchemaErr ErrMigrationPlanInvalid)
     else (case (ms_ext_json s (sd_JSONSchema source), ms_ext_json s (sd_JSONSchema target)) of
         (Inl m, _) \<Rightarrow> fail (Wrap ''encode source schema'' (External m))
       | (_, Inl m) \<Rightarrow> fail (Wrap ''encode target schema'' (External m))
       | (Inr fromJSON, Inr toJSON) \<Rightarrow>
           (\<lambda>w. case ms_Arrange s w of (arrange, w') \<Rightarrow>
              pureG (CheckBackwardCompatibility (ms_library s) (ms_quote s) arrange fromJSON toJSON) w'))))"

definition refused_input :: "MigrationPlanInput \<Rightarrow> bool" where
  "refused_input input \<longleftrightarrow> mi_FromVersion input < 1 \<or> mi_ToVersion input \<le> mi_FromVersion input
     \<or> mi_FailureSampleLimit input < 1 \<or> mi_FailureSampleLimit input > 100 \<or> \<not> known_mode (mi_Mode input)"

definition MigrationService_Create ::
  "('w, 'v) MigrationService option \<Rightarrow> Principal \<Rightarrow> MigrationPlanInput \<Rightarrow> ('w, MigrationPlan \<times> bool) go" where
  "MigrationService_Create service prin input = (case service of None \<Rightarrow> fail (IdentityErr ErrForbidden) | Some s \<Rightarrow>
     if blank (mi_IdempotencyKey input) then fail (SchemaErr schema_ErrIdempotencyKeyRequired) else
     bindG (authorizeMigration s prin (mi_TenantID input) (mi_WorkspaceID input)) (\<lambda>_.
     if refused_input input then fail (SchemaErr ErrMigrationPlanInvalid) else
     bindG (plan_report s input) (\<lambda>report.
     (let compatibilityHash = hashCompatibility report;
          requestHash = migrationPlanRequestHash input compatibilityHash;
          scope = migration_scope (mi_TenantID input) (mi_WorkspaceID input) ''migration.plan.create'' (mi_IdempotencyKey input) in
     bindG (migration_receipt s scope requestHash) (\<lambda>found. case found of Some plan \<Rightarrow> ret (plan, True) | None \<Rightarrow>
     catchG (FindMigrationPlanByFingerprint (ms_plans s) (input_fingerprint input compatibilityHash))
       (\<lambda>findErr. if \<not> errors_is findErr (SchemaErr ErrMigrationPlanNotFound) then fail findErr else
          bindG (newMigrationPlanID s) (\<lambda>planID.
          bindG (nowG (ms_Now s)) (\<lambda>now.
          (let plan = new_plan prin input report planID now in
          bindG (checkG (MigrationPlan_Validate plan)) (\<lambda>_.
          bindG (in_transaction s
             (bindG (CreateMigrationPlan (ms_plans s) plan) (\<lambda>_.
                migration_record s ''append migration audit''
                  (plan_entry prin plan (mp_Version plan) ''migration.plan.create'' (mi_RequestID input) (mi_IdempotencyKey input) [] requestHash now)
                  (receipt_for scope requestHash plan)))) (\<lambda>result. ret (result, False)))))))
       (\<lambda>existing. ret (existing, False)))))))"

definition MigrationService_Get ::
  "('w, 'v) MigrationService option \<Rightarrow> Principal \<Rightarrow> string \<Rightarrow> string \<Rightarrow> string \<Rightarrow> string \<Rightarrow> ('w, MigrationPlan) go" where
  "MigrationService_Get service prin tenantID workspaceID schemaID planID =
     (case service of None \<Rightarrow> fail (IdentityErr ErrForbidden) | Some s \<Rightarrow>
        bindG (authorizeMigration s prin tenantID workspaceID) (\<lambda>_.
          FindMigrationPlan (ms_plans s) (planID, tenantID, workspaceID, schemaID)))"

text \<open>The status a cancelled plan gets; \<open>Inr None\<close> where there is nothing to do.\<close>

fun next_status :: "MigrationPlanStatus \<Rightarrow> goerr + MigrationPlanStatus option" where
  "next_status MigrationStatusDraft = Inr (Some MigrationStatusCancelled)"
| "next_status MigrationStatusApproved = Inr (Some MigrationStatusCancelled)"
| "next_status MigrationStatusRunning = Inr (Some MigrationStatusCancelRequested)"
| "next_status MigrationStatusCancelRequested = Inr None"
| "next_status MigrationStatusCancelled = Inr None"
| "next_status MigrationStatusSucceeded = Inl (SchemaErr ErrMigrationPlanTerminal)"
| "next_status MigrationStatusFailed = Inl (SchemaErr ErrMigrationPlanTerminal)"
| "next_status (OtherMigrationStatus s) = Inl (SchemaErr ErrMigrationPlanInvalid)"

definition cancelled_plan :: "Principal \<Rightarrow> MigrationPlan \<Rightarrow> MigrationPlanStatus \<Rightarrow> time \<Rightarrow> MigrationPlan" where
  "cancelled_plan prin plan nextStatus now =
     plan\<lparr>mp_Status := nextStatus, mp_Version := incr64 (mp_Version plan), mp_UpdatedBy := identityKey prin, mp_UpdatedAt := now,
          mp_CancelRequestedAt := (if nextStatus = MigrationStatusCancelRequested then Some now else mp_CancelRequestedAt plan)\<rparr>"

record MigrationCancelInput =
  mx_TenantID :: string
  mx_WorkspaceID :: string
  mx_SchemaID :: string
  mx_PlanID :: string
  mx_ExpectedVersion :: int
  mx_RequestID :: string
  mx_IdempotencyKey :: string

definition MigrationService_Cancel ::
  "('w, 'v) MigrationService option \<Rightarrow> Principal \<Rightarrow> MigrationCancelInput \<Rightarrow> ('w, MigrationPlan \<times> bool) go" where
  "MigrationService_Cancel service prin input = (case service of None \<Rightarrow> fail (IdentityErr ErrForbidden) | Some s \<Rightarrow>
     if blank (mx_IdempotencyKey input) then fail (SchemaErr schema_ErrIdempotencyKeyRequired) else
     if mx_ExpectedVersion input < 1 then fail (SchemaErr ErrMigrationPlanConflict) else
     bindG (authorizeMigration s prin (mx_TenantID input) (mx_WorkspaceID input)) (\<lambda>_.
     bindG (FindMigrationPlan (ms_plans s) (mx_PlanID input, mx_TenantID input, mx_WorkspaceID input, mx_SchemaID input)) (\<lambda>plan.
     (let requestHash = migrationCancelRequestHash (mp_ID plan) (mx_ExpectedVersion input);
          scope = migration_scope (mx_TenantID input) (mx_WorkspaceID input) ''migration.plan.cancel'' (mx_IdempotencyKey input) in
     bindG (migration_receipt s scope requestHash) (\<lambda>found. case found of Some p \<Rightarrow> ret (p, True) | None \<Rightarrow>
     if mp_Version plan \<noteq> mx_ExpectedVersion input then fail (SchemaErr ErrMigrationPlanConflict) else
     bindG (pureG (next_status (mp_Status plan))) (\<lambda>status. case status of None \<Rightarrow> ret (plan, False) | Some nextStatus \<Rightarrow>
     bindG (nowG (ms_Now s)) (\<lambda>now.
     bindG (in_transaction s
        (bindG (UpdateMigrationPlan (ms_plans s) (cancelled_plan prin plan nextStatus now) (mx_ExpectedVersion input)) (\<lambda>result.
           migration_record s ''append migration cancel audit''
             (plan_entry prin plan (mp_Version result) ''migration.plan.cancel'' (mx_RequestID input) (mx_IdempotencyKey input)
                (mp_CompatibilityHash plan) requestHash now)
             (receipt_for scope requestHash result)))) (\<lambda>result. ret (result, False)))))))))"

end
