(* ===== verification/MigrationRuns.thy ===== *)
theory MigrationRuns
  imports Migration
begin

text \<open>
  What the calls on migration plans do, and what holds after every sequence of them: plans are
  never lost, each is changed at most once - by its cancellation -, their fingerprints stay
  unique, and a call that changed something answers the same plan when it is made again.
\<close>

section \<open>The state\<close>

record MigrationDB = "MigrationPlan ReceiptDB" +
  x_plans :: "plan_key \<rightharpoonup> MigrationPlan"

definition put_plans :: "(plan_key \<rightharpoonup> MigrationPlan) \<Rightarrow> MigrationDB \<Rightarrow> MigrationDB" where
  "put_plans m v = v\<lparr>x_plans := m\<rparr>"

lemma put_plans_simps [simp]:
  "x_plans (put_plans m v) = m" "x_receipts (put_plans m v) = x_receipts v" "x_audit (put_plans m v) = x_audit v"
  "x_plans (recorded e r v) = x_plans v"
  by (simp_all add: put_plans_def recorded_def)

lemma part_plans: "part x_plans put_plans"
  by (simp add: part_def put_plans_def)

definition plan_put :: "MigrationPlan \<Rightarrow> MigrationDB \<Rightarrow> MigrationDB" where
  "plan_put p v = put_plans ((x_plans v)(plan_key p \<mapsto> p)) v"

lemma plan_put_simps [simp]:
  "x_plans (plan_put p v) = (x_plans v)(plan_key p \<mapsto> p)" "x_receipts (plan_put p v) = x_receipts v" "x_audit (plan_put p v) = x_audit v"
  by (simp_all add: plan_put_def)

text \<open>
  A database that serves the state: the collections obey their laws, an insert succeeds only
  where no plan has the fingerprint, the query by fingerprint finds a stored plan that has it, and
  reading schemas, clock, random numbers and the order of a report changes nothing.
\<close>

definition migration_serves :: "('w, 'v) MigrationService \<Rightarrow> WorkspaceMembership set \<Rightarrow> ('w \<Rightarrow> MigrationDB) \<Rightarrow> bool" where
  "migration_serves s M view \<longleftrightarrow>
     realises (db_plans (ms_plans s)) plan_key x_plans put_plans view
     \<and> (\<forall>d w w'. c_InsertOne (db_plans (ms_plans s)) d w = (Inserted, w') \<longrightarrow>
          (\<forall>k p. x_plans (view w) k = Some p \<longrightarrow> fingerprint p \<noteq> fingerprint d))
     \<and> (\<forall>f w r w'. db_PlanByFingerprint (ms_plans s) f w = (r, w') \<longrightarrow> view w' = view w
          \<and> (\<forall>p. r = Found p \<longrightarrow> fingerprint p = f \<and> (\<exists>k. x_plans (view w) k = Some p)))
     \<and> realises (ms_receipts s) receipt_key x_receipts put_receipts view
     \<and> audit_adds (ms_audit s) view \<and> (\<exists>tx. ms_Transaction s = Some tx \<and> transaction_laws tx)
     \<and> reads_members (ms_members s) M view
     \<and> (\<forall>k w r w'. c_FindOne (db_definitions (ms_registry s)) k w = (r, w') \<longrightarrow> view w' = view w)
     \<and> (\<forall>w. view (snd (ms_Now s w)) = view w) \<and> (\<forall>w r w'. ms_Random s w = (r, w') \<longrightarrow> view w' = view w)
     \<and> (\<forall>w r w'. ms_Arrange s w = (r, w') \<longrightarrow> view w' = view w)"

section \<open>Calls and effects\<close>

datatype plan_call = PlanCreate Principal MigrationPlanInput | PlanCancel Principal MigrationCancelInput

fun plan_exec :: "('w, 'v) MigrationService \<Rightarrow> plan_call \<Rightarrow> ('w, MigrationPlan \<times> bool) go" where
  "plan_exec s (PlanCreate prin input) = MigrationService_Create (Some s) prin input"
| "plan_exec s (PlanCancel prin input) = MigrationService_Cancel (Some s) prin input"

definition plan_run :: "('w, 'v) MigrationService \<Rightarrow> plan_call list \<Rightarrow> 'w \<Rightarrow> 'w" where
  "plan_run s calls w = fold (\<lambda>call w. snd (plan_exec s call w)) calls w"

fun plan_scope :: "plan_call \<Rightarrow> receipt_scope" where
  "plan_scope (PlanCreate prin input) =
     migration_scope (mi_TenantID input) (mi_WorkspaceID input) ''migration.plan.create'' (mi_IdempotencyKey input)"
| "plan_scope (PlanCancel prin input) =
     migration_scope (mx_TenantID input) (mx_WorkspaceID input) ''migration.plan.cancel'' (mx_IdempotencyKey input)"

fun plan_hash :: "plan_call \<Rightarrow> MigrationPlan \<Rightarrow> string" where
  "plan_hash (PlanCreate prin input) p = migrationPlanRequestHash input (mp_CompatibilityHash p)"
| "plan_hash (PlanCancel prin input) p = migrationCancelRequestHash (mp_ID p) (mx_ExpectedVersion input)"

fun plan_effect :: "WorkspaceMembership set \<Rightarrow> plan_call \<Rightarrow> MigrationDB \<Rightarrow> MigrationPlan \<Rightarrow> AuditEntry \<Rightarrow> bool" where
  "plan_effect M (PlanCreate prin input) v p entry \<longleftrightarrow>
     granted M prin (mi_TenantID input) (mi_WorkspaceID input) ActionSchemaManage \<and> \<not> refused_input input
     \<and> (\<exists>report planID now. p = new_plan prin input report planID now \<and> MigrationPlan_Validate p = None
          \<and> x_plans v (plan_key p) = None \<and> (\<forall>k q. x_plans v k = Some q \<longrightarrow> fingerprint q \<noteq> fingerprint p)
          \<and> entry = plan_entry prin p (mp_Version p) ''migration.plan.create'' (mi_RequestID input) (mi_IdempotencyKey input) []
                      (plan_hash (PlanCreate prin input) p) now)"
| "plan_effect M (PlanCancel prin input) v p entry \<longleftrightarrow>
     granted M prin (mx_TenantID input) (mx_WorkspaceID input) ActionSchemaManage
     \<and> (\<exists>old nextStatus now. x_plans v (mx_PlanID input, mx_TenantID input, mx_WorkspaceID input, mx_SchemaID input) = Some old
          \<and> plan_at (mx_ExpectedVersion input) old \<and> next_status (mp_Status old) = Inr (Some nextStatus)
          \<and> p = set_plan (cancelled_plan prin old nextStatus now) old
          \<and> MigrationPlan_Validate (cancelled_plan prin old nextStatus now) = None
          \<and> entry = plan_entry prin old (mp_Version p) ''migration.plan.cancel'' (mx_RequestID input) (mx_IdempotencyKey input)
                      (mp_CompatibilityHash old) (plan_hash (PlanCancel prin input) p) now)"

text \<open>The change of a call with its records; the receipt is under the hash of the request.\<close>

definition plan_done :: "WorkspaceMembership set \<Rightarrow> plan_call \<Rightarrow> MigrationDB \<Rightarrow> MigrationPlan \<Rightarrow> MigrationDB \<Rightarrow> bool" where
  "plan_done M call v p v' \<longleftrightarrow> x_receipts v (plan_scope call) = None
     \<and> (\<exists>entry. plan_effect M call v p entry
          \<and> v' = recorded entry (receipt_for (plan_scope call) (plan_hash call p) p) (plan_put p v))"

definition plan_outcome :: "WorkspaceMembership set \<Rightarrow> plan_call \<Rightarrow> MigrationDB \<Rightarrow> MigrationPlan \<times> bool \<Rightarrow> MigrationDB \<Rightarrow> bool" where
  "plan_outcome M call v answer v' \<longleftrightarrow>
     (case x_receipts v (plan_scope call) of
        Some x \<Rightarrow> answer = (rcp_Result x, True) \<and> v' = v
      | None \<Rightarrow> \<not> snd answer \<and> (v' = v \<or> plan_done M call v (fst answer) v'))"

section \<open>The proof that they do it\<close>

context receipt_store
begin

lemma post_lookup:
  assumes "\<And>x w1. x_receipts (view w) k = Some x \<Longrightarrow> view w1 = view w \<Longrightarrow> post view P (f (Some (rcp_Result x))) w1"
    and "\<And>w1. x_receipts (view w) k = None \<Longrightarrow> view w1 = view w \<Longrightarrow> post view P (f None) w1"
  shows "post view P (bindG (find_receipt lookup missing conflict k h) f) w"
proof (rule post_read [OF keeps_find_receipt])
  fix found w1
  assume run: "find_receipt lookup missing conflict k h w = (Inr found, w1)" and v: "view w1 = view w"
  from find_receipt_Inr [OF run] show "post view P (f found) w1" using assms v by (cases found) auto
qed

lemma recorded_Inr:
  assumes "bindG (wrapG l (writer entry)) (\<lambda>_. bindG (save x) (\<lambda>_. ret (rcp_Result x))) w = (Inr a, w')"
    and "x_receipts (view w) (receipt_key x) = None"
  shows "a = rcp_Result x \<and> view w' = recorded entry x (view w)"
  using assms by (auto simp: go_success wrapG_Inr recorded_def put_receipts_def dest!: append_adds save_new)

end

lemma migration_servesD:
  assumes "migration_serves s M view"
  shows "realises (db_plans (ms_plans s)) plan_key x_plans put_plans view"
    and "receipt_store (receipt_Find migration_receipts (ms_receipts s)) (receipt_Save migration_receipts (ms_receipts s))
           (ms_audit s) (SchemaErr schema_ErrReceiptNotFound) view"
    and "\<exists>tx. ms_Transaction s = Some tx \<and> transaction_laws tx" "reads_members (ms_members s) M view"
    and "keeps view (nowG (ms_Now s))"
    and "c_InsertOne (db_plans (ms_plans s)) d w = (Inserted, w') \<Longrightarrow> x_plans (view w) k = Some p \<Longrightarrow> fingerprint p \<noteq> fingerprint d"
    and "db_PlanByFingerprint (ms_plans s) f w = (r, w') \<Longrightarrow> view w' = view w
          \<and> (\<forall>p. r = Found p \<longrightarrow> fingerprint p = f \<and> (\<exists>k. x_plans (view w) k = Some p))"
    and "c_FindOne (db_definitions (ms_registry s)) dk w = (rd, w') \<Longrightarrow> view w' = view w"
    and "ms_Random s w = (rr, w') \<Longrightarrow> view w' = view w" "ms_Arrange s w = (ra, w') \<Longrightarrow> view w' = view w"
proof -
  have "rk_NotFound migration_receipts = SchemaErr schema_ErrReceiptNotFound" by (simp add: migration_receipts_def)
  with assms mongo_receipt_store [of "ms_receipts s" view "ms_audit s" migration_receipts]
  show "receipt_store (receipt_Find migration_receipts (ms_receipts s)) (receipt_Save migration_receipts (ms_receipts s))
         (ms_audit s) (SchemaErr schema_ErrReceiptNotFound) view" by (simp add: migration_serves_def)
  show "keeps view (nowG (ms_Now s))" using assms unfolding migration_serves_def by (intro keeps_nowG) blast
  show "c_InsertOne (db_plans (ms_plans s)) d w = (Inserted, w') \<Longrightarrow> x_plans (view w) k = Some p \<Longrightarrow> fingerprint p \<noteq> fingerprint d"
    "db_PlanByFingerprint (ms_plans s) f w = (r, w') \<Longrightarrow> view w' = view w
          \<and> (\<forall>p. r = Found p \<longrightarrow> fingerprint p = f \<and> (\<exists>k. x_plans (view w) k = Some p))"
    "c_FindOne (db_definitions (ms_registry s)) dk w = (rd, w') \<Longrightarrow> view w' = view w"
    "ms_Random s w = (rr, w') \<Longrightarrow> view w' = view w" "ms_Arrange s w = (ra, w') \<Longrightarrow> view w' = view w"
    using assms unfolding migration_serves_def by - (elim conjE, metis)+
qed (use assms in \<open>auto simp: migration_serves_def\<close>)

lemma plan_authorize_keeps: "migration_serves s M view \<Longrightarrow> keeps view (authorizeMigration s prin t ws)"
  unfolding authorizeMigration_def by (intro keeping Authorize_keeps migration_servesD(4))

lemma plan_authorize_granted:
  "migration_serves s M view \<Longrightarrow> authorizeMigration s prin t ws w = (Inr u, w') \<Longrightarrow> granted M prin t ws ActionSchemaManage"
  by (auto simp: authorizeMigration_def go_success dest!: Authorize_granted [OF migration_servesD(4)] split: if_splits)

lemma FindMigrationPlan_keeps: "migration_serves s M view \<Longrightarrow> keeps view (FindMigrationPlan (ms_plans s) k)"
  unfolding FindMigrationPlan_def by (intro keeping) (rule migration_servesD(1))

lemma FindMigrationPlan_Inr:
  "migration_serves s M view \<Longrightarrow> FindMigrationPlan (ms_plans s) k w = (Inr p, w') \<Longrightarrow> x_plans (view w) k = Some p"
  by (auto simp: FindMigrationPlan_def go_success dest: FindG_Inr [OF migration_servesD(1)] split: option.splits)

lemma by_fingerprint_keeps: "migration_serves s M view \<Longrightarrow> keeps view (FindMigrationPlanByFingerprint (ms_plans s) f)"
  by (rule keepsI) (auto simp: FindMigrationPlanByFingerprint_def split: prod.splits find_result.splits dest: migration_servesD(7))

lemma newMigrationPlanID_keeps: "migration_serves s M view \<Longrightarrow> keeps view (newMigrationPlanID s)"
  by (rule keepsI) (auto simp: newMigrationPlanID_def split: prod.splits sum.splits dest: migration_servesD(9))

lemma registry_Get_keeps: "migration_serves s M view \<Longrightarrow> keeps view (schema_Get (ms_registry s) t i n)"
proof -
  assume s: "migration_serves s M view"
  have "keeps view (FindG (db_definitions (ms_registry s)) k l)" for k l
    by (rule keepsI) (auto simp: FindG_def split: prod.splits find_result.splits dest: migration_servesD(8) [OF s])
  then show ?thesis unfolding schema_Get_def by (intro keeps_bindG keeps_option keeps_ret)
qed

lemma plan_report_keeps:
  assumes s: "migration_serves s M view"
  shows "keeps view (plan_report s input)"
proof -
  have "keeps view (\<lambda>w. case ms_Arrange s w of (arrange, w') \<Rightarrow> pureG (g arrange) w')" for g :: "_ \<Rightarrow> goerr + CompatibilityReport"
    by (rule keepsI) (auto simp: pureG_def split: prod.splits dest: migration_servesD(10) [OF s])
  then show ?thesis
    unfolding plan_report_def by (intro keeping registry_Get_keeps [OF s]) (auto intro: keeping split: sum.splits prod.splits)
qed

lemma CreateMigrationPlan_Inr:
  assumes s: "migration_serves s M view" and run: "CreateMigrationPlan (ms_plans s) p w = (Inr u, w')"
  shows "MigrationPlan_Validate p = None \<and> x_plans (view w) (plan_key p) = None
    \<and> (\<forall>k q. x_plans (view w) k = Some q \<longrightarrow> fingerprint q \<noteq> fingerprint p) \<and> view w' = plan_put p (view w)"
proof -
  from run have v: "MigrationPlan_Validate p = None"
    and i: "InsertNew (db_plans (ms_plans s)) p (SchemaErr ErrMigrationPlanExists) ''insert migration plan'' w = (Inr u, w')"
    by (auto simp: CreateMigrationPlan_def go_success)
  then have "c_InsertOne (db_plans (ms_plans s)) p w = (Inserted, w')"
    by (auto simp: InsertNew_def split: prod.splits insert_result.splits)
  then have "\<forall>k q. x_plans (view w) k = Some q \<longrightarrow> fingerprint q \<noteq> fingerprint p" using migration_servesD(6) [OF s] by blast
  with v InsertNew_Inr [OF migration_servesD(1) [OF s] i] show ?thesis by (simp add: plan_put_def)
qed

lemma UpdateMigrationPlan_Inr:
  assumes s: "migration_serves s M view" and run: "UpdateMigrationPlan (ms_plans s) p n w = (Inr q, w')"
  shows "MigrationPlan_Validate p = None \<and> (\<exists>old. x_plans (view w) (plan_key p) = Some old \<and> plan_at n old \<and> q = set_plan p old
    \<and> view w' = put_plans ((x_plans (view w))(plan_key p \<mapsto> q)) (view w))"
proof -
  have never: "catchG m (\<lambda>e. if b e then fail x else fail y) (\<lambda>_. fail y) v = (Inr q, v') \<longleftrightarrow> False"
    for m :: "('a, MigrationPlan) go" and b x y v v'
    by (auto simp: catchG_def fail_def split: prod.splits sum.splits if_splits)
  from run have v: "MigrationPlan_Validate p = None"
    and f: "FindAndUpdateG (db_plans (ms_plans s)) (plan_key p) (plan_at n) (set_plan p) ''update migration plan'' w = (Inr (Some q), w')"
    by (auto simp: UpdateMigrationPlan_def go_success never split: option.splits)
  from FindAndUpdateG_Inr [OF migration_servesD(1) [OF s] f] v show ?thesis by simp
qed

lemma plan_done_outcome: "plan_done M call v p v' \<Longrightarrow> plan_outcome M call v (p, False) v'"
  by (simp add: plan_outcome_def plan_done_def)

text \<open>The transaction of a call and the answer made of its result.\<close>

lemma post_plan_done:
  assumes s: "migration_serves s M view" and new: "x_receipts (view w) (plan_scope call) = None"
    and change: "\<And>p w1. m w = (Inr p, w1) \<Longrightarrow> view w1 = plan_put (plan p) (view w)
      \<and> plan_effect M call (view w) (plan p) (entry p) \<and> h = plan_hash call (plan p)"
  shows "post view (plan_outcome M call)
    (bindG (in_transaction s (bindG m (\<lambda>p. migration_record s label (entry p) (receipt_for (plan_scope call) h (plan p)))))
      (\<lambda>result. ret (result, False))) w"
proof (rule post_then [where P = "plan_done M call"])
  obtain tx where t: "ms_Transaction s = Some tx" "transaction_laws tx" using migration_servesD(3) [OF s] by blast
  then have tx: "in_transaction s = tx" "transaction_laws tx" by (simp_all add: in_transaction_def fun_eq_iff)
  show "post view (plan_done M call)
     (in_transaction s (bindG m (\<lambda>p. migration_record s label (entry p) (receipt_for (plan_scope call) h (plan p))))) w"
    unfolding tx(1)
  proof (rule post_transaction [OF tx(2)])
    fix a w2 assume "bindG m (\<lambda>p. migration_record s label (entry p) (receipt_for (plan_scope call) h (plan p))) w = (Inr a, w2)"
    then obtain p w1 where m: "m w = (Inr p, w1)"
      and fin: "migration_record s label (entry p) (receipt_for (plan_scope call) h (plan p)) w1 = (Inr a, w2)"
      by (auto simp: bindG_Inr)
    from receipt_store.recorded_Inr [OF migration_servesD(2) [OF s] fin [unfolded migration_record_def]] change [OF m] new
    show "plan_done M call (view w) a (view w2)" by (auto simp: plan_done_def)
  qed
qed (auto simp: ret_def keeps_def intro: plan_done_outcome)

lemma PlanCreate_post:
  assumes s: "migration_serves s M view"
  shows "post view (plan_outcome M (PlanCreate prin input)) (plan_exec s (PlanCreate prin input)) w"
  unfolding plan_exec.simps MigrationService_Create_def option.case Let_def migration_receipt_def
proof (intro post_if post_fail post_read [OF plan_authorize_keeps [OF s]] post_read [OF plan_report_keeps [OF s]]
    receipt_store.post_lookup [OF migration_servesD(2) [OF s]], goal_cases)
  case (1 u w1 report w2 x w3)
  then show ?case by (auto simp: plan_outcome_def intro!: post_ret)
next
  case (2 u w1 report w2 w3)
  show ?case
    unfolding option.case
  proof (intro post_catch_read [OF by_fingerprint_keeps [OF s]] post_if post_fail post_read [OF newMigrationPlanID_keeps [OF s]]
      post_read [OF migration_servesD(5) [OF s]] post_check, goal_cases)
    case (1 e w4 planID w5 now w6)
    let ?plan = "new_plan prin input report planID now"
    have "post view (plan_outcome M (PlanCreate prin input))
      (bindG (in_transaction s (bindG (CreateMigrationPlan (ms_plans s) ?plan) (\<lambda>u.
          migration_record s ''append migration audit''
            (plan_entry prin ?plan (mp_Version ?plan) ''migration.plan.create'' (mi_RequestID input) (mi_IdempotencyKey input) []
               (migrationPlanRequestHash input (hashCompatibility report)) now)
            (receipt_for (plan_scope (PlanCreate prin input)) (migrationPlanRequestHash input (hashCompatibility report)) ?plan))))
        (\<lambda>result. ret (result, False))) w6"
    proof (rule post_plan_done [OF s])
      show "x_receipts (view w6) (plan_scope (PlanCreate prin input)) = None" using 1 2 by simp
      fix u w7 assume "CreateMigrationPlan (ms_plans s) ?plan w6 = (Inr u, w7)"
      from CreateMigrationPlan_Inr [OF s this] plan_authorize_granted [OF s 2(2)] 2(4)
      show "view w7 = plan_put ?plan (view w6) \<and> plan_effect M (PlanCreate prin input) (view w6) ?plan
          (plan_entry prin ?plan (mp_Version ?plan) ''migration.plan.create'' (mi_RequestID input) (mi_IdempotencyKey input) []
             (migrationPlanRequestHash input (hashCompatibility report)) now)
        \<and> migrationPlanRequestHash input (hashCompatibility report) = plan_hash (PlanCreate prin input) ?plan"
        by (auto simp: new_plan_def)
    qed
    then show ?case by (simp add: Let_def)
  next
    case (2 existing w4)
    then have "view w4 = view w3" by simp
    with \<open>x_receipts (view w2) _ = None\<close> \<open>view w3 = view w2\<close> show ?case by (auto simp: plan_outcome_def intro!: post_ret)
  qed
qed

text \<open>What holds of the stored plans.\<close>

definition plans_ok :: "MigrationDB \<Rightarrow> bool" where
  "plans_ok v \<longleftrightarrow>
     (\<forall>k p. x_plans v k = Some p \<longrightarrow> plan_key p = k \<and> MigrationPlan_Validate p = None
        \<and> mp_CompatibilityHash p = hashCompatibility (mp_Compatibility p))
     \<and> (\<forall>k k' p p'. x_plans v k = Some p \<longrightarrow> x_plans v k' = Some p' \<longrightarrow> fingerprint p = fingerprint p' \<longrightarrow> k = k')"

lemma plans_okD:
  assumes "plans_ok v" "x_plans v k = Some p"
  shows "plan_key p = k" "MigrationPlan_Validate p = None" "mp_CompatibilityHash p = hashCompatibility (mp_Compatibility p)"
    and "x_plans v k' = Some p' \<Longrightarrow> fingerprint p = fingerprint p' \<Longrightarrow> k = k'"
  using assms unfolding plans_ok_def by metis+

lemma set_plan_fields [simp]:
  "mp_ID (set_plan p old) = mp_ID old"
  "plan_key (set_plan p old) = plan_key old" "fingerprint (set_plan p old) = fingerprint old"
  "plan_key (cancelled_plan prin old st now) = plan_key old" "fingerprint (cancelled_plan prin old st now) = fingerprint old"
  by (simp_all add: plan_key_def fingerprint_def set_plan_def cancelled_plan_def)

lemma PlanCancel_post:
  assumes s: "migration_serves s M view" and w: "plans_ok (view w)"
  shows "post view (plan_outcome M (PlanCancel prin input)) (plan_exec s (PlanCancel prin input)) w"
  unfolding plan_exec.simps MigrationService_Cancel_def option.case Let_def migration_receipt_def
proof (intro post_if post_fail post_read [OF plan_authorize_keeps [OF s]] post_read [OF FindMigrationPlan_keeps [OF s]]
    receipt_store.post_lookup [OF migration_servesD(2) [OF s]], goal_cases)
  case (1 u w1 plan w2 x w3)
  then show ?case by (auto simp: plan_outcome_def intro!: post_ret)
next
  case (2 u w1 plan w2 w3)
  let ?key = "(mx_PlanID input, mx_TenantID input, mx_WorkspaceID input, mx_SchemaID input)" and ?n = "mx_ExpectedVersion input"
    and ?h = "migrationCancelRequestHash (mp_ID plan) (mx_ExpectedVersion input)"
  show ?case
    unfolding option.case
  proof (intro post_if post_fail post_pure post_option post_read [OF migration_servesD(5) [OF s]], goal_cases)
    case (1 status)
    then show ?case using 2 by (auto simp: plan_outcome_def intro!: post_ret)
  next
    case (2 status nextStatus now w4)
    note nxt = 2 and outer = \<open>view w3 = view w2\<close> \<open>view w2 = view w1\<close> \<open>view w1 = view w\<close>
    let ?p = "cancelled_plan prin plan nextStatus now"
    show ?case
    proof (rule post_plan_done [OF s, where plan = "\<lambda>p. p" and call = "PlanCancel prin input", unfolded plan_scope.simps])
      show "x_receipts (view w4) (migration_scope (mx_TenantID input) (mx_WorkspaceID input) ''migration.plan.cancel'' (mx_IdempotencyKey input)) = None"
        using nxt \<open>x_receipts (view w2) _ = None\<close> outer by simp
      fix p w5 assume run: "UpdateMigrationPlan (ms_plans s) ?p ?n w4 = (Inr p, w5)"
      have old: "x_plans (view w4) ?key = Some plan"
        using FindMigrationPlan_Inr [OF s \<open>FindMigrationPlan _ _ w1 = _\<close>] outer nxt by simp
      then have key: "plan_key plan = ?key" using plans_okD(1) [OF w, of ?key plan] nxt outer by simp
      from UpdateMigrationPlan_Inr [OF s run] old key have "MigrationPlan_Validate ?p = None" "plan_at ?n plan" "p = set_plan ?p plan"
        "view w5 = put_plans ((x_plans (view w4))(plan_key plan \<mapsto> p)) (view w4)" by (auto simp del: fun_upd_apply)
      with old key nxt plan_authorize_granted [OF s \<open>authorizeMigration _ _ _ _ w = _\<close>]
      show "view w5 = plan_put p (view w4) \<and> plan_effect M (PlanCancel prin input) (view w4) p
          (plan_entry prin plan (mp_Version p) ''migration.plan.cancel'' (mx_RequestID input) (mx_IdempotencyKey input)
             (mp_CompatibilityHash plan) ?h now) \<and> ?h = plan_hash (PlanCancel prin input) p"
        by (auto simp: plan_put_def simp del: fun_upd_apply)
    qed
  qed
qed

lemma plan_exec_post:
  assumes "migration_serves s M view" "plans_ok (view w)"
  shows "post view (plan_outcome M call) (plan_exec s call) w"
  using assms PlanCreate_post PlanCancel_post by (cases call) (simp_all only:)

section \<open>Every sequence of calls\<close>

text \<open>What of a plan never changes.\<close>

definition plan_core :: "MigrationPlan \<Rightarrow> plan_key \<times> fingerprint \<times> int \<times> CompatibilityReport \<times> IdentityKey \<times> time" where
  "plan_core p = (plan_key p, fingerprint p, mp_FailureSampleLimit p, mp_Compatibility p, mp_CreatedBy p, mp_CreatedAt p)"

definition plan_moves :: "MigrationPlan \<Rightarrow> MigrationPlan \<Rightarrow> bool" where
  "plan_moves p p' \<longleftrightarrow> p' = p \<or> (plan_core p' = plan_core p \<and> mp_Version p' = mp_Version p + 1
     \<and> (mp_Status p \<in> {MigrationStatusDraft, MigrationStatusApproved} \<and> mp_Status p' = MigrationStatusCancelled
        \<or> mp_Status p = MigrationStatusRunning \<and> mp_Status p' = MigrationStatusCancelRequested \<and> mp_CancelRequestedAt p' \<noteq> None))"

definition plan_fresh :: "MigrationPlan \<Rightarrow> bool" where
  "plan_fresh p \<longleftrightarrow> mp_Status p = MigrationStatusDraft \<and> mp_Version p = 1 \<or> mp_Status p = MigrationStatusCancelled \<and> mp_Version p = 2"

definition plans_grow :: "MigrationDB \<Rightarrow> MigrationDB \<Rightarrow> bool" where
  "plans_grow v v' \<longleftrightarrow>
     (\<forall>k p. x_plans v k = Some p \<longrightarrow> (\<exists>p'. x_plans v' k = Some p' \<and> plan_moves p p'))
     \<and> (\<forall>k p'. x_plans v k = None \<longrightarrow> x_plans v' k = Some p' \<longrightarrow> plan_fresh p')
     \<and> x_receipts v \<subseteq>\<^sub>m x_receipts v' \<and> (\<exists>entries. x_audit v' = x_audit v @ entries)"

lemma plan_moves_trans: "plan_moves a b \<Longrightarrow> plan_moves b c \<Longrightarrow> plan_moves a c"
  by (auto simp: plan_moves_def)

lemma plan_fresh_moves: "plan_fresh a \<Longrightarrow> plan_moves a b \<Longrightarrow> plan_fresh b"
  by (auto simp: plan_moves_def plan_fresh_def)

lemma plans_grow_refl: "plans_grow v v"
  by (simp add: plans_grow_def plan_moves_def)

lemma plans_grow_trans:
  assumes "plans_grow a b" "plans_grow b c"
  shows "plans_grow a c"
  unfolding plans_grow_def
proof (intro conjI allI impI)
  show "\<exists>p'. x_plans c k = Some p' \<and> plan_moves p p'" if "x_plans a k = Some p" for k p
    using assms that plan_moves_trans unfolding plans_grow_def by meson
  show "plan_fresh p'" if "x_plans a k = None" "x_plans c k = Some p'" for k p'
  proof (cases "x_plans b k")
    case None
    with assms(2) that show ?thesis unfolding plans_grow_def by blast
  next
    case (Some p)
    with assms that plan_fresh_moves [of p p'] show ?thesis unfolding plans_grow_def by (metis option.inject)
  qed
  show "x_receipts a \<subseteq>\<^sub>m x_receipts c" using assms map_le_trans unfolding plans_grow_def by blast
  show "\<exists>entries. x_audit c = x_audit a @ entries" using assms unfolding plans_grow_def by (metis append_assoc)
qed

text \<open>A cancelled plan stays valid.\<close>

lemma next_status_known: "next_status st = Inr (Some st') \<Longrightarrow> known_status st'"
  by (cases st) auto

lemma set_plan_valid:
  "MigrationPlan_Validate old = None \<Longrightarrow> MigrationPlan_Validate (cancelled_plan prin old st now) = None \<Longrightarrow>
     MigrationPlan_Validate (set_plan (cancelled_plan prin old st now) old) = None"
  by (auto simp: MigrationPlan_Validate_def set_plan_def cancelled_plan_def split: if_splits)

lemma plans_ok_put:
  assumes "plans_ok v" "MigrationPlan_Validate p = None" "mp_CompatibilityHash p = hashCompatibility (mp_Compatibility p)"
    and "\<And>k q. x_plans v k = Some q \<Longrightarrow> fingerprint q = fingerprint p \<Longrightarrow> k = plan_key p"
  shows "plans_ok (plan_put p v)"
  unfolding plans_ok_def
proof (intro conjI allI impI)
  have at: "q = p \<and> k = plan_key p \<or> x_plans v k = Some q" if "x_plans (plan_put p v) k = Some q" for k q
    using that by (simp split: if_splits)
  show "k = k'" if "x_plans (plan_put p v) k = Some q" "x_plans (plan_put p v) k' = Some q'" "fingerprint q = fingerprint q'" for k k' q q'
    using at [OF that(1)] at [OF that(2)] that(3) plans_okD(4) [OF assms(1)] assms(4) by metis
  fix k q assume "x_plans (plan_put p v) k = Some q"
  from at [OF this] plans_okD(1-3) [OF assms(1), of k q] assms(2,3)
  show "plan_key q = k" "MigrationPlan_Validate q = None" "mp_CompatibilityHash q = hashCompatibility (mp_Compatibility q)" by auto
qed

lemma plan_effect_put:
  assumes "plan_effect M call v p entry" "plans_ok v"
  shows "plans_ok (plan_put p v) \<and> (case x_plans v (plan_key p) of None \<Rightarrow> plan_fresh p | Some old \<Rightarrow> p \<noteq> old \<and> plan_moves old p)"
proof (cases call)
  case (PlanCreate prin input)
  with assms have new: "x_plans v (plan_key p) = None" and free: "\<forall>k q. x_plans v k = Some q \<longrightarrow> fingerprint q \<noteq> fingerprint p"
    and ok: "MigrationPlan_Validate p = None" "mp_CompatibilityHash p = hashCompatibility (mp_Compatibility p)" "plan_fresh p"
    by (auto simp: new_plan_def plan_fresh_def)
  from plans_ok_put [OF assms(2) ok(1,2)] free have "plans_ok (plan_put p v)" by blast
  with new ok show ?thesis by simp
next
  case (PlanCancel prin input)
  let ?key = "(mx_PlanID input, mx_TenantID input, mx_WorkspaceID input, mx_SchemaID input)"
  from PlanCancel assms obtain old st now where old: "x_plans v ?key = Some old" and st: "next_status (mp_Status old) = Inr (Some st)"
    and p: "p = set_plan (cancelled_plan prin old st now) old" and valid: "MigrationPlan_Validate (cancelled_plan prin old st now) = None"
    by auto
  note key = plans_okD(1) [OF assms(2) old]
  have m: "plan_moves old p" using st
    by (cases "mp_Status old") (auto simp: p plan_moves_def plan_core_def, auto simp: set_plan_def cancelled_plan_def)
  have "mp_Version p = mp_Version old + 1" by (simp add: p set_plan_def)
  then have n: "p \<noteq> old" by auto
  have "plans_ok (plan_put p v)"
  proof (rule plans_ok_put [OF assms(2)])
    show "MigrationPlan_Validate p = None" using set_plan_valid [OF plans_okD(2) [OF assms(2) old] valid] p by simp
    show "mp_CompatibilityHash p = hashCompatibility (mp_Compatibility p)"
      using plans_okD(3) [OF assms(2) old] by (simp add: p set_plan_def)
    fix k q assume q: "x_plans v k = Some q" "fingerprint q = fingerprint p"
    with plans_okD(4) [OF assms(2) q(1) old] key p show "k = plan_key p" by simp
  qed
  with old key m n p show ?thesis by simp
qed

lemma plan_outcome_grows:
  assumes "plan_outcome M call v a v'" "plans_ok v"
  shows "plans_ok v' \<and> plans_grow v v'"
proof (cases "v' = v")
  case False
  with assms(1) have d: "plan_done M call v (fst a) v'" by (auto simp: plan_outcome_def split: option.splits)
  then obtain entry where e: "plan_effect M call v (fst a) entry" and new: "x_receipts v (plan_scope call) = None"
    and v': "v' = recorded entry (receipt_for (plan_scope call) (plan_hash call (fst a)) (fst a)) (plan_put (fst a) v)"
    by (auto simp: plan_done_def)
  note put = plan_effect_put [OF e assms(2)]
  have plans: "x_plans v' = (x_plans v)(plan_key (fst a) \<mapsto> fst a)" using v' by simp
  have "plans_ok v' = plans_ok (plan_put (fst a) v)" unfolding plans_ok_def plans plan_put_simps ..
  moreover have "plan_fresh q" if "x_plans v k = None" "x_plans v' k = Some q" for k q
    using that put by (auto simp: plans split: if_splits)
  moreover have "\<exists>q'. x_plans v' k = Some q' \<and> plan_moves q q'" if "x_plans v k = Some q" for k q
    using that put by (auto simp: plans plan_moves_def [of q q])
  moreover have "x_receipts v \<subseteq>\<^sub>m x_receipts v'" "\<exists>entries. x_audit v' = x_audit v @ entries"
    using v' new by (auto simp: map_le_def)
  ultimately show ?thesis using put unfolding plans_grow_def by blast
qed (use assms plans_grow_refl in auto)

lemma plan_exec_grows:
  assumes s: "migration_serves s M view" and w: "plans_ok (view w)"
  shows "plans_ok (view (snd (plan_exec s call w))) \<and> plans_grow (view w) (view (snd (plan_exec s call w)))"
proof -
  obtain r w' where run: "plan_exec s call w = (r, w')" by force
  from postD [OF plan_exec_post [OF s w] run] have "view w' = view w \<or> (\<exists>a. plan_outcome M call (view w) a (view w'))"
    by (cases r) auto
  with plan_outcome_grows w plans_grow_refl run show ?thesis by fastforce
qed

lemma plan_run_grows:
  assumes s: "migration_serves s M view" and w: "plans_ok (view w)"
  shows "plans_ok (view (plan_run s calls w)) \<and> plans_grow (view w) (view (plan_run s calls w))"
  using w
proof (induction calls arbitrary: w)
  case Nil
  then show ?case by (simp add: plan_run_def plans_grow_refl)
next
  case (Cons call calls)
  have r: "plan_run s (call # calls) w = plan_run s calls (snd (plan_exec s call w))" by (simp add: plan_run_def)
  from plan_exec_grows [OF s Cons.prems] Cons.IH show ?case unfolding r using plans_grow_trans by blast
qed

text \<open>
  C25: Whatever calls are made on migration plans, in any order, by anyone and with any failures
  of the database: no plan is lost; its identity, versions, mode, report, creator and creation time
  stay; it is changed at most once, from DRAFT or APPROVED to CANCELLED or from RUNNING to
  CANCEL_REQUESTED, with the next version; a plan that is new is a draft of version 1 or cancelled
  in version 2; every plan is valid, carries the hash of its report, and no two have the same
  fingerprint; receipts and audit entries are only ever added.
\<close>

theorem migration_plans:
  assumes "migration_serves s M view" "plans_ok (view w)" "w' = plan_run s calls w"
  shows "(\<forall>k p. x_plans (view w) k = Some p \<longrightarrow> (\<exists>p'. x_plans (view w') k = Some p' \<and> (p' = p
        \<or> (plan_core p' = plan_core p \<and> mp_Version p' = mp_Version p + 1
           \<and> (mp_Status p \<in> {MigrationStatusDraft, MigrationStatusApproved} \<and> mp_Status p' = MigrationStatusCancelled
              \<or> mp_Status p = MigrationStatusRunning \<and> mp_Status p' = MigrationStatusCancelRequested)))))
    \<and> (\<forall>k p. x_plans (view w) k = None \<longrightarrow> x_plans (view w') k = Some p \<longrightarrow>
        mp_Status p = MigrationStatusDraft \<and> mp_Version p = 1 \<or> mp_Status p = MigrationStatusCancelled \<and> mp_Version p = 2)
    \<and> (\<forall>k p. x_plans (view w') k = Some p \<longrightarrow> MigrationPlan_Validate p = None
        \<and> mp_CompatibilityHash p = hashCompatibility (mp_Compatibility p)
        \<and> (\<forall>k' p'. x_plans (view w') k' = Some p' \<longrightarrow> fingerprint p = fingerprint p' \<longrightarrow> k = k'))
    \<and> x_receipts (view w) \<subseteq>\<^sub>m x_receipts (view w') \<and> (\<exists>entries. x_audit (view w') = x_audit (view w) @ entries)"
proof -
  note g = plan_run_grows [OF assms(1,2), of calls, folded assms(3)]
  note ok = plans_okD [OF conjunct1 [OF g]]
  show ?thesis
  proof (intro conjI)
    show "\<forall>k p. x_plans (view w) k = Some p \<longrightarrow> (\<exists>p'. x_plans (view w') k = Some p' \<and> (p' = p
        \<or> (plan_core p' = plan_core p \<and> mp_Version p' = mp_Version p + 1
           \<and> (mp_Status p \<in> {MigrationStatusDraft, MigrationStatusApproved} \<and> mp_Status p' = MigrationStatusCancelled
              \<or> mp_Status p = MigrationStatusRunning \<and> mp_Status p' = MigrationStatusCancelRequested))))"
      using g unfolding plans_grow_def plan_moves_def by metis
  qed (use g ok in \<open>unfold plans_grow_def plan_fresh_def, blast+\<close>)
qed

text \<open>
  C26: After a call on migration plans succeeded and changed something, the same call made again
  after any other calls changes nothing, and answers the same plan, marked as replayed, or an
  error; the call had been made by a member who may manage schemas, and had stored one plan
  together with its audit entry and its receipt.
\<close>

theorem migration_replay:
  assumes "migration_serves s M view" "plans_ok (view w)" "plan_exec s call w = (Inr (p, again), w1)" "view w1 \<noteq> view w"
    and "w2 = plan_run s calls w1" "plan_exec s call w2 = (r, w3)"
  shows "view w3 = view w2 \<and> (\<forall>a. r = Inr a \<longrightarrow> a = (p, True)) \<and> \<not> again
    \<and> (\<exists>entry. plan_effect M call (view w) p entry
         \<and> view w1 = recorded entry (receipt_for (plan_scope call) (plan_hash call p) p) (plan_put p (view w)))"
proof -
  from postD [OF plan_exec_post [OF assms(1,2)] assms(3)] have "plan_outcome M call (view w) (p, again) (view w1)" by simp
  with assms(4) have d: "plan_done M call (view w) p (view w1)" "\<not> again" by (auto simp: plan_outcome_def split: option.splits)
  from plan_exec_grows [OF assms(1,2), of call] assms(3) have ok: "plans_ok (view w1)" by simp
  note g = plan_run_grows [OF assms(1) ok, of calls, folded assms(5)]
  from d(1) have "x_receipts (view w1) (plan_scope call) = Some (receipt_for (plan_scope call) (plan_hash call p) p)"
    by (auto simp: plan_done_def)
  with g have x: "x_receipts (view w2) (plan_scope call) = Some (receipt_for (plan_scope call) (plan_hash call p) p)"
    unfolding plans_grow_def map_le_def by (metis domI)
  from postD [OF plan_exec_post [OF assms(1) conjunct1 [OF g]] assms(6)] x
  have "view w3 = view w2 \<and> (\<forall>a. r = Inr a \<longrightarrow> a = (p, True))" by (cases r) (auto simp: plan_outcome_def)
  with d show ?thesis by (auto simp: plan_done_def)
qed

section \<open>A database in memory\<close>

text \<open>An insert checks the index of fingerprints, too; the query finds that there is no such plan, or fails.\<close>

definition has_fingerprint :: "MigrationDB \<Rightarrow> fingerprint \<Rightarrow> bool" where
  "has_fingerprint v f \<longleftrightarrow> (\<exists>k p. x_plans v k = Some p \<and> fingerprint p = f)"

definition memory_plans :: "MigrationDB plan_database" where
  "memory_plans =
     \<lparr>db_plans = (memory_collection plan_key x_plans put_plans)
        \<lparr>c_InsertOne := (\<lambda>p v. if has_fingerprint v (fingerprint p) then (DuplicateKey, v)
           else c_InsertOne (memory_collection plan_key x_plans put_plans) p v)\<rparr>,
      db_PlanByFingerprint = (\<lambda>f v. (if has_fingerprint v f then FindError ''busy'' else NoDocuments, v))\<rparr>"

definition sample_definition :: "int \<Rightarrow> string \<Rightarrow> SchemaStatus \<Rightarrow> SchemaDefinition" where
  "sample_definition n doc st =
     \<lparr>sd_TenantID = ''t'', sd_SchemaID = ''s'', sd_Name = ''n'', sd_Version = n, sd_Revision = 1, sd_Status = st, sd_JSONSchema = doc,
      sd_SemanticTypes = [], sd_ContentHash = ''h'', sd_CreatedBy = identityKey sample_owner, sd_PublishedBy = None, sd_CreatedAt = 1,
      sd_UpdatedAt = 1, sd_PublishedAt = None\<rparr>"

definition sample_versions :: "(MigrationDB, schema_key, SchemaDefinition) collection" where
  "sample_versions =
     \<lparr>c_FindOne = (\<lambda>(t, i, n) v. (if n = 1 then Found (sample_definition 1 sample_published SchemaPublished)
           else if n = 2 then Found (sample_definition 2 sample_candidate SchemaDraft) else NoDocuments, v)),
      c_InsertOne = (\<lambda>_ v. (InsertError ''read only'', v)), c_UpdateOne = (\<lambda>_ _ _ v. (Inl ''read only'', v)),
      c_FindOneAndUpdate = (\<lambda>_ _ _ v. (FindError ''read only'', v)), c_ReplaceOne = (\<lambda>_ _ v. (Some ''read only'', v))\<rparr>"

definition sample_migrations :: "(MigrationDB, nat) MigrationService" where
  "sample_migrations =
     \<lparr>ms_registry = \<lparr>db_definitions = sample_versions, db_IsDuplicateKeyError = (\<lambda>_. False), db_ListSchemas = (\<lambda>_ _ v. (Inr [], v)),
        db_SchemaNow = (\<lambda>v. (7, v)), db_SchemaTransaction = memory_transaction\<rparr>,
      ms_plans = memory_plans, ms_receipts = memory_receipts, ms_members = (\<lambda>_ _ _. ret sample_membership),
      ms_audit = memory_audit_writer, ms_Now = (\<lambda>v. (5, v)), ms_Transaction = Some memory_transaction,
      ms_Random = (\<lambda>v. (Inr ''0123456789abcdef'', v)), ms_Arrange = (\<lambda>v. (sample_arrange, v)), ms_quote = (\<lambda>s. s),
      ms_ext_json = Inr, ms_library = sample_library\<rparr>"

interpretation migration_store: receipt_store "receipt_Find migration_receipts memory_receipts"
  "receipt_Save migration_receipts memory_receipts" memory_audit_writer "rk_NotFound migration_receipts" "\<lambda>v. v"
  by (rule mongo_receipt_store [OF realises_memory [OF part_receipts] memory_audit_adds]) (simp add: migration_receipts_def)

lemma memory_plans_realises: "realises (db_plans memory_plans) plan_key x_plans put_plans (\<lambda>v. v)"
proof -
  have "collection_laws (memory_collection plan_key x_plans put_plans) plan_key x_plans (put_plans Map.empty)"
    using realises_memory [OF part_plans, of plan_key] by (simp add: realises_def)
  then show ?thesis
    unfolding realises_def memory_plans_def collection_laws_def find_law_def insert_law_def update_law_def find_update_law_def replace_law_def
    by (auto simp: part_plans split: if_splits)
qed

lemma sample_migrations_serve: "migration_serves sample_migrations {sample_membership} (\<lambda>v. v)"
proof -
  have "fingerprint p \<noteq> fingerprint d"
    if "c_InsertOne (db_plans memory_plans) d w = (Inserted, w')" "x_plans w k = Some p" for d w w' k p
  proof -
    from that(1) have "\<not> has_fingerprint w (fingerprint d)" by (auto simp: memory_plans_def split: if_splits)
    with that(2) show ?thesis unfolding has_fingerprint_def by blast
  qed
  moreover have "w' = w \<and> (\<forall>p. r = Found p \<longrightarrow> fingerprint p = f \<and> (\<exists>k. x_plans w k = Some p))"
    if "db_PlanByFingerprint memory_plans f w = (r, w')" for f w r w'
    using that by (auto simp: memory_plans_def split: if_splits)
  moreover have "w' = w" if "c_FindOne sample_versions k w = (r, w')" for k w r w'
    using that by (cases k) (simp add: sample_versions_def)
  ultimately show ?thesis
    unfolding migration_serves_def sample_migrations_def MigrationService.select_convs schema_database.select_convs
    by (intro conjI allI impI memory_plans_realises realises_memory part_receipts memory_audit_adds exI [of _ memory_transaction]
        memory_transaction_laws refl) (auto simp: reads_members_def ret_def)
qed

definition sample_plan_input :: MigrationPlanInput where
  "sample_plan_input = \<lparr>mi_TenantID = ''t'', mi_WorkspaceID = ''w'', mi_SchemaID = ''s'', mi_FromVersion = 1, mi_ToVersion = 2,
     mi_Mode = MigrationModeDryRun, mi_FailureSampleLimit = 10, mi_RequestID = ''r'', mi_IdempotencyKey = ''k''\<rparr>"

definition sample_cancel_input :: MigrationCancelInput where
  "sample_cancel_input = \<lparr>mx_TenantID = ''t'', mx_WorkspaceID = ''w'', mx_SchemaID = ''s'', mx_PlanID = ''p'',
     mx_ExpectedVersion = 1, mx_RequestID = ''r'', mx_IdempotencyKey = ''k''\<rparr>"

definition no_plans :: MigrationDB where
  "no_plans = \<lparr>x_receipts = Map.empty, x_audit = [], x_plans = Map.empty\<rparr>"

lemma no_plans_ok: "plans_ok no_plans"
  by (simp add: plans_ok_def no_plans_def)

definition sample_plan_id :: string where
  "sample_plan_id = ''migration-'' @ hex_encode ''0123456789abcdef''"

definition sample_plan :: MigrationPlan where
  "sample_plan = new_plan sample_owner sample_plan_input \<lparr>cr_Compatible = True, cr_Changes = []\<rparr>
     sample_plan_id 5"

lemma sample_plan_valid: "MigrationPlan_Validate sample_plan = None"
proof -
  have "\<not> blank sample_plan_id" by code_simp
  moreover have "HasPrefix (sha256_ref s) ''sha256:''" for s by (simp add: HasPrefix_def sha256_ref_def)
  ultimately show ?thesis
    by (simp add: sample_plan_def MigrationPlan_Validate_def new_plan_def sample_plan_input_def known_mode_def hashCompatibility_def
        sample_owner_def identityKey_def unset_identity_def IsZero_def trim_simps)
qed

lemma sample_plan_created:
  "\<exists>w. plan_exec sample_migrations (PlanCreate sample_owner sample_plan_input) no_plans = (Inr (sample_plan, False), w)
     \<and> x_plans w (plan_key sample_plan) = Some sample_plan"
proof -
  let ?i = sample_plan_input and ?r = "\<lparr>cr_Compatible = True, cr_Changes = []\<rparr>"
  have a: "authorizeMigration sample_migrations sample_owner (mi_TenantID ?i) (mi_WorkspaceID ?i) v = (Inr (), v)" for v
    by (simp add: authorizeMigration_def sample_migrations_def sample_plan_input_def sample_authorized go_simps trim_simps)
  have i: "\<not> blank (mi_IdempotencyKey ?i)" "\<not> refused_input ?i"
    by (simp_all add: sample_plan_input_def refused_input_def known_mode_def trim_simps)
  have rep: "plan_report sample_migrations ?i v = (Inr ?r, v)" for v
    by (simp add: plan_report_def schema_Get_def FindG_def sample_migrations_def sample_versions_def sample_plan_input_def
        sample_definition_def sample_report go_simps)
  have rc: "migration_receipt sample_migrations k h no_plans = (Inr None, no_plans)" for k h
    unfolding migration_receipt_def by (simp add: sample_migrations_def memory_find_receipt migration_receipts_def no_plans_def)
  have f: "FindMigrationPlanByFingerprint (ms_plans sample_migrations) x no_plans = (Inl (SchemaErr ErrMigrationPlanNotFound), no_plans)" for x
    by (simp add: FindMigrationPlanByFingerprint_def sample_migrations_def memory_plans_def has_fingerprint_def no_plans_def)
  have n: "newMigrationPlanID sample_migrations v = (Inr sample_plan_id, v)"
    "nowG (ms_Now sample_migrations) v = (Inr 5, v)" for v
    by (simp_all add: newMigrationPlanID_def nowG_def sample_migrations_def sample_plan_id_def)
  have c: "CreateMigrationPlan (ms_plans sample_migrations) sample_plan no_plans = (Inr (), plan_put sample_plan no_plans)"
    by (simp add: CreateMigrationPlan_def sample_plan_valid go_simps InsertNew_def sample_migrations_def memory_plans_def
        has_fingerprint_def no_plans_def memory_collection_def plan_put_def del: fun_upd_apply)
  have t: "in_transaction sample_migrations = memory_transaction" by (simp add: in_transaction_def sample_migrations_def fun_eq_iff)
  let ?h = "migrationPlanRequestHash ?i (hashCompatibility ?r)"
    and ?k = "migration_scope (mi_TenantID ?i) (mi_WorkspaceID ?i) ''migration.plan.create'' (mi_IdempotencyKey ?i)"
    and ?e = "plan_entry sample_owner sample_plan (mp_Version sample_plan) ''migration.plan.create'' (mi_RequestID ?i) (mi_IdempotencyKey ?i) []
       (migrationPlanRequestHash ?i (hashCompatibility ?r)) 5"
  have e: "complete_entry ?e"
    by (simp add: complete_entry_def plan_entry_def sample_plan_id_def sample_plan_def new_plan_def sample_owner_def identityKey_def sample_plan_input_def IsZero_def
        migrationPlanRequestHash_def)
  have chk: "rk_Check migration_receipts (receipt_for ?k ?h sample_plan) = None"
    by (simp add: migration_receipts_def incomplete_receipt_def receipt_for_def migration_scope_def sample_plan_input_def migrationPlanRequestHash_def)
  have fin: "migration_record sample_migrations ''append migration audit'' ?e (receipt_for ?k ?h sample_plan) (plan_put sample_plan no_plans)
     = (Inr sample_plan, recorded ?e (receipt_for ?k ?h sample_plan) (plan_put sample_plan no_plans))"
    using e chk by (simp add: migration_record_def go_simps wrapG_def memory_audit_writer_def mongo_audit_Append_def receipt_Save_def
      memory_collection_def recorded_def put_receipts_def sample_migrations_def no_plans_def)
  have p: "new_plan sample_owner ?i ?r sample_plan_id 5 = sample_plan" by (simp add: sample_plan_def)
  have "plan_exec sample_migrations (PlanCreate sample_owner ?i) no_plans
     = (Inr (sample_plan, False), recorded ?e (receipt_for ?k ?h sample_plan) (plan_put sample_plan no_plans))"
    unfolding plan_exec.simps MigrationService_Create_def option.case Let_def
    by (simp add: bindG_run catchG_run a i rep rc f n p sample_plan_valid c t memory_transaction_def fin checkG_run ret_run)
  then show ?thesis by simp
qed

theorem migration_plans_witness:
  "x_plans (plan_run sample_migrations [PlanCreate sample_owner sample_plan_input] no_plans) (plan_key sample_plan) = Some sample_plan
   \<and> (\<exists>entries. x_audit (plan_run sample_migrations [PlanCreate sample_owner sample_plan_input] no_plans) = x_audit no_plans @ entries)"
  using migration_plans [OF sample_migrations_serve no_plans_ok refl, of "[PlanCreate sample_owner sample_plan_input]"]
    sample_plan_created by (fastforce simp: plan_run_def)

theorem migration_replay_witness:
  "\<exists>w r w'. plan_exec sample_migrations (PlanCreate sample_owner sample_plan_input) no_plans = (Inr (sample_plan, False), w)
     \<and> plan_exec sample_migrations (PlanCreate sample_owner sample_plan_input)
         (plan_run sample_migrations [PlanCancel sample_owner sample_cancel_input] w) = (r, w')
     \<and> (\<forall>a. r = Inr a \<longrightarrow> a = (sample_plan, True))"
proof -
  obtain w where c: "plan_exec sample_migrations (PlanCreate sample_owner sample_plan_input) no_plans = (Inr (sample_plan, False), w)"
    and "x_plans w (plan_key sample_plan) = Some sample_plan" using sample_plan_created by blast
  then have changed: "w \<noteq> no_plans" by (auto simp: no_plans_def)
  obtain r w' where "plan_exec sample_migrations (PlanCreate sample_owner sample_plan_input)
      (plan_run sample_migrations [PlanCancel sample_owner sample_cancel_input] w) = (r, w')" by force
  with migration_replay [OF sample_migrations_serve no_plans_ok c changed refl this] c show ?thesis by blast
qed

end
