(* ===== verification/Rebuild.thy ===== *)
theory Rebuild
  imports ReadPointers Receipts Json
begin

text \<open>
  \<open>projection/rebuild.go\<close> and \<open>archive.go\<close>: a rebuild of the projections of a workspace. Users
  start and cancel an operation; a worker builds the mapping generation, replays the archived
  events into staging collections, switches the read pointers and records the outcome. Operations
  are saved under their revision, so that of two writers one wins.
\<close>

section \<open>The event archive\<close>

definition MaxArchivedReplayEvents :: nat where
  "MaxArchivedReplayEvents = 100000"

definition archiveReplayPageSize :: int where
  "archiveReplayPageSize = int MaxArchivedReplayEvents + 1"

record ArchiveEntry =
  ar_EventID :: string
  ar_Consumer :: string
  ar_Subject :: string
  ar_TenantID :: string
  ar_WorkspaceID :: string
  ar_SourceSystem :: string
  ar_EventType :: string
  ar_SchemaVersion :: int
  ar_AggregateType :: string
  ar_AggregateID :: string
  ar_AggregateVersion :: int
  ar_OccurredAt :: time
  ar_ReceivedAt :: time
  ar_PayloadHash :: string
  ar_Raw :: string

definition ArchiveEntry_Validate :: "ArchiveEntry \<Rightarrow> goerr option" where
  "ArchiveEntry_Validate entry =
     (if list_ex blank [ar_EventID entry, ar_Consumer entry, ar_Subject entry, ar_TenantID entry, ar_WorkspaceID entry,
           ar_SourceSystem entry, ar_EventType entry, ar_AggregateType entry, ar_AggregateID entry]
         \<or> ar_SchemaVersion entry < 1 \<or> ar_AggregateVersion entry < 1 \<or> IsZero (ar_OccurredAt entry)
         \<or> IsZero (ar_ReceivedAt entry) \<or> ar_Raw entry = []
      then Some (ProjectionErr ErrEventArchiveInvalid)
      else if ar_PayloadHash entry \<noteq> sha256_ref (ar_Raw entry) then Some (ProjectionErr ErrEventArchiveInvalid)
      else None)"

type_synonym archive_key = "string \<times> string"

definition archive_key :: "ArchiveEntry \<Rightarrow> archive_key" where
  "archive_key entry = (ar_Consumer entry, ar_EventID entry)"

text \<open>\<open>av_query\<close> runs the query of \<open>List\<close>, in the order of occurrence.\<close>

record 'w EventArchive =
  av_collection :: "('w, archive_key, ArchiveEntry) collection"
  av_query :: "string \<Rightarrow> string \<Rightarrow> int \<Rightarrow> 'w \<Rightarrow> (string + ArchiveEntry list) \<times> 'w"

definition Archive :: "'w EventArchive option \<Rightarrow> ArchiveEntry \<Rightarrow> ('w, unit) go" where
  "Archive repository entry = (case repository of None \<Rightarrow> fail (ProjectionErr ErrEventArchiveUnavailable) | Some a \<Rightarrow>
     bindG (checkG (ArchiveEntry_Validate entry)) (\<lambda>_ w.
       case c_InsertOne (av_collection a) entry w of
         (Inserted, w') \<Rightarrow> (Inr (), w')
       | (InsertError m, w') \<Rightarrow> (Inl (Wrap ''insert projection event archive'' (External m)), w')
       | (DuplicateKey, w') \<Rightarrow>
           bindG (FindG (av_collection a) (archive_key entry) ''find projection event archive duplicate'') (\<lambda>found.
             case found of
               None \<Rightarrow> fail (Wrap ''find projection event archive duplicate'' (External ''no documents in result''))
             | Some existing \<Rightarrow>
                 if ar_PayloadHash existing \<noteq> ar_PayloadHash entry \<or> ar_Raw existing \<noteq> ar_Raw entry
                 then fail (ProjectionErr ErrEventArchivePayloadConflict) else ret ()) w'))"

definition archive_List :: "'w EventArchive option \<Rightarrow> string \<Rightarrow> string \<Rightarrow> int \<Rightarrow> ('w, ArchiveEntry list) go" where
  "archive_List repository tenantID workspaceID limit =
     (case repository of None \<Rightarrow> fail (ProjectionErr ErrEventArchiveUnavailable) | Some a \<Rightarrow>
        if blank tenantID \<or> blank workspaceID \<or> limit < 1 \<or> limit > archiveReplayPageSize
        then fail (ProjectionErr ErrEventArchiveInvalid)
        else (\<lambda>w. case av_query a tenantID workspaceID limit w of
            (Inl m, w') \<Rightarrow> (Inl (Wrap ''list projection event archive'' (External m)), w')
          | (Inr entries, w') \<Rightarrow> (Inr entries, w')))"

section \<open>Operations\<close>

definition maxCatalogID :: nat where
  "maxCatalogID = 128"

definition nonBlankBounded :: "string \<Rightarrow> nat \<Rightarrow> bool" where
  "nonBlankBounded value maximum =
     (let trimmed = TrimSpace value
      in trimmed \<noteq> [] \<and> length trimmed \<le> maximum \<and> \<not> ContainsAny trimmed [CHR 0x09, CHR 0x0D, CHR 0x0A])"

datatype RebuildStatus =
    RebuildAccepted | RebuildRunning | RebuildCancelRequested | RebuildCancelled | RebuildSucceeded | RebuildFailed
  | OtherRebuildStatus string

record RebuildOperation =
  rb_ID :: string
  rb_TenantID :: string
  rb_WorkspaceID :: string
  rb_Status :: RebuildStatus
  rb_Revision :: int
  rb_GenerationBefore :: string
  rb_StagingGenerationID :: string
  rb_StagingCollection :: string
  rb_ActiveGenerationID :: string
  rb_MappingCount :: int
  rb_CreatedBy :: IdentityKey
  rb_UpdatedBy :: IdentityKey
  rb_CreatedAt :: time
  rb_UpdatedAt :: time
  rb_StartedAt :: "time option"
  rb_FinishedAt :: "time option"
  rb_SafeError :: string

definition RebuildOperation_Validate :: "RebuildOperation \<Rightarrow> goerr option" where
  "RebuildOperation_Validate operation =
     (if \<not> nonBlankBounded (rb_ID operation) 128 \<or> \<not> nonBlankBounded (rb_TenantID operation) maxCatalogID
         \<or> \<not> nonBlankBounded (rb_WorkspaceID operation) maxCatalogID \<or> rb_Revision operation < 1 \<or> rb_MappingCount operation < 0
         \<or> IsZero (rb_CreatedAt operation) \<or> IsZero (rb_UpdatedAt operation) \<or> unset_identity (rb_CreatedBy operation)
         \<or> unset_identity (rb_UpdatedBy operation)
      then Some (ProjectionErr ErrRebuildInvalid)
      else if TrimSpace (rb_SafeError operation) \<noteq> rb_SafeError operation \<or> length (rb_SafeError operation) > 512
      then Some (ProjectionErr ErrRebuildInvalid)
      else if (case rb_Status operation of
           RebuildAccepted \<Rightarrow> rb_StartedAt operation \<noteq> None \<or> rb_FinishedAt operation \<noteq> None
         | RebuildRunning \<Rightarrow> rb_StartedAt operation = None \<or> rb_FinishedAt operation \<noteq> None
         | RebuildCancelRequested \<Rightarrow> rb_StartedAt operation = None \<or> rb_FinishedAt operation \<noteq> None
         | RebuildCancelled \<Rightarrow> rb_FinishedAt operation = None
         | RebuildSucceeded \<Rightarrow> rb_FinishedAt operation = None
         | RebuildFailed \<Rightarrow> rb_FinishedAt operation = None
         | OtherRebuildStatus s \<Rightarrow> True)
      then Some (ProjectionErr ErrRebuildInvalid)
      else None)"

section \<open>The repository\<close>

type_synonym rebuild_key = "string \<times> string \<times> string"

definition rebuild_key :: "RebuildOperation \<Rightarrow> rebuild_key" where
  "rebuild_key o1 = (rb_ID o1, rb_TenantID o1, rb_WorkspaceID o1)"

text \<open>\<open>rd_runnable\<close> runs the query of \<open>ListRunnable\<close>.\<close>

record 'w rebuild_database =
  rd_operations :: "('w, rebuild_key, RebuildOperation) collection"
  rd_runnable :: "int \<Rightarrow> 'w \<Rightarrow> (string + RebuildOperation list) \<times> 'w"
  rd_Transaction :: "('w, RebuildOperation) transaction"

definition MaxRebuildOperations :: int where
  "MaxRebuildOperations = 100"

definition rebuild_Create :: "'w rebuild_database \<Rightarrow> RebuildOperation \<Rightarrow> ('w, unit) go" where
  "rebuild_Create db operation =
     bindG (checkG (RebuildOperation_Validate operation)) (\<lambda>_.
       InsertNew (rd_operations db) operation (ProjectionErr ErrRebuildExists) ''insert projection rebuild operation'')"

definition rebuild_Find :: "'w rebuild_database \<Rightarrow> rebuild_key \<Rightarrow> ('w, RebuildOperation) go" where
  "rebuild_Find db key =
     bindG (FindG (rd_operations db) key ''find projection rebuild operation'') (\<lambda>found.
       case found of None \<Rightarrow> fail (ProjectionErr ErrRebuildNotFound) | Some operation \<Rightarrow> ret operation)"

definition ListRunnable :: "'w rebuild_database \<Rightarrow> int \<Rightarrow> ('w, RebuildOperation list) go" where
  "ListRunnable db limit =
     (if limit < 1 \<or> limit > MaxRebuildOperations then fail (ProjectionErr ErrRebuildInvalid)
      else (\<lambda>w. case rd_runnable db limit w of
          (Inl m, w') \<Rightarrow> (Inl (Wrap ''list runnable rebuild operations'' (External m)), w')
        | (Inr operations, w') \<Rightarrow> (Inr operations, w')))"

definition rebuild_at :: "int \<Rightarrow> RebuildOperation \<Rightarrow> bool" where
  "rebuild_at expectedRevision operation \<longleftrightarrow> rb_Revision operation = expectedRevision"

definition set_rebuild :: "RebuildOperation \<Rightarrow> RebuildOperation \<Rightarrow> RebuildOperation" where
  "set_rebuild operation old = old\<lparr>rb_Status := rb_Status operation, rb_UpdatedBy := rb_UpdatedBy operation,
     rb_UpdatedAt := rb_UpdatedAt operation, rb_GenerationBefore := rb_GenerationBefore operation,
     rb_StagingGenerationID := rb_StagingGenerationID operation, rb_StagingCollection := rb_StagingCollection operation,
     rb_ActiveGenerationID := rb_ActiveGenerationID operation, rb_MappingCount := rb_MappingCount operation,
     rb_StartedAt := rb_StartedAt operation, rb_FinishedAt := rb_FinishedAt operation, rb_SafeError := rb_SafeError operation,
     rb_Revision := rb_Revision old + 1\<rparr>"

definition rebuild_SaveCAS :: "'w rebuild_database \<Rightarrow> RebuildOperation \<Rightarrow> int \<Rightarrow> ('w, RebuildOperation) go" where
  "rebuild_SaveCAS db operation expectedRevision =
     bindG (checkG (RebuildOperation_Validate operation)) (\<lambda>_.
     if expectedRevision < 1 then fail (ProjectionErr ErrRebuildRevisionConflict)
     else bindG (FindAndUpdateG (rd_operations db) (rebuild_key operation) (rebuild_at expectedRevision) (set_rebuild operation)
                  ''save projection rebuild operation'') (\<lambda>found.
       case found of
         Some o1 \<Rightarrow> ret o1
       | None \<Rightarrow> bindG (rebuild_Find db (rebuild_key operation)) (\<lambda>_. fail (ProjectionErr ErrRebuildRevisionConflict))))"

definition rebuild_receipts :: "RebuildOperation option receipt_kind" where
  "rebuild_receipts =
     \<lparr>rk_NotFound = ProjectionErr ErrRebuildReceiptNotFound, rk_Conflict = ProjectionErr ErrRebuildIdempotencyConflict,
      rk_FindLabel = ''find projection rebuild receipt'', rk_SaveLabel = ''save projection rebuild receipt'',
      rk_Check = (\<lambda>r. if incomplete_receipt r \<or> rcp_Result r = None then Some (ProjectionErr ErrRebuildInvalid) else None),
      rk_Strict = False\<rparr>"

section \<open>The service\<close>

record RebuildStartInput =
  ri_TenantID :: string
  ri_WorkspaceID :: string
  ri_RequestID :: string
  ri_IdempotencyKey :: string

record RebuildCancelInput = RebuildStartInput +
  ri_OperationID :: string

text \<open>
  The service with all its parts. The mapping generations are of any type \<open>'g\<close>: their identifier,
  whether they are complete, their size and tables are functions of them, and the active one is
  part of the state. \<open>rs_projector\<close> is the summary projector over the staged records, as a
  function of a subject and a raw event; \<open>rs_archive\<close> and \<open>rs_readPointers\<close> are \<open>None\<close> where nil.
\<close>

record ('w, 'g) RebuildService =
  rs_db :: "'w rebuild_database"
  rs_receipts :: "('w, RebuildOperation option) receipts"
  rs_members :: "'w MembershipReader"
  rs_audit :: "'w AuditWriter"
  rs_Now :: "'w \<Rightarrow> time \<times> 'w"
  rs_id :: "'w \<Rightarrow> (string + string) \<times> 'w"
  rs_Build :: "('w, 'g) go"
  rs_GenerationID :: "'g \<Rightarrow> string"
  rs_Complete :: "'g \<Rightarrow> bool"
  rs_EntryCount :: "'g \<Rightarrow> int"
  rs_TargetTableIDs :: "'g \<Rightarrow> string \<Rightarrow> string \<Rightarrow> string list"
  rs_ActiveGenerationID :: "'w \<Rightarrow> string"
  rs_StoreGeneration :: "'g \<Rightarrow> 'w \<Rightarrow> 'w"
  rs_archive :: "'w EventArchive option option"
  rs_readPointers :: "'w projection_database option option"
  rs_retire :: "'w retire_pointer"
  rs_PointerNow :: "'w \<Rightarrow> time \<times> 'w"
  rs_EnsureStagingIndexes :: "string \<Rightarrow> ('w, unit) go"
  rs_projector :: "RebuildOperation \<Rightarrow> 'g \<Rightarrow> goerr + (string \<Rightarrow> string \<Rightarrow> ('w, unit) go)"

definition newRebuildID :: "('w, 'g) RebuildService \<Rightarrow> ('w, string) go" where
  "newRebuildID s = (\<lambda>w. case rs_id s w of
       (Inl m, w') \<Rightarrow> (Inl (External m), w')
     | (Inr random, w') \<Rightarrow> (Inr (''rebuild-'' @ hex_encode random), w'))"

definition rebuildHash :: "string \<Rightarrow> string list \<Rightarrow> string" where
  "rebuildHash operation values = sha256_ref (operation @ [CHR 0x00] @ marshal (JArray (map JString values)))"

definition validateRebuildHeaders :: "string \<Rightarrow> string \<Rightarrow> string \<Rightarrow> string \<Rightarrow> goerr option" where
  "validateRebuildHeaders tenantID workspaceID requestID idempotencyKey =
     (if \<not> nonBlankBounded tenantID maxCatalogID \<or> \<not> nonBlankBounded workspaceID maxCatalogID
      then Some (ProjectionErr ErrRebuildInvalid)
      else if blank requestID then Some (ProjectionErr ErrRequestIDMissing)
      else if blank idempotencyKey then Some (ProjectionErr ErrIdempotencyKeyMissing)
      else if length (TrimSpace requestID) > 256 \<or> length (TrimSpace idempotencyKey) > 256
      then Some (ProjectionErr ErrRebuildInvalid)
      else None)"

definition rebuild_authorize ::
  "('w, 'g) RebuildService \<Rightarrow> Principal \<Rightarrow> string \<Rightarrow> string \<Rightarrow> Action \<Rightarrow> ('w, unit) go" where
  "rebuild_authorize s prin tenantID workspaceID action =
     (if blank tenantID \<or> blank workspaceID then fail (ProjectionErr ErrRebuildInvalid)
      else bindG (Authorize (Some (rs_members s)) prin (TrimSpace tenantID) (TrimSpace workspaceID) action) (\<lambda>_. ret ()))"

definition rebuild_findReceipt ::
  "('w, 'g) RebuildService \<Rightarrow> receipt_scope \<Rightarrow> string \<Rightarrow> ('w, RebuildOperation option) go" where
  "rebuild_findReceipt s scope requestHash =
     bindG (find_receipt (receipt_Find rebuild_receipts (rs_receipts s)) (ProjectionErr ErrRebuildReceiptNotFound)
              (ProjectionErr ErrRebuildIdempotencyConflict) scope requestHash) (\<lambda>found.
       case found of
         None \<Rightarrow> ret None
       | Some None \<Rightarrow> fail (ProjectionErr ErrRebuildIdempotencyConflict)
       | Some (Some operation) \<Rightarrow> ret (Some operation))"

definition rebuild_entry :: "Principal \<Rightarrow> RebuildStartInput \<Rightarrow> string \<Rightarrow> RebuildOperation \<Rightarrow> string \<Rightarrow> time \<Rightarrow> AuditEntry" where
  "rebuild_entry prin input action operation requestHash now =
     empty_AuditEntry\<lparr>ae_TenantID := TrimSpace (ri_TenantID input), ae_WorkspaceID := TrimSpace (ri_WorkspaceID input),
       ae_Action := action, ae_Actor := identityKey prin, ae_ResourceType := ''ProjectionRebuildOperation'',
       ae_ResourceID := rb_ID operation, ae_ResourceVersion := rb_Revision operation, ae_RequestID := ri_RequestID input,
       ae_IdempotencyKey := ri_IdempotencyKey input, ae_AfterHash := requestHash, ae_CreatedAt := now\<rparr>"

definition rebuild_scope :: "RebuildStartInput \<Rightarrow> string \<Rightarrow> receipt_scope" where
  "rebuild_scope input operation =
     (TrimSpace (ri_TenantID input), TrimSpace (ri_WorkspaceID input), operation, ri_IdempotencyKey input)"

text \<open>The audit entry and the receipt of a change, in its transaction.\<close>

definition rebuild_record ::
  "('w, 'g) RebuildService \<Rightarrow> AuditEntry \<Rightarrow> receipt_scope \<Rightarrow> string \<Rightarrow> RebuildOperation \<Rightarrow> ('w, RebuildOperation) go" where
  "rebuild_record s entry scope requestHash operation =
     bindG (rs_audit s entry) (\<lambda>_.
     bindG (receipt_Save rebuild_receipts (rs_receipts s) (receipt_for scope requestHash (Some operation))) (\<lambda>_.
       ret operation))"

definition new_rebuild :: "Principal \<Rightarrow> RebuildStartInput \<Rightarrow> string \<Rightarrow> time \<Rightarrow> RebuildOperation" where
  "new_rebuild prin input operationID now =
     \<lparr>rb_ID = operationID, rb_TenantID = TrimSpace (ri_TenantID input), rb_WorkspaceID = TrimSpace (ri_WorkspaceID input),
      rb_Status = RebuildAccepted, rb_Revision = 1, rb_GenerationBefore = [], rb_StagingGenerationID = [],
      rb_StagingCollection = [], rb_ActiveGenerationID = [], rb_MappingCount = 0, rb_CreatedBy = identityKey prin,
      rb_UpdatedBy = identityKey prin, rb_CreatedAt = now, rb_UpdatedAt = now, rb_StartedAt = None, rb_FinishedAt = None,
      rb_SafeError = []\<rparr>"

definition rebuild_Start ::
  "('w, 'g) RebuildService option \<Rightarrow> Principal \<Rightarrow> RebuildStartInput \<Rightarrow> ('w, RebuildOperation \<times> bool) go" where
  "rebuild_Start service prin input = (case service of None \<Rightarrow> fail (ProjectionErr ErrRebuildUnavailable) | Some s \<Rightarrow>
     bindG (checkG (validateRebuildHeaders (ri_TenantID input) (ri_WorkspaceID input) (ri_RequestID input) (ri_IdempotencyKey input))) (\<lambda>_.
     bindG (rebuild_authorize s prin (ri_TenantID input) (ri_WorkspaceID input) ActionProjectionManage) (\<lambda>_.
     (let scope = rebuild_scope input ''projection.rebuild.create'';
          requestHash = rebuildHash ''projection.rebuild.create'' [TrimSpace (ri_TenantID input), TrimSpace (ri_WorkspaceID input)] in
     bindG (rebuild_findReceipt s scope requestHash) (\<lambda>found. case found of Some operation \<Rightarrow> ret (operation, True) | None \<Rightarrow>
     bindG (newRebuildID s) (\<lambda>operationID.
     bindG (nowG (rs_Now s)) (\<lambda>now.
     (let operation = new_rebuild prin input operationID now in
     bindG (checkG (RebuildOperation_Validate operation)) (\<lambda>_.
     bindG (rd_Transaction (rs_db s)
        (bindG (rebuild_Create (rs_db s) operation) (\<lambda>_.
           rebuild_record s (rebuild_entry prin input ''projection.rebuild.create'' operation requestHash now) scope requestHash operation)))
       (\<lambda>_. ret (operation, False)))))))))))"

definition rebuild_Get ::
  "('w, 'g) RebuildService option \<Rightarrow> Principal \<Rightarrow> string \<Rightarrow> string \<Rightarrow> string \<Rightarrow> ('w, RebuildOperation) go" where
  "rebuild_Get service prin tenantID workspaceID operationID =
     (case service of None \<Rightarrow> fail (ProjectionErr ErrRebuildUnavailable) | Some s \<Rightarrow>
        if blank tenantID \<or> blank workspaceID \<or> blank operationID then fail (ProjectionErr ErrRebuildInvalid)
        else bindG (rebuild_authorize s prin tenantID workspaceID ActionOperationsRead) (\<lambda>_.
          rebuild_Find (rs_db s) (TrimSpace operationID, TrimSpace tenantID, TrimSpace workspaceID)))"

definition cancel_update :: "Principal \<Rightarrow> RebuildOperation \<Rightarrow> time \<Rightarrow> RebuildOperation" where
  "cancel_update prin operation now =
     (if rb_Status operation = RebuildAccepted
      then operation\<lparr>rb_Status := RebuildCancelled, rb_FinishedAt := Some now, rb_UpdatedBy := identityKey prin, rb_UpdatedAt := now\<rparr>
      else operation\<lparr>rb_Status := RebuildCancelRequested, rb_UpdatedBy := identityKey prin, rb_UpdatedAt := now\<rparr>)"

definition rebuild_Cancel ::
  "('w, 'g) RebuildService option \<Rightarrow> Principal \<Rightarrow> RebuildCancelInput \<Rightarrow> ('w, RebuildOperation \<times> bool) go" where
  "rebuild_Cancel service prin input = (case service of None \<Rightarrow> fail (ProjectionErr ErrRebuildUnavailable) | Some s \<Rightarrow>
     bindG (checkG (validateRebuildHeaders (ri_TenantID input) (ri_WorkspaceID input) (ri_RequestID input) (ri_IdempotencyKey input))) (\<lambda>_.
     if blank (ri_OperationID input) then fail (ProjectionErr ErrRebuildInvalid) else
     bindG (rebuild_authorize s prin (ri_TenantID input) (ri_WorkspaceID input) ActionProjectionManage) (\<lambda>_.
     (let tenantID = TrimSpace (ri_TenantID input); workspaceID = TrimSpace (ri_WorkspaceID input);
          operationID = TrimSpace (ri_OperationID input) in
     bindG (rebuild_Find (rs_db s) (operationID, tenantID, workspaceID)) (\<lambda>operation.
     (let start = RebuildStartInput.truncate input; scope = rebuild_scope start ''projection.rebuild.cancel'';
          requestHash = rebuildHash ''projection.rebuild.cancel'' [tenantID, workspaceID, operationID, itoa (rb_Revision operation)] in
     bindG (rebuild_findReceipt s scope requestHash) (\<lambda>found. case found of Some o1 \<Rightarrow> ret (o1, True) | None \<Rightarrow>
     if rb_Status operation \<notin> {RebuildAccepted, RebuildRunning, RebuildCancelRequested}
     then fail (ProjectionErr ErrRebuildNotCancellable)
     else if rb_Status operation = RebuildCancelRequested
     then bindG (receipt_Save rebuild_receipts (rs_receipts s)
                  (receipt_for (rb_TenantID operation, rb_WorkspaceID operation, ''projection.rebuild.cancel'', ri_IdempotencyKey input)
                     requestHash (Some operation))) (\<lambda>_. ret (operation, False))
     else bindG (nowG (rs_Now s)) (\<lambda>now.
       bindG (rd_Transaction (rs_db s)
          (bindG (rebuild_SaveCAS (rs_db s) (cancel_update prin operation now) (rb_Revision operation)) (\<lambda>updated.
             rebuild_record s (rebuild_entry prin start ''projection.rebuild.cancel'' updated requestHash now) scope requestHash updated)))
         (\<lambda>updated. ret (updated, False))))))))))"

section \<open>The worker\<close>

definition rebuild_worker :: IdentityKey where
  "rebuild_worker = \<lparr>ik_Issuer = ''record-hub'', ik_Subject = ''rebuild-worker''\<rparr>"

definition registry_Activate :: "('w, 'g) RebuildService \<Rightarrow> 'g \<Rightarrow> ('w, unit) go" where
  "registry_Activate s generation =
     (if rs_GenerationID s generation = [] \<or> \<not> rs_Complete s generation then fail (ProjectionErr ErrMappingGenerationInvalid)
      else (\<lambda>w. (Inr (), rs_StoreGeneration s generation w)))"

text \<open>A save whose conflict another writer explains.\<close>

definition lost_race :: "goerr \<Rightarrow> bool" where
  "lost_race err \<longleftrightarrow> errors_is err (ProjectionErr ErrRebuildRevisionConflict) \<or> errors_is err (ProjectionErr ErrRebuildNotFound)"

definition finishCancelled :: "('w, 'g) RebuildService \<Rightarrow> RebuildOperation \<Rightarrow> ('w, unit) go" where
  "finishCancelled s operation =
     (if rb_Status operation = RebuildCancelled then ret ()
      else bindG (nowG (rs_Now s)) (\<lambda>now.
        catchG (rebuild_SaveCAS (rs_db s) (operation\<lparr>rb_Status := RebuildCancelled, rb_FinishedAt := Some now,
                  rb_UpdatedAt := now, rb_UpdatedBy := rebuild_worker\<rparr>) (rb_Revision operation))
          (\<lambda>err. if lost_race err then ret () else fail err) (\<lambda>_. ret ())))"

definition rebuild_fail :: "('w, 'g) RebuildService \<Rightarrow> RebuildOperation \<Rightarrow> string \<Rightarrow> ('w, unit) go" where
  "rebuild_fail s operation safeError =
     bindG (rebuild_Find (rs_db s) (rebuild_key operation)) (\<lambda>latest.
       if rb_Status latest = RebuildCancelRequested then finishCancelled s latest
       else if rb_Status latest \<noteq> RebuildRunning then ret ()
       else bindG (nowG (rs_Now s)) (\<lambda>now.
         bindG (rebuild_SaveCAS (rs_db s) (latest\<lparr>rb_Status := RebuildFailed, rb_SafeError := safeError, rb_FinishedAt := Some now,
                  rb_UpdatedAt := now, rb_UpdatedBy := rebuild_worker\<rparr>) (rb_Revision latest)) (\<lambda>_. ret ())))"

text \<open>The newest checkpoint per aggregate of the archived events.\<close>

definition checkpoint_of :: "ArchiveEntry \<Rightarrow> ProjectionCheckpoint" where
  "checkpoint_of entry =
     \<lparr>cp_TenantID = ar_TenantID entry, cp_WorkspaceID = ar_WorkspaceID entry, cp_Consumer = ar_Consumer entry,
      cp_SourceSystem = ar_SourceSystem entry, cp_AggregateType = ar_AggregateType entry, cp_AggregateID = ar_AggregateID entry,
      cp_SourceVersion = ar_AggregateVersion entry, cp_LastEventID = ar_EventID entry, cp_SyncedAt = ar_ReceivedAt entry,
      cp_Status = CheckpointCurrent\<rparr>"

fun latest_checkpoints :: "(string \<times> ProjectionCheckpoint) list \<Rightarrow> ArchiveEntry list \<Rightarrow> (string \<times> ProjectionCheckpoint) list" where
  "latest_checkpoints latest [] = latest"
| "latest_checkpoints latest (entry # rest) =
     (let key = JoinWith [CHR 0x00] [ar_Consumer entry, ar_SourceSystem entry, ar_AggregateType entry, ar_AggregateID entry];
          candidate = checkpoint_of entry;
          newer = (case map_of latest key of
              None \<Rightarrow> True
            | Some current \<Rightarrow> cp_SourceVersion candidate > cp_SourceVersion current
                \<or> cp_SourceVersion candidate = cp_SourceVersion current \<and> cp_SyncedAt candidate > cp_SyncedAt current)
      in latest_checkpoints (if newer then map_set key candidate latest else latest) rest)"

definition activateReadPointers :: "('w, 'g) RebuildService \<Rightarrow> RebuildOperation \<Rightarrow> 'g \<Rightarrow> ('w, unit) go" where
  "activateReadPointers s operation generation = (case rs_readPointers s of None \<Rightarrow> ret () | Some database \<Rightarrow>
     bindG (case rs_archive s of
         None \<Rightarrow> ret []
       | Some archive \<Rightarrow>
           bindG (archive_List archive (rb_TenantID operation) (rb_WorkspaceID operation) archiveReplayPageSize) (\<lambda>entries.
             ret (map snd (latest_checkpoints [] entries)))) (\<lambda>checkpoints.
     bindG (nowG (rs_PointerNow s)) (\<lambda>now.
       ActivateManyWithCheckpoints database (rs_retire s)
         \<lparr>ac_TenantID = rb_TenantID operation, ac_WorkspaceID = rb_WorkspaceID operation, ac_OperationID = rb_ID operation,
          ac_GenerationID = rs_GenerationID s generation, ac_CollectionName = stagingRecordsCollectionName (rb_ID operation)\<rparr>
         now (rs_TargetTableIDs s generation (rb_TenantID operation) (rb_WorkspaceID operation)) checkpoints)))"

fun replay_entries ::
  "('w, 'g) RebuildService \<Rightarrow> (string \<Rightarrow> string \<Rightarrow> ('w, unit) go) \<Rightarrow> RebuildOperation \<Rightarrow> ArchiveEntry list \<Rightarrow> ('w, unit) go" where
  "replay_entries s handle operation [] = ret ()"
| "replay_entries s handle operation (entry # rest) =
     bindG (rebuild_Find (rs_db s) (rebuild_key operation)) (\<lambda>latest.
       if rb_Status latest = RebuildCancelRequested then fail (ProjectionErr ErrRebuildCancellation)
       else if rb_Status latest \<noteq> RebuildRunning then fail (ProjectionErr ErrRebuildCancellation)
       else bindG (handle (ar_Subject entry) (ar_Raw entry)) (\<lambda>_. replay_entries s handle operation rest))"

definition rebuild_replay :: "('w, 'g) RebuildService \<Rightarrow> RebuildOperation \<Rightarrow> 'g \<Rightarrow> ('w, unit) go" where
  "rebuild_replay s operation generation =
     (case (rs_archive s, rs_readPointers s) of
        (Some archive, Some (Some database)) \<Rightarrow>
          bindG (rs_EnsureStagingIndexes s (rb_ID operation)) (\<lambda>_.
          bindG (archive_List archive (rb_TenantID operation) (rb_WorkspaceID operation) archiveReplayPageSize) (\<lambda>entries.
            if length entries > MaxArchivedReplayEvents
            then fail (Anon ''replay event limit of 100000 reached; archive window is incomplete'')
            else if rs_GenerationID s generation = [] \<or> \<not> rs_Complete s generation
            then fail (ProjectionErr ErrMappingGenerationInvalid)
            else bindG (pureG (rs_projector s operation generation)) (\<lambda>handle.
              replay_entries s handle operation entries)))
      | _ \<Rightarrow> fail (ProjectionErr ErrRebuildUnavailable))"

text \<open>The stages of \<open>process\<close>: what it does next where the operation it found is still running.\<close>

definition while_running ::
  "('w, 'g) RebuildService \<Rightarrow> rebuild_key \<Rightarrow> (RebuildOperation \<Rightarrow> ('w, unit) go) \<Rightarrow> ('w, unit) go" where
  "while_running s key stage =
     bindG (rebuild_Find (rs_db s) key) (\<lambda>latest.
       if rb_Status latest = RebuildCancelRequested then finishCancelled s latest
       else if rb_Status latest \<noteq> RebuildRunning then ret ()
       else stage latest)"

definition process_activate :: "('w, 'g) RebuildService \<Rightarrow> RebuildOperation \<Rightarrow> 'g \<Rightarrow> RebuildOperation \<Rightarrow> ('w, unit) go" where
  "process_activate s staged generation latest =
     catchG (if rs_readPointers s = None then ret () else activateReadPointers s latest generation)
       (\<lambda>_. rebuild_fail s latest ''projection read pointer activation failed'') (\<lambda>_.
     catchG (registry_Activate s generation) (\<lambda>_. rebuild_fail s latest ''generation activation failed'') (\<lambda>_.
     bindG (nowG (rs_Now s)) (\<lambda>now.
     bindG (rebuild_SaveCAS (rs_db s) (latest\<lparr>rb_Status := RebuildSucceeded, rb_ActiveGenerationID := rs_GenerationID s generation,
              rb_FinishedAt := Some now, rb_UpdatedAt := now, rb_UpdatedBy := rebuild_worker\<rparr>) (rb_Revision staged)) (\<lambda>_. ret ()))))"

definition process_replay :: "('w, 'g) RebuildService \<Rightarrow> RebuildOperation \<Rightarrow> 'g \<Rightarrow> RebuildOperation \<Rightarrow> ('w, unit) go" where
  "process_replay s staged generation latest =
     (if rs_archive s = None \<or> rs_readPointers s = None then process_activate s staged generation latest
      else catchG (rebuild_replay s latest generation)
        (\<lambda>err. if errors_is err (ProjectionErr ErrRebuildCancellation)
           then bindG (rebuild_Find (rs_db s) (rebuild_key latest)) (\<lambda>current. finishCancelled s current)
           else rebuild_fail s latest ''historical projection replay failed'')
        (\<lambda>_. while_running s (rebuild_key latest) (process_activate s staged generation)))"

definition process_stage :: "('w, 'g) RebuildService \<Rightarrow> 'g \<Rightarrow> RebuildOperation \<Rightarrow> ('w, unit) go" where
  "process_stage s generation latest =
     bindG (nowG (rs_Now s)) (\<lambda>now.
     bindG (rebuild_SaveCAS (rs_db s) (latest\<lparr>rb_StagingGenerationID := rs_GenerationID s generation,
              rb_StagingCollection := stagingRecordsCollectionName (rb_ID latest), rb_MappingCount := rs_EntryCount s generation,
              rb_UpdatedAt := now, rb_UpdatedBy := rebuild_worker\<rparr>) (rb_Revision latest)) (\<lambda>staged.
       while_running s (rebuild_key latest) (process_replay s staged generation)))"

definition process_build :: "('w, 'g) RebuildService \<Rightarrow> RebuildOperation \<Rightarrow> ('w, unit) go" where
  "process_build s operation =
     catchG (rs_Build s) (\<lambda>_. rebuild_fail s operation ''generation validation failed'') (\<lambda>generation.
       while_running s (rebuild_key operation) (process_stage s generation))"

definition rebuild_process :: "('w, 'g) RebuildService \<Rightarrow> RebuildOperation \<Rightarrow> ('w, unit) go" where
  "rebuild_process s operation =
     (if rb_Status operation = RebuildCancelRequested then finishCancelled s operation
      else if rb_Status operation = RebuildAccepted
      then bindG (nowG (rs_Now s)) (\<lambda>now.
        bindG (\<lambda>w. (Inr (rs_ActiveGenerationID s w), w)) (\<lambda>before.
        catchG (rebuild_SaveCAS (rs_db s) (operation\<lparr>rb_GenerationBefore := before, rb_Status := RebuildRunning,
                  rb_StartedAt := Some now, rb_UpdatedAt := now, rb_UpdatedBy := rebuild_worker\<rparr>) (rb_Revision operation))
          (\<lambda>err. if lost_race err then ret () else fail err)
          (process_build s)))
      else process_build s operation)"

fun process_all :: "('w, 'g) RebuildService \<Rightarrow> RebuildOperation list \<Rightarrow> ('w, unit) go" where
  "process_all s [] = ret ()"
| "process_all s (operation # rest) = bindG (rebuild_process s operation) (\<lambda>_. process_all s rest)"

definition ProcessOne :: "('w, 'g) RebuildService option \<Rightarrow> ('w, unit) go" where
  "ProcessOne service = (case service of None \<Rightarrow> fail (ProjectionErr ErrRebuildUnavailable) | Some s \<Rightarrow>
     bindG (ListRunnable (rs_db s) 8) (process_all s))"

end
