(* ===== verification/RebuildRuns.thy ===== *)
theory RebuildRuns
  imports Rebuild
begin

text \<open>
  What holds over sequences of calls of users and turns of a worker on rebuild operations: an
  operation keeps its identity, moves along its life cycle with a growing revision and stays at
  its end; one that succeeded names a generation that was made active. The calls a worker makes
  on others (building a generation, applying events, switching pointers) may take long, and users
  may start and cancel operations meanwhile: \<open>users_step\<close> is what these calls may do.
\<close>

section \<open>Steps\<close>

text \<open>Calls whose effect on the view is a step, whatever they answer.\<close>

definition does :: "('w \<Rightarrow> 'v) \<Rightarrow> ('v \<Rightarrow> 'v \<Rightarrow> bool) \<Rightarrow> ('w, 'a) go \<Rightarrow> 'w \<Rightarrow> bool" where
  "does view R m w \<longleftrightarrow> (\<forall>r w'. m w = (r, w') \<longrightarrow> R (view w) (view w'))"

lemma doesD: "does view R m w \<Longrightarrow> m w = (r, w') \<Longrightarrow> R (view w) (view w')"
  by (simp add: does_def)

locale steps =
  fixes R :: "'v \<Rightarrow> 'v \<Rightarrow> bool"
  assumes step_refl: "R v v" and step_trans: "R u v \<Longrightarrow> R v x \<Longrightarrow> R u x"
begin

lemma does_now: "does view R (ret a) w" "does view R (fail e) w" "does view R (pureG p) w" "does view R (checkG c) w"
  using step_refl by (auto simp: does_def ret_def fail_def pureG_def checkG_def split: sum.splits option.splits)

lemma does_keeps: "keeps view m \<Longrightarrow> does view R m w"
  unfolding does_def using step_refl by (metis keepsD)

lemma does_if: "(b \<Longrightarrow> does view R m w) \<Longrightarrow> (\<not> b \<Longrightarrow> does view R m' w) \<Longrightarrow> does view R (if b then m else m') w"
  by simp

lemma does_bind:
  assumes "does view R m w" "\<And>a w1. m w = (Inr a, w1) \<Longrightarrow> R (view w) (view w1) \<Longrightarrow> does view R (f a) w1"
  shows "does view R (bindG m f) w"
proof (cases m w rule: run_cases)
  case (failed e w1)
  with doesD [OF assms(1) failed] show ?thesis by (simp add: does_def bindG_def)
next
  case (finished a w1)
  note s = doesD [OF assms(1) finished]
  from assms(2) [OF finished s] finished s step_trans [OF s] show ?thesis by (auto simp: does_def bindG_def)
qed

lemma does_catch:
  assumes "does view R m w" "\<And>e w1. m w = (Inl e, w1) \<Longrightarrow> R (view w) (view w1) \<Longrightarrow> does view R (h e) w1"
    and "\<And>a w1. m w = (Inr a, w1) \<Longrightarrow> R (view w) (view w1) \<Longrightarrow> does view R (f a) w1"
  shows "does view R (catchG m h f) w"
proof (cases m w rule: run_cases)
  case (failed e w1)
  note s = doesD [OF assms(1) failed]
  from assms(2) [OF failed s] failed step_trans [OF s] show ?thesis by (auto simp: does_def catchG_def)
next
  case (finished a w1)
  note s = doesD [OF assms(1) finished]
  from assms(3) [OF finished s] finished step_trans [OF s] show ?thesis by (auto simp: does_def catchG_def)
qed

lemma does_read:
  assumes "keeps view m" "\<And>a w1. m w = (Inr a, w1) \<Longrightarrow> view w1 = view w \<Longrightarrow> does view R (f a) w1"
  shows "does view R (bindG m f) w"
  using assms(2) keepsD [OF assms(1)] by (intro does_bind does_keeps [OF assms(1)]) blast

lemma does_transaction:
  assumes "transaction_laws tx" "does view R m w"
  shows "does view R (tx m) w"
  unfolding does_def
proof (intro allI impI)
  fix r w' assume run: "tx m w = (r, w')"
  show "R (view w) (view w')"
  proof (cases m w rule: run_cases)
    case (failed e w1)
    with transaction_fails [OF assms(1), of m w, OF failed] run step_refl show ?thesis by simp
  next
    case (finished a w1)
    with transaction_commits [OF assms(1), of m w, OF finished] run step_refl doesD [OF assms(2) finished] show ?thesis by auto
  qed
qed

end

section \<open>The life cycle\<close>

record RebuildDB = "RebuildOperation option ReceiptDB" +
  x_rebuilds :: "rebuild_key \<rightharpoonup> RebuildOperation"
  x_activated :: "string set"

definition put_rebuilds :: "(rebuild_key \<rightharpoonup> RebuildOperation) \<Rightarrow> RebuildDB \<Rightarrow> RebuildDB" where
  "put_rebuilds m v = v\<lparr>x_rebuilds := m\<rparr>"

lemma put_rebuilds_simps [simp]:
  "x_rebuilds (put_rebuilds m v) = m" "x_activated (put_rebuilds m v) = x_activated v"
  "x_receipts (put_rebuilds m v) = x_receipts v" "x_audit (put_rebuilds m v) = x_audit v"
  by (simp_all add: put_rebuilds_def)

lemma part_rebuilds: "part x_rebuilds put_rebuilds"
  by (simp add: part_def put_rebuilds_def)

fun rebuild_later :: "RebuildStatus \<Rightarrow> RebuildStatus \<Rightarrow> bool" where
  "rebuild_later RebuildAccepted st = (st \<in> {RebuildRunning, RebuildCancelRequested, RebuildCancelled, RebuildSucceeded, RebuildFailed})"
| "rebuild_later RebuildRunning st = (st \<in> {RebuildRunning, RebuildCancelRequested, RebuildCancelled, RebuildSucceeded, RebuildFailed})"
| "rebuild_later RebuildCancelRequested st = (st = RebuildCancelled)"
| "rebuild_later _ st = False"

lemma rebuild_later_trans: "rebuild_later a b \<Longrightarrow> rebuild_later b c \<Longrightarrow> rebuild_later a c"
  by (cases a; cases b) auto

definition rebuild_core :: "RebuildOperation \<Rightarrow> rebuild_key \<times> IdentityKey \<times> time" where
  "rebuild_core o1 = (rebuild_key o1, rb_CreatedBy o1, rb_CreatedAt o1)"

definition rebuild_moves :: "RebuildOperation \<Rightarrow> RebuildOperation \<Rightarrow> bool" where
  "rebuild_moves a b \<longleftrightarrow> b = a \<or> (rebuild_core b = rebuild_core a \<and> rb_Revision a < rb_Revision b
     \<and> rebuild_later (rb_Status a) (rb_Status b))"

definition rebuild_fresh :: "RebuildOperation \<Rightarrow> bool" where
  "rebuild_fresh a \<longleftrightarrow> rb_Status a = RebuildAccepted \<and> rb_Revision a = 1
     \<or> rb_Revision a > 1 \<and> rebuild_later RebuildAccepted (rb_Status a)"

definition rebuilds_grow :: "RebuildDB \<Rightarrow> RebuildDB \<Rightarrow> bool" where
  "rebuilds_grow v v' \<longleftrightarrow>
     (\<forall>k a. x_rebuilds v k = Some a \<longrightarrow> (\<exists>b. x_rebuilds v' k = Some b \<and> rebuild_moves a b))
     \<and> (\<forall>k b. x_rebuilds v k = None \<longrightarrow> x_rebuilds v' k = Some b \<longrightarrow> rebuild_fresh b)
     \<and> x_activated v \<subseteq> x_activated v' \<and> x_receipts v \<subseteq>\<^sub>m x_receipts v' \<and> (\<exists>entries. x_audit v' = x_audit v @ entries)"

definition rebuilds_ok :: "RebuildDB \<Rightarrow> bool" where
  "rebuilds_ok v \<longleftrightarrow> (\<forall>k a. x_rebuilds v k = Some a \<longrightarrow> rebuild_key a = k \<and> RebuildOperation_Validate a = None
     \<and> (rb_Status a = RebuildSucceeded \<longrightarrow> rb_ActiveGenerationID a \<in> x_activated v \<and> rb_StagingGenerationID a = rb_ActiveGenerationID a))"

definition rebuild_step :: "RebuildDB \<Rightarrow> RebuildDB \<Rightarrow> bool" where
  "rebuild_step v v' \<longleftrightarrow> (rebuilds_ok v \<longrightarrow> rebuilds_ok v' \<and> rebuilds_grow v v')"

text \<open>Users start operations, cancel accepted ones and ask to cancel running ones.\<close>

definition users_step :: "RebuildDB \<Rightarrow> RebuildDB \<Rightarrow> bool" where
  "users_step v v' \<longleftrightarrow> rebuild_step v v'
     \<and> (rebuilds_ok v \<longrightarrow> (\<forall>k a b. x_rebuilds v k = Some a \<longrightarrow> x_rebuilds v' k = Some b \<longrightarrow>
          rb_Status a \<in> {RebuildRunning, RebuildCancelRequested} \<longrightarrow> rb_Status b \<in> {RebuildRunning, RebuildCancelRequested}))"

lemma rebuild_moves_refl [simp]: "rebuild_moves a a"
  by (simp add: rebuild_moves_def)

lemma rebuild_moves_trans: "rebuild_moves a b \<Longrightarrow> rebuild_moves b c \<Longrightarrow> rebuild_moves a c"
  using rebuild_later_trans by (auto simp: rebuild_moves_def)

lemma rebuild_fresh_moves: "rebuild_fresh a \<Longrightarrow> rebuild_moves a b \<Longrightarrow> rebuild_fresh b"
  using rebuild_later_trans by (auto simp: rebuild_moves_def rebuild_fresh_def)

lemma rebuilds_grow_refl: "rebuilds_grow v v"
  by (simp add: rebuilds_grow_def)

lemma rebuilds_grow_trans:
  assumes "rebuilds_grow a b" "rebuilds_grow b c"
  shows "rebuilds_grow a c"
  unfolding rebuilds_grow_def
proof (intro conjI allI impI)
  show "\<exists>p'. x_rebuilds c k = Some p' \<and> rebuild_moves p p'" if "x_rebuilds a k = Some p" for k p
    using assms that rebuild_moves_trans unfolding rebuilds_grow_def by meson
  show "rebuild_fresh p'" if "x_rebuilds a k = None" "x_rebuilds c k = Some p'" for k p'
  proof (cases "x_rebuilds b k")
    case None
    with assms(2) that show ?thesis unfolding rebuilds_grow_def by blast
  next
    case (Some p)
    with assms that rebuild_fresh_moves [of p p'] show ?thesis unfolding rebuilds_grow_def by (metis option.inject)
  qed
  show "x_activated a \<subseteq> x_activated c" using assms unfolding rebuilds_grow_def by blast
  show "x_receipts a \<subseteq>\<^sub>m x_receipts c" using assms map_le_trans unfolding rebuilds_grow_def by blast
  show "\<exists>entries. x_audit c = x_audit a @ entries" using assms unfolding rebuilds_grow_def by (metis append_assoc)
qed

interpretation rebuilding: steps rebuild_step
proof
  show "rebuild_step v v" for v by (simp add: rebuild_step_def rebuilds_grow_refl)
  show "rebuild_step u v \<Longrightarrow> rebuild_step v x \<Longrightarrow> rebuild_step u x" for u v x
    using rebuilds_grow_trans unfolding rebuild_step_def by blast
qed

lemma rebuilds_growD: "rebuilds_grow v v' \<Longrightarrow> x_rebuilds v k = Some a \<Longrightarrow> \<exists>b. x_rebuilds v' k = Some b \<and> rebuild_moves a b"
  unfolding rebuilds_grow_def by blast

lemma rebuilds_okD:
  assumes "rebuilds_ok v" "x_rebuilds v k = Some a"
  shows "rebuild_key a = k" "RebuildOperation_Validate a = None" "1 \<le> rb_Revision a"
proof -
  show "rebuild_key a = k" and v: "RebuildOperation_Validate a = None" using assms unfolding rebuilds_ok_def by blast+
  then show "1 \<le> rb_Revision a" by (auto simp: RebuildOperation_Validate_def split: if_splits)
qed

text \<open>A document that has the revision it had has not changed.\<close>

lemma same_revision:
  "rebuilds_grow v v' \<Longrightarrow> x_rebuilds v k = Some a \<Longrightarrow> x_rebuilds v' k = Some b \<Longrightarrow> rb_Revision b \<le> rb_Revision a \<Longrightarrow> b = a"
  by (auto simp: rebuild_moves_def dest!: rebuilds_growD)

section \<open>The database\<close>

definition rebuild_serves :: "('w, 'g) RebuildService \<Rightarrow> WorkspaceMembership set \<Rightarrow> ('w \<Rightarrow> RebuildDB) \<Rightarrow> bool" where
  "rebuild_serves s M view \<longleftrightarrow>
     realises (rd_operations (rs_db s)) rebuild_key x_rebuilds put_rebuilds view
     \<and> (\<forall>n w r w'. rd_runnable (rs_db s) n w = (r, w') \<longrightarrow> view w' = view w
          \<and> (\<forall>os. r = Inr os \<longrightarrow> (\<forall>a \<in> set os. x_rebuilds (view w) (rebuild_key a) = Some a
               \<and> rb_Status a \<in> {RebuildAccepted, RebuildRunning, RebuildCancelRequested})))
     \<and> realises (rs_receipts s) receipt_key x_receipts put_receipts view
     \<and> audit_adds (rs_audit s) view \<and> transaction_laws (rd_Transaction (rs_db s)) \<and> reads_members (rs_members s) M view
     \<and> (\<forall>w. view (snd (rs_Now s w)) = view w) \<and> (\<forall>w. view (snd (rs_PointerNow s w)) = view w)
     \<and> (\<forall>w r w'. rs_id s w = (r, w') \<longrightarrow> view w' = view w)
     \<and> (\<forall>g w. view (rs_StoreGeneration s g w) = (view w)\<lparr>x_activated := insert (rs_GenerationID s g) (x_activated (view w))\<rparr>)
     \<and> (\<forall>archive t ws n w. rs_archive s = Some archive \<longrightarrow> does view users_step (archive_List archive t ws n) w)
     \<and> (\<forall>w. does view users_step (rs_Build s) w) \<and> (\<forall>i w. does view users_step (rs_EnsureStagingIndexes s i) w)
     \<and> (\<forall>a g handle subject event w. rs_projector s a g = Inr handle \<longrightarrow> does view users_step (handle subject event) w)
     \<and> (\<forall>database a now tables cps w. rs_readPointers s = Some database \<longrightarrow>
          does view users_step (ActivateManyWithCheckpoints database (rs_retire s) a now tables cps) w)"

lemma rebuild_servesD:
  assumes "rebuild_serves s M view"
  shows "realises (rd_operations (rs_db s)) rebuild_key x_rebuilds put_rebuilds view"
    and "receipt_store (receipt_Find rebuild_receipts (rs_receipts s)) (receipt_Save rebuild_receipts (rs_receipts s))
           (rs_audit s) (ProjectionErr ErrRebuildReceiptNotFound) view"
    and "transaction_laws (rd_Transaction (rs_db s))" "reads_members (rs_members s) M view"
    and "keeps view (nowG (rs_Now s))" "keeps view (nowG (rs_PointerNow s))" "audit_adds (rs_audit s) view"
proof -
  have "rk_NotFound rebuild_receipts = ProjectionErr ErrRebuildReceiptNotFound" by (simp add: rebuild_receipts_def)
  with assms mongo_receipt_store [of "rs_receipts s" view "rs_audit s" rebuild_receipts]
  show "receipt_store (receipt_Find rebuild_receipts (rs_receipts s)) (receipt_Save rebuild_receipts (rs_receipts s))
         (rs_audit s) (ProjectionErr ErrRebuildReceiptNotFound) view" by (simp add: rebuild_serves_def)
  show "keeps view (nowG (rs_Now s))" "keeps view (nowG (rs_PointerNow s))"
    using assms unfolding rebuild_serves_def by - (intro keeps_nowG, metis)+
qed (use assms in \<open>auto simp: rebuild_serves_def\<close>)

lemma rebuild_Find_keeps: "rebuild_serves s M view \<Longrightarrow> keeps view (rebuild_Find (rs_db s) k)"
  unfolding rebuild_Find_def by (intro keeping) (rule rebuild_servesD(1))

lemma rebuild_Find_Inr:
  "rebuild_serves s M view \<Longrightarrow> rebuild_Find (rs_db s) k w = (Inr a, w') \<Longrightarrow> x_rebuilds (view w) k = Some a"
  by (auto simp: rebuild_Find_def go_success dest: FindG_Inr [OF rebuild_servesD(1)] split: option.splits)

lemma rebuild_SaveCAS_cases:
  assumes s: "rebuild_serves s M view" and run: "rebuild_SaveCAS (rs_db s) a n w = (r, w')"
  shows "view w' = view w \<and> (\<forall>x. r \<noteq> Inr x)
    \<or> (\<exists>old. x_rebuilds (view w) (rebuild_key a) = Some old \<and> rb_Revision old = n \<and> RebuildOperation_Validate a = None
         \<and> r = Inr (set_rebuild a old) \<and> view w' = put_rebuilds ((x_rebuilds (view w))(rebuild_key a \<mapsto> set_rebuild a old)) (view w))"
proof (cases "RebuildOperation_Validate a = None \<and> 1 \<le> n")
  case False
  with run show ?thesis by (auto simp: rebuild_SaveCAS_def go_simps split: option.splits)
next
  case True
  obtain f w1 where f: "FindAndUpdateG (rd_operations (rs_db s)) (rebuild_key a) (rebuild_at n) (set_rebuild a)
      ''save projection rebuild operation'' w = (f, w1)" by force
  show ?thesis
  proof (cases f)
    case (Inl e)
    obtain q w2 where i: "c_FindOneAndUpdate (rd_operations (rs_db s)) (rebuild_key a) (rebuild_at n) (set_rebuild a) w = (q, w2)" by force
    with f Inl obtain m where q: "q = FindError m" "w1 = w2" by (cases q) (auto simp: FindAndUpdateG_def)
    note law = FindOneAndUpdate_law [OF rebuild_servesD(1) [OF s, unfolded realises_def, THEN conjunct2] i]
    have "view w2 = view w" using law(1,2) q realises_view [OF rebuild_servesD(1) [OF s] law(1)] rebuild_servesD(1) [OF s]
      by (simp add: realises_def part_def)
    with run f Inl True q show ?thesis by (auto simp: rebuild_SaveCAS_def go_simps)
  next
    case (Inr found)
    note u = FindAndUpdateG_Inr [OF rebuild_servesD(1) [OF s] f [unfolded Inr]]
    show ?thesis
    proof (cases found)
      case None
      with u have "view w1 = view w" by simp
      moreover have "view w' = view w1 \<and> (\<forall>x. r \<noteq> Inr x)"
        using run f Inr None True keepsD [OF rebuild_Find_keeps [OF s], of "rebuild_key a" w1]
        by (auto simp: rebuild_SaveCAS_def go_simps split: prod.splits sum.splits)
      ultimately show ?thesis by simp
    next
      case (Some x)
      with u run f Inr True show ?thesis by (auto simp: rebuild_SaveCAS_def go_simps rebuild_at_def simp del: fun_upd_apply)
    qed
  qed
qed

lemma set_rebuild_same:
  "rebuild_core a = rebuild_core old \<Longrightarrow> set_rebuild a old = a\<lparr>rb_Revision := rb_Revision old + 1\<rparr>"
  by (simp add: rebuild_core_def rebuild_key_def set_rebuild_def)

text \<open>Saving what was made of a document that had been read.\<close>

lemma rebuild_SaveCAS_step:
  assumes s: "rebuild_serves s M view" and run: "rebuild_SaveCAS (rs_db s) a n w = (r, w')" and ok: "rebuilds_ok (view w)"
    and seen: "rebuilds_grow v (view w)" "x_rebuilds v (rebuild_key a) = Some d" "n \<le> rb_Revision d"
    and a: "rebuild_core a = rebuild_core d" "rebuild_later (rb_Status d) (rb_Status a)"
    and win: "rb_Status a = RebuildSucceeded \<Longrightarrow> rb_Revision d = n \<Longrightarrow>
      rb_ActiveGenerationID a \<in> x_activated (view w) \<and> rb_StagingGenerationID a = rb_ActiveGenerationID a"
  shows "rebuild_step (view w) (view w') \<and> (\<forall>b. r = Inr b \<longrightarrow>
    x_rebuilds (view w') (rebuild_key a) = Some b \<and> b = a\<lparr>rb_Revision := rb_Revision d + 1\<rparr> \<and> rb_Revision d = n)"
  using rebuild_SaveCAS_cases [OF s run]
proof (elim disjE exE conjE)
  assume "view w' = view w" "\<forall>x. r \<noteq> Inr x"
  then show ?thesis using rebuilding.step_refl by simp
next
  fix old assume old: "x_rebuilds (view w) (rebuild_key a) = Some old" "rb_Revision old = n" "RebuildOperation_Validate a = None"
    and r: "r = Inr (set_rebuild a old)" and w': "view w' = put_rebuilds ((x_rebuilds (view w))(rebuild_key a \<mapsto> set_rebuild a old)) (view w)"
  have d: "old = d" using same_revision [OF seen(1,2) old(1)] old(2) seen(3) by simp
  let ?b = "a\<lparr>rb_Revision := rb_Revision d + 1\<rparr>"
  have b: "set_rebuild a old = ?b" using set_rebuild_same [OF a(1)] d by simp
  have rev: "1 \<le> rb_Revision d" using rebuilds_okD(3) [OF ok old(1)] d by simp
  have key: "rebuild_key ?b = rebuild_key a" by (simp add: rebuild_key_def)
  have valid: "RebuildOperation_Validate ?b = None" using old(3) rev
    by (cases "rb_Status a") (simp_all add: RebuildOperation_Validate_def split: if_splits)
  have "rebuilds_ok (view w')"
    using ok valid win old(2) d unfolding rebuilds_ok_def w' b by (auto simp: key)
  moreover have "rebuild_moves d ?b" using a by (simp add: rebuild_moves_def rebuild_core_def key)
  then have "rebuilds_grow (view w) (view w')"
    using old(1) d unfolding rebuilds_grow_def w' b by (auto simp: map_le_def)
  ultimately show ?thesis using r b w' old(2) d by (simp add: rebuild_step_def)
qed

section \<open>The worker\<close>

interpretation meanwhile: steps users_step
proof
  show "users_step v v" for v using rebuilding.step_refl by (auto simp: users_step_def)
  fix u v x assume uv: "users_step u v" and vx: "users_step v x"
  show "users_step u x"
    unfolding users_step_def
  proof (intro conjI impI allI)
    show "rebuild_step u x" using uv vx rebuilding.step_trans unfolding users_step_def by blast
    fix k a b
    assume ok: "rebuilds_ok u" and a: "x_rebuilds u k = Some a" and b: "x_rebuilds x k = Some b"
      and st: "rb_Status a \<in> {RebuildRunning, RebuildCancelRequested}"
    from uv ok have g: "rebuilds_ok v" "rebuilds_grow u v" by (simp_all add: users_step_def rebuild_step_def)
    from rebuilds_growD [OF g(2) a] obtain c where c: "x_rebuilds v k = Some c" by blast
    from uv ok a c st have "rb_Status c \<in> {RebuildRunning, RebuildCancelRequested}" unfolding users_step_def by blast
    with vx g(1) b c show "rb_Status b \<in> {RebuildRunning, RebuildCancelRequested}" unfolding users_step_def by blast
  qed
qed

lemma users_are_steps: "does view users_step m w \<Longrightarrow> does view rebuild_step m w"
  by (auto simp: does_def users_step_def)

lemma stepD: "rebuild_step v v' \<Longrightarrow> rebuilds_ok v \<Longrightarrow> rebuilds_ok v' \<and> rebuilds_grow v v'"
  by (simp add: rebuild_step_def)

lemma core_update [simp]:
  "rebuild_key (a\<lparr>rb_Status := x1, rb_FinishedAt := x2, rb_UpdatedAt := x3, rb_UpdatedBy := x4\<rparr>) = rebuild_key a"
  by (simp add: rebuild_key_def)

lemma rebuild_keyD: "rebuilds_ok v \<Longrightarrow> x_rebuilds v k = Some a \<Longrightarrow> rebuild_key a = k"
  by (rule rebuilds_okD(1))

lemma finishCancelled_safe:
  assumes s: "rebuild_serves s M view" and ok: "rebuilds_ok (view w)"
    and seen: "rebuilds_grow v (view w)" "x_rebuilds v (rebuild_key a) = Some a"
    and st: "rb_Status a = RebuildCancelled \<or> rebuild_later (rb_Status a) RebuildCancelled"
  shows "does view rebuild_step (finishCancelled s a) w"
  unfolding finishCancelled_def
proof (intro rebuilding.does_if rebuilding.does_now rebuilding.does_read [OF rebuild_servesD(5) [OF s]] rebuilding.does_catch, goal_cases)
  case (1 now w1)
  show ?case
    unfolding does_def
  proof (intro allI impI)
    fix r w2 assume "rebuild_SaveCAS (rs_db s) (a\<lparr>rb_Status := RebuildCancelled, rb_FinishedAt := Some now,
      rb_UpdatedAt := now, rb_UpdatedBy := rebuild_worker\<rparr>) (rb_Revision a) w1 = (r, w2)"
    from rebuild_SaveCAS_step [OF s this _ _ _ order_refl, of v] ok seen 1 st
    show "rebuild_step (view w1) (view w2)" by (simp add: rebuild_core_def rebuild_key_def)
  qed
qed

lemma rebuild_fail_safe:
  assumes s: "rebuild_serves s M view" and ok: "rebuilds_ok (view w)"
  shows "does view rebuild_step (rebuild_fail s a e) w"
  unfolding rebuild_fail_def
proof (intro rebuilding.does_if rebuilding.does_now rebuilding.does_read [OF rebuild_Find_keeps [OF s]]
    rebuilding.does_read [OF rebuild_servesD(5) [OF s]] rebuilding.does_bind, goal_cases)
  case (1 latest w1)
  from rebuild_Find_Inr [OF s 1(1)] ok have l: "x_rebuilds (view w) (rebuild_key latest) = Some latest"
    using rebuild_keyD by simp
  from 1 ok l show ?case by (intro finishCancelled_safe [OF s]) (simp_all add: rebuilds_grow_refl)
next
  case (2 latest w1 now w2)
  from rebuild_Find_Inr [OF s 2(1)] ok have l: "x_rebuilds (view w) (rebuild_key latest) = Some latest"
    using rebuild_keyD by simp
  show ?case
    unfolding does_def
  proof (intro allI impI)
    fix r w3 assume "rebuild_SaveCAS (rs_db s) (latest\<lparr>rb_Status := RebuildFailed, rb_SafeError := e, rb_FinishedAt := Some now,
      rb_UpdatedAt := now, rb_UpdatedBy := rebuild_worker\<rparr>) (rb_Revision latest) w2 = (r, w3)"
    from rebuild_SaveCAS_step [OF s this _ _ _ order_refl, of "view w"] ok l 2 rebuilds_grow_refl
    show "rebuild_step (view w2) (view w3)" by (simp add: rebuild_core_def rebuild_key_def)
  qed
qed

lemma while_running_safe:
  assumes s: "rebuild_serves s M view" and ok: "rebuilds_ok (view w)"
    and stage: "\<And>latest w1. x_rebuilds (view w) k = Some latest \<Longrightarrow> rb_Status latest = RebuildRunning \<Longrightarrow> view w1 = view w \<Longrightarrow>
      does view rebuild_step (stage latest) w1"
  shows "does view rebuild_step (while_running s k stage) w"
  unfolding while_running_def
proof (intro rebuilding.does_if rebuilding.does_now rebuilding.does_read [OF rebuild_Find_keeps [OF s]], goal_cases)
  case (1 latest w1)
  from rebuild_Find_Inr [OF s 1(1)] ok have l: "x_rebuilds (view w) (rebuild_key latest) = Some latest"
    using rebuild_keyD by simp
  from 1 ok l show ?case by (intro finishCancelled_safe [OF s]) (simp_all add: rebuilds_grow_refl)
next
  case (2 latest w1)
  with rebuild_Find_Inr [OF s 2(1)] stage show ?case by simp
qed

lemma rebuild_servesD2:
  assumes "rebuild_serves s M view"
  shows "rs_archive s = Some archive \<Longrightarrow> does view users_step (archive_List archive t ws n) w"
    and "does view users_step (rs_Build s) w" "does view users_step (rs_EnsureStagingIndexes s i) w"
    and "rs_projector s a g = Inr handle \<Longrightarrow> does view users_step (handle subject event) w"
    and "rs_readPointers s = Some database \<Longrightarrow>
          does view users_step (ActivateManyWithCheckpoints database (rs_retire s) ac now tables cps) w"
    and "view (rs_StoreGeneration s g w) = (view w)\<lparr>x_activated := insert (rs_GenerationID s g) (x_activated (view w))\<rparr>"
    and "rs_id s w = (ri, w') \<Longrightarrow> view w' = view w"
    and "rd_runnable (rs_db s) n w = (rl, w') \<Longrightarrow> view w' = view w \<and> (\<forall>os. rl = Inr os \<longrightarrow> (\<forall>a \<in> set os.
           x_rebuilds (view w) (rebuild_key a) = Some a \<and> rb_Status a \<in> {RebuildAccepted, RebuildRunning, RebuildCancelRequested}))"
  using assms unfolding rebuild_serves_def by - (elim conjE, metis)+

lemma replay_entries_users:
  assumes s: "rebuild_serves s M view" and h: "rs_projector s a0 g = Inr handle"
  shows "does view users_step (replay_entries s handle a entries) w"
proof (induction entries arbitrary: w)
  case Nil
  then show ?case by (simp add: meanwhile.does_now)
next
  case (Cons entry entries)
  then show ?case
    by (simp only: replay_entries.simps)
      (intro meanwhile.does_if meanwhile.does_now meanwhile.does_read [OF rebuild_Find_keeps [OF s]] meanwhile.does_bind rebuild_servesD2(4) [OF s h])
qed

lemma rebuild_replay_users:
  assumes s: "rebuild_serves s M view"
  shows "does view users_step (rebuild_replay s a g) w"
proof (cases "rs_archive s")
  case (Some archive)
  have p: "does view users_step (bindG (pureG (rs_projector s a g)) (\<lambda>handle. replay_entries s handle a entries)) w1" for entries w1
    by (intro meanwhile.does_bind meanwhile.does_now) (auto simp: pureG_def intro!: replay_entries_users [OF s] split: sum.splits)
  show ?thesis
    unfolding rebuild_replay_def Some
    by (auto split: option.split intro!: meanwhile.does_now meanwhile.does_bind rebuild_servesD2(3) [OF s] rebuild_servesD2(1) [OF s Some] meanwhile.does_if p)
qed (simp add: rebuild_replay_def meanwhile.does_now)

lemma activate_users:
  assumes s: "rebuild_serves s M view"
  shows "does view users_step (activateReadPointers s a g) w"
proof (cases "rs_readPointers s")
  case (Some database)
  have l: "does view users_step (case rs_archive s of None \<Rightarrow> ret []
       | Some archive \<Rightarrow> bindG (archive_List archive t ws n) (\<lambda>entries. ret (map snd (latest_checkpoints [] entries)))) w1" for t ws n w1
    by (cases "rs_archive s") (auto intro!: meanwhile.does_now meanwhile.does_bind rebuild_servesD2(1) [OF s])
  show ?thesis
    unfolding activateReadPointers_def Some option.case
    by (intro meanwhile.does_bind l meanwhile.does_keeps [OF rebuild_servesD(6) [OF s]] rebuild_servesD2(5) [OF s Some])
qed (simp add: activateReadPointers_def meanwhile.does_now)

lemma process_activate_safe:
  assumes s: "rebuild_serves s M view" and ok: "rebuilds_ok (view w)"
    and staged: "rebuilds_grow v (view w)" "x_rebuilds v (rebuild_key latest) = Some staged" "rb_StagingGenerationID staged = rs_GenerationID s g"
    and latest: "x_rebuilds (view w) (rebuild_key latest) = Some latest" "rb_Status latest = RebuildRunning"
  shows "does view rebuild_step (process_activate s staged g latest) w"
  unfolding process_activate_def
proof (intro rebuilding.does_catch rebuilding.does_if rebuilding.does_now users_are_steps [OF activate_users [OF s]]
    rebuilding.does_read [OF rebuild_servesD(5) [OF s]] rebuilding.does_bind, goal_cases)
  case (1 e w1)
  with ok show ?case by (intro rebuild_fail_safe [OF s]) (simp add: rebuild_step_def)
next
  case (2 u w1)
  show ?case
  proof (cases "rs_GenerationID s g = [] \<or> \<not> rs_Complete s g")
    case False
    have "rebuild_step x (x\<lparr>x_activated := insert i (x_activated x)\<rparr>)" for x i
      by (auto simp: rebuild_step_def rebuilds_ok_def rebuilds_grow_def)
    with False show ?thesis by (auto simp: does_def registry_Activate_def rebuild_servesD2(6) [OF s])
  qed (simp add: registry_Activate_def rebuilding.does_now)
next
  case (3 u w1 e w2)
  then have "rebuilds_ok (view w2)" using ok by (simp add: rebuild_step_def)
  then show ?case by (rule rebuild_fail_safe [OF s])
next
  case (4 u w1 u' w2 now w3)
  then have w1: "rebuilds_ok (view w1)" "rebuilds_grow (view w) (view w1)"
    and w2: "rebuilds_ok (view w2)" "rebuilds_grow (view w1) (view w2)" using ok by (simp_all add: rebuild_step_def)
  have act: "rs_GenerationID s g \<in> x_activated (view w2)" using 4(3)
    by (auto simp: registry_Activate_def fail_def rebuild_servesD2(6) [OF s] split: if_splits)
  have g: "rebuilds_grow (view w) (view w3)" "rebuilds_ok (view w3)" using 4 w1 w2 rebuilds_grow_trans by simp_all
  have rev: "rb_Revision staged \<le> rb_Revision latest"
    using rebuilds_growD [OF staged(1,2)] latest(1) by (auto simp: rebuild_moves_def)
  have same: "rb_StagingGenerationID latest = rs_GenerationID s g" if "rb_Revision latest = rb_Revision staged"
    using same_revision [OF staged(1,2) latest(1)] that staged(3) by simp
  let ?a = "latest\<lparr>rb_Status := RebuildSucceeded, rb_ActiveGenerationID := rs_GenerationID s g, rb_FinishedAt := Some now,
      rb_UpdatedAt := now, rb_UpdatedBy := rebuild_worker\<rparr>"
  have k: "rebuild_key ?a = rebuild_key latest" by (simp add: rebuild_key_def)
  show ?case
    unfolding does_def
  proof (intro allI impI)
    fix r w4 assume "rebuild_SaveCAS (rs_db s) ?a (rb_Revision staged) w3 = (r, w4)"
    from rebuild_SaveCAS_step [OF s this g(2) g(1) latest(1) [folded k] rev] act 4 same latest(2)
    show "rebuild_step (view w3) (view w4)" by (simp add: rebuild_core_def k)
  qed
qed

lemma process_replay_safe:
  assumes s: "rebuild_serves s M view" and ok: "rebuilds_ok (view w)"
    and staged: "rebuilds_grow v (view w)" "x_rebuilds v (rebuild_key latest) = Some staged" "rb_StagingGenerationID staged = rs_GenerationID s g"
    and latest: "x_rebuilds (view w) (rebuild_key latest) = Some latest" "rb_Status latest = RebuildRunning"
  shows "does view rebuild_step (process_replay s staged g latest) w"
  unfolding process_replay_def
proof (intro rebuilding.does_if rebuilding.does_catch users_are_steps [OF rebuild_replay_users [OF s]]
    rebuilding.does_read [OF rebuild_Find_keeps [OF s]] process_activate_safe [OF s ok staged latest], goal_cases)
  case (1 e w1 current w2)
  have u: "users_step (view w) (view w1)" using doesD [OF rebuild_replay_users [OF s] 1(2)] .
  then have g: "rebuilds_ok (view w1)" "rebuilds_grow (view w) (view w1)" using ok by (simp_all add: users_step_def rebuild_step_def)
  from rebuild_Find_Inr [OF s 1(5)] have c: "x_rebuilds (view w1) (rebuild_key latest) = Some current" .
  have st: "rb_Status current \<in> {RebuildRunning, RebuildCancelRequested}"
    using u ok latest c unfolding users_step_def by blast
  show ?case
    using g 1 c st rebuild_keyD [OF g(1) c]
    by (intro finishCancelled_safe [OF s, of w2 "view w1"]) (auto simp: rebuilds_grow_refl)
next
  case (2 e w1)
  then show ?case using ok by (intro rebuild_fail_safe [OF s]) (simp add: rebuild_step_def)
next
  case (3 u w1)
  then have g: "rebuilds_ok (view w1)" "rebuilds_grow (view w) (view w1)" using ok by (simp_all add: rebuild_step_def)
  show ?case
  proof (intro while_running_safe [OF s g(1)])
    fix l w2 assume l: "x_rebuilds (view w1) (rebuild_key latest) = Some l" "rb_Status l = RebuildRunning" "view w2 = view w1"
    note k = rebuild_keyD [OF g(1) l(1)]
    show "does view rebuild_step (process_activate s staged g l) w2"
      using g l k staged rebuilds_grow_trans [OF staged(1) g(2)] by (intro process_activate_safe [OF s, where v = v]) simp_all
  qed
qed

lemma process_stage_safe:
  assumes s: "rebuild_serves s M view" and ok: "rebuilds_ok (view w)"
    and latest: "x_rebuilds (view w) (rebuild_key latest) = Some latest" "rb_Status latest = RebuildRunning"
  shows "does view rebuild_step (process_stage s g latest) w"
  unfolding process_stage_def
proof (intro rebuilding.does_read [OF rebuild_servesD(5) [OF s]] rebuilding.does_bind, goal_cases)
  case (1 now w1)
  show ?case
    unfolding does_def
  proof (intro allI impI)
    fix r w2 assume "rebuild_SaveCAS (rs_db s) (latest\<lparr>rb_StagingGenerationID := rs_GenerationID s g,
              rb_StagingCollection := stagingRecordsCollectionName (rb_ID latest), rb_MappingCount := rs_EntryCount s g,
              rb_UpdatedAt := now, rb_UpdatedBy := rebuild_worker\<rparr>) (rb_Revision latest) w1 = (r, w2)"
    from rebuild_SaveCAS_step [OF s this _ _ _ order_refl, of "view w"] ok latest 1 rebuilds_grow_refl
    show "rebuild_step (view w1) (view w2)" by (simp add: rebuild_core_def rebuild_key_def)
  qed
next
  case (2 now w1 staged w2)
  from rebuild_SaveCAS_step [OF s 2(3) _ _ _ order_refl, of "view w"] ok latest 2 rebuilds_grow_refl
  have st: "x_rebuilds (view w2) (rebuild_key latest) = Some staged" "rb_StagingGenerationID staged = rs_GenerationID s g"
    by (simp_all add: rebuild_core_def rebuild_key_def)
  from 2 ok have g: "rebuilds_ok (view w2)" by (simp add: rebuild_step_def)
  show ?case
  proof (intro while_running_safe [OF s g])
    fix l w3 assume l: "x_rebuilds (view w2) (rebuild_key latest) = Some l" "rb_Status l = RebuildRunning" "view w3 = view w2"
    note k = rebuild_keyD [OF g l(1)]
    show "does view rebuild_step (process_replay s staged g l) w3"
      using g l k st by (intro process_replay_safe [OF s, where v = "view w2"]) (simp_all add: rebuilds_grow_refl)
  qed
qed

lemma process_build_safe:
  assumes s: "rebuild_serves s M view" and ok: "rebuilds_ok (view w)"
  shows "does view rebuild_step (process_build s a) w"
  unfolding process_build_def
proof (intro rebuilding.does_catch users_are_steps [OF rebuild_servesD2(2) [OF s]], goal_cases)
  case (1 e w1)
  then show ?case using ok by (intro rebuild_fail_safe [OF s]) (simp add: rebuild_step_def)
next
  case (2 g w1)
  then have o1: "rebuilds_ok (view w1)" using ok by (simp add: rebuild_step_def)
  show ?case
  proof (intro while_running_safe [OF s o1])
    fix l w2 assume l: "x_rebuilds (view w1) (rebuild_key a) = Some l" "rb_Status l = RebuildRunning" "view w2 = view w1"
    note k = rebuild_keyD [OF o1 l(1)]
    show "does view rebuild_step (process_stage s g l) w2"
      using o1 l k by (intro process_stage_safe [OF s]) simp_all
  qed
qed

lemma rebuild_process_safe:
  assumes s: "rebuild_serves s M view" and ok: "rebuilds_ok (view w)"
    and seen: "rebuilds_grow v (view w)" "x_rebuilds v (rebuild_key a) = Some a"
  shows "does view rebuild_step (rebuild_process s a) w"
  unfolding rebuild_process_def
proof (intro rebuilding.does_if rebuilding.does_now rebuilding.does_read [OF rebuild_servesD(5) [OF s]] rebuilding.does_catch
    process_build_safe [OF s ok], goal_cases)
  case 1
  with seen ok show ?case by (intro finishCancelled_safe [OF s, where v = v]) simp_all
next
  case (2 now w1)
  have save: "does view rebuild_step (rebuild_SaveCAS (rs_db s) (a\<lparr>rb_GenerationBefore := before, rb_Status := RebuildRunning,
                  rb_StartedAt := Some now, rb_UpdatedAt := now, rb_UpdatedBy := rebuild_worker\<rparr>) (rb_Revision a)) w1" for before
    unfolding does_def
  proof (intro allI impI)
    fix r w2 assume "rebuild_SaveCAS (rs_db s) (a\<lparr>rb_GenerationBefore := before, rb_Status := RebuildRunning,
                  rb_StartedAt := Some now, rb_UpdatedAt := now, rb_UpdatedBy := rebuild_worker\<rparr>) (rb_Revision a) w1 = (r, w2)"
    from rebuild_SaveCAS_step [OF s this _ _ _ order_refl, of v] ok seen 2
    show "rebuild_step (view w1) (view w2)" by (simp add: rebuild_core_def rebuild_key_def)
  qed
  have reads: "keeps view (\<lambda>w. (Inr (rs_ActiveGenerationID s w), w))" by (simp add: keeps_def)
  show ?case
  proof (intro rebuilding.does_read [OF reads] rebuilding.does_catch rebuilding.does_if rebuilding.does_now, goal_cases)
    case (1 before w2)
    then have "w2 = w1" by simp
    with save show ?case by simp
  next
    case (2 before w2 started w3)
    then have "rebuilds_ok (view w3)" using ok \<open>view w1 = view w\<close> by (simp add: rebuild_step_def)
    then show ?case by (rule process_build_safe [OF s])
  qed
qed

lemma process_all_safe:
  assumes s: "rebuild_serves s M view" and ok: "rebuilds_ok (view w)"
    and seen: "rebuilds_grow v (view w)" "\<forall>a \<in> set os. x_rebuilds v (rebuild_key a) = Some a"
  shows "does view rebuild_step (process_all s os) w"
  using ok seen
proof (induction os arbitrary: w)
  case Nil
  then show ?case by (simp add: rebuilding.does_now)
next
  case (Cons a os)
  show ?case
    unfolding process_all.simps
  proof (intro rebuilding.does_bind rebuild_process_safe [OF s Cons.prems(1,2)], goal_cases)
    case 1
    then show ?case using Cons.prems by simp
  next
    case (2 u w1)
    then have "rebuilds_ok (view w1)" "rebuilds_grow (view w) (view w1)" using Cons.prems(1) by (simp_all add: rebuild_step_def)
    with Cons show ?case using rebuilds_grow_trans by (intro Cons.IH) auto
  qed
qed

lemma ProcessOne_safe:
  assumes s: "rebuild_serves s M view" and ok: "rebuilds_ok (view w)"
  shows "does view rebuild_step (ProcessOne (Some s)) w"
proof -
  have keep: "keeps view (ListRunnable (rs_db s) 8)"
    by (rule keepsI) (auto simp: ListRunnable_def MaxRebuildOperations_def split: prod.splits sum.splits dest: rebuild_servesD2(8) [OF s])
  show ?thesis
    unfolding ProcessOne_def option.case
  proof (intro rebuilding.does_read [OF keep])
    fix os w1 assume l: "ListRunnable (rs_db s) 8 w = (Inr os, w1)" and v: "view w1 = view w"
    then obtain w' where "rd_runnable (rs_db s) 8 w = (Inr os, w')"
      by (auto simp: ListRunnable_def MaxRebuildOperations_def split: prod.splits sum.splits)
    from rebuild_servesD2(8) [OF s this] have "\<forall>a \<in> set os. x_rebuilds (view w) (rebuild_key a) = Some a" by blast
    with ok v show "does view rebuild_step (process_all s os) w1"
      by (intro process_all_safe [OF s, where v = "view w"]) (simp_all add: rebuilds_grow_refl)
  qed
qed

section \<open>The users\<close>

lemma rebuild_authorize_keeps: "rebuild_serves s M view \<Longrightarrow> keeps view (rebuild_authorize s prin t ws action)"
  unfolding rebuild_authorize_def by (intro keeping Authorize_keeps rebuild_servesD(4))

lemma rebuild_findReceipt_keeps: "rebuild_serves s M view \<Longrightarrow> keeps view (rebuild_findReceipt s k h)"
proof -
  assume s: "rebuild_serves s M view"
  have "keeps view (case found of None \<Rightarrow> ret None | Some None \<Rightarrow> fail (ProjectionErr ErrRebuildIdempotencyConflict)
     | Some (Some operation) \<Rightarrow> ret (Some operation))" for found :: "RebuildOperation option option"
    by (auto intro: keeping split: option.split)
  then show ?thesis
    unfolding rebuild_findReceipt_def
    by (intro keeps_bindG receipt_store.keeps_find_receipt [OF rebuild_servesD(2) [OF s]])
qed

lemma newRebuildID_keeps: "rebuild_serves s M view \<Longrightarrow> keeps view (newRebuildID s)"
  by (rule keepsI) (auto simp: newRebuildID_def split: prod.splits sum.splits dest: rebuild_servesD2(7))

text \<open>Saving a receipt adds it, or changes nothing.\<close>

lemma receipt_Save_step:
  assumes s: "rebuild_serves s M view"
  shows "does view rebuild_step (receipt_Save rebuild_receipts (rs_receipts s) x) w"
proof -
  have c: "realises (rs_receipts s) receipt_key x_receipts put_receipts view" using s by (simp add: rebuild_serves_def)
  have adds: "rebuild_step v (put_receipts ((x_receipts v)(receipt_key x \<mapsto> x)) v)" if "x_receipts v (receipt_key x) = None" for v
    using that by (auto simp: rebuild_step_def rebuilds_ok_def rebuilds_grow_def put_receipts_def map_le_def)
  have insert_step: "rebuild_step (view w1) (view w2)" if i: "c_InsertOne (rs_receipts s) x w1 = (q, w2)" for q w1 w2
  proof -
    note law = InsertOne_law [OF c [unfolded realises_def, THEN conjunct2] i]
    note v = realises_view [OF c law(1)]
    show ?thesis
    proof (cases q)
      case Inserted
      with law(2) v adds show ?thesis by (simp del: fun_upd_apply)
    next
      case DuplicateKey
      with law(3) v c have "view w2 = view w1" by (simp add: realises_def part_def)
      then show ?thesis using rebuilding.step_refl by simp
    next
      case (InsertError m)
      with law(4) v c have "view w2 = view w1" by (simp add: realises_def part_def)
      then show ?thesis using rebuilding.step_refl by simp
    qed
  qed
  have rest: "does view rebuild_step (catchG (receipt_Find rebuild_receipts (rs_receipts s) (receipt_key x))
      (\<lambda>findErr. fail (if rk_Strict rebuild_receipts then findErr else rk_Conflict rebuild_receipts))
      (\<lambda>existing. if rcp_RequestHash existing \<noteq> rcp_RequestHash x then fail (rk_Conflict rebuild_receipts) else ret ())) w1" for w1
    by (intro rebuilding.does_catch rebuilding.does_keeps [OF receipt_Find_keeps [OF c]] rebuilding.does_now rebuilding.does_if)
  show ?thesis
    unfolding receipt_Save_def
  proof (intro rebuilding.does_bind rebuilding.does_now)
    fix a w1
    show "does view rebuild_step (\<lambda>w. case c_InsertOne (rs_receipts s) x w of
         (Inserted, w') \<Rightarrow> (Inr (), w')
       | (DuplicateKey, w') \<Rightarrow> catchG (receipt_Find rebuild_receipts (rs_receipts s) (receipt_key x))
             (\<lambda>findErr. fail (if rk_Strict rebuild_receipts then findErr else rk_Conflict rebuild_receipts))
             (\<lambda>existing. if rcp_RequestHash existing \<noteq> rcp_RequestHash x then fail (rk_Conflict rebuild_receipts) else ret ()) w'
       | (InsertError m, w') \<Rightarrow> (Inl (Wrap (rk_SaveLabel rebuild_receipts) (External m)), w')) w1"
      unfolding does_def
      using insert_step [of w1] rebuilding.step_trans [OF insert_step [of w1] doesD [OF rest]]
      by (auto split: prod.splits insert_result.splits)
  qed
qed

lemma rebuild_record_step:
  assumes s: "rebuild_serves s M view"
  shows "does view rebuild_step (rebuild_record s entry k h a) w"
proof -
  have "does view rebuild_step (rs_audit s entry) w1" for w1
    unfolding does_def
  proof (intro allI impI)
    fix r w' assume "rs_audit s entry w1 = (r, w')"
    with rebuild_servesD(7) [OF s] have "view w' = (case r of Inr _ \<Rightarrow> (view w1)\<lparr>x_audit := x_audit (view w1) @ [entry]\<rparr> | Inl _ \<Rightarrow> view w1)"
      unfolding audit_adds_def by blast
    then show "rebuild_step (view w1) (view w')"
      by (cases r) (auto simp: rebuild_step_def rebuilds_grow_refl rebuilds_ok_def rebuilds_grow_def)
  qed
  then show ?thesis unfolding rebuild_record_def by (intro rebuilding.does_bind receipt_Save_step [OF s] rebuilding.does_now)
qed

lemma rebuild_Create_step:
  assumes s: "rebuild_serves s M view" and a: "rb_Status a = RebuildAccepted" "rb_Revision a = 1"
  shows "does view rebuild_step (rebuild_Create (rs_db s) a) w"
  unfolding rebuild_Create_def
proof (intro rebuilding.does_bind rebuilding.does_now, goal_cases)
  case (1 u w1)
  then have valid: "RebuildOperation_Validate a = None" by (auto simp: checkG_def fail_def split: option.splits)
  show ?case
    unfolding does_def
  proof (intro allI impI)
    fix r w2 assume run: "InsertNew (rd_operations (rs_db s)) a (ProjectionErr ErrRebuildExists) ''insert projection rebuild operation'' w1 = (r, w2)"
    obtain q where i: "c_InsertOne (rd_operations (rs_db s)) a w1 = (q, w2)"
      using run by (auto simp: InsertNew_def split: prod.splits insert_result.splits)
    note c = rebuild_servesD(1) [OF s]
    note law = InsertOne_law [OF c [unfolded realises_def, THEN conjunct2] i]
    note v = realises_view [OF c law(1)]
    show "rebuild_step (view w1) (view w2)"
    proof (cases q)
      case Inserted
      with law(2) have new: "x_rebuilds (view w1) (rebuild_key a) = None" by simp
      have "view w2 = put_rebuilds ((x_rebuilds (view w1))(rebuild_key a \<mapsto> a)) (view w1)" using Inserted law(2) v by (simp del: fun_upd_apply)
      then show ?thesis using a valid new
        by (auto simp: rebuild_step_def rebuilds_ok_def rebuilds_grow_def rebuild_fresh_def)
    next
      case DuplicateKey
      with law(3) v c have "view w2 = view w1" by (simp add: realises_def part_def)
      then show ?thesis using rebuilding.step_refl by simp
    next
      case (InsertError m)
      with law(4) v c have "view w2 = view w1" by (simp add: realises_def part_def)
      then show ?thesis using rebuilding.step_refl by simp
    qed
  qed
qed

lemma rebuild_Start_safe:
  assumes s: "rebuild_serves s M view"
  shows "does view rebuild_step (rebuild_Start (Some s) prin input) w"
  unfolding rebuild_Start_def option.case Let_def
proof (intro rebuilding.does_bind rebuilding.does_now rebuilding.does_keeps [OF rebuild_authorize_keeps [OF s]]
    rebuilding.does_keeps [OF rebuild_findReceipt_keeps [OF s]], goal_cases)
  case (1 u w1 u' w2 found w3)
  show ?case
  proof (cases found)
    case None
    then show ?thesis
      by (auto intro!: rebuilding.does_bind rebuilding.does_now rebuilding.does_keeps [OF newRebuildID_keeps [OF s]]
          rebuilding.does_keeps [OF rebuild_servesD(5) [OF s]] rebuilding.does_transaction [OF rebuild_servesD(3) [OF s]]
          rebuild_Create_step [OF s] rebuild_record_step [OF s] simp: new_rebuild_def)
  qed (simp add: rebuilding.does_now)
qed

lemma rebuild_Cancel_safe:
  assumes s: "rebuild_serves s M view" and ok: "rebuilds_ok (view w)"
  shows "does view rebuild_step (rebuild_Cancel (Some s) prin input) w"
  unfolding rebuild_Cancel_def option.case Let_def
proof (intro rebuilding.does_bind [OF rebuilding.does_now(4)] rebuilding.does_if rebuilding.does_now
    rebuilding.does_read [OF rebuild_authorize_keeps [OF s]] rebuilding.does_read [OF rebuild_Find_keeps [OF s]]
    rebuilding.does_read [OF rebuild_findReceipt_keeps [OF s]], goal_cases)
  case (1 u w1 u' w2 a w3 found w4)
  from 1(1) have w1: "view w1 = view w" by (auto simp: checkG_def ret_def fail_def split: option.splits)
  from rebuild_Find_Inr [OF s 1(6)] 1 w1 ok rebuild_keyD
  have a: "x_rebuilds (view w4) (rebuild_key a) = Some a" and ok4: "rebuilds_ok (view w4)" by simp_all
  have save: "does view rebuild_step (rebuild_SaveCAS (rs_db s) (cancel_update prin a now) (rb_Revision a)) w5"
    if v5: "view w5 = view w4" and st: "rb_Status a \<in> {RebuildAccepted, RebuildRunning}" for now w5
    unfolding does_def
  proof (intro allI impI)
    fix r w6 assume "rebuild_SaveCAS (rs_db s) (cancel_update prin a now) (rb_Revision a) w5 = (r, w6)"
    from rebuild_SaveCAS_step [OF s this _ _ _ order_refl, of "view w4"] a ok4 v5 st rebuilds_grow_refl
    show "rebuild_step (view w5) (view w6)" by (auto simp: rebuild_core_def rebuild_key_def cancel_update_def)
  qed
  show ?case
  proof (cases found)
    case None
    show ?thesis
      unfolding None option.case
    proof (intro rebuilding.does_if rebuilding.does_now rebuilding.does_bind receipt_Save_step [OF s]
        rebuilding.does_read [OF rebuild_servesD(5) [OF s]] rebuilding.does_transaction [OF rebuild_servesD(3) [OF s]]
        rebuild_record_step [OF s] save)
    qed (auto intro: rebuilding.does_keeps [OF rebuild_servesD(5) [OF s]] dest: keepsD [OF rebuild_servesD(5) [OF s]])
  qed (simp add: rebuilding.does_now)
qed

section \<open>Every sequence of calls\<close>

datatype rebuild_call = StartRebuild Principal RebuildStartInput | CancelRebuild Principal RebuildCancelInput | WorkerTurn

fun rebuild_exec :: "('w, 'g) RebuildService \<Rightarrow> rebuild_call \<Rightarrow> 'w \<Rightarrow> 'w" where
  "rebuild_exec s (StartRebuild prin input) w = snd (rebuild_Start (Some s) prin input w)"
| "rebuild_exec s (CancelRebuild prin input) w = snd (rebuild_Cancel (Some s) prin input w)"
| "rebuild_exec s WorkerTurn w = snd (ProcessOne (Some s) w)"

definition rebuild_run :: "('w, 'g) RebuildService \<Rightarrow> rebuild_call list \<Rightarrow> 'w \<Rightarrow> 'w" where
  "rebuild_run s calls w = fold (rebuild_exec s) calls w"

lemma rebuild_exec_step:
  assumes s: "rebuild_serves s M view" and ok: "rebuilds_ok (view w)"
  shows "rebuild_step (view w) (view (rebuild_exec s call w))"
proof -
  have d: "rebuild_step (view w) (view (snd (m w)))" if "does view rebuild_step m w" for m :: "('a, 'x) go"
    using doesD [OF that, of "fst (m w)"] by simp
  show ?thesis
    using d [OF rebuild_Start_safe [OF s]] d [OF rebuild_Cancel_safe [OF s ok]] d [OF ProcessOne_safe [OF s ok]] by (cases call) simp_all
qed

lemma rebuild_run_step:
  assumes s: "rebuild_serves s M view" and ok: "rebuilds_ok (view w)"
  shows "rebuilds_ok (view (rebuild_run s calls w)) \<and> rebuilds_grow (view w) (view (rebuild_run s calls w))"
  using ok
proof (induction calls arbitrary: w)
  case Nil
  then show ?case by (simp add: rebuild_run_def rebuilds_grow_refl)
next
  case (Cons call calls)
  have r: "rebuild_run s (call # calls) w = rebuild_run s calls (rebuild_exec s call w)" by (simp add: rebuild_run_def)
  from stepD [OF rebuild_exec_step [OF s Cons.prems] Cons.prems] Cons.IH show ?case
    unfolding r using rebuilds_grow_trans by blast
qed


section \<open>The archive of events\<close>

text \<open>An archive call adds its entry, finds the same one there, or changes nothing.\<close>

definition archive_serves :: "'w EventArchive \<Rightarrow> ('w \<Rightarrow> archive_key \<rightharpoonup> ArchiveEntry) \<Rightarrow> bool" where
  "archive_serves a docs \<longleftrightarrow> collection_laws (av_collection a) archive_key docs (\<lambda>_. ())"

definition archive_run :: "'w EventArchive \<Rightarrow> ArchiveEntry list \<Rightarrow> 'w \<Rightarrow> 'w" where
  "archive_run a entries w = fold (\<lambda>entry w. snd (Archive (Some a) entry w)) entries w"

definition archive_ok :: "(archive_key \<rightharpoonup> ArchiveEntry) \<Rightarrow> bool" where
  "archive_ok docs \<longleftrightarrow> (\<forall>k e. docs k = Some e \<longrightarrow> archive_key e = k \<and> ArchiveEntry_Validate e = None)"

lemma Archive_call:
  assumes a: "archive_serves a docs" and run: "Archive (Some a) entry w = (r, w')"
  shows "(docs w' = docs w \<or> docs w (archive_key entry) = None \<and> ArchiveEntry_Validate entry = None
      \<and> docs w' = (docs w)(archive_key entry \<mapsto> entry))
    \<and> (\<forall>u. r = Inr u \<longrightarrow> ArchiveEntry_Validate entry = None
         \<and> (\<exists>e. docs w' (archive_key entry) = Some e \<and> ar_Raw e = ar_Raw entry \<and> ar_PayloadHash e = ar_PayloadHash entry))"
proof (cases "ArchiveEntry_Validate entry")
  case (Some e)
  with run show ?thesis by (auto simp: Archive_def go_simps)
next
  case None
  obtain q w1 where i: "c_InsertOne (av_collection a) entry w = (q, w1)" by force
  note law = InsertOne_law [OF a [unfolded archive_serves_def] i]
  show ?thesis
  proof (cases q)
    case Inserted
    with law(2) run i None show ?thesis by (auto simp: Archive_def go_simps)
  next
    case (InsertError m)
    with law(4) run i None show ?thesis by (auto simp: Archive_def go_simps)
  next
    case DuplicateKey
    obtain f w2 where f: "c_FindOne (av_collection a) (archive_key entry) w1 = (f, w2)" by force
    note find = FindOne_law [OF a [unfolded archive_serves_def] f]
    show ?thesis
      using DuplicateKey law(3) find run i f None
      by (cases f) (auto simp: Archive_def go_simps FindG_def split: if_splits)
  qed
qed

text \<open>
  C28: Over any calls of the event archive with any failures, an archived event never changes and is
  never lost, every one is valid with the hash of its payload, and a call that succeeded leaves an
  entry for its event with exactly its payload - so a second payload under the identifier of an
  archived event is refused.
\<close>

theorem archive_append_only:
  assumes "archive_serves a docs" "archive_ok (docs w)" "Archive (Some a) entry w = (r, w1)" "w' = archive_run a entries w1"
  shows "docs w \<subseteq>\<^sub>m docs w1 \<and> docs w1 \<subseteq>\<^sub>m docs w' \<and> archive_ok (docs w')
    \<and> (r = Inr () \<longrightarrow> (\<exists>e. docs w' (archive_key entry) = Some e \<and> ar_Raw e = ar_Raw entry))
    \<and> (\<forall>e. docs w (archive_key entry) = Some e \<longrightarrow> ar_Raw e \<noteq> ar_Raw entry \<longrightarrow> r \<noteq> Inr ())"
proof -
  have grow: "docs w \<subseteq>\<^sub>m docs w1 \<and> archive_ok (docs w1)"
    if "archive_ok (docs w)" "Archive (Some a) entry w = (r, w1)" for entry w r w1
    using Archive_call [OF assms(1) that(2)] that(1) by (auto simp: archive_ok_def map_le_def split: if_splits)
  have later: "docs w1 \<subseteq>\<^sub>m docs (archive_run a entries w1) \<and> archive_ok (docs (archive_run a entries w1))" if "archive_ok (docs w1)" for w1
    using that
  proof (induction entries arbitrary: w1)
    case (Cons e es)
    obtain r w2 where r: "Archive (Some a) e w1 = (r, w2)" by force
    from grow [OF Cons.prems r] Cons.IH [of w2] r map_le_trans show ?case by (auto simp: archive_run_def)
  qed (simp add: archive_run_def)
  note g = grow [OF assms(2,3)]
  note l = later [OF conjunct2 [OF g], folded assms(4)]
  have "\<exists>e. docs w1 (archive_key entry) = Some e \<and> ar_Raw e = ar_Raw entry" if "r = Inr ()"
    using Archive_call [OF assms(1,3)] that by blast
  then have s: "r = Inr () \<longrightarrow> (\<exists>e. docs w1 (archive_key entry) = Some e \<and> docs w' (archive_key entry) = Some e \<and> ar_Raw e = ar_Raw entry)"
    using l unfolding map_le_def by (metis domI)
  moreover have "r \<noteq> Inr ()" if "docs w (archive_key entry) = Some e" "ar_Raw e \<noteq> ar_Raw entry" for e
    using s g that unfolding map_le_def by (metis domI option.inject)
  ultimately show ?thesis using g l by blast
qed

section \<open>In memory\<close>

definition memory_archive :: "(archive_key \<rightharpoonup> ArchiveEntry) EventArchive" where
  "memory_archive = \<lparr>av_collection = memory_collection archive_key (\<lambda>m. m) (\<lambda>m _. m), av_query = (\<lambda>_ _ _ m. (Inr [], m))\<rparr>"

definition sample_event :: ArchiveEntry where
  "sample_event = \<lparr>ar_EventID = ''e'', ar_Consumer = ''c'', ar_Subject = ''s'', ar_TenantID = ''t'', ar_WorkspaceID = ''w'',
     ar_SourceSystem = ''bids'', ar_EventType = ''x'', ar_SchemaVersion = 1, ar_AggregateType = ''a'', ar_AggregateID = ''i'',
     ar_AggregateVersion = 1, ar_OccurredAt = 1, ar_ReceivedAt = 2, ar_PayloadHash = sha256_ref ''{}'', ar_Raw = ''{}''\<rparr>"

theorem archive_append_only_witness:
  "\<exists>e. archive_run memory_archive [sample_event\<lparr>ar_Raw := ''[]''\<rparr>] (snd (Archive (Some memory_archive) sample_event Map.empty)) (''c'', ''e'') = Some e
     \<and> ar_Raw e = ''{}''"
proof -
  have serves: "archive_serves memory_archive (\<lambda>m. m)"
    by (simp add: archive_serves_def memory_archive_def memory_collection_laws lens_def)
  have "ArchiveEntry_Validate sample_event = None"
    by (simp add: ArchiveEntry_Validate_def sample_event_def IsZero_def trim_simps)
  then have "Archive (Some memory_archive) sample_event Map.empty = (Inr (), [archive_key sample_event \<mapsto> sample_event])"
    by (simp add: Archive_def go_simps memory_archive_def memory_collection_def)
  from archive_append_only [OF serves _ this refl, of "[sample_event\<lparr>ar_Raw := ''[]''\<rparr>]"] this
  show ?thesis by (auto simp: archive_ok_def archive_key_def sample_event_def)
qed

text \<open>A service without archive and read pointers, as the code allows it, in memory.\<close>

definition sample_rebuild_key :: rebuild_key where
  "sample_rebuild_key = (''rebuild-1'', ''t'', ''w'')"

definition sample_rebuilds :: "(RebuildDB, unit) RebuildService" where
  "sample_rebuilds =
     \<lparr>rs_db = \<lparr>rd_operations = memory_collection rebuild_key x_rebuilds put_rebuilds,
         rd_runnable = (\<lambda>n v. (Inr (case x_rebuilds v sample_rebuild_key of
            Some a \<Rightarrow> if rb_Status a \<in> {RebuildAccepted, RebuildRunning, RebuildCancelRequested} \<and> rebuild_key a = sample_rebuild_key then [a] else []
          | None \<Rightarrow> []), v)),
         rd_Transaction = memory_transaction\<rparr>,
      rs_receipts = memory_receipts, rs_members = (\<lambda>_ _ _. ret sample_membership), rs_audit = memory_audit_writer,
      rs_Now = (\<lambda>v. (5, v)), rs_id = (\<lambda>v. (Inr ''0123456789ab'', v)), rs_Build = ret (), rs_GenerationID = (\<lambda>_. ''g''),
      rs_Complete = (\<lambda>_. True), rs_EntryCount = (\<lambda>_. 3), rs_TargetTableIDs = (\<lambda>_ _ _. []), rs_ActiveGenerationID = (\<lambda>_. []),
      rs_StoreGeneration = (\<lambda>_ v. v\<lparr>x_activated := insert ''g'' (x_activated v)\<rparr>), rs_archive = None, rs_readPointers = None,
      rs_retire = (\<lambda>_ _ _ v. (Inl ''none'', v)), rs_PointerNow = (\<lambda>v. (5, v)), rs_EnsureStagingIndexes = (\<lambda>_. ret ()),
      rs_projector = (\<lambda>_ _. Inr (\<lambda>_ _. ret ()))\<rparr>"

interpretation rebuild_store: receipt_store "receipt_Find rebuild_receipts memory_receipts"
  "receipt_Save rebuild_receipts memory_receipts" memory_audit_writer "rk_NotFound rebuild_receipts" "\<lambda>v. v"
  by (rule mongo_receipt_store [OF realises_memory [OF part_receipts] memory_audit_adds]) (simp add: rebuild_receipts_def)

lemma sample_rebuilds_serve: "rebuild_serves sample_rebuilds {sample_membership} (\<lambda>v. v)"
  by (auto simp: rebuild_serves_def sample_rebuilds_def realises_memory part_rebuilds part_receipts memory_audit_adds
      memory_transaction_laws reads_members_def ret_def does_def meanwhile.step_refl split: option.splits if_splits)

definition sample_rebuild :: RebuildOperation where
  "sample_rebuild = (new_rebuild sample_owner \<lparr>ri_TenantID = ''t'', ri_WorkspaceID = ''w'', ri_RequestID = ''r'', ri_IdempotencyKey = ''k''\<rparr>
     ''rebuild-1'' 5)"

definition one_rebuild :: RebuildDB where
  "one_rebuild = \<lparr>x_receipts = Map.empty, x_audit = [], x_rebuilds = [sample_rebuild_key \<mapsto> sample_rebuild], x_activated = {}\<rparr>"


end
