(* ===== verification/Spec2Isabelle.thy ===== *)
theory Spec2Isabelle
  imports Identity Rotation Canonical AuditLog Binding Commands CommandStore CommandService CommandInbox Tags Views RecordFeed Mongo RecordModel ProjectionInbox ProjectionStore Connector Onboarding Delivery ReadPointers Effects Receipts Schemas SchemaRegistry RecordInput RecordStore Records RecordRuns Base64 RecordQueries Export RecordAdmin AdminRuns JsonRoundtrip JsonStruct Session WebAuth WebRuns Compatibility Migration MigrationRuns Rebuild RebuildRuns
begin

text \<open>
  The record hub server (\<open>src/server\<close>, Go) keeps records of many tenants in MongoDB, projects
  the events of owner systems (NATS JetStream) into such records, hands snapshots of records to
  workflows and passes commands back to the owners. This development models the services of
  \<open>src/server/internal/modules\<close> and the browser login of \<open>internal/web\<close> as HOL functions, operation
  by operation, and proves what makes them correct, mostly over every sequence of calls and with
  every failure of the database.

  \<^bold>\<open>How the program fits together.\<close> Every call of a service names a principal: a user from a
  session cookie (\<open>Session\<close>, \<open>WebAuth\<close>) or a bearer token (\<open>Identity\<close>), or a workload whose principal
  is rotated by \<open>Rotation\<close>. \<open>Identity.Authorize\<close> decides by the membership of the user in the
  workspace, exact machine policies decide for services (\<open>Binding\<close>, \<open>Commands\<close>). Changes are made
  once per idempotency key (\<open>Receipts\<close>) in a transaction with their audit entry (\<open>AuditLog\<close>).
  Records and their tables, views, tags and indexes live in \<open>Records\<close> and \<open>RecordAdmin\<close>, checked
  against schemas that \<open>SchemaRegistry\<close> publishes and never changes again. Events come in through
  \<open>Delivery\<close>, are claimed in \<open>ProjectionInbox\<close> and applied in order by \<open>ProjectionStore\<close>; \<open>Rebuild\<close>
  replays the archive into staged collections that \<open>ReadPointers\<close> makes active, guided by the
  mappings of \<open>Catalog\<close>. Every change reaches the subscribers of \<open>RecordFeed\<close>.

  \<^bold>\<open>Prelude.\<close> \<open>GoPrelude\<close> (strings as byte strings, \<open>strings.TrimSpace\<close> and others, the collections
  of facts \<open>go_simps\<close>), \<open>GoErrors\<close> (every sentinel error as a value, wrapping, \<open>errors.Is\<close>), \<open>GoMap\<close>
  (maps whose order is observable, as sorted association lists), \<open>GoTime\<close>, \<open>Base64\<close>, \<open>Patterns\<close>
  (regular expressions as predicates), \<open>Sha256\<close> (executable; in proofs only a function), \<open>Json\<close>,
  \<open>JsonStruct\<close>, \<open>JsonRoundtrip\<close> and \<open>Canonical\<close> (decoding, encoding, canonical texts), \<open>Mongo\<close> (a
  collection as a record of the calls the code makes, the laws of MongoDB as named hypotheses, a
  database in memory that satisfies them), \<open>Effects\<close> (what a call keeps and changes, rules by
  composition) and \<open>Receipts\<close> (the receipt stores and the locale of what they promise).

  \<^bold>\<open>Components and their sources\<close> (under \<open>internal/modules\<close>):
  \<^item> \<open>Identity\<close>: \<open>identity/principal.go\<close>, \<open>authorization.go\<close>, \<open>mongo_membership.go\<close>, \<open>verifier.go\<close>,
    \<open>bearer.go\<close>. \<open>Rotation\<close>: \<open>identity/rotation.go\<close>, with an abstract machine it refines.
  \<^item> \<open>Schemas\<close>, \<open>SchemaRegistry\<close>, \<open>Compatibility\<close>, \<open>Migration\<close>, \<open>MigrationRuns\<close>: package \<open>schema\<close>.
  \<^item> \<open>Binding\<close>: package \<open>binding\<close>. \<open>AuditLog\<close>: package \<open>audit\<close>.
  \<^item> \<open>Commands\<close>, \<open>CommandStore\<close>, \<open>CommandService\<close>, \<open>CommandInbox\<close>: package \<open>commands\<close>, with the
    store and the inbox in memory.
  \<^item> \<open>RecordModel\<close>, \<open>Tags\<close>, \<open>Views\<close>, \<open>RecordStore\<close>, \<open>RecordInput\<close>, \<open>Records\<close>, \<open>RecordRuns\<close>,
    \<open>RecordQueries\<close>, \<open>Export\<close>, \<open>RecordAdmin\<close>, \<open>AdminRuns\<close>, \<open>RecordFeed\<close>: package \<open>records\<close>.
  \<^item> \<open>Delivery\<close> (\<open>registry.go\<close>, \<open>retry.go\<close>, \<open>nats.go\<close>), \<open>ProjectionInbox\<close> (\<open>inbox.go\<close>), \<open>ProjectionStore\<close>
    (\<open>store.go\<close>), \<open>ReadPointers\<close> (\<open>read_pointer.go\<close>), \<open>Rebuild\<close> and \<open>RebuildRuns\<close> (\<open>rebuild.go\<close>,
    \<open>archive.go\<close>): package \<open>projection\<close>.
  \<^item> \<open>Connector\<close> (\<open>registry.go\<close>), \<open>Onboarding\<close> (\<open>onboarding.go\<close>): package \<open>connector\<close>.
  \<^item> \<open>Session\<close>, \<open>WebAuth\<close>, \<open>WebRuns\<close>: \<open>internal/web/session.go\<close> and \<open>auth.go\<close>.

  \<^bold>\<open>How code becomes definitions.\<close> A struct is a record whose fields carry a prefix, an enumeration
  of strings a datatype with a constructor for all other strings, an \<open>error\<close> result \<open>goerr option\<close>,
  a result with an error a sum. \<open>int64\<close> values are \<open>int\<close> with the wrap-around written out where the
  code computes with them, \<open>uint64\<close> is a \<open>64 word\<close>, an instant is the number of nanoseconds since
  the year 1, nil is \<open>None\<close>. A call that may fail and change the world is a function from the state
  to a result and the state; services are records of the interfaces they were built from. What is
  not under \<open>src/\<close> is an argument: the MongoDB driver, the broker, the token verifier, the schema
  library, \<open>bson.MarshalExtJSON\<close>, \<open>url.Parse\<close>, HTTP, the clock and the random source. Where a
  property needs a law of one of them, the law is a hypothesis with a name (\<open>collection_laws\<close>,
  \<open>transaction_laws\<close>, \<open>realises\<close>), and the witness of the property proves it for a database in memory
  (\<open>memory_collection\<close>) and runs the code on it.

  \<^bold>\<open>What the lemmas show.\<close> Each service theory ends with the outcome of its calls: who may make
  them, what they store, that a failed one changes nothing. The theories \<open>RecordRuns\<close>, \<open>AdminRuns\<close>,
  \<open>MigrationRuns\<close>, \<open>RebuildRuns\<close>, \<open>WebRuns\<close> and the last parts of \<open>CommandService\<close>, \<open>Rotation\<close>,
  \<open>Onboarding\<close>, \<open>SchemaRegistry\<close>, \<open>ProjectionStore\<close> lift them to all sequences of calls by step
  relations: life cycles, immutability, replay of idempotent calls, authorization. Pure parts have
  functional specifications (cursors, exports, compatibility, canonical JSON) and round trips.

  \<^bold>\<open>Loops and bounds.\<close> All loops over data are structural or have a measure. The pages of an
  export are read in a loop that the code bounds only by the rows: \<open>export_loop\<close> is a
  \<open>partial_function\<close> and \<open>ExportRecords_terminates\<close> proves that it returns whatever the database
  answers. Loops that serve forever (the pull loop, the workers) are modelled by one turn, and the
  properties quantify over all lists of turns. No definition takes fuel.

  \<^bold>\<open>Not modelled.\<close> HTTP handlers (request decoding and answer encoding only), configuration and
  wiring, metrics, logging, health, rate limits, static pages, the client library and the tools;
  the summary projectors and the association readers, which are handlers that \<open>Delivery\<close> takes as a
  parameter; reports for operators; the MongoDB stores of commands, the command inbox and snapshots,
  whose services are modelled over the interface and the store in memory; the wrappers of the JSON
  schema library. Creating indexes is represented by the unique keys of the collections. Parallel
  calls are sequences of calls, and steps of others between two calls of one service where its code
  allows them (\<open>RebuildRuns.users_step\<close>).
\<close>

end
